(* ===== verification/Prelude.thy ===== *)
theory Prelude
  imports Main "HOL-Library.Word"
begin

text \<open>
  Vocabulary shared by every component of the model.

  A thrown JavaScript error is a value of \<open>js_error\<close>; it carries the fixed part of the
  message (the interpolated values are left out). A function that may throw returns
  \<open>'a result\<close>, \<open>Inl\<close> for the error. A \<open>Uint8Array\<close> is a list of 8-bit words, a
  \<open>bigint\<close> is an \<open>int\<close>. The two interfaces of the library are stated here as locales:
  \<open>codec\<close> (an encoder with the decoder that undoes it) and \<open>preserved\<close> (a state machine
  with an invariant its steps keep).
\<close>

section \<open>Results\<close>

datatype js_error = Error string | RangeError string | TypeError string

type_synonym 'a result = "js_error + 'a"

definition error_message :: "js_error \<Rightarrow> string" where
  "error_message e = (case e of Error m \<Rightarrow> m | RangeError m \<Rightarrow> m | TypeError m \<Rightarrow> m)"

type_synonym byte = "8 word"

type_synonym bytes = "byte list"

named_theorems result_simps "equations that take apart a sequence of fallible steps"

named_theorems js_simps "equations of the JavaScript integer and array operations"

definition bindR :: "'e + 'a \<Rightarrow> ('a \<Rightarrow> 'e + 'b) \<Rightarrow> 'e + 'b" where
  "bindR m f = (case m of Inl e \<Rightarrow> Inl e | Inr x \<Rightarrow> f x)"

lemma bindR_simps [simp]: "bindR (Inl e) f = Inl e" "bindR (Inr x) f = f x"
  by (simp_all add: bindR_def)

lemma bindR_cong [fundef_cong]:
  "m = m' \<Longrightarrow> (\<And>x. m' = Inr x \<Longrightarrow> f x = g x) \<Longrightarrow> bindR m f = bindR m' g"
  by (cases m') (simp_all add: bindR_def)

lemma bindR_Inr_iff [result_simps]:
  "bindR m f = Inr y \<longleftrightarrow> (\<exists>x. m = Inr x \<and> f x = Inr y)"
  by (cases m) (simp_all add: bindR_def)

lemma bindR_Inl_iff [result_simps]:
  "bindR m f = Inl e \<longleftrightarrow> m = Inl e \<or> (\<exists>x. m = Inr x \<and> f x = Inl e)"
  by (cases m) (simp_all add: bindR_def)

lemma bindR_assoc: "bindR (bindR m f) g = bindR m (\<lambda>x. bindR (f x) g)"
  by (cases m) simp_all

lemma bindR_Inr_right [simp]: "bindR m Inr = m"
  by (cases m) simp_all

fun mapR :: "('a \<Rightarrow> 'e + 'b) \<Rightarrow> 'a list \<Rightarrow> 'e + 'b list" where
  "mapR f [] = Inr []"
| "mapR f (x # xs) = bindR (f x) (\<lambda>y. bindR (mapR f xs) (\<lambda>ys. Inr (y # ys)))"

lemma mapR_cong [fundef_cong]:
  "xs = ys \<Longrightarrow> (\<And>x. x \<in> set ys \<Longrightarrow> f x = g x) \<Longrightarrow> mapR f xs = mapR g ys"
  by (induction ys arbitrary: xs) auto

lemma mapR_Inr_iff [result_simps]:
  "mapR f xs = Inr ys \<longleftrightarrow> list_all2 (\<lambda>x y. f x = Inr y) xs ys"
proof (induction xs arbitrary: ys)
  case Nil
  then show ?case by auto
next
  case (Cons x xs)
  show ?case
    by (cases ys) (auto simp: result_simps Cons.IH)
qed

lemma mapR_append:
  "mapR f (xs @ ys) = bindR (mapR f xs) (\<lambda>us. bindR (mapR f ys) (\<lambda>vs. Inr (us @ vs)))"
proof (induction xs)
  case Nil
  then show ?case by (cases "mapR f ys") simp_all
next
  case (Cons x xs)
  show ?case
    by (cases "f x"; cases "mapR f xs"; cases "mapR f ys") (simp_all add: Cons.IH)
qed

lemma mapR_length: "mapR f xs = Inr ys \<Longrightarrow> length ys = length xs"
  by (auto simp: mapR_Inr_iff dest: list_all2_lengthD)

lemma mapR_nth: "mapR f xs = Inr ys \<Longrightarrow> i < length xs \<Longrightarrow> f (xs ! i) = Inr (ys ! i)"
  by (auto simp: mapR_Inr_iff dest: list_all2_nthD)

lemma mapR_total: "(\<And>x. x \<in> set xs \<Longrightarrow> \<exists>y. f x = Inr y) \<Longrightarrow> \<exists>ys. mapR f xs = Inr ys"
  by (induction xs) (force simp: result_simps)+

lemma mapR_Inr_map: "(\<And>x. x \<in> set xs \<Longrightarrow> f x = Inr (g x)) \<Longrightarrow> mapR f xs = Inr (map g xs)"
  by (induction xs) auto

section \<open>JavaScript integers and arrays\<close>

text \<open>The remainder of a \<open>bigint\<close> (\<open>%\<close>) has the sign of the dividend.\<close>

definition jsrem :: "int \<Rightarrow> int \<Rightarrow> int" where
  "jsrem a b = sgn a * (\<bar>a\<bar> mod \<bar>b\<bar>)"

lemma jsrem_nonneg [js_simps]: "0 \<le> a \<Longrightarrow> 0 < b \<Longrightarrow> jsrem a b = a mod b"
  by (cases "a = 0") (simp_all add: jsrem_def)

lemma jsrem_self [simp]: "jsrem a a = 0"
  by (simp add: jsrem_def)

lemma jsrem_neg:
  assumes "a < 0" "0 < b"
  shows "jsrem a b = (if a mod b = 0 then 0 else a mod b - b)"
proof -
  have "(- a) mod b = (if a mod b = 0 then 0 else b - a mod b)"
    by (simp add: zmod_zminus1_eq_if)
  with assms show ?thesis by (simp add: jsrem_def)
qed

text \<open>
  A bitwise operator of JavaScript first converts a number to a signed 32-bit integer;
  \<open>>>\<close> shifts it arithmetically and \<open>& 1\<close> reads its lowest bit.
\<close>

definition toInt32 :: "int \<Rightarrow> int" where
  "toInt32 x = (x + 2 ^ 31) mod 2 ^ 32 - 2 ^ 31"

definition shr32 :: "int \<Rightarrow> nat \<Rightarrow> int" where
  "shr32 x k = toInt32 x div 2 ^ (k mod 32)"

definition and1 :: "int \<Rightarrow> int" where
  "and1 x = toInt32 x mod 2"

lemma toInt32_small [js_simps]: "0 \<le> x \<Longrightarrow> x < 2 ^ 31 \<Longrightarrow> toInt32 x = x"
  by (simp add: toInt32_def)

lemma shr32_small [js_simps]:
  "0 \<le> x \<Longrightarrow> x < 2 ^ 31 \<Longrightarrow> k < 32 \<Longrightarrow> shr32 x k = x div 2 ^ k"
  by (simp add: shr32_def toInt32_small)

lemma and1_small [js_simps]: "0 \<le> x \<Longrightarrow> x < 2 ^ 31 \<Longrightarrow> and1 x = x mod 2"
  by (simp add: and1_def toInt32_small)

text \<open>An array read: \<open>None\<close> is \<open>undefined\<close>.\<close>

definition arr :: "'a list \<Rightarrow> int \<Rightarrow> 'a option" where
  "arr xs i = (if 0 \<le> i \<and> i < int (length xs) then Some (xs ! nat i) else None)"

lemma arr_of_nat [js_simps]: "arr xs (int i) = (if i < length xs then Some (xs ! i) else None)"
  by (simp add: arr_def)

text \<open>\<open>a ?? b\<close> on an optional value.\<close>

definition orElse :: "'a option \<Rightarrow> 'a \<Rightarrow> 'a" where
  "orElse x d = (case x of None \<Rightarrow> d | Some v \<Rightarrow> v)"

lemma orElse_simps [simp]: "orElse None d = d" "orElse (Some v) d = v"
  by (simp_all add: orElse_def)

text \<open>\<open>slice(i, j)\<close> with both bounds non-negative clamps them to the length.\<close>

definition subarray :: "nat \<Rightarrow> nat \<Rightarrow> 'a list \<Rightarrow> 'a list" where
  "subarray i j xs = take (j - i) (drop i xs)"

lemma length_subarray [simp]: "length (subarray i j xs) = min (j - i) (length xs - i)"
  by (simp add: subarray_def min.commute)

lemma sorted_le_last: "sorted xs \<Longrightarrow> x \<in> set xs \<Longrightarrow> x \<le> last xs"
  by (induction xs) (auto dest: last_in_set)

section \<open>Interfaces\<close>

text \<open>
  An encoder and the decoder that undoes it. The client lemmas are the ones every pair of
  encoding functions of the program is used for: encodings are injective, and lists of
  encoded values decode to the original list.
\<close>

locale codec =
  fixes enc :: "'a \<Rightarrow> 'e + 'b" and dec :: "'b \<Rightarrow> 'f + 'a"
  assumes dec_enc: "enc x = Inr y \<Longrightarrow> dec y = Inr x"
begin

lemma enc_injective: "enc x = Inr z \<Longrightarrow> enc y = Inr z \<Longrightarrow> x = y"
  by (metis dec_enc sum.inject(2))

lemma dec_enc_list: "mapR enc xs = Inr ys \<Longrightarrow> mapR dec ys = Inr xs"
proof (induction xs arbitrary: ys)
  case Nil
  then show ?case by simp
next
  case (Cons x xs)
  then show ?case by (auto simp: result_simps list_all2_Cons1 dest: dec_enc)
qed

lemma enc_list_injective: "mapR enc xs = Inr zs \<Longrightarrow> mapR enc ys = Inr zs \<Longrightarrow> xs = ys"
  by (metis dec_enc_list sum.inject(2))

end

text \<open>A codec whose decoder accepts nothing but encodings.\<close>

locale bicodec = codec +
  assumes enc_dec: "dec y = Inr x \<Longrightarrow> enc x = Inr y"
begin

lemma enc_iff_dec: "enc x = Inr y \<longleftrightarrow> dec y = Inr x"
  by (blast intro: dec_enc enc_dec)

lemma dec_injective: "dec y = Inr x \<Longrightarrow> dec z = Inr x \<Longrightarrow> y = z"
  by (metis enc_dec sum.inject(2))

end

text \<open>A state machine with an invariant; its runs are folds of the step function.\<close>

locale preserved =
  fixes step :: "'s \<Rightarrow> 'op \<Rightarrow> 's" and inv :: "'s \<Rightarrow> bool"
  assumes step_inv: "inv s \<Longrightarrow> inv (step s oper)"
begin

lemma run_inv: "inv s \<Longrightarrow> inv (foldl step s opers)"
  by (induction opers arbitrary: s) (simp_all add: step_inv)

lemma run_inv_prefix: "inv s \<Longrightarrow> inv (foldl step s (take n opers))"
  by (rule run_inv)

end

end
