(* ===== verification/Field.thy ===== *)
theory Field
  imports Prelude
begin

text \<open>
  The BN254 scalar field of the zero-knowledge recovery pool
  (\<open>passkey-sdk/src/zkRecovery/field.ts\<close>) and the guarded Poseidon2 call
  (\<open>zkRecovery/poseidon.ts\<close>). The hash itself, \<open>@zkpassport/poseidon2\<close>, is a
  parameter \<open>pos\<close>; the only fact the code relies on is that it returns a canonical
  field element (\<open>canonical_hash\<close>).
\<close>

section \<open>Byte strings as integers\<close>

definition FIELD_ORDER_BE :: bytes where
  "FIELD_ORDER_BE =
    [0x30, 0x64, 0x4e, 0x72, 0xe1, 0x31, 0xa0, 0x29, 0xb8, 0x50, 0x45, 0xb6, 0x81, 0x81, 0x58, 0x5d,
     0x28, 0x33, 0xe8, 0x48, 0x79, 0xb9, 0x70, 0x91, 0x43, 0xe1, 0xf5, 0x93, 0xf0, 0x00, 0x00, 0x01]"

definition bytesToBigIntBE :: "bytes \<Rightarrow> int" where
  "bytesToBigIntBE bs = foldl (\<lambda>x b. x * 256 + uint b) 0 bs"

definition FIELD_ORDER :: int where
  "FIELD_ORDER = bytesToBigIntBE FIELD_ORDER_BE"

definition DOM_LEAF :: int where
  "DOM_LEAF = 0x10d2382af89f3c1732985422f0ba530d1dd0ed3066ecce5650b78f0c4ad8274a"

definition DOM_BIND :: int where
  "DOM_BIND = 0x14fa8513f19a07697a83cf582b40cb80bb2176f890614912553b81cdff71ec81"

definition DOM_NULL :: int where
  "DOM_NULL = 0x138891cc07f52d2ec29e835298ae2120acd9573ec4a83c573885abf9710b73b2"

definition DOM_AUTH :: int where
  "DOM_AUTH = 0x2886eb8be3a3ff75b86ac004fdbe5c17fd2de6ab4fd416d38683a2e0e91d9906"

definition reduce384 :: "bytes \<Rightarrow> int result" where
  "reduce384 okm48 =
     (if length okm48 \<noteq> 48 then Inl (Error ''reduce384: expected 48 bytes'')
      else Inr (jsrem (bytesToBigIntBE okm48) FIELD_ORDER))"

definition split16 :: "bytes \<Rightarrow> (int \<times> int) result" where
  "split16 b32 =
     (if length b32 \<noteq> 32 then Inl (Error ''split16: expected 32 bytes'')
      else Inr (bytesToBigIntBE (subarray 0 16 b32), bytesToBigIntBE (subarray 16 32 b32)))"

definition u256FromU64 :: "int \<Rightarrow> int result" where
  "u256FromU64 x =
     (if x < 0 \<or> x > 0xffffffffffffffff then Inl (Error ''u256FromU64: value out of u64 range'')
      else Inr x)"

text \<open>
  The loop of \<open>fieldToBytes32\<close> writes \<open>v & 0xff\<close> from index 31 down to 0 and shifts
  \<open>v\<close> right by eight bits after each write; \<open>toBytesBE n v\<close> is what \<open>n\<close> rounds of it
  leave in the array.
\<close>

fun toBytesBE :: "nat \<Rightarrow> int \<Rightarrow> bytes" where
  "toBytesBE 0 v = []"
| "toBytesBE (Suc n) v = toBytesBE n (v div 256) @ [word_of_int (v mod 256)]"

definition fieldToBytes32 :: "int \<Rightarrow> bytes result" where
  "fieldToBytes32 x =
     (if x < 0 \<or> x \<ge> FIELD_ORDER then Inl (Error ''fieldToBytes32: value out of canonical range'')
      else Inr (toBytesBE 32 x))"

definition bytesToFieldCanonical :: "bytes \<Rightarrow> int result" where
  "bytesToFieldCanonical b =
     (if length b \<noteq> 32 then Inl (Error ''bytesToFieldCanonical: expected 32 bytes'')
      else if bytesToBigIntBE b \<ge> FIELD_ORDER
      then Inl (Error ''bytesToFieldCanonical: value >= FIELD_ORDER (non-canonical)'')
      else Inr (bytesToBigIntBE b))"

section \<open>Poseidon2 at the supported arities\<close>

type_synonym hash = "int list \<Rightarrow> int"

definition canonical :: "int \<Rightarrow> bool" where
  "canonical x \<longleftrightarrow> 0 \<le> x \<and> x < FIELD_ORDER"

definition canonical_hash :: "hash \<Rightarrow> bool" where
  "canonical_hash pos \<longleftrightarrow> (\<forall>xs. canonical (pos xs))"

definition SUPPORTED_ARITIES :: "nat set" where
  "SUPPORTED_ARITIES = {2, 4, 15}"

definition reduce :: "int \<Rightarrow> int" where
  "reduce x = jsrem (jsrem x FIELD_ORDER + FIELD_ORDER) FIELD_ORDER"

definition p2 :: "hash \<Rightarrow> int list \<Rightarrow> int result" where
  "p2 pos inputs =
     (if length inputs \<notin> SUPPORTED_ARITIES then Inl (Error ''p2: unsupported arity'')
      else Inr (pos (map reduce inputs)))"

section \<open>Facts\<close>

lemma FIELD_ORDER_val:
  "FIELD_ORDER = 21888242871839275222246405745257275088548364400416034343698204186575808495617"
  by (simp add: FIELD_ORDER_def FIELD_ORDER_BE_def bytesToBigIntBE_def)

lemma FIELD_ORDER_pos [simp]: "0 < FIELD_ORDER"
  by (simp add: FIELD_ORDER_val)

lemma FIELD_ORDER_bound: "FIELD_ORDER < 256 ^ 32"
  by (simp add: FIELD_ORDER_val)

lemma bytesToBigIntBE_Nil [simp]: "bytesToBigIntBE [] = 0"
  by (simp add: bytesToBigIntBE_def)

lemma bytesToBigIntBE_snoc [simp]:
  "bytesToBigIntBE (bs @ [b]) = bytesToBigIntBE bs * 256 + uint b"
  by (simp add: bytesToBigIntBE_def)

lemma uint_byte: "0 \<le> uint (b :: byte)" "uint (b :: byte) < 256"
  using uint_lt2p [of b] by simp_all

lemma bytesToBigIntBE_bounds:
  "0 \<le> bytesToBigIntBE bs \<and> bytesToBigIntBE bs < 256 ^ length bs"
proof (induction bs rule: rev_induct)
  case Nil
  then show ?case by simp
next
  case (snoc b bs)
  then show ?case using uint_byte [of b] by simp
qed

lemma bytesToBigIntBE_append:
  "bytesToBigIntBE (as @ bs) = bytesToBigIntBE as * 256 ^ length bs + bytesToBigIntBE bs"
  by (induction bs rule: rev_induct) (simp_all add: algebra_simps flip: append_assoc)

lemma length_toBytesBE [simp]: "length (toBytesBE n v) = n"
  by (induction n arbitrary: v) simp_all

lemma toBytesBE_value: "0 \<le> v \<Longrightarrow> bytesToBigIntBE (toBytesBE n v) = v mod 256 ^ n"
proof (induction n arbitrary: v)
  case 0
  then show ?case by simp
next
  case (Suc n)
  then show ?case
    by (simp add: uint_word_of_int zmod_zmult2_eq pos_imp_zdiv_nonneg_iff)
qed

lemma toBytesBE_of_value: "length bs = n \<Longrightarrow> toBytesBE n (bytesToBigIntBE bs) = bs"
proof (induction n arbitrary: bs)
  case 0
  then show ?case by simp
next
  case (Suc n)
  then obtain as b where bs: "bs = as @ [b]" and as: "length as = n"
    by (cases bs rule: rev_cases) auto
  have "(bytesToBigIntBE as * 256 + uint b) div 256 = bytesToBigIntBE as"
    using uint_byte [of b] by simp
  moreover have "(bytesToBigIntBE as * 256 + uint b) mod 256 = uint b"
    using uint_byte [of b] by simp
  ultimately show ?case using Suc.IH [OF as] bs by simp
qed

lemma bytesToBigIntBE_inj:
  "length as = length bs \<Longrightarrow> bytesToBigIntBE as = bytesToBigIntBE bs \<Longrightarrow> as = bs"
  by (metis toBytesBE_of_value)

lemma reduce_mod [simp]: "reduce x = x mod FIELD_ORDER"
proof -
  have m: "0 \<le> x mod FIELD_ORDER" "x mod FIELD_ORDER < FIELD_ORDER" by simp_all
  show ?thesis
  proof (cases "0 \<le> x")
    case True
    have "jsrem (x mod FIELD_ORDER + FIELD_ORDER) FIELD_ORDER = x mod FIELD_ORDER"
      using m FIELD_ORDER_pos by (subst jsrem_nonneg) (auto simp del: FIELD_ORDER_pos)
    with True show ?thesis by (simp add: reduce_def jsrem_nonneg)
  next
    case False
    then show ?thesis using m by (auto simp: reduce_def jsrem_neg jsrem_nonneg)
  qed
qed

lemma canonical_reduce [simp]: "canonical x \<Longrightarrow> x mod FIELD_ORDER = x"
  by (simp add: canonical_def)

lemma canonical_mod [simp]: "canonical (x mod FIELD_ORDER)"
  by (simp add: canonical_def)

lemma p2_arity_2 [simp]: "p2 pos [a, b] = Inr (pos [a mod FIELD_ORDER, b mod FIELD_ORDER])"
  by (simp add: p2_def SUPPORTED_ARITIES_def)

lemma p2_arity_4 [simp]:
  "p2 pos [a, b, c, d] =
     Inr (pos [a mod FIELD_ORDER, b mod FIELD_ORDER, c mod FIELD_ORDER, d mod FIELD_ORDER])"
  by (simp add: p2_def SUPPORTED_ARITIES_def)

lemma p2_canonical: "canonical_hash pos \<Longrightarrow> p2 pos xs = Inr h \<Longrightarrow> canonical h"
  by (auto simp: p2_def canonical_hash_def split: if_splits)

text \<open>The two encodings of a field element undo each other.\<close>

lemma fieldToBytes32_Inr:
  "fieldToBytes32 x = Inr b \<longleftrightarrow> canonical x \<and> b = toBytesBE 32 x"
  by (auto simp: fieldToBytes32_def canonical_def)

lemma bytesToFieldCanonical_Inr:
  "bytesToFieldCanonical b = Inr x \<longleftrightarrow> length b = 32 \<and> x = bytesToBigIntBE b \<and> x < FIELD_ORDER"
  by (auto simp: bytesToFieldCanonical_def)

lemma bytesToFieldCanonical_canonical: "bytesToFieldCanonical b = Inr x \<Longrightarrow> canonical x"
  using bytesToBigIntBE_bounds [of b] by (simp add: bytesToFieldCanonical_Inr canonical_def)

interpretation field: bicodec fieldToBytes32 bytesToFieldCanonical
proof unfold_locales
  show "bytesToFieldCanonical b = Inr x" if "fieldToBytes32 x = Inr b" for x b
    using that FIELD_ORDER_bound
    by (auto simp: fieldToBytes32_Inr bytesToFieldCanonical_Inr canonical_def toBytesBE_value)
next
  show "fieldToBytes32 x = Inr b" if "bytesToFieldCanonical b = Inr x" for x b
    using that bytesToBigIntBE_bounds [of b]
    by (auto simp: fieldToBytes32_Inr bytesToFieldCanonical_Inr canonical_def toBytesBE_of_value)
qed

lemma fieldToBytes32_total: "canonical x \<Longrightarrow> \<exists>b. fieldToBytes32 x = Inr b"
  by (simp add: fieldToBytes32_Inr)

lemma split16_Inr:
  "split16 b = Inr (hi, lo) \<longleftrightarrow>
     length b = 32 \<and> hi = bytesToBigIntBE (take 16 b) \<and> lo = bytesToBigIntBE (drop 16 b)"
  by (auto simp: split16_def subarray_def)

lemma split16_bounds:
  "split16 b = Inr (hi, lo) \<Longrightarrow> 0 \<le> hi \<and> hi < 2 ^ 128 \<and> 0 \<le> lo \<and> lo < 2 ^ 128"
  using bytesToBigIntBE_bounds [of "take 16 b"] bytesToBigIntBE_bounds [of "drop 16 b"]
  by (simp add: split16_Inr)

lemma split16_recompose:
  "split16 b = Inr (hi, lo) \<Longrightarrow> bytesToBigIntBE b = hi * 2 ^ 128 + lo"
  using bytesToBigIntBE_append [of "take 16 b" "drop 16 b"] by (simp add: split16_Inr)

lemma split16_inj: "split16 a = Inr h \<Longrightarrow> split16 b = Inr h \<Longrightarrow> a = b"
  by (cases h) (metis split16_Inr split16_recompose bytesToBigIntBE_inj)

lemma split16_canonical:
  "split16 b = Inr (hi, lo) \<Longrightarrow> canonical hi \<and> canonical lo"
  using split16_bounds [of b hi lo] by (auto simp: canonical_def FIELD_ORDER_val)

lemma u256FromU64_Inr: "u256FromU64 x = Inr y \<longleftrightarrow> y = x \<and> 0 \<le> x \<and> x < 2 ^ 64"
  by (auto simp: u256FromU64_def)

lemma reduce384_canonical: "reduce384 b = Inr x \<Longrightarrow> canonical x"
  using bytesToBigIntBE_bounds [of b]
  by (auto simp: reduce384_def jsrem_nonneg split: if_splits)

end
