(* ===== verification/Merkle.thy ===== *)
theory Merkle
  imports Field
begin

text \<open>
  The depth-24 Merkle tree of the recovery pool: the client's in-memory tree
  (\<open>passkey-sdk/src/zkRecovery/merkle.ts\<close>, which rebuilds all layers) and the indexer's
  frontier algorithm (\<open>infra/pool-indexer/src/merkle.ts\<close>). Both are related to one
  specification, \<open>node\<close>, the value of the node at a level and an index.
\<close>

section \<open>The client's tree\<close>

definition DEPTH :: nat where
  "DEPTH = 24"

text \<open>The initialiser pushes \<open>p2([z, z])\<close> of the last element \<open>DEPTH\<close> times.\<close>

fun zerosLoop :: "hash \<Rightarrow> nat \<Rightarrow> int list \<Rightarrow> int list result" where
  "zerosLoop pos 0 zeros = Inr zeros"
| "zerosLoop pos (Suc n) zeros =
     bindR (p2 pos [last zeros, last zeros]) (\<lambda>z. zerosLoop pos n (zeros @ [z]))"

definition ZEROS :: "hash \<Rightarrow> int list result" where
  "ZEROS pos = zerosLoop pos DEPTH [0]"

definition computeRootStep :: "hash \<Rightarrow> int \<Rightarrow> nat \<Rightarrow> int \<Rightarrow> int \<Rightarrow> int result" where
  "computeRootStep pos index level sib cur =
     (if and1 (shr32 index level) = 0 then p2 pos [cur, sib] else p2 pos [sib, cur])"

fun computeRootFrom :: "hash \<Rightarrow> int \<Rightarrow> nat \<Rightarrow> int list \<Rightarrow> int \<Rightarrow> int result" where
  "computeRootFrom pos index level [] cur = Inr cur"
| "computeRootFrom pos index level (sib # sibs) cur =
     bindR (computeRootStep pos index level sib cur)
       (\<lambda>cur'. computeRootFrom pos index (Suc level) sibs cur')"

definition computeRoot :: "hash \<Rightarrow> int \<Rightarrow> int \<Rightarrow> int list \<Rightarrow> int result" where
  "computeRoot pos leaf index siblings =
     (if length siblings \<noteq> DEPTH then Inl (Error ''computeRoot: expected DEPTH siblings'')
      else computeRootFrom pos index 0 siblings leaf)"

text \<open>\<open>IncrementalTree\<close> is its list of leaves.\<close>

record incremental_tree =
  leaves :: "int list"

definition emptyTree :: incremental_tree where
  "emptyTree = \<lparr>leaves = []\<rparr>"

definition tree_insert :: "incremental_tree \<Rightarrow> int \<Rightarrow> incremental_tree \<times> nat" where
  "tree_insert t leaf = (t\<lparr>leaves := leaves t @ [leaf]\<rparr>, length (leaves t))"

definition nextLayer :: "hash \<Rightarrow> int \<Rightarrow> int list \<Rightarrow> int list result" where
  "nextLayer pos zero layer =
     mapR (\<lambda>i. p2 pos [orElse (arr layer (2 * int i)) zero, orElse (arr layer (2 * int i + 1)) zero])
       [0..<(length layer + 1) div 2]"

text \<open>\<open>buildLayersFrom\<close> runs the loop over the remaining levels' zeros.\<close>

fun buildLayersFrom :: "hash \<Rightarrow> int list \<Rightarrow> int list \<Rightarrow> int list list result" where
  "buildLayersFrom pos [] layer = Inr [layer]"
| "buildLayersFrom pos (zero # zeros) layer =
     bindR (nextLayer pos zero layer)
       (\<lambda>next. bindR (buildLayersFrom pos zeros next) (\<lambda>rest. Inr (layer # rest)))"

definition buildLayers :: "hash \<Rightarrow> incremental_tree \<Rightarrow> int list list result" where
  "buildLayers pos t =
     bindR (ZEROS pos) (\<lambda>zeros. buildLayersFrom pos (take DEPTH zeros) (leaves t))"

definition tree_root :: "hash \<Rightarrow> incremental_tree \<Rightarrow> int result" where
  "tree_root pos t =
     bindR (ZEROS pos) (\<lambda>zeros.
       if length (leaves t) = 0 then Inr (zeros ! DEPTH)
       else bindR (buildLayers pos t) (\<lambda>layers. Inr (layers ! DEPTH ! 0)))"

fun pathLoop :: "int list list \<Rightarrow> int list \<Rightarrow> int \<Rightarrow> (int list \<times> int list)" where
  "pathLoop (layer # layers) (zero # zeros) idx =
     (let bit = and1 idx;
          siblingIndex = (if bit = 0 then idx + 1 else idx - 1);
          (siblings, bits) = pathLoop layers zeros (shr32 idx 1)
      in (orElse (arr layer siblingIndex) zero # siblings, bit # bits))"
| "pathLoop _ _ idx = ([], [])"

definition pathFor :: "hash \<Rightarrow> incremental_tree \<Rightarrow> int \<Rightarrow> (int list \<times> int list) result" where
  "pathFor pos t index =
     (if index < 0 \<or> index \<ge> int (length (leaves t)) then Inl (Error ''pathFor: index out of range'')
      else bindR (ZEROS pos) (\<lambda>zeros. bindR (buildLayers pos t)
             (\<lambda>layers. Inr (pathLoop (take DEPTH layers) (take DEPTH zeros) index))))"

section \<open>The indexer's frontier\<close>

definition reduceMod :: "int \<Rightarrow> int" where
  "reduceMod x = (let m = jsrem x FIELD_ORDER in if m < 0 then m + FIELD_ORDER else m)"

definition p2raw :: "hash \<Rightarrow> int \<Rightarrow> int \<Rightarrow> int" where
  "p2raw pos a b = pos [reduceMod a, reduceMod b]"

fun computeZerosLoop :: "hash \<Rightarrow> nat \<Rightarrow> int list \<Rightarrow> int list" where
  "computeZerosLoop pos 0 zeros = zeros"
| "computeZerosLoop pos (Suc n) zeros =
     computeZerosLoop pos n (zeros @ [p2raw pos (last zeros) (last zeros)])"

definition computeZeros :: "hash \<Rightarrow> nat \<Rightarrow> int list" where
  "computeZeros pos depth = computeZerosLoop pos depth [0]"

text \<open>
  \<open>insertLevels\<close> is the inner loop for leaf \<open>idx\<close>: it runs through the frontier and the
  zeros from \<open>level\<close> on and returns the updated frontier with the root it computed.
\<close>

fun insertLevels :: "hash \<Rightarrow> int \<Rightarrow> nat \<Rightarrow> int list \<Rightarrow> int list \<Rightarrow> int \<Rightarrow> int list \<times> int" where
  "insertLevels pos idx level (f # fs) (z # zs) cur =
     (if and1 (shr32 idx level) = 0
      then (let (fs', root) = insertLevels pos idx (Suc level) fs zs (p2raw pos cur z)
            in (cur # fs', root))
      else (let (fs', root) = insertLevels pos idx (Suc level) fs zs (p2raw pos f cur)
            in (f # fs', root)))"
| "insertLevels pos idx level fs zs cur = (fs, cur)"

fun rebuildRootLoop :: "hash \<Rightarrow> int list \<Rightarrow> int \<Rightarrow> int list \<Rightarrow> int list \<Rightarrow> int \<Rightarrow> int" where
  "rebuildRootLoop pos zeros idx [] frontier root = root"
| "rebuildRootLoop pos zeros idx (leaf # rest) frontier root =
     (let (frontier', root') = insertLevels pos idx 0 frontier zeros (reduceMod leaf)
      in rebuildRootLoop pos zeros (idx + 1) rest frontier' root')"

definition indexer_rebuildRoot :: "hash \<Rightarrow> int list \<Rightarrow> nat \<Rightarrow> int" where
  "indexer_rebuildRoot pos ls depth =
     (let zeros = computeZeros pos depth
      in if length ls = 0 then zeros ! depth
         else rebuildRootLoop pos zeros 0 ls (replicate depth 0) (zeros ! depth))"

end
