(* ===== verification/Merkle_Spec.thy ===== *)
theory Merkle_Spec
  imports Merkle
begin

text \<open>
  The specification both Merkle implementations compute: \<open>node pos xs l i\<close> is the node at
  level \<open>l\<close>, index \<open>i\<close> of the complete binary tree over the leaves \<open>xs\<close> padded with
  zeros. The lemmas say that the client's layers, roots and paths, and the indexer's
  frontier, are values of \<open>node\<close>.
\<close>

section \<open>Nodes of the padded tree\<close>

definition hash2 :: "hash \<Rightarrow> int \<Rightarrow> int \<Rightarrow> int" where
  "hash2 pos a b = pos [a mod FIELD_ORDER, b mod FIELD_ORDER]"

primrec zeroAt :: "hash \<Rightarrow> nat \<Rightarrow> int" where
  "zeroAt pos 0 = 0"
| "zeroAt pos (Suc l) = hash2 pos (zeroAt pos l) (zeroAt pos l)"

primrec node :: "hash \<Rightarrow> int list \<Rightarrow> nat \<Rightarrow> nat \<Rightarrow> int" where
  "node pos xs 0 i = (if i < length xs then xs ! i else 0)"
| "node pos xs (Suc l) i = hash2 pos (node pos xs l (2 * i)) (node pos xs l (2 * i + 1))"

primrec width :: "nat \<Rightarrow> nat \<Rightarrow> nat" where
  "width n 0 = n"
| "width n (Suc l) = (width n l + 1) div 2"

definition layerAt :: "hash \<Rightarrow> int list \<Rightarrow> nat \<Rightarrow> int list" where
  "layerAt pos xs l = map (node pos xs l) [0..<width (length xs) l]"

lemma p2_hash2 [simp]: "p2 pos [a, b] = Inr (hash2 pos a b)"
  by (simp add: hash2_def)

declare p2_arity_2 [simp del]

lemma mod_FIELD_ORDER_not_neg [simp]: "\<not> x mod FIELD_ORDER < 0"
  using pos_mod_sign [OF FIELD_ORDER_pos, of x] by linarith

lemma reduceMod_mod [simp]: "reduceMod x = x mod FIELD_ORDER"
  by (cases "0 \<le> x") (simp_all add: reduceMod_def jsrem_nonneg jsrem_neg Let_def)

lemma p2raw_hash2 [simp]: "p2raw pos a b = hash2 pos a b"
  by (simp add: p2raw_def hash2_def)

lemma hash2_mod [simp]:
  "hash2 pos (a mod FIELD_ORDER) b = hash2 pos a b" "hash2 pos a (b mod FIELD_ORDER) = hash2 pos a b"
  by (simp_all add: hash2_def)

lemma length_layerAt [simp]: "length (layerAt pos xs l) = width (length xs) l"
  by (simp add: layerAt_def)

lemma node_beyond: "width (length xs) l \<le> i \<Longrightarrow> node pos xs l i = zeroAt pos l"
proof (induction l arbitrary: i)
  case 0
  then show ?case by simp
next
  case (Suc l)
  from Suc.prems have "width (length xs) l \<le> 2 * i" by simp
  then show ?case by (simp add: Suc.IH)
qed

lemma layer_lookup [simp]:
  "orElse (arr (layerAt pos xs l) (int i)) (zeroAt pos l) = node pos xs l i"
  by (cases "i < width (length xs) l") (simp_all add: arr_of_nat layerAt_def node_beyond)

lemma width_pos: "0 < n \<Longrightarrow> 0 < width n l"
  by (induction l) auto

lemma width_0 [simp]: "width 0 l = 0"
  by (induction l) simp_all

text \<open>A subtree that lies inside the first \<open>length xs\<close> leaves does not change when leaves are appended.\<close>

lemma node_append:
  "(i + 1) * 2 ^ l \<le> length xs \<Longrightarrow> node pos (xs @ ys) l i = node pos xs l i"
proof (induction l arbitrary: i)
  case 0
  then show ?case by (simp add: nth_append)
next
  case (Suc l)
  then have "(2 * i + 1 + 1) * 2 ^ l \<le> length xs" "(2 * i + 1) * 2 ^ l \<le> length xs"
    by (simp_all add: algebra_simps)
  then show ?case using Suc.IH [of "2 * i"] Suc.IH [of "2 * i + 1"] by simp
qed

section \<open>The zero chain\<close>

lemma zeros_snoc:
  "map (zeroAt pos) [0..<Suc k] @
     [hash2 pos (last (map (zeroAt pos) [0..<Suc k])) (last (map (zeroAt pos) [0..<Suc k]))] =
   map (zeroAt pos) [0..<Suc (Suc k)]"
  by simp

lemma zerosLoop_eq:
  "zerosLoop pos n (map (zeroAt pos) [0..<Suc k]) = Inr (map (zeroAt pos) [0..<Suc (k + n)])"
proof (induction n arbitrary: k)
  case (Suc n)
  then show ?case by (simp only: zerosLoop.simps p2_hash2 bindR_simps zeros_snoc) simp
qed simp

lemma ZEROS_eq: "ZEROS pos = Inr (map (zeroAt pos) [0..<Suc DEPTH])"
  using zerosLoop_eq [of pos DEPTH 0] by (simp add: ZEROS_def del: upt_Suc) simp

lemma computeZerosLoop_eq:
  "computeZerosLoop pos n (map (zeroAt pos) [0..<Suc k]) = map (zeroAt pos) [0..<Suc (k + n)]"
proof (induction n arbitrary: k)
  case (Suc n)
  then show ?case by (simp only: computeZerosLoop.simps p2raw_hash2 zeros_snoc) simp
qed simp

lemma computeZeros_eq: "computeZeros pos d = map (zeroAt pos) [0..<Suc d]"
  using computeZerosLoop_eq [of pos d 0] by (simp add: computeZeros_def del: upt_Suc) simp

section \<open>The client's layers, root and paths\<close>

lemma nextLayer_eq:
  "nextLayer pos (zeroAt pos l) (layerAt pos xs l) = Inr (layerAt pos xs (Suc l))"
proof -
  have two: "2 * int i = int (2 * i)" "int (2 * i) + 1 = int (2 * i + 1)" for i by simp_all
  show ?thesis
    unfolding nextLayer_def two layer_lookup p2_hash2
    by (subst mapR_Inr_map) (auto simp: layerAt_def)
qed

lemma buildLayersFrom_eq:
  "buildLayersFrom pos (map (zeroAt pos) [k..<k + n]) (layerAt pos xs k) =
     Inr (map (layerAt pos xs) [k..<Suc (k + n)])"
proof (induction n arbitrary: k)
  case 0
  then show ?case by simp
next
  case (Suc n)
  have "[k..<k + Suc n] = k # [Suc k..<Suc k + n]" by (simp add: upt_conv_Cons)
  moreover have "[k..<Suc (k + Suc n)] = k # [Suc k..<Suc (Suc k + n)]"
    by (simp add: upt_conv_Cons del: upt_Suc)
  ultimately show ?case
    using Suc.IH [of "Suc k"] by (simp add: nextLayer_eq del: upt_Suc)
qed

lemma buildLayers_eq:
  "buildLayers pos t = Inr (map (layerAt pos (leaves t)) [0..<Suc DEPTH])"
proof -
  have "take DEPTH (map (zeroAt pos) [0..<Suc DEPTH]) = map (zeroAt pos) [0..<0 + DEPTH]"
    by (simp add: take_map)
  moreover have "layerAt pos (leaves t) 0 = leaves t"
    by (rule nth_equalityI) (simp_all add: layerAt_def)
  ultimately show ?thesis
    using buildLayersFrom_eq [of pos 0 DEPTH "leaves t"]
    by (simp add: buildLayers_def ZEROS_eq del: upt_Suc)
qed

lemma tree_root_eq: "tree_root pos t = Inr (node pos (leaves t) DEPTH 0)"
proof (cases "leaves t = []")
  case True
  have "node pos [] DEPTH 0 = zeroAt pos DEPTH"
    by (rule node_beyond) (simp add: width_0)
  with True show ?thesis by (simp add: tree_root_def ZEROS_eq del: upt_Suc)
next
  case False
  then have "0 < width (length (leaves t)) DEPTH" by (simp add: width_pos)
  with False show ?thesis
    by (simp add: tree_root_def ZEROS_eq buildLayers_eq layerAt_def del: upt_Suc)
qed

text \<open>The sibling of node \<open>i\<close>.\<close>

definition sibling :: "nat \<Rightarrow> nat" where
  "sibling i = (if even i then i + 1 else i - 1)"

lemma node_parent:
  "node pos xs (Suc l) (i div 2) =
     (if even i then hash2 pos (node pos xs l i) (node pos xs l (sibling i))
      else hash2 pos (node pos xs l (sibling i)) (node pos xs l i))"
  by (cases "even i") (auto simp: sibling_def elim!: evenE oddE)

lemma pathLoop_eq:
  "int i < 2 ^ 31 \<Longrightarrow>
   pathLoop (map (layerAt pos xs) [k..<k + n]) (map (zeroAt pos) [k..<k + n]) (int i) =
     (map (\<lambda>l. node pos xs (k + l) (sibling (i div 2 ^ l))) [0..<n],
      map (\<lambda>l. int (i div 2 ^ l mod 2)) [0..<n])"
proof (induction n arbitrary: i k)
  case 0
  then show ?case by simp
next
  case (Suc n)
  have upt: "[k..<k + Suc n] = k # [Suc k..<Suc k + n]" by (simp add: upt_conv_Cons)
  have upt0: "[0..<Suc n] = 0 # map Suc [0..<n]" by (simp add: upt_conv_Cons map_Suc_upt del: upt_Suc)
  have "int (i div 2) < 2 ^ 31" using Suc.prems by linarith
  note IH = Suc.IH [OF this, of "Suc k"]
  have shr: "shr32 (int i) 1 = int (i div 2)"
    using Suc.prems by (simp add: shr32_small zdiv_int)
  have bit: "and1 (int i) = int (i mod 2)"
    using Suc.prems by (simp add: and1_small zmod_int)
  have sib: "(if int (i mod 2) = 0 then int i + 1 else int i - 1) = int (sibling i)"
    by (cases "even i") (auto simp: sibling_def even_iff_mod_2_eq_zero odd_iff_mod_2_eq_one of_nat_diff odd_pos Suc_leI)
  have "pathLoop (map (layerAt pos xs) (k # [Suc k..<Suc k + n])) (map (zeroAt pos) (k # [Suc k..<Suc k + n])) (int i) =
     (node pos xs k (sibling i) # map (\<lambda>l. node pos xs (Suc k + l) (sibling (i div 2 div 2 ^ l))) [0..<n],
      int (i mod 2) # map (\<lambda>l. int (i div 2 div 2 ^ l mod 2)) [0..<n])"
    by (simp only: list.map pathLoop.simps Let_def bit shr sib IH layer_lookup prod.case)
  then show ?case
    unfolding upt upt0 by (simp add: o_def div_mult2_eq)
qed

lemma pathFor_eq:
  assumes "i < length (leaves t)" "length (leaves t) \<le> 2 ^ DEPTH"
  shows "pathFor pos t (int i) =
    Inr (map (\<lambda>l. node pos (leaves t) l (sibling (i div 2 ^ l))) [0..<DEPTH],
         map (\<lambda>l. int (i div 2 ^ l mod 2)) [0..<DEPTH])"
proof -
  have "i < 2 ^ 24" using assms by (simp add: DEPTH_def)
  then have "int i < 2 ^ 31" by simp
  moreover have "take DEPTH [0..<Suc DEPTH] = [0..<0 + DEPTH]" by simp
  ultimately show ?thesis
    using assms pathLoop_eq [of i pos "leaves t" 0 DEPTH]
    by (simp add: pathFor_def ZEROS_eq buildLayers_eq take_map del: upt_Suc)
qed

lemma computeRootFrom_eq:
  "int i < 2 ^ 31 \<Longrightarrow> k + n \<le> 31 \<Longrightarrow>
   computeRootFrom pos (int i) k (map (\<lambda>l. node pos xs l (sibling (i div 2 ^ l))) [k..<k + n])
     (node pos xs k (i div 2 ^ k)) = Inr (node pos xs (k + n) (i div 2 ^ (k + n)))"
proof (induction n arbitrary: k)
  case 0
  then show ?case by simp
next
  case (Suc n)
  have upt: "[k..<k + Suc n] = k # [Suc k..<Suc k + n]" by (simp add: upt_conv_Cons)
  have q: "shr32 (int i) k = int (i div 2 ^ k)"
    using Suc.prems by (simp add: shr32_small zdiv_int)
  have "int (i div 2 ^ k) < 2 ^ 31"
    using Suc.prems(1) by (meson div_le_dividend le_less_trans of_nat_le_iff)
  then have bit: "and1 (int (i div 2 ^ k)) = int (i div 2 ^ k mod 2)"
    by (simp add: and1_small zmod_int)
  have step: "computeRootStep pos (int i) k (node pos xs k (sibling (i div 2 ^ k)))
      (node pos xs k (i div 2 ^ k)) = Inr (node pos xs (Suc k) (i div 2 ^ Suc k))"
  proof -
    have half: "i div 2 ^ Suc k = i div 2 ^ k div 2"
      unfolding power_Suc2 by (rule div_mult2_eq)
    show ?thesis
      unfolding computeRootStep_def q bit half node_parent
      by (cases "even (i div 2 ^ k)") (simp_all add: even_iff_mod_2_eq_zero odd_iff_mod_2_eq_one)
  qed
  show ?case
    using Suc.IH [of "Suc k"] Suc.prems unfolding upt by (simp add: step)
qed

section \<open>The indexer's frontier\<close>

lemma node_beyond_leaves: "length xs \<le> i * 2 ^ l \<Longrightarrow> node pos xs l i = zeroAt pos l"
proof (induction l arbitrary: i)
  case 0
  then show ?case by simp
next
  case (Suc l)
  then have "length xs \<le> 2 * i * 2 ^ l" "length xs \<le> (2 * i + 1) * 2 ^ l"
    by (simp_all add: algebra_simps)
  then show ?case using Suc.IH [of "2 * i"] Suc.IH [of "2 * i + 1"] by simp
qed

text \<open>Two field elements are interchangeable below a hash when they agree modulo the order.\<close>

definition cong_r :: "int \<Rightarrow> int \<Rightarrow> bool" where
  "cong_r a b \<longleftrightarrow> a mod FIELD_ORDER = b mod FIELD_ORDER"

lemma hash2_cong: "cong_r a a' \<Longrightarrow> cong_r b b' \<Longrightarrow> hash2 pos a b = hash2 pos a' b'"
  by (simp add: cong_r_def hash2_def)

lemma cong_r_refl [simp]: "cong_r a a"
  by (simp add: cong_r_def)

text \<open>
  Before leaf number \<open>m = length xs\<close> is inserted, the frontier holds, at each level where
  bit \<open>l\<close> of \<open>m\<close> is one, the completed left neighbour of the path.
\<close>

fun frontier_ok :: "hash \<Rightarrow> int list \<Rightarrow> nat \<Rightarrow> int list \<Rightarrow> bool" where
  "frontier_ok pos xs k [] = True"
| "frontier_ok pos xs k (f # fs) =
     ((odd (length xs div 2 ^ k) \<longrightarrow> cong_r f (node pos xs k (length xs div 2 ^ k - 1))) \<and>
      frontier_ok pos xs (Suc k) fs)"

lemma frontier_ok_empty: "frontier_ok pos [] k fs"
  by (induction fs arbitrary: k) simp_all

lemma left_neighbour_stable:
  assumes "odd (length xs div 2 ^ k)"
  shows "node pos (xs @ ys) k (length xs div 2 ^ k - 1) = node pos xs k (length xs div 2 ^ k - 1)"
proof (rule node_append)
  have "length xs div 2 ^ k - 1 + 1 = length xs div 2 ^ k"
    using odd_pos [OF assms] by simp
  then show "(length xs div 2 ^ k - 1 + 1) * 2 ^ k \<le> length xs"
    by (simp add: div_times_less_eq_dividend)
qed

lemma div_Suc_cases: "Suc m div n = m div n \<or> Suc m div n = Suc (m div n)"
  by (simp add: div_Suc)

lemma node_up_even:
  assumes "even (length xs div 2 ^ k)"
  shows "node pos (xs @ [x]) (Suc k) (length xs div 2 ^ Suc k) =
    hash2 pos (node pos (xs @ [x]) k (length xs div 2 ^ k)) (zeroAt pos k)"
proof -
  let ?q = "length xs div 2 ^ k"
  have "length xs < Suc ?q * 2 ^ k"
    using dividend_less_div_times [of "2 ^ k" "length xs"] by simp
  then have "node pos (xs @ [x]) k (Suc ?q) = zeroAt pos k"
    by (intro node_beyond_leaves) simp
  moreover have "length xs div 2 ^ Suc k = ?q div 2"
    unfolding power_Suc2 by (rule div_mult2_eq)
  ultimately show ?thesis using assms node_parent [of pos "xs @ [x]" k ?q] by (simp add: sibling_def)
qed

lemma node_up_odd:
  assumes "odd (length xs div 2 ^ k)"
  shows "node pos (xs @ [x]) (Suc k) (length xs div 2 ^ Suc k) =
    hash2 pos (node pos xs k (length xs div 2 ^ k - 1)) (node pos (xs @ [x]) k (length xs div 2 ^ k))"
proof -
  let ?q = "length xs div 2 ^ k"
  have "length xs div 2 ^ Suc k = ?q div 2"
    unfolding power_Suc2 by (rule div_mult2_eq)
  then show ?thesis
    using assms node_parent [of pos "xs @ [x]" k ?q] left_neighbour_stable [OF assms, of pos "[x]"]
    by (simp add: sibling_def)
qed

lemma insertLevels_bit:
  assumes "length xs < 2 ^ 31" "k < 32"
  shows "and1 (shr32 (int (length xs)) k) = 0 \<longleftrightarrow> even (length xs div 2 ^ k)"
proof -
  have "int (length xs) < 2 ^ 31" using assms(1) by simp
  then have q: "shr32 (int (length xs)) k = int (length xs div 2 ^ k)"
    using assms(2) by (simp add: shr32_small zdiv_int)
  have "int (length xs div 2 ^ k) < 2 ^ 31"
    using \<open>int (length xs) < 2 ^ 31\<close> by (meson div_le_dividend le_less_trans of_nat_le_iff)
  then show ?thesis
    by (simp add: q and1_small even_iff_mod_2_eq_zero flip: zmod_int) presburger
qed

lemma insertLevels_correct:
  assumes "length xs < 2 ^ 31" "k + length fs \<le> 31" "length fs \<le> length zs"
    and "\<forall>j < length fs. zs ! j = zeroAt pos (k + j)"
    and "frontier_ok pos xs k fs"
    and "cong_r cur (node pos (xs @ [x]) k (length xs div 2 ^ k))"
    and "insertLevels pos (int (length xs)) k fs zs cur = (fs', root)"
  shows "length fs' = length fs \<and> frontier_ok pos (xs @ [x]) k fs' \<and>
    (if fs = [] then root = cur
     else root = node pos (xs @ [x]) (k + length fs) (length xs div 2 ^ (k + length fs)))"
  using assms(2-)
proof (induction fs arbitrary: k zs cur fs' root)
  case Nil
  then show ?case by simp
next
  case (Cons f fs)
  let ?q = "length xs div 2 ^ k"
  obtain z zs' where zs: "zs = z # zs'" using Cons.prems(2) by (cases zs) auto
  have z: "z = zeroAt pos k" using Cons.prems(3) zs by force
  have zs': "\<forall>j < length fs. zs' ! j = zeroAt pos (Suc k + j)"
    using Cons.prems(3) zs by fastforce
  have bit: "and1 (shr32 (int (length xs)) k) = 0 \<longleftrightarrow> even ?q"
    using assms(1) Cons.prems(1) by (intro insertLevels_bit) simp_all
  let ?up = "node pos (xs @ [x]) (Suc k) (length xs div 2 ^ Suc k)"
  let ?f = "if even ?q then cur else f"
  have up: "(if even ?q then hash2 pos cur z else hash2 pos f cur) = ?up"
    using Cons.prems(4,5) unfolding z
    by (auto simp: node_up_even node_up_odd simp del: node.simps power_Suc intro!: hash2_cong)
  have head: "odd (Suc (length xs) div 2 ^ k) \<longrightarrow>
      cong_r ?f (node pos (xs @ [x]) k (Suc (length xs) div 2 ^ k - 1))"
    using div_Suc_cases [of "length xs" "2 ^ k"] Cons.prems(4,5)
      left_neighbour_stable [of xs k pos "[x]"] by (auto simp del: node.simps)
  from Cons.prems(6) obtain fs'' where
    rec: "insertLevels pos (int (length xs)) (Suc k) fs zs' ?up = (fs'', root)"
    and fs': "fs' = ?f # fs''"
    unfolding zs by (auto simp: bit up [symmetric] split: prod.splits if_splits simp del: node.simps power_Suc)
  have "length fs'' = length fs \<and> frontier_ok pos (xs @ [x]) (Suc k) fs'' \<and>
    (if fs = [] then root = ?up
     else root = node pos (xs @ [x]) (Suc k + length fs) (length xs div 2 ^ (Suc k + length fs)))"
    using Cons.prems zs by (intro Cons.IH [OF _ _ zs' _ _ rec]) auto
  then show ?case using head unfolding fs' by (auto simp del: node.simps power_Suc split: if_splits)
qed

lemma rebuildRootLoop_correct:
  assumes "length xs + length ls \<le> 2 ^ 31" "0 < d" "d \<le> 31" "length fr = d"
    and "zeros = map (zeroAt pos) [0..<Suc d]" "frontier_ok pos xs 0 fr"
  shows "rebuildRootLoop pos zeros (int (length xs)) ls fr root =
    (if ls = [] then root
     else node pos (xs @ ls) d ((length xs + length ls - 1) div 2 ^ d))"
  using assms
proof (induction ls arbitrary: xs fr root)
  case Nil
  then show ?case by simp
next
  case (Cons l ls)
  obtain fr' root' where ins: "insertLevels pos (int (length xs)) 0 fr zeros (reduceMod l) = (fr', root')"
    by (cases "insertLevels pos (int (length xs)) 0 fr zeros (reduceMod l)")
  have "length fr' = length fr \<and> frontier_ok pos (xs @ [l]) 0 fr' \<and>
    (if fr = [] then root' = reduceMod l
     else root' = node pos (xs @ [l]) (0 + length fr) (length xs div 2 ^ (0 + length fr)))"
  proof (rule insertLevels_correct [OF _ _ _ _ _ _ ins])
    show "\<forall>j < length fr. zeros ! j = zeroAt pos (0 + j)"
      using Cons.prems by (auto simp del: upt_Suc)
    show "cong_r (reduceMod l) (node pos (xs @ [l]) 0 (length xs div 2 ^ 0))"
      by (simp add: cong_r_def)
  qed (use Cons.prems in auto)
  then have ok: "length fr' = d" "frontier_ok pos (xs @ [l]) 0 fr'"
    and root': "root' = node pos (xs @ [l]) d (length xs div 2 ^ d)"
    using Cons.prems by auto
  have "rebuildRootLoop pos zeros (int (length (xs @ [l]))) ls fr' root' =
    (if ls = [] then root'
     else node pos ((xs @ [l]) @ ls) d ((length (xs @ [l]) + length ls - 1) div 2 ^ d))"
    using Cons.prems ok by (intro Cons.IH) auto
  then show ?case using ins root' by (simp add: add.commute)
qed


section \<open>Climbing a path\<close>

text \<open>
  \<open>pairAt i l cur sib\<close> is the pair hashed at level \<open>l\<close> of the path of leaf \<open>i\<close>, and
  \<open>climb pos i x sibs l\<close> the value the climb from the leaf value \<open>x\<close> has at level \<open>l\<close>.
\<close>

definition pairAt :: "nat \<Rightarrow> nat \<Rightarrow> int \<Rightarrow> int \<Rightarrow> int list" where
  "pairAt i l cur sib =
     (if even (i div 2 ^ l) then [cur mod FIELD_ORDER, sib mod FIELD_ORDER]
      else [sib mod FIELD_ORDER, cur mod FIELD_ORDER])"

primrec climb :: "hash \<Rightarrow> nat \<Rightarrow> int \<Rightarrow> int list \<Rightarrow> nat \<Rightarrow> int" where
  "climb pos i x sibs 0 = x"
| "climb pos i x sibs (Suc l) = pos (pairAt i l (climb pos i x sibs l) (sibs ! l))"

lemma pairAt_eq_iff:
  "pairAt i l a s = pairAt i l b t \<longleftrightarrow> cong_r a b \<and> cong_r s t"
  by (auto simp: pairAt_def cong_r_def)

lemma computeRootStep_climb:
  assumes "i < 2 ^ 31" "l < 32"
  shows "computeRootStep pos (int i) l sib cur = Inr (pos (pairAt i l cur sib))"
proof -
  have "and1 (shr32 (int i) l) = 0 \<longleftrightarrow> even (i div 2 ^ l)"
    using insertLevels_bit [of "replicate i ()" l] assms by simp
  then show ?thesis
    by (simp add: computeRootStep_def pairAt_def hash2_def)
qed

lemma computeRootFrom_climb:
  assumes "i < 2 ^ 31"
  shows "k + length sibs \<le> 31 \<Longrightarrow> all = pre @ sibs \<Longrightarrow> length pre = k \<Longrightarrow>
    computeRootFrom pos (int i) k sibs (climb pos i x all k) =
      Inr (climb pos i x all (k + length sibs))"
proof (induction sibs arbitrary: k pre)
  case Nil
  then show ?case by simp
next
  case (Cons s sibs)
  have "all ! k = s" using Cons.prems by (simp add: nth_append)
  then have "computeRootStep pos (int i) k s (climb pos i x all k) = Inr (climb pos i x all (Suc k))"
    using computeRootStep_climb [OF assms, of k pos s] Cons.prems by simp
  moreover have "computeRootFrom pos (int i) (Suc k) sibs (climb pos i x all (Suc k)) =
      Inr (climb pos i x all (Suc k + length sibs))"
    using Cons.prems by (intro Cons.IH [of "Suc k" "pre @ [s]"]) auto
  ultimately show ?case by (simp del: climb.simps)
qed

lemma computeRoot_climb:
  assumes "i < 2 ^ 31" "length sibs = DEPTH"
  shows "computeRoot pos x (int i) sibs = Inr (climb pos i x sibs DEPTH)"
  using computeRootFrom_climb [OF assms(1), of 0 sibs sibs "[]"] assms
  by (simp add: computeRoot_def DEPTH_def)

text \<open>
  Two climbs of the same leaf position that end in the same value started from the same leaf
  and met the same siblings, or they hash two different pairs to one value at some level.
\<close>

definition same_path :: "int \<Rightarrow> int list \<Rightarrow> int \<Rightarrow> int list \<Rightarrow> nat \<Rightarrow> bool" where
  "same_path x s y t n \<longleftrightarrow> cong_r x y \<and> (\<forall>l < n. cong_r (s ! l) (t ! l))"

definition clash_at :: "hash \<Rightarrow> nat \<Rightarrow> int \<Rightarrow> int list \<Rightarrow> int \<Rightarrow> int list \<Rightarrow> nat \<Rightarrow> bool" where
  "clash_at pos i x s y t l \<longleftrightarrow>
     (let p = pairAt i l (climb pos i x s l) (s ! l); q = pairAt i l (climb pos i y t l) (t ! l)
      in p \<noteq> q \<and> pos p = pos q)"

lemma climb_binding:
  assumes "canonical_hash pos"
  shows "climb pos i x s (Suc n) = climb pos i y t (Suc n) \<Longrightarrow>
    same_path x s y t (Suc n) \<or> (\<exists>l < Suc n. clash_at pos i x s y t l)"
proof (induction n)
  case 0
  then show ?case
    by (auto simp: same_path_def clash_at_def Let_def pairAt_eq_iff)
next
  case (Suc n)
  let ?a = "climb pos i x s (Suc n)" and ?b = "climb pos i y t (Suc n)"
  show ?case
  proof (cases "cong_r ?a ?b \<and> cong_r (s ! Suc n) (t ! Suc n)")
    case False
    with Suc.prems have "clash_at pos i x s y t (Suc n)"
      unfolding clash_at_def Let_def by (subst pairAt_eq_iff) (simp add: climb.simps(2) [of _ _ _ _ "Suc n"] del: climb.simps)
    then show ?thesis by blast
  next
    case True
    have "canonical ?a" "canonical ?b" using assms by (simp_all add: canonical_hash_def)
    with True have "?a = ?b" unfolding cong_r_def by (metis canonical_reduce)
    from Suc.IH [OF this] True show ?thesis
      unfolding same_path_def by (metis less_Suc_eq)
  qed
qed


lemma merkle_path:
  assumes "i < length (leaves t)" "length (leaves t) \<le> 2 ^ DEPTH"
  shows "\<exists>siblings. pathFor pos t (int i) =
      Inr (siblings, map (\<lambda>l. int (i div 2 ^ l mod 2)) [0..<DEPTH]) \<and>
    length siblings = DEPTH \<and>
    computeRoot pos (leaves t ! i) (int i) siblings = tree_root pos t"
proof -
  let ?s = "map (\<lambda>l. node pos (leaves t) l (sibling (i div 2 ^ l))) [0..<DEPTH]"
  have i: "i < 2 ^ 24" using assms by (simp add: DEPTH_def)
  then have "computeRoot pos (leaves t ! i) (int i) ?s = tree_root pos t"
    using computeRootFrom_eq [of i 0 DEPTH pos "leaves t"] assms(1)
    by (simp add: computeRoot_def tree_root_eq DEPTH_def del: upt_Suc)
  then show ?thesis using assms by (intro exI [of _ ?s]) (simp add: pathFor_eq)
qed

lemma merkle_indexer:
  assumes "length ls \<le> 2 ^ DEPTH"
  shows "tree_root pos \<lparr>leaves = ls\<rparr> = Inr (indexer_rebuildRoot pos ls DEPTH)"
proof (cases "ls = []")
  case True
  then show ?thesis
    using tree_root_eq [of pos "\<lparr>leaves = []\<rparr>"] node_beyond [of "[]" DEPTH 0 pos]
    by (simp add: indexer_rebuildRoot_def computeZeros_eq del: upt_Suc)
next
  case False
  have l: "length ls \<le> 16777216" using assms by (simp add: DEPTH_def)
  then have "(length ls - 1) div 2 ^ DEPTH = 0"
    using False by (simp add: DEPTH_def)
  then show ?thesis
    using rebuildRootLoop_correct [of "[]" ls DEPTH "replicate DEPTH 0" "computeZeros pos DEPTH" pos] False l
    by (simp add: tree_root_eq indexer_rebuildRoot_def computeZeros_eq frontier_ok_empty DEPTH_def del: upt_Suc)
qed

section \<open>Properties\<close>

text \<open>
  C31. The path the client extracts for a leaf of its pool and the fold the circuit repeats
  agree: climbing from the leaf along \<open>pathFor\<close>'s siblings gives the root of the tree, and
  the direction bits are the binary digits of the index.
\<close>

theorem merkle_path_correct:
  assumes "i < length (leaves t)" "length (leaves t) \<le> 2 ^ DEPTH"
  shows "\<exists>siblings. pathFor pos t (int i) =
      Inr (siblings, map (\<lambda>l. int (i div 2 ^ l mod 2)) [0..<DEPTH]) \<and>
    length siblings = DEPTH \<and>
    computeRoot pos (leaves t ! i) (int i) siblings = tree_root pos t"
  using assms by (rule merkle_path)

theorem merkle_path_correct_witness:
  "\<exists>siblings. pathFor sum_list \<lparr>leaves = [7, 9, 11]\<rparr> 2 =
      Inr (siblings, map (\<lambda>l. int (2 div 2 ^ l mod 2)) [0..<DEPTH]) \<and>
    length siblings = DEPTH \<and>
    computeRoot sum_list 11 2 siblings = tree_root sum_list \<lparr>leaves = [7, 9, 11]\<rparr>"
  using merkle_path_correct [of 2 "\<lparr>leaves = [7, 9, 11]\<rparr>" sum_list]
  by (simp add: DEPTH_def del: upt_Suc)

text \<open>
  The pool indexer's frontier algorithm and the client's layer-by-layer tree compute the
  same root for every pool the depth can hold, so a client can compare the two.
\<close>

theorem indexer_root_agrees:
  assumes "length ls \<le> 2 ^ DEPTH"
  shows "tree_root pos \<lparr>leaves = ls\<rparr> = Inr (indexer_rebuildRoot pos ls DEPTH)"
  using assms by (rule merkle_indexer)

theorem indexer_root_agrees_witness:
  "tree_root sum_list \<lparr>leaves = [1, 2, 3]\<rparr> = Inr (indexer_rebuildRoot sum_list [1, 2, 3] DEPTH)"
  using indexer_root_agrees [of "[1, 2, 3]" sum_list] by (simp add: DEPTH_def)

text \<open>
  The root binds the leaves: whoever presents a leaf value and siblings that climb to the
  root of a pool at position \<open>i\<close> presents the pool's leaf \<open>i\<close> and its true siblings (as
  field elements), or exhibits a level at which the two climbs hash different pairs to one
  value.
\<close>

theorem merkle_root_binds:
  assumes "canonical_hash pos" "i < length (leaves t)" "length (leaves t) \<le> 2 ^ DEPTH"
    and "length s = DEPTH" "computeRoot pos x (int i) s = tree_root pos t"
    and "pathFor pos t (int i) = Inr (siblings, bits)"
  shows "same_path x s (leaves t ! i) siblings DEPTH \<or>
    (\<exists>l < DEPTH. clash_at pos i x s (leaves t ! i) siblings l)"
proof -
  have i: "i < 2 ^ 31" using assms(2,3) by (simp add: DEPTH_def)
  have sib: "siblings = map (\<lambda>l. node pos (leaves t) l (sibling (i div 2 ^ l))) [0..<DEPTH]"
    using assms(2,3,6) by (simp add: pathFor_eq)
  have "computeRoot pos (leaves t ! i) (int i) siblings = tree_root pos t"
    using computeRootFrom_eq [of i 0 DEPTH pos "leaves t"] assms(2,3)
    by (simp add: sib computeRoot_def tree_root_eq DEPTH_def del: upt_Suc)
  then have "climb pos i x s (Suc 23) = climb pos i (leaves t ! i) siblings (Suc 23)"
    using assms(4,5) computeRoot_climb [OF i, of s pos x]
      computeRoot_climb [OF i, of siblings pos "leaves t ! i"]
    by (simp add: sib DEPTH_def del: climb.simps)
  from climb_binding [OF assms(1) this] show ?thesis by (simp add: DEPTH_def)
qed

theorem merkle_root_binds_witness:
  "same_path 5 (replicate 24 0) 5 (replicate 24 0) DEPTH \<or>
    (\<exists>l < DEPTH. clash_at (\<lambda>xs. 0) 1 5 (replicate 24 0) 5 (replicate 24 0) l)"
proof -
  let ?t = "\<lparr>leaves = [0, 5]\<rparr>"
  have n: "node (\<lambda>xs. 0) [0, 5] l (sibling (Suc 0 div 2 ^ l)) = 0" for l
    by (cases l) (simp_all add: sibling_def hash2_def)
  have p: "pathFor (\<lambda>xs. 0) ?t (int 1) = Inr (replicate 24 0, map (\<lambda>l. int (1 div 2 ^ l mod 2)) [0..<DEPTH])"
    by (subst pathFor_eq) (simp_all add: n DEPTH_def map_replicate_trivial del: upt_Suc of_nat_1)
  have i: "(1 :: nat) < 2 ^ 31" by simp
  have d: "DEPTH = Suc 23" by (simp add: DEPTH_def)
  have "climb (\<lambda>xs. 0) 1 5 (replicate 24 0) DEPTH = 0" "node (\<lambda>xs. 0) [0, 5] DEPTH 0 = 0"
    unfolding d by (simp_all only: climb.simps node.simps hash2_def)
  then have r: "computeRoot (\<lambda>xs. 0) 5 (int 1) (replicate 24 0) = tree_root (\<lambda>xs. 0) ?t"
    by (subst computeRoot_climb [OF i]) (simp_all only: tree_root_eq incremental_tree.simps length_replicate DEPTH_def)
  have l: "canonical_hash (\<lambda>xs. 0)" "1 < length (leaves ?t)" "length (leaves ?t) \<le> 2 ^ DEPTH"
    "length (replicate 24 (0 :: int)) = DEPTH"
    by (simp_all add: canonical_hash_def canonical_def DEPTH_def)
  have x: "leaves ?t ! 1 = 5" by simp
  show ?thesis
    using merkle_root_binds [OF l r p] unfolding x .
qed

end
