(* ===== verification/PoolSync.thy ===== *)
theory PoolSync
  imports Merkle_Spec
begin

text \<open>
  The client's trust-free reconstruction of the recovery pool
  (\<open>passkey-sdk/src/zkRecovery/poolSync.ts\<close>): merging leaves from an untrusted source,
  rebuilding the root, comparing it with the contract's, and locating one's own leaf. A
  JavaScript \<open>Map\<close> is its association list in insertion order.
\<close>

section \<open>Definitions\<close>

record pool_leaf =
  leaf_index :: int
  leaf_bytes :: bytes

definition bytesEqual :: "bytes \<Rightarrow> bytes \<Rightarrow> bool" where
  "bytesEqual a b = (if length a \<noteq> length b then False else list_all2 (\<lambda>x y. x = y) a b)"

fun mergeLoop :: "(int \<times> bytes) list \<Rightarrow> pool_leaf list \<Rightarrow> (int \<times> bytes) list result" where
  "mergeLoop byIndex [] = Inr byIndex"
| "mergeLoop byIndex (l # ls) =
     (case map_of byIndex (leaf_index l) of
        Some existing \<Rightarrow>
          if \<not> bytesEqual existing (leaf_bytes l)
          then Inl (Error ''mergeLeaves: conflicting leaf bytes at index'')
          else mergeLoop byIndex ls
      | None \<Rightarrow> mergeLoop (byIndex @ [(leaf_index l, leaf_bytes l)]) ls)"

definition mergeLeaves :: "pool_leaf list \<Rightarrow> pool_leaf list \<Rightarrow> pool_leaf list result" where
  "mergeLeaves known incoming =
     bindR (mergeLoop [] (known @ incoming)) (\<lambda>byIndex.
       let indices = sort (map fst byIndex)
       in if list_all (\<lambda>i. indices ! i = int i) [0..<length indices]
          then Inr (map (\<lambda>i. \<lparr>leaf_index = i, leaf_bytes = the (map_of byIndex i)\<rparr>) indices)
          else Inl (Error ''mergeLeaves: non-contiguous leaf set''))"

fun insertAll :: "incremental_tree \<Rightarrow> pool_leaf list \<Rightarrow> incremental_tree result" where
  "insertAll tree [] = Inr tree"
| "insertAll tree (l # ls) =
     bindR (bytesToFieldCanonical (leaf_bytes l)) (\<lambda>x. insertAll (fst (tree_insert tree x)) ls)"

definition rebuildRoot :: "hash \<Rightarrow> pool_leaf list \<Rightarrow> int result" where
  "rebuildRoot pos ls =
     bindR (mergeLeaves [] ls) (\<lambda>merged. bindR (insertAll emptyTree merged) (tree_root pos))"

definition verifyAgainstOnChainRoot :: "hash \<Rightarrow> pool_leaf list \<Rightarrow> int \<Rightarrow> bool result" where
  "verifyAgainstOnChainRoot pos ls onChainRoot =
     bindR (rebuildRoot pos ls) (\<lambda>root. Inr (root = onChainRoot))"

fun locateLoop ::
  "bytes \<Rightarrow> incremental_tree \<Rightarrow> nat option \<Rightarrow> pool_leaf list \<Rightarrow> (incremental_tree \<times> nat option) result" where
  "locateLoop mine tree foundIndex [] = Inr (tree, foundIndex)"
| "locateLoop mine tree foundIndex (l # ls) =
     bindR (bytesToFieldCanonical (leaf_bytes l)) (\<lambda>x.
       let (tree', insertedIndex) = tree_insert tree x
       in locateLoop mine tree'
            (if bytesEqual (leaf_bytes l) mine then Some insertedIndex else foundIndex) ls)"

record membership =
  m_index :: nat
  m_siblings :: "int list"
  m_bits :: "int list"

definition locateLeaf :: "hash \<Rightarrow> pool_leaf list \<Rightarrow> bytes \<Rightarrow> membership option result" where
  "locateLeaf pos ls myStoredLeaf =
     bindR (mergeLeaves [] ls) (\<lambda>merged.
     bindR (locateLoop myStoredLeaf emptyTree None merged) (\<lambda>(tree, foundIndex).
       case foundIndex of
         None \<Rightarrow> Inr None
       | Some i \<Rightarrow> bindR (pathFor pos tree (int i)) (\<lambda>(siblings, bits).
           Inr (Some \<lparr>m_index = i, m_siblings = siblings, m_bits = bits\<rparr>))))"

section \<open>Merging\<close>

text \<open>The leaf set of a pool with stored values \<open>xs\<close>: contiguous from index 0.\<close>

definition indexed :: "bytes list \<Rightarrow> pool_leaf list" where
  "indexed xs = map (\<lambda>i. \<lparr>leaf_index = int i, leaf_bytes = xs ! i\<rparr>) [0..<length xs]"

lemma length_indexed [simp]: "length (indexed xs) = length xs"
  by (simp add: indexed_def)

lemma map_leaf_bytes_indexed [simp]: "map leaf_bytes (indexed xs) = xs"
  by (rule nth_equalityI) (simp_all add: indexed_def)

lemma bytesEqual_iff [simp]: "bytesEqual a b \<longleftrightarrow> a = b"
  by (auto simp: bytesEqual_def list_all2_eq [symmetric] list.rel_refl)

definition leaf_pair :: "pool_leaf \<Rightarrow> int \<times> bytes" where
  "leaf_pair l = (leaf_index l, leaf_bytes l)"

lemma leaf_pair_inj: "leaf_pair l = leaf_pair m \<Longrightarrow> l = m"
  by (simp add: leaf_pair_def pool_leaf.equality)

text \<open>Leaves are consistent when no index carries two values.\<close>

definition consistent :: "(int \<times> bytes) set \<Rightarrow> bool" where
  "consistent S \<longleftrightarrow> (\<forall>i a b. (i, a) \<in> S \<and> (i, b) \<in> S \<longrightarrow> a = b)"

lemma consistent_subset: "consistent T \<Longrightarrow> S \<subseteq> T \<Longrightarrow> consistent S"
  unfolding consistent_def by (meson in_mono)

lemma map_of_member_iff: "distinct (map fst m) \<Longrightarrow> map_of m i = Some b \<longleftrightarrow> (i, b) \<in> set m"
  by (metis map_of_is_SomeI map_of_SomeD)

lemma mergeLoop_sound:
  "mergeLoop m ls = Inr m' \<Longrightarrow> distinct (map fst m) \<Longrightarrow>
   distinct (map fst m') \<and> set m' = set m \<union> leaf_pair ` set ls"
proof (induction m ls rule: mergeLoop.induct)
  case (1 m)
  then show ?case by simp
next
  case (2 m l ls)
  show ?case
  proof (cases "map_of m (leaf_index l)")
    case None
    then have "distinct (map fst (m @ [(leaf_index l, leaf_bytes l)]))"
      using 2(4) by (simp add: map_of_eq_None_iff)
    from 2(1) [OF None _ this] None 2(3) show ?thesis
      by (simp add: leaf_pair_def Un_insert_right)
  next
    case (Some b)
    with 2(3) have b: "b = leaf_bytes l" and rest: "mergeLoop m ls = Inr m'"
      by (simp_all split: if_splits)
    have "leaf_pair l \<in> set m" using map_of_SomeD [OF Some] b by (simp add: leaf_pair_def)
    then have "set m \<union> leaf_pair ` set (l # ls) = set m \<union> leaf_pair ` set ls" by auto
    moreover have "distinct (map fst m') \<and> set m' = set m \<union> leaf_pair ` set ls"
      by (rule 2(2) [OF Some _ rest 2(4)]) (simp add: b)
    ultimately show ?thesis by (simp only: simp_thms)
  qed
qed

lemma mergeLoop_total:
  "consistent (set m \<union> leaf_pair ` set ls) \<Longrightarrow> \<exists>m'. mergeLoop m ls = Inr m'"
proof (induction m ls rule: mergeLoop.induct)
  case (1 m)
  then show ?case by simp
next
  case (2 m l ls)
  show ?case
  proof (cases "map_of m (leaf_index l)")
    case None
    have "set (m @ [(leaf_index l, leaf_bytes l)]) \<union> leaf_pair ` set ls =
      set m \<union> leaf_pair ` set (l # ls)"
      by (auto simp: leaf_pair_def)
    with 2(3) have "consistent (set (m @ [(leaf_index l, leaf_bytes l)]) \<union> leaf_pair ` set ls)"
      by (simp only:)
    from 2(1) [OF None this] None show ?thesis by simp
  next
    case (Some b)
    then have "(leaf_index l, b) \<in> set m" by (rule map_of_SomeD)
    moreover have "(leaf_index l, leaf_bytes l) \<in> leaf_pair ` set (l # ls)"
      by (simp add: leaf_pair_def)
    ultimately have b: "b = leaf_bytes l" using 2(3) unfolding consistent_def by blast
    have "consistent (set m \<union> leaf_pair ` set ls)"
      using 2(3) by (rule consistent_subset) auto
    from 2(2) [OF Some _ this] b have "\<exists>m'. mergeLoop m ls = Inr m'" by simp
    with Some b show ?thesis by simp
  qed
qed

lemma sorted_ints_upt:
  assumes "list_all (\<lambda>i. xs ! i = int i) [0..<length xs]"
  shows "xs = map int [0..<length xs]"
  by (rule nth_equalityI) (use assms in \<open>auto simp: list_all_iff\<close>)

lemma sort_eq_upt: "distinct xs \<Longrightarrow> set xs = int ` {0..<n} \<Longrightarrow> sort xs = map int [0..<n]"
  by (rule sorted_distinct_set_unique)
     (auto simp: sorted_map sorted_wrt_map distinct_map intro: inj_onI)

lemma indexed_pairs: "leaf_pair ` set (indexed xs) = {(int i, xs ! i) | i. i < length xs}"
  by (auto simp: indexed_def leaf_pair_def image_iff)

lemma consistent_indexed: "consistent (leaf_pair ` set (indexed xs))"
  by (auto simp: consistent_def indexed_pairs)

lemma mergeLeaves_sound:
  assumes "mergeLeaves known incoming = Inr ls"
  shows "ls = indexed (map leaf_bytes ls) \<and> set ls = set (known @ incoming)"
proof -
  from assms obtain m where m: "mergeLoop [] (known @ incoming) = Inr m"
    and all: "list_all (\<lambda>i. sort (map fst m) ! i = int i) [0..<length (sort (map fst m))]"
    and ls: "ls = map (\<lambda>i. \<lparr>leaf_index = i, leaf_bytes = the (map_of m i)\<rparr>) (sort (map fst m))"
    by (auto simp: mergeLeaves_def result_simps Let_def split: if_splits)
  let ?n = "length m"
  have srt: "sort (map fst m) = map int [0..<?n]" using sorted_ints_upt [OF all] by simp
  have d: "distinct (map fst m)" and s: "set m = leaf_pair ` set (known @ incoming)"
    using mergeLoop_sound [OF m] by auto
  have 1: "ls = indexed (map leaf_bytes ls)"
    unfolding ls srt indexed_def by (rule nth_equalityI) simp_all
  have "leaf_pair ` set ls = (\<lambda>i. (i, the (map_of m i))) ` set (map fst m)"
    unfolding ls by (simp add: image_image leaf_pair_def)
  also have "\<dots> = set m"
    using d by (force simp: image_image map_of_is_SomeI)
  finally have "leaf_pair ` set ls = leaf_pair ` set (known @ incoming)" using s by simp
  then have "set ls = set (known @ incoming)"
    by (rule inj_image_eq_iff [THEN iffD1, rotated]) (auto intro: injI leaf_pair_inj)
  with 1 show ?thesis by blast
qed

lemma mergeLeaves_complete:
  assumes "set (known @ incoming) = set (indexed xs)"
  shows "mergeLeaves known incoming = Inr (indexed xs)"
proof -
  let ?ls = "known @ incoming"
  have "consistent (set [] \<union> leaf_pair ` set ?ls)"
    using consistent_indexed [of xs] unfolding assms by simp
  from mergeLoop_total [OF this] obtain m where m: "mergeLoop [] ?ls = Inr m" by blast
  then have d: "distinct (map fst m)" and s: "set m = leaf_pair ` set (indexed xs)"
    using mergeLoop_sound [OF m] unfolding assms by simp_all
  have "set (map fst m) = int ` {0..<length xs}"
    by (auto simp: s indexed_pairs image_iff)
  then have srt: "sort (map fst m) = map int [0..<length xs]"
    using d by (intro sort_eq_upt) auto
  have look: "map_of m (int i) = Some (xs ! i)" if "i < length xs" for i
    using d s that by (simp add: map_of_member_iff indexed_pairs)
  have "length m = length xs" using arg_cong [OF srt, of length] by simp
  then show ?thesis
    by (simp add: mergeLeaves_def m srt list_all_iff indexed_def look Let_def)
qed

lemma mergeLeaves_iff:
  "mergeLeaves known incoming = Inr ls \<longleftrightarrow>
     ls = indexed (map leaf_bytes ls) \<and> set ls = set (known @ incoming)"
  using mergeLeaves_sound [of known incoming ls] mergeLeaves_complete [of known incoming "map leaf_bytes ls"]
  by auto

lemma mergeLeaves_cases:
  "mergeLeaves known incoming = Inl (Error ''mergeLeaves: conflicting leaf bytes at index'') \<or>
   mergeLeaves known incoming = Inl (Error ''mergeLeaves: non-contiguous leaf set'') \<or>
   (\<exists>xs. mergeLeaves known incoming = Inr (indexed xs))"
proof (cases "mergeLeaves known incoming")
  case (Inr ls)
  then show ?thesis using mergeLeaves_sound by metis
next
  case (Inl e)
  have "mergeLoop m ls = Inl e \<Longrightarrow> e = Error ''mergeLeaves: conflicting leaf bytes at index''" for m ls
    by (induction m ls rule: mergeLoop.induct) (auto split: option.splits if_splits)
  with Inl show ?thesis by (auto simp: mergeLeaves_def result_simps Let_def split: if_splits)
qed

section \<open>Rebuilding and locating\<close>

lemma insertAll_eq:
  "insertAll t ls =
     bindR (mapR bytesToFieldCanonical (map leaf_bytes ls)) (\<lambda>xs. Inr (t\<lparr>leaves := leaves t @ xs\<rparr>))"
proof (induction ls arbitrary: t)
  case Nil
  then show ?case by simp
next
  case (Cons l ls)
  show ?case
    by (cases "bytesToFieldCanonical (leaf_bytes l)"; cases "mapR bytesToFieldCanonical (map leaf_bytes ls)")
       (simp_all add: Cons.IH tree_insert_def)
qed

definition last_index :: "bytes \<Rightarrow> bytes list \<Rightarrow> nat option" where
  "last_index mine bs =
     (if mine \<in> set bs then Some (last (filter (\<lambda>i. bs ! i = mine) [0..<length bs])) else None)"

lemma last_index_Some:
  assumes "last_index mine bs = Some i"
  shows "i < length bs \<and> bs ! i = mine"
proof -
  from assms have i: "i = last (filter (\<lambda>i. bs ! i = mine) [0..<length bs])" and "mine \<in> set bs"
    by (auto simp: last_index_def split: if_splits)
  then have "filter (\<lambda>i. bs ! i = mine) [0..<length bs] \<noteq> []"
    by (auto simp: filter_empty_conv in_set_conv_nth)
  then have "i \<in> set (filter (\<lambda>i. bs ! i = mine) [0..<length bs])"
    unfolding i by (rule last_in_set)
  then show ?thesis by simp
qed

lemma last_index_max:
  assumes "last_index mine bs = Some i" "j < length bs" "bs ! j = mine"
  shows "j \<le> i"
proof -
  let ?f = "filter (\<lambda>i. bs ! i = mine) [0..<length bs]"
  have "i = last ?f" using assms(1) by (auto simp: last_index_def split: if_splits)
  moreover have "j \<in> set ?f" using assms by simp
  moreover have "sorted ?f" by (simp add: sorted_wrt_filter)
  ultimately show ?thesis by (simp only: sorted_le_last)
qed

lemma last_index_snoc:
  "last_index mine (bs @ [b]) = (if b = mine then Some (length bs) else last_index mine bs)"
proof -
  have "filter (\<lambda>i. (bs @ [b]) ! i = mine) [0..<length bs] = filter (\<lambda>i. bs ! i = mine) [0..<length bs]"
    by (rule filter_cong) (auto simp: nth_append)
  then show ?thesis by (auto simp: last_index_def)
qed

lemma locateLoop_eq:
  "locateLoop mine t found ls =
     bindR (mapR bytesToFieldCanonical (map leaf_bytes ls)) (\<lambda>xs.
       Inr (t\<lparr>leaves := leaves t @ xs\<rparr>,
            (case last_index mine (map leaf_bytes ls) of
               None \<Rightarrow> found | Some i \<Rightarrow> Some (length (leaves t) + i))))"
proof (induction ls rule: rev_induct)
  case Nil
  then show ?case by (simp add: last_index_def)
next
  case (snoc l ls)
  have app: "locateLoop mine t found (ls @ ms) =
    bindR (locateLoop mine t found ls) (\<lambda>(t', f). locateLoop mine t' f ms)" for ms
  proof (induction ls arbitrary: t found)
    case (Cons a ls)
    then show ?case
      by (cases "bytesToFieldCanonical (leaf_bytes a)") (simp_all add: tree_insert_def)
  qed simp
  show ?case
    by (cases "bytesToFieldCanonical (leaf_bytes l)"; cases "mapR bytesToFieldCanonical (map leaf_bytes ls)")
       (auto simp: app snoc.IH mapR_append last_index_snoc tree_insert_def dest: mapR_length)
qed

lemma rebuildRoot_eq:
  "rebuildRoot pos ls =
     bindR (mergeLeaves [] ls) (\<lambda>merged.
       bindR (mapR bytesToFieldCanonical (map leaf_bytes merged)) (\<lambda>xs. tree_root pos \<lparr>leaves = xs\<rparr>))"
  by (simp add: rebuildRoot_def insertAll_eq emptyTree_def bindR_assoc)

lemma mergeLoop_Inl: "mergeLoop m ls = Inl e \<Longrightarrow> e = Error ''mergeLeaves: conflicting leaf bytes at index''"
  by (induction m ls rule: mergeLoop.induct) (auto split: option.splits if_splits)

lemma mergeLeaves_conflict:
  "mergeLeaves known incoming = Inl (Error ''mergeLeaves: conflicting leaf bytes at index'') \<longleftrightarrow>
     \<not> consistent (leaf_pair ` set (known @ incoming))"
proof (cases "mergeLoop [] (known @ incoming)")
  case (Inl e)
  then have "mergeLeaves known incoming = Inl (Error ''mergeLeaves: conflicting leaf bytes at index'')"
    using mergeLoop_Inl [OF Inl] by (simp add: mergeLeaves_def)
  moreover have "\<not> consistent (leaf_pair ` set (known @ incoming))"
    using mergeLoop_total [of "[]" "known @ incoming"] Inl by auto
  ultimately show ?thesis by blast
next
  case (Inr m)
  have d: "distinct (map fst m)" and s: "set m = leaf_pair ` set (known @ incoming)"
    using mergeLoop_sound [OF Inr] by simp_all
  have "consistent (set m)" using d unfolding consistent_def by (meson eq_key_imp_eq_value)
  then have "consistent (leaf_pair ` set (known @ incoming))" unfolding s .
  with Inr show ?thesis by (simp add: mergeLeaves_def Let_def)
qed

lemma mergeLeaves_set_cong:
  assumes "set (k @ i) = set (k' @ i')"
  shows "mergeLeaves k i = mergeLeaves k' i'"
proof (cases "\<exists>xs. mergeLeaves k i = Inr xs \<or> mergeLeaves k' i' = Inr xs")
  case True
  then show ?thesis using assms by (metis mergeLeaves_iff)
next
  case False
  then show ?thesis
    using mergeLeaves_cases [of k i] mergeLeaves_cases [of k' i']
      mergeLeaves_conflict [of k i] mergeLeaves_conflict [of k' i']
    unfolding assms by force
qed

section \<open>What an equal root implies\<close>

text \<open>A pair of sibling nodes, as the hash sees it.\<close>

definition children :: "hash \<Rightarrow> int list \<Rightarrow> nat \<Rightarrow> nat \<Rightarrow> int list" where
  "children pos xs l i =
     [node pos xs l (2 * i) mod FIELD_ORDER, node pos xs l (2 * i + 1) mod FIELD_ORDER]"

definition tree_clash :: "hash \<Rightarrow> int list \<Rightarrow> int list \<Rightarrow> bool" where
  "tree_clash pos xs ys \<longleftrightarrow>
     (\<exists>l < DEPTH. \<exists>i. children pos xs l i \<noteq> children pos ys l i \<and>
        pos (children pos xs l i) = pos (children pos ys l i))"

lemma node_Suc_children: "node pos xs (Suc l) i = pos (children pos xs l i)"
  by (simp add: hash2_def children_def)

lemma node_canonical:
  "canonical_hash pos \<Longrightarrow> list_all canonical xs \<Longrightarrow> canonical (node pos xs l i)"
  by (cases l) (auto simp: list_all_length canonical_hash_def hash2_def canonical_def)

lemma node_eq_leaves:
  assumes "canonical_hash pos" "list_all canonical xs" "list_all canonical ys"
    and "\<not> tree_clash pos xs ys"
  shows "node pos xs l i = node pos ys l i \<Longrightarrow> l \<le> DEPTH \<Longrightarrow> i * 2 ^ l \<le> j \<Longrightarrow> j < (i + 1) * 2 ^ l \<Longrightarrow>
    node pos xs 0 j = node pos ys 0 j"
proof (induction l arbitrary: i)
  case 0
  then have "i = j" by simp
  with 0 show ?case by simp
next
  case (Suc l)
  have "l < DEPTH" using Suc.prems(2) by simp
  with Suc.prems(1) assms(4) have ch: "children pos xs l i = children pos ys l i"
    unfolding node_Suc_children tree_clash_def by blast
  have two: "node pos xs l (2 * i) = node pos ys l (2 * i)"
    "node pos xs l (2 * i + 1) = node pos ys l (2 * i + 1)"
    using ch node_canonical [OF assms(1,2)] node_canonical [OF assms(1,3)]
    unfolding children_def by (metis canonical_reduce list.inject)+
  show ?case
  proof (cases "j < (2 * i + 1) * 2 ^ l")
    case True
    with Suc.prems Suc.IH [OF two(1)] show ?thesis by (simp add: mult.commute mult.left_commute)
  next
    case False
    with Suc.prems Suc.IH [OF two(2)] show ?thesis by (simp add: algebra_simps)
  qed
qed

section \<open>A pool of one leaf, evaluated\<close>

definition sample_leaf :: pool_leaf where
  "sample_leaf = \<lparr>leaf_index = 0, leaf_bytes = replicate 32 1\<rparr>"

lemma sample_located:
  "locateLeaf (\<lambda>xs. 0) [sample_leaf] (replicate 32 1) =
     Inr (Some \<lparr>m_index = 0, m_siblings = replicate 24 0, m_bits = replicate 24 0\<rparr>)"
  by code_simp

lemma sample_verified: "verifyAgainstOnChainRoot (\<lambda>xs. 0) [sample_leaf] 0 = Inr True"
  by code_simp

lemma sample_merged: "mergeLeaves [] [sample_leaf] = Inr [sample_leaf]"
  by code_simp

lemma located_leaf:
  assumes "length ls \<le> 2 ^ DEPTH"
    and "verifyAgainstOnChainRoot pos ls onChainRoot = Inr True"
    and "locateLeaf pos ls mine = Inr (Some m)"
  shows "(\<exists>x. bytesToFieldCanonical mine = Inr x \<and>
      computeRoot pos x (int (m_index m)) (m_siblings m) = Inr onChainRoot) \<and>
    \<lparr>leaf_index = int (m_index m), leaf_bytes = mine\<rparr> \<in> set ls \<and>
    (\<forall>l \<in> set ls. leaf_bytes l = mine \<longrightarrow> leaf_index l \<le> int (m_index m)) \<and>
    m_index m < 2 ^ DEPTH \<and> length (m_siblings m) = DEPTH \<and>
    m_bits m = map (\<lambda>l. int (m_index m div 2 ^ l mod 2)) [0..<DEPTH] \<and>
    (canonical_hash pos \<longrightarrow> list_all canonical (m_siblings m))"
proof -
  from assms(3) obtain merged t where merged: "mergeLeaves [] ls = Inr merged"
    and t: "locateLoop mine emptyTree None merged = Inr (t, Some (m_index m))"
    and p: "pathFor pos t (int (m_index m)) = Inr (m_siblings m, m_bits m)"
    by (auto simp: locateLeaf_def result_simps split: option.splits)
  let ?bs = "map leaf_bytes merged" and ?i = "m_index m"
  have m: "merged = indexed ?bs" "set merged = set ls"
    using mergeLeaves_sound [OF merged] by simp_all
  from t obtain xs where xs: "mapR bytesToFieldCanonical ?bs = Inr xs" and "t = \<lparr>leaves = xs\<rparr>"
    and "last_index mine ?bs = Some ?i"
    unfolding locateLoop_eq by (auto simp: result_simps emptyTree_def split: option.splits)
  note i = last_index_Some [OF \<open>last_index mine ?bs = Some ?i\<close>] and len = mapR_length [OF xs]
  have "card (set merged) \<le> 2 ^ DEPTH"
    unfolding m(2) using card_length [of ls] assms(1) by linarith
  moreover have "distinct merged"
    by (subst m(1)) (auto simp: indexed_def distinct_map intro: inj_onI)
  ultimately have l: "length merged \<le> 2 ^ DEPTH" by (simp add: distinct_card)
  have root: "tree_root pos t = Inr onChainRoot"
    using assms(2) xs merged \<open>t = _\<close>
    by (simp add: verifyAgainstOnChainRoot_def rebuildRoot_eq result_simps)
  have "computeRoot pos (xs ! ?i) (int ?i) (m_siblings m) = Inr onChainRoot"
    using merkle_path [of ?i t pos] p i l len root \<open>t = _\<close> by auto
  moreover have "bytesToFieldCanonical mine = Inr (xs ! ?i)"
    using mapR_nth [OF xs, of ?i] i by simp
  moreover have "\<lparr>leaf_index = int ?i, leaf_bytes = mine\<rparr> \<in> set ls"
    unfolding m(2) [symmetric] by (subst m(1)) (use i in \<open>auto simp: indexed_def\<close>)
  moreover have "leaf_index l \<le> int ?i" if "l \<in> set ls" "leaf_bytes l = mine" for l
  proof -
    from that(1) obtain j where "j < length ?bs" "l = \<lparr>leaf_index = int j, leaf_bytes = ?bs ! j\<rparr>"
      unfolding m(2) [symmetric] by (subst (asm) m(1)) (auto simp: indexed_def)
    with that(2) last_index_max [OF \<open>last_index mine ?bs = Some ?i\<close>, of j] show ?thesis by simp
  qed
  moreover have "?i < 2 ^ DEPTH" using i l by simp
  moreover have "length (m_siblings m) = DEPTH \<and> m_bits m = map (\<lambda>l. int (?i div 2 ^ l mod 2)) [0..<DEPTH]"
    using merkle_path [of ?i t pos] p i l len \<open>t = _\<close> by auto
  moreover have "list_all canonical (m_siblings m)" if "canonical_hash pos"
  proof -
    have "list_all canonical xs"
      unfolding list_all_length using len mapR_nth [OF xs] bytesToFieldCanonical_canonical by metis
    moreover have "m_siblings m = map (\<lambda>l. node pos xs l (sibling (?i div 2 ^ l))) [0..<DEPTH]"
      using pathFor_eq [of ?i t pos] p i l len \<open>t = _\<close> by auto
    ultimately show ?thesis using node_canonical [OF that] by (simp add: list_all_iff)
  qed
  ultimately show ?thesis by blast
qed

section \<open>Properties\<close>

text \<open>
  Merging accepts exactly the leaf sets that number one value per index from 0 without a
  gap, and returns them in index order without duplicates; it reports a conflict exactly when
  two leaves disagree on an index.
\<close>

theorem merge_leaves_exact:
  "(mergeLeaves known incoming = Inr ls \<longleftrightarrow>
      ls = indexed (map leaf_bytes ls) \<and> set ls = set (known @ incoming)) \<and>
   (mergeLeaves known incoming = Inl (Error ''mergeLeaves: conflicting leaf bytes at index'') \<longleftrightarrow>
      \<not> consistent (leaf_pair ` set (known @ incoming)))"
  by (rule conjI [OF mergeLeaves_iff mergeLeaves_conflict])

text \<open>
  The order and the multiplicity in which an indexer hands out leaves, and how they are
  split between the known and the incoming ones, change neither the merge (errors included)
  nor the rebuilt root nor the located witness.
\<close>

theorem leaf_order_irrelevant:
  assumes "set (known @ incoming) = set ls"
  shows "mergeLeaves known incoming = mergeLeaves [] ls \<and>
    rebuildRoot pos (known @ incoming) = rebuildRoot pos ls \<and>
    locateLeaf pos (known @ incoming) mine = locateLeaf pos ls mine"
  using mergeLeaves_set_cong [of known incoming "[]" ls]
    mergeLeaves_set_cong [of "[]" "known @ incoming" "[]" ls] assms
  by (simp add: rebuildRoot_def locateLeaf_def)

theorem leaf_order_irrelevant_witness:
  "let a = \<lparr>leaf_index = 0, leaf_bytes = replicate 32 1\<rparr>;
       b = \<lparr>leaf_index = 1, leaf_bytes = replicate 32 2\<rparr>
   in mergeLeaves [b] [a, b] = mergeLeaves [] [a, b] \<and>
      rebuildRoot sum_list ([b] @ [a, b]) = rebuildRoot sum_list [a, b] \<and>
      locateLeaf sum_list ([b] @ [a, b]) (replicate 32 2) = locateLeaf sum_list [a, b] (replicate 32 2)"
  unfolding Let_def by (rule leaf_order_irrelevant) auto

text \<open>
  C7. Once the rebuilt root matches the contract's, a located leaf is a real membership
  witness: it is a leaf of the set, the last one with these bytes, and the circuit's climb
  from it along the returned siblings ends in the contract's root.
\<close>

theorem located_leaf_proves_membership:
  assumes "length ls \<le> 2 ^ DEPTH"
    and "verifyAgainstOnChainRoot pos ls onChainRoot = Inr True"
    and "locateLeaf pos ls mine = Inr (Some m)"
  shows "(\<exists>x. bytesToFieldCanonical mine = Inr x \<and>
      computeRoot pos x (int (m_index m)) (m_siblings m) = Inr onChainRoot) \<and>
    \<lparr>leaf_index = int (m_index m), leaf_bytes = mine\<rparr> \<in> set ls \<and>
    (\<forall>l \<in> set ls. leaf_bytes l = mine \<longrightarrow> leaf_index l \<le> int (m_index m))"
  using located_leaf [OF assms] by blast

theorem located_leaf_proves_membership_witness:
  "\<exists>m. locateLeaf (\<lambda>xs. 0) [sample_leaf] (replicate 32 1) = Inr (Some m) \<and>
    ((\<exists>x. bytesToFieldCanonical (replicate 32 1) = Inr x \<and>
        computeRoot (\<lambda>xs. 0) x (int (m_index m)) (m_siblings m) = Inr 0) \<and>
     \<lparr>leaf_index = int (m_index m), leaf_bytes = replicate 32 1\<rparr> \<in> set [sample_leaf] \<and>
     (\<forall>l \<in> set [sample_leaf]. leaf_bytes l = replicate 32 1 \<longrightarrow> leaf_index l \<le> int (m_index m)))"
  by (rule exI, rule conjI [OF sample_located],
      rule located_leaf_proves_membership [OF _ sample_verified sample_located]) (simp add: DEPTH_def)

text \<open>
  C8. Trust in the indexer is not needed: if the leaves it served pass the comparison with the
  contract's root, the contract's pool holding the leaves \<open>ts\<close>, then every leaf position
  holds the same value in both (zero padding included), or the two trees exhibit two
  different pairs of sibling nodes with the same hash.
\<close>

theorem verified_pool_is_the_pool:
  assumes "canonical_hash pos" "list_all canonical ts" "mergeLeaves [] ls = Inr merged"
    and "mapR bytesToFieldCanonical (map leaf_bytes merged) = Inr xs"
    and "tree_root pos \<lparr>leaves = ts\<rparr> = Inr root"
    and "verifyAgainstOnChainRoot pos ls root = Inr True"
  shows "(\<forall>j < 2 ^ DEPTH. node pos xs 0 j = node pos ts 0 j) \<or> tree_clash pos xs ts"
proof -
  have "list_all canonical xs"
    unfolding list_all_length
    using mapR_length [OF assms(4)] mapR_nth [OF assms(4)] bytesToFieldCanonical_canonical by metis
  moreover have "node pos xs DEPTH 0 = node pos ts DEPTH 0"
    using assms(3-6) by (simp add: verifyAgainstOnChainRoot_def rebuildRoot_eq tree_root_eq)
  ultimately show ?thesis
    using node_eq_leaves [OF assms(1) _ assms(2), of xs DEPTH 0] by (auto simp del: node.simps)
qed

theorem verified_pool_is_the_pool_witness:
  "(\<forall>j < 2 ^ DEPTH.
      node (\<lambda>xs. 0) [454086624460063511464984254936031011189294057512315937409637584344757371137] 0 j =
      node (\<lambda>xs. 0) [9] 0 j) \<or>
   tree_clash (\<lambda>xs. 0) [454086624460063511464984254936031011189294057512315937409637584344757371137] [9]"
proof (rule verified_pool_is_the_pool [OF _ _ sample_merged _ _ sample_verified])
  show "mapR bytesToFieldCanonical (map leaf_bytes [sample_leaf]) =
    Inr [454086624460063511464984254936031011189294057512315937409637584344757371137]"
    by code_simp
  show "tree_root (\<lambda>xs. 0) \<lparr>leaves = [9]\<rparr> = Inr 0" by code_simp
qed (simp_all add: canonical_hash_def canonical_def FIELD_ORDER_val)

end
