(* ===== verification/JsString.thy ===== *)
theory JsString
  imports Prelude
begin

text \<open>
  The part of JavaScript's string library the program uses. A string is a list of
  characters; every string the program builds or accepts (addresses, names, host names,
  hexadecimal and base64url text, JSON of these) is ASCII, and the case mappings below are
  those of ASCII: other characters are left alone. \<open>utf8\<close> is \<open>TextEncoder\<close> on code points
  below 256.
\<close>

section \<open>Characters\<close>

definition code :: "char \<Rightarrow> nat" where
  "code c = of_char c"

definition is_digit :: "char \<Rightarrow> bool" where
  "is_digit c \<longleftrightarrow> 48 \<le> code c \<and> code c \<le> 57"

definition is_lower :: "char \<Rightarrow> bool" where
  "is_lower c \<longleftrightarrow> 97 \<le> code c \<and> code c \<le> 122"

definition is_upper :: "char \<Rightarrow> bool" where
  "is_upper c \<longleftrightarrow> 65 \<le> code c \<and> code c \<le> 90"

definition is_hex :: "char \<Rightarrow> bool" where
  "is_hex c \<longleftrightarrow> is_digit c \<or> 97 \<le> code c \<and> code c \<le> 102 \<or> 65 \<le> code c \<and> code c \<le> 70"

text \<open>The base32 alphabet of addresses, \<open>[A-Z2-7]\<close>.\<close>

definition is_base32 :: "char \<Rightarrow> bool" where
  "is_base32 c \<longleftrightarrow> is_upper c \<or> 50 \<le> code c \<and> code c \<le> 55"

definition lower :: "char \<Rightarrow> char" where
  "lower c = (if is_upper c then char_of (code c + 32) else c)"

definition upper :: "char \<Rightarrow> char" where
  "upper c = (if is_lower c then char_of (code c - 32) else c)"

definition toLowerCase :: "string \<Rightarrow> string" where
  "toLowerCase = map lower"

definition toUpperCase :: "string \<Rightarrow> string" where
  "toUpperCase = map upper"

definition is_space :: "char \<Rightarrow> bool" where
  "is_space c \<longleftrightarrow> 9 \<le> code c \<and> code c \<le> 13 \<or> code c = 32 \<or> code c = 160"

definition trim :: "string \<Rightarrow> string" where
  "trim s = rev (dropWhile is_space (rev (dropWhile is_space s)))"

section \<open>Splitting and joining\<close>

fun split_on :: "char \<Rightarrow> string \<Rightarrow> string list" where
  "split_on d [] = [[]]"
| "split_on d (c # cs) =
     (if c = d then [] # split_on d cs
      else (case split_on d cs of [] \<Rightarrow> [[c]] | p # ps \<Rightarrow> (c # p) # ps))"

fun join :: "string \<Rightarrow> string list \<Rightarrow> string" where
  "join sep [] = []"
| "join sep [s] = s"
| "join sep (s # t # ss) = s @ sep @ join sep (t # ss)"

definition startsWith :: "string \<Rightarrow> string \<Rightarrow> bool" where
  "startsWith s p \<longleftrightarrow> take (length p) s = p"

definition endsWith :: "string \<Rightarrow> string \<Rightarrow> bool" where
  "endsWith s p \<longleftrightarrow> length p \<le> length s \<and> drop (length s - length p) s = p"

definition padStart :: "nat \<Rightarrow> char \<Rightarrow> string \<Rightarrow> string" where
  "padStart n c s = replicate (n - length s) c @ s"

definition padEnd :: "nat \<Rightarrow> char \<Rightarrow> string \<Rightarrow> string" where
  "padEnd n c s = s @ replicate (n - length s) c"

text \<open>\<open>replace(/x+$/, '')\<close> for a single character \<open>x\<close>.\<close>

definition stripTrailing :: "char \<Rightarrow> string \<Rightarrow> string" where
  "stripTrailing c s = rev (dropWhile (\<lambda>d. d = c) (rev s))"

definition utf8 :: "string \<Rightarrow> bytes" where
  "utf8 s = concat (map (\<lambda>c. if code c < 128 then [of_nat (code c)]
     else [of_nat (192 + code c div 64), of_nat (128 + code c mod 64)]) s)"

section \<open>Numerals\<close>

definition digitChar :: "nat \<Rightarrow> char" where
  "digitChar d = (if d < 10 then char_of (48 + d) else char_of (87 + d))"

definition digitVal :: "char \<Rightarrow> nat" where
  "digitVal c = (if is_digit c then code c - 48
     else if 97 \<le> code c then code c - 87 else code c - 55)"

text \<open>\<open>toString(b)\<close> of a non-negative integer, for bases from 2 to 16.\<close>

fun toStringBase :: "nat \<Rightarrow> nat \<Rightarrow> string" where
  "toStringBase b n =
     (if n < b \<or> b < 2 then [digitChar n] else toStringBase b (n div b) @ [digitChar (n mod b)])"

declare toStringBase.simps [simp del]

definition ofStringBase :: "nat \<Rightarrow> string \<Rightarrow> nat" where
  "ofStringBase b s = foldl (\<lambda>x c. x * b + digitVal c) 0 s"

abbreviation showNat :: "nat \<Rightarrow> string" where
  "showNat \<equiv> toStringBase 10"

abbreviation readNat :: "string \<Rightarrow> nat" where
  "readNat \<equiv> ofStringBase 10"

definition showInt :: "int \<Rightarrow> string" where
  "showInt i = (if i < 0 then CHR ''-'' # showNat (nat (- i)) else showNat (nat i))"

definition all_digits :: "string \<Rightarrow> bool" where
  "all_digits s \<longleftrightarrow> s \<noteq> [] \<and> list_all is_digit s"

section \<open>Facts about characters\<close>

lemma code_char_of [simp]: "code (char_of n) = n mod 256"
  by (simp add: code_def)

lemma code_lt_256 [simp]: "code c < 256"
  by (simp add: code_def)

lemma code_inject: "code c = code d \<longleftrightarrow> c = d"
  by (simp add: code_def)

lemma code_Char [simp]:
  "code (Char b0 b1 b2 b3 b4 b5 b6 b7) =
     of_bool b0 + 2 * (of_bool b1 + 2 * (of_bool b2 + 2 * (of_bool b3 + 2 * (of_bool b4 +
       2 * (of_bool b5 + 2 * (of_bool b6 + 2 * of_bool b7))))))"
  by (simp add: code_def of_char_def)

lemma eq_char_of_iff: "c = char_of n \<longleftrightarrow> code c = n mod 256" "char_of n = c \<longleftrightarrow> code c = n mod 256"
  by (simp_all flip: code_inject) (simp_all add: eq_commute)

lemma code_lower: "code (lower c) = (if is_upper c then code c + 32 else code c)"
  by (auto simp: lower_def is_upper_def)

lemma code_upper: "code (upper c) = (if is_lower c then code c - 32 else code c)"
  by (auto simp: upper_def is_lower_def)

lemma lower_idem [simp]: "lower (lower c) = lower c"
  by (auto simp: lower_def is_upper_def)

lemma upper_idem [simp]: "upper (upper c) = upper c"
  by (auto simp: upper_def is_lower_def)

lemma upper_lower [simp]: "upper (lower c) = upper c"
  by (auto simp: code_upper code_lower is_lower_def is_upper_def simp flip: code_inject)

lemma lower_upper [simp]: "lower (upper c) = lower c"
  by (auto simp: code_upper code_lower is_lower_def is_upper_def simp flip: code_inject)

lemma upper_fixed: "\<not> is_lower c \<Longrightarrow> upper c = c"
  by (simp add: upper_def)

lemma lower_fixed: "\<not> is_upper c \<Longrightarrow> lower c = c"
  by (simp add: lower_def)

lemma length_toLowerCase [simp]: "length (toLowerCase s) = length s"
  by (simp add: toLowerCase_def)

lemma length_toUpperCase [simp]: "length (toUpperCase s) = length s"
  by (simp add: toUpperCase_def)

lemma toUpperCase_toLowerCase [simp]: "toUpperCase (toLowerCase s) = toUpperCase s"
  by (simp add: toUpperCase_def toLowerCase_def)

lemma toLowerCase_toUpperCase [simp]: "toLowerCase (toUpperCase s) = toLowerCase s"
  by (simp add: toUpperCase_def toLowerCase_def)

lemma toLowerCase_idem [simp]: "toLowerCase (toLowerCase s) = toLowerCase s"
  by (simp add: toLowerCase_def)

lemma toUpperCase_idem [simp]: "toUpperCase (toUpperCase s) = toUpperCase s"
  by (simp add: toUpperCase_def)

lemma toLowerCase_append [simp]: "toLowerCase (s @ t) = toLowerCase s @ toLowerCase t"
  by (simp add: toLowerCase_def)

lemma is_digit_lower [simp]: "is_digit (lower c) = is_digit c"
  by (auto simp: is_digit_def code_lower is_upper_def)

section \<open>Facts about splitting\<close>

lemma split_on_nonempty [simp]: "split_on d s \<noteq> []"
  by (cases s) (auto split: list.splits)

lemma join_split_on: "join [d] (split_on d s) = s"
proof (induction s)
  case Nil
  then show ?case by simp
next
  case (Cons c s)
  obtain p ps where ps: "split_on d s = p # ps" by (cases "split_on d s") auto
  with Cons show ?case by (cases ps) auto
qed

lemma split_on_no_sep: "d \<notin> set s \<Longrightarrow> split_on d s = [s]"
  by (induction s) auto

lemma split_on_append: "d \<notin> set s \<Longrightarrow> split_on d (s @ d # t) = s # split_on d t"
  by (induction s) auto

lemma split_on_parts: "p \<in> set (split_on d s) \<Longrightarrow> d \<notin> set p"
proof (induction s arbitrary: p)
  case Nil
  then show ?case by simp
next
  case (Cons c s)
  then show ?case by (cases "split_on d s") (auto split: if_splits)
qed

lemma split_on_join: "(\<forall>p \<in> set ps. d \<notin> set p) \<Longrightarrow> ps \<noteq> [] \<Longrightarrow> split_on d (join [d] ps) = ps"
  by (induction "[d]" ps rule: join.induct) (auto simp: split_on_no_sep split_on_append)

lemma split_on_hd_tl:
  "split_on d s = p # q # ps \<Longrightarrow> s = p @ d # join [d] (q # ps) \<and> d \<notin> set p"
  using join_split_on [of d s] split_on_parts [of p d s] by auto

lemma startsWith_append [simp]: "startsWith (p @ s) p"
  by (simp add: startsWith_def)

lemma startsWith_iff: "startsWith s p \<longleftrightarrow> (\<exists>t. s = p @ t)"
  by (metis append_take_drop_id startsWith_append startsWith_def)

lemma endsWith_iff: "endsWith s p \<longleftrightarrow> (\<exists>t. s = t @ p)"
  by (auto simp: endsWith_def) (metis append_take_drop_id)

section \<open>Facts about numerals\<close>

lemma digitVal_digitChar [simp]: "d < 16 \<Longrightarrow> digitVal (digitChar d) = d"
  by (auto simp: digitVal_def digitChar_def is_digit_def)

lemma is_digit_digitChar [simp]: "d < 10 \<Longrightarrow> is_digit (digitChar d)"
  by (simp add: digitChar_def is_digit_def)

lemma is_hex_digitChar [simp]: "d < 16 \<Longrightarrow> is_hex (digitChar d)"
  by (auto simp: digitChar_def is_hex_def is_digit_def)

lemma digitVal_bound: "is_digit c \<Longrightarrow> digitVal c < 10"
  by (auto simp: digitVal_def is_digit_def)

lemma digitVal_hex_bound: "is_hex c \<Longrightarrow> digitVal c < 16"
  by (auto simp: digitVal_def is_digit_def is_hex_def)

lemma ofStringBase_Nil [simp]: "ofStringBase b [] = 0"
  by (simp add: ofStringBase_def)

lemma ofStringBase_snoc [simp]: "ofStringBase b (s @ [c]) = ofStringBase b s * b + digitVal c"
  by (simp add: ofStringBase_def)

lemma ofStringBase_append:
  "ofStringBase b (s @ t) = ofStringBase b s * b ^ length t + ofStringBase b t"
  by (induction t rule: rev_induct) (simp_all add: algebra_simps flip: append_assoc)

lemma ofStringBase_bound:
  "(\<forall>c \<in> set s. digitVal c < b) \<Longrightarrow> ofStringBase b s < b ^ length s"
proof (induction s rule: rev_induct)
  case Nil
  then show ?case by simp
next
  case (snoc c s)
  then have "Suc (ofStringBase b s) \<le> b ^ length s" and c: "digitVal c < b" by (auto intro: Suc_leI)
  then have "Suc (ofStringBase b s) * b \<le> b ^ length s * b" by (intro mult_le_mono1)
  then have "ofStringBase b s * b + b \<le> b ^ length s * b" by simp
  then have "ofStringBase b s * b + digitVal c < b ^ length s * b" using c by linarith
  then show ?case by (simp add: mult.commute)
qed

lemma ofStringBase_zeros [simp]: "ofStringBase b (replicate n CHR ''0'') = 0"
  by (induction n) (simp_all add: replicate_append_same [symmetric] digitVal_def is_digit_def code_def)

lemma ofStringBase_padStart [simp]:
  "ofStringBase b (padStart n CHR ''0'' s) = ofStringBase b s"
  by (simp add: padStart_def ofStringBase_append)

lemma toStringBase_value [simp]:
  "2 \<le> b \<Longrightarrow> b \<le> 16 \<Longrightarrow> ofStringBase b (toStringBase b n) = n"
proof (induction b n rule: toStringBase.induct)
  case (1 b n)
  show ?case
  proof (cases "n < b")
    case True
    with 1 show ?thesis
      using ofStringBase_snoc [of b "[]" "digitChar n"] by (subst toStringBase.simps) simp
  next
    case False
    from \<open>2 \<le> b\<close> have "n mod b < b" by (intro mod_less_divisor) simp
    with \<open>b \<le> 16\<close> have m: "n mod b < 16" by linarith
    have "ofStringBase b (toStringBase b (n div b)) = n div b"
      using 1 False by simp
    with 1 False m show ?thesis by (subst toStringBase.simps) simp
  qed
qed

lemma toStringBase_digits:
  "2 \<le> b \<Longrightarrow> list_all (\<lambda>c. \<exists>d < b. c = digitChar d) (toStringBase b n)"
proof (induction b n rule: toStringBase.induct)
  case (1 b n)
  from \<open>2 \<le> b\<close> have "n mod b < b" by (intro mod_less_divisor) simp
  then have "\<exists>d < b. digitChar (n mod b) = digitChar d" by blast
  with 1 show ?case by (subst toStringBase.simps) auto
qed

lemma showNat_digits: "list_all is_digit (showNat n)"
  using toStringBase_digits [of 10 n] by (auto simp: list_all_iff)

lemma toStringBase_nonempty [simp]: "toStringBase b n \<noteq> []"
  by (subst toStringBase.simps) simp

lemma all_digits_showNat [simp]: "all_digits (showNat n)"
  by (simp add: all_digits_def showNat_digits)

lemma readNat_bound: "list_all is_digit s \<Longrightarrow> readNat s < 10 ^ length s"
  by (rule ofStringBase_bound) (auto simp: list_all_iff digitVal_bound)

lemma length_toStringBase: "2 \<le> b \<Longrightarrow> 0 < k \<Longrightarrow> n < b ^ k \<Longrightarrow> length (toStringBase b n) \<le> k"
proof (induction b n arbitrary: k rule: toStringBase.induct)
  case (1 b n)
  show ?case
  proof (cases "n < b")
    case True
    with 1 show ?thesis by (subst toStringBase.simps) simp
  next
    case False
    obtain j where k: "k = Suc j" using 1 by (cases k) auto
    have "0 < j" using 1 False k by (cases j) auto
    moreover have "n div b < b ^ j"
      using 1 k by (simp add: less_mult_imp_div_less mult.commute)
    ultimately have "length (toStringBase b (n div b)) \<le> j"
      using 1 False by simp
    with 1 False k show ?thesis by (subst toStringBase.simps) simp
  qed
qed

lemma showNat_inj: "showNat m = showNat n \<Longrightarrow> m = n"
proof -
  assume "showNat m = showNat n"
  then have "readNat (showNat m) = readNat (showNat n)" by (rule arg_cong)
  then show ?thesis by simp
qed

end
