(* ===== verification/AuthHash.thy ===== *)
theory AuthHash
  imports PoolSync JsString
begin

text \<open>
  The Poseidon2 commitments of zero-knowledge recovery (\<open>zkRecovery/authHash.ts\<close>), the
  enrollment commitments (\<open>enrollment.ts\<close>) and the derivation of the recovery secret
  (\<open>derivation.ts\<close>). SHA-256, HKDF, the BIP-39 seed and the decoding of a contract address
  are parameters; what the code relies on is that SHA-256 returns 32 bytes and HKDF as many
  as it is asked for.
\<close>

section \<open>Commitments\<close>

type_synonym digest = "bytes \<Rightarrow> bytes"

definition digest32 :: "digest \<Rightarrow> bool" where
  "digest32 sha256 \<longleftrightarrow> (\<forall>b. length (sha256 b) = 32)"

definition wrapLeafInner :: "hash \<Rightarrow> int \<Rightarrow> int result" where
  "wrapLeafInner pos secret = p2 pos [DOM_LEAF, secret]"

definition wrapLeafStored :: "hash \<Rightarrow> bytes \<Rightarrow> int \<Rightarrow> int result" where
  "wrapLeafStored pos accountId32 inner =
     bindR (split16 accountId32) (\<lambda>(acctHi, acctLo). p2 pos [DOM_BIND, acctHi, acctLo, inner])"

definition computeNullifier :: "hash \<Rightarrow> bytes \<Rightarrow> int \<Rightarrow> int result" where
  "computeNullifier pos accountId32 secret =
     bindR (split16 accountId32) (\<lambda>(acctHi, acctLo). p2 pos [DOM_NULL, acctHi, acctLo, secret])"

record auth_hash_params =
  action :: int
  accountId32 :: bytes
  networkPassphrase :: string
  controllerId32 :: bytes
  newPubkey65 :: "bytes option"
  nonce :: int
  timelockSecs :: int

definition pubkeyFields :: "bytes option \<Rightarrow> int list result" where
  "pubkeyFields pk =
     (case pk of
        None \<Rightarrow> Inr [0, 0, 0, 0, 0]
      | Some b \<Rightarrow>
          if length b \<noteq> 65 then Inl (Error ''computeAuthHash: newPubkey65 must be 65 bytes'')
          else bindR (u256FromU64 (uint (b ! 0))) (\<lambda>pkPrefix.
               bindR (split16 (subarray 1 33 b)) (\<lambda>(pkXHi, pkXLo).
               bindR (split16 (subarray 33 65 b)) (\<lambda>(pkYHi, pkYLo).
                 Inr [pkPrefix, pkXHi, pkXLo, pkYHi, pkYLo]))))"

definition authInputs :: "digest \<Rightarrow> auth_hash_params \<Rightarrow> int list result" where
  "authInputs sha256 p =
     bindR (u256FromU64 (action p)) (\<lambda>actionF.
     bindR (split16 (accountId32 p)) (\<lambda>(acctHi, acctLo).
     bindR (split16 (sha256 (utf8 (networkPassphrase p)))) (\<lambda>(npassHi, npassLo).
     bindR (split16 (controllerId32 p)) (\<lambda>(ctrlHi, ctrlLo).
     bindR (pubkeyFields (newPubkey65 p)) (\<lambda>pk.
     bindR (u256FromU64 (nonce p)) (\<lambda>nonceF.
     bindR (u256FromU64 (timelockSecs p)) (\<lambda>timelockF.
       Inr ([DOM_AUTH, actionF, acctHi, acctLo, npassHi, npassLo, ctrlHi, ctrlLo] @ pk @
            [nonceF, timelockF]))))))))"

definition computeAuthHash :: "hash \<Rightarrow> digest \<Rightarrow> auth_hash_params \<Rightarrow> int result" where
  "computeAuthHash pos sha256 p = bindR (authInputs sha256 p) (p2 pos)"

section \<open>Enrollment\<close>

definition commitmentForCreation :: "hash \<Rightarrow> int \<Rightarrow> bytes result" where
  "commitmentForCreation pos secret = bindR (wrapLeafInner pos secret) fieldToBytes32"

definition dummyCommitment :: "digest \<Rightarrow> bytes \<Rightarrow> bytes result" where
  "dummyCommitment sha256 saltBytes =
     (if length saltBytes \<noteq> 32 then Inl (Error ''dummyCommitment: expected 32-byte salt'')
      else fieldToBytes32
             (jsrem (bytesToBigIntBE (sha256 (utf8 ''nido-zk-dummy'' @ saltBytes))) FIELD_ORDER))"

definition buildMigrationEnroll :: "hash \<Rightarrow> string \<Rightarrow> int \<Rightarrow> bytes result" where
  "buildMigrationEnroll pos account secret = commitmentForCreation pos secret"

section \<open>Derivation of the recovery secret\<close>

text \<open>\<open>hkdf ikm salt info n\<close> is HKDF-SHA256 with \<open>n\<close> bytes of output.\<close>

type_synonym kdf = "bytes \<Rightarrow> bytes \<Rightarrow> bytes \<Rightarrow> nat \<Rightarrow> bytes"

definition kdf_length :: "kdf \<Rightarrow> bool" where
  "kdf_length hkdf \<longleftrightarrow> (\<forall>ikm salt info n. length (hkdf ikm salt info n) = n)"

definition m2Message :: "string \<Rightarrow> string \<Rightarrow> string" where
  "m2Message account network =
     join ''\<newline>''
       [''nido-recovery-v1'',
        ''account: '' @ account,
        ''network: '' @ network,
        ''purpose: derive this nido account'' @ [CHR 0x27] @ ''s recovery secret'',
        ''warning: only sign this inside the official nido enrollment or recovery flow'']"

definition hkdfInfo :: "string \<Rightarrow> bytes \<Rightarrow> bytes" where
  "hkdfInfo methodTag account32 = utf8 (''nido-recovery-v1:'' @ methodTag) @ [0] @ account32"

definition hkdfSecret :: "kdf \<Rightarrow> bytes \<Rightarrow> string \<Rightarrow> bytes \<Rightarrow> string \<Rightarrow> int result" where
  "hkdfSecret hkdf ikm methodTag account32 network =
     reduce384 (hkdf ikm (utf8 network) (hkdfInfo methodTag account32) 48)"

definition deriveSecretM1 ::
  "kdf \<Rightarrow> (string \<Rightarrow> string \<Rightarrow> bytes result) \<Rightarrow> (string \<Rightarrow> bytes result) \<Rightarrow>
   string \<Rightarrow> string \<Rightarrow> string \<Rightarrow> string \<Rightarrow> int result" where
  "deriveSecretM1 hkdf mnemonicToSeed decodeContract mnemonic passphrase account network =
     bindR (mnemonicToSeed mnemonic passphrase) (\<lambda>seed64.
     bindR (decodeContract account) (\<lambda>account32.
       hkdfSecret hkdf seed64 ''m1'' account32 network))"

definition deriveSecretM2 ::
  "kdf \<Rightarrow> (string \<Rightarrow> bytes result) \<Rightarrow> bytes \<Rightarrow> string \<Rightarrow> string \<Rightarrow> int result" where
  "deriveSecretM2 hkdf decodeContract sig64 account network =
     bindR (decodeContract account) (\<lambda>account32. hkdfSecret hkdf sig64 ''m2'' account32 network)"

section \<open>Facts\<close>

lemma p2_arity_15 [simp]: "length xs = 15 \<Longrightarrow> p2 pos xs = Inr (pos (map reduce xs))"
  by (simp add: p2_def SUPPORTED_ARITIES_def del: reduce_mod)

lemma map_reduce_canonical: "list_all canonical xs \<Longrightarrow> map reduce xs = xs"
  by (induction xs) simp_all

lemma canonical_0 [simp]: "canonical 0"
  by (simp add: canonical_def)

lemma u64_canonical: "u256FromU64 x = Inr y \<Longrightarrow> canonical y"
  by (auto simp: u256FromU64_Inr canonical_def FIELD_ORDER_val)

lemma DOM_canonical: "canonical DOM_LEAF" "canonical DOM_BIND" "canonical DOM_NULL" "canonical DOM_AUTH"
  by (simp_all add: canonical_def FIELD_ORDER_val DOM_LEAF_def DOM_BIND_def DOM_NULL_def DOM_AUTH_def)

text \<open>A missing public key and 65 zero bytes have the same fields; otherwise the fields determine the key.\<close>

definition pubkeyBytes :: "bytes option \<Rightarrow> bytes" where
  "pubkeyBytes pk = orElse pk (replicate 65 0)"

lemma pubkeyFields_None: "pubkeyFields None = pubkeyFields (Some (replicate 65 0))"
  by code_simp

lemma pubkeyFields_orElse: "pubkeyFields pk = pubkeyFields (Some (pubkeyBytes pk))"
  by (cases pk) (simp_all add: pubkeyBytes_def pubkeyFields_None)

lemma pubkeyFields_Some_inj:
  assumes "pubkeyFields (Some a) = Inr f" "pubkeyFields (Some b) = Inr f"
  shows "a = b"
proof -
  have len: "length a = 65" "length b = 65"
    using assms by (auto simp: pubkeyFields_def split: if_splits)
  from assms have x: "split16 (subarray 1 33 a) = split16 (subarray 1 33 b)"
    and y: "split16 (subarray 33 65 a) = split16 (subarray 33 65 b)"
    and p: "uint (a ! 0) = uint (b ! 0)"
    by (auto simp: pubkeyFields_def result_simps u256FromU64_Inr split: if_splits)
  have "\<exists>h. split16 (subarray 1 33 a) = Inr h" "\<exists>h. split16 (subarray 33 65 a) = Inr h"
    using assms by (auto simp: pubkeyFields_def result_simps split: if_splits)
  then have xy: "subarray 1 33 a = subarray 1 33 b" "subarray 33 65 a = subarray 33 65 b"
    using x y split16_inj by metis+
  have parts: "c = c ! 0 # subarray 1 33 c @ subarray 33 65 c" if len: "length c = 65" for c :: bytes
  proof -
    from len obtain d ds where "c = d # ds" by (cases c) auto
    with len show ?thesis by (simp add: subarray_def take_add [symmetric] append_take_drop_id flip: drop_drop)
  qed
  have "a ! 0 = b ! 0" using p by (simp only: word_uint_eq_iff)
  with xy show ?thesis using parts [OF len(1)] parts [OF len(2)] by metis
qed

lemma pubkeyFields_inj:
  "pubkeyFields p = Inr f \<Longrightarrow> pubkeyFields q = Inr f \<Longrightarrow> pubkeyBytes p = pubkeyBytes q"
  using pubkeyFields_Some_inj by (metis pubkeyFields_orElse)

lemma pubkeyFields_canonical:
  assumes "pubkeyFields p = Inr f"
  shows "length f = 5 \<and> list_all canonical f"
  using assms
  by (auto simp: pubkeyFields_def result_simps split: option.splits if_splits
      dest: split16_canonical u64_canonical)

lemma authInputs_canonical:
  assumes "authInputs sha256 p = Inr v"
  shows "length v = 15 \<and> list_all canonical v"
  using assms
  by (auto simp: authInputs_def result_simps DOM_canonical
      dest: split16_canonical u64_canonical pubkeyFields_canonical)

lemma computeAuthHash_eq:
  "computeAuthHash pos sha256 p = Inr h \<longleftrightarrow> (\<exists>v. authInputs sha256 p = Inr v \<and> h = pos v)"
  using authInputs_canonical [of sha256 p]
  by (auto simp: computeAuthHash_def result_simps map_reduce_canonical simp del: reduce_mod)

lemma authInputs_pubkey:
  assumes "authInputs sha256 p = Inr v"
  shows "pubkeyFields (newPubkey65 p) = Inr (take 5 (drop 8 v))"
proof -
  from assms obtain f where f: "pubkeyFields (newPubkey65 p) = Inr f"
    by (auto simp: authInputs_def result_simps)
  with assms pubkeyFields_canonical [OF f] show ?thesis
    by (auto simp: authInputs_def result_simps)
qed

lemma authInputs_inj:
  assumes "authInputs sha256 p = Inr v" "authInputs sha256 q = Inr v"
  shows "action p = action q \<and> accountId32 p = accountId32 q \<and>
    sha256 (utf8 (networkPassphrase p)) = sha256 (utf8 (networkPassphrase q)) \<and>
    controllerId32 p = controllerId32 q \<and>
    pubkeyBytes (newPubkey65 p) = pubkeyBytes (newPubkey65 q) \<and>
    nonce p = nonce q \<and> timelockSecs p = timelockSecs q"
proof -
  obtain f where f: "pubkeyFields (newPubkey65 p) = Inr f" "pubkeyFields (newPubkey65 q) = Inr f"
    using assms authInputs_pubkey by metis
  have "pubkeyBytes (newPubkey65 p) = pubkeyBytes (newPubkey65 q)"
    using f by (rule pubkeyFields_inj)
  with assms f show ?thesis
    by (auto simp: authInputs_def result_simps u256FromU64_Inr dest: split16_inj)
qed

lemma commitment_of_canonical:
  assumes "canonical_hash pos"
  shows "\<exists>c inner. commitmentForCreation pos s = Inr c \<and> wrapLeafInner pos s = Inr inner \<and>
    bytesToFieldCanonical c = Inr inner \<and> length c = 32"
proof -
  have "canonical (pos [DOM_LEAF mod FIELD_ORDER, s mod FIELD_ORDER])"
    using assms by (simp add: canonical_hash_def)
  then obtain c where c: "fieldToBytes32 (pos [DOM_LEAF mod FIELD_ORDER, s mod FIELD_ORDER]) = Inr c"
    using fieldToBytes32_total by blast
  then show ?thesis
    using field.dec_enc [OF c]
    by (auto simp: commitmentForCreation_def wrapLeafInner_def p2_arity_2 fieldToBytes32_Inr
        simp del: p2_hash2)
qed

lemma hkdfSecret_total: "kdf_length hkdf \<Longrightarrow> \<exists>s. hkdfSecret hkdf ikm t a n = Inr s"
  by (simp add: hkdfSecret_def reduce384_def kdf_length_def)

lemma hkdfSecret_canonical: "hkdfSecret hkdf ikm t a n = Inr s \<Longrightarrow> canonical s"
  unfolding hkdfSecret_def by (rule reduce384_canonical)

lemma hkdfInfo_inj:
  assumes "t \<in> {''m1'', ''m2''}" "u \<in> {''m1'', ''m2''}"
  shows "hkdfInfo t a = hkdfInfo u b \<longleftrightarrow> t = u \<and> a = b"
  using assms by (auto simp: hkdfInfo_def utf8_def code_def)

lemma newline_split:
  "CHR ''\<newline>'' \<notin> set a \<Longrightarrow> CHR ''\<newline>'' \<notin> set b \<Longrightarrow>
   a @ CHR ''\<newline>'' # s = b @ CHR ''\<newline>'' # t \<Longrightarrow> a = b \<and> s = t"
  using split_on_append [of "CHR ''\<newline>''" a s] split_on_append [of "CHR ''\<newline>''" b t]
  by (metis append_same_eq list.inject same_append_eq)

definition m2_tail :: string where
  "m2_tail = ''\<newline>purpose: derive this nido account'' @ CHR 0x27 # ''s recovery secret\<newline>'' @
     ''warning: only sign this inside the official nido enrollment or recovery flow''"

lemma m2Message_eq:
  "m2Message account network =
     ''nido-recovery-v1\<newline>account: '' @ account @ CHR ''\<newline>'' # (''network: '' @ network @ m2_tail)"
  by (simp add: m2Message_def m2_tail_def)

lemma m2Message_inj:
  assumes "CHR ''\<newline>'' \<notin> set a" "CHR ''\<newline>'' \<notin> set b" "m2Message a n = m2Message b k"
  shows "a = b \<and> n = k"
proof -
  have "a @ CHR ''\<newline>'' # (''network: '' @ n @ m2_tail) = b @ CHR ''\<newline>'' # (''network: '' @ k @ m2_tail)"
    using assms(3) unfolding m2Message_eq by (simp only: same_append_eq)
  from newline_split [OF assms(1,2) this] show ?thesis
    by (simp only: same_append_eq append_same_eq)
qed

section \<open>Properties\<close>

text \<open>
  Two recovery authorisations with the same \<open>auth_hash\<close> agree on the action, the account,
  the digest of the network, the controller, the nonce, the timelock and the new key (where
  no key counts as 65 zero bytes), or their two input vectors are a collision of the hash.
\<close>

theorem auth_hash_binds:
  assumes "computeAuthHash pos sha256 p = Inr h" "computeAuthHash pos sha256 q = Inr h"
    and "authInputs sha256 p = Inr v" "authInputs sha256 q = Inr w"
  shows "(action p = action q \<and> accountId32 p = accountId32 q \<and>
      sha256 (utf8 (networkPassphrase p)) = sha256 (utf8 (networkPassphrase q)) \<and>
      controllerId32 p = controllerId32 q \<and>
      pubkeyBytes (newPubkey65 p) = pubkeyBytes (newPubkey65 q) \<and>
      nonce p = nonce q \<and> timelockSecs p = timelockSecs q) \<or>
    (v \<noteq> w \<and> pos v = pos w)"
  using assms authInputs_inj [of sha256 p v q] by (auto simp: computeAuthHash_eq)

definition sample_params :: auth_hash_params where
  "sample_params = \<lparr>action = 2, accountId32 = replicate 32 1, networkPassphrase = ''net'',
     controllerId32 = replicate 32 2, newPubkey65 = None, nonce = 7, timelockSecs = 60\<rparr>"

theorem auth_hash_binds_witness:
  "\<exists>v w. authInputs (\<lambda>b. replicate 32 3) sample_params = Inr v \<and>
    authInputs (\<lambda>b. replicate 32 3) (sample_params\<lparr>newPubkey65 := Some (replicate 65 0)\<rparr>) = Inr w \<and>
    (pubkeyBytes (newPubkey65 sample_params) = replicate 65 0 \<or> v \<noteq> w \<and> sum_list v = sum_list w)"
proof -
  let ?q = "sample_params\<lparr>newPubkey65 := Some (replicate 65 0)\<rparr>"
  have v: "authInputs (\<lambda>b. replicate 32 3) sample_params =
      authInputs (\<lambda>b. replicate 32 3) ?q"
    "\<not> isl (authInputs (\<lambda>b. replicate 32 3) ?q)"
    by code_simp+
  then have "\<exists>v. authInputs (\<lambda>b. replicate 32 3) ?q = Inr v"
    by (cases "authInputs (\<lambda>b. replicate 32 3) ?q") simp_all
  with v obtain v where vw: "authInputs (\<lambda>b. replicate 32 3) sample_params = Inr v"
    "authInputs (\<lambda>b. replicate 32 3) ?q = Inr v" by auto
  have "computeAuthHash sum_list (\<lambda>b. replicate 32 3) sample_params = Inr (sum_list v)"
    "computeAuthHash sum_list (\<lambda>b. replicate 32 3) ?q = Inr (sum_list v)"
    using vw by (simp_all add: computeAuthHash_eq)
  from auth_hash_binds [OF this vw] vw show ?thesis
    by (auto simp: pubkeyBytes_def)
qed

text \<open>
  A derived recovery secret can always be enrolled: with an address that decodes, the
  derivation returns a canonical field element, its commitment is 32 bytes, decodes to the
  inner leaf, and the pool's wrapped leaf of it exists.
\<close>

theorem derived_secret_enrolls:
  assumes "kdf_length hkdf" "canonical_hash pos" "decodeContract account = Inr a" "length a = 32"
  shows "\<exists>s c inner stored. deriveSecretM2 hkdf decodeContract sig account network = Inr s \<and>
    canonical s \<and> commitmentForCreation pos s = Inr c \<and> length c = 32 \<and>
    bytesToFieldCanonical c = Inr inner \<and> wrapLeafInner pos s = Inr inner \<and>
    wrapLeafStored pos a inner = Inr stored"
proof -
  obtain s where s: "deriveSecretM2 hkdf decodeContract sig account network = Inr s" "canonical s"
    using hkdfSecret_total [OF assms(1)] hkdfSecret_canonical assms(3)
    unfolding deriveSecretM2_def by (metis bindR_simps(2))
  obtain c inner where "commitmentForCreation pos s = Inr c" "wrapLeafInner pos s = Inr inner"
    "bytesToFieldCanonical c = Inr inner" "length c = 32"
    using commitment_of_canonical [OF assms(2)] by blast
  moreover have "\<exists>stored. wrapLeafStored pos a inner = Inr stored"
    using assms(4) by (simp add: wrapLeafStored_def split16_def)
  ultimately show ?thesis using s by blast
qed

theorem derived_secret_enrolls_witness:
  "\<exists>s c inner stored.
    deriveSecretM2 (\<lambda>ikm salt info n. replicate n 5) (\<lambda>a. Inr (replicate 32 1)) [1, 2] ''CA'' ''net'' = Inr s \<and>
    canonical s \<and> commitmentForCreation (\<lambda>xs. 9) s = Inr c \<and> length c = 32 \<and>
    bytesToFieldCanonical c = Inr inner \<and> wrapLeafInner (\<lambda>xs. 9) s = Inr inner \<and>
    wrapLeafStored (\<lambda>xs. 9) (replicate 32 1) inner = Inr stored"
  by (rule derived_secret_enrolls)
     (simp_all add: kdf_length_def canonical_hash_def canonical_def FIELD_ORDER_val)

text \<open>
  The key derivation separates its uses: the HKDF \<open>info\<close> tells the method and the
  account apart, and the message a wallet signs tells the account and the network apart
  whenever addresses contain no newline.
\<close>

theorem derivation_inputs_separate:
  assumes "t \<in> {''m1'', ''m2''}" "u \<in> {''m1'', ''m2''}"
    and "CHR ''\<newline>'' \<notin> set acct" "CHR ''\<newline>'' \<notin> set acct'"
  shows "(hkdfInfo t a = hkdfInfo u b \<longleftrightarrow> t = u \<and> a = b) \<and>
    (m2Message acct net = m2Message acct' net' \<longleftrightarrow> acct = acct' \<and> net = net')"
  using hkdfInfo_inj [OF assms(1,2)] m2Message_inj [OF assms(3,4)] by auto

theorem derivation_inputs_separate_witness:
  "(hkdfInfo ''m1'' [1] = hkdfInfo ''m2'' [1] \<longleftrightarrow> ''m1'' = ''m2'' \<and> [1 :: byte] = [1]) \<and>
   (m2Message ''CA'' ''x'' = m2Message ''CB'' ''x'' \<longleftrightarrow> ''CA'' = ''CB'' \<and> ''x'' = ''x'')"
  by (rule derivation_inputs_separate) simp_all

text \<open>
  The factory's dummy commitment exists for every 32-byte salt and is the canonical
  encoding of the digest of the tagged salt modulo the field order.
\<close>

theorem dummy_commitment_exact:
  assumes "length salt = 32"
  shows "\<exists>c. dummyCommitment sha256 salt = Inr c \<and> length c = 32 \<and>
    bytesToFieldCanonical c =
      Inr (bytesToBigIntBE (sha256 (utf8 ''nido-zk-dummy'' @ salt)) mod FIELD_ORDER)"
proof -
  let ?x = "bytesToBigIntBE (sha256 (utf8 ''nido-zk-dummy'' @ salt))"
  have x: "jsrem ?x FIELD_ORDER = ?x mod FIELD_ORDER"
    using bytesToBigIntBE_bounds by (simp add: jsrem_nonneg)
  obtain c where c: "fieldToBytes32 (?x mod FIELD_ORDER) = Inr c"
    using fieldToBytes32_total [OF canonical_mod] by blast
  then show ?thesis
    using assms field.dec_enc [OF c] by (auto simp: dummyCommitment_def x fieldToBytes32_Inr)
qed

theorem dummy_commitment_exact_witness:
  "\<exists>c. dummyCommitment (\<lambda>b. replicate 32 255) (replicate 32 7) = Inr c \<and> length c = 32 \<and>
    bytesToFieldCanonical c = Inr (bytesToBigIntBE (replicate 32 255) mod FIELD_ORDER)"
  using dummy_commitment_exact [of "replicate 32 7" "\<lambda>b. replicate 32 255"] by simp

end
