(* ===== verification/Encoding.thy ===== *)
theory Encoding
  imports JsString Field
begin

text \<open>
  Text encodings of byte strings (\<open>passkey-sdk/src/encoding.ts\<close>) and the conversion of a
  WebAuthn signature to the compact low-S form (\<open>signature.ts\<close>). \<open>btoa\<close> and \<open>atob\<close> are
  modelled on byte strings: \<open>atob\<close> is the forgiving decoder of the web platform, which
  drops ASCII white space, accepts missing padding and ignores the unused low bits of the
  last character.
\<close>

section \<open>Hexadecimal\<close>

definition byteHex :: "byte \<Rightarrow> string" where
  "byteHex b = padStart 2 CHR ''0'' (toStringBase 16 (unat b))"

definition buf2hex :: "bytes \<Rightarrow> string" where
  "buf2hex buffer = concat (map byteHex buffer)"

text \<open>
  \<open>parseInt(s, 16)\<close>: leading white space, a sign and a prefix \<open>0x\<close> are skipped, then the
  longest run of hexadecimal digits is read; \<open>None\<close> is \<open>NaN\<close>.
\<close>

definition parseInt16 :: "string \<Rightarrow> int option" where
  "parseInt16 s =
     (let t = dropWhile is_space s;
          neg = startsWith t ''-'';
          u = (if neg \<or> startsWith t ''+'' then tl t else t);
          v = (if startsWith (toLowerCase u) ''0x'' then drop 2 u else u);
          ds = takeWhile is_hex v
      in if ds = [] then None
         else Some (if neg then - int (ofStringBase 16 ds) else int (ofStringBase 16 ds)))"

text \<open>Storing a number in a \<open>Uint8Array\<close>: modulo 256, \<open>NaN\<close> is 0.\<close>

definition toByte :: "int option \<Rightarrow> byte" where
  "toByte n = (case n of None \<Rightarrow> 0 | Some i \<Rightarrow> word_of_int i)"

text \<open>
  \<open>new Uint8Array(hex.length / 2)\<close> rounds down; for an odd length the last character writes
  beyond the array, which is ignored.
\<close>

fun hex2buf :: "string \<Rightarrow> bytes" where
  "hex2buf (c # d # cs) = toByte (parseInt16 [c, d]) # hex2buf cs"
| "hex2buf _ = []"

section \<open>Base64url\<close>

definition b64Char :: "nat \<Rightarrow> char" where
  "b64Char v = (if v < 26 then char_of (65 + v) else if v < 52 then char_of (71 + v)
     else if v < 62 then char_of (v - 4) else if v = 62 then CHR ''+'' else CHR ''/'')"

definition b64Val :: "char \<Rightarrow> nat option" where
  "b64Val c = (if is_upper c then Some (code c - 65) else if is_lower c then Some (code c - 71)
     else if is_digit c then Some (code c + 4) else if c = CHR ''+'' then Some 62
     else if c = CHR ''/'' then Some 63 else None)"

fun btoa :: "bytes \<Rightarrow> string" where
  "btoa [] = []"
| "btoa [a] = [b64Char (unat a div 4), b64Char (unat a mod 4 * 16), CHR ''='', CHR ''='']"
| "btoa [a, b] =
     [b64Char (unat a div 4), b64Char (unat a mod 4 * 16 + unat b div 16),
      b64Char (unat b mod 16 * 4), CHR ''='']"
| "btoa (a # b # c # bs) =
     [b64Char (unat a div 4), b64Char (unat a mod 4 * 16 + unat b div 16),
      b64Char (unat b mod 16 * 4 + unat c div 64), b64Char (unat c mod 64)] @ btoa bs"

fun decode64 :: "nat list \<Rightarrow> bytes" where
  "decode64 (v # w # x # y # vs) =
     [of_nat (v * 4 + w div 16), of_nat (w mod 16 * 16 + x div 4), of_nat (x mod 4 * 64 + y)] @ decode64 vs"
| "decode64 [v, w, x] = [of_nat (v * 4 + w div 16), of_nat (w mod 16 * 16 + x div 4)]"
| "decode64 [v, w] = [of_nat (v * 4 + w div 16)]"
| "decode64 _ = []"

definition unpad :: "string \<Rightarrow> string" where
  "unpad s =
     (if length s mod 4 = 0 then
        (if endsWith s ''=='' then take (length s - 2) s
         else if endsWith s ''='' then take (length s - 1) s else s)
      else s)"

definition atob :: "string \<Rightarrow> bytes result" where
  "atob s =
     (let t = unpad (filter (\<lambda>c. code c \<notin> {9, 10, 12, 13, 32}) s)
      in if length t mod 4 = 1 \<or> list_ex (\<lambda>c. b64Val c = None) t
         then Inl (Error ''InvalidCharacterError'')
         else Inr (decode64 (map (\<lambda>c. the (b64Val c)) t)))"

definition toUrlChar :: "char \<Rightarrow> char" where
  "toUrlChar c = (if c = CHR ''+'' then CHR ''-'' else if c = CHR ''/'' then CHR ''_'' else c)"

definition fromUrlChar :: "char \<Rightarrow> char" where
  "fromUrlChar c = (if c = CHR ''-'' then CHR ''+'' else if c = CHR ''_'' then CHR ''/'' else c)"

definition buf2base64url :: "bytes \<Rightarrow> string" where
  "buf2base64url buffer = filter (\<lambda>c. c \<noteq> CHR ''='') (map toUrlChar (btoa buffer))"

definition padTo4 :: "string \<Rightarrow> string" where
  "padTo4 s = s @ replicate ((4 - length s mod 4) mod 4) CHR ''=''"

definition base64url2buf :: "string \<Rightarrow> bytes result" where
  "base64url2buf str = atob (padTo4 (map fromUrlChar str))"

section \<open>Compact signatures\<close>

definition P256_N :: int where
  "P256_N = 0xffffffff00000000ffffffffffffffffbce6faada7179e84f3b9cac2fc632551"

definition P256_N_HALF :: int where
  "P256_N_HALF = P256_N div 2"

definition padOrTrimTo32 :: "bytes \<Rightarrow> bytes" where
  "padOrTrimTo32 raw =
     (if length raw \<le> 32 then replicate (32 - length raw) 0 @ raw
      else drop (length raw - 32) raw)"

text \<open>It is called on 32 bytes only, so the numeral is never empty.\<close>

definition bufToBigInt :: "bytes \<Rightarrow> int" where
  "bufToBigInt buf = int (ofStringBase 16 (buf2hex buf))"

definition bigIntToBuf32 :: "int \<Rightarrow> bytes" where
  "bigIntToBuf32 n =
     (let hex = padStart 64 CHR ''0''
                  (if n < 0 then CHR ''-'' # toStringBase 16 (nat (- n)) else toStringBase 16 (nat n))
      in map (\<lambda>i. toByte (parseInt16 (subarray (2 * i) (2 * i + 2) hex))) [0..<32])"

definition derToCompact :: "bytes \<Rightarrow> bytes result" where
  "derToCompact der =
     (if arr der 0 \<noteq> Some 0x30 then Inl (Error ''Invalid DER signature'')
      else if arr der 2 \<noteq> Some 0x02 then Inl (Error ''Expected INTEGER tag for r'')
      else (case arr der 3 of
          None \<Rightarrow> Inl (Error ''Expected INTEGER tag for s'')
        | Some rLen \<Rightarrow>
            let off = 4 + unat rLen; rRaw = subarray 4 off der
            in if arr der (int off) \<noteq> Some 0x02 then Inl (Error ''Expected INTEGER tag for s'')
               else let sRaw = (case arr der (int off + 1) of
                                  None \<Rightarrow> []
                                | Some sLen \<Rightarrow> subarray (off + 2) (off + 2 + unat sLen) der);
                        r = padOrTrimTo32 rRaw;
                        s = padOrTrimTo32 sRaw;
                        sBigInt = bufToBigInt s
                    in if sBigInt > P256_N_HALF then Inr (r @ bigIntToBuf32 (P256_N - sBigInt))
                       else Inr (r @ s)))"

section \<open>Hexadecimal round trip\<close>

lemma is_hex_not_special:
  assumes "is_hex c"
  shows "\<not> is_space c" "c \<noteq> CHR ''-''" "c \<noteq> CHR ''+''" "lower c \<noteq> CHR ''x''"
proof -
  show "lower c \<noteq> CHR ''x''"
  proof
    assume "lower c = CHR ''x''"
    then have "code (lower c) = 120" by simp
    with assms show False by (auto simp: code_lower is_hex_def is_digit_def is_upper_def split: if_splits)
  qed
qed (use assms in \<open>auto simp: is_hex_def is_digit_def is_space_def\<close>)

lemma parseInt16_pair:
  assumes "is_hex c" "is_hex d"
  shows "parseInt16 [c, d] = Some (int (digitVal c * 16 + digitVal d))"
  using assms is_hex_not_special [OF assms(1)] is_hex_not_special [OF assms(2)]
  by (auto simp: parseInt16_def startsWith_def toLowerCase_def ofStringBase_def Let_def)

lemma unat_byte: "unat (b :: byte) < 256"
  using unsigned_less [of b] by simp

lemma byteHex_digits: "byteHex b = [digitChar (unat b div 16), digitChar (unat b mod 16)]"
proof -
  have "unat b div 16 < 16" using unat_byte [of b] by simp
  then show ?thesis
    by (subst byteHex_def, subst toStringBase.simps, subst toStringBase.simps)
       (auto simp: padStart_def digitChar_def eq_char_of_iff)
qed

lemma hex2buf_byteHex: "hex2buf (byteHex b @ s) = b # hex2buf s"
proof -
  have "unat b div 16 < 16" "unat b mod 16 < 16" using unat_byte [of b] by simp_all
  then have "hex2buf (byteHex b @ s) = word_of_int (int (unat b div 16 * 16 + unat b mod 16)) # hex2buf s"
    by (simp add: byteHex_digits parseInt16_pair toByte_def del: of_nat_add of_nat_mult div_mult_mod_eq)
  then show ?thesis by simp
qed

lemma hex2buf_buf2hex: "hex2buf (buf2hex b) = b"
  by (induction b) (simp_all add: buf2hex_def hex2buf_byteHex)

interpretation hexadecimal:
  codec "\<lambda>b. Inr (buf2hex b) :: unit + string" "\<lambda>s. Inr (hex2buf s) :: unit + bytes"
  by unfold_locales (auto simp: hex2buf_buf2hex)

lemma buf2hex_inject: "buf2hex a = buf2hex b \<longleftrightarrow> a = b"
  using hexadecimal.enc_injective by auto

lemma buf2hex_Cons [simp]: "buf2hex (b # bs) = byteHex b @ buf2hex bs"
  by (simp add: buf2hex_def)

lemma length_buf2hex: "length (buf2hex b) = 2 * length b"
  by (induction b) (simp_all add: buf2hex_def byteHex_digits)

lemma buf2hex_hex: "list_all is_hex (buf2hex b)"
proof (induction b)
  case Nil
  then show ?case by (simp add: buf2hex_def)
next
  case (Cons a b)
  then show ?case using unat_byte [of a] by (simp add: byteHex_digits)
qed

lemma ofStringBase_buf2hex: "int (ofStringBase 16 (buf2hex b)) = bytesToBigIntBE b"
proof (induction b rule: rev_induct)
  case Nil
  then show ?case by (simp add: buf2hex_def)
next
  case (snoc a b)
  have "unat a div 16 < 16" using unat_byte [of a] by simp
  then have "ofStringBase 16 (byteHex a) = unat a"
    by (simp add: byteHex_digits ofStringBase_def)
  moreover have "buf2hex (b @ [a]) = buf2hex b @ byteHex a" "length (byteHex a) = 2"
    by (simp_all add: buf2hex_def byteHex_digits)
  ultimately show ?case
    using snoc by (simp add: ofStringBase_append)
qed

section \<open>Base64url round trip\<close>

lemma b64Val_b64Char [simp]: "v < 64 \<Longrightarrow> b64Val (b64Char v) = Some v"
  by (auto simp: b64Val_def b64Char_def is_upper_def is_lower_def is_digit_def eq_char_of_iff)

lemma b64Char_not_pad: "v < 64 \<Longrightarrow> b64Char v \<noteq> CHR ''=''"
proof
  assume "v < 64" "b64Char v = CHR ''=''"
  then have "b64Val CHR ''='' = Some v" using b64Val_b64Char by metis
  then show False by (simp add: b64Val_def is_upper_def is_lower_def is_digit_def code_def)
qed

text \<open>The characters \<open>btoa\<close> writes before the padding, as values.\<close>

fun values64 :: "bytes \<Rightarrow> nat list" where
  "values64 [] = []"
| "values64 [a] = [unat a div 4, unat a mod 4 * 16]"
| "values64 [a, b] = [unat a div 4, unat a mod 4 * 16 + unat b div 16, unat b mod 16 * 4]"
| "values64 (a # b # c # bs) =
     [unat a div 4, unat a mod 4 * 16 + unat b div 16, unat b mod 16 * 4 + unat c div 64, unat c mod 64] @
     values64 bs"

lemma byte_parts:
  fixes a b c :: byte
  shows "unat a div 4 < 64" "unat a mod 4 * 16 < 64" "unat a mod 4 * 16 + unat b div 16 < 64"
    "unat b mod 16 * 4 < 64" "unat b mod 16 * 4 + unat c div 64 < 64"
proof -
  have "unat a < 256" "unat b div 16 < 16" "unat c div 64 < 4" "unat a mod 4 < 4" "unat b mod 16 < 16"
    using unat_byte [of a] unat_byte [of b] unat_byte [of c] by simp_all
  then show "unat a div 4 < 64" "unat a mod 4 * 16 < 64" "unat a mod 4 * 16 + unat b div 16 < 64"
    "unat b mod 16 * 4 < 64" "unat b mod 16 * 4 + unat c div 64 < 64"
    by linarith+
qed

lemma byte_low: "unat (b :: byte) div 16 < 16" "unat b div 64 < 4"
  using unat_byte [of b] by simp_all

lemma values64_bound: "v \<in> set (values64 bs) \<Longrightarrow> v < 64"
proof (induction bs rule: values64.induct)
  case (2 a)
  then show ?case using byte_parts(1,2) [of a] by (auto simp del: mult_less_cancel2)
next
  case (3 a b)
  then show ?case using byte_parts(1) [of a] byte_parts(3) [of a b] byte_parts(4) [of b] by auto
next
  case (4 a b c bs)
  then show ?case using byte_parts(1) [of a] byte_parts(3) [of a b] byte_parts(5) [of b c] unat_byte [of c] by auto
qed simp

lemma byte_of_nat: "n = unat a \<Longrightarrow> (of_nat n :: byte) = a"
  by simp

lemma decode64_values64: "decode64 (values64 bs) = bs"
proof (induction bs rule: values64.induct)
  case (2 a)
  then show ?case by (simp add: byte_of_nat del: of_nat_add of_nat_mult)
next
  case (3 a b)
  then show ?case using byte_low [of b] by (simp add: byte_of_nat del: of_nat_add of_nat_mult)
next
  case (4 a b c bs)
  then show ?case
    using byte_low [of b] byte_low [of c] by (simp add: byte_of_nat del: of_nat_add of_nat_mult)
qed simp

lemma values64_length: "length (values64 bs) mod 4 \<noteq> 1"
  by (induction bs rule: values64.induct) auto

lemma btoa_eq:
  "btoa bs = padTo4 (map b64Char (values64 bs))"
  by (induction bs rule: values64.induct) (simp_all add: padTo4_def numeral_2_eq_2)

lemma fromUrl_toUrl: "v < 64 \<Longrightarrow> fromUrlChar (toUrlChar (b64Char v)) = b64Char v"
proof -
  assume v: "v < 64"
  have "b64Val CHR ''-'' = None" "b64Val CHR ''_'' = None"
    by (simp_all add: b64Val_def is_upper_def is_lower_def is_digit_def)
  then have "b64Char v \<noteq> CHR ''-''" "b64Char v \<noteq> CHR ''_''"
    using b64Val_b64Char [OF v] by force+
  then show ?thesis by (simp add: fromUrlChar_def toUrlChar_def)
qed

lemma b64Char_code: "v < 64 \<Longrightarrow> code (b64Char v) \<notin> {9, 10, 12, 13, 32}"
  by (auto simp: b64Char_def)

lemma buf2base64url_eq:
  "buf2base64url bs = map (toUrlChar \<circ> b64Char) (values64 bs)"
proof -
  have "toUrlChar (b64Char v) \<noteq> CHR ''=''" if "v \<in> set (values64 bs)" for v
    using b64Char_not_pad [OF values64_bound [OF that]] by (auto simp: toUrlChar_def)
  then show ?thesis
    by (simp add: buf2base64url_def btoa_eq padTo4_def filter_map o_def toUrlChar_def filter_id_conv)
qed

lemma unpad_padTo4:
  assumes "CHR ''='' \<notin> set s" "length s mod 4 \<noteq> 1"
  shows "unpad (padTo4 s) = s"
proof -
  have no: "\<not> endsWith s ''=''" "\<not> endsWith s ''==''"
    using assms(1) by (auto simp: endsWith_iff)
  consider "length s mod 4 = 0" | "length s mod 4 = 2" | "length s mod 4 = 3"
    using assms(2) mod_less_divisor [of 4 "length s"] by linarith
  then show ?thesis
  proof cases
    case 1
    with no show ?thesis by (simp add: unpad_def padTo4_def)
  next
    case 2
    then have "padTo4 s = s @ ''==''" by (simp add: padTo4_def numeral_2_eq_2)
    moreover have "length (s @ ''=='') mod 4 = 0" using 2 by (simp add: mod_add_eq [symmetric] mod_Suc)
    moreover have "endsWith (s @ ''=='') ''==''" unfolding endsWith_iff by blast
    ultimately show ?thesis by (simp add: unpad_def)
  next
    case 3
    then have "padTo4 s = s @ ''=''" by (simp add: padTo4_def)
    moreover have "length (s @ ''='') mod 4 = 0" using 3 by (simp add: mod_Suc)
    moreover have "endsWith (s @ ''='') ''=''" unfolding endsWith_iff by blast
    moreover have "\<not> endsWith (s @ ''='') ''==''"
      using assms(1) by (auto simp: endsWith_iff append_eq_append_conv2 Cons_eq_append_conv)
    ultimately show ?thesis by (simp add: unpad_def)
  qed
qed

lemma atob_pad:
  assumes "\<forall>v \<in> set vs. v < 64" "length vs mod 4 \<noteq> 1"
  shows "atob (padTo4 (map b64Char vs)) = Inr (decode64 vs)"
proof -
  have "filter (\<lambda>c. code c \<notin> {9, 10, 12, 13, 32}) (padTo4 (map b64Char vs)) = padTo4 (map b64Char vs)"
    using assms(1) b64Char_code by (auto simp: filter_id_conv padTo4_def)
  moreover have "unpad (padTo4 (map b64Char vs)) = map b64Char vs"
    using assms b64Char_not_pad by (intro unpad_padTo4) force+
  moreover have "map (\<lambda>v. the (b64Val (b64Char v))) vs = vs"
    using assms(1) by (simp add: map_idI)
  ultimately show ?thesis
    using assms by (simp add: atob_def list_ex_iff o_def Let_def)
qed

lemma base64url_round_trip: "base64url2buf (buf2base64url bs) = Inr bs"
proof -
  have "map fromUrlChar (buf2base64url bs) = map b64Char (values64 bs)"
    using values64_bound fromUrl_toUrl by (simp add: buf2base64url_eq)
  then show ?thesis
    using atob_pad [of "values64 bs"] values64_bound values64_length decode64_values64
    by (simp add: base64url2buf_def)
qed

interpretation base64url: codec "\<lambda>b. Inr (buf2base64url b) :: unit + string" base64url2buf
  by unfold_locales (auto simp: base64url_round_trip)

section \<open>Numbers and bytes\<close>

lemma bufToBigInt_value [simp]: "bufToBigInt b = bytesToBigIntBE b"
  by (simp add: bufToBigInt_def ofStringBase_buf2hex)

lemma padStart_step:
  assumes "1 \<le> m"
  shows "padStart (Suc m) CHR ''0'' (toStringBase 16 n) =
    padStart m CHR ''0'' (toStringBase 16 (n div 16)) @ [digitChar (n mod 16)]"
proof (cases "n < 16")
  case True
  then have "toStringBase 16 n = [digitChar n]" "toStringBase 16 (n div 16) = ''0''"
    by (subst toStringBase.simps, simp add: digitChar_def eq_char_of_iff)+
  with True assms show ?thesis
    by (cases m) (simp_all add: padStart_def replicate_append_same)
next
  case False
  then show ?thesis by (subst toStringBase.simps) (simp add: padStart_def)
qed

lemma unat_word_of_int_mod: "unat (word_of_int (int n mod 256) :: byte) = n mod 256"
proof -
  have "uint (word_of_int (int n mod 256) :: byte) = int n mod 256"
    by (simp add: uint_word_of_int)
  then have "nat (uint (word_of_int (int n mod 256) :: byte)) = n mod 256"
    by (simp only: nat_mod_distrib) simp
  then show ?thesis by (simp only: unat_eq_nat_uint)
qed

lemma hex_of_bytes:
  "padStart (2 * Suc k) CHR ''0'' (toStringBase 16 n) = buf2hex (toBytesBE (Suc k) (int n))"
  if "n < 256 ^ Suc k"
  using that
proof (induction k arbitrary: n)
  case 0
  then have "unat (word_of_int (int n mod 256) :: byte) = n"
    by (simp only: unat_word_of_int_mod) simp
  then show ?case by (simp add: byteHex_def buf2hex_def)
next
  case (Suc k)
  have w: "unat (word_of_int (int n mod 256) :: byte) = n mod 256"
    by (rule unat_word_of_int_mod)
  have "n div 256 < 256 ^ Suc k" using Suc.prems by (simp add: less_mult_imp_div_less mult.commute)
  note IH = Suc.IH [OF this]
  have "n div 16 mod 16 = n mod 256 div 16" "n div 16 div 16 = n div 256" "n mod 256 mod 16 = n mod 16"
    using mod_mult2_eq [of n 16 16] by (simp_all add: div_mult2_eq [symmetric] mod_mod_cancel)
  then have "padStart (2 * Suc (Suc k)) CHR ''0'' (toStringBase 16 n) =
    padStart (2 * Suc k) CHR ''0'' (toStringBase 16 (n div 256)) @
      [digitChar (n mod 256 div 16), digitChar (n mod 256 mod 16)]"
    using padStart_step [of "Suc (2 * Suc k)" n] padStart_step [of "2 * Suc k" "n div 16"] by simp
  then show ?case
    using IH by (simp add: byteHex_digits buf2hex_def w zdiv_int)
qed

lemma subarray_buf2hex:
  "i < length b \<Longrightarrow> subarray (2 * i) (2 * i + 2) (buf2hex b) = byteHex (b ! i)"
proof (induction b arbitrary: i)
  case (Cons a b)
  then show ?case by (cases i) (simp_all add: subarray_def byteHex_digits)
qed simp

lemma parse_byteHex: "toByte (parseInt16 (byteHex b)) = b"
  using hex2buf_byteHex [of b "[]"] by (simp add: byteHex_digits)

lemma bigIntToBuf32_correct:
  assumes "0 \<le> n" "n < 256 ^ 32"
  shows "bigIntToBuf32 n = toBytesBE 32 n"
proof -
  have "nat n < 256 ^ Suc 31" using assms by (simp add: nat_less_iff)
  from hex_of_bytes [OF this]
  have hex: "padStart 64 CHR ''0'' (toStringBase 16 (nat n)) = buf2hex (toBytesBE 32 n)"
    using assms(1) by (simp del: toBytesBE.simps)
  have "bigIntToBuf32 n = map (\<lambda>i. toBytesBE 32 n ! i) [0..<32]"
    unfolding bigIntToBuf32_def hex [symmetric] Let_def using assms(1)
    by (auto simp only: hex subarray_buf2hex parse_byteHex length_toBytesBE map_eq_conv atLeastLessThan_iff
        set_upt if_False linorder_not_less [symmetric])
  also have "\<dots> = toBytesBE 32 n"
    using map_nth [of "toBytesBE 32 n"] by (simp only: length_toBytesBE)
  finally show ?thesis .
qed

lemma bytesToBigIntBE_zeros [simp]: "bytesToBigIntBE (replicate n 0) = 0"
  by (induction n) (simp_all add: replicate_append_same [symmetric])

lemma padOrTrimTo32_correct:
  assumes "bytesToBigIntBE raw < 256 ^ 32"
  shows "padOrTrimTo32 raw = toBytesBE 32 (bytesToBigIntBE raw)"
proof -
  have "length (padOrTrimTo32 raw) = 32" by (simp add: padOrTrimTo32_def)
  moreover have "bytesToBigIntBE (padOrTrimTo32 raw) = bytesToBigIntBE raw"
  proof (cases "length raw \<le> 32")
    case True
    then show ?thesis by (simp add: padOrTrimTo32_def bytesToBigIntBE_append)
  next
    case False
    let ?k = "length raw - 32"
    have split: "bytesToBigIntBE raw = bytesToBigIntBE (take ?k raw) * 256 ^ 32 + bytesToBigIntBE (drop ?k raw)"
      using bytesToBigIntBE_append [of "take ?k raw" "drop ?k raw"] False by simp
    have "bytesToBigIntBE (take ?k raw) = 0"
    proof (rule ccontr)
      assume "bytesToBigIntBE (take ?k raw) \<noteq> 0"
      then have "1 \<le> bytesToBigIntBE (take ?k raw)" using bytesToBigIntBE_bounds [of "take ?k raw"] by linarith
      then have "256 ^ 32 \<le> bytesToBigIntBE (take ?k raw) * 256 ^ 32" by simp
      with split assms bytesToBigIntBE_bounds [of "drop ?k raw"] show False by linarith
    qed
    with False split show ?thesis by (simp add: padOrTrimTo32_def)
  qed
  ultimately show ?thesis using toBytesBE_of_value by metis
qed

section \<open>Properties\<close>

text \<open>
  Byte strings survive both text encodings: decoding the hexadecimal or the base64url text
  of a byte string returns it, for every length.
\<close>

theorem text_round_trips:
  "hex2buf (buf2hex b) = b \<and> base64url2buf (buf2base64url b) = Inr b \<and>
   list_all is_hex (buf2hex b) \<and> length (buf2hex b) = 2 * length b"
  by (simp add: hex2buf_buf2hex base64url_round_trip buf2hex_hex length_buf2hex)

text \<open>The scalar the network accepts in place of \<open>s\<close>.\<close>

definition lowS :: "int \<Rightarrow> int" where
  "lowS s = (if s > P256_N_HALF then P256_N - s else s)"

text \<open>
  A DER signature of \<open>(r, s)\<close>, its integers minimal or padded with zero bytes and followed
  by anything, becomes the 64 bytes of \<open>r\<close> and of the lower one of \<open>s\<close> and the order minus
  \<open>s\<close>.
\<close>

theorem der_to_compact_correct:
  assumes "length rb < 256" "length sb < 256"
    and "bytesToBigIntBE rb < 256 ^ 32" "bytesToBigIntBE sb < P256_N"
  shows "derToCompact ([0x30, tot, 0x02, of_nat (length rb)] @ rb @ [0x02, of_nat (length sb)] @ sb @ rest) =
      Inr (toBytesBE 32 (bytesToBigIntBE rb) @ toBytesBE 32 (lowS (bytesToBigIntBE sb))) \<and>
    lowS (bytesToBigIntBE sb) \<le> P256_N_HALF"
proof -
  let ?der = "[0x30, tot, 0x02, of_nat (length rb)] @ rb @ [0x02, of_nat (length sb)] @ sb @ rest"
  let ?off = "4 + length rb" and ?s = "bytesToBigIntBE sb"
  have len: "unat (of_nat (length rb) :: byte) = length rb" "unat (of_nat (length sb) :: byte) = length sb"
    using assms(1,2) by (simp_all add: unat_of_nat)
  have a: "arr ?der 0 = Some 0x30" "arr ?der 2 = Some 0x02" "arr ?der 3 = Some (of_nat (length rb))"
    by (simp_all add: arr_def)
  have o: "arr ?der (int ?off) = Some 0x02" "arr ?der (int ?off + 1) = Some (of_nat (length sb))"
    by (simp_all add: arr_def nat_add_distrib nth_append)
  have sub: "subarray 4 ?off ?der = rb" "subarray (?off + 2) (?off + 2 + length sb) ?der = sb"
    by (simp_all add: subarray_def numeral_eq_Suc)
  have N: "P256_N < 256 ^ 32" by (simp add: P256_N_def)
  have s: "0 \<le> ?s" "?s < 256 ^ 32" using bytesToBigIntBE_bounds [of sb] assms(4) N by simp_all
  have sv: "bytesToBigIntBE (padOrTrimTo32 sb) = ?s"
    using s by (simp add: padOrTrimTo32_correct toBytesBE_value)
  have "bigIntToBuf32 (P256_N - ?s) = toBytesBE 32 (P256_N - ?s)"
    using assms(4) s N by (intro bigIntToBuf32_correct) simp_all
  then have "derToCompact ?der = Inr (toBytesBE 32 (bytesToBigIntBE rb) @ toBytesBE 32 (lowS ?s))"
    unfolding derToCompact_def a o len sub Let_def option.case
    using padOrTrimTo32_correct [OF assms(3)] padOrTrimTo32_correct [OF s(2)] sv
    by (simp add: o len sub lowS_def del: append.simps toBytesBE.simps)
  moreover have "lowS ?s \<le> P256_N_HALF"
    using assms(4) by (auto simp: lowS_def P256_N_HALF_def)
  ultimately show ?thesis by blast
qed

theorem der_to_compact_correct_witness:
  "derToCompact ([0x30, 0x45, 0x02, of_nat 33] @ (0 # replicate 32 0x80) @ [0x02, of_nat 32] @
      (0xff # replicate 31 0) @ []) =
    Inr (toBytesBE 32 (bytesToBigIntBE (0 # replicate 32 0x80)) @
      toBytesBE 32 (lowS (bytesToBigIntBE (0xff # replicate 31 0)))) \<and>
   lowS (bytesToBigIntBE (0xff # replicate 31 0)) \<le> P256_N_HALF"
proof -
  have "bytesToBigIntBE (0 # replicate 32 0x80) < 256 ^ 32" "bytesToBigIntBE (0xff # replicate 31 0) < P256_N"
    by code_simp+
  from der_to_compact_correct [OF _ _ this, of "0x45" "[]"] show ?thesis by simp
qed

end
