(* ===== verification/Webauthn_Spec.thy ===== *)
theory Webauthn_Spec
  imports Webauthn
begin

text \<open>
  What the CBOR reader of \<open>Webauthn\<close> does on encodings of CBOR values, the adequacy of its
  fuel, and the registration of a P-256 key from end to end.
\<close>

section \<open>Fuel\<close>

definition remaining :: "bytes \<Rightarrow> num \<Rightarrow> nat" where
  "remaining data off = (case off of None \<Rightarrow> 0 | Some i \<Rightarrow> nat (int (length data) - i))"

definition nonneg :: "num \<Rightarrow> bool" where
  "nonneg off \<longleftrightarrow> (case off of None \<Rightarrow> True | Some i \<Rightarrow> 0 \<le> i)"

lemma nonneg_simps [simp]: "nonneg None" "nonneg (Some i) \<longleftrightarrow> 0 \<le> i"
  by (simp_all add: nonneg_def)

lemma addN_simps [simp]: "addN None b = None" "addN a None = None" "addN (Some x) (Some y) = Some (x + y)"
  by (simp_all add: addN_def split: option.split)

lemma nonneg_addN [simp]: "nonneg a \<Longrightarrow> nonneg b \<Longrightarrow> nonneg (addN a b)"
  by (cases a; cases b) simp_all

lemma remaining_addN: "nonneg n \<Longrightarrow> remaining data (addN off n) \<le> remaining data off"
  by (cases off; cases n) (simp_all add: remaining_def)

lemma nonneg_byteAt [simp]: "nonneg (byteAt data off)"
  by (cases off) (simp_all add: byteAt_def arr_def)

lemma readLength_bounds:
  assumes "readLength data a off = Inr (len, off')" "nonneg off" "0 \<le> a"
  shows "nonneg len \<and> nonneg off' \<and> remaining data off' \<le> remaining data off"
proof -
  have "0 \<le> orElse (byteAt data o1) 0" for o1
    using nonneg_byteAt [of data o1] by (cases "byteAt data o1") simp_all
  moreover have "0 \<le> v" if "getUint 4 data off = Inr v" for v
    using that bytesToBigIntBE_bounds by (auto simp: getUint_def Let_def split: if_splits)
  ultimately show ?thesis
    using assms remaining_addN
    by (auto simp: readLength_def result_simps split: if_splits)
qed

text \<open>A step that keeps offsets non-negative and never moves them back.\<close>

definition forward :: "bytes \<Rightarrow> (num \<Rightarrow> num result) \<Rightarrow> bool" where
  "forward data f \<longleftrightarrow>
     (\<forall>off off'. f off = Inr off' \<and> nonneg off \<longrightarrow> nonneg off' \<and> remaining data off' \<le> remaining data off)"

lemma forwardD:
  "forward data f \<Longrightarrow> f off = Inr off' \<Longrightarrow> nonneg off \<Longrightarrow> nonneg off' \<and> remaining data off' \<le> remaining data off"
  by (simp add: forward_def)

lemma forwardI:
  "(\<And>off off'. f off = Inr off' \<Longrightarrow> nonneg off \<Longrightarrow>
     nonneg off' \<and> remaining data off' \<le> remaining data off) \<Longrightarrow> forward data f"
  unfolding forward_def by blast

lemma forward_comp:
  assumes "forward data f" "forward data g"
  shows "forward data (\<lambda>off. bindR (f off) g)"
proof (rule forwardI)
  fix off off' assume "bindR (f off) g = Inr off'" and nn: "nonneg off"
  then obtain o1 where o1: "f off = Inr o1" "g o1 = Inr off'" by (auto simp: bindR_Inr_iff)
  from forwardD [OF assms(1) o1(1) nn] forwardD [OF assms(2) o1(2)]
  show "nonneg off' \<and> remaining data off' \<le> remaining data off" by linarith
qed

lemma forward_iterR: "forward data f \<Longrightarrow> forward data (iterR n f)"
proof (induction n)
  case 0
  show ?case by (rule forwardI) simp
next
  case (Suc n)
  then have "forward data (\<lambda>off. bindR (f off) (iterR n f))" by (intro forward_comp) simp_all
  then show ?case by (simp add: forward_def)
qed

lemma additionalInfo_nonneg [simp]: "0 \<le> additionalInfo b"
  by (simp add: additionalInfo_def)

lemma forward_skipValue: "forward data (skipValue fuel data)"
proof (induction fuel)
  case 0
  then show ?case by (simp add: forward_def)
next
  case (Suc fuel)
  have loops: "forward data (iterR n (skipValue fuel data))"
    "forward data (iterR n (\<lambda>o1. bindR (skipValue fuel data o1) (skipValue fuel data)))" for n
    by (intro forward_iterR forward_comp Suc)+
  show ?case unfolding forward_def
  proof (intro allI impI, elim conjE)
    fix off off' assume eq: "skipValue (Suc fuel) data off = Inr off'" and nn: "nonneg off"
    let ?o = "addN off (Some 1)"
    have o1: "nonneg ?o" "remaining data ?o \<le> remaining data off"
      using nn by (simp_all add: remaining_addN)
    from eq obtain len o2 where rl: "readLength data (additionalInfo (byteAt data off)) ?o = Inr (len, o2)"
      and cases: "off' = o2 \<or> off' = addN o2 len \<or> iterR (times len) (skipValue fuel data) o2 = Inr off' \<or>
        iterR (times len) (\<lambda>o1. bindR (skipValue fuel data o1) (skipValue fuel data)) o2 = Inr off'"
      by (auto simp: Let_def result_simps split: if_splits)
    from readLength_bounds [OF rl o1(1)]
    have b: "nonneg len" "nonneg o2" "remaining data o2 \<le> remaining data ?o" by simp_all
    have "nonneg off' \<and> remaining data off' \<le> remaining data o2"
      using cases b(1,2) forwardD [OF loops(1)] forwardD [OF loops(2)] remaining_addN by auto
    then show "nonneg off' \<and> remaining data off' \<le> remaining data off" using b o1 by linarith
  qed
qed

lemma iterR_cong_forward:
  assumes "forward data f" "\<And>o1. nonneg o1 \<Longrightarrow> remaining data o1 \<le> k \<Longrightarrow> f o1 = g o1"
  shows "nonneg off \<Longrightarrow> remaining data off \<le> k \<Longrightarrow> iterR n f off = iterR n g off"
proof (induction n arbitrary: off)
  case (Suc n)
  have "f off = g off" using Suc.prems assms(2) by blast
  moreover have "iterR n f o1 = iterR n g o1" if "f off = Inr o1" for o1
    using forwardD [OF assms(1) that Suc.prems(1)] Suc.prems(2) by (intro Suc.IH) simp_all
  ultimately show ?case by (simp cong: bindR_cong)
qed simp

lemma byteAt_end: "remaining data off = 0 \<Longrightarrow> byteAt data off = None"
  by (cases off) (auto simp: remaining_def byteAt_def arr_def)

lemma remaining_Suc: "nonneg off \<Longrightarrow> 0 < remaining data off \<Longrightarrow> remaining data (addN off (Some 1)) < remaining data off"
  by (cases off) (auto simp: remaining_def)

lemma skipValue_fuel_le:
  "nonneg off \<Longrightarrow> remaining data off < fuel \<Longrightarrow> fuel \<le> fuel' \<Longrightarrow>
   skipValue fuel data off = skipValue fuel' data off"
proof (induction "fuel" arbitrary: fuel' off)
  case 0
  then show ?case by simp
next
  case (Suc f)
  obtain f' where f': "fuel' = Suc f'" "f \<le> f'" using Suc.prems(3) by (cases fuel') auto
  show ?case
  proof (cases "remaining data off = 0")
    case True
    then have "byteAt data off = None" by (rule byteAt_end)
    then show ?thesis unfolding f' by (simp add: majorType_def Let_def)
  next
    case False
    let ?o = "addN off (Some 1)"
    have o1: "nonneg ?o" "remaining data ?o < f"
      using Suc.prems remaining_Suc [of off data] False by simp_all
    have step: "skipValue f data o1 = skipValue f' data o1" if "nonneg o1" "remaining data o1 \<le> remaining data ?o" for o1
      using that o1 f' by (intro Suc.IH) simp_all
    have pair: "bindR (skipValue f data o1) (skipValue f data) = bindR (skipValue f' data o1) (skipValue f' data)"
      if o2: "nonneg o1" "remaining data o1 \<le> remaining data ?o" for o1
    proof -
      have "skipValue f data o2 = skipValue f' data o2" if "skipValue f data o1 = Inr o2" for o2
        using forwardD [OF forward_skipValue that o2(1)] o2(2) by (intro step) simp_all
      then show ?thesis using step [OF o2] by (intro bindR_cong) simp_all
    qed
    have loops: "iterR n (skipValue f data) o1 = iterR n (skipValue f' data) o1"
      "iterR n (\<lambda>o1. bindR (skipValue f data o1) (skipValue f data)) o1 =
       iterR n (\<lambda>o1. bindR (skipValue f' data o1) (skipValue f' data)) o1"
      if "nonneg o1" "remaining data o1 \<le> remaining data ?o" for n o1
      by (rule iterR_cong_forward [OF forward_skipValue step that]
          iterR_cong_forward [OF forward_comp [OF forward_skipValue forward_skipValue] pair that]; assumption)+
    show ?thesis unfolding f'
      using readLength_bounds [OF _ o1(1) additionalInfo_nonneg, of data "byteAt data off"]
      by (cases "readLength data (additionalInfo (byteAt data off)) ?o") (auto simp: Let_def loops)
  qed
qed

lemma skipValue_fuel:
  assumes "nonneg off" "length data < fuel"
  shows "skipValue fuel data off = skipValue (length data + 1) data off"
proof -
  have "remaining data off < length data + 1" using assms(1) by (cases off) (simp_all add: remaining_def)
  then show ?thesis using skipValue_fuel_le [OF assms(1), of data "length data + 1" "fuel"] assms(2) by simp
qed

abbreviation overflow :: js_error where
  "overflow \<equiv> RangeError ''Maximum call stack size exceeded''"

lemma iterR_no_overflow:
  assumes "forward data f" "\<And>o1. nonneg o1 \<Longrightarrow> remaining data o1 \<le> k \<Longrightarrow> f o1 \<noteq> Inl overflow"
  shows "nonneg off \<Longrightarrow> remaining data off \<le> k \<Longrightarrow> iterR n f off \<noteq> Inl overflow"
proof (induction n arbitrary: off)
  case (Suc n)
  have "iterR n f o1 \<noteq> Inl overflow" if "f off = Inr o1" for o1
    using forwardD [OF assms(1) that Suc.prems(1)] Suc.prems(2) by (intro Suc.IH) simp_all
  with assms(2) [OF Suc.prems] show ?case by (auto simp: bindR_Inl_iff)
qed simp

lemma readLength_no_overflow: "readLength data a off \<noteq> Inl overflow"
  by (auto simp: readLength_def bindR_Inl_iff getUint_def Let_def)

lemma skipValue_no_overflow:
  "nonneg off \<Longrightarrow> remaining data off < fuel \<Longrightarrow> skipValue fuel data off \<noteq> Inl overflow"
proof (induction "fuel" arbitrary: off)
  case 0
  then show ?case by simp
next
  case (Suc f)
  let ?o = "addN off (Some 1)"
  show ?case
  proof (cases "remaining data off = 0")
    case True
    then have "byteAt data off = None" by (rule byteAt_end)
    then show ?thesis
      using readLength_no_overflow by (auto simp: majorType_def Let_def bindR_Inl_iff)
  next
    case False
    have o1: "nonneg ?o" "remaining data ?o < f"
      using Suc.prems remaining_Suc [of off data] False by simp_all
    have step: "skipValue f data o1 \<noteq> Inl overflow" if "nonneg o1" "remaining data o1 \<le> remaining data ?o" for o1
      using that o1 by (intro Suc.IH) simp_all
    have pair: "bindR (skipValue f data o1) (skipValue f data) \<noteq> Inl overflow"
      if o2: "nonneg o1" "remaining data o1 \<le> remaining data ?o" for o1
    proof -
      have "skipValue f data o2 \<noteq> Inl overflow" if "skipValue f data o1 = Inr o2" for o2
        using forwardD [OF forward_skipValue that o2(1)] o2(2) by (intro step) simp_all
      then show ?thesis using step [OF o2] by (auto simp: bindR_Inl_iff)
    qed
    have loops: "iterR n (skipValue f data) o1 \<noteq> Inl overflow"
      "iterR n (\<lambda>o1. bindR (skipValue f data o1) (skipValue f data)) o1 \<noteq> Inl overflow"
      if "nonneg o1" "remaining data o1 \<le> remaining data ?o" for n o1
      by (rule iterR_no_overflow [OF forward_skipValue step that]
          iterR_no_overflow [OF forward_comp [OF forward_skipValue forward_skipValue] pair that]; assumption)+
    show ?thesis
      using readLength_bounds [OF _ o1(1) additionalInfo_nonneg, of data "byteAt data off"] readLength_no_overflow
      by (auto simp: Let_def bindR_Inl_iff loops)
  qed
qed

section \<open>Encodings of CBOR values\<close>

datatype cbor =
    CUint nat
  | CNint nat
  | CBytes bytes
  | CText bytes
  | CArray "cbor list"
  | CMap "(cbor \<times> cbor) list"
  | CSimple nat

text \<open>The head of a value: major type \<open>m\<close> and argument \<open>n\<close> in the shortest form.\<close>

definition bigEndian :: "nat \<Rightarrow> nat \<Rightarrow> bytes" where
  "bigEndian k n = toBytesBE k (int n)"

definition head :: "nat \<Rightarrow> nat \<Rightarrow> bytes" where
  "head m n =
     (if n < 24 then [of_nat (32 * m + n)]
      else if n < 256 then of_nat (32 * m + 24) # bigEndian 1 n
      else if n < 65536 then of_nat (32 * m + 25) # bigEndian 2 n
      else of_nat (32 * m + 26) # bigEndian 4 n)"

fun encode :: "cbor \<Rightarrow> bytes" where
  "encode (CUint n) = head 0 n"
| "encode (CNint n) = head 1 n"
| "encode (CBytes b) = head 2 (length b) @ b"
| "encode (CText b) = head 3 (length b) @ b"
| "encode (CArray vs) = head 4 (length vs) @ concat (map encode vs)"
| "encode (CMap kvs) = head 5 (length kvs) @ concat (map (\<lambda>(k, v). encode k @ encode v) kvs)"
| "encode (CSimple n) = head 7 n"

fun wf_cbor :: "cbor \<Rightarrow> bool" where
  "wf_cbor (CUint n) = (n < 2 ^ 32)"
| "wf_cbor (CNint n) = (n < 2 ^ 32)"
| "wf_cbor (CBytes b) = (length b < 2 ^ 32)"
| "wf_cbor (CText b) = (length b < 2 ^ 32)"
| "wf_cbor (CArray vs) = (length vs < 2 ^ 32 \<and> list_all wf_cbor vs)"
| "wf_cbor (CMap kvs) = (length kvs < 2 ^ 32 \<and> list_all (\<lambda>(k, v). wf_cbor k \<and> wf_cbor v) kvs)"
| "wf_cbor (CSimple n) = (n < 2 ^ 32)"

lemma byteAt_append [simp]:
  "byteAt (pre @ b # rest) (Some (int (length pre))) = Some (uint b)"
  by (simp add: byteAt_def arr_def)

lemma byteAt_append2:
  "byteAt (pre @ a # b # rest) (Some (int (length pre) + 1)) = Some (uint b)"
  using byteAt_append [of "pre @ [a]" b rest] by (simp add: add.commute)

lemma byteAt_append3:
  "byteAt (pre @ a # b # c # rest) (Some (int (length pre) + 2)) = Some (uint c)"
  using byteAt_append [of "pre @ [a, b]" c rest] by (simp add: add.commute)

lemma byteAt_append3':
  "byteAt (pre @ a # b # c # rest) (Some (2 + int (length pre))) = Some (uint c)"
  using byteAt_append3 [of pre a b c rest] by (simp add: add.commute)

lemma initial_byte:
  assumes "m < 8" "a < 32"
  shows "majorType (Some (uint (of_nat (32 * m + a) :: byte))) = int m"
    "additionalInfo (Some (uint (of_nat (32 * m + a) :: byte))) = int a"
proof -
  have "uint (of_nat (32 * m + a) :: byte) = int (32 * m + a)"
    using assms by (simp add: uint_nat unat_of_nat del: of_nat_add of_nat_mult)
  then show "majorType (Some (uint (of_nat (32 * m + a) :: byte))) = int m"
    "additionalInfo (Some (uint (of_nat (32 * m + a) :: byte))) = int a"
    using assms by (simp_all add: majorType_def additionalInfo_def)
qed

text \<open>Reading a head yields its major type and argument and moves past it.\<close>

definition reads_head :: "bytes \<Rightarrow> nat \<Rightarrow> nat \<Rightarrow> nat \<Rightarrow> nat \<Rightarrow> bool" where
  "reads_head data i m n j \<longleftrightarrow>
     majorType (byteAt data (Some (int i))) = int m \<and>
     readLength data (additionalInfo (byteAt data (Some (int i)))) (Some (int i + 1)) =
       Inr (Some (int n), Some (int j))"

lemma head_reads:
  assumes "m < 8" "n < 2 ^ 32"
  shows "reads_head (pre @ head m n @ rest) (length pre) m n (length pre + length (head m n))"
proof -
  consider "n < 24" | "24 \<le> n" "n < 256" | "256 \<le> n" "n < 65536" | "65536 \<le> n" "n < 2 ^ 32"
    using assms(2) by linarith
  then show ?thesis
  proof cases
    case 1
    then have h: "head m n = [of_nat (32 * m + n)]" by (simp add: head_def)
    show ?thesis
      using initial_byte [OF assms(1), of n] 1
      by (simp add: reads_head_def h readLength_def add.commute del: of_nat_add of_nat_mult of_nat_numeral)
  next
    case 2
    define b :: byte where "b = of_nat n"
    have b: "bigEndian 1 n = [b]" "int n = uint b"
      unfolding b_def using toBytesBE_value [of "int n" 1] 2 by (auto simp: bigEndian_def bytesToBigIntBE_def)
    have h: "head m n = [of_nat (32 * m + 24), b]" using 2 b by (simp add: head_def)
    show ?thesis
      using initial_byte [OF assms(1), of 24] b(2)
      by (simp add: reads_head_def h readLength_def byteAt_append2 del: of_nat_add of_nat_mult of_nat_numeral)
  next
    case 3
    have "length (bigEndian 2 n) = 2" "bytesToBigIntBE (bigEndian 2 n) = int n"
      using 3 toBytesBE_value [of "int n" 2] by (simp_all add: bigEndian_def)
    then obtain b c where b: "bigEndian 2 n = [b, c]" "int n = uint b * 256 + uint c"
      by (auto simp: length_Suc_conv numeral_2_eq_2 bytesToBigIntBE_def)
    have h: "head m n = [of_nat (32 * m + 25), b, c]" using 3 b by (simp add: head_def)
    show ?thesis
      using initial_byte [OF assms(1), of 25] b(2)
      by (simp add: reads_head_def h readLength_def byteAt_append2 byteAt_append3
          del: of_nat_add of_nat_mult of_nat_numeral)
         (simp add: byteAt_append3 byteAt_append3')
  next
    case 4
    have h: "head m n = of_nat (32 * m + 26) # bigEndian 4 n" using 4 by (simp add: head_def)
    have l: "length (bigEndian 4 n) = 4" and v: "bytesToBigIntBE (bigEndian 4 n) = int n"
      using 4 toBytesBE_value [of "int n" 4] by (simp_all add: bigEndian_def)
    let ?data = "pre @ (of_nat (32 * m + 26) # bigEndian 4 n) @ rest"
    have "subarray (length pre + 1) (length pre + 1 + 4) ?data = bigEndian 4 n"
      using l by (simp add: subarray_def)
    moreover have n1: "nat (int (length pre) + 1) = length pre + 1" by simp
    ultimately have "getUint 4 ?data (Some (int (length pre) + 1)) = Inr (int n)"
      using l v unfolding getUint_def by (simp add: n1 nat_add_distrib)
    then show ?thesis
      using initial_byte [OF assms(1), of 26] l
      by (simp add: reads_head_def h readLength_def del: of_nat_add of_nat_mult of_nat_numeral)
  qed
qed

lemma head_nonempty: "1 \<le> length (head m n)"
  by (simp add: head_def)

lemma head_not_Nil [simp]: "head m n \<noteq> []"
  by (simp add: head_def)

text \<open>A step that skips the encodings \<open>enc v\<close> of the values of a set.\<close>

definition skips :: "(bytes \<Rightarrow> num \<Rightarrow> num result) \<Rightarrow> ('a \<Rightarrow> bytes) \<Rightarrow> 'a set \<Rightarrow> bool" where
  "skips f enc V \<longleftrightarrow> (\<forall>v \<in> V. \<forall>pre rest.
     f (pre @ enc v @ rest) (Some (int (length pre))) = Inr (Some (int (length pre + length (enc v)))))"

lemma skipsD:
  "skips f enc V \<Longrightarrow> v \<in> V \<Longrightarrow> data = pre @ enc v @ rest \<Longrightarrow> i = int (length pre) \<Longrightarrow>
   f data (Some i) = Inr (Some (i + int (length (enc v))))"
  by (simp add: skips_def)

lemma iterR_skips:
  assumes "skips f enc (set vs)"
  shows "data = pre @ concat (map enc vs) @ rest \<Longrightarrow> i = int (length pre) \<Longrightarrow>
    iterR (length vs) (f data) (Some i) = Inr (Some (i + int (length (concat (map enc vs)))))"
  using assms
proof (induction vs arbitrary: pre i)
  case Nil
  then show ?case by simp
next
  case (Cons v vs)
  have "f data (Some i) = Inr (Some (i + int (length (enc v))))"
    using Cons.prems by (intro skipsD [OF Cons.prems(3), of v data pre "concat (map enc vs) @ rest"]) simp_all
  moreover have "iterR (length vs) (f data) (Some (i + int (length (enc v)))) =
    Inr (Some (i + int (length (enc v)) + int (length (concat (map enc vs)))))"
    using Cons.prems by (intro Cons.IH [of "pre @ enc v"]) (simp_all add: skips_def)
  ultimately show ?case by simp
qed

definition pair_enc :: "cbor \<times> cbor \<Rightarrow> bytes" where
  "pair_enc kv = encode (fst kv) @ encode (snd kv)"

lemma pair_enc_pair [simp]: "pair_enc (k, v) = encode k @ encode v"
  by (simp add: pair_enc_def)

lemma skips_pairs:
  assumes "skips f encode V" "\<And>kv. kv \<in> KV \<Longrightarrow> fst kv \<in> V \<and> snd kv \<in> V"
  shows "skips (\<lambda>data o1. bindR (f data o1) (f data)) pair_enc KV"
  unfolding skips_def
proof (intro ballI allI)
  fix kv pre rest assume kv: "kv \<in> KV"
  let ?data = "pre @ pair_enc kv @ rest"
  have "f ?data (Some (int (length pre))) = Inr (Some (int (length pre) + int (length (encode (fst kv)))))"
    using assms(2) [OF kv]
    by (intro skipsD [OF assms(1), of "fst kv" ?data pre "encode (snd kv) @ rest"]) (simp_all add: pair_enc_def)
  moreover have "f ?data (Some (int (length pre) + int (length (encode (fst kv))))) =
      Inr (Some (int (length pre) + int (length (encode (fst kv))) + int (length (encode (snd kv)))))"
    using assms(2) [OF kv]
    by (intro skipsD [OF assms(1), of "snd kv" ?data "pre @ encode (fst kv)" rest]) (simp_all add: pair_enc_def)
  ultimately show "bindR (f ?data (Some (int (length pre)))) (f ?data) =
    Inr (Some (int (length pre + length (pair_enc kv))))"
    by (simp add: pair_enc_def)
qed

lemma length_concat_member: "x \<in> set xs \<Longrightarrow> length (f x) \<le> length (concat (map f xs))"
  by (induction xs) auto

lemma skipValue_skips: "skips (skipValue f) encode {v. wf_cbor v \<and> length (encode v) \<le> f}"
proof (induction f)
  case 0
  have "encode v \<noteq> []" for v by (cases v) simp_all
  then show ?case by (auto simp: skips_def)
next
  case (Suc f)
  show ?case unfolding skips_def
  proof (intro ballI allI)
    fix v and pre rest :: bytes assume "v \<in> {v. wf_cbor v \<and> length (encode v) \<le> Suc f}"
    then have wf: "wf_cbor v" and len: "length (encode v) \<le> Suc f" by simp_all
    let ?data = "pre @ encode v @ rest" and ?i = "int (length pre)"
    have hd: "reads_head (pre @ head m n @ xs @ rest) (length pre) m n (length pre + length (head m n))"
      if "m < 8" "n < 2 ^ 32" for m n xs
      using head_reads [OF that, of pre "xs @ rest"] by simp
    show "skipValue (Suc f) ?data (Some ?i) = Inr (Some (int (length pre + length (encode v))))"
    proof (cases v)
      case (CUint n)
      with wf hd [of 0 n "[]"] show ?thesis by (simp add: reads_head_def Let_def)
    next
      case (CNint n)
      with wf hd [of 1 n "[]"] show ?thesis by (simp add: reads_head_def Let_def)
    next
      case (CSimple n)
      with wf hd [of 7 n "[]"] show ?thesis by (simp add: reads_head_def Let_def)
    next
      case (CBytes b)
      with wf hd [of 2 "length b" b] show ?thesis by (simp add: reads_head_def Let_def)
    next
      case (CText b)
      with wf hd [of 3 "length b" b] show ?thesis by (simp add: reads_head_def Let_def)
    next
      case (CArray vs)
      let ?h = "head 4 (length vs)"
      have small: "set vs \<subseteq> {v. wf_cbor v \<and> length (encode v) \<le> f}"
      proof
        fix u assume u: "u \<in> set vs"
        then have "length (encode u) \<le> length (concat (map encode vs))" by (rule length_concat_member)
        with CArray len wf u head_nonempty [of 4 "length vs"]
        show "u \<in> {v. wf_cbor v \<and> length (encode v) \<le> f}" by (simp add: list_all_iff)
      qed
      then have "skips (skipValue f) encode (set vs)" using Suc.IH by (auto simp: skips_def)
      then have "iterR (length vs) (skipValue f ?data) (Some (int (length (pre @ ?h)))) =
        Inr (Some (int (length (pre @ ?h)) + int (length (concat (map encode vs)))))"
        by (rule iterR_skips [where pre = "pre @ ?h" and rest = rest]) (simp_all add: CArray)
      with wf hd [of 4 "length vs" "concat (map encode vs)"] show ?thesis
        by (simp add: CArray reads_head_def Let_def times_def)
    next
      case (CMap kvs)
      let ?h = "head 5 (length kvs)"
      have enc: "(\<lambda>(k, v). encode k @ encode v) = pair_enc"
        by (simp add: fun_eq_iff pair_enc_def)
      have small: "fst kv \<in> {v. wf_cbor v \<and> length (encode v) \<le> f} \<and>
        snd kv \<in> {v. wf_cbor v \<and> length (encode v) \<le> f}" if "kv \<in> set kvs" for kv
      proof -
        have "length (pair_enc kv) \<le> length (concat (map pair_enc kvs))"
          using that by (rule length_concat_member)
        with CMap len wf that head_nonempty [of 5 "length kvs"] show ?thesis
          unfolding enc by (auto simp: list_all_iff pair_enc_def enc)
      qed
      have "skips (\<lambda>data o1. bindR (skipValue f data o1) (skipValue f data)) pair_enc (set kvs)"
        by (rule skips_pairs [OF Suc.IH small])
      then have "iterR (length kvs) (\<lambda>o1. bindR (skipValue f ?data o1) (skipValue f ?data))
          (Some (int (length (pre @ ?h)))) =
        Inr (Some (int (length (pre @ ?h)) + int (length (concat (map pair_enc kvs)))))"
        by (rule iterR_skips [where pre = "pre @ ?h" and rest = rest]) (simp_all add: CMap enc)
      with wf hd [of 5 "length kvs" "concat (map pair_enc kvs)"] show ?thesis
        by (simp add: CMap reads_head_def Let_def times_def enc)
    qed
  qed
qed

section \<open>The attestation object\<close>

definition ordinary_key :: "cbor \<Rightarrow> bool" where
  "ordinary_key k = (case k of CText b \<Rightarrow> \<not> isAuthDataKey b | _ \<Rightarrow> True)"

lemma skip_encoded:
  assumes "wf_cbor v" "data = pre @ encode v @ rest" "i = int (length pre)"
  shows "skipValue (length data + 1) data (Some i) = Inr (Some (i + int (length (encode v))))"
  using assms by (intro skipsD [OF skipValue_skips]) auto

text \<open>Major type, argument and body of an encoding.\<close>

fun shape :: "cbor \<Rightarrow> nat \<times> nat \<times> bytes" where
  "shape (CUint n) = (0, n, [])"
| "shape (CNint n) = (1, n, [])"
| "shape (CBytes b) = (2, length b, b)"
| "shape (CText b) = (3, length b, b)"
| "shape (CArray vs) = (4, length vs, concat (map encode vs))"
| "shape (CMap kvs) = (5, length kvs, concat (map (\<lambda>(k, v). encode k @ encode v) kvs))"
| "shape (CSimple n) = (7, n, [])"

lemma encode_shape:
  "shape v = (m, n, xs) \<Longrightarrow> wf_cbor v \<Longrightarrow>
   encode v = head m n @ xs \<and> m < 8 \<and> n < 2 ^ 32 \<and> (m = 3 \<longleftrightarrow> v = CText xs \<and> n = length xs)"
  by (cases v) auto

lemma readBytes_at:
  "data = pre @ b @ rest \<Longrightarrow> i = int (length pre) \<Longrightarrow> n = int (length b) \<Longrightarrow> readBytes data (Some i) (Some n) = b"
  by (simp add: readBytes_def subarray_def nat_add_distrib)

lemma authDataLoop_found:
  assumes "length ad < 2 ^ 32" "0 < n"
    and data: "data = pre @ encode (CText (utf8 ''authData'')) @ encode (CBytes ad) @ rest"
  shows "authDataLoop n data (Some (int (length pre))) = Inr ad"
proof -
  let ?k = "utf8 ''authData''"
  have k: "length ?k = 8" by (simp add: utf8_def)
  obtain m where n: "n = Suc m" using assms(2) by (cases n) auto
  have h1: "reads_head data (length pre) 3 8 (length pre + length (head 3 8))"
    using head_reads [of 3 8 pre "?k @ encode (CBytes ad) @ rest"] k by (simp add: data)
  have h2: "reads_head data (length (pre @ head 3 8 @ ?k)) 2 (length ad)
      (length (pre @ head 3 8 @ ?k) + length (head 2 (length ad)))"
    using head_reads [of 2 "length ad" "pre @ head 3 8 @ ?k" "ad @ rest"] k assms(1) by (simp add: data)
  have r1: "readBytes data (Some (int (length pre + length (head 3 8)))) (Some 8) = ?k"
    by (rule readBytes_at [of _ "pre @ head 3 8" _ "encode (CBytes ad) @ rest"]) (simp_all add: data k)
  have r2: "readBytes data (Some (int (length (pre @ head 3 8 @ ?k) + length (head 2 (length ad)))))
      (Some (int (length ad))) = ad"
    by (rule readBytes_at [of _ "pre @ head 3 8 @ ?k @ head 2 (length ad)" _ rest]) (simp_all add: data k)
  show ?thesis
    using h1 h2 r1 r2 unfolding n
    by (simp add: reads_head_def Let_def isAuthDataKey_def k add.assoc)
qed

lemma authDataLoop_skips:
  assumes "list_all (\<lambda>(k, v). wf_cbor k \<and> wf_cbor v \<and> ordinary_key k) es"
    and "length ad < 2 ^ 32"
  shows "length es < n \<Longrightarrow>
    data = pre @ concat (map pair_enc es) @ encode (CText (utf8 ''authData'')) @ encode (CBytes ad) @ rest \<Longrightarrow>
    authDataLoop n data (Some (int (length pre))) = Inr ad"
  using assms(1)
proof (induction es arbitrary: n pre)
  case Nil
  then show ?case using authDataLoop_found [OF assms(2), of n data pre rest] by simp
next
  case (Cons e es)
  obtain k v where e: "e = (k, v)" by (cases e)
  obtain n' where n: "n = Suc n'" "length es < n'" using Cons.prems(1) by (cases n) auto
  have wf: "wf_cbor k" "wf_cbor v" "ordinary_key k" using Cons.prems(3) by (simp_all add: e)
  let ?tail = "concat (map pair_enc es) @ encode (CText (utf8 ''authData'')) @ encode (CBytes ad) @ rest"
  have data: "data = pre @ encode k @ encode v @ ?tail" using Cons.prems(2) by (simp add: e pair_enc_pair)
  let ?i = "int (length pre)" and ?j = "int (length pre) + int (length (encode k))"
  have sk: "skipValue (length data + 1) data (Some ?i) = Inr (Some ?j)"
    using skip_encoded [OF wf(1) data] by simp
  have sv: "skipValue (length data + 1) data (Some ?j) = Inr (Some (?j + int (length (encode v))))"
    by (rule skip_encoded [OF wf(2), of data "pre @ encode k" ?tail]) (simp_all add: data)
  have rest: "authDataLoop n' data (Some (?j + int (length (encode v)))) = Inr ad"
    using Cons.IH [OF n(2), of "pre @ encode k @ encode v"] Cons.prems(3) data
    by (simp add: add.assoc)
  obtain m a xs where h: "encode k = head m a @ xs" "m < 8" "a < 2 ^ 32"
    and txtkey: "m = 3 \<longleftrightarrow> k = CText xs \<and> a = length xs"
    using encode_shape [OF _ wf(1)] by (cases "shape k") blast
  have rh: "reads_head data (length pre) m a (length pre + length (head m a))"
    using head_reads [OF h(2,3), of pre "xs @ encode v @ ?tail"] by (simp add: data h(1))
  show ?case
  proof (cases "m = 3")
    case False
    then show ?thesis using rh sk sv rest unfolding n by (simp add: reads_head_def Let_def del: skipValue.simps)
  next
    case True
    then obtain b where b: "k = CText b" "a = length b" "xs = b" using txtkey by simp
    have "readBytes data (Some (int (length pre + length (head m a)))) (Some (int a)) = b"
      by (rule readBytes_at [of _ "pre @ head m a" _ "encode v @ ?tail"]) (simp_all add: data b True)
    moreover have "?j = int (length pre + length (head m a)) + int a" by (simp add: b True)
    moreover have "\<not> isAuthDataKey b" using wf(3) b(1) by (simp add: ordinary_key_def)
    ultimately show ?thesis
      using rh sv rest True unfolding n by (simp add: add.assoc reads_head_def Let_def del: skipValue.simps)
  qed
qed

lemma authData_extracted:
  assumes "list_all (\<lambda>(k, v). wf_cbor k \<and> wf_cbor v \<and> ordinary_key k) es"
    and "length ad < 2 ^ 32" "length es < n" "n < 2 ^ 32"
  shows "extractAuthDataFromCbor (head 5 n @ concat (map pair_enc es) @
    encode (CText (utf8 ''authData'')) @ encode (CBytes ad) @ rest) = Inr ad"
proof -
  let ?data = "head 5 n @ concat (map pair_enc es) @ encode (CText (utf8 ''authData'')) @ encode (CBytes ad) @ rest"
  have "reads_head ?data 0 5 n (length (head 5 n))"
    using head_reads [of 5 n "[]"] assms(4) by simp
  moreover have "authDataLoop n ?data (Some (int (length (head 5 n)))) = Inr ad"
    by (rule authDataLoop_skips [OF assms(1,2,3)]) simp
  ultimately show ?thesis
    by (simp add: extractAuthDataFromCbor_def reads_head_def times_def Let_def del: encode.simps)
qed

section \<open>The COSE key and the registration\<close>

text \<open>A P-256 key with coordinates \<open>x\<close> and \<open>y\<close>, as authenticators encode it.\<close>

definition coseKey :: "bytes \<Rightarrow> bytes \<Rightarrow> bytes" where
  "coseKey x y = [0xa5, 0x01, 0x02, 0x03, 0x26, 0x20, 0x01, 0x21, 0x58, 0x20] @ x @ [0x22, 0x58, 0x20] @ y"

lemma coseKey_extracted:
  assumes "length x = 32" "length y = 32"
  shows "extractP256FromCoseKey (coseKey x y) = Inr (0x04 # x @ y)"
proof -
  let ?d = "coseKey x y"
  have b: "byteAt ?d (Some 0) = Some 0xa5" "byteAt ?d (Some 1) = Some 1" "byteAt ?d (Some 2) = Some 2"
    "byteAt ?d (Some 3) = Some 3" "byteAt ?d (Some 4) = Some 0x26" "byteAt ?d (Some 5) = Some 0x20"
    "byteAt ?d (Some 6) = Some 1" "byteAt ?d (Some 7) = Some 0x21" "byteAt ?d (Some 8) = Some 0x58"
    "byteAt ?d (Some 9) = Some 0x20" "byteAt ?d (Some 42) = Some 0x22" "byteAt ?d (Some 43) = Some 0x58"
    "byteAt ?d (Some 44) = Some 0x20"
    using assms by (simp_all add: byteAt_def arr_def coseKey_def nth_append)
  have x: "readBytes ?d (Some 10) (Some 32) = x"
    by (rule readBytes_at [of _ "[0xa5, 0x01, 0x02, 0x03, 0x26, 0x20, 0x01, 0x21, 0x58, 0x20]" _
          "[0x22, 0x58, 0x20] @ y"]) (simp_all add: coseKey_def assms)
  have y: "readBytes ?d (Some 45) (Some 32) = y"
    by (rule readBytes_at [of _ "[0xa5, 0x01, 0x02, 0x03, 0x26, 0x20, 0x01, 0x21, 0x58, 0x20] @ x @
          [0x22, 0x58, 0x20]" _ "[]"]) (simp_all add: coseKey_def assms)
  have loop: "coseLoop 5 ?d (Some 1) None None = Inr (Some x, Some y)"
    by (simp add: eval_nat_numeral coseKeyVal_def coseReadLength_def majorType_def additionalInfo_def b Let_def)
       (simp add: x y)
  have "setBytes (0x04 # replicate 64 0) x 1 = Inr (0x04 # x @ replicate 32 0)"
    using assms by (simp add: setBytes_def)
  moreover have "setBytes (0x04 # x @ replicate 32 0) y 33 = Inr (0x04 # x @ y)"
    using assms by (simp add: setBytes_def)
  ultimately show ?thesis
    using loop by (simp add: extractP256FromCoseKey_def b majorType_def additionalInfo_def coseReadLength_def times_def)
qed

text \<open>
  \<open>authData\<close>: the hash of the relying party, the flags, the signature counter, the AAGUID,
  the credential id with its length, the key, and extension data.
\<close>

definition authDataBytes :: "bytes \<Rightarrow> byte \<Rightarrow> bytes \<Rightarrow> bytes \<Rightarrow> bytes \<Rightarrow> bytes \<Rightarrow> bytes \<Rightarrow> bytes \<Rightarrow> bytes" where
  "authDataBytes rp flags counter aaguid credId x y exts =
     rp @ [flags] @ counter @ aaguid @ bigEndian 2 (length credId) @ credId @ coseKey x y @ exts"

lemma key_from_authData:
  assumes "length rp = 32" "length counter = 4" "length aaguid = 16" "length credId < 65536"
    and "length x = 32" "length y = 32" "odd (uint flags div 0x40)"
  shows "extractPublicKeyFromAuthData (authDataBytes rp flags counter aaguid credId x y exts) = Inr (0x04 # x @ y)"
proof -
  let ?d = "authDataBytes rp flags counter aaguid credId x y exts"
  have f: "byteAt ?d (Some 32) = Some (uint flags)"
    using byteAt_append [of rp flags "counter @ aaguid @ bigEndian 2 (length credId) @ credId @ coseKey x y @ exts"] assms(1)
    by (simp add: authDataBytes_def)
  have l: "length (bigEndian 2 (length credId)) = 2" by (simp add: bigEndian_def)
  have "bytesToBigIntBE (bigEndian 2 (length credId)) = int (length credId)"
    using assms(4) by (simp add: bigEndian_def toBytesBE_value del: toBytesBE.simps)
  moreover have "subarray 53 55 ?d = bigEndian 2 (length credId)"
    using assms(1-3) l by (simp add: authDataBytes_def subarray_def)
  moreover have "\<not> 55 > int (length ?d)" using assms(1-3) l by (simp add: authDataBytes_def)
  ultimately have g: "getUint 2 ?d (Some 53) = Inr (int (length credId))"
    by (simp add: getUint_def)
  have "length (coseKey x y) = 77" using assms(5,6) by (simp add: coseKey_def)
  moreover have "?d = (rp @ [flags] @ counter @ aaguid @ bigEndian 2 (length credId) @ credId) @ coseKey x y @ exts"
    by (simp add: authDataBytes_def)
  moreover have "length (rp @ [flags] @ counter @ aaguid @ bigEndian 2 (length credId) @ credId) = 55 + length credId"
    using assms(1-3) l by simp
  ultimately have "subarray (55 + length credId) (55 + length credId + 77) ?d = coseKey x y"
    unfolding subarray_def by (metis add_diff_cancel_left' append_eq_conv_conj)
  then show ?thesis
    using assms(7) coseKey_extracted [OF assms(5,6)] g
    by (simp add: extractPublicKeyFromAuthData_def f Let_def)
qed

section \<open>Properties\<close>

text \<open>
  Registration without \<open>getPublicKey\<close> recovers the key: for every attestation object
  whose map holds any well-formed entries before \<open>authData\<close>, and whose \<open>authData\<close> carries
  attested credential data with a P-256 key, \<open>parseRegistration\<close> returns the uncompressed
  point and the credential id.
\<close>

theorem registration_key_recovered:
  assumes "list_all (\<lambda>(k, v). wf_cbor k \<and> wf_cbor v \<and> ordinary_key k) entries"
    and "length entries < n" "n < 2 ^ 32"
    and "length rp = 32" "length counter = 4" "length aaguid = 16" "length credId < 65536"
    and "length x = 32" "length y = 32" "odd (uint flags div 0x40)" "length exts < 2 ^ 31"
    and "ad = authDataBytes rp flags counter aaguid credId x y exts"
    and "obj = head 5 n @ concat (map pair_enc entries) @
      encode (CText (utf8 ''authData'')) @ encode (CBytes ad) @ rest"
  shows "parseRegistration rawId \<lparr>getPublicKey = None, attestationObject = obj\<rparr> = Inr (0x04 # x @ y, rawId)"
proof -
  have "length ad < 2 ^ 32"
    using assms(4-12) by (simp add: authDataBytes_def coseKey_def bigEndian_def del: toBytesBE.simps)
  then have "extractAuthDataFromCbor obj = Inr ad"
    unfolding assms(13) by (intro authData_extracted assms(1-3))
  then show ?thesis
    using key_from_authData [OF assms(4-10)] assms(12)
    by (simp add: parseRegistration_def extractPublicKey_def parseAttestationObject_def base64url_round_trip)
qed

theorem registration_key_recovered_witness:
  "parseRegistration [9] \<lparr>getPublicKey = None,
     attestationObject = head 5 3 @ concat (map pair_enc [(CText (utf8 ''fmt''), CText (utf8 ''none''))]) @
       encode (CText (utf8 ''authData'')) @
       encode (CBytes (authDataBytes (replicate 32 1) 0x41 (replicate 4 0) (replicate 16 0) [1, 2]
         (replicate 32 7) (replicate 32 8) [])) @ []\<rparr> =
   Inr (0x04 # replicate 32 7 @ replicate 32 8, [9])"
  by (rule registration_key_recovered [OF _ _ _ _ _ _ _ _ _ _ _ refl refl])
     (simp_all add: utf8_def ordinary_key_def isAuthDataKey_def)

text \<open>
  The fuel of the CBOR reader stands for the call stack: with more fuel than the input has bytes,
  skipping a value gives the same result for every amount, and no input exhausts it.
\<close>

lemma skip_fuel_adequate:
  assumes "nonneg off" "length data < fuel"
  shows "skipValue fuel data off = skipValue (length data + 1) data off \<and>
    skipValue fuel data off \<noteq> Inl (RangeError ''Maximum call stack size exceeded'')"
proof -
  have "remaining data off < fuel"
    using assms by (cases off) (simp_all add: remaining_def)
  then show ?thesis using skipValue_fuel [OF assms] skipValue_no_overflow [OF assms(1)] by blast
qed



end
