(* ===== verification/PoolIndexer.thy ===== *)
theory PoolIndexer
  imports PoolSync Encoding
begin

text \<open>
  The pool indexer (\<open>infra/pool-indexer/src\<close>): the scanner that appends on-chain leaves to a
  key-value store and the read-only HTTP handler that serves them. The key-value store is a
  service: its operations are a record \<open>kv\<close> and what the code relies on is \<open>kv_laws\<close>
  (a read returns the last write; following the cursors of \<open>list\<close> enumerates the keys with
  the prefix). A store key under \<open>leaf/\<close> is written by \<open>appendLeaf\<close> only.
\<close>

section \<open>The key-value store\<close>

record page =
  page_names :: "string list"
  list_complete :: bool
  page_cursor :: "string option"

record 's kv =
  kv_get :: "'s \<Rightarrow> string \<Rightarrow> string option"
  kv_put :: "'s \<Rightarrow> string \<Rightarrow> string \<Rightarrow> 's"
  kv_list :: "'s \<Rightarrow> string \<Rightarrow> string option \<Rightarrow> page"

definition lastPage :: "page \<Rightarrow> bool" where
  "lastPage pg \<longleftrightarrow> list_complete pg \<or> page_cursor pg = None \<or> page_cursor pg = Some []"

fun pages :: "'s kv \<Rightarrow> 's \<Rightarrow> string \<Rightarrow> nat \<Rightarrow> string option \<Rightarrow> string list option" where
  "pages kv s prefix 0 cursor = None"
| "pages kv s prefix (Suc n) cursor =
     (let pg = kv_list kv s prefix cursor
      in if lastPage pg then Some (page_names pg)
         else map_option (\<lambda>rest. page_names pg @ rest) (pages kv s prefix n (page_cursor pg)))"

definition kv_laws :: "'s kv \<Rightarrow> bool" where
  "kv_laws kv \<longleftrightarrow>
     (\<forall>s k v k'. kv_get kv (kv_put kv s k v) k' = (if k' = k then Some v else kv_get kv s k')) \<and>
     (\<forall>s p. \<exists>n names. pages kv s p n None = Some names \<and> distinct names \<and>
        set names = {k. kv_get kv s k \<noteq> None \<and> startsWith k p})"

section \<open>Leaves\<close>

definition hexToFr :: "string \<Rightarrow> int result" where
  "hexToFr hex =
     (let s = (if startsWith hex ''0x'' \<or> startsWith hex ''0X'' then drop 2 hex else hex)
      in if \<not> (length s = 64 \<and> list_all is_hex s)
         then Inl (Error ''hexToFr: expected a 0x-prefixed 32-byte hex string'')
         else if int (ofStringBase 16 s) \<ge> FIELD_ORDER
         then Inl (Error ''hexToFr: value >= field order (non-canonical)'')
         else Inr (int (ofStringBase 16 s)))"

definition frToHex :: "int \<Rightarrow> string result" where
  "frToHex x =
     (if x < 0 \<or> x \<ge> FIELD_ORDER then Inl (Error ''frToHex: value out of canonical range'')
      else Inr (''0x'' @ padStart 64 CHR ''0'' (toStringBase 16 (nat x))))"

definition leafKey :: "nat \<Rightarrow> string" where
  "leafKey index = ''leaf/'' @ padStart 8 CHR ''0'' (showNat index)"

text \<open>\<open>Number\<close> on the rest of a key; \<open>None\<close> is \<open>NaN\<close>.\<close>

definition indexFromKey :: "string \<Rightarrow> nat option" where
  "indexFromKey key =
     (let s = drop (length ''leaf/'') key
      in if s = [] then Some 0 else if list_all is_digit s then Some (readNat s) else None)"

datatype append_result = Inserted | Duplicate | Conflict

definition appendLeaf :: "'s kv \<Rightarrow> 's \<Rightarrow> nat \<Rightarrow> string \<Rightarrow> 's \<times> append_result" where
  "appendLeaf kv env index leaf =
     (case kv_get kv env (leafKey index) of
        Some existing \<Rightarrow> (env, if existing = leaf then Duplicate else Conflict)
      | None \<Rightarrow> (kv_put kv env (leafKey index) leaf, Inserted))"

text \<open>One page of keys contributes the stored leaves with \<open>index >= from\<close>.\<close>

definition keyRecord :: "'s kv \<Rightarrow> 's \<Rightarrow> nat \<Rightarrow> string \<Rightarrow> (nat \<times> string) list" where
  "keyRecord kv env from name =
     (case indexFromKey name of
        None \<Rightarrow> []
      | Some index \<Rightarrow>
          if index \<ge> from then
            (case kv_get kv env name of None \<Rightarrow> [] | Some leaf \<Rightarrow> [(index, leaf)])
          else [])"

definition pageRecords :: "'s kv \<Rightarrow> 's \<Rightarrow> nat \<Rightarrow> string list \<Rightarrow> (nat \<times> string) list" where
  "pageRecords kv env from names = concat (map (keyRecord kv env from) names)"

fun listLoop ::
  "nat \<Rightarrow> 's kv \<Rightarrow> 's \<Rightarrow> nat \<Rightarrow> string option \<Rightarrow> (nat \<times> string) list \<Rightarrow> (nat \<times> string) list option" where
  "listLoop 0 kv env from cursor records = None"
| "listLoop (Suc n) kv env from cursor records =
     (let pg = kv_list kv env ''leaf/'' cursor;
          records' = records @ pageRecords kv env from (page_names pg)
      in if lastPage pg then Some records'
         else listLoop n kv env from (page_cursor pg) records')"

definition listLeavesFrom :: "nat \<Rightarrow> 's kv \<Rightarrow> 's \<Rightarrow> nat \<Rightarrow> (nat \<times> string) list option" where
  "listLeavesFrom fuel kv env from = map_option (sort_key fst) (listLoop fuel kv env from None [])"

section \<open>The HTTP handler\<close>

record http_request =
  http_method :: string
  hostname :: string
  pathname :: string
  query :: "(string \<times> string) list"
  request_body :: string

definition parseFrom :: "http_request \<Rightarrow> nat option" where
  "parseFrom url =
     (case map_of (query url) ''from'' of
        None \<Rightarrow> Some 0
      | Some raw \<Rightarrow>
          if \<not> all_digits raw then None
          else if readNat raw > 2 ^ 53 - 1 then None
          else Some (readNat raw))"

datatype pool_body =
    NoBody
  | Service string
  | ErrorBody string
  | LeavesBody "(nat \<times> string) list"
  | SnapshotBody string nat "(nat \<times> string) list"

type_synonym pool_response = "nat \<times> pool_body"

text \<open>\<open>None\<close>: out of fuel; \<open>Inl\<close>: the promise rejects.\<close>

definition handlePoolIndexer ::
  "nat \<Rightarrow> hash \<Rightarrow> 's kv \<Rightarrow> http_request \<Rightarrow> 's \<Rightarrow> pool_response result option" where
  "handlePoolIndexer fuel pos kv request env =
     (if http_method request = ''OPTIONS'' then Some (Inr (204, NoBody))
      else if http_method request = ''GET'' \<and> pathname request = ''/'' then
        Some (Inr (200, Service ''pool-indexer''))
      else if http_method request = ''GET'' \<and> pathname request = ''/leaves'' then
        (case parseFrom request of
           None \<Rightarrow> Some (Inr (400, ErrorBody ''invalid `from` cursor: must be a non-negative integer''))
         | Some from \<Rightarrow>
             map_option (\<lambda>ls. Inr (200, LeavesBody ls)) (listLeavesFrom fuel kv env from))
      else if http_method request = ''GET'' \<and> pathname request = ''/snapshot'' then
        map_option (\<lambda>ls.
          bindR (mapR (\<lambda>l. hexToFr (snd l)) ls) (\<lambda>frs.
          bindR (frToHex (indexer_rebuildRoot pos frs DEPTH)) (\<lambda>root.
            Inr (200, SnapshotBody root (length ls) ls))))
          (listLeavesFrom fuel kv env 0)
      else Some (Inr (404, ErrorBody ''not found'')))"

section \<open>The scanner\<close>

definition scanStep :: "'s kv \<Rightarrow> 's \<Rightarrow> nat \<times> string \<Rightarrow> 's" where
  "scanStep kv env ev = fst (appendLeaf kv env (fst ev) (snd ev))"

definition runScan :: "'s kv \<Rightarrow> 's \<Rightarrow> (nat \<times> string) list \<Rightarrow> 's \<times> (nat \<times> string) list" where
  "runScan kv env events =
     (let sorted = sort_key fst events in (foldl (scanStep kv) env sorted, sorted))"

text \<open>
  A contract event: its topics and value; \<open>toIndex\<close> and \<open>toLeaf\<close> stand for
  \<open>scValToNative\<close> on them.
\<close>

definition decodeEvents ::
  "('v \<Rightarrow> nat) \<Rightarrow> ('v \<Rightarrow> bytes option) \<Rightarrow> ('v list \<times> 'v) list \<Rightarrow> (nat \<times> string) list" where
  "decodeEvents toIndex toLeaf events =
     concat (map (\<lambda>(topic, value).
       if length topic < 2 then []
       else (case toLeaf value of
               None \<Rightarrow> []
             | Some leafBytes \<Rightarrow>
                 if length leafBytes \<noteq> 32 then []
                 else [(toIndex (topic ! 1), ''0x'' @ buf2hex leafBytes)])) events)"

text \<open>
  \<open>server cursor\<close> is one \<open>getEvents\<close> call of the RPC: the events and the next cursor. An
  empty string counts as no cursor.
\<close>

definition scheduledScan ::
  "string option \<Rightarrow> string option \<Rightarrow> 's kv \<Rightarrow> ('v \<Rightarrow> nat) \<Rightarrow> ('v \<Rightarrow> bytes option) \<Rightarrow>
   (string option \<Rightarrow> ('v list \<times> 'v) list \<times> string option) \<Rightarrow> 's \<Rightarrow> 's" where
  "scheduledScan poolContractId rpcUrl kv toIndex toLeaf server env =
     (if orElse poolContractId [] = [] \<or> orElse rpcUrl [] = [] then env
      else let cursor = kv_get kv env ''meta/rpcCursor'';
          (events, nextCursor) = server (if cursor = Some [] then None else cursor);
          env' = fst (runScan kv env (decodeEvents toIndex toLeaf events))
      in if nextCursor = None \<or> nextCursor = Some [] then env'
         else kv_put kv env' ''meta/rpcCursor'' (the nextCursor))"

section \<open>Keys and hexadecimal field elements\<close>

lemma readNat_leafKey: "readNat (drop 5 (leafKey i)) = i"
  by (simp add: leafKey_def)

lemma leafKey_inj [simp]: "leafKey i = leafKey j \<longleftrightarrow> i = j"
  using readNat_leafKey by metis

lemma digits_padStart: "list_all is_digit s \<Longrightarrow> list_all is_digit (padStart n CHR ''0'' s)"
  by (auto simp: padStart_def is_digit_def list_all_iff)

lemma indexFromKey_leafKey [simp]: "indexFromKey (leafKey i) = Some i"
proof -
  have d: "drop 5 (leafKey i) = padStart 8 CHR ''0'' (showNat i)" by (simp add: leafKey_def)
  have "padStart 8 CHR ''0'' (showNat i) \<noteq> []" by (simp add: padStart_def)
  moreover have "list_all is_digit (padStart 8 CHR ''0'' (showNat i))"
    by (rule digits_padStart [OF showNat_digits])
  moreover have "length ''leaf/'' = 5" by simp
  ultimately show ?thesis
    using readNat_leafKey [of i] unfolding indexFromKey_def Let_def by (simp only: d if_False if_True)
qed

lemma leafKey_prefix [simp]: "startsWith (leafKey i) ''leaf/''"
  by (simp add: leafKey_def startsWith_def)

lemma frToHex_eq: "frToHex x = Inr h \<longleftrightarrow> canonical x \<and> h = ''0x'' @ buf2hex (toBytesBE 32 x)"
proof -
  have "padStart 64 CHR ''0'' (toStringBase 16 (nat x)) = buf2hex (toBytesBE 32 x)" if "canonical x"
  proof -
    have "0 \<le> x" "x < FIELD_ORDER" using that by (simp_all add: canonical_def)
    then have "nat x < 256 ^ Suc 31" using FIELD_ORDER_bound by (simp add: nat_less_iff)
    from hex_of_bytes [OF this] show ?thesis using \<open>0 \<le> x\<close> by (simp del: toBytesBE.simps)
  qed
  then show ?thesis by (auto simp: frToHex_def canonical_def simp del: toBytesBE.simps)
qed

lemma hexToFr_bytes:
  "length b = 32 \<Longrightarrow> hexToFr (''0x'' @ buf2hex b) =
    (if bytesToBigIntBE b \<ge> FIELD_ORDER then Inl (Error ''hexToFr: value >= field order (non-canonical)'')
     else Inr (bytesToBigIntBE b))"
  by (simp add: hexToFr_def Let_def startsWith_def length_buf2hex buf2hex_hex ofStringBase_buf2hex)

interpretation fr_hex: codec frToHex hexToFr
proof unfold_locales
  fix x h assume "frToHex x = Inr h"
  then have x: "canonical x" "h = ''0x'' @ buf2hex (toBytesBE 32 x)" by (simp_all add: frToHex_eq)
  then have "bytesToBigIntBE (toBytesBE 32 x) = x"
    using toBytesBE_value [of x 32] FIELD_ORDER_bound by (simp add: canonical_def del: toBytesBE.simps)
  with x show "hexToFr h = Inr x"
    by (simp add: hexToFr_bytes canonical_def del: toBytesBE.simps append.simps)
qed

section \<open>Listing\<close>

lemma kv_get_put [simp]:
  "kv_laws kv \<Longrightarrow> kv_get kv (kv_put kv s k v) k' = (if k' = k then Some v else kv_get kv s k')"
  unfolding kv_laws_def by (drule conjunct1) blast

lemma pages_mono: "pages kv s p n c = Some names \<Longrightarrow> n \<le> m \<Longrightarrow> pages kv s p m c = Some names"
proof (induction n arbitrary: c m names)
  case (Suc n)
  then obtain m' where m: "m = Suc m'" "n \<le> m'" by (cases m) auto
  show ?case
    using Suc.prems(1) Suc.IH [OF _ m(2)] unfolding m(1) by (auto simp: Let_def split: if_splits)
qed simp

lemma pageRecords_append:
  "pageRecords kv s n (xs @ ys) = pageRecords kv s n xs @ pageRecords kv s n ys"
  by (simp add: pageRecords_def)

lemma listLoop_pages:
  "pages kv s ''leaf/'' n c = Some names \<Longrightarrow>
   listLoop n kv s from c acc = Some (acc @ pageRecords kv s from names)"
proof (induction n arbitrary: c names acc)
  case (Suc n)
  show ?case
  proof (cases "lastPage (kv_list kv s ''leaf/'' c)")
    case True
    with Suc.prems show ?thesis by (simp add: Let_def)
  next
    case False
    with Suc.prems obtain rest where
      "pages kv s ''leaf/'' n (page_cursor (kv_list kv s ''leaf/'' c)) = Some rest"
      "names = page_names (kv_list kv s ''leaf/'' c) @ rest"
      by (auto simp: Let_def)
    with False Suc.IH show ?thesis by (simp add: Let_def pageRecords_append)
  qed
qed simp

text \<open>A store whose keys under the prefix are leaf keys, and the leaves it holds.\<close>

definition leaf_store :: "'s kv \<Rightarrow> 's \<Rightarrow> bool" where
  "leaf_store kv s \<longleftrightarrow> (\<forall>k. kv_get kv s k \<noteq> None \<and> startsWith k ''leaf/'' \<longrightarrow> (\<exists>i. k = leafKey i))"

definition stored :: "'s kv \<Rightarrow> 's \<Rightarrow> (nat \<times> string) set" where
  "stored kv s = {(i, l). kv_get kv s (leafKey i) = Some l}"

lemma keyRecord_iff:
  "(i, l) \<in> set (keyRecord kv s n k) \<longleftrightarrow> indexFromKey k = Some i \<and> n \<le> i \<and> kv_get kv s k = Some l"
proof (cases "indexFromKey k")
  case None
  then show ?thesis by (simp add: keyRecord_def)
next
  case (Some j)
  then show ?thesis by (cases "kv_get kv s k"; cases "n \<le> j") (simp_all add: keyRecord_def, blast+)
qed

lemma pageRecords_iff:
  "(i, l) \<in> set (pageRecords kv s n names) \<longleftrightarrow>
     (\<exists>k \<in> set names. indexFromKey k = Some i \<and> n \<le> i \<and> kv_get kv s k = Some l)"
  by (simp add: pageRecords_def keyRecord_iff)

lemma leaf_storeD:
  "leaf_store kv s \<Longrightarrow> kv_get kv s k \<noteq> None \<Longrightarrow> startsWith k ''leaf/'' \<Longrightarrow> \<exists>i. k = leafKey i"
  unfolding leaf_store_def by blast

lemma pageRecords_set:
  assumes "leaf_store kv s" "set names = {k. kv_get kv s k \<noteq> None \<and> startsWith k ''leaf/''}"
  shows "set (pageRecords kv s n names) = {(i, l). (i, l) \<in> stored kv s \<and> n \<le> i}"
proof -
  have "(i, l) \<in> set (pageRecords kv s n names) \<longleftrightarrow> kv_get kv s (leafKey i) = Some l \<and> n \<le> i" for i l
  proof
    assume "(i, l) \<in> set (pageRecords kv s n names)"
    then obtain k where k: "k \<in> set names" "indexFromKey k = Some i" "n \<le> i" "kv_get kv s k = Some l"
      unfolding pageRecords_iff by blast
    then obtain j where "k = leafKey j" using assms(2) leaf_storeD [OF assms(1), of k] by blast
    with k show "kv_get kv s (leafKey i) = Some l \<and> n \<le> i" by simp
  next
    assume "kv_get kv s (leafKey i) = Some l \<and> n \<le> i"
    then have i: "kv_get kv s (leafKey i) = Some l" "n \<le> i" by simp_all
    then have "leafKey i \<in> set names" unfolding assms(2) by simp
    with i show "(i, l) \<in> set (pageRecords kv s n names)"
      unfolding pageRecords_iff by (intro bexI [of _ "leafKey i"]) simp_all
  qed
  then show ?thesis unfolding stored_def by auto
qed

lemma keyRecord_distinct: "distinct (map fst (keyRecord kv s n k))"
  by (cases "indexFromKey k"; cases "kv_get kv s k") (auto simp: keyRecord_def)

lemma pageRecords_distinct:
  assumes "leaf_store kv s" "distinct names" "set names \<subseteq> {k. kv_get kv s k \<noteq> None \<and> startsWith k ''leaf/''}"
  shows "distinct (map fst (pageRecords kv s n names))"
  using assms(2,3)
proof (induction names)
  case Nil
  then show ?case by (simp add: pageRecords_def)
next
  case (Cons k ks)
  have "fst ` set (keyRecord kv s n k) \<inter> fst ` set (pageRecords kv s n ks) = {}"
  proof (rule ccontr)
    assume "fst ` set (keyRecord kv s n k) \<inter> fst ` set (pageRecords kv s n ks) \<noteq> {}"
    then obtain i l l' where "(i, l) \<in> set (keyRecord kv s n k)" "(i, l') \<in> set (pageRecords kv s n ks)"
      by fastforce
    then obtain k' where k': "indexFromKey k = Some i" "k' \<in> set ks" "indexFromKey k' = Some i"
      unfolding pageRecords_iff keyRecord_iff by blast
    obtain j j' where "k = leafKey j" "k' = leafKey j'"
      using Cons.prems(2) k'(2) leaf_storeD [OF assms(1), of k] leaf_storeD [OF assms(1), of k'] by auto
    with k' Cons.prems(1) show False by simp
  qed
  moreover have "distinct (map fst (pageRecords kv s n ks))" using Cons by simp
  ultimately show ?case using keyRecord_distinct [of kv s n k] by (simp add: pageRecords_def)
qed

lemma listLeaves_correct:
  assumes "kv_laws kv" "leaf_store kv s"
  shows "\<exists>fuel0. \<forall>fuel \<ge> fuel0. \<exists>ls. listLeavesFrom fuel kv s n = Some ls \<and>
    sorted (map fst ls) \<and> distinct (map fst ls) \<and> set ls = {(i, l). (i, l) \<in> stored kv s \<and> n \<le> i}"
proof -
  obtain f names where p: "pages kv s ''leaf/'' f None = Some names" and d: "distinct names"
    and n: "set names = {k. kv_get kv s k \<noteq> None \<and> startsWith k ''leaf/''}"
    using assms(1) unfolding kv_laws_def by meson
  let ?ls = "sort_key fst (pageRecords kv s n names)"
  have "distinct (map fst (pageRecords kv s n names))"
    using n by (intro pageRecords_distinct [OF assms(2) d]) simp
  then have "distinct (map fst ?ls)" by (simp only: distinct_map distinct_sort set_sort)
  moreover have "listLeavesFrom fuel kv s n = Some ?ls" if "f \<le> fuel" for "fuel"
    using listLoop_pages [OF pages_mono [OF p that]] by (simp add: listLeavesFrom_def)
  ultimately show ?thesis
    using pageRecords_set [OF assms(2) n] by (intro exI [of _ f]) auto
qed

section \<open>Appending\<close>

lemma scanStep_get:
  "kv_laws kv \<Longrightarrow> kv_get kv (scanStep kv s ev) k =
    (if k = leafKey (fst ev) \<and> kv_get kv s k = None then Some (snd ev) else kv_get kv s k)"
  by (auto simp: scanStep_def appendLeaf_def split: option.split)

text \<open>A key that has a value keeps it through every scan.\<close>

lemma scan_preserved: "kv_laws kv \<Longrightarrow> preserved (scanStep kv) (\<lambda>s. kv_get kv s k = Some v)"
  by unfold_locales (simp add: scanStep_get)

lemma scan_keeps: "kv_laws kv \<Longrightarrow> kv_get kv s k = Some v \<Longrightarrow> kv_get kv (foldl (scanStep kv) s evs) k = Some v"
  by (rule preserved.run_inv [OF scan_preserved])

lemma scan_fresh:
  assumes "kv_laws kv"
  shows "kv_get kv s k = None \<Longrightarrow>
    kv_get kv (foldl (scanStep kv) s evs) k =
      (case filter (\<lambda>ev. leafKey (fst ev) = k) evs of [] \<Rightarrow> None | ev # _ \<Rightarrow> Some (snd ev))"
proof (induction evs arbitrary: s)
  case (Cons ev evs)
  then show ?case
    using scan_keeps [OF assms, of "scanStep kv s ev" k "snd ev"]
    by (auto simp: scanStep_get [OF assms])
qed simp

lemma sorted_graph_unique:
  fixes ls :: "(nat \<times> 'a) list"
  assumes "sorted (map fst ls)" "distinct (map fst ls)" "set ls = {(i, f i) | i. i < n}"
  shows "ls = map (\<lambda>i. (i, f i)) [0..<n]"
proof -
  have "set (map fst ls) = {0..<n}" using assms(3) by (auto simp: image_iff)
  then have m: "map fst ls = [0..<n]"
    using assms(1,2) by (intro sorted_distinct_set_unique) simp_all
  have "ls = map (\<lambda>i. (i, f i)) (map fst ls)"
    unfolding map_map using assms(3) by (intro map_idI [symmetric]) auto
  then show ?thesis unfolding m .
qed

lemma snapshot_leaves:
  assumes "length b = 32" "bytesToFieldCanonical b = Inr x"
  shows "hexToFr (''0x'' @ buf2hex b) = Inr x"
  using assms by (auto simp: hexToFr_bytes bytesToFieldCanonical_Inr simp del: append.simps)

lemma in_set_not_Nil: "x \<in> set xs \<Longrightarrow> xs \<noteq> []"
  by auto

section \<open>A store of one page\<close>

text \<open>An association list is a store; it is used to evaluate the model.\<close>

definition alist_kv :: "(string \<times> string) list kv" where
  "alist_kv = \<lparr>kv_get = map_of, kv_put = (\<lambda>s k v. (k, v) # s),
     kv_list = (\<lambda>s p c. \<lparr>page_names = remdups (filter (\<lambda>k. startsWith k p) (map fst s)),
       list_complete = True, page_cursor = None\<rparr>)\<rparr>"

lemma alist_kv_laws: "kv_laws alist_kv"
proof -
  have "pages alist_kv s p 1 None = Some (remdups (filter (\<lambda>k. startsWith k p) (map fst s)))" for s p
    by (simp add: alist_kv_def lastPage_def Let_def)
  moreover have "set (remdups (filter (\<lambda>k. startsWith k p) (map fst s))) =
      {k. kv_get alist_kv s k \<noteq> None \<and> startsWith k p}" for s p
    by (auto simp: alist_kv_def map_of_eq_None_iff)
  moreover have "distinct (remdups (filter (\<lambda>k. startsWith k p) (map fst s)))"
    for s :: "(string \<times> string) list" and p by (rule distinct_remdups)
  ultimately show ?thesis
    unfolding kv_laws_def by (auto simp: alist_kv_def intro!: exI [of _ 1])
qed

section \<open>Properties\<close>

text \<open>
  The scanner only appends: a scan of any events, in any order, keeps every leaf that is
  stored, stores for each new index one of the values the events carry for it, and touches no
  other key.
\<close>

theorem scan_append_only:
  assumes "kv_laws kv" "runScan kv s events = (s', evs')"
  shows "(\<forall>i l. kv_get kv s (leafKey i) = Some l \<longrightarrow> kv_get kv s' (leafKey i) = Some l) \<and>
    (\<forall>(i, l) \<in> set events. kv_get kv s (leafKey i) = None \<longrightarrow>
       (\<exists>l'. kv_get kv s' (leafKey i) = Some l' \<and> (i, l') \<in> set events)) \<and>
    (\<forall>k. k \<notin> leafKey ` fst ` set events \<longrightarrow> kv_get kv s' k = kv_get kv s k)"
proof -
  let ?evs = "sort_key fst events"
  have s': "s' = foldl (scanStep kv) s ?evs" using assms(2) by (auto simp: runScan_def Let_def)
  have a: "kv_get kv s' k = Some v" if "kv_get kv s k = Some v" for k v
    unfolding s' using assms(1) that by (rule scan_keeps)
  have b: "\<exists>l'. kv_get kv s' (leafKey i) = Some l' \<and> (i, l') \<in> set events"
    if ev: "(i, l) \<in> set events" and none: "kv_get kv s (leafKey i) = None" for i l
  proof -
    have mem: "(i, l) \<in> set (filter (\<lambda>ev. leafKey (fst ev) = leafKey i) ?evs)" using ev by simp
    then have "filter (\<lambda>ev. leafKey (fst ev) = leafKey i) ?evs \<noteq> []" by (rule in_set_not_Nil)
    then obtain e es where f: "filter (\<lambda>ev. leafKey (fst ev) = leafKey i) ?evs = e # es"
      unfolding neq_Nil_conv by blast
    have "e \<in> set (filter (\<lambda>ev. leafKey (fst ev) = leafKey i) ?evs)" unfolding f by simp
    then have "e \<in> set events" "fst e = i" by simp_all
    moreover have "kv_get kv s' (leafKey i) = Some (snd e)"
      unfolding s' scan_fresh [OF assms(1) none] f by simp
    ultimately show ?thesis by (metis prod.collapse)
  qed
  have c: "kv_get kv s' k = kv_get kv s k" if "k \<notin> leafKey ` fst ` set events" for k
  proof (cases "kv_get kv s k")
    case None
    have "filter (\<lambda>ev. leafKey (fst ev) = k) ?evs = []"
      using that by (auto simp: filter_empty_conv)
    then show ?thesis unfolding s' scan_fresh [OF assms(1) None] using None by simp
  next
    case (Some v)
    then show ?thesis using a by simp
  qed
  from a b c show ?thesis by blast
qed

theorem scan_append_only_witness:
  "\<exists>s' evs'. runScan alist_kv [(leafKey 0, ''a'')] [(1, ''b''), (0, ''x''), (1, ''c'')] = (s', evs') \<and>
    kv_get alist_kv s' (leafKey 0) = Some ''a'' \<and>
    (\<exists>l'. kv_get alist_kv s' (leafKey 1) = Some l' \<and> (1, l') \<in> {(1, ''b''), (0, ''x''), (1, ''c'')})"
proof -
  let ?s = "[(leafKey 0, ''a'')]" and ?evs = "[(1, ''b''), (0, ''x''), (1, ''c'')]"
  obtain s' evs' where r: "runScan alist_kv ?s ?evs = (s', evs')" by fastforce
  have n: "kv_get alist_kv ?s (leafKey 0) = Some ''a''" "kv_get alist_kv ?s (leafKey 1) = None"
    by (simp_all add: alist_kv_def)
  have m: "(1, ''b'') \<in> set ?evs" by simp
  note c = scan_append_only [OF alist_kv_laws r]
  from c n(1) have "kv_get alist_kv s' (leafKey 0) = Some ''a''" by blast
  moreover from c n(2) m have "\<exists>l'. kv_get alist_kv s' (leafKey 1) = Some l' \<and> (1, l') \<in> set ?evs"
    by fastforce
  ultimately show ?thesis using r by auto
qed

text \<open>
  \<open>GET /leaves?from=n\<close> answers, for all but finitely many amounts of fuel, with the stored
  leaves from index \<open>n\<close> on, each once, in ascending order, however the store pages its keys.
\<close>

theorem leaves_served_exactly:
  assumes "kv_laws kv" "leaf_store kv s"
    and "http_method req = ''GET''" "pathname req = ''/leaves''" "parseFrom req = Some n"
  shows "\<exists>fuel0. \<forall>fuel \<ge> fuel0. \<exists>ls.
    handlePoolIndexer fuel pos kv req s = Some (Inr (200, LeavesBody ls)) \<and>
    sorted (map fst ls) \<and> distinct (map fst ls) \<and>
    set ls = {(i, l). kv_get kv s (leafKey i) = Some l \<and> n \<le> i}"
  using listLeaves_correct [OF assms(1,2), of n] assms(3-5)
  by (fastforce simp: handlePoolIndexer_def stored_def)

theorem leaves_served_exactly_witness:
  "\<exists>fuel0. \<forall>fuel \<ge> fuel0. \<exists>ls.
    handlePoolIndexer fuel sum_list alist_kv
      \<lparr>http_method = ''GET'', hostname = ''h'', pathname = ''/leaves'', query = [(''from'', ''1'')], request_body = []\<rparr>
      [(leafKey 1, ''b''), (leafKey 0, ''a'')] = Some (Inr (200, LeavesBody ls)) \<and>
    sorted (map fst ls) \<and> distinct (map fst ls) \<and>
    set ls = {(i, l). kv_get alist_kv [(leafKey 1, ''b''), (leafKey 0, ''a'')] (leafKey i) = Some l \<and> 1 \<le> i}"
  by (rule leaves_served_exactly [OF alist_kv_laws])
     (auto simp: leaf_store_def alist_kv_def parseFrom_def all_digits_def is_digit_def
        ofStringBase_def digitVal_def split: if_splits)

text \<open>
  C37. The root the indexer publishes for a contiguous store of canonical leaves is the root a
  client rebuilds from them, and decodes to it.
\<close>

theorem snapshot_root_is_clients_root:
  assumes "canonical_hash pos" "kv_laws kv" "leaf_store kv s" "length bs \<le> 2 ^ DEPTH"
    and "mapR bytesToFieldCanonical bs = Inr xs"
    and "\<forall>i. kv_get kv s (leafKey i) = (if i < length bs then Some (''0x'' @ buf2hex (bs ! i)) else None)"
    and "http_method req = ''GET''" "pathname req = ''/snapshot''"
  shows "\<exists>fuel0 root hex. rebuildRoot pos (indexed bs) = Inr root \<and> hexToFr hex = Inr root \<and>
    (\<forall>fuel \<ge> fuel0. \<exists>ls.
       handlePoolIndexer fuel pos kv req s = Some (Inr (200, SnapshotBody hex (length bs) ls)))"
proof -
  define f where "f i = ''0x'' @ buf2hex (bs ! i)" for i
  note len = mapR_length [OF assms(5)]
  have can: "list_all canonical xs"
    unfolding list_all_length
    using len mapR_nth [OF assms(5)] bytesToFieldCanonical_canonical by metis
  let ?root = "node pos xs DEPTH 0"
  have client: "rebuildRoot pos (indexed bs) = Inr ?root"
    using mergeLeaves_complete [of "[]" "indexed bs" bs] assms(5) by (simp add: rebuildRoot_eq tree_root_eq)
  have served: "indexer_rebuildRoot pos xs DEPTH = ?root"
    using merkle_indexer [of xs pos] assms(4) len by (simp add: tree_root_eq)
  obtain hex where hex: "frToHex ?root = Inr hex"
    using node_canonical [OF assms(1) can, of DEPTH 0] frToHex_eq by blast
  have st: "{(i, l). (i, l) \<in> stored kv s \<and> 0 \<le> i} = {(i, f i) | i. i < length bs}"
    using assms(6) by (auto simp: stored_def f_def split: if_splits)
  have xs: "mapR (\<lambda>l. hexToFr (snd l)) (map (\<lambda>i. (i, f i)) [0..<length bs]) = Inr xs"
    unfolding mapR_Inr_iff
  proof (rule list_all2_all_nthI)
    fix i assume i: "i < length (map (\<lambda>i. (i, f i)) [0..<length bs])"
    then have "bytesToFieldCanonical (bs ! i) = Inr (xs ! i)" using mapR_nth [OF assms(5)] by simp
    moreover from this have "length (bs ! i) = 32" by (simp add: bytesToFieldCanonical_Inr)
    ultimately show "hexToFr (snd (map (\<lambda>i. (i, f i)) [0..<length bs] ! i)) = Inr (xs ! i)"
      using i snapshot_leaves unfolding f_def by (simp only: length_map nth_map snd_conv) simp
  qed (simp add: len)
  obtain fuel0 where f0: "\<And>fuel. fuel0 \<le> fuel \<Longrightarrow> \<exists>ls. listLeavesFrom fuel kv s 0 = Some ls \<and>
    sorted (map fst ls) \<and> distinct (map fst ls) \<and> set ls = {(i, f i) | i. i < length bs}"
    using listLeaves_correct [OF assms(2,3), of 0] unfolding st by blast
  have "\<exists>ls. handlePoolIndexer fuel pos kv req s = Some (Inr (200, SnapshotBody hex (length bs) ls))"
    if "fuel0 \<le> fuel" for "fuel"
  proof -
    from f0 [OF that] obtain ls where ls: "listLeavesFrom fuel kv s 0 = Some ls"
      and l: "sorted (map fst ls)" "distinct (map fst ls)" "set ls = {(i, f i) | i. i < length bs}" by blast
    note eq = sorted_graph_unique [OF l]
    have "mapR (\<lambda>l. hexToFr (snd l)) ls = Inr xs" "length ls = length bs" using xs unfolding eq by simp_all
    with ls hex served assms(7,8) show ?thesis by (simp add: handlePoolIndexer_def)
  qed
  then show ?thesis using client fr_hex.dec_enc [OF hex] by blast
qed

theorem snapshot_root_is_clients_root_witness:
  "\<exists>fuel0 root hex. rebuildRoot (\<lambda>xs. 3) (indexed [replicate 32 1]) = Inr root \<and> hexToFr hex = Inr root \<and>
    (\<forall>fuel \<ge> fuel0. \<exists>ls.
       handlePoolIndexer fuel (\<lambda>xs. 3) alist_kv
         \<lparr>http_method = ''GET'', hostname = ''h'', pathname = ''/snapshot'', query = [], request_body = []\<rparr>
         [(leafKey 0, ''0x'' @ buf2hex (replicate 32 1))] =
       Some (Inr (200, SnapshotBody hex (length [replicate 32 (1 :: byte)]) ls)))"
proof (rule snapshot_root_is_clients_root [OF _ alist_kv_laws])
  show "mapR bytesToFieldCanonical [replicate 32 1] =
    Inr [454086624460063511464984254936031011189294057512315937409637584344757371137]"
    by code_simp
qed (auto simp: canonical_hash_def canonical_def FIELD_ORDER_val leaf_store_def alist_kv_def DEPTH_def
      split: if_splits)

end
