(* ===== verification/Relay.thy ===== *)
theory Relay
  imports PoolIndexer
begin

text \<open>
  Two services beside the wallet: the mailbox for recovery signatures
  (\<open>infra/recovery-relay/src/handler.ts\<close>) and the gate in front of the fee-paying relayer
  (\<open>infra/relayer/plugins/channels\<close>). The mailbox's store is a \<open>kv\<close> service; its expiry of
  entries after 24 hours is not modelled. The XDR decoders of the gate are parameters.
\<close>

section \<open>The signature mailbox\<close>

definition word_char :: "char \<Rightarrow> bool" where
  "word_char c \<longleftrightarrow> is_lower c \<or> is_upper c \<or> is_digit c \<or> c = CHR ''_'' \<or> c = CHR ''-''"

definition BUCKET_RE :: "string \<Rightarrow> bool" where
  "BUCKET_RE s \<longleftrightarrow> 16 \<le> length s \<and> length s \<le> 128 \<and> list_all word_char s"

definition FRIEND_RE :: "string \<Rightarrow> bool" where
  "FRIEND_RE s \<longleftrightarrow> length s = 56 \<and> hd s = CHR ''C'' \<and> list_all is_base32 (tl s)"

definition MAX_BLOB :: nat where
  "MAX_BLOB = 64 * 1024"

datatype relay_body =
    RelayEmpty
  | RelayService string
  | RelayError string
  | Signed "(string \<times> string) list"

type_synonym relay_response = "nat \<times> relay_body"

definition validBucket :: "http_request \<Rightarrow> string option" where
  "validBucket req =
     (case map_of (query req) ''bucket'' of
        None \<Rightarrow> None
      | Some bucket \<Rightarrow> if BUCKET_RE bucket then Some bucket else None)"

definition sigKey :: "string \<Rightarrow> string \<Rightarrow> string" where
  "sigKey bucket friend = bucket @ '':'' @ friend"

definition handleRelay :: "'s kv \<Rightarrow> http_request \<Rightarrow> 's \<Rightarrow> 's \<times> relay_response" where
  "handleRelay kv request env =
     (if http_method request = ''OPTIONS'' then (env, 204, RelayEmpty)
      else if http_method request = ''GET'' \<and> pathname request = ''/'' then
        (env, 200, RelayService ''recovery-relay'')
      else if http_method request = ''PUT'' \<and> startsWith (pathname request) ''/sig/'' then
        (let friend = drop (length ''/sig/'') (pathname request)
         in case validBucket request of
              None \<Rightarrow> (env, 400, RelayError ''missing or invalid bucket'')
            | Some bucket \<Rightarrow>
                if \<not> FRIEND_RE friend then (env, 400, RelayError ''invalid friend address'')
                else if length (utf8 (request_body request)) > MAX_BLOB
                then (env, 413, RelayError ''payload too large'')
                else (kv_put kv env (sigKey bucket friend) (request_body request), 204, RelayEmpty))
      else if http_method request = ''GET'' \<and> pathname request = ''/sig'' then
        (case validBucket request of
           None \<Rightarrow> (env, 400, RelayError ''missing or invalid bucket'')
         | Some bucket \<Rightarrow>
             let prefix = bucket @ '':'';
                 keys = page_names (kv_list kv env prefix None)
             in (env, 200, Signed (concat (map (\<lambda>name.
                  (case kv_get kv env name of
                     None \<Rightarrow> []
                   | Some blob \<Rightarrow> [(drop (length prefix) name, blob)])) keys))))
      else (env, 404, RelayError ''not found''))"

section \<open>The allowlist in front of the relayer\<close>

definition ALLOWED_FUNCTIONS :: "string set" where
  "ALLOWED_FUNCTIONS =
     {''create_account'', ''create_account_v2'', ''insert_for'', ''initiate_recovery'',
      ''cancel_recovery'', ''burn_nullifier'', ''enroll_zk_recovery'',
      ''add_context_rule'', ''remove_context_rule'', ''add_signer'', ''remove_signer'', ''execute'',
      ''register''}"

text \<open>A decoded host function and a decoded transaction envelope, as far as the gate looks.\<close>

datatype host_function =
    InvokeContract string
  | CreateContract
  | UploadContractWasm
  | CreateContractV2

datatype operation_body = InvokeHostFunctionOp string | OtherOperation

datatype envelope =
    EnvelopeTx "operation_body list"
  | EnvelopeTxFeeBump "operation_body list"
  | EnvelopeOther

definition invokedFunctionName :: "(string \<Rightarrow> host_function option) \<Rightarrow> string \<Rightarrow> string option" where
  "invokedFunctionName decodeHost funcXdr =
     (case decodeHost funcXdr of Some (InvokeContract name) \<Rightarrow> Some name | _ \<Rightarrow> None)"

definition isAllowed :: "(string \<Rightarrow> host_function option) \<Rightarrow> string \<Rightarrow> bool" where
  "isAllowed decodeHost funcXdr =
     (case invokedFunctionName decodeHost funcXdr of
        None \<Rightarrow> False | Some name \<Rightarrow> name \<in> ALLOWED_FUNCTIONS)"

definition assertAllowedOrReject :: "(string \<Rightarrow> host_function option) \<Rightarrow> string \<Rightarrow> unit result" where
  "assertAllowedOrReject decodeHost funcXdr =
     (case invokedFunctionName decodeHost funcXdr of
        None \<Rightarrow> Inl (Error ''Relayer channels plugin: submitted host function is not an allowed contract invocation'')
      | Some name \<Rightarrow>
          if name \<in> ALLOWED_FUNCTIONS then Inr ()
          else Inl (Error ''Relayer channels plugin: function is not in the nido relayer allowlist''))"

definition extractFuncXdrFromTransactionXdr :: "(string \<Rightarrow> envelope option) \<Rightarrow> string \<Rightarrow> string option" where
  "extractFuncXdrFromTransactionXdr decodeEnvelope xdrBase64 =
     (let ops = (case decodeEnvelope xdrBase64 of
                   Some (EnvelopeTx ops) \<Rightarrow> Some ops
                 | Some (EnvelopeTxFeeBump ops) \<Rightarrow> Some ops
                 | _ \<Rightarrow> None)
      in case ops of
           Some [InvokeHostFunctionOp hostFunction] \<Rightarrow> Some hostFunction
         | _ \<Rightarrow> None)"

text \<open>The two request fields the gate reads, where they are strings.\<close>

record channel_params =
  p_func :: "string option"
  p_xdr :: "string option"

definition gateRequest ::
  "(string \<Rightarrow> host_function option) \<Rightarrow> (string \<Rightarrow> envelope option) \<Rightarrow> channel_params option \<Rightarrow> unit result" where
  "gateRequest decodeHost decodeEnvelope context =
     (case context of
        None \<Rightarrow> Inr ()
      | Some params \<Rightarrow>
          (case p_func params of
             Some func \<Rightarrow> assertAllowedOrReject decodeHost func
           | None \<Rightarrow>
               (case p_xdr params of
                  Some xdr \<Rightarrow>
                    (case extractFuncXdrFromTransactionXdr decodeEnvelope xdr of
                       None \<Rightarrow> Inr ()
                     | Some extracted \<Rightarrow> assertAllowedOrReject decodeHost extracted)
                | None \<Rightarrow> Inr ())))"

definition channels_handler ::
  "(string \<Rightarrow> host_function option) \<Rightarrow> (string \<Rightarrow> envelope option) \<Rightarrow>
   (channel_params option \<Rightarrow> 'r result) \<Rightarrow> channel_params option \<Rightarrow> 'r result" where
  "channels_handler decodeHost decodeEnvelope channelsHandler context =
     bindR (gateRequest decodeHost decodeEnvelope context) (\<lambda>_. channelsHandler context)"

section \<open>Facts\<close>

lemma bucket_no_colon: "BUCKET_RE b \<Longrightarrow> CHR '':'' \<notin> set b"
  by (auto simp: BUCKET_RE_def list_all_iff word_char_def is_lower_def is_upper_def is_digit_def)

lemma sigKey_prefix:
  assumes "BUCKET_RE a" "BUCKET_RE b"
  shows "startsWith (sigKey a f) (b @ '':'') \<longleftrightarrow> a = b"
proof
  assume "startsWith (sigKey a f) (b @ '':'')"
  then obtain t where "a @ CHR '':'' # f = b @ CHR '':'' # t"
    by (auto simp: sigKey_def startsWith_iff)
  then show "a = b"
    using split_on_append [OF bucket_no_colon [OF assms(1)], of f]
      split_on_append [OF bucket_no_colon [OF assms(2)], of t] by (metis list.inject)
qed (simp add: sigKey_def startsWith_iff)

lemma sigKey_inj:
  "BUCKET_RE a \<Longrightarrow> BUCKET_RE b \<Longrightarrow> sigKey a f = sigKey b g \<longleftrightarrow> a = b \<and> f = g"
  using sigKey_prefix [of a b f] by (auto simp: sigKey_def startsWith_iff)

text \<open>A store that only the handler has written.\<close>

definition mailbox :: "'s kv \<Rightarrow> 's \<Rightarrow> bool" where
  "mailbox kv s \<longleftrightarrow> (\<forall>k v. kv_get kv s k = Some v \<longrightarrow>
     (\<exists>b f. k = sigKey b f \<and> BUCKET_RE b \<and> FRIEND_RE f \<and> length (utf8 v) \<le> MAX_BLOB))"

lemma validBucket_BUCKET_RE: "validBucket req = Some b \<Longrightarrow> BUCKET_RE b"
  by (auto simp: validBucket_def split: option.splits if_splits)

lemma handleRelay_mailbox:
  assumes "kv_laws kv" "mailbox kv s"
  shows "mailbox kv (fst (handleRelay kv req s))"
proof -
  have put: "mailbox kv (kv_put kv s (sigKey b f) v)"
    if "BUCKET_RE b" "FRIEND_RE f" "length (utf8 v) \<le> MAX_BLOB" for b f v
    using assms that unfolding mailbox_def by (auto split: if_splits)
  show ?thesis
    using assms(2) put
    by (auto simp: handleRelay_def Let_def not_less dest: validBucket_BUCKET_RE split: option.split)
qed

text \<open>The requests of a session keep the store a mailbox.\<close>

lemma mailbox_preserved: "kv_laws kv \<Longrightarrow> preserved (\<lambda>s req. fst (handleRelay kv req s)) (mailbox kv)"
  by unfold_locales (rule handleRelay_mailbox)

text \<open>What a \<open>GET\<close> of a bucket lists when its keys fit on one page of the store.\<close>

definition one_page :: "'s kv \<Rightarrow> 's \<Rightarrow> string \<Rightarrow> bool" where
  "one_page kv s prefix \<longleftrightarrow> lastPage (kv_list kv s prefix None)"

lemma one_page_names:
  assumes "kv_laws kv" "one_page kv s p"
  shows "set (page_names (kv_list kv s p None)) = {k. kv_get kv s k \<noteq> None \<and> startsWith k p}"
proof -
  obtain n names where "pages kv s p n None = Some names"
    and names: "set names = {k. kv_get kv s k \<noteq> None \<and> startsWith k p}"
    using assms(1) unfolding kv_laws_def by meson
  then show ?thesis
    using assms(2) by (cases n) (auto simp: one_page_def Let_def)
qed

lemma get_bucket:
  assumes "kv_laws kv" "mailbox kv s" "one_page kv s (b @ '':'')" "validBucket req = Some b"
    and "http_method req = ''GET''" "pathname req = ''/sig''"
  shows "\<exists>ls. handleRelay kv req s = (s, 200, Signed ls) \<and>
    (\<forall>f blob. (f, blob) \<in> set ls \<longleftrightarrow> kv_get kv s (sigKey b f) = Some blob)"
proof -
  let ?names = "page_names (kv_list kv s (b @ '':'') None)"
  let ?ls = "concat (map (\<lambda>name. (case kv_get kv s name of None \<Rightarrow> []
    | Some blob \<Rightarrow> [(drop (length (b @ '':'')) name, blob)])) ?names)"
  note b = validBucket_BUCKET_RE [OF assms(4)]
  have "(f, blob) \<in> set ?ls \<longleftrightarrow> kv_get kv s (sigKey b f) = Some blob" for f blob
  proof
    assume "(f, blob) \<in> set ?ls"
    then obtain k where k: "k \<in> set ?names" "kv_get kv s k = Some blob" "f = drop (length (b @ '':'')) k"
      by (auto split: option.splits)
    then obtain a g where "k = sigKey a g" "BUCKET_RE a" using assms(2) unfolding mailbox_def by blast
    moreover from this have "a = b"
      using k(1) one_page_names [OF assms(1,3)] sigKey_prefix b by blast
    ultimately show "kv_get kv s (sigKey b f) = Some blob" using k by (simp add: sigKey_def)
  next
    assume "kv_get kv s (sigKey b f) = Some blob"
    moreover from this have "sigKey b f \<in> set ?names"
      using one_page_names [OF assms(1,3)] sigKey_prefix [OF b b, of f] by simp
    ultimately show "(f, blob) \<in> set ?ls"
      by (auto intro!: bexI [of _ "sigKey b f"] simp: sigKey_def)
  qed
  then show ?thesis using assms(4-6) by (simp add: handleRelay_def Let_def startsWith_def)
qed

lemma alist_one_page: "one_page alist_kv s p"
  by (simp add: one_page_def alist_kv_def lastPage_def)

text \<open>Bucket and friend of the examples, and requests for them.\<close>

definition sample_friend :: string where
  "sample_friend = CHR ''C'' # replicate 55 CHR ''A''"

definition put_request :: "string \<Rightarrow> string \<Rightarrow> string \<Rightarrow> http_request" where
  "put_request bucket friend blob = \<lparr>http_method = ''PUT'', hostname = ''relay'', pathname = ''/sig/'' @ friend,
     query = [(''bucket'', bucket)], request_body = blob\<rparr>"

definition get_request :: "string \<Rightarrow> http_request" where
  "get_request bucket = \<lparr>http_method = ''GET'', hostname = ''relay'', pathname = ''/sig'',
     query = [(''bucket'', bucket)], request_body = []\<rparr>"

lemma sample_valid:
  "FRIEND_RE sample_friend" "BUCKET_RE (replicate 16 CHR ''k'')" "BUCKET_RE (replicate 16 CHR ''j'')"
  by (simp_all add: FRIEND_RE_def BUCKET_RE_def sample_friend_def word_char_def is_base32_def is_upper_def
      is_lower_def list_all_iff)

lemma put_accepted:
  assumes "BUCKET_RE b" "FRIEND_RE f" "length (utf8 blob) \<le> MAX_BLOB"
  shows "handleRelay kv (put_request b f blob) s = (kv_put kv s (sigKey b f) blob, 204, RelayEmpty)"
    "validBucket (put_request b f blob) = Some b" "validBucket (get_request b) = Some b"
  using assms
  by (simp_all add: handleRelay_def put_request_def get_request_def validBucket_def startsWith_def Let_def)

lemma small_blob: "length s \<le> 100 \<Longrightarrow> length (utf8 s) \<le> MAX_BLOB"
proof -
  have "length (utf8 s) \<le> 2 * length s"
    by (induction s) (simp_all add: utf8_def)
  moreover assume "length s \<le> 100"
  ultimately show ?thesis by (simp add: MAX_BLOB_def)
qed

section \<open>Properties\<close>

text \<open>
  After any session of requests on an empty store, a \<open>GET\<close> of a bucket lists exactly the
  blobs stored for that bucket, each under a well-formed friend address and within the size
  limit, provided the bucket's keys fit on one page of the store.
\<close>

theorem relay_serves_bucket:
  assumes "kv_laws kv" "\<forall>k. kv_get kv s0 k = None"
    and "s = foldl (\<lambda>s req. fst (handleRelay kv req s)) s0 requests"
    and "one_page kv s (b @ '':'')" "validBucket req = Some b"
    and "http_method req = ''GET''" "pathname req = ''/sig''"
  shows "\<exists>ls. handleRelay kv req s = (s, 200, Signed ls) \<and>
    (\<forall>f blob. (f, blob) \<in> set ls \<longleftrightarrow> kv_get kv s (sigKey b f) = Some blob) \<and>
    (\<forall>(f, blob) \<in> set ls. FRIEND_RE f \<and> length (utf8 blob) \<le> MAX_BLOB)"
proof -
  have "mailbox kv s0" using assms(2) by (simp add: mailbox_def)
  then have mb: "mailbox kv s"
    unfolding assms(3) by (rule preserved.run_inv [OF mailbox_preserved [OF assms(1)]])
  obtain ls where ls: "handleRelay kv req s = (s, 200, Signed ls)"
    and iff: "\<And>f blob. (f, blob) \<in> set ls \<longleftrightarrow> kv_get kv s (sigKey b f) = Some blob"
    using get_bucket [OF assms(1) mb assms(4-7)] by blast
  have "FRIEND_RE f \<and> length (utf8 blob) \<le> MAX_BLOB" if "(f, blob) \<in> set ls" for f blob
  proof -
    from that have "kv_get kv s (sigKey b f) = Some blob" by (simp add: iff)
    then obtain a g where "sigKey b f = sigKey a g" "BUCKET_RE a" "FRIEND_RE g"
      and "length (utf8 blob) \<le> MAX_BLOB" using mb unfolding mailbox_def by blast
    then show ?thesis using sigKey_inj [OF validBucket_BUCKET_RE [OF assms(5)], of a f g] by simp
  qed
  with ls iff show ?thesis by blast
qed

theorem relay_serves_bucket_witness:
  "\<exists>ls. handleRelay alist_kv (get_request (replicate 16 CHR ''k''))
      (foldl (\<lambda>s req. fst (handleRelay alist_kv req s)) []
         [put_request (replicate 16 CHR ''k'') sample_friend ''sig'']) =
    (foldl (\<lambda>s req. fst (handleRelay alist_kv req s)) []
         [put_request (replicate 16 CHR ''k'') sample_friend ''sig''], 200, Signed ls) \<and>
    (sample_friend, ''sig'') \<in> set ls"
proof -
  let ?b = "replicate 16 CHR ''k''"
  let ?s = "foldl (\<lambda>s req. fst (handleRelay alist_kv req s)) [] [put_request ?b sample_friend ''sig'']"
  have put: "?s = kv_put alist_kv [] (sigKey ?b sample_friend) ''sig''"
    using put_accepted(1) [OF sample_valid(2,1) small_blob, of "''sig''" alist_kv "[]"] by simp
  have v: "validBucket (get_request ?b) = Some ?b"
    using put_accepted(3) [OF sample_valid(2,1) small_blob, of "[]"] by simp
  have g: "kv_get alist_kv ?s (sigKey ?b sample_friend) = Some ''sig''"
    unfolding put using alist_kv_laws by simp
  have e: "\<forall>k. kv_get alist_kv [] k = None" by (simp add: alist_kv_def)
  obtain ls where "handleRelay alist_kv (get_request ?b) ?s = (?s, 200, Signed ls)"
    and "\<forall>f blob. (f, blob) \<in> set ls \<longleftrightarrow> kv_get alist_kv ?s (sigKey ?b f) = Some blob"
    using relay_serves_bucket [OF alist_kv_laws e refl alist_one_page v, of "[put_request ?b sample_friend ''sig'']"]
    by (auto simp: get_request_def)
  with g show ?thesis by blast
qed

text \<open>
  Buckets are isolated: an accepted \<open>PUT\<close> replaces the sender's own blob in its own bucket
  and leaves what every other bucket lists unchanged.
\<close>

theorem relay_buckets_isolated:
  assumes "kv_laws kv" "mailbox kv s" "handleRelay kv put s = (s', 204, RelayEmpty)"
    and "http_method put = ''PUT''" "pathname put = ''/sig/'' @ f" "validBucket put = Some b"
    and "validBucket req = Some b'" "http_method req = ''GET''" "pathname req = ''/sig''"
    and "one_page kv s (b' @ '':'')" "one_page kv s' (b' @ '':'')"
  shows "\<exists>ls ls'. handleRelay kv req s = (s, 200, Signed ls) \<and>
    handleRelay kv req s' = (s', 200, Signed ls') \<and>
    set ls' = (if b' = b then insert (f, request_body put) {(g, x). (g, x) \<in> set ls \<and> g \<noteq> f} else set ls)"
proof -
  have s': "s' = kv_put kv s (sigKey b f) (request_body put)"
    using assms(3-6) by (auto simp: handleRelay_def startsWith_def split: if_splits)
  have mb': "mailbox kv s'" using handleRelay_mailbox [OF assms(1,2), of put] assms(3) by simp
  obtain ls where ls: "handleRelay kv req s = (s, 200, Signed ls)"
    and iff: "\<And>g x. (g, x) \<in> set ls \<longleftrightarrow> kv_get kv s (sigKey b' g) = Some x"
    using get_bucket [OF assms(1,2,10,7-9)] by blast
  obtain ls' where ls': "handleRelay kv req s' = (s', 200, Signed ls')"
    and iff': "\<And>g x. (g, x) \<in> set ls' \<longleftrightarrow> kv_get kv s' (sigKey b' g) = Some x"
    using get_bucket [OF assms(1) mb' assms(11,7-9)] by blast
  note bs = validBucket_BUCKET_RE [OF assms(6)] validBucket_BUCKET_RE [OF assms(7)]
  have "(g, x) \<in> set ls' \<longleftrightarrow>
    (g, x) \<in> (if b' = b then insert (f, request_body put) {(g, x). (g, x) \<in> set ls \<and> g \<noteq> f} else set ls)" for g x
    unfolding iff' s' kv_get_put [OF assms(1)] sigKey_inj [OF bs(2,1)] using iff by auto
  with ls ls' show ?thesis by (intro exI conjI) auto
qed

theorem relay_buckets_isolated_witness:
  "\<exists>ls ls'.
    handleRelay alist_kv (get_request (replicate 16 CHR ''k'')) [] = ([], 200, Signed ls) \<and>
    handleRelay alist_kv (get_request (replicate 16 CHR ''k''))
      [(sigKey (replicate 16 CHR ''j'') sample_friend, ''x'')] =
      ([(sigKey (replicate 16 CHR ''j'') sample_friend, ''x'')], 200, Signed ls') \<and>
    set ls' = set ls"
proof -
  let ?b = "replicate 16 CHR ''k''" and ?c = "replicate 16 CHR ''j''"
  let ?s = "[(sigKey ?c sample_friend, ''x'')]"
  have "handleRelay alist_kv (put_request ?c sample_friend ''x'') [] =
      (kv_put alist_kv [] (sigKey ?c sample_friend) ''x'', 204, RelayEmpty)"
    using put_accepted(1) [OF sample_valid(3,1) small_blob, of "''x''" alist_kv "[]"] by simp
  then have a: "handleRelay alist_kv (put_request ?c sample_friend ''x'') [] = (?s, 204, RelayEmpty)"
    by (simp add: alist_kv_def)
  have v: "validBucket (put_request ?c sample_friend ''x'') = Some ?c" "validBucket (get_request ?b) = Some ?b"
    using put_accepted(2) [OF sample_valid(3,1) small_blob, of "''x''"]
      put_accepted(3) [OF sample_valid(2,1) small_blob, of "[]"] by simp_all
  have m: "mailbox alist_kv []" by (simp add: mailbox_def alist_kv_def)
  have bc: "?b \<noteq> ?c" by simp
  have r: "http_method (put_request ?c sample_friend ''x'') = ''PUT''"
    "pathname (put_request ?c sample_friend ''x'') = ''/sig/'' @ sample_friend"
    "http_method (get_request ?b) = ''GET''" "pathname (get_request ?b) = ''/sig''"
    by (simp_all add: put_request_def get_request_def)
  from relay_buckets_isolated [OF alist_kv_laws m a r(1,2) v r(3,4) alist_one_page alist_one_page]
  show ?thesis unfolding if_not_P [OF bc] .
qed

text \<open>
  The host functions that the gate looks at: that of a request that carries one, and otherwise that
  of a full transaction, fee bump or not, whose single operation invokes one.
\<close>

definition gated :: "(string \<Rightarrow> envelope option) \<Rightarrow> channel_params option \<Rightarrow> string \<Rightarrow> bool" where
  "gated decodeEnvelope context f \<longleftrightarrow> (\<exists>ps. context = Some ps \<and>
     (p_func ps = Some f \<or>
      p_func ps = None \<and> (\<exists>x. p_xdr ps = Some x \<and>
        (decodeEnvelope x = Some (EnvelopeTx [InvokeHostFunctionOp f]) \<or>
         decodeEnvelope x = Some (EnvelopeTxFeeBump [InvokeHostFunctionOp f])))))"

definition on_allowlist :: "(string \<Rightarrow> host_function option) \<Rightarrow> string \<Rightarrow> bool" where
  "on_allowlist decodeHost f \<longleftrightarrow> (\<exists>name \<in> ALLOWED_FUNCTIONS. decodeHost f = Some (InvokeContract name))"

lemma assert_exact:
  "on_allowlist dh f \<Longrightarrow> assertAllowedOrReject dh f = Inr ()"
  "\<not> on_allowlist dh f \<Longrightarrow> \<exists>e. assertAllowedOrReject dh f = Inl (Error e)"
  "isAllowed dh f \<longleftrightarrow> on_allowlist dh f"
  by (auto simp: assertAllowedOrReject_def isAllowed_def on_allowlist_def invokedFunctionName_def
      split: option.split host_function.split)

lemma extract_exact:
  "extractFuncXdrFromTransactionXdr de x = Some f \<longleftrightarrow>
     de x = Some (EnvelopeTx [InvokeHostFunctionOp f]) \<or> de x = Some (EnvelopeTxFeeBump [InvokeHostFunctionOp f])"
  by (auto simp: extractFuncXdrFromTransactionXdr_def Let_def split: option.splits envelope.splits list.splits operation_body.splits)

lemma gate_gated: "gated de ctx f \<Longrightarrow> gateRequest dh de ctx = assertAllowedOrReject dh f"
  by (auto simp: gated_def gateRequest_def extract_exact [symmetric])

lemma gate_ungated: "\<nexists>f. gated de ctx f \<Longrightarrow> gateRequest dh de ctx = Inr ()"
  by (auto simp: gated_def gateRequest_def extract_exact [symmetric] split: option.split)

lemma single_op: "(\<forall>f. ops \<noteq> [InvokeHostFunctionOp f]) \<longleftrightarrow> length ops \<noteq> 1 \<or> ops = [OtherOperation]"
  by (cases ops; cases "hd ops") auto

lemma ungated_shapes:
  "(\<nexists>f. gated de ctx f) \<longleftrightarrow>
      (case ctx of None \<Rightarrow> True
       | Some ps \<Rightarrow> p_func ps = None \<and>
          (case p_xdr ps of None \<Rightarrow> True
           | Some x \<Rightarrow> (case de x of None \<Rightarrow> True | Some EnvelopeOther \<Rightarrow> True
               | Some (EnvelopeTx ops) \<Rightarrow> length ops \<noteq> 1 \<or> ops = [OtherOperation]
               | Some (EnvelopeTxFeeBump ops) \<Rightarrow> length ops \<noteq> 1 \<or> ops = [OtherOperation])))"
proof (cases ctx)
  case (Some ps)
  show ?thesis
  proof (cases "p_func ps")
    case None
    then have "gated de ctx f \<longleftrightarrow> (\<exists>x. p_xdr ps = Some x \<and>
        (de x = Some (EnvelopeTx [InvokeHostFunctionOp f]) \<or> de x = Some (EnvelopeTxFeeBump [InvokeHostFunctionOp f])))" for f
      by (simp add: gated_def Some)
    with None Some single_op show ?thesis by (simp split: option.split envelope.split)
  qed (simp add: gated_def Some)
qed (simp add: gated_def)

text \<open>
  C33. The gate in front of the relayer is exact: a request with a gated host function that is no
  invocation on the allowlist is answered with an error, whatever the upstream would do, and every
  other request is answered by the upstream. So of the gated requests exactly the allowlisted
  invocations pass. Not gated, and passed on, are the requests that carry neither a host function
  nor a transaction (a status query, management), and transactions that are undecodable, of
  another kind of envelope, with another number of operations than one, or with a single classic
  operation.
\<close>

theorem relayer_gate_exact:
  "(if \<exists>f. gated de ctx f \<and> \<not> on_allowlist dh f
    then \<exists>e. \<forall>upstream :: channel_params option \<Rightarrow> 'r result. channels_handler dh de upstream ctx = Inl (Error e)
    else \<forall>upstream :: channel_params option \<Rightarrow> 'r result. channels_handler dh de upstream ctx = upstream ctx) \<and>
   (isAllowed dh f \<longleftrightarrow> on_allowlist dh f) \<and>
   ((\<nexists>f. gated de ctx f) \<longleftrightarrow>
      (case ctx of None \<Rightarrow> True
       | Some ps \<Rightarrow> p_func ps = None \<and>
          (case p_xdr ps of None \<Rightarrow> True
           | Some x \<Rightarrow> (case de x of None \<Rightarrow> True | Some EnvelopeOther \<Rightarrow> True
               | Some (EnvelopeTx ops) \<Rightarrow> length ops \<noteq> 1 \<or> ops = [OtherOperation]
               | Some (EnvelopeTxFeeBump ops) \<Rightarrow> length ops \<noteq> 1 \<or> ops = [OtherOperation]))))"
proof (intro conjI)
  show "if \<exists>f. gated de ctx f \<and> \<not> on_allowlist dh f
    then \<exists>e. \<forall>upstream :: channel_params option \<Rightarrow> 'r result. channels_handler dh de upstream ctx = Inl (Error e)
    else \<forall>upstream :: channel_params option \<Rightarrow> 'r result. channels_handler dh de upstream ctx = upstream ctx"
  proof (cases "\<exists>f. gated de ctx f")
    case True
    then obtain g where g: "gated de ctx g" by blast
    have one: "h = g" if "gated de ctx h" for h using that g by (auto simp: gated_def)
    show ?thesis
    proof (cases "on_allowlist dh g")
      case True
      with assert_exact(1) [OF True] one gate_gated [OF g, of dh] show ?thesis by (auto simp: channels_handler_def)
    next
      case False
      with assert_exact(2) [OF False] g gate_gated [OF g, of dh] show ?thesis by (auto simp: channels_handler_def)
    qed
  qed (simp add: gate_ungated channels_handler_def)
  show "isAllowed dh f \<longleftrightarrow> on_allowlist dh f" by (rule assert_exact(3))
  show "(\<nexists>f. gated de ctx f) \<longleftrightarrow>
      (case ctx of None \<Rightarrow> True
       | Some ps \<Rightarrow> p_func ps = None \<and>
          (case p_xdr ps of None \<Rightarrow> True
           | Some x \<Rightarrow> (case de x of None \<Rightarrow> True | Some EnvelopeOther \<Rightarrow> True
               | Some (EnvelopeTx ops) \<Rightarrow> length ops \<noteq> 1 \<or> ops = [OtherOperation]
               | Some (EnvelopeTxFeeBump ops) \<Rightarrow> length ops \<noteq> 1 \<or> ops = [OtherOperation])))" by (rule ungated_shapes)
qed

theorem relayer_gate_exact_witness:
  "channels_handler (\<lambda>f. Some (InvokeContract f)) (\<lambda>x. Some (EnvelopeTx [InvokeHostFunctionOp x]))
     (\<lambda>_. Inr ()) (Some \<lparr>p_func = Some ''execute'', p_xdr = None\<rparr>) = Inr () \<and>
   (\<exists>e. channels_handler (\<lambda>f. Some (InvokeContract f)) (\<lambda>x. Some (EnvelopeTx [InvokeHostFunctionOp x]))
     (\<lambda>_. Inr ()) (Some \<lparr>p_func = None, p_xdr = Some ''add_policy''\<rparr>) = Inl (Error e)) \<and>
   channels_handler (\<lambda>f. Some (InvokeContract f)) (\<lambda>x. None)
     (\<lambda>_. Inr ()) (Some \<lparr>p_func = None, p_xdr = Some ''add_policy''\<rparr>) = Inr ()"
proof -
  have n: "\<not> on_allowlist (\<lambda>f. Some (InvokeContract f)) ''add_policy''" "on_allowlist (\<lambda>f. Some (InvokeContract f)) ''execute''"
    by (simp_all add: ALLOWED_FUNCTIONS_def on_allowlist_def)
  show ?thesis
    using relayer_gate_exact [of "\<lambda>x. Some (EnvelopeTx [InvokeHostFunctionOp x])" "Some \<lparr>p_func = Some ''execute'', p_xdr = None\<rparr>"
        "\<lambda>f. Some (InvokeContract f)" "[]", where ?'r = unit]
      relayer_gate_exact [of "\<lambda>x. Some (EnvelopeTx [InvokeHostFunctionOp x])" "Some \<lparr>p_func = None, p_xdr = Some ''add_policy''\<rparr>"
        "\<lambda>f. Some (InvokeContract f)" "[]", where ?'r = unit]
      relayer_gate_exact [of "\<lambda>x. None" "Some \<lparr>p_func = None, p_xdr = Some ''add_policy''\<rparr>"
        "\<lambda>f. Some (InvokeContract f)" "[]", where ?'r = unit] n
    by (auto simp: gated_def)
qed

end
