(* ===== verification/Money.thy ===== *)
theory Money
  imports JsString
begin

text \<open>
  Exact decimal amounts (\<open>frontend/src/lib/money.ts\<close>), the spending limit typed by the user
  (\<open>spendingLimitParams.ts\<close>) and its display in \<open>policyBlocks/scopedSessionKey.ts\<close>. A
  \<open>bigint\<close> is an \<open>int\<close>; the functions that go through floating point for display
  (\<open>formatXlm\<close>) are not modelled.
\<close>

section \<open>Definitions\<close>

definition STROOPS_PER_XLM :: int where
  "STROOPS_PER_XLM = 10000000"

definition rawToDecimal :: "int \<Rightarrow> int \<Rightarrow> string" where
  "rawToDecimal raw decimals =
     (let negative = raw < 0;
          a = (if negative then - raw else raw);
          sign = (if negative then ''-'' else [])
      in if decimals \<le> 0 then sign @ showNat (nat a)
         else let unit = 10 ^ nat decimals;
                  whole = a div unit;
                  frac = a mod unit
              in if frac = 0 then sign @ showNat (nat whole)
                 else let fracStr = stripTrailing CHR ''0'' (padStart (nat decimals) CHR ''0'' (showNat (nat frac)))
                      in sign @ showNat (nat whole) @ ''.'' @ fracStr)"

text \<open>\<open>replace(/\B(?=(\d{3})+(?!\d))/g, ",")\<close> on a string of digits.\<close>

fun groupRev :: "string \<Rightarrow> string" where
  "groupRev (a # b # c # d # ds) = a # b # c # CHR '','' # groupRev (d # ds)"
| "groupRev ds = ds"

definition groupDigits :: "string \<Rightarrow> string" where
  "groupDigits s = rev (groupRev (rev s))"

definition formatDecimal :: "string \<Rightarrow> nat \<Rightarrow> string" where
  "formatDecimal decimal maxFractionDigits =
     (let negative = startsWith decimal ''-'';
          parts = split_on CHR ''.'' (if negative then drop 1 decimal else decimal);
          whole = parts ! 0;
          fracRaw = (if 1 < length parts then parts ! 1 else [])
      in if \<not> all_digits whole \<or> fracRaw \<noteq> [] \<and> \<not> all_digits fracRaw then ''0''
         else let frac = stripTrailing CHR ''0'' (take maxFractionDigits fracRaw)
              in if whole = ''0'' \<and> frac = [] \<and> list_ex (\<lambda>c. is_digit c \<and> c \<noteq> CHR ''0'') fracRaw
                 then (if maxFractionDigits > 0
                       then ''<0.'' @ replicate (maxFractionDigits - 1) CHR ''0'' @ ''1'' else ''<1'')
                 else (if negative then ''-'' else []) @ groupDigits whole @
                      (if frac \<noteq> [] then ''.'' @ frac else []))"

definition stroopsToXlm :: "int \<Rightarrow> string" where
  "stroopsToXlm stroops = rawToDecimal stroops 7"

text \<open>\<open>^\d+(\.\d{1,d})?$\<close>, and \<open>^\d+$\<close> for \<open>d = 0\<close>.\<close>

definition decimalSyntax :: "nat \<Rightarrow> string \<Rightarrow> bool" where
  "decimalSyntax d s =
     (case split_on CHR ''.'' s of
        [whole] \<Rightarrow> all_digits whole
      | [whole, frac] \<Rightarrow> d > 0 \<and> all_digits whole \<and> all_digits frac \<and> length frac \<le> d
      | _ \<Rightarrow> False)"

text \<open>\<open>whole * 10^d + frac\<close> with the fraction padded to \<open>d\<close> digits.\<close>

definition decimalValue :: "nat \<Rightarrow> string \<Rightarrow> int" where
  "decimalValue d s =
     (let parts = split_on CHR ''.'' s;
          whole = parts ! 0;
          frac = (if 1 < length parts then parts ! 1 else []);
          fracPadded = padEnd d CHR ''0'' frac
      in int (readNat whole) * 10 ^ d + int (readNat fracPadded))"

definition xlmToStroops :: "string \<Rightarrow> int result" where
  "xlmToStroops amount =
     (if \<not> decimalSyntax 7 (trim amount) then Inl (Error ''Invalid XLM amount'')
      else Inr (decimalValue 7 (trim amount)))"

definition decimalToRaw :: "string \<Rightarrow> int \<Rightarrow> int result" where
  "decimalToRaw amount d =
     (if d < 0 then Inl (Error ''Invalid decimals'')
      else if \<not> decimalSyntax (nat d) (trim amount) then Inl (Error ''Invalid amount'')
      else Inr (decimalValue (nat d) (trim amount)))"

definition MAX_LIMIT_XLM :: int where
  "MAX_LIMIT_XLM = 9999999"

definition stroopsFromXlm :: "string \<Rightarrow> int result" where
  "stroopsFromXlm xlm =
     (case xlmToStroops xlm of
        Inl _ \<Rightarrow> Inl (Error ''Invalid limit amount'')
      | Inr stroops \<Rightarrow>
          if stroops \<le> 0 then Inl (Error ''Limit must be greater than zero.'')
          else if stroops > MAX_LIMIT_XLM * 10000000 then Inl (Error ''Limit must be at most'')
          else Inr stroops)"

definition stroopsToXlmString :: "int \<Rightarrow> string" where
  "stroopsToXlmString stroops =
     (let negative = stroops < 0;
          a = (if negative then - stroops else stroops);
          whole = a div STROOPS_PER_XLM;
          frac = a mod STROOPS_PER_XLM;
          sign = (if negative then ''-'' else [])
      in if frac = 0 then sign @ showNat (nat whole)
         else sign @ showNat (nat whole) @ ''.'' @
              stripTrailing CHR ''0'' (padStart 7 CHR ''0'' (showNat (nat frac))))"

definition PERIOD_LABELS :: "nat \<Rightarrow> string option" where
  "PERIOD_LABELS n = (if n = 17280 then Some ''per day'' else if n = 120960 then Some ''per week''
     else if n = 518400 then Some ''per 30 days'' else None)"

definition formatSpendingLimit :: "int \<Rightarrow> nat \<Rightarrow> string" where
  "formatSpendingLimit stroops periodLedgers =
     (let period = orElse (PERIOD_LABELS periodLedgers) (''per '' @ showNat periodLedgers @ '' ledgers'')
      in stroopsToXlmString stroops @ '' XLM '' @ period)"

section \<open>Facts\<close>

lemma stripTrailing_append: "\<exists>k. s = stripTrailing c s @ replicate k c"
proof -
  have "rev s = takeWhile (\<lambda>d. d = c) (rev s) @ dropWhile (\<lambda>d. d = c) (rev s)" by simp
  moreover have "takeWhile (\<lambda>d. d = c) (rev s) = replicate (length (takeWhile (\<lambda>d. d = c) (rev s))) c"
    by (rule replicate_length_same [symmetric]) (auto dest: set_takeWhileD)
  ultimately have "s = rev (dropWhile (\<lambda>d. d = c) (rev s)) @ replicate (length (takeWhile (\<lambda>d. d = c) (rev s))) c"
    by (metis rev_append rev_replicate rev_rev_ident)
  then show ?thesis unfolding stripTrailing_def by blast
qed

lemma stripTrailing_padEnd:
  "length s = d \<Longrightarrow> padEnd d c (stripTrailing c s) = s"
proof -
  assume "length s = d"
  moreover obtain k where "s = stripTrailing c s @ replicate k c" using stripTrailing_append by blast
  ultimately show ?thesis unfolding padEnd_def
    by (metis append_same_eq diff_add_inverse length_append length_replicate)
qed

lemma stripTrailing_set: "set (stripTrailing c s) \<subseteq> set s"
  by (auto simp: stripTrailing_def dest: set_dropWhileD)

lemma stripTrailing_length: "length (stripTrailing c s) \<le> length s"
  using length_dropWhile_le [of _ "rev s"] by (simp add: stripTrailing_def)

lemma digit_ranges:
  assumes "is_digit c"
  shows "\<not> is_space c" "c \<noteq> CHR ''.''" "c \<noteq> CHR ''-''" "c \<noteq> CHR '',''"
  using assms by (auto simp: is_digit_def is_space_def)

lemma trim_id: "(\<And>c. c \<in> set s \<Longrightarrow> \<not> is_space c) \<Longrightarrow> trim s = s"
  by (simp add: trim_def dropWhile_eq_self_iff [symmetric])
     (metis (no_types, lifting) dropWhile_eq_self_iff hd_in_set rev_is_Nil_conv rev_rev_ident set_rev)

lemma all_digits_set: "all_digits s \<Longrightarrow> c \<in> set s \<Longrightarrow> is_digit c"
  by (simp add: all_digits_def list_all_iff)

lemma digits_no_dot: "all_digits s \<Longrightarrow> CHR ''.'' \<notin> set s"
  using all_digits_set digit_ranges(2) by blast

text \<open>The text of an amount: digits, or digits with a fraction.\<close>

lemma decimal_whole:
  assumes "all_digits w"
  shows "decimalSyntax d w" "decimalValue d w = int (readNat w) * 10 ^ d" "trim w = w"
proof -
  have "split_on CHR ''.'' w = [w]" using split_on_no_sep [OF digits_no_dot [OF assms]] .
  then show "decimalSyntax d w" "decimalValue d w = int (readNat w) * 10 ^ d"
    using assms by (simp_all add: decimalSyntax_def decimalValue_def padEnd_def)
  show "trim w = w" using all_digits_set [OF assms] digit_ranges(1) by (intro trim_id) blast
qed

lemma decimal_frac:
  assumes "all_digits w" "all_digits f" "length f \<le> d"
  shows "decimalSyntax d (w @ ''.'' @ f)"
    "decimalValue d (w @ ''.'' @ f) = int (readNat w) * 10 ^ d + int (readNat (padEnd d CHR ''0'' f))"
    "trim (w @ ''.'' @ f) = w @ ''.'' @ f"
proof -
  have "0 < d" using assms(2,3) by (cases f) (auto simp: all_digits_def)
  moreover have "split_on CHR ''.'' (w @ ''.'' @ f) = [w, f]"
    using split_on_append [OF digits_no_dot [OF assms(1)], of f] split_on_no_sep [OF digits_no_dot [OF assms(2)]]
    by simp
  ultimately show "decimalSyntax d (w @ ''.'' @ f)"
    "decimalValue d (w @ ''.'' @ f) = int (readNat w) * 10 ^ d + int (readNat (padEnd d CHR ''0'' f))"
    using assms by (simp_all add: decimalSyntax_def decimalValue_def)
  have "\<not> is_space CHR ''.''" by (simp add: is_space_def)
  then show "trim (w @ ''.'' @ f) = w @ ''.'' @ f"
    using all_digits_set [OF assms(1)] all_digits_set [OF assms(2)] digit_ranges(1) by (intro trim_id) auto
qed

text \<open>The digits of a fraction \<open>0 < n < 10^d\<close>, with trailing zeros removed.\<close>

definition fracDigits :: "nat \<Rightarrow> nat \<Rightarrow> string" where
  "fracDigits d n = stripTrailing CHR ''0'' (padStart d CHR ''0'' (showNat n))"

lemma fracDigits:
  assumes "0 < d" "0 < n" "n < 10 ^ d"
  shows "all_digits (fracDigits d n)" "length (fracDigits d n) \<le> d"
    "padEnd d CHR ''0'' (fracDigits d n) = padStart d CHR ''0'' (showNat n)"
    "readNat (padEnd d CHR ''0'' (fracDigits d n)) = n"
proof -
  let ?p = "padStart d CHR ''0'' (showNat n)"
  have len: "length ?p = d"
    using length_toStringBase [of 10 d n] assms by (simp add: padStart_def)
  have dig: "list_all is_digit ?p"
    using showNat_digits [of n] by (auto simp: padStart_def is_digit_def list_all_iff)
  show pad: "padEnd d CHR ''0'' (fracDigits d n) = ?p"
    unfolding fracDigits_def by (rule stripTrailing_padEnd [OF len])
  then show v: "readNat (padEnd d CHR ''0'' (fracDigits d n)) = n" by simp
  show "length (fracDigits d n) \<le> d"
    using stripTrailing_length [of _ ?p] len by (simp add: fracDigits_def)
  have "fracDigits d n \<noteq> []"
  proof
    assume "fracDigits d n = []"
    then have "padEnd d CHR ''0'' (fracDigits d n) = replicate d CHR ''0''" by (simp add: padEnd_def)
    with v assms(2) show False by simp
  qed
  moreover have "list_all is_digit (fracDigits d n)"
    using dig stripTrailing_set [of "CHR ''0''" ?p] by (auto simp: fracDigits_def list_all_iff)
  ultimately show "all_digits (fracDigits d n)" by (simp add: all_digits_def)
qed

text \<open>The two shapes of a formatted amount.\<close>

lemma rawToDecimal_shape:
  assumes "0 \<le> raw"
  shows "rawToDecimal raw (int d) =
    (if raw mod 10 ^ d = 0 then showNat (nat raw div 10 ^ d)
     else showNat (nat raw div 10 ^ d) @ ''.'' @ fracDigits d (nat raw mod 10 ^ d))"
  using assms
  by (auto simp: rawToDecimal_def Let_def fracDigits_def nat_div_distrib nat_mod_distrib nat_power_eq)

lemma decimalToRaw_rawToDecimal:
  assumes "0 \<le> raw"
  shows "decimalToRaw (rawToDecimal raw (int d)) (int d) = Inr raw"
proof -
  let ?w = "nat raw div 10 ^ d" and ?f = "nat raw mod 10 ^ d"
  have raw: "raw = int (nat raw)" using assms by simp
  have "int ?w * int (10 ^ d) + int ?f = int (nat raw)"
    unfolding of_nat_mult [symmetric] of_nat_add [symmetric] div_mult_mod_eq ..
  then have sum: "int ?w * 10 ^ d + int ?f = raw" using raw by simp
  have "raw mod int (10 ^ d) = int ?f" by (subst raw) (simp only: zmod_int)
  then have zero: "raw mod 10 ^ d = 0 \<longleftrightarrow> ?f = 0" by simp
  show ?thesis
  proof (cases "?f = 0")
    case True
    then show ?thesis
      using sum zero decimal_whole(1,2) [where w = "showNat ?w" and d = d, OF all_digits_showNat]
        decimal_whole(3) [where w = "showNat ?w", OF all_digits_showNat]
      by (simp add: rawToDecimal_shape [OF assms] decimalToRaw_def)
  next
    case False
    then have "0 < d" by (cases d) simp_all
    with False have f: "0 < d" "0 < ?f" "?f < 10 ^ d" by simp_all
    show ?thesis
      using False sum zero decimal_frac [where w = "showNat ?w", OF all_digits_showNat fracDigits(1,2) [OF f]] fracDigits(4) [OF f]
      by (simp add: rawToDecimal_shape [OF assms] decimalToRaw_def del: append.simps append_Cons)
  qed
qed

lemma xlmToStroops_decimalToRaw:
  "xlmToStroops s = (case decimalToRaw s 7 of Inl _ \<Rightarrow> Inl (Error ''Invalid XLM amount'') | Inr v \<Rightarrow> Inr v)"
  by (simp add: xlmToStroops_def decimalToRaw_def)

lemma stroopsToXlmString_eq: "stroopsToXlmString s = rawToDecimal s 7"
  by (simp add: stroopsToXlmString_def rawToDecimal_def STROOPS_PER_XLM_def Let_def)

lemma decimalToRaw_value:
  assumes "decimalToRaw s (int d) = Inr v"
  shows "\<exists>w. all_digits w \<and> (trim s = w \<and> v = int (readNat w) * 10 ^ d \<or>
    (\<exists>f. trim s = w @ ''.'' @ f \<and> all_digits f \<and> length f \<le> d \<and>
       v = int (readNat w) * 10 ^ d + int (readNat f) * 10 ^ (d - length f)))"
proof -
  have syn: "decimalSyntax d (trim s)" and v: "v = decimalValue d (trim s)"
    using assms by (auto simp: decimalToRaw_def split: if_splits)
  have t: "trim s = join ''.'' (split_on CHR ''.'' (trim s))" by (rule join_split_on [symmetric])
  from syn consider w where "split_on CHR ''.'' (trim s) = [w]" "all_digits w"
    | w f where "split_on CHR ''.'' (trim s) = [w, f]" "all_digits w" "all_digits f" "length f \<le> d"
    by (auto simp: decimalSyntax_def split: list.splits)
  then show ?thesis
  proof cases
    case 1
    with t have "trim s = w" by simp
    with 1 v decimal_whole(2) show ?thesis by blast
  next
    case 2
    with t have ts: "trim s = w @ ''.'' @ f" by simp
    have "readNat (padEnd d CHR ''0'' f) = readNat f * 10 ^ (d - length f)"
      by (simp add: padEnd_def ofStringBase_append)
    with 2 v ts decimal_frac(2) [OF 2(2-4)] show ?thesis by (intro exI [of _ w]) auto
  qed
qed

lemma groupRev_ungroup: "CHR '','' \<notin> set s \<Longrightarrow> filter (\<lambda>c. c \<noteq> CHR '','') (groupRev s) = s"
proof (induction s rule: groupRev.induct)
  case (1 a b c d ds)
  then show ?case by auto
qed (auto simp: filter_id_conv)

lemma groupDigits_ungroup: "CHR '','' \<notin> set s \<Longrightarrow> filter (\<lambda>c. c \<noteq> CHR '','') (groupDigits s) = s"
  using groupRev_ungroup [of "rev s"] by (simp add: groupDigits_def rev_filter [symmetric])

lemma stripTrailing_idem: "stripTrailing c (stripTrailing c s) = stripTrailing c s"
  by (simp add: stripTrailing_def)

lemma digits_no_minus: "all_digits w \<Longrightarrow> \<not> startsWith (w @ t) ''-''"
proof (cases w)
  case (Cons c cs)
  moreover assume "all_digits w"
  ultimately have "c \<noteq> CHR ''-''" using all_digits_set digit_ranges(3) by auto
  with Cons show ?thesis by (simp add: startsWith_def)
qed (simp add: all_digits_def)

lemma digits_no_comma: "all_digits w \<Longrightarrow> CHR '','' \<notin> set w"
  using all_digits_set digit_ranges(4) by blast

lemma format_whole:
  assumes "all_digits w"
  shows "formatDecimal w m = groupDigits w"
proof -
  have neg: "startsWith w ''-'' = False" using digits_no_minus [OF assms, of "[]"] by simp
  have parts: "split_on CHR ''.'' w = [w]" by (rule split_on_no_sep [OF digits_no_dot [OF assms]])
  show ?thesis
    unfolding formatDecimal_def Let_def neg if_False parts
    using assms by (simp add: stripTrailing_def)
qed

lemma format_frac:
  assumes "all_digits w" "all_digits f" "length f \<le> m" "stripTrailing CHR ''0'' f = f"
  shows "formatDecimal (w @ ''.'' @ f) m = groupDigits w @ ''.'' @ f"
proof -
  have f: "f \<noteq> []" using assms(2) by (simp add: all_digits_def)
  have parts: "split_on CHR ''.'' (w @ ''.'' @ f) = [w, f]"
    using split_on_append [OF digits_no_dot [OF assms(1)], of f] split_on_no_sep [OF digits_no_dot [OF assms(2)]]
    by simp
  have neg: "startsWith (w @ ''.'' @ f) ''-'' = False"
    using digits_no_minus [OF assms(1), of "''.'' @ f"] by (simp only:)
  have "take m f = f" using assms(3) by simp
  then show ?thesis
    unfolding formatDecimal_def Let_def neg if_False parts
    using assms(1,2,4) f by (simp add: if_not_P)
qed

section \<open>Properties\<close>

text \<open>
  Amounts survive the text form: for every number of decimals, parsing the decimal text of
  a non-negative amount gives the amount back.
\<close>

theorem amount_round_trip:
  assumes "0 \<le> raw"
  shows "decimalToRaw (rawToDecimal raw (int d)) (int d) = Inr raw \<and>
    xlmToStroops (stroopsToXlm raw) = Inr raw"
  using decimalToRaw_rawToDecimal [OF assms, of d] decimalToRaw_rawToDecimal [OF assms, of 7]
  by (simp add: xlmToStroops_decimalToRaw stroopsToXlm_def)

theorem amount_round_trip_witness:
  "decimalToRaw (rawToDecimal 1203000 (int 5)) (int 5) = Inr 1203000 \<and>
   xlmToStroops (stroopsToXlm 1203000) = Inr 1203000"
  by (rule amount_round_trip) simp

text \<open>
  Parsing is exact and accepts plain decimals only: an accepted text is a string of digits,
  optionally with a point and at most \<open>d\<close> further digits, and its value is that decimal times
  ten to the \<open>d\<close>, with no rounding.
\<close>

theorem amount_parse_exact:
  assumes "decimalToRaw s (int d) = Inr v"
  shows "\<exists>w. all_digits w \<and> (trim s = w \<and> v = int (readNat w) * 10 ^ d \<or>
    (\<exists>f. trim s = w @ ''.'' @ f \<and> all_digits f \<and> length f \<le> d \<and>
       v = int (readNat w) * 10 ^ d + int (readNat f) * 10 ^ (d - length f)))"
  using assms by (rule decimalToRaw_value)

theorem amount_parse_exact_witness:
  "\<exists>w. all_digits w \<and> (trim '' 12.5'' = w \<and> 12500 = int (readNat w) * 10 ^ 3 \<or>
    (\<exists>f. trim '' 12.5'' = w @ ''.'' @ f \<and> all_digits f \<and> length f \<le> 3 \<and>
       12500 = int (readNat w) * 10 ^ 3 + int (readNat f) * 10 ^ (3 - length f)))"
  by (rule amount_parse_exact) code_simp

text \<open>
  C38. A spending limit that is accepted is positive, at most the cap and so far below the range
  of a signed 128-bit amount, and what the wallet displays for it reads back as the same limit.
\<close>

theorem spending_limit_bounds:
  assumes "stroopsFromXlm s = Inr v"
  shows "0 < v \<and> v \<le> MAX_LIMIT_XLM * 10000000 \<and> v < 2 ^ 127 \<and>
    stroopsFromXlm (stroopsToXlmString v) = Inr v"
proof -
  have b: "0 < v" "v \<le> MAX_LIMIT_XLM * 10000000"
    using assms by (auto simp: stroopsFromXlm_def split: sum.splits if_splits)
  then have "xlmToStroops (stroopsToXlmString v) = Inr v"
    using decimalToRaw_rawToDecimal [of v 7] by (simp add: xlmToStroops_decimalToRaw stroopsToXlmString_eq)
  with b show ?thesis by (simp add: stroopsFromXlm_def MAX_LIMIT_XLM_def)
qed

theorem spending_limit_bounds_witness:
  "0 < (100 :: int) \<and> 100 \<le> MAX_LIMIT_XLM * 10000000 \<and> (100 :: int) < 2 ^ 127 \<and>
   stroopsFromXlm (stroopsToXlmString 100) = Inr 100"
  by (rule spending_limit_bounds [of "''0.00001''"]) code_simp

text \<open>
  Grouping for display loses nothing: with the thousands separators removed, the displayed
  text of an amount is its decimal text, as long as the display allows the token's decimals.
\<close>

theorem display_is_exact:
  assumes "0 \<le> raw" "d \<le> digits"
  shows "filter (\<lambda>c. c \<noteq> CHR '','') (formatDecimal (rawToDecimal raw (int d)) digits) =
    rawToDecimal raw (int d)"
proof -
  let ?w = "showNat (nat raw div 10 ^ d)" and ?f = "nat raw mod 10 ^ d"
  have w: "filter (\<lambda>c. c \<noteq> CHR '','') (groupDigits ?w) = ?w"
    by (rule groupDigits_ungroup [OF digits_no_comma [OF all_digits_showNat]])
  have "rawToDecimal raw (int d) = ?w \<or>
    (0 < d \<and> 0 < ?f \<and> rawToDecimal raw (int d) = ?w @ ''.'' @ fracDigits d ?f)"
  proof (cases "raw mod 10 ^ d = 0")
    case False
    have "raw mod int (10 ^ d) = int ?f" using assms(1) by (subst nat_0_le [symmetric], simp, simp only: zmod_int)
    with False have "?f \<noteq> 0" by auto
    moreover from this have "0 < d" by (cases d) simp_all
    ultimately show ?thesis using False rawToDecimal_shape [OF assms(1), of d] by simp
  qed (simp add: rawToDecimal_shape assms(1))
  then show ?thesis
  proof (elim disjE conjE)
    assume "rawToDecimal raw (int d) = ?w"
    then show ?thesis using w format_whole [OF all_digits_showNat] by simp
  next
    assume f: "0 < d" "0 < ?f" and r: "rawToDecimal raw (int d) = ?w @ ''.'' @ fracDigits d ?f"
    have b: "?f < 10 ^ d" by simp
    note fd = fracDigits(1,2) [OF f b]
    have "stripTrailing CHR ''0'' (fracDigits d ?f) = fracDigits d ?f"
      by (simp add: fracDigits_def stripTrailing_idem)
    then have "formatDecimal (?w @ ''.'' @ fracDigits d ?f) digits = groupDigits ?w @ ''.'' @ fracDigits d ?f"
      using fd assms(2) by (intro format_frac all_digits_showNat) simp_all
    moreover have "filter (\<lambda>c. c \<noteq> CHR '','') (fracDigits d ?f) = fracDigits d ?f"
      using digits_no_comma [OF fd(1)] by (auto simp: filter_id_conv)
    ultimately show ?thesis unfolding r using w by simp
  qed
qed

theorem display_is_exact_witness:
  "filter (\<lambda>c. c \<noteq> CHR '','') (formatDecimal (rawToDecimal 12345678901 (int 3)) 7) =
    rawToDecimal 12345678901 (int 3)"
  by (rule display_is_exact) simp_all

end
