(* ===== verification/Policies.thy ===== *)
theory Policies
  imports Relay Money
begin

text \<open>
  Policy blocks (\<open>passkey-sdk/src/policyBlocks\<close>): reading them off the chain's context rules,
  the calls that install and revoke them, and the planning of a key rotation. A client of the
  generated bindings that simulates a contract call is a parameter \<open>client\<close>: it turns the
  call into an assembled transaction, whose operations \<open>extractXdrOperations\<close> re-encodes.
\<close>

section \<open>Data\<close>

datatype signer = Delegated string | External string bytes

datatype context_type = CtxDefault | CtxCallContract string | CtxCreateContract bytes

record chain_rule =
  rule_id :: nat
  context_of :: context_type
  rule_name :: string
  rule_signers :: "signer list"
  rule_policies :: "string list"
  valid_until :: "nat option"

datatype spending_limit = Limit int nat | Unreadable

text \<open>The state a policy contract answers with: its threshold, or its spending limit.\<close>

record policy_info =
  info_threshold :: "nat option"
  info_limit :: "spending_limit option"

type_synonym policy_state = "string \<rightharpoonup> policy_info"

record friend =
  friend_address :: string
  inputAs :: string
  nickname :: "string option"

record key_material =
  km_credentialId :: string
  km_label :: "string option"

record local_overlay =
  friendNicknames :: "string \<rightharpoonup> string"
  sessionKeyMaterial :: "string \<rightharpoonup> key_material"
  blockLabels :: "nat \<rightharpoonup> string"

record multisig_block =
  mb_ruleId :: "nat option"
  mb_threshold :: nat
  mb_friends :: "friend list"
  mb_label :: "string option"

record session_block =
  sb_ruleId :: "nat option"
  sb_target :: string
  sb_pubkey :: bytes
  sb_credentialId :: string
  sb_validUntil :: "nat option"
  sb_label :: "string option"
  sb_limit :: "(int \<times> nat) option"
  sb_unreadable :: bool

datatype policy_block = MultisigRecovery multisig_block | ScopedSessionKey session_block

section \<open>Reading blocks off the chain\<close>

definition multisig_fromChain :: "chain_rule \<Rightarrow> policy_state \<Rightarrow> local_overlay \<Rightarrow> policy_block option" where
  "multisig_fromChain rule state overlay =
     (case (rule_policies rule, context_of rule) of
        (policyAddr # _, CtxCallContract _) \<Rightarrow>
          (case Option.bind (state policyAddr) info_threshold of
             None \<Rightarrow> None
           | Some threshold \<Rightarrow>
               Some (MultisigRecovery
                 \<lparr>mb_ruleId = Some (rule_id rule), mb_threshold = threshold,
                  mb_friends = concat (map (\<lambda>s. (case s of
                      Delegated a \<Rightarrow> [\<lparr>friend_address = a, inputAs = a, nickname = friendNicknames overlay a\<rparr>]
                    | External _ _ \<Rightarrow> [])) (rule_signers rule)),
                  mb_label = blockLabels overlay (rule_id rule)\<rparr>))
      | _ \<Rightarrow> None)"

text \<open>The limit of a rule with the policies given: \<open>None\<close> when the rule is not a session key.\<close>

definition session_limit :: "string list \<Rightarrow> policy_state \<Rightarrow> ((int \<times> nat) option \<times> bool) option" where
  "session_limit policies state =
     (case policies of
        [] \<Rightarrow> Some (None, False)
      | [p] \<Rightarrow>
          if Option.bind (state p) info_threshold \<noteq> None then None
          else (case Option.bind (state p) info_limit of
                  Some (Limit stroops period) \<Rightarrow> Some (Some (stroops, period), False)
                | _ \<Rightarrow> Some (None, True))
      | _ \<Rightarrow> None)"

definition session_fromChain :: "chain_rule \<Rightarrow> policy_state \<Rightarrow> local_overlay \<Rightarrow> policy_block option" where
  "session_fromChain rule state overlay =
     (case (context_of rule, rule_signers rule) of
        (CtxCallContract target, [External _ publicKey]) \<Rightarrow>
          (case session_limit (rule_policies rule) state of
             None \<Rightarrow> None
           | Some (limit, unreadable) \<Rightarrow>
               let material = sessionKeyMaterial overlay target
               in Some (ScopedSessionKey
                    \<lparr>sb_ruleId = Some (rule_id rule), sb_target = target, sb_pubkey = publicKey,
                     sb_credentialId = orElse (map_option km_credentialId material) ''unknown'',
                     sb_validUntil = valid_until rule,
                     sb_label = (case Option.bind material km_label of
                        Some l \<Rightarrow> Some l | None \<Rightarrow> blockLabels overlay (rule_id rule)),
                     sb_limit = limit, sb_unreadable = unreadable\<rparr>))
      | _ \<Rightarrow> None)"

text \<open>The registry keeps the modules in registration order; a kind registered again is replaced in place.\<close>

type_synonym 'm registry = "(string \<times> 'm) list"

fun registerPolicyBlockModule :: "string \<Rightarrow> 'm \<Rightarrow> 'm registry \<Rightarrow> 'm registry" where
  "registerPolicyBlockModule kind m [] = [(kind, m)]"
| "registerPolicyBlockModule kind m ((k, m0) # rs) =
     (if k = kind then (k, m) # rs else (k, m0) # registerPolicyBlockModule kind m rs)"

definition getPolicyBlockModule :: "string \<Rightarrow> 'm registry \<Rightarrow> 'm option" where
  "getPolicyBlockModule kind reg = map_of reg kind"

definition allPolicyBlockKinds :: "'m registry \<Rightarrow> string list" where
  "allPolicyBlockKinds reg = map fst reg"

type_synonym from_chain = "chain_rule \<Rightarrow> policy_state \<Rightarrow> local_overlay \<Rightarrow> policy_block option"

definition policy_modules :: "from_chain registry" where
  "policy_modules =
     registerPolicyBlockModule ''scoped-session-key'' session_fromChain
       (registerPolicyBlockModule ''multisig-recovery'' multisig_fromChain [])"

fun firstBlock :: "from_chain registry \<Rightarrow> chain_rule \<Rightarrow> policy_state \<Rightarrow> local_overlay \<Rightarrow> string list \<Rightarrow> policy_block list" where
  "firstBlock reg rule state overlay [] = []"
| "firstBlock reg rule state overlay (kind # kinds) =
     (case getPolicyBlockModule kind reg of
        None \<Rightarrow> firstBlock reg rule state overlay kinds
      | Some fromChain \<Rightarrow>
          (case fromChain rule state overlay of
             Some block \<Rightarrow> [block]
           | None \<Rightarrow> firstBlock reg rule state overlay kinds))"

text \<open>\<open>fetch\<close> is the fetcher of a rule's policy state; its failure is a rejected promise.\<close>

definition loadPolicyBlocks ::
  "from_chain registry \<Rightarrow> (chain_rule \<Rightarrow> policy_state result) \<Rightarrow> local_overlay \<Rightarrow> chain_rule list \<Rightarrow>
   policy_block list result" where
  "loadPolicyBlocks reg fetch overlay rules =
     bindR (mapR (\<lambda>rule. bindR (fetch rule) (\<lambda>state.
              Inr (firstBlock reg rule state overlay (allPolicyBlockKinds reg)))) rules)
       (\<lambda>bs. Inr (concat bs))"

definition multisig_summarize :: "multisig_block \<Rightarrow> string" where
  "multisig_summarize block =
     (let n = length (mb_friends block)
      in showNat (mb_threshold block) @ '' of '' @ showNat n @ '' friend'' @ (if n = 1 then [] else ''s'') @
         '' can rotate this account'' @ [CHR 0x27] @ ''s signers and rules'')"

definition session_summarize :: "session_block \<Rightarrow> string" where
  "session_summarize block =
     (let exp = (case sb_validUntil block of None \<Rightarrow> [] | Some v \<Rightarrow> '' (expires at ledger '' @ showNat v @ '')'');
          limit = (case sb_limit block of None \<Rightarrow> []
                   | Some (stroops, period) \<Rightarrow>
                       '' '' @ [CHR 0xb7] @ '' limit '' @ formatSpendingLimit stroops period)
      in ''Session key for '' @ sb_target block @ exp @ limit)"

definition multisig_defaultDraft :: multisig_block where
  "multisig_defaultDraft = \<lparr>mb_ruleId = None, mb_threshold = 2, mb_friends = [], mb_label = Some ''Recovery''\<rparr>"

definition session_defaultDraft :: session_block where
  "session_defaultDraft = \<lparr>sb_ruleId = None, sb_target = [], sb_pubkey = replicate 65 0, sb_credentialId = [],
     sb_validUntil = None, sb_label = None, sb_limit = None, sb_unreadable = False\<rparr>"

section \<open>Contract calls\<close>

text \<open>
  The arguments of a contract call before the generated client encodes them. \<open>LimitPolicy\<close> is a
  policies map with one entry, a spending-limit policy with its limit and period.
\<close>

datatype call_arg =
    U32 nat
  | Address string
  | Str string
  | OptU32 "nat option"
  | Context context_type
  | ASigner signer
  | Signers "signer list"
  | NoPolicies
  | LimitPolicy string int nat
  | ThresholdParam nat

record invocation =
  inv_contract :: string
  inv_method :: string
  inv_args :: "(string \<times> call_arg) list"

record ('f, 'a) pojo_op =
  op_type :: string
  op_func :: "'f option"
  op_auth :: "'a list option"
  op_source :: "string option"

record ('f, 'a) xdr_op =
  x_func :: 'f
  x_auth :: "'a list"
  x_source :: "string option"

definition extractXdrOperations :: "('f, 'a) pojo_op list option \<Rightarrow> ('f, 'a) xdr_op list result" where
  "extractXdrOperations built =
     (case built of
        None \<Rightarrow> Inl (Error ''could not extract operations from AssembledTransaction'')
      | Some ops \<Rightarrow> mapR (\<lambda>p.
          (case op_func p of
             Some f \<Rightarrow>
               if op_type p \<noteq> ''invokeHostFunction'' then Inl (Error ''unexpected op type'')
               else Inr \<lparr>x_func = f, x_auth = orElse (op_auth p) [], x_source = op_source p\<rparr>
           | None \<Rightarrow> Inl (Error ''unexpected op type''))) ops)"

type_synonym ('f, 'a) client = "invocation \<Rightarrow> ('f, 'a) pojo_op list option result"

definition callOps :: "('f, 'a) client \<Rightarrow> invocation \<Rightarrow> ('f, 'a) xdr_op list result" where
  "callOps client call = bindR (client call) extractXdrOperations"

definition multisig_invocation :: "string \<Rightarrow> multisig_block \<Rightarrow> string \<Rightarrow> invocation" where
  "multisig_invocation account block multisigPolicy =
     \<lparr>inv_contract = account, inv_method = ''add_multisig_recovery'',
      inv_args = [(''name'', Str (orElse (mb_label block) ''recovery'')), (''valid_until'', OptU32 None),
        (''friends'', Signers (map (\<lambda>f. Delegated (friend_address f)) (mb_friends block))),
        (''multisig_policy'', Address multisigPolicy), (''threshold'', U32 (mb_threshold block))]\<rparr>"

text \<open>An error of the client is reported with a prefix.\<close>

definition multisig_buildInstall ::
  "('f, 'a) client \<Rightarrow> (string \<Rightarrow> string result) option \<Rightarrow> string \<Rightarrow> multisig_block \<Rightarrow>
   (('f, 'a) xdr_op list \<times> string) result" where
  "multisig_buildInstall client policyAddress account block =
     (case policyAddress of
        None \<Rightarrow> Inl (Error ''multisig-recovery: policyAddress fetcher required'')
      | Some fetch \<Rightarrow>
          bindR (fetch ''multisig'') (\<lambda>multisigPolicy.
          bindR (case client (multisig_invocation account block multisigPolicy) of
                   Inl _ \<Rightarrow> Inl (Error ''multisig-recovery.buildInstall failed'')
                 | Inr tx \<Rightarrow> Inr tx) (\<lambda>tx.
          bindR (extractXdrOperations tx) (\<lambda>ops.
            Inr (ops, ''Set up '' @ showNat (mb_threshold block) @ ''-of-'' @
              showNat (length (mb_friends block)) @ '' recovery'')))))"

definition revoke_invocation :: "string \<Rightarrow> nat \<Rightarrow> invocation" where
  "revoke_invocation account ruleId =
     \<lparr>inv_contract = account, inv_method = ''remove_context_rule'',
      inv_args = [(''context_rule_id'', U32 ruleId)]\<rparr>"

definition multisig_buildRevoke :: "('f, 'a) client \<Rightarrow> string \<Rightarrow> nat \<Rightarrow> (('f, 'a) xdr_op list \<times> string) result" where
  "multisig_buildRevoke client account ruleId =
     bindR (callOps client (revoke_invocation account ruleId)) (\<lambda>ops. Inr (ops, ''Remove recovery rule''))"

definition session_buildRevoke :: "('f, 'a) client \<Rightarrow> string \<Rightarrow> nat \<Rightarrow> (('f, 'a) xdr_op list \<times> string) result" where
  "session_buildRevoke client account ruleId =
     bindR (callOps client (revoke_invocation account ruleId)) (\<lambda>ops. Inr (ops, ''Revoke session key''))"

definition session_invocation :: "string \<Rightarrow> session_block \<Rightarrow> string \<Rightarrow> invocation" where
  "session_invocation account block verifier =
     \<lparr>inv_contract = account, inv_method = ''add_context_rule'',
      inv_args = [(''context_type'', Context (CtxCallContract (sb_target block))),
        (''name'', Str (orElse (sb_label block) ''session'')), (''valid_until'', OptU32 (sb_validUntil block)),
        (''signers'', Signers [External verifier (sb_pubkey block)]), (''policies'', NoPolicies)]\<rparr>"

definition session_buildInstall ::
  "('f, 'a) client \<Rightarrow> string result option \<Rightarrow> string \<Rightarrow> session_block \<Rightarrow>
   (('f, 'a) xdr_op list \<times> string) result" where
  "session_buildInstall client verifierAddress account block =
     (case verifierAddress of
        None \<Rightarrow> Inl (Error ''scoped-session-key: verifierAddress fetcher required'')
      | Some fetch \<Rightarrow>
          bindR fetch (\<lambda>verifier.
          bindR (callOps client (session_invocation account block verifier)) (\<lambda>ops.
            Inr (ops, ''Delegate session key to '' @ sb_target block))))"

section \<open>Key rotation\<close>

record rotation_request =
  defaultRuleId :: nat
  addPasskey :: "(string \<times> bytes) option"
  removeSignerId :: "nat option"
  ruleState :: "(int \<times> int) option"
  thresholdPolicyAddress :: "string option"

datatype rotation_call =
    AddSigner nat signer
  | RemoveSigner nat nat
  | AddPolicy nat string nat

definition policyCalls :: "rotation_request \<Rightarrow> rotation_call list" where
  "policyCalls req =
     (case (ruleState req, thresholdPolicyAddress req) of
        (Some (signerCount, policyCount), Some address) \<Rightarrow>
          let adds = (if addPasskey req \<noteq> None then 1 else 0);
              removes = (if removeSignerId req \<noteq> None then 1 else 0);
              resultingSigners = signerCount + adds - removes
          in if address \<noteq> [] \<and> policyCount = 0 \<and> resultingSigners > 1
             then [AddPolicy (defaultRuleId req) address 1] else []
      | _ \<Rightarrow> [])"

definition planRotation :: "rotation_request \<Rightarrow> rotation_call list result" where
  "planRotation req =
     bindR (case addPasskey req of
              None \<Rightarrow> Inr []
            | Some (verifier, publicKey) \<Rightarrow>
                if length publicKey \<noteq> 65
                then Inl (Error ''planRotation: new passkey must be a 65-byte SEC1 uncompressed P-256 key'')
                else Inr [AddSigner (defaultRuleId req) (External verifier publicKey)])
       (\<lambda>adds.
         let calls = policyCalls req @ adds @
               (case removeSignerId req of None \<Rightarrow> [] | Some i \<Rightarrow> [RemoveSigner (defaultRuleId req) i])
         in if calls = [] then Inl (Error ''planRotation: nothing to rotate (no add or remove specified)'')
            else Inr calls)"

definition describeCall :: "rotation_call \<Rightarrow> string" where
  "describeCall c =
     (case c of
        AddSigner _ _ \<Rightarrow> ''add a new passkey''
      | RemoveSigner _ i \<Rightarrow> ''remove signer #'' @ showNat i
      | AddPolicy _ _ threshold \<Rightarrow> ''install a '' @ showNat threshold @ ''-of-N approval policy'')"

definition describeRotation :: "rotation_call list \<Rightarrow> string" where
  "describeRotation plan = ''Recovery rotation: '' @ join '' and '' (map describeCall plan)"

definition rotation_invocation :: "string \<Rightarrow> rotation_call \<Rightarrow> invocation" where
  "rotation_invocation account call =
     (case call of
        AddSigner rule s \<Rightarrow>
          \<lparr>inv_contract = account, inv_method = ''add_signer'',
           inv_args = [(''context_rule_id'', U32 rule), (''signer'', ASigner s)]\<rparr>
      | RemoveSigner rule i \<Rightarrow>
          \<lparr>inv_contract = account, inv_method = ''remove_signer'',
           inv_args = [(''context_rule_id'', U32 rule), (''signer_id'', U32 i)]\<rparr>
      | AddPolicy rule address threshold \<Rightarrow>
          \<lparr>inv_contract = account, inv_method = ''add_policy'',
           inv_args = [(''context_rule_id'', U32 rule), (''policy'', Address address),
             (''install_param'', ThresholdParam threshold)]\<rparr>)"

definition buildRotation ::
  "('f, 'a) client \<Rightarrow> string \<Rightarrow> nat \<Rightarrow> rotation_request \<Rightarrow>
   (('f, 'a) xdr_op list \<times> nat list \<times> string) result" where
  "buildRotation client account recoveryRuleId request =
     bindR (planRotation request) (\<lambda>calls.
     bindR (mapR (\<lambda>call. callOps client (rotation_invocation account call)) calls) (\<lambda>opss.
       Inr (concat opss, map (\<lambda>_. recoveryRuleId) (concat opss), describeRotation calls)))"

section \<open>Facts\<close>

lemma exclusive: "multisig_fromChain rule st ov = None \<or> session_fromChain rule st ov = None"
proof (cases "rule_policies rule")
  case Nil
  then show ?thesis by (simp add: multisig_fromChain_def)
next
  case (Cons p ps)
  show ?thesis
  proof (cases "Option.bind (st p) info_threshold")
    case None
    then show ?thesis using Cons by (simp add: multisig_fromChain_def split: context_type.split)
  next
    case (Some t)
    then have "session_limit (rule_policies rule) st = None"
      unfolding Cons by (cases ps) (simp_all add: session_limit_def)
    then have "session_fromChain rule st ov = None"
      by (auto simp: session_fromChain_def split: context_type.split list.split signer.split)
    then show ?thesis ..
  qed
qed

lemma policy_modules_eq:
  "policy_modules = [(''multisig-recovery'', multisig_fromChain), (''scoped-session-key'', session_fromChain)]"
  by (simp add: policy_modules_def)

lemma firstBlock_two:
  "firstBlock policy_modules rule st ov (allPolicyBlockKinds policy_modules) =
     (case multisig_fromChain rule st ov of Some b \<Rightarrow> [b]
      | None \<Rightarrow> (case session_fromChain rule st ov of Some b \<Rightarrow> [b] | None \<Rightarrow> []))"
  by (simp add: policy_modules_eq allPolicyBlockKinds_def getPolicyBlockModule_def split: option.split)

lemma firstBlock_two_rev:
  "firstBlock (rev policy_modules) rule st ov (allPolicyBlockKinds (rev policy_modules)) =
     (case session_fromChain rule st ov of Some b \<Rightarrow> [b]
      | None \<Rightarrow> (case multisig_fromChain rule st ov of Some b \<Rightarrow> [b] | None \<Rightarrow> []))"
  by (simp add: policy_modules_eq allPolicyBlockKinds_def getPolicyBlockModule_def split: option.split)

lemma session_claimed:
  assumes "context_of rule = CtxCallContract target" "rule_signers rule = [External v pk]"
    and "rule_policies rule = [] \<or> (\<exists>p. rule_policies rule = [p] \<and> Option.bind (st p) info_threshold = None)"
  shows "\<exists>b. session_fromChain rule st ov = Some (ScopedSessionKey b) \<and>
    sb_ruleId b = Some (rule_id rule) \<and> sb_target b = target \<and> sb_pubkey b = pk"
  using assms
  by (auto simp: session_fromChain_def session_limit_def Let_def split: option.split spending_limit.split)

text \<open>
  The rules of an account as a rotation sees them: the signers, the policies that were there before,
  and the policies installed since, each with its threshold. A rule is N-of-N when it has several
  signers and no policy lets fewer of them approve.
\<close>

record rule_auth =
  ra_signers :: int
  ra_policies :: int
  ra_installed :: "(string \<times> nat) list"

definition applyCall :: "(nat \<Rightarrow> rule_auth) \<Rightarrow> rotation_call \<Rightarrow> nat \<Rightarrow> rule_auth" where
  "applyCall st call =
     (case call of
        AddSigner r _ \<Rightarrow> st(r := (st r)\<lparr>ra_signers := ra_signers (st r) + 1\<rparr>)
      | RemoveSigner r _ \<Rightarrow> st(r := (st r)\<lparr>ra_signers := ra_signers (st r) - 1\<rparr>)
      | AddPolicy r address threshold \<Rightarrow> st(r := (st r)\<lparr>ra_installed := (address, threshold) # ra_installed (st r)\<rparr>))"

definition nOfN :: "rule_auth \<Rightarrow> bool" where
  "nOfN ra \<longleftrightarrow> ra_signers ra > 1 \<and> ra_policies ra = 0 \<and> list_all (\<lambda>(_, threshold). ra_signers ra \<le> int threshold) (ra_installed ra)"

definition requested :: "rotation_request \<Rightarrow> rotation_call \<Rightarrow> bool" where
  "requested req call \<longleftrightarrow>
     (case call of
        AddSigner r sg \<Rightarrow> r = defaultRuleId req \<and> (\<exists>v pk. addPasskey req = Some (v, pk) \<and> length pk = 65 \<and> sg = External v pk)
      | RemoveSigner r i \<Rightarrow> r = defaultRuleId req \<and> removeSignerId req = Some i
      | AddPolicy r address threshold \<Rightarrow> r = defaultRuleId req \<and> thresholdPolicyAddress req = Some address \<and> threshold = 1)"

lemma planRotation_Inr:
  "planRotation req = Inr calls \<longleftrightarrow> calls \<noteq> [] \<and>
     (\<forall>v pk. addPasskey req = Some (v, pk) \<longrightarrow> length pk = 65) \<and>
     calls = policyCalls req @
       (case addPasskey req of None \<Rightarrow> [] | Some (v, pk) \<Rightarrow> [AddSigner (defaultRuleId req) (External v pk)]) @
       (case removeSignerId req of None \<Rightarrow> [] | Some i \<Rightarrow> [RemoveSigner (defaultRuleId req) i])"
  by (cases "addPasskey req"; cases "removeSignerId req"; cases "policyCalls req = []")
     (auto simp: planRotation_def Let_def split: if_splits)

text \<open>A sample rule: a session key on the contract \<open>CAPP\<close>.\<close>

definition key_rule :: chain_rule where
  "key_rule = \<lparr>rule_id = 4, context_of = CtxCallContract ''CAPP'', rule_name = ''session'',
     rule_signers = [External ''CV'' [7]], rule_policies = [], valid_until = None\<rparr>"

definition no_overlay :: local_overlay where
  "no_overlay = \<lparr>friendNicknames = (\<lambda>_. None), sessionKeyMaterial = (\<lambda>_. None), blockLabels = (\<lambda>_. None)\<rparr>"

section \<open>Properties\<close>

lemma requested_elsewhere:
  "list_all (requested req) calls \<Longrightarrow> r \<noteq> defaultRuleId req \<Longrightarrow> foldl applyCall st calls r = st r"
proof (induction calls arbitrary: st)
  case (Cons c calls)
  then have "applyCall st c r = st r" by (cases c) (auto simp: requested_def applyCall_def)
  with Cons show ?case by simp
qed simp

lemma list_all_take: "list_all P xs \<Longrightarrow> list_all P (take n xs)"
  by (auto simp: list_all_iff dest: in_set_takeD)



text \<open>A plan made without the rule's state can end in an N-of-N rule.\<close>

lemma plan_without_state:
  "planRotation \<lparr>defaultRuleId = 0, addPasskey = Some (''CV'', replicate 65 4), removeSignerId = None,
     ruleState = None, thresholdPolicyAddress = Some ''CP''\<rparr> = Inr [AddSigner 0 (External ''CV'' (replicate 65 4))] \<and>
   nOfN (foldl applyCall (\<lambda>_. \<lparr>ra_signers = 1, ra_policies = 0, ra_installed = []\<rparr>) [AddSigner 0 (External ''CV'' (replicate 65 4))] 0)"
  by (simp add: planRotation_def policyCalls_def applyCall_def nOfN_def)

text \<open>
  Replacing the only passkey of a rule without a policy passes through an N-of-N rule: the
  plan is to add the new signer and then remove the old one, with no policy call, and after
  the first of the two the rule has two signers that must both sign.
\<close>

theorem replacement_passes_through_n_of_n:
  assumes "addPasskey req = Some (v, pk)" "length pk = 65" "removeSignerId req = Some i"
    and "ruleState req = Some (1, 0)" "st (defaultRuleId req) = \<lparr>ra_signers = 1, ra_policies = 0, ra_installed = []\<rparr>"
  shows "planRotation req = Inr [AddSigner (defaultRuleId req) (External v pk), RemoveSigner (defaultRuleId req) i] \<and>
    nOfN (foldl applyCall st (take 1 [AddSigner (defaultRuleId req) (External v pk), RemoveSigner (defaultRuleId req) i]) (defaultRuleId req))"
  using assms by (auto simp: planRotation_def policyCalls_def applyCall_def nOfN_def split: option.split)

theorem replacement_passes_through_n_of_n_witness:
  "planRotation \<lparr>defaultRuleId = 0, addPasskey = Some (''CV'', replicate 65 4), removeSignerId = Some 3,
       ruleState = Some (1, 0), thresholdPolicyAddress = Some ''CP''\<rparr> =
     Inr [AddSigner 0 (External ''CV'' (replicate 65 4)), RemoveSigner 0 3] \<and>
   nOfN (foldl applyCall (\<lambda>_. \<lparr>ra_signers = 1, ra_policies = 0, ra_installed = []\<rparr>)
     (take 1 [AddSigner 0 (External ''CV'' (replicate 65 4)), RemoveSigner 0 3]) 0)"
  using replacement_passes_through_n_of_n [of "\<lparr>defaultRuleId = 0, addPasskey = Some (''CV'', replicate 65 4),
      removeSignerId = Some 3, ruleState = Some (1, 0), thresholdPolicyAddress = Some ''CP''\<rparr>" "''CV''" "replicate 65 4" 3
      "\<lambda>_. \<lparr>ra_signers = 1, ra_policies = 0, ra_installed = []\<rparr>"] by simp

text \<open>
  The relayer's allowlist does not cover the wallet's own recovery operations: of the calls
  of a rotation it accepts the signer calls and rejects every installation of the threshold
  policy, it rejects the installation of the recovery rule itself, and it accepts session
  keys and the removal of rules.
\<close>

theorem relayer_rejects_policy_install:
  "(isAllowed (\<lambda>f. Some (InvokeContract f)) (inv_method (rotation_invocation account call)) \<longleftrightarrow>
      (\<forall>rule address threshold. call \<noteq> AddPolicy rule address threshold)) \<and>
   \<not> isAllowed (\<lambda>f. Some (InvokeContract f)) (inv_method (multisig_invocation account block policy)) \<and>
   isAllowed (\<lambda>f. Some (InvokeContract f)) (inv_method (session_invocation account sblock verifier)) \<and>
   isAllowed (\<lambda>f. Some (InvokeContract f)) (inv_method (revoke_invocation account ruleId))"
  by (cases call)
     (simp_all add: isAllowed_def invokedFunctionName_def ALLOWED_FUNCTIONS_def rotation_invocation_def
        multisig_invocation_def session_invocation_def revoke_invocation_def)

text \<open>
  At most one module claims a rule, so the order in which the modules were registered does
  not change the blocks the wallet shows.
\<close>

theorem registration_order_irrelevant:
  "loadPolicyBlocks policy_modules fetch overlay rules = loadPolicyBlocks (rev policy_modules) fetch overlay rules"
proof -
  have "firstBlock policy_modules rule st overlay (allPolicyBlockKinds policy_modules) =
    firstBlock (rev policy_modules) rule st overlay (allPolicyBlockKinds (rev policy_modules))" for rule st
    using exclusive [of rule st overlay] unfolding firstBlock_two firstBlock_two_rev
    by (auto split: option.split)
  then show ?thesis by (simp only: loadPolicyBlocks_def)
qed

text \<open>
  A session key is always listed, so that it can be revoked: a rule on a contract with one
  external signer and at most one policy, whose state gives no threshold or cannot be read,
  appears as a session key block for the rule, its target and its key.
\<close>

theorem session_key_always_listed:
  assumes "loadPolicyBlocks policy_modules fetch overlay rules = Inr blocks" "rule \<in> set rules"
    and "fetch rule = Inr st"
    and "context_of rule = CtxCallContract target" "rule_signers rule = [External v pk]"
    and "rule_policies rule = [] \<or> (\<exists>p. rule_policies rule = [p] \<and> Option.bind (st p) info_threshold = None)"
  shows "\<exists>b. ScopedSessionKey b \<in> set blocks \<and> sb_ruleId b = Some (rule_id rule) \<and>
    sb_target b = target \<and> sb_pubkey b = pk"
proof -
  obtain b where b: "session_fromChain rule st overlay = Some (ScopedSessionKey b)"
    "sb_ruleId b = Some (rule_id rule)" "sb_target b = target" "sb_pubkey b = pk"
    using session_claimed [OF assms(4-6)] by blast
  then have "multisig_fromChain rule st overlay = None" using exclusive [of rule st overlay] by simp
  with b have fb: "firstBlock policy_modules rule st overlay (allPolicyBlockKinds policy_modules) = [ScopedSessionKey b]"
    by (simp add: firstBlock_two)
  from assms(1) obtain bs where bs: "mapR (\<lambda>rule. bindR (fetch rule) (\<lambda>state.
      Inr (firstBlock policy_modules rule state overlay (allPolicyBlockKinds policy_modules)))) rules = Inr bs"
    and "blocks = concat bs" by (auto simp: loadPolicyBlocks_def result_simps)
  obtain i where i: "i < length rules" "rules ! i = rule" using assms(2) by (auto simp: in_set_conv_nth)
  have "bs ! i = [ScopedSessionKey b]" using mapR_nth [OF bs i(1)] i(2) assms(3) fb by simp
  moreover have "bs ! i \<in> set bs" using i(1) mapR_length [OF bs] by simp
  ultimately have "ScopedSessionKey b \<in> set blocks" unfolding \<open>blocks = concat bs\<close> by force
  with b show ?thesis by blast
qed

theorem session_key_always_listed_witness:
  "\<exists>blocks b. loadPolicyBlocks policy_modules (\<lambda>_. Inr (\<lambda>_. None)) no_overlay [key_rule] = Inr blocks \<and>
    ScopedSessionKey b \<in> set blocks \<and> sb_ruleId b = Some 4 \<and> sb_target b = ''CAPP'' \<and> sb_pubkey b = [7]"
proof -
  obtain blocks where "loadPolicyBlocks policy_modules (\<lambda>_. Inr (\<lambda>_. None)) no_overlay [key_rule] = Inr blocks"
    by (auto simp: loadPolicyBlocks_def)
  from session_key_always_listed [OF this, of key_rule "\<lambda>_. None" "''CAPP''" "''CV''" "[7]"] this
  show ?thesis by (auto simp: key_rule_def)
qed

end
