(* ===== verification/Url.thy ===== *)
theory Url
  imports JsString
begin

text \<open>
  Host names and addresses of the wallet's pages: the SDK's \<open>url.ts\<close>, the wallet-kit
  module's \<open>urls.ts\<close>, and the frontend's \<open>accountLinks.ts\<close>, \<open>createNido.ts\<close> and
  \<open>claimFlow.ts\<close>. A host is \<open>hostname\<close> or \<open>hostname:port\<close>. The regular expressions are
  written out: \<open>previewSubdomain\<close> splits off the longest run of digits at the end and then
  looks for \<open>--pr-\<close> or \<open>--\<close> before it, which is what \<open>^(.*)--(?:pr-)?(\d+)$\<close> matches.
\<close>

section \<open>Labels\<close>

abbreviation labels :: "string \<Rightarrow> string list" where
  "labels \<equiv> split_on CHR ''.''"

abbreviation dots :: "string list \<Rightarrow> string" where
  "dots \<equiv> join ''.''"

text \<open>An object literal also has the members of \<open>Object.prototype\<close>; a lookup finds them.\<close>

datatype dapp_path = DappPath string | Inherited string

definition object_members :: "string list" where
  "object_members = [''constructor'', ''__defineGetter__'', ''__defineSetter__'', ''hasOwnProperty'',
     ''__lookupGetter__'', ''__lookupSetter__'', ''isPrototypeOf'', ''propertyIsEnumerable'',
     ''toString'', ''valueOf'', ''__proto__'', ''toLocaleString'']"

definition RESERVED_DAPP_SUBDOMAINS :: "string \<Rightarrow> dapp_path option" where
  "RESERVED_DAPP_SUBDOMAINS key =
     (if key = ''status-message'' then Some (DappPath ''/status-message/'')
      else if key \<in> set object_members then Some (Inherited key) else None)"

definition trailing_digits :: "string \<Rightarrow> string" where
  "trailing_digits s = rev (takeWhile is_digit (rev s))"

definition before_digits :: "string \<Rightarrow> string" where
  "before_digits s = rev (dropWhile is_digit (rev s))"

definition previewSubdomain :: "string \<Rightarrow> string \<times> string option" where
  "previewSubdomain sub =
     (let ds = trailing_digits sub; pre = before_digits sub
      in if ds \<noteq> [] \<and> endsWith pre ''--pr-'' then (take (length pre - 5) pre, Some ds)
         else if ds \<noteq> [] \<and> endsWith pre ''--'' then (take (length pre - 2) pre, Some ds)
         else (sub, None))"

text \<open>\<open>^(?:pr-)?(\d+)$\<close>: the number of a bare preview root; \<open>legacyRoot\<close> is \<open>^pr-(\d+)$\<close>.\<close>

definition legacyRoot :: "string \<Rightarrow> string option" where
  "legacyRoot sub =
     (if startsWith sub ''pr-'' \<and> all_digits (drop 3 sub) then Some (drop 3 sub) else None)"

definition bareRoot :: "string \<Rightarrow> string option" where
  "bareRoot sub = (if all_digits sub then Some sub else legacyRoot sub)"

definition isContractId :: "string \<Rightarrow> bool" where
  "isContractId subdomain \<longleftrightarrow> length subdomain = 56 \<and> (hd subdomain = CHR ''c'' \<or> hd subdomain = CHR ''C'')"

section \<open>Reading a host name\<close>

definition dappPathFromHostname :: "string \<Rightarrow> dapp_path option" where
  "dappPathFromHostname host =
     (let parts = labels host
      in if length parts \<le> 1 then None
         else RESERVED_DAPP_SUBDOMAINS (toLowerCase (fst (previewSubdomain (hd parts)))))"

definition contractIdFromHostname :: "string \<Rightarrow> string option" where
  "contractIdFromHostname hostname =
     (let parts = labels hostname
      in if length parts \<le> 1 then None
         else let raw = fst (previewSubdomain (hd parts))
              in if raw = [] then None else Some (toUpperCase raw))"

definition nameFromHostname :: "string \<Rightarrow> string option" where
  "nameFromHostname hostname =
     (let parts = labels hostname
      in if length parts \<le> 1 then None
         else let sub = hd parts; raw = fst (previewSubdomain sub)
              in if raw = [] then None
                 else if isContractId raw then None
                 else if all_digits sub then None
                 else if legacyRoot sub \<noteq> None then None
                 else if RESERVED_DAPP_SUBDOMAINS (toLowerCase raw) \<noteq> None then None
                 else Some (toLowerCase raw))"

definition previewPrefix :: "string \<Rightarrow> string option" where
  "previewPrefix host =
     (let parts = labels host
      in if length parts \<le> 1 then None
         else let sub = hd parts
              in case snd (previewSubdomain sub) of
                   Some preview \<Rightarrow> Some preview
                 | None \<Rightarrow> if all_digits sub then Some sub else legacyRoot sub)"

definition stripSubdomain :: "string \<Rightarrow> string" where
  "stripSubdomain host =
     (let parts = labels host
      in if length parts \<le> 1 then host
         else let sub = hd parts; rest = dots (tl parts)
              in case bareRoot sub of
                   Some n \<Rightarrow> n @ ''.'' @ rest
                 | None \<Rightarrow> (case snd (previewSubdomain sub) of
                     Some preview \<Rightarrow> preview @ ''.'' @ rest
                   | None \<Rightarrow> rest))"

section \<open>Building addresses\<close>

text \<open>The common part of \<open>dappUrl\<close> and \<open>accountUrl\<close>: a first label on the calling page's apex.\<close>

definition siteHost :: "string \<Rightarrow> string \<Rightarrow> string" where
  "siteHost host label =
     (case previewPrefix host of
        Some preview \<Rightarrow> label @ ''--'' @ preview @ ''.'' @ dots (tl (labels host))
      | None \<Rightarrow>
          let parts = labels host
          in label @ ''.'' @ (if length parts > 2 then dots (tl parts) else host))"

definition dappUrl :: "string \<Rightarrow> string \<Rightarrow> string \<Rightarrow> string" where
  "dappUrl host dappName path = ''//'' @ siteHost host dappName @ path"

definition accountUrl :: "string \<Rightarrow> string \<Rightarrow> string \<Rightarrow> string" where
  "accountUrl host contractId path = ''//'' @ siteHost host (toLowerCase contractId) @ path"

text \<open>The wallet-kit module runs at another origin; \<open>base\<close> is its configured Nido domain.\<close>

definition is_alpha :: "char \<Rightarrow> bool" where
  "is_alpha c \<longleftrightarrow> is_lower c \<or> is_upper c"

definition splitScheme :: "string \<Rightarrow> string option \<times> string" where
  "splitScheme base =
     (let scheme = takeWhile is_alpha base; rest = dropWhile is_alpha base
      in if scheme \<noteq> [] \<and> startsWith rest ''://'' \<and> length rest > 3 then (Some scheme, drop 3 rest)
         else (None, base))"

definition splitPreview :: "string \<Rightarrow> string option \<times> string" where
  "splitPreview host =
     (let parts = labels host
      in if length parts \<le> 1 then (None, host)
         else if all_digits (hd parts) then (Some (hd parts), dots (tl parts))
         else (case legacyRoot (hd parts) of
                 Some n \<Rightarrow> (Some n, dots (tl parts))
               | None \<Rightarrow> (None, host)))"

definition apexOrigin :: "string \<Rightarrow> string" where
  "apexOrigin base = (case splitScheme base of (scheme, host) \<Rightarrow> orElse scheme ''https'' @ ''://'' @ host)"

definition accountOrigin :: "string \<Rightarrow> string \<Rightarrow> string result" where
  "accountOrigin base account =
     (if \<not> isContractId account then Inl (Error ''accountOrigin: not a contract id'')
      else (case splitScheme base of (scheme, host) \<Rightarrow>
        let acc = toLowerCase account
        in (case splitPreview host of (preview, apex) \<Rightarrow>
             Inr (orElse scheme ''https'' @ ''://'' @
               (case preview of
                  Some n \<Rightarrow> acc @ ''--'' @ n @ ''.'' @ apex
                | None \<Rightarrow> acc @ ''.'' @ host)))))"

section \<open>Query strings\<close>

definition percent :: "byte \<Rightarrow> string" where
  "percent b = CHR ''%'' # toUpperCase (padStart 2 CHR ''0'' (toStringBase 16 (unat b)))"

definition encode_with :: "(char \<Rightarrow> bool) \<Rightarrow> string \<Rightarrow> string" where
  "encode_with keep s = concat (map (\<lambda>c. if keep c then [c] else concat (map percent (utf8 [c]))) s)"

definition is_alnum :: "char \<Rightarrow> bool" where
  "is_alnum c \<longleftrightarrow> is_alpha c \<or> is_digit c"

definition encodeURIComponent :: "string \<Rightarrow> string" where
  "encodeURIComponent = encode_with (\<lambda>c. is_alnum c \<or> c \<in> {CHR ''-'', CHR ''_'', CHR ''.'', CHR ''!'', CHR ''~'',
     CHR ''*'', CHR 0x27, CHR ''('', CHR '')''})"

text \<open>The serializer of \<open>URLSearchParams\<close>.\<close>

definition formEncode :: "string \<Rightarrow> string" where
  "formEncode s = map (\<lambda>c. if c = CHR '' '' then CHR ''+'' else c)
     (encode_with (\<lambda>c. is_alnum c \<or> c \<in> {CHR ''*'', CHR ''-'', CHR ''.'', CHR ''_'', CHR '' ''}) s)"

definition searchParams :: "(string \<times> string) list \<Rightarrow> string" where
  "searchParams ps = join ''&'' (map (\<lambda>(k, v). formEncode k @ ''='' @ formEncode v) ps)"

section \<open>Links of the frontend\<close>

definition accountShareUrl :: "string \<Rightarrow> string \<Rightarrow> string" where
  "accountShareUrl host nameOrId = accountUrl host nameOrId ''/''"

definition accountShareLabel :: "string \<Rightarrow> string \<Rightarrow> string" where
  "accountShareLabel host nameOrId =
     (let u = accountShareUrl host nameOrId
      in stripTrailing CHR ''/'' (if startsWith u ''//'' then drop 2 u else u))"

datatype row_status = Active | Pending

record nido_row =
  row_contractId :: string
  row_name :: "string option"
  row_status :: row_status
  row_resumeKey :: "string option"

definition nidoRowHref :: "string \<Rightarrow> nido_row \<Rightarrow> string" where
  "nidoRowHref host row =
     (if row_status row = Pending
      then accountUrl host (row_contractId row)
        (''/new-account/?salt='' @ encodeURIComponent (orElse (row_resumeKey row) []))
      else accountShareUrl host (orElse (row_name row) (row_contractId row)))"

definition is_ipv4 :: "string \<Rightarrow> bool" where
  "is_ipv4 s \<longleftrightarrow> length (labels s) = 4 \<and>
     list_all (\<lambda>p. 1 \<le> length p \<and> length p \<le> 3 \<and> list_all is_digit p) (labels s)"

definition setupHost :: "string \<Rightarrow> string" where
  "setupHost host =
     (let hostname = hd (split_on CHR '':'' host)
      in if hostname = ''localhost'' \<or> is_ipv4 hostname then host
         else let first = hd (labels hostname)
              in if all_digits first \<or> length (labels hostname) \<le> 2 then host
                 else (case legacyRoot first of
                         Some n \<Rightarrow> n @ drop (length first) host
                       | None \<Rightarrow> stripSubdomain host))"

text \<open>\<open>salt\<close> is the hexadecimal form of the random bytes.\<close>

definition createNido :: "string \<Rightarrow> string \<Rightarrow> string" where
  "createNido host salt = ''//'' @ setupHost host @ ''/new-account/?salt='' @ salt @ ''&setup=1''"

section \<open>Claiming a name\<close>

definition VALID_NAME_RE :: "string \<Rightarrow> bool" where
  "VALID_NAME_RE s \<longleftrightarrow> (case s of [] \<Rightarrow> False
     | c # cs \<Rightarrow> is_lower c \<and> length cs \<le> 14 \<and> list_all (\<lambda>d. is_lower d \<or> is_digit d) cs)"

datatype name_state = Available | Taken | Invalid

definition classifyNameState :: "string \<Rightarrow> string option \<Rightarrow> name_state" where
  "classifyNameState n resolved =
     (if \<not> VALID_NAME_RE n then Invalid
      else if orElse resolved [] \<noteq> [] then Taken else Available)"

datatype claimer_source = SourceParam | SourceSingle | SourceRecent | SourceNone

fun mostRecent :: "(string \<Rightarrow> int) \<Rightarrow> string list \<Rightarrow> string \<Rightarrow> string" where
  "mostRecent ts [] best = best"
| "mostRecent ts (i # ids) best = mostRecent ts ids (if ts i > ts best then i else best)"

definition selectClaimer ::
  "string option \<Rightarrow> string list \<Rightarrow> (string \<rightharpoonup> int) \<Rightarrow> string option \<times> claimer_source" where
  "selectClaimer paramAccount accounts lastUsed =
     (let id = toUpperCase (orElse paramAccount [])
      in if orElse paramAccount [] \<noteq> [] \<and> isContractId id then (Some id, SourceParam)
         else (case accounts of
                 [] \<Rightarrow> (None, SourceNone)
               | [a] \<Rightarrow> (Some a, SourceSingle)
               | a # _ \<Rightarrow> (Some (mostRecent (\<lambda>i. orElse (lastUsed i) 0) accounts a), SourceRecent)))"

text \<open>The shortened id carries an ellipsis, which is the three bytes of its UTF-8 form here.\<close>

definition formatClaimerLabel :: "string \<Rightarrow> string option \<Rightarrow> string" where
  "formatClaimerLabel contractId n =
     (if orElse n [] \<noteq> [] then orElse n []
      else take 4 contractId @ [CHR 0xe2, CHR 0x80, CHR 0xa6] @ drop (length contractId - 4) contractId)"

record handoff_params =
  apexHost :: string
  fromHost :: string
  claimName :: string
  claimerContractId :: string
  claimerName :: "string option"
  handoff_protocol :: "string option"

definition buildClaimHandoffUrl :: "handoff_params \<Rightarrow> string" where
  "buildClaimHandoffUrl p =
     (let key = orElse (claimerName p) (claimerContractId p);
          search = searchParams [(''claim'', claimName p), (''account'', claimerContractId p), (''from'', fromHost p)]
      in orElse (handoff_protocol p) ''https:'' @ accountUrl (apexHost p) key (''/account/?'' @ search))"

definition parseReturnIntent :: "string option \<Rightarrow> string option" where
  "parseReturnIntent intent =
     (case intent of
        None \<Rightarrow> None
      | Some t \<Rightarrow>
          if startsWith t ''claim:'' \<and> length t > 6 \<and> VALID_NAME_RE (toLowerCase (drop 6 t))
          then Some (toLowerCase (drop 6 t)) else None)"

definition buildClaimReturnUrl :: "string \<Rightarrow> string \<Rightarrow> string \<Rightarrow> string option \<Rightarrow> string" where
  "buildClaimReturnUrl apex n contractId protocol =
     orElse protocol ''https:'' @ accountUrl apex n (''/account/?'' @ searchParams [(''account'', contractId)])"

section \<open>The site map\<close>

text \<open>
  The addresses of a deployment: production on an apex domain, or a numbered preview of it. A
  page is the root or has a first label (an account address, a name or a built-in dApp).
\<close>

record site =
  site_apex :: string
  site_preview :: "string option"

definition page :: "site \<Rightarrow> string option \<Rightarrow> string" where
  "page s label =
     (case (label, site_preview s) of
        (None, None) \<Rightarrow> site_apex s
      | (None, Some n) \<Rightarrow> n @ ''.'' @ site_apex s
      | (Some l, None) \<Rightarrow> l @ ''.'' @ site_apex s
      | (Some l, Some n) \<Rightarrow> l @ ''--'' @ n @ ''.'' @ site_apex s)"

definition good_label :: "string \<Rightarrow> bool" where
  "good_label l \<longleftrightarrow> l \<noteq> [] \<and> CHR ''.'' \<notin> set l \<and> bareRoot l = None \<and> snd (previewSubdomain l) = None"

definition wf_site :: "site \<Rightarrow> bool" where
  "wf_site s \<longleftrightarrow> length (labels (site_apex s)) = 2 \<and> good_label (hd (labels (site_apex s))) \<and>
     CHR ''/'' \<notin> set (site_apex s) \<and> (case site_preview s of None \<Rightarrow> True | Some n \<Rightarrow> all_digits n)"

section \<open>Facts about labels\<close>

lemma digit_not_special: "is_digit c \<Longrightarrow> c \<noteq> CHR ''-'' \<and> c \<noteq> CHR ''.'' \<and> c \<noteq> CHR '':'' \<and> c \<noteq> CHR ''/''"
  by (auto simp: is_digit_def)

lemma labels_Cons: "CHR ''.'' \<notin> set l \<Longrightarrow> labels (l @ CHR ''.'' # s) = l # labels s"
  by (rule split_on_append)

lemma trailing_digits_append:
  assumes "list_all is_digit n" "\<not> is_digit c"
  shows "trailing_digits (l @ c # n) = n" "before_digits (l @ c # n) = l @ [c]"
proof -
  have n: "\<And>x. x \<in> set (rev n) \<Longrightarrow> is_digit x" using assms(1) by (simp add: list_all_iff)
  have "takeWhile is_digit (rev n @ c # rev l) = rev n @ takeWhile is_digit (c # rev l)"
    by (rule takeWhile_append2) (rule n)
  moreover have "dropWhile is_digit (rev n @ c # rev l) = dropWhile is_digit (c # rev l)"
    by (rule dropWhile_append2) (rule n)
  ultimately show "trailing_digits (l @ c # n) = n" "before_digits (l @ c # n) = l @ [c]"
    using assms(2) by (simp_all add: trailing_digits_def before_digits_def)
qed

lemma previewSubdomain_suffix:
  assumes "all_digits n"
  shows "previewSubdomain (l @ ''--'' @ n) = (l, Some n)"
proof -
  have "list_all is_digit n" "n \<noteq> []" using assms by (simp_all add: all_digits_def)
  moreover have d: "\<not> is_digit CHR ''-''" by (simp add: is_digit_def)
  ultimately have "trailing_digits ((l @ ''-'') @ CHR ''-'' # n) = n"
    "before_digits ((l @ ''-'') @ CHR ''-'' # n) = (l @ ''-'') @ [CHR ''-'']"
    using trailing_digits_append [of n "CHR ''-''" "l @ ''-''"] by simp_all
  moreover have "\<not> endsWith (l @ ''--'') ''--pr-''"
  proof
    assume "endsWith (l @ ''--'') ''--pr-''"
    then obtain t where "(l @ ''-'') @ ''-'' = (t @ ''--pr'') @ ''-''" by (auto simp: endsWith_iff)
    then have "l @ ''-'' = t @ ''--pr''" unfolding append_same_eq .
    then have "last (l @ ''-'') = last (t @ ''--pr'')" by (rule arg_cong)
    then show False by simp
  qed
  moreover have "endsWith (l @ ''--'') ''--''" by (auto simp: endsWith_iff)
  ultimately show ?thesis using \<open>n \<noteq> []\<close> by (simp add: previewSubdomain_def)
qed

lemma all_digits_no_dot: "all_digits n \<Longrightarrow> CHR ''.'' \<notin> set n"
  by (auto simp: all_digits_def list_all_iff dest: digit_not_special)

lemma before_digits_set: "set (before_digits s) \<subseteq> set s"
  by (auto simp: before_digits_def dest: set_dropWhileD)

lemma previewSubdomain_plain: "CHR ''-'' \<notin> set s \<Longrightarrow> previewSubdomain s = (s, None)"
  using before_digits_set [of s] by (auto simp: previewSubdomain_def Let_def endsWith_iff)

lemma previewSubdomain_None: "snd (previewSubdomain s) = None \<Longrightarrow> previewSubdomain s = (s, None)"
  by (auto simp: previewSubdomain_def Let_def split: if_splits)

lemma previewSubdomain_digits: "all_digits n \<Longrightarrow> previewSubdomain n = (n, None)"
  by (rule previewSubdomain_plain) (auto simp: all_digits_def list_all_iff dest: digit_not_special)

lemma bareRoot_suffix:
  assumes "all_digits n"
  shows "bareRoot (l @ ''--'' @ n) = None"
proof -
  have "\<not> all_digits (l @ ''--'' @ n)" by (simp add: all_digits_def is_digit_def)
  moreover have "legacyRoot (l @ ''--'' @ n) = None"
  proof (rule ccontr)
    assume "legacyRoot (l @ ''--'' @ n) \<noteq> None"
    then have "startsWith (l @ ''--'' @ n) ''pr-''" and d: "all_digits (drop 3 (l @ ''--'' @ n))"
      by (simp_all add: legacyRoot_def split: if_splits)
    then obtain ds where e: "l @ ''--'' @ n = ''pr-'' @ ds" by (auto simp only: startsWith_iff)
    have "all_digits ds" using d unfolding e by simp
    have "count_list (l @ ''--'' @ n) CHR ''-'' = count_list (''pr-'' @ ds) CHR ''-''" by (simp only: e)
    moreover have "count_list ds CHR ''-'' = 0"
      using \<open>all_digits ds\<close> by (auto simp: all_digits_def list_all_iff count_list_0_iff dest: digit_not_special)
    ultimately show False by simp
  qed
  ultimately show ?thesis by (simp add: bareRoot_def)
qed

lemma bareRoot_None: "bareRoot l = None \<longleftrightarrow> \<not> all_digits l \<and> legacyRoot l = None"
  by (simp add: bareRoot_def)

section \<open>Facts about the site map\<close>

lemma site_labels:
  assumes "wf_site s"
  obtains a b where "site_apex s = a @ ''.'' @ b" "labels (site_apex s) = [a, b]" "good_label a"
proof -
  obtain a b where ab: "labels (site_apex s) = [a, b]"
    using assms by (auto simp: wf_site_def length_Suc_conv numeral_2_eq_2)
  moreover have "site_apex s = a @ ''.'' @ b" using join_split_on [of "CHR ''.''" "site_apex s"] ab by simp
  ultimately show thesis using assms that by (simp add: wf_site_def)
qed

text \<open>The first label of a page, and what the functions see in it.\<close>

lemma page_labels:
  assumes "wf_site s" "good_label l"
  shows "labels (page s (Some l)) = (case site_preview s of None \<Rightarrow> l | Some n \<Rightarrow> l @ ''--'' @ n) # labels (site_apex s)"
    and "labels (page s None) = (case site_preview s of None \<Rightarrow> [] | Some n \<Rightarrow> [n]) @ labels (site_apex s)"
proof -
  have "CHR ''.'' \<notin> set (case site_preview s of None \<Rightarrow> l | Some n \<Rightarrow> l @ ''--'' @ n)"
    using assms by (auto simp: good_label_def wf_site_def all_digits_no_dot split: option.split)
  from labels_Cons [OF this, of "site_apex s"]
  show "labels (page s (Some l)) = (case site_preview s of None \<Rightarrow> l | Some n \<Rightarrow> l @ ''--'' @ n) # labels (site_apex s)"
    by (simp add: page_def split: option.splits)
  show "labels (page s None) = (case site_preview s of None \<Rightarrow> [] | Some n \<Rightarrow> [n]) @ labels (site_apex s)"
    using assms by (auto simp: page_def wf_site_def all_digits_no_dot labels_Cons split: option.split)
qed

lemma page_first:
  assumes "wf_site s" "good_label l"
  shows "previewSubdomain (hd (labels (page s (Some l)))) = (l, site_preview s)"
    and "bareRoot (hd (labels (page s (Some l)))) = None"
  using assms page_labels(1) [OF assms]
  by (auto simp: good_label_def wf_site_def previewSubdomain_suffix [simplified] previewSubdomain_None
      bareRoot_suffix [simplified] split: option.split)

lemma page_preview:
  assumes "wf_site s" "\<And>l. r = Some l \<Longrightarrow> good_label l"
  shows "previewPrefix (page s r) = site_preview s"
proof (cases r)
  case None
  obtain a b where "labels (site_apex s) = [a, b]" "good_label a" using assms(1) by (rule site_labels)
  moreover have "labels (page s None) = (case site_preview s of None \<Rightarrow> [] | Some n \<Rightarrow> [n]) @ labels (site_apex s)"
    using page_labels(2) [OF assms(1) \<open>good_label a\<close>] .
  ultimately show ?thesis
    using None assms(1)
    by (auto simp: previewPrefix_def good_label_def bareRoot_None previewSubdomain_digits wf_site_def
        split: option.split)
next
  case (Some l)
  with assms page_first [OF assms(1), of l] page_labels(1) [OF assms(1), of l] show ?thesis
    by (cases "site_preview s") (auto simp: previewPrefix_def wf_site_def bareRoot_None)
qed

lemma page_siteHost:
  assumes "wf_site s" "\<And>l. r = Some l \<Longrightarrow> good_label l"
  shows "siteHost (page s r) l' = page s (Some l')"
proof -
  obtain a b where ab: "site_apex s = a @ ''.'' @ b" "labels (site_apex s) = [a, b]" "good_label a"
    using assms(1) by (rule site_labels)
  have "labels (page s r) = (case r of
      None \<Rightarrow> (case site_preview s of None \<Rightarrow> [] | Some n \<Rightarrow> [n])
    | Some l \<Rightarrow> [case site_preview s of None \<Rightarrow> l | Some n \<Rightarrow> l @ ''--'' @ n]) @ [a, b]"
    using page_labels [OF assms(1)] ab assms(2) by (cases r) auto
  moreover have "previewPrefix (page s r) = site_preview s" using assms by (rule page_preview)
  ultimately show ?thesis
    by (cases r; cases "site_preview s") (simp_all add: siteHost_def page_def ab(1))
qed

lemma page_stripSubdomain:
  assumes "wf_site s" "\<And>l. r = Some l \<Longrightarrow> good_label l"
  shows "stripSubdomain (page s r) =
    (if r = None \<and> site_preview s = None then last (labels (site_apex s)) else page s None)"
proof -
  obtain a b where ab: "site_apex s = a @ ''.'' @ b" "labels (site_apex s) = [a, b]" "good_label a"
    using assms(1) by (rule site_labels)
  show ?thesis
  proof (cases r)
    case None
    with page_labels(2) [OF assms(1) ab(3)] ab assms(1) show ?thesis
      by (auto simp: stripSubdomain_def good_label_def page_def wf_site_def bareRoot_def split: option.split)
  next
    case (Some l)
    with assms(2) have l: "good_label l" by simp
    from page_first [OF assms(1) l] page_labels(1) [OF assms(1) l] ab Some show ?thesis
      by (auto simp: stripSubdomain_def page_def Let_def split: option.split)
  qed
qed

lemma good_label_alnum:
  assumes "l \<noteq> []" "is_alpha (hd l)" "list_all is_alnum l"
  shows "good_label l"
proof -
  have x: "CHR ''-'' \<notin> set l" "CHR ''.'' \<notin> set l"
    using assms(3) by (auto simp: list_all_iff is_alnum_def is_alpha_def is_digit_def is_lower_def is_upper_def)
  have "\<not> all_digits l" using assms(1,2) by (cases l) (auto simp: all_digits_def is_alpha_def is_digit_def is_lower_def is_upper_def)
  moreover have "legacyRoot l = None" using x(1) by (auto simp: legacyRoot_def startsWith_iff)
  ultimately show ?thesis using assms(1) x by (simp add: good_label_def bareRoot_def previewSubdomain_plain)
qed

lemma is_alpha_lower [simp]: "is_alpha (lower c) = is_alpha c"
  by (auto simp: is_alpha_def is_lower_def is_upper_def code_lower)

lemma is_alnum_lower [simp]: "is_alnum (lower c) = is_alnum c"
  by (simp add: is_alnum_def)

lemma contract_label:
  assumes "isContractId i" "list_all is_alnum i"
  shows "good_label (toLowerCase i)" "isContractId (toLowerCase i)"
proof -
  obtain c cs where i: "i = c # cs" "c = CHR ''c'' \<or> c = CHR ''C''"
    using assms(1) by (cases i) (auto simp: isContractId_def)
  then have c: "lower c = CHR ''c''" by (auto simp: lower_def is_upper_def eq_char_of_iff)
  have "is_alpha c" using i(2) by (auto simp: is_alpha_def is_lower_def is_upper_def)
  then show "good_label (toLowerCase i)"
    using i(1) assms(2) by (intro good_label_alnum) (auto simp: toLowerCase_def list_all_iff)
  show "isContractId (toLowerCase i)"
    using assms(1) i(1) c by (simp add: isContractId_def toLowerCase_def)
qed

lemma valid_name:
  assumes "VALID_NAME_RE n"
  shows "good_label n" "toLowerCase n = n" "\<not> isContractId n" "length n \<le> 15" "\<not> all_digits n" "legacyRoot n = None"
proof -
  obtain c cs where n: "n = c # cs" "is_lower c" "length cs \<le> 14" "list_all (\<lambda>d. is_lower d \<or> is_digit d) cs"
    using assms by (cases n) (auto simp: VALID_NAME_RE_def)
  show "good_label n"
    using n by (intro good_label_alnum) (auto simp: is_alpha_def is_alnum_def list_all_iff)
  then show "\<not> all_digits n" "legacyRoot n = None" by (simp_all add: good_label_def bareRoot_None)
  have "lower d = d" if "is_lower d \<or> is_digit d" for d
    using that by (intro lower_fixed) (auto simp: is_lower_def is_digit_def is_upper_def)
  then show "toLowerCase n = n" using n by (auto simp: toLowerCase_def list_all_iff intro!: map_idI)
  show "\<not> isContractId n" "length n \<le> 15" using n by (auto simp: isContractId_def)
qed

lemma page_no_slash: "wf_site s \<Longrightarrow> CHR ''/'' \<notin> set (page s None)"
  by (auto simp: wf_site_def page_def all_digits_def list_all_iff split: option.splits dest: digit_not_special)

lemma splitScheme_host: "CHR ''/'' \<notin> set host \<Longrightarrow> splitScheme host = (None, host)"
  by (auto simp: splitScheme_def Let_def startsWith_iff)
     (metis in_set_conv_decomp append_Cons list.set_intros(1) set_dropWhileD)

lemma page_splitPreview:
  assumes "wf_site s"
  shows "splitPreview (page s None) = (site_preview s, site_apex s)"
proof -
  obtain a b where ab: "site_apex s = a @ ''.'' @ b" "labels (site_apex s) = [a, b]" "good_label a"
    using assms by (rule site_labels)
  with page_labels(2) [OF assms ab(3)] assms show ?thesis
    by (cases "site_preview s")
       (auto simp: splitPreview_def wf_site_def good_label_def bareRoot_None page_def)
qed

section \<open>Properties\<close>

text \<open>
  The SDK and the wallet-kit module implement one site map. From any page of a deployment
  (production or a numbered preview) the address of an account is its lowercase label on the
  same deployment; reading that address gives the contract back and no name, and dropping its
  label gives the deployment's root. The module, given only the root, arrives at the same
  origin. Up to preview 99999 the label is within DNS's 63 characters.
\<close>

theorem account_pages:
  assumes "wf_site s" "\<And>l. r = Some l \<Longrightarrow> good_label l" "isContractId i" "list_all is_alnum i"
  shows "accountUrl (page s r) i path = ''//'' @ page s (Some (toLowerCase i)) @ path \<and>
    contractIdFromHostname (page s (Some (toLowerCase i))) = Some (toUpperCase i) \<and>
    nameFromHostname (page s (Some (toLowerCase i))) = None \<and>
    stripSubdomain (page s (Some (toLowerCase i))) = page s None \<and>
    accountOrigin (page s None) i = Inr (''https://'' @ page s (Some (toLowerCase i))) \<and>
    ((\<forall>n. site_preview s = Some n \<longrightarrow> length n \<le> 5) \<longrightarrow>
       length (hd (labels (page s (Some (toLowerCase i))))) \<le> 63)"
proof -
  note i = contract_label [OF assms(3,4)]
  have len: "length (labels (page s (Some (toLowerCase i)))) = 3" "i \<noteq> []" "length i = 56"
    using page_labels(1) [OF assms(1) i(1)] assms(1,3) by (auto simp: wf_site_def isContractId_def)
  have "contractIdFromHostname (page s (Some (toLowerCase i))) = Some (toUpperCase i)"
    "nameFromHostname (page s (Some (toLowerCase i))) = None"
    using page_first(1) [OF assms(1) i(1)] len i(2)
    by (auto simp: contractIdFromHostname_def nameFromHostname_def Let_def simp flip: length_0_conv)
  moreover have "accountOrigin (page s None) i = Inr (''https://'' @ page s (Some (toLowerCase i)))"
    using splitScheme_host [OF page_no_slash [OF assms(1)]] page_splitPreview [OF assms(1)] assms(3)
    by (simp add: accountOrigin_def page_def split: option.split)
  moreover have "length (hd (labels (page s (Some (toLowerCase i))))) \<le> 63"
    if "\<forall>n. site_preview s = Some n \<longrightarrow> length n \<le> 5"
    using that page_labels(1) [OF assms(1) i(1)] len by (auto split: option.split)
  ultimately show ?thesis
    using page_siteHost [OF assms(1,2)] page_stripSubdomain [OF assms(1), of "Some (toLowerCase i)"] i(1)
    by (simp add: accountUrl_def)
qed

text \<open>A sample deployment and account.\<close>

definition sample_site :: site where
  "sample_site = \<lparr>site_apex = ''nido.fyi'', site_preview = Some ''24''\<rparr>"

definition sample_id :: string where
  "sample_id = CHR ''C'' # replicate 55 CHR ''A''"

lemma sample_site: "wf_site sample_site" "good_label ''alice''"
  by code_simp+

lemma sample_id: "isContractId sample_id" "list_all is_alnum sample_id"
  by code_simp+

theorem account_pages_witness:
  "accountUrl ''alice--24.nido.fyi'' sample_id ''/'' =
     ''//'' @ page sample_site (Some (toLowerCase sample_id)) @ ''/''"
proof -
  have "page sample_site (Some ''alice'') = ''alice--24.nido.fyi''" by code_simp
  with account_pages [of sample_site "Some ''alice''" sample_id "''/''"] sample_site sample_id
  show ?thesis by simp
qed

lemma reserved_members:
  "list_all (\<lambda>m. m = ''constructor'' \<or> \<not> VALID_NAME_RE m) (''status-message'' # object_members)"
  "''constructor'' \<in> set object_members"
  by code_simp+

lemma reserved_valid:
  assumes "VALID_NAME_RE n"
  shows "RESERVED_DAPP_SUBDOMAINS n = None \<longleftrightarrow> n \<noteq> ''constructor''"
proof -
  have "RESERVED_DAPP_SUBDOMAINS n = None \<longleftrightarrow> n \<notin> set (''status-message'' # object_members)"
    by (simp add: RESERVED_DAPP_SUBDOMAINS_def)
  also have "\<dots> \<longleftrightarrow> n \<noteq> ''constructor''"
  proof
    assume "n \<notin> set (''status-message'' # object_members)"
    then show "n \<noteq> ''constructor''" using reserved_members(2) by (metis list.set_intros(2))
  next
    assume "n \<noteq> ''constructor''"
    then show "n \<notin> set (''status-message'' # object_members)"
      using reserved_members(1) assms unfolding list_all_iff by blast
  qed
  finally show ?thesis .
qed

text \<open>
  Every valid name is read back from its page, on every deployment, with one exception: on
  the page of the name \<open>constructor\<close> no name is found, because the table of reserved labels
  inherits a member of that name.
\<close>

theorem valid_names_read_back:
  assumes "wf_site s" "VALID_NAME_RE n"
  shows "accountUrl (page s None) n path = ''//'' @ page s (Some n) @ path \<and>
    nameFromHostname (page s (Some n)) = (if n = ''constructor'' then None else Some n)"
proof -
  note v = valid_name [OF assms(2)]
  have len: "length (labels (page s (Some n))) = 3" "n \<noteq> []"
    using page_labels(1) [OF assms(1) v(1)] assms by (auto simp: wf_site_def VALID_NAME_RE_def)
  have "RESERVED_DAPP_SUBDOMAINS n = None \<longleftrightarrow> n \<noteq> ''constructor''"
    using assms(2) by (rule reserved_valid)
  then have "nameFromHostname (page s (Some n)) = (if n = ''constructor'' then None else Some n)"
    using page_first [OF assms(1) v(1)] v len
    by (simp add: nameFromHostname_def Let_def bareRoot_None)
  with page_siteHost [OF assms(1), of None n] v(2) show ?thesis by (simp add: accountUrl_def)
qed

theorem valid_names_read_back_witness:
  "nameFromHostname ''alice--24.nido.fyi'' = Some ''alice''"
proof -
  have "page sample_site (Some ''alice'') = ''alice--24.nido.fyi''" "VALID_NAME_RE ''alice''" by code_simp+
  with valid_names_read_back [OF sample_site(1), of "''alice''" "[]"] show ?thesis by simp
qed

end
