(* ===== verification/Resolver.thy ===== *)
theory Resolver
  imports Url PoolIndexer
begin

text \<open>
  Resolving names and addresses: the public resolver (\<open>infra/nido-resolver\<close>), the SDK's
  \<open>resolve.ts\<close>, \<open>registry.ts\<close> and \<open>resolveFriendInput.ts\<close>, and the frontend's
  \<open>resolveAccount.ts\<close> and \<open>recipientInput.ts\<close>. A contract read is simulated by the RPC, a
  parameter: its answer is a failure of the transport (\<open>Inl\<close>), a simulation error, or a
  value that \<open>scValToNative\<close> may fail to decode.
\<close>

section \<open>Reading a contract by simulation\<close>

datatype 'v simulation = SimError string | SimNoResult | SimValue "'v result"

text \<open>The method and the argument of the call.\<close>

type_synonym rpc_read = "string \<Rightarrow> string \<Rightarrow> string simulation result"

definition nonempty :: "string \<Rightarrow> string option" where
  "nonempty s = (if s = [] then None else Some s)"

definition callString :: "rpc_read \<Rightarrow> string \<Rightarrow> string \<Rightarrow> string option result" where
  "callString rpc fn argument =
     bindR (rpc fn argument) (\<lambda>sim.
       (case sim of
          SimError _ \<Rightarrow> Inr None
        | SimNoResult \<Rightarrow> Inr None
        | SimValue v \<Rightarrow> (case v of Inl _ \<Rightarrow> Inr None | Inr s \<Rightarrow> Inr (nonempty s))))"

definition resolveName :: "rpc_read \<Rightarrow> string \<Rightarrow> string option result" where
  "resolveName rpc n = callString rpc ''resolve'' n"

definition lookupName :: "rpc_read \<Rightarrow> string \<Rightarrow> string option result" where
  "lookupName rpc address = callString rpc ''lookup'' address"

text \<open>The session cache keeps the answer and its time; \<open>None\<close> for a cache that is not readable.\<close>

definition CACHE_TTL_MS :: int where
  "CACHE_TTL_MS = 5 * 60 * 1000"

type_synonym name_cache = "string \<rightharpoonup> string \<times> int"

definition resolveNameCached ::
  "rpc_read \<Rightarrow> name_cache option \<Rightarrow> int \<Rightarrow> string \<Rightarrow> (string option \<times> name_cache option) result" where
  "resolveNameCached rpc cache now n =
     (case Option.bind (Option.bind cache (\<lambda>c. c n)) (\<lambda>(i, t). if now - t < CACHE_TTL_MS then Some i else None) of
        Some i \<Rightarrow> Inr (Some i, cache)
      | None \<Rightarrow>
          bindR (resolveName rpc n) (\<lambda>r.
            Inr (r, (case r of None \<Rightarrow> cache | Some i \<Rightarrow> map_option (\<lambda>c. c(n \<mapsto> (i, now))) cache))))"

section \<open>The on-chain registry of contracts\<close>

definition registryLookup :: "rpc_read \<Rightarrow> string \<Rightarrow> string option result" where
  "registryLookup rpc n =
     bindR (rpc ''fetch_contract_id'' n) (\<lambda>sim.
       (case sim of
          SimError e \<Rightarrow> Inl (Error ''registry fetch_contract_id failed'')
        | SimNoResult \<Rightarrow> Inr None
        | SimValue v \<Rightarrow> bindR v (\<lambda>s. Inr (nonempty s))))"

definition REGISTRY_FALLBACKS :: "string \<rightharpoonup> string" where
  "REGISTRY_FALLBACKS =
     [''factory'' \<mapsto> ''CBQKB6GYPO7P2CGDKN7KYLEFEBBN6FY5NXZJ7HNR43ZK2DDOU5N7NCV5'',
      ''name-registry'' \<mapsto> ''CDVVRZAVXTUQLS5LCGUP3H26RGOIUFKNE2UEJ6CAWYMBWY5LNORF6POX'',
      ''status-message'' \<mapsto> ''CD5FK6CQ7QIZ5ONARG36Y53ERI5PIBGELSJUTD7OXYLK6EQAS4N3TFBV'',
      ''verifier'' \<mapsto> ''CACVGSAHYFBXY4LJKWW5B57LAAXHCZVDZOANUTYPLNV6HHQI4Q35EGMY'']"

definition fetchRegistryAddress :: "(string \<Rightarrow> string option result) \<Rightarrow> string \<Rightarrow> string result" where
  "fetchRegistryAddress lookup n =
     (case (case lookup n of Inr (Some r) \<Rightarrow> nonempty r | _ \<Rightarrow> None) of
        Some resolved \<Rightarrow> Inr resolved
      | None \<Rightarrow>
          (case REGISTRY_FALLBACKS n of
             Some fallback \<Rightarrow> Inr fallback
           | None \<Rightarrow> Inl (Error ''[nido] could not resolve via the registry and no fallback exists'')))"

section \<open>The resolver service\<close>

record resolver_registry =
  reg_resolve :: "string \<Rightarrow> string option result"
  reg_lookup :: "string \<Rightarrow> string option result"

definition makeRegistry :: "rpc_read \<Rightarrow> resolver_registry" where
  "makeRegistry rpc = \<lparr>reg_resolve = callString rpc ''resolve'', reg_lookup = callString rpc ''lookup''\<rparr>"

definition CONTRACT_ID_RE :: "string \<Rightarrow> bool" where
  "CONTRACT_ID_RE s \<longleftrightarrow> length s = 56 \<and> hd s = CHR ''C'' \<and> list_all is_base32 (tl s)"

definition NAME_RE :: "string \<Rightarrow> bool" where
  "NAME_RE s \<longleftrightarrow> (case s of [] \<Rightarrow> False
     | c # cs \<Rightarrow> is_lower c \<and> length cs \<le> 14 \<and> list_all (\<lambda>d. is_lower d \<or> is_digit d) cs)"

definition stripPreview :: "string \<Rightarrow> string" where
  "stripPreview label =
     (let pre = before_digits label
      in if trailing_digits label = [] then label
         else if endsWith pre ''--pr-'' then take (length pre - 5) pre
         else if endsWith pre ''--'' then take (length pre - 2) pre
         else label)"

text \<open>The resolver's own table of reserved labels; an object literal as well.\<close>

definition reserved_label :: "string \<Rightarrow> bool" where
  "reserved_label key \<longleftrightarrow> key = ''status-message'' \<or> key \<in> set object_members"

datatype resolve_body =
    ResolveEmpty
  | ResolveError string
  | NameNotFound string string
  | Resolved "string option" string string

type_synonym resolve_response = "nat \<times> resolve_body \<times> string"

definition OK_CACHE :: string where
  "OK_CACHE = ''public, max-age=60''"

definition MISS_CACHE :: string where
  "MISS_CACHE = ''public, max-age=10''"

definition reverseLookup :: "resolver_registry \<Rightarrow> string \<Rightarrow> string \<Rightarrow> resolve_response" where
  "reverseLookup registry network candidate =
     (case reg_lookup registry candidate of
        Inr n \<Rightarrow> (200, Resolved n candidate network, OK_CACHE)
      | Inl _ \<Rightarrow> (502, ResolveError ''resolver upstream unavailable'', ''no-store''))"

definition forwardResolve :: "resolver_registry \<Rightarrow> string \<Rightarrow> string \<Rightarrow> resolve_response" where
  "forwardResolve registry network n =
     (case reg_resolve registry n of
        Inr address \<Rightarrow>
          (case Option.bind address nonempty of
             None \<Rightarrow> (404, NameNotFound n network, MISS_CACHE)
           | Some a \<Rightarrow> (200, Resolved (Some n) a network, OK_CACHE))
      | Inl _ \<Rightarrow> (502, ResolveError ''resolver upstream unavailable'', ''no-store''))"

definition handleResolve :: "resolver_registry \<Rightarrow> string \<Rightarrow> http_request \<Rightarrow> resolve_response" where
  "handleResolve registry network request =
     (if http_method request = ''OPTIONS'' then (204, ResolveEmpty, [])
      else if http_method request \<noteq> ''GET'' then (405, ResolveError ''method not allowed'', MISS_CACHE)
      else if pathname request \<noteq> ''/.well-known/nido.json'' then (404, ResolveError ''not found'', MISS_CACHE)
      else
        let firstLabel = hd (labels (hostname request));
            raw = stripPreview firstLabel;
            candidate = toUpperCase raw
        in if CONTRACT_ID_RE candidate then reverseLookup registry network candidate
           else
             let n = toLowerCase raw;
                 isPreviewRoot = all_digits firstLabel \<or> legacyRoot firstLabel \<noteq> None
             in if \<not> isPreviewRoot \<and> NAME_RE n \<and> \<not> reserved_label n
                then forwardResolve registry network n
                else (404, ResolveError ''not a Nido account'', MISS_CACHE))"

section \<open>Resolving in the wallet\<close>

definition resolveAccountFromHostname :: "(string \<Rightarrow> string option result) \<Rightarrow> string \<Rightarrow> string option" where
  "resolveAccountFromHostname resolve host =
     (case contractIdFromHostname host of
        Some sub \<Rightarrow>
          if isContractId sub then Some sub
          else (case nameFromHostname host of
                  None \<Rightarrow> None
                | Some n \<Rightarrow> (case resolve n of Inl _ \<Rightarrow> None | Inr a \<Rightarrow> a))
      | None \<Rightarrow>
          (case nameFromHostname host of
             None \<Rightarrow> None
           | Some n \<Rightarrow> (case resolve n of Inl _ \<Rightarrow> None | Inr a \<Rightarrow> a)))"

text \<open>The validity of addresses (\<open>StrKey\<close>) is the library's.\<close>

datatype resolved_friend =
    FriendName string string
  | FriendContract string string
  | FriendAccount string string

record strkey =
  isValidContract :: "string \<Rightarrow> bool"
  isValidEd25519PublicKey :: "string \<Rightarrow> bool"

definition NIDO_NAME_RE :: "string \<Rightarrow> bool" where
  "NIDO_NAME_RE s \<longleftrightarrow> (case s of [] \<Rightarrow> False
     | c # cs \<Rightarrow> is_lower c \<and> length cs \<le> 14 \<and> list_all (\<lambda>d. is_lower d \<or> is_digit d) cs)"

definition resolveFriendInput ::
  "strkey \<Rightarrow> (string \<Rightarrow> string option result) \<Rightarrow> string \<Rightarrow> resolved_friend option result" where
  "resolveFriendInput keys resolve input =
     (let trimmed = trim input
      in if trimmed = [] then Inr None
         else if isValidContract keys trimmed then Inr (Some (FriendContract trimmed trimmed))
         else if isValidEd25519PublicKey keys trimmed then Inr (Some (FriendAccount trimmed trimmed))
         else if NIDO_NAME_RE trimmed then
           bindR (resolve trimmed) (\<lambda>r.
             Inr (map_option (\<lambda>a. FriendName a trimmed) (Option.bind r nonempty)))
         else Inr None)"

definition KNOWN_SUFFIXES :: "string list" where
  "KNOWN_SUFFIXES = [''.nido.fyi'', ''.nido'', ''.localhost'']"

definition normalizeRecipientInput :: "string \<Rightarrow> string" where
  "normalizeRecipientInput raw =
     (let trimmed = trim raw; lowered = toLowerCase trimmed
      in case find (\<lambda>suffix. endsWith lowered suffix) KNOWN_SUFFIXES of
           Some suffix \<Rightarrow> take (length lowered - length suffix) lowered
         | None \<Rightarrow> trimmed)"

definition resolveSendRecipient ::
  "strkey \<Rightarrow> (string \<Rightarrow> string option result) \<Rightarrow> string \<Rightarrow> resolved_friend option result" where
  "resolveSendRecipient keys resolve input = resolveFriendInput keys resolve (normalizeRecipientInput input)"

section \<open>Facts\<close>

lemma stripPreview_raw: "stripPreview label = fst (previewSubdomain label)"
  by (simp add: stripPreview_def previewSubdomain_def Let_def)

lemma reserved_label_iff: "reserved_label key \<longleftrightarrow> RESERVED_DAPP_SUBDOMAINS key \<noteq> None"
  by (simp add: reserved_label_def RESERVED_DAPP_SUBDOMAINS_def)

lemma NAME_RE_VALID: "NAME_RE = VALID_NAME_RE" "NIDO_NAME_RE = VALID_NAME_RE"
  by (simp_all add: fun_eq_iff NAME_RE_def NIDO_NAME_RE_def VALID_NAME_RE_def)

lemma isContractId_upper [simp]: "isContractId (toUpperCase s) = isContractId s"
  by (cases s) (auto simp: isContractId_def toUpperCase_def upper_def is_lower_def eq_char_of_iff simp flip: code_inject)

lemma CONTRACT_ID_RE_isContractId: "CONTRACT_ID_RE s \<Longrightarrow> isContractId s"
  by (simp add: CONTRACT_ID_RE_def isContractId_def)

section \<open>Properties\<close>

text \<open>
  C39. How the resolver and the wallet's pages read a host name with at least two labels, and
  where they part. The resolver's answer is a reverse lookup of exactly the contract that the
  wallet reads from the host, when it is base32, a forward lookup of exactly the name that the
  wallet reads, when it is a valid one, and 404 for every other host. Whenever the resolver
  answers with an address, a page on that host resolves its account to the same one. They
  differ on the rest: a label of 56 characters that starts with \<open>c\<close> and is not base32 is an
  account to the wallet, which opens its page without a lookup, and a label such as
  \<open>foo-bar\<close> is a name that the wallet looks up; the resolver answers 404 to both.
\<close>

theorem resolver_agrees_with_wallet:
  assumes "http_method req = ''GET''" "pathname req = ''/.well-known/nido.json''"
    and "2 \<le> length (labels (hostname req))"
  shows "handleResolve registry network req =
      (case (contractIdFromHostname (hostname req), nameFromHostname (hostname req)) of
         (Some c, n) \<Rightarrow>
           if CONTRACT_ID_RE c then reverseLookup registry network c
           else if \<exists>m. n = Some m \<and> VALID_NAME_RE m then forwardResolve registry network (the n)
           else (404, ResolveError ''not a Nido account'', MISS_CACHE)
       | (None, n) \<Rightarrow> (404, ResolveError ''not a Nido account'', MISS_CACHE)) \<and>
    (\<forall>n a net cache. handleResolve registry network req = (200, Resolved n a net, cache) \<longrightarrow>
       resolveAccountFromHostname (reg_resolve registry) (hostname req) = Some a) \<and>
    (\<forall>c. contractIdFromHostname (hostname req) = Some c \<and> isContractId c \<and> \<not> CONTRACT_ID_RE c \<longrightarrow>
       fst (handleResolve registry network req) = 404 \<and>
       resolveAccountFromHostname (reg_resolve registry) (hostname req) = Some c) \<and>
    (\<forall>n. nameFromHostname (hostname req) = Some n \<and> \<not> VALID_NAME_RE n \<longrightarrow>
       fst (handleResolve registry network req) = 404 \<and>
       resolveAccountFromHostname (reg_resolve registry) (hostname req) =
         (case reg_resolve registry n of Inl _ \<Rightarrow> None | Inr answer \<Rightarrow> answer))"
    (is "?resolver \<and> ?same \<and> ?ids \<and> ?names")
proof -
  define label where "label = hd (labels (hostname req))"
  define raw where "raw = fst (previewSubdomain label)"
  note defs = label_def [symmetric] raw_def [symmetric]
  have parts: "\<not> length (labels (hostname req)) \<le> 1" using assms(3) by simp
  have contract: "contractIdFromHostname (hostname req) = (if raw = [] then None else Some (toUpperCase raw))"
    using parts by (simp add: contractIdFromHostname_def Let_def defs)
  have name: "nameFromHostname (hostname req) =
      (if raw = [] \<or> isContractId raw \<or> all_digits label \<or> legacyRoot label \<noteq> None \<or>
          reserved_label (toLowerCase raw) then None else Some (toLowerCase raw))"
    using parts by (auto simp: nameFromHostname_def Let_def defs reserved_label_iff)
  have handler: "handleResolve registry network req =
      (if CONTRACT_ID_RE (toUpperCase raw) then reverseLookup registry network (toUpperCase raw)
       else if \<not> (all_digits label \<or> legacyRoot label \<noteq> None) \<and> VALID_NAME_RE (toLowerCase raw) \<and>
          \<not> reserved_label (toLowerCase raw)
       then forwardResolve registry network (toLowerCase raw)
       else (404, ResolveError ''not a Nido account'', MISS_CACHE))"
    using assms(1,2) by (simp add: handleResolve_def Let_def stripPreview_raw defs NAME_RE_VALID)
  have short: "raw \<noteq> [] \<and> \<not> isContractId raw" if "VALID_NAME_RE (toLowerCase raw)"
    using valid_name(4) [OF that] that by (auto simp: isContractId_def VALID_NAME_RE_def toLowerCase_def)
  have empty: "\<not> CONTRACT_ID_RE (toUpperCase raw)" if "raw = []"
    using that by (simp add: CONTRACT_ID_RE_def toUpperCase_def)
  have resolver: ?resolver
  proof (cases "raw = []")
    case True
    with short empty have "\<not> VALID_NAME_RE (toLowerCase raw)" "\<not> CONTRACT_ID_RE (toUpperCase raw)" by blast+
    with True show ?thesis unfolding handler contract by simp
  next
    case False
    show ?thesis
    proof (cases "\<not> CONTRACT_ID_RE (toUpperCase raw) \<and> VALID_NAME_RE (toLowerCase raw)")
      case True
      with short have "\<not> isContractId raw" by blast
      with True False show ?thesis unfolding handler contract name by simp
    next
      case novalid: False
      with False show ?thesis unfolding handler contract name by auto
    qed
  qed
  have "resolveAccountFromHostname (reg_resolve registry) (hostname req) = Some a"
    if "handleResolve registry network req = (200, Resolved n a net, cache)" for n a net cache
  proof (cases "CONTRACT_ID_RE (toUpperCase raw)")
    case True
    with that show ?thesis using CONTRACT_ID_RE_isContractId [OF True] empty
      by (auto simp: handler reverseLookup_def resolveAccountFromHostname_def contract split: sum.splits)
  next
    case False
    with that short show ?thesis
      by (auto simp: handler forwardResolve_def resolveAccountFromHostname_def contract name nonempty_def
          bind_eq_Some_conv split: if_splits sum.splits option.splits)
  qed
  then have same: ?same by blast
  have ids: ?ids
    using CONTRACT_ID_RE_isContractId short
    by (auto simp: handler contract resolveAccountFromHostname_def split: if_splits)
  have names: ?names
    using CONTRACT_ID_RE_isContractId [of "toUpperCase raw"]
    by (auto simp: handler contract name resolveAccountFromHostname_def split: if_splits)
  from resolver same ids names show ?thesis by blast
qed

theorem resolver_agrees_with_wallet_witness:
  "resolveAccountFromHostname (\<lambda>n. Inr (if n = ''alice'' then Some sample_id else None)) ''alice--24.nido.fyi'' =
     Some sample_id \<and>
   resolveAccountFromHostname (\<lambda>n. Inr (if n = ''foo-bar'' then Some sample_id else None)) ''foo-bar.nido.fyi'' =
     Some sample_id"
proof -
  let ?req = "\<lambda>host. \<lparr>http_method = ''GET'', hostname = host, pathname = ''/.well-known/nido.json'',
     query = [], request_body = []\<rparr>"
  let ?reg = "\<lambda>known. \<lparr>reg_resolve = \<lambda>n. Inr (if n = known then Some sample_id else None), reg_lookup = \<lambda>_. Inr None\<rparr>"
  have "handleResolve (?reg ''alice'') ''net'' (?req ''alice--24.nido.fyi'') =
      (200, Resolved (Some ''alice'') sample_id ''net'', OK_CACHE)"
    "nameFromHostname ''foo-bar.nido.fyi'' = Some ''foo-bar''" "\<not> VALID_NAME_RE ''foo-bar''" by code_simp+
  moreover have "2 \<le> length (labels ''alice--24.nido.fyi'')" "2 \<le> length (labels ''foo-bar.nido.fyi'')"
    by code_simp+
  ultimately show ?thesis
    using resolver_agrees_with_wallet [of "?req ''alice--24.nido.fyi''" "?reg ''alice''" "''net''"]
      resolver_agrees_with_wallet [of "?req ''foo-bar.nido.fyi''" "?reg ''foo-bar''" "''net''"] by simp
qed

end
