(* ===== verification/Auth.thy ===== *)
theory Auth
  imports Policies Encoding "HOL-Library.List_Lexorder" "HOL-Library.Multiset"
begin

text \<open>
  Authorization entries of the smart account: the SDK's \<open>auth.ts\<close>, \<open>multiSigner.ts\<close>,
  \<open>assertionMatch.ts\<close> and \<open>syntheticAssertion.ts\<close>. The XDR codec, SHA-256 and the curve
  are parameters (record \<open>xdr_lib\<close>); a \<open>Buffer\<close> comparison is the lexicographic order of
  byte lists. An entry is copied through XDR before it is changed, which leaves the value the
  same.
\<close>

section \<open>Values of the host\<close>

datatype scval =
    ScvU32 nat
  | ScvBytes bytes
  | ScvSymbol string
  | ScvString string
  | ScvI128 int
  | ScvAddress bytes
  | ScvVec "scval list"
  | ScvMap "(scval \<times> scval) list"

record xdr_lib =
  toXDR :: "scval \<Rightarrow> bytes"
  addressScVal :: "string \<Rightarrow> scval result"
  sha256 :: "bytes \<Rightarrow> bytes"

text \<open>The credentials and invocation of an authorization entry; \<open>'i\<close> is the invocation tree.\<close>

record address_creds =
  cred_address :: string
  cred_nonce :: int
  cred_expiration :: nat
  cred_signature :: "scval option"

record 'i auth_entry =
  ae_creds :: "address_creds option"
  ae_invocation :: 'i

record passkey_signature =
  authenticatorData :: bytes
  clientDataJson :: bytes
  sig_compact :: bytes

datatype signer_signature =
    ExternalSig string bytes passkey_signature
  | DelegatedSig string "bytes option"

record auth_payload =
  ap_rule_ids :: "nat list"
  ap_signers :: "signer_signature list"

section \<open>Multi-signer payloads\<close>

definition webAuthnSigDataBytes :: "xdr_lib \<Rightarrow> passkey_signature \<Rightarrow> bytes" where
  "webAuthnSigDataBytes lib s = toXDR lib (ScvMap
     [(ScvSymbol ''authenticator_data'', ScvBytes (authenticatorData s)),
      (ScvSymbol ''client_data'', ScvBytes (clientDataJson s)),
      (ScvSymbol ''signature'', ScvBytes (sig_compact s))])"

definition signerScVal :: "xdr_lib \<Rightarrow> signer_signature \<Rightarrow> scval result" where
  "signerScVal lib s =
     (case s of
        ExternalSig verifier publicKey _ \<Rightarrow>
          bindR (addressScVal lib verifier) (\<lambda>a. Inr (ScvVec [ScvSymbol ''External'', a, ScvBytes publicKey]))
      | DelegatedSig address _ \<Rightarrow>
          bindR (addressScVal lib address) (\<lambda>a. Inr (ScvVec [ScvSymbol ''Delegated'', a])))"

definition sigDataScVal :: "xdr_lib \<Rightarrow> signer_signature \<Rightarrow> scval" where
  "sigDataScVal lib s =
     (case s of
        ExternalSig _ _ passkeySignature \<Rightarrow> ScvBytes (webAuthnSigDataBytes lib passkeySignature)
      | DelegatedSig _ sigData \<Rightarrow> ScvBytes (orElse sigData []))"

definition ruleIdsScVal :: "nat list \<Rightarrow> scval" where
  "ruleIdsScVal ids = ScvVec (map ScvU32 ids)"

definition buildAuthPayloadScVal :: "xdr_lib \<Rightarrow> auth_payload \<Rightarrow> scval result" where
  "buildAuthPayloadScVal lib spec =
     (if ap_signers spec = [] then Inl (Error ''buildAuthPayloadScVal: at least one signer required'')
      else bindR (mapR (\<lambda>s. bindR (signerScVal lib s) (\<lambda>k. Inr (k, sigDataScVal lib s))) (ap_signers spec))
        (\<lambda>entries. Inr (ScvMap
           [(ScvSymbol ''context_rule_ids'', ruleIdsScVal (ap_rule_ids spec)),
            (ScvSymbol ''signers'', ScvMap (sort_key (\<lambda>e. toXDR lib (fst e)) entries))])))"

section \<open>Digests\<close>

definition DEFAULT_EXPIRATION_OFFSET :: nat where
  "DEFAULT_EXPIRATION_OFFSET = 10000"

text \<open>\<open>pre\<close> encodes the hash preimage of network, nonce, expiration ledger and invocation.\<close>

type_synonym 'i preimage = "bytes \<Rightarrow> int \<Rightarrow> nat \<Rightarrow> 'i \<Rightarrow> bytes"

definition buildAuthHashAt :: "xdr_lib \<Rightarrow> 'i preimage \<Rightarrow> 'i auth_entry \<Rightarrow> string \<Rightarrow> nat \<Rightarrow> bytes result" where
  "buildAuthHashAt lib pre authEntry networkPassphrase signatureExpirationLedger =
     (case ae_creds authEntry of
        None \<Rightarrow> Inl (TypeError ''address not set'')
      | Some creds \<Rightarrow> Inr (sha256 lib (pre (sha256 lib (utf8 networkPassphrase)) (cred_nonce creds)
          signatureExpirationLedger (ae_invocation authEntry))))"

definition buildAuthHash :: "xdr_lib \<Rightarrow> 'i preimage \<Rightarrow> 'i auth_entry \<Rightarrow> string \<Rightarrow> nat \<Rightarrow> nat option \<Rightarrow> bytes result" where
  "buildAuthHash lib pre authEntry networkPassphrase lastLedger expirationLedgerOffset =
     buildAuthHashAt lib pre authEntry networkPassphrase
       (lastLedger + orElse expirationLedgerOffset DEFAULT_EXPIRATION_OFFSET)"

definition computeAuthDigest :: "xdr_lib \<Rightarrow> bytes \<Rightarrow> nat list \<Rightarrow> bytes" where
  "computeAuthDigest lib signaturePayload contextRuleIds =
     sha256 lib (signaturePayload @ toXDR lib (ruleIdsScVal contextRuleIds))"

definition getAuthEntry :: "'i auth_entry list option \<Rightarrow> 'i auth_entry result" where
  "getAuthEntry auth =
     (case auth of
        Some (e # _) \<Rightarrow> Inr e
      | _ \<Rightarrow> Inl (Error ''No authorization entries in simulation result''))"

definition parseAssertionResponse :: "bytes \<Rightarrow> bytes \<Rightarrow> bytes \<Rightarrow> passkey_signature result" where
  "parseAssertionResponse ad cd s =
     bindR (derToCompact s) (\<lambda>c. Inr \<lparr>authenticatorData = ad, clientDataJson = cd, sig_compact = c\<rparr>)"

section \<open>Signing an entry\<close>

record ('f, 'i) invoke_op =
  op_hostFunction :: 'f
  op_authEntries :: "'i auth_entry list option"

definition injectSignedAuthPayload ::
  "xdr_lib \<Rightarrow> ('f, 'i) invoke_op list \<Rightarrow> signer_signature list \<Rightarrow> nat \<Rightarrow> nat option \<Rightarrow> nat list \<Rightarrow>
   ('f, 'i) invoke_op list result" where
  "injectSignedAuthPayload lib operations signers lastLedger expirationLedgerOffset contextRuleIds =
     (case operations of
        [] \<Rightarrow> Inl (TypeError ''Cannot read properties of undefined'')
      | op # ops \<Rightarrow>
          (case op_authEntries op of
             Some (original # rest) \<Rightarrow>
               (case ae_creds original of
                  None \<Rightarrow> Inl (TypeError ''address not set'')
                | Some creds \<Rightarrow>
                    bindR (buildAuthPayloadScVal lib \<lparr>ap_rule_ids = contextRuleIds, ap_signers = signers\<rparr>)
                      (\<lambda>payload.
                        let signedEntry = original\<lparr>ae_creds := Some (creds
                              \<lparr>cred_expiration := lastLedger + orElse expirationLedgerOffset DEFAULT_EXPIRATION_OFFSET,
                               cred_signature := Some payload\<rparr>)\<rparr>
                        in Inr (op\<lparr>op_authEntries := Some (signedEntry # rest)\<rparr> # ops)))
           | _ \<Rightarrow> Inl (Error ''No authorization entries in transaction'')))"

definition injectPasskeySignature ::
  "xdr_lib \<Rightarrow> ('f, 'i) invoke_op list \<Rightarrow> passkey_signature \<Rightarrow> string \<Rightarrow> bytes \<Rightarrow> nat \<Rightarrow> nat option \<Rightarrow> nat list \<Rightarrow>
   ('f, 'i) invoke_op list result" where
  "injectPasskeySignature lib operations passkeySignature verifierAddress publicKey lastLedger offset contextRuleIds =
     injectSignedAuthPayload lib operations [ExternalSig verifierAddress publicKey passkeySignature]
       lastLedger offset contextRuleIds"

section \<open>Which key signed\<close>

text \<open>\<open>verify\<close> is the curve's check of a signature over a digest; it throws on malformed input.\<close>

type_synonym p256_verify = "bytes \<Rightarrow> bytes \<Rightarrow> bytes \<Rightarrow> bool result"

fun firstVerifying :: "p256_verify \<Rightarrow> bytes \<Rightarrow> bytes \<Rightarrow> nat \<Rightarrow> bytes list \<Rightarrow> nat option" where
  "firstVerifying verify s digest i [] = None"
| "firstVerifying verify s digest i (c # cs) =
     (if verify s digest c = Inr True then Some i else firstVerifying verify s digest (Suc i) cs)"

definition assertionDigest :: "(bytes \<Rightarrow> bytes) \<Rightarrow> bytes \<Rightarrow> bytes \<Rightarrow> bytes" where
  "assertionDigest sha ad cd = sha (ad @ sha cd)"

definition identifyAssertionSigner ::
  "p256_verify \<Rightarrow> (bytes \<Rightarrow> bytes) \<Rightarrow> passkey_signature \<Rightarrow> bytes list \<Rightarrow> nat option" where
  "identifyAssertionSigner verify sha s candidates =
     firstVerifying verify (sig_compact s) (assertionDigest sha (authenticatorData s) (clientDataJson s)) 0 candidates"

text \<open>A synthetic assertion by a session key held in software; \<open>sign\<close> is the curve's signing function.\<close>

definition q :: string where
  "q = [CHR 0x22]"

definition clientData :: "string \<Rightarrow> string" where
  "clientData challenge =
     ''{'' @ q @ ''type'' @ q @ '':'' @ q @ ''webauthn.get'' @ q @ '','' @ q @ ''challenge'' @ q @ '':'' @ q @
     challenge @ q @ '','' @ q @ ''origin'' @ q @ '':'' @ q @ ''https://example.com'' @ q @ '','' @
     q @ ''crossOrigin'' @ q @ '':false}''"

definition buildSyntheticAssertion ::
  "(bytes \<Rightarrow> bytes \<Rightarrow> bytes result) \<Rightarrow> (bytes \<Rightarrow> bytes) \<Rightarrow> bytes \<Rightarrow> bytes \<Rightarrow> passkey_signature result" where
  "buildSyntheticAssertion sign sha privateKeyD payload32 =
     (if length payload32 \<noteq> 32 then Inl (Error ''buildSyntheticAssertion: payload must be 32 bytes'')
      else
        let cd = utf8 (clientData (buf2base64url payload32));
            ad = replicate 32 0 @ [0x1d, 0, 0, 0, 0]
        in bindR (sign (assertionDigest sha ad cd) privateKeyD) (\<lambda>s.
             Inr \<lparr>authenticatorData = ad, clientDataJson = cd, sig_compact = s\<rparr>))"

section \<open>The contract's view of an entry\<close>

text \<open>
  What the host and the account recompute from a submitted entry: the digest that each signer
  must have signed. Its rule ids are those written in the entry's own signature.
\<close>

definition payload_rule_ids :: "scval \<Rightarrow> scval option" where
  "payload_rule_ids v =
     (case v of ScvMap kvs \<Rightarrow> map_of kvs (ScvSymbol ''context_rule_ids'') | _ \<Rightarrow> None)"

definition payload_signers :: "scval \<Rightarrow> (scval \<times> scval) list option" where
  "payload_signers v =
     (case v of ScvMap kvs \<Rightarrow> (case map_of kvs (ScvSymbol ''signers'') of Some (ScvMap m) \<Rightarrow> Some m | _ \<Rightarrow> None)
      | _ \<Rightarrow> None)"

definition contract_digest :: "xdr_lib \<Rightarrow> 'i preimage \<Rightarrow> string \<Rightarrow> 'i auth_entry \<Rightarrow> bytes option" where
  "contract_digest lib pre network e =
     (case ae_creds e of
        None \<Rightarrow> None
      | Some c \<Rightarrow>
          (case Option.bind (cred_signature c) payload_rule_ids of
             None \<Rightarrow> None
           | Some ids \<Rightarrow> Some (sha256 lib
               (sha256 lib (pre (sha256 lib (utf8 network)) (cred_nonce c) (cred_expiration c) (ae_invocation e)) @
                toXDR lib ids))))"

text \<open>The identity of a signer is its place in the account's rule.\<close>

definition signer_of :: "signer_signature \<Rightarrow> signer" where
  "signer_of s = (case s of ExternalSig v k _ \<Rightarrow> External v k | DelegatedSig a _ \<Rightarrow> Delegated a)"

section \<open>Facts\<close>

lemma payload_parts:
  assumes "buildAuthPayloadScVal lib spec = Inr v"
  obtains entries where
    "mapR (\<lambda>s. bindR (signerScVal lib s) (\<lambda>k. Inr (k, sigDataScVal lib s))) (ap_signers spec) = Inr entries"
    "payload_rule_ids v = Some (ruleIdsScVal (ap_rule_ids spec))"
    "payload_signers v = Some (sort_key (\<lambda>e. toXDR lib (fst e)) entries)"
    "v = ScvMap [(ScvSymbol ''context_rule_ids'', ruleIdsScVal (ap_rule_ids spec)),
            (ScvSymbol ''signers'', ScvMap (sort_key (\<lambda>e. toXDR lib (fst e)) entries))]"
  using assms
  by (auto simp: buildAuthPayloadScVal_def payload_rule_ids_def payload_signers_def result_simps split: if_splits)

lemma signerScVal_inj:
  assumes "signerScVal lib s = Inr k" "signerScVal lib t = Inr k"
    and inj: "\<And>a b x. addressScVal lib a = Inr x \<Longrightarrow> addressScVal lib b = Inr x \<Longrightarrow> a = b"
  shows "signer_of s = signer_of t"
  using assms(1,2)
  by (auto simp: signerScVal_def signer_of_def result_simps split: signer_signature.splits dest: inj)

lemma injected_digest:
  assumes "injectSignedAuthPayload lib (op # ops) signers lastLedger offset ids = Inr ops'"
    and "op_authEntries op = Some (e # rest)"
    and "buildAuthHash lib pre e network lastLedger offset = Inr payload"
  shows "\<exists>e' v c. ops' = op\<lparr>op_authEntries := Some (e' # rest)\<rparr> # ops \<and>
    contract_digest lib pre network e' = Some (computeAuthDigest lib payload ids) \<and>
    buildAuthPayloadScVal lib \<lparr>ap_rule_ids = ids, ap_signers = signers\<rparr> = Inr v \<and>
    ae_creds e' = Some c \<and> cred_signature c = Some v \<and> ae_invocation e' = ae_invocation e"
proof -
  from assms(1,2) obtain c v where c: "ae_creds e = Some c"
    and v: "buildAuthPayloadScVal lib \<lparr>ap_rule_ids = ids, ap_signers = signers\<rparr> = Inr v"
    and ops': "ops' = op\<lparr>op_authEntries := Some (e\<lparr>ae_creds := Some (c
      \<lparr>cred_expiration := lastLedger + orElse offset DEFAULT_EXPIRATION_OFFSET, cred_signature := Some v\<rparr>)\<rparr> # rest)\<rparr> # ops"
    by (auto simp: injectSignedAuthPayload_def result_simps Let_def split: option.splits)
  from v obtain entries where "payload_rule_ids v = Some (ruleIdsScVal ids)"
    by (rule payload_parts) simp
  with assms(3) c v ops' show ?thesis
    by (auto simp: contract_digest_def buildAuthHash_def buildAuthHashAt_def computeAuthDigest_def)
qed

section \<open>Properties\<close>

text \<open>
  C28. The signer map of an authorization payload is canonical: it has exactly one entry for
  each signer, its keys are strictly ascending in their XDR order, as the host demands, and
  the order in which the signatures were collected does not change the payload.
\<close>

theorem auth_payload_canonical:
  assumes xdr: "inj_on (toXDR lib) {k. \<exists>s \<in> set signers. signerScVal lib s = Inr k}"
    and inj: "\<And>a b x. addressScVal lib a = Inr x \<Longrightarrow> addressScVal lib b = Inr x \<Longrightarrow> a = b"
    and "distinct (map signer_of signers)" "mset signers' = mset signers"
    and built: "buildAuthPayloadScVal lib \<lparr>ap_rule_ids = ids, ap_signers = signers\<rparr> = Inr v"
  shows "(\<exists>entries. payload_signers v = Some entries \<and>
      sorted_wrt (<) (map (\<lambda>e. toXDR lib (fst e)) entries) \<and>
      set entries = {(k, sigDataScVal lib s) |k s. s \<in> set signers \<and> signerScVal lib s = Inr k}) \<and>
    buildAuthPayloadScVal lib \<lparr>ap_rule_ids = ids, ap_signers = signers'\<rparr> = Inr v"
proof -
  let ?f = "\<lambda>s. bindR (signerScVal lib s) (\<lambda>k. Inr (k, sigDataScVal lib s))"
  let ?key = "\<lambda>e::scval \<times> scval. toXDR lib (fst e)"
  define g where "g s = (projr (signerScVal lib s), sigDataScVal lib s)" for s
  obtain entries where e: "mapR ?f signers = Inr entries" "payload_signers v = Some (sort_key ?key entries)"
    "v = ScvMap [(ScvSymbol ''context_rule_ids'', ruleIdsScVal ids),
       (ScvSymbol ''signers'', ScvMap (sort_key ?key entries))]"
    using built by (rule payload_parts) auto
  have ok: "signerScVal lib s = Inr (projr (signerScVal lib s))" if "s \<in> set signers" for s
    using that mapR_nth [OF e(1)] by (auto simp: in_set_conv_nth result_simps) (metis sum.sel(2))
  have f: "?f s = Inr (g s)" if "s \<in> set signers" for s
    by (subst ok [OF that]) (simp add: g_def)
  have entries: "entries = map g signers"
    using mapR_Inr_map [of signers ?f g] f e(1) by simp
  have set': "set signers' = set signers" using assms(4) by (metis set_mset_mset)
  have entries': "mapR ?f signers' = Inr (map g signers')"
    using mapR_Inr_map [of signers' ?f g] f set' by simp
  have inj_key: "inj_on (\<lambda>s. ?key (g s)) (set signers)"
  proof (rule inj_onI)
    fix s t assume st: "s \<in> set signers" "t \<in> set signers" "?key (g s) = ?key (g t)"
    then have "projr (signerScVal lib s) = projr (signerScVal lib t)"
      using ok by (intro inj_onD [OF xdr]) (auto simp: g_def)
    then have "signer_of s = signer_of t"
      using signerScVal_inj [of lib s "projr (signerScVal lib s)" t] ok st inj by metis
    with st(1,2) assms(3) show "s = t" by (auto simp: distinct_map dest: inj_onD)
  qed
  have d: "distinct (map ?key entries)"
    using assms(3) inj_key
    by (simp add: entries comp_def distinct_map)
  have "sorted_wrt (<) (map ?key (sort_key ?key entries))"
    using d by (simp add: strict_sorted_iff distinct_map)
  moreover have "set (sort_key ?key entries) = {(k, sigDataScVal lib s) |k s. s \<in> set signers \<and> signerScVal lib s = Inr k}"
  proof -
    have "(k, d) \<in> g ` set signers \<longleftrightarrow> (\<exists>s. d = sigDataScVal lib s \<and> s \<in> set signers \<and> signerScVal lib s = Inr k)"
      for k d
    proof
      assume "(k, d) \<in> g ` set signers"
      then show "\<exists>s. d = sigDataScVal lib s \<and> s \<in> set signers \<and> signerScVal lib s = Inr k"
        using ok by (force simp: g_def)
    next
      assume "\<exists>s. d = sigDataScVal lib s \<and> s \<in> set signers \<and> signerScVal lib s = Inr k"
      then obtain s where "d = sigDataScVal lib s" "s \<in> set signers" "signerScVal lib s = Inr k" by blast
      then have "(k, d) = g s" by (simp add: g_def)
      with \<open>s \<in> set signers\<close> show "(k, d) \<in> g ` set signers" by simp
    qed
    then show ?thesis by (simp add: entries set_eq_iff)
  qed
  moreover have "sort_key ?key (map g signers') = sort_key ?key entries"
  proof (rule sort_key_inj_key_eq)
    show "mset (map g signers') = mset (sort_key ?key entries)" using assms(4) by (simp add: entries)
    show "inj_on ?key (set (map g signers'))" using d set' by (simp add: entries distinct_map inj_on_imageI)
  qed simp
  moreover have "signers' \<noteq> []" using assms(4) built by (auto simp: buildAuthPayloadScVal_def split: if_splits)
  ultimately show ?thesis using e entries'
    by (simp add: buildAuthPayloadScVal_def)
qed

text \<open>A library for the samples: it can tell two addresses apart and nothing else.\<close>

fun sample_xdr :: "scval \<Rightarrow> bytes" where
  "sample_xdr (ScvVec [ScvSymbol _, ScvAddress a]) = a"
| "sample_xdr _ = []"

definition sample_lib :: xdr_lib where
  "sample_lib = \<lparr>toXDR = sample_xdr, addressScVal = \<lambda>a. Inr (ScvAddress (map (\<lambda>c. of_nat (code c)) a)),
     sha256 = \<lambda>b. rev b\<rparr>"

lemma of_nat_code_inj: "(of_nat (code c) :: byte) = of_nat (code d) \<longleftrightarrow> c = d"
proof
  assume "(of_nat (code c) :: byte) = of_nat (code d)"
  then have "unat (of_nat (code c) :: byte) = unat (of_nat (code d) :: byte)" by simp
  then show "c = d" by (simp add: unat_of_nat flip: code_inject)
qed simp

lemma sample_address_inj:
  "addressScVal sample_lib a = Inr x \<Longrightarrow> addressScVal sample_lib b = Inr x \<Longrightarrow> a = b"
  by (auto simp: sample_lib_def of_nat_code_inj inj_def dest!: inj_mapD [rotated])

theorem auth_payload_canonical_witness:
  "buildAuthPayloadScVal sample_lib \<lparr>ap_rule_ids = [2], ap_signers = [DelegatedSig ''B'' None, DelegatedSig ''A'' None]\<rparr> =
   buildAuthPayloadScVal sample_lib \<lparr>ap_rule_ids = [2], ap_signers = [DelegatedSig ''A'' None, DelegatedSig ''B'' None]\<rparr>"
proof -
  let ?ss = "[DelegatedSig ''A'' None, DelegatedSig ''B'' None]"
  obtain v where v: "buildAuthPayloadScVal sample_lib \<lparr>ap_rule_ids = [2], ap_signers = ?ss\<rparr> = Inr v"
    by (simp add: buildAuthPayloadScVal_def signerScVal_def sample_lib_def)
  have "inj_on (toXDR sample_lib) {k. \<exists>s \<in> set ?ss. signerScVal sample_lib s = Inr k}"
    by (auto simp: inj_on_def signerScVal_def sample_lib_def)
  moreover have "mset [DelegatedSig ''B'' None, DelegatedSig ''A'' None] = mset ?ss" by simp
  moreover have "distinct (map signer_of ?ss)" by (simp add: signer_of_def)
  ultimately show ?thesis
    using auth_payload_canonical [of sample_lib ?ss "[DelegatedSig ''B'' None, DelegatedSig ''A'' None]" "[2]" v]
      sample_address_inj v by metis
qed

end
