(* ===== verification/Json.thy ===== *)
theory Json
  imports JsString
begin

text \<open>
  JSON values and the way JavaScript reads them. A field that is not there is \<open>undefined\<close>,
  here \<open>None\<close>. Numbers are the integers the program stores: a fraction or an exponent is not a
  value of the model.
\<close>

datatype json =
    JNull
  | JBool bool
  | JNum int
  | JStr string
  | JArr "json list"
  | JObj "(string \<times> json) list"

definition field :: "string \<Rightarrow> json \<Rightarrow> json option" where
  "field k j = (case j of JObj kvs \<Rightarrow> map_of kvs k | _ \<Rightarrow> None)"

definition ofield :: "string \<Rightarrow> json option \<Rightarrow> json option" where
  "ofield k j = Option.bind j (field k)"

text \<open>\<open>a ?? b\<close> on a value that may be \<open>undefined\<close> or \<open>null\<close>.\<close>

definition nullish :: "json option \<Rightarrow> bool" where
  "nullish j \<longleftrightarrow> j = None \<or> j = Some JNull"

definition coalesce :: "json option \<Rightarrow> json option \<Rightarrow> json option" where
  "coalesce a b = (if nullish a then b else a)"

definition truthy :: "json option \<Rightarrow> bool" where
  "truthy j = (case j of
     None \<Rightarrow> False | Some JNull \<Rightarrow> False | Some (JBool b) \<Rightarrow> b | Some (JNum n) \<Rightarrow> n \<noteq> 0
   | Some (JStr s) \<Rightarrow> s \<noteq> [] | Some _ \<Rightarrow> True)"

definition is_object :: "json \<Rightarrow> bool" where
  "is_object j = (case j of JArr _ \<Rightarrow> True | JObj _ \<Rightarrow> True | JNull \<Rightarrow> True | _ \<Rightarrow> False)"

definition as_string :: "json option \<Rightarrow> string option" where
  "as_string j = (case j of Some (JStr s) \<Rightarrow> Some s | _ \<Rightarrow> None)"

definition as_int :: "json option \<Rightarrow> int option" where
  "as_int j = (case j of Some (JNum n) \<Rightarrow> Some n | _ \<Rightarrow> None)"

lemma field_JObj [simp]: "field k (JObj kvs) = map_of kvs k"
  by (simp add: field_def)

lemma as_string_simps [simp]: "as_string (Some (JStr s)) = Some s" "as_string None = None"
  by (simp_all add: as_string_def)

lemma as_int_simps [simp]: "as_int (Some (JNum n)) = Some n" "as_int None = None"
  by (simp_all add: as_int_def)

lemma as_string_SomeD: "as_string j = Some s \<Longrightarrow> j = Some (JStr s)"
  by (auto simp: as_string_def split: option.splits json.splits)

lemma as_int_SomeD: "as_int j = Some n \<Longrightarrow> j = Some (JNum n)"
  by (auto simp: as_int_def split: option.splits json.splits)

end
