(* ===== verification/Submit.thy ===== *)
theory Submit
  imports Json
begin

text \<open>
  Submitting a signed transaction: the relayer client of the SDK (\<open>relayer.ts\<close>), its shim in
  the frontend (\<open>relayerClient.ts\<close>) and the two strategies of \<open>signing/submit.ts\<close>. The network
  is a parameter: \<open>reply\<close> is what \<open>fetch\<close> answers to one request, and the answer to the
  \<open>i\<close>-th poll is a function of \<open>i\<close>. Waiting between polls is left out.
\<close>

section \<open>One call of the relayer\<close>

record relay_reply =
  reply_ok :: bool
  reply_status :: nat
  reply_json :: "json option"

datatype relayer_error =
    RelayerError string "json option" "json option"
  | NetworkError js_error

definition call_body :: "relay_reply \<Rightarrow> relayer_error + json" where
  "call_body resp =
     (case reply_json resp of
        None \<Rightarrow> Inl (RelayerError ''Relayer returned non-JSON'' None None)
      | Some j \<Rightarrow>
          let body = (if j = JNull then JObj [] else j);
              data = field ''data'' body;
              payload = coalesce (ofield ''result'' data) data
          in if field ''success'' body = Some (JBool False) \<or> \<not> reply_ok resp \<and> truthy (field ''error'' body)
             then Inl (RelayerError (orElse (as_string (field ''error'' body)) ''Relayer HTTP'')
                    (ofield ''code'' data) (ofield ''details'' data))
             else if \<not> reply_ok resp then Inl (RelayerError ''Relayer HTTP'' None None)
             else (case payload of
                     Some p \<Rightarrow>
                       if \<not> truthy payload \<or> \<not> is_object p
                       then Inl (RelayerError ''Relayer returned an empty payload'' None None)
                       else if field ''transactionId'' p = None \<and> field ''status'' p = None
                       then Inl (RelayerError ''Unrecognized relayer payload'' None (Some body))
                       else Inr p
                   | None \<Rightarrow> Inl (RelayerError ''Relayer returned an empty payload'' None None)))"

text \<open>\<open>fetch\<close> is given the URL and the JSON body of the POST.\<close>

type_synonym fetch = "string \<Rightarrow> json \<Rightarrow> relay_reply result"

definition relay_call :: "fetch \<Rightarrow> json \<Rightarrow> string \<Rightarrow> relayer_error + json" where
  "relay_call fetch params baseUrl =
     (if baseUrl = [] then Inl (RelayerError ''Relayer not configured (PUBLIC_RELAYER_URL is empty)'' None None)
      else (case fetch (baseUrl @ ''/relay'') (JObj [(''params'', params)]) of
              Inl e \<Rightarrow> Inl (NetworkError e)
            | Inr resp \<Rightarrow> call_body resp))"

definition submitSorobanTransaction ::
  "fetch \<Rightarrow> string \<Rightarrow> string list \<Rightarrow> bool option \<Rightarrow> string \<Rightarrow> relayer_error + json" where
  "submitSorobanTransaction fetch func auth skipWait baseUrl =
     relay_call fetch (JObj [(''func'', JStr func), (''auth'', JArr (map JStr auth)),
       (''skipWait'', JBool (orElse skipWait True))]) baseUrl"

definition getRelayerTransaction :: "fetch \<Rightarrow> string \<Rightarrow> string \<Rightarrow> relayer_error + json" where
  "getRelayerTransaction fetch transactionId baseUrl =
     relay_call fetch (JObj [(''getTransaction'', JObj [(''transactionId'', JStr transactionId)])]) baseUrl"

section \<open>Waiting for the outcome\<close>

definition onchain_failed :: "relayer_error \<Rightarrow> bool" where
  "onchain_failed e = (case e of RelayerError _ c _ \<Rightarrow> c = Some (JStr ''ONCHAIN_FAILED'') | NetworkError _ \<Rightarrow> False)"

fun waitLoop ::
  "(nat \<Rightarrow> relayer_error + json) \<Rightarrow> nat \<Rightarrow> nat \<Rightarrow> json option \<Rightarrow> nat \<Rightarrow> relayer_error + json" where
  "waitLoop poll 0 i prev pollFailures =
     Inl (RelayerError ''Timed out waiting for relayer confirmation'' (Some (JStr ''WAIT_TIMEOUT'')) prev)"
| "waitLoop poll (Suc n) i prev pollFailures =
     (case poll i of
        Inr res \<Rightarrow>
          if field ''status'' res = Some (JStr ''confirmed'') then Inr res
          else if field ''status'' res = Some (JStr ''failed'') \<or> field ''status'' res = Some (JStr ''expired'')
          then Inl (RelayerError ''Relayer transaction failed or expired'' (Some (JStr ''ONCHAIN_FAILED'')) (Some res))
          else waitLoop poll n (Suc i) (Some res) 0
      | Inl e \<Rightarrow>
          if onchain_failed e then Inl e
          else if Suc pollFailures \<ge> 5
          then Inl (RelayerError ''Lost contact with the relayer while waiting'' (Some (JStr ''WAIT_TIMEOUT'')) prev)
          else waitLoop poll n (Suc i) prev (Suc pollFailures))"

definition waitForConfirmation :: "(nat \<Rightarrow> relayer_error + json) \<Rightarrow> nat option \<Rightarrow> relayer_error + json" where
  "waitForConfirmation poll maxAttempts = waitLoop poll (orElse maxAttempts 55) 0 None 0"

text \<open>\<open>fetchAt i\<close> is the network during the \<open>i\<close>-th poll; \<open>tx\<close> is the host function and its entries.\<close>

definition relayerEnabled :: "string \<Rightarrow> bool" where
  "relayerEnabled RELAYER_URL \<longleftrightarrow> length RELAYER_URL > 0"

definition relayerSubmitAndConfirm ::
  "fetch \<Rightarrow> (nat \<Rightarrow> fetch) \<Rightarrow> (string \<times> string list) result \<Rightarrow> string \<Rightarrow> relayer_error + string" where
  "relayerSubmitAndConfirm fetch fetchAt funcAndAuth baseUrl =
     (case funcAndAuth of
        Inl e \<Rightarrow> Inl (NetworkError e)
      | Inr (func, auth) \<Rightarrow>
          if length auth > 1 then Inl (NetworkError (Error ''Expected a single auth entry''))
          else bindR (submitSorobanTransaction fetch func auth None baseUrl) (\<lambda>submitted.
            if \<not> truthy (field ''transactionId'' submitted)
            then Inl (NetworkError (Error ''Relayer accepted the transaction but returned no transaction id''))
            else bindR (waitForConfirmation (\<lambda>i. getRelayerTransaction (fetchAt i)
                  (orElse (as_string (field ''transactionId'' submitted)) []) baseUrl) None) (\<lambda>confirmed.
              if \<not> truthy (field ''hash'' confirmed)
              then Inl (NetworkError (Error ''Relayer confirmed without a transaction hash''))
              else Inr (orElse (as_string (field ''hash'' confirmed)) []))))"

section \<open>The classic path\<close>

datatype send_status = SendPending | SendError | SendDuplicate | SendTryAgainLater

datatype get_status = GetNotFound | GetSuccess | GetFailed

text \<open>
  \<open>'op\<close> is the type of the signed operations and \<open>'d\<close> that of the resource data; the server's
  enforcing simulation returns fresh data with its fee.
\<close>

record ('op, 'd) transaction =
  tx_fee :: int
  tx_operations :: "'op list"
  tx_sorobanData :: "('d \<times> int) option"
  tx_signers :: "string list"

record ('op, 'd) soroban_server =
  simulate_enforce :: "('op, 'd) transaction \<Rightarrow> ('d \<times> int) result"
  send_transaction :: "('op, 'd) transaction \<Rightarrow> send_status \<times> string"
  get_transaction :: "string \<Rightarrow> nat \<Rightarrow> get_status"

fun pollResult :: "(nat \<Rightarrow> get_status) \<Rightarrow> nat \<Rightarrow> nat \<Rightarrow> get_status" where
  "pollResult get 0 i = get i"
| "pollResult get (Suc n) i = (if get i = GetNotFound then pollResult get n (Suc i) else get i)"

definition refit :: "('op, 'd) transaction \<Rightarrow> 'd \<times> int \<Rightarrow> ('op, 'd) transaction" where
  "refit assembledTx newData =
     (let classicFee = tx_fee assembledTx - (case tx_sorobanData assembledTx of None \<Rightarrow> 0 | Some (_, f) \<Rightarrow> f)
      in assembledTx\<lparr>tx_fee := classicFee + snd newData, tx_sorobanData := Some newData, tx_signers := []\<rparr>)"

definition classicSubmitAndPoll ::
  "('op, 'd) soroban_server \<Rightarrow> ('op, 'd) transaction \<Rightarrow> string \<Rightarrow> string result" where
  "classicSubmitAndPoll server assembledTx submitter =
     (case simulate_enforce server assembledTx of
        Inl _ \<Rightarrow> Inl (Error ''Final simulation failed'')
      | Inr newData \<Rightarrow>
          let refitted = (refit assembledTx newData)\<lparr>tx_signers := [submitter]\<rparr>;
              (status, h) = send_transaction server refitted
          in if status = SendError then Inl (Error ''Submit rejected'')
             else if status \<noteq> SendPending then Inl (Error ''Submit not accepted'')
             else if pollResult (get_transaction server h) 30 0 \<noteq> GetSuccess then Inl (Error ''Tx not successful'')
             else Inr h)"

section \<open>What the wait promises\<close>

text \<open>
  A poll that ends the wait: the relayer reports a final status, or the poll is the fifth in a
  row to fail.
\<close>

definition transient :: "relayer_error + json \<Rightarrow> bool" where
  "transient r = (case r of Inl e \<Rightarrow> \<not> onchain_failed e | Inr _ \<Rightarrow> False)"

definition final :: "relayer_error + json \<Rightarrow> bool" where
  "final r = (case r of
     Inl e \<Rightarrow> onchain_failed e
   | Inr res \<Rightarrow> field ''status'' res \<in> {Some (JStr ''confirmed''), Some (JStr ''failed''), Some (JStr ''expired'')})"

definition stops :: "(nat \<Rightarrow> relayer_error + json) \<Rightarrow> nat \<Rightarrow> bool" where
  "stops poll i \<longleftrightarrow> final (poll i) \<or> 4 \<le> i \<and> (\<forall>j \<le> 4. transient (poll (i - j)))"

text \<open>The last answer before the \<open>i\<close>-th poll, and the outcome of a wait that the \<open>i\<close>-th poll ends.\<close>

fun last_answer :: "(nat \<Rightarrow> relayer_error + json) \<Rightarrow> nat \<Rightarrow> json option" where
  "last_answer poll 0 = None"
| "last_answer poll (Suc i) = (case poll i of Inr res \<Rightarrow> Some res | Inl _ \<Rightarrow> last_answer poll i)"

definition outcome :: "(nat \<Rightarrow> relayer_error + json) \<Rightarrow> nat \<Rightarrow> relayer_error + json" where
  "outcome poll i =
     (case poll i of
        Inr res \<Rightarrow>
          if field ''status'' res = Some (JStr ''confirmed'') then Inr res
          else Inl (RelayerError ''Relayer transaction failed or expired'' (Some (JStr ''ONCHAIN_FAILED'')) (Some res))
      | Inl e \<Rightarrow>
          if onchain_failed e then Inl e
          else Inl (RelayerError ''Lost contact with the relayer while waiting'' (Some (JStr ''WAIT_TIMEOUT''))
                 (last_answer poll i)))"

text \<open>The loop's state after \<open>i\<close> polls, none of which ended the wait.\<close>

definition wait_state :: "(nat \<Rightarrow> relayer_error + json) \<Rightarrow> nat \<Rightarrow> nat \<Rightarrow> bool" where
  "wait_state poll i f \<longleftrightarrow> f \<le> 4 \<and> f \<le> i \<and> (\<forall>j. i - f \<le> j \<and> j < i \<longrightarrow> transient (poll j)) \<and>
     (f < i \<longrightarrow> \<not> transient (poll (i - f - 1)))"

lemma wait_state_fail:
  assumes "wait_state poll i f" "transient (poll i)"
  shows "stops poll i \<longleftrightarrow> final (poll i) \<or> f = 4" "f < 4 \<Longrightarrow> wait_state poll (Suc i) (Suc f)"
proof -
  have "(4 \<le> i \<and> (\<forall>j \<le> 4. transient (poll (i - j)))) \<longleftrightarrow> f = 4"
  proof
    assume all: "4 \<le> i \<and> (\<forall>j \<le> 4. transient (poll (i - j)))"
    show "f = 4"
    proof (rule ccontr)
      assume "f \<noteq> 4"
      with assms(1) have "f < 4" by (simp add: wait_state_def)
      with all have "f < i" "transient (poll (i - (f + 1)))" by (auto simp del: One_nat_def)
      with assms(1) show False by (simp add: wait_state_def)
    qed
  next
    assume f: "f = 4"
    with assms(1) have "4 \<le> i" "\<And>j. i - 4 \<le> j \<Longrightarrow> j < i \<Longrightarrow> transient (poll j)" by (auto simp: wait_state_def)
    moreover have "transient (poll (i - j))" if "j \<le> 4" for j
      using that assms(2) calculation by (cases "j = 0") auto
    ultimately show "4 \<le> i \<and> (\<forall>j \<le> 4. transient (poll (i - j)))" by blast
  qed
  then show "stops poll i \<longleftrightarrow> final (poll i) \<or> f = 4" by (simp add: stops_def)
  show "wait_state poll (Suc i) (Suc f)" if "f < 4"
    using assms that by (auto simp: wait_state_def less_Suc_eq Suc_diff_le)
qed

lemma wait_state_answer: "\<not> transient (poll i) \<Longrightarrow> wait_state poll (Suc i) 0"
  by (auto simp: wait_state_def)

lemma not_transient_stops: "\<not> transient (poll i) \<Longrightarrow> stops poll i \<longleftrightarrow> final (poll i)"
  by (force simp: stops_def)

lemma waitLoop_exact:
  assumes "wait_state poll i f"
  shows "waitLoop poll n i (last_answer poll i) f =
    (case find (stops poll) [i..<i + n] of
       Some k \<Rightarrow> outcome poll k
     | None \<Rightarrow> Inl (RelayerError ''Timed out waiting for relayer confirmation'' (Some (JStr ''WAIT_TIMEOUT''))
         (last_answer poll (i + n))))"
  using assms
proof (induction n arbitrary: i f)
  case 0
  then show ?case by simp
next
  case (Suc n)
  define m where "m = Suc i + n"
  define rest where "rest = [Suc i..<m]"
  have split: "[i..<i + Suc n] = i # rest" "i + Suc n = m" by (simp_all add: upt_conv_Cons rest_def m_def)
  have IH: "wait_state poll (Suc i) f' \<Longrightarrow> waitLoop poll n (Suc i) (last_answer poll (Suc i)) f' =
    (case find (stops poll) rest of Some k \<Rightarrow> outcome poll k
     | None \<Rightarrow> Inl (RelayerError ''Timed out waiting for relayer confirmation'' (Some (JStr ''WAIT_TIMEOUT''))
         (last_answer poll m)))" for f'
    using Suc.IH [of "Suc i" f'] by (simp only: rest_def m_def)
  show ?case
  proof (cases "poll i")
    case (Inr res)
    then have "\<not> transient (poll i)" by (simp add: transient_def)
    from not_transient_stops [of poll, OF this] wait_state_answer [of poll, OF this] IH [of 0] Inr
    show ?thesis unfolding split(1) unfolding split(2) by (auto simp: outcome_def final_def)
  next
    case (Inl e)
    show ?thesis
    proof (cases "onchain_failed e")
      case True
      with Inl show ?thesis unfolding split(1) unfolding split(2) by (simp add: stops_def final_def outcome_def)
    next
      case False
      then have t: "transient (poll i)" "\<not> final (poll i)" using Inl by (simp_all add: transient_def final_def)
      note st = wait_state_fail [OF Suc.prems t(1)]
      show ?thesis
      proof (cases "f = 4")
        case True
        with st t Inl False show ?thesis unfolding split(1) unfolding split(2) by (simp add: outcome_def)
      next
        case f: False
        with Suc.prems have "f < 4" by (simp add: wait_state_def)
        with st(2) IH [of "Suc f"] st(1) t f Inl False show ?thesis unfolding split(1) unfolding split(2) by simp
      qed
    qed
  qed
qed

lemma wait_confirmed:
  assumes "waitForConfirmation poll None = Inr res"
  shows "\<exists>k < 55. poll k = Inr res \<and> field ''status'' res = Some (JStr ''confirmed'')"
proof -
  have "wait_state poll 0 0" by (simp add: wait_state_def)
  from waitLoop_exact [OF this, of 55] assms
  obtain k where k: "find (stops poll) [0..<55] = Some k" "outcome poll k = Inr res"
    by (auto simp: waitForConfirmation_def split: option.splits)
  then have "k < 55" by (auto simp: find_Some_iff)
  with k(2) show ?thesis by (intro exI [of _ k]) (auto simp: outcome_def split: sum.splits if_splits)
qed

section \<open>Properties\<close>

text \<open>
  Waiting for a confirmation ends after at most 55 polls, and its result is that of the
  first poll that ends it: success exactly when that poll reports a confirmed transaction, the
  on-chain failure when it reports one, loss of contact at the fifth failed poll in a row, and
  a timeout with the last answer when no poll ends it. A single failed poll never does.
\<close>

theorem wait_outcome_exact:
  "waitForConfirmation poll maxAttempts =
     (let n = orElse maxAttempts 55
      in case find (stops poll) [0..<n] of
           Some k \<Rightarrow> outcome poll k
         | None \<Rightarrow> Inl (RelayerError ''Timed out waiting for relayer confirmation'' (Some (JStr ''WAIT_TIMEOUT''))
             (last_answer poll n)))"
  using waitLoop_exact [of poll 0 0 "orElse maxAttempts 55"]
  by (simp add: waitForConfirmation_def wait_state_def Let_def cong: option.case_cong)

text \<open>
  C27. A relayed transaction is reported with a hash only after the relayer has confirmed it:
  the submission was accepted with an id, at most one authorization entry was sent, one of the
  first 55 polls for that id answered \<open>confirmed\<close>, and the hash is that answer's.
\<close>

theorem relayed_hash_is_confirmed:
  assumes "relayerSubmitAndConfirm fetch fetchAt funcAndAuth baseUrl = Inr h"
  shows "\<exists>func auth submitted i k res. funcAndAuth = Inr (func, auth) \<and> length auth \<le> 1 \<and>
    submitSorobanTransaction fetch func auth None baseUrl = Inr submitted \<and>
    orElse (as_string (field ''transactionId'' submitted)) [] = i \<and> k < 55 \<and>
    getRelayerTransaction (fetchAt k) i baseUrl = Inr res \<and>
    field ''status'' res = Some (JStr ''confirmed'') \<and> truthy (field ''hash'' res) \<and>
    h = orElse (as_string (field ''hash'' res)) []"
proof -
  from assms obtain func auth submitted res where r: "funcAndAuth = Inr (func, auth)" "length auth \<le> 1"
    "submitSorobanTransaction fetch func auth None baseUrl = Inr submitted"
    "waitForConfirmation (\<lambda>i. getRelayerTransaction (fetchAt i)
       (orElse (as_string (field ''transactionId'' submitted)) []) baseUrl) None = Inr res"
    "truthy (field ''hash'' res)" "h = orElse (as_string (field ''hash'' res)) []"
    by (auto simp: relayerSubmitAndConfirm_def result_simps split: sum.splits if_splits)
  from wait_confirmed [OF r(4)] r show ?thesis by blast
qed

text \<open>A relayer that accepts one transaction and confirms it at the second poll, after a failed one.\<close>

definition sample_fetch :: "nat \<Rightarrow> fetch" where
  "sample_fetch i url body =
     (if i = 0 then Inl (TypeError ''Failed to fetch'')
      else Inr \<lparr>reply_ok = True, reply_status = 200, reply_json = Some (JObj [(''success'', JBool True),
        (''data'', JObj [(''transactionId'', JStr ''t1''), (''status'', JStr ''confirmed''), (''hash'', JStr ''h1'')])])\<rparr>)"

theorem relayed_hash_is_confirmed_witness:
  "\<exists>k < 55. \<exists>res. getRelayerTransaction (sample_fetch k) ''t1'' ''https://relay'' = Inr res \<and>
     field ''status'' res = Some (JStr ''confirmed'') \<and> field ''hash'' res = Some (JStr ''h1'')"
proof -
  have "relayerSubmitAndConfirm (sample_fetch 1) sample_fetch (Inr (''func'', [''auth''])) ''https://relay'' = Inr ''h1''"
    by code_simp
  from relayed_hash_is_confirmed [OF this] obtain submitted k res where
    r: "submitSorobanTransaction (sample_fetch 1) ''func'' [''auth''] None ''https://relay'' = Inr submitted"
    "k < 55" "getRelayerTransaction (sample_fetch k) (orElse (as_string (field ''transactionId'' submitted)) []) ''https://relay'' = Inr res"
    "field ''status'' res = Some (JStr ''confirmed'')" "truthy (field ''hash'' res)"
    "''h1'' = orElse (as_string (field ''hash'' res)) []" by auto
  have "submitSorobanTransaction (sample_fetch 1) ''func'' [''auth''] None ''https://relay'' =
    Inr (JObj [(''transactionId'', JStr ''t1''), (''status'', JStr ''confirmed''), (''hash'', JStr ''h1'')])"
    by code_simp
  with r have "getRelayerTransaction (sample_fetch k) ''t1'' ''https://relay'' = Inr res" by simp
  moreover have "field ''hash'' res = Some (JStr ''h1'')"
    using r(6) by (auto simp: as_string_def orElse_def split: option.splits json.splits)
  ultimately show ?thesis using r by blast
qed

end
