(* ===== verification/Chain.thy ===== *)
theory Chain
  imports Policies Resolver Encoding
begin

text \<open>
  Reading an account's rules from the chain (\<open>frontend/src/lib/policyChainFetch.ts\<close>). A view
  of a contract is simulated by the RPC, a parameter; \<open>scValToNative\<close> turns its value into a
  plain JavaScript value, here \<open>native\<close>. The scan over rule ids is bounded by the number of
  live rules plus 100, so its recursion is structural in the ids left.
\<close>

section \<open>Decoded values\<close>

datatype native =
    NNull
  | NNum int
  | NStr string
  | NBytes bytes
  | NArr "native list"
  | NObj "(string \<times> native) list"

definition nfield :: "string \<Rightarrow> native \<Rightarrow> native option" where
  "nfield k v = (case v of NObj kvs \<Rightarrow> map_of kvs k | _ \<Rightarrow> None)"

text \<open>\<open>String(v)\<close>\<close>

fun asText :: "native \<Rightarrow> string" where
  "asText NNull = ''null''"
| "asText (NNum n) = showInt n"
| "asText (NStr s) = s"
| "asText (NBytes bs) = join '','' (map (\<lambda>b. showNat (unat b)) bs)"
| "asText (NArr vs) = join '','' (map (\<lambda>v. if v = NNull then [] else asText v) vs)"
| "asText (NObj _) = ''[object Object]''"

definition textAt :: "native list \<Rightarrow> nat \<Rightarrow> string" where
  "textAt vs i = (if i < length vs then asText (vs ! i) else ''undefined'')"

definition list_of :: "native option \<Rightarrow> native list" where
  "list_of v = (case v of Some (NArr vs) \<Rightarrow> vs | _ \<Rightarrow> [])"

text \<open>\<open>new Uint8Array(v)\<close> of a decoded value: bytes, a list of numbers, or a length.\<close>

definition toBytes :: "native option \<Rightarrow> bytes" where
  "toBytes v = (case v of
      Some (NBytes bs) \<Rightarrow> bs
    | Some (NArr vs) \<Rightarrow> map (\<lambda>x. case x of NNum n \<Rightarrow> word_of_int n | _ \<Rightarrow> 0) vs
    | Some (NNum n) \<Rightarrow> replicate (nat n) 0
    | _ \<Rightarrow> [])"

definition as_num :: "native option \<Rightarrow> nat" where
  "as_num v = (case v of Some (NNum n) \<Rightarrow> nat n | _ \<Rightarrow> 0)"

definition enumTag :: "native \<Rightarrow> string \<times> native list" where
  "enumTag v = (case v of NArr (t # vs) \<Rightarrow> (asText t, vs) | NArr [] \<Rightarrow> (''undefined'', []) | _ \<Rightarrow> (asText v, []))"

definition parseContextType :: "native \<Rightarrow> context_type result" where
  "parseContextType ct =
     (case enumTag ct of (tag, values) \<Rightarrow>
        if tag = ''Default'' then Inr CtxDefault
        else if tag = ''CallContract'' then Inr (CtxCallContract (textAt values 0))
        else if tag = ''CreateContract'' then Inr (CtxCreateContract (toBytes (arr values 0)))
        else Inl (Error ''unknown context type''))"

definition parseSigner :: "native \<Rightarrow> signer result" where
  "parseSigner s =
     (case enumTag s of (tag, values) \<Rightarrow>
        if tag = ''Delegated'' then Inr (Delegated (textAt values 0))
        else if tag = ''External'' then Inr (External (textAt values 0) (toBytes (arr values 1)))
        else Inl (Error ''unknown signer''))"

definition parseRule :: "native \<Rightarrow> chain_rule result" where
  "parseRule native =
     bindR (parseContextType (orElse (nfield ''context_type'' native) (NStr ''undefined''))) (\<lambda>ctx.
     bindR (mapR parseSigner (list_of (nfield ''signers'' native))) (\<lambda>signers.
       Inr \<lparr>rule_id = as_num (nfield ''id'' native), context_of = ctx,
            rule_name = (case nfield ''name'' native of Some (NStr s) \<Rightarrow> s | _ \<Rightarrow> []),
            rule_signers = signers,
            rule_policies = map asText (list_of (nfield ''policies'' native)),
            valid_until = (case nfield ''valid_until'' native of Some (NNum n) \<Rightarrow> Some (nat n) | _ \<Rightarrow> None)\<rparr>))"

section \<open>Views\<close>

datatype view_arg = ArgU32 nat | ArgAddress string

text \<open>The contract, the view and its arguments.\<close>

type_synonym chain_rpc = "string \<Rightarrow> string \<Rightarrow> view_arg list \<Rightarrow> native simulation result"

definition simulateView :: "chain_rpc \<Rightarrow> string \<Rightarrow> string \<Rightarrow> view_arg list \<Rightarrow> native result" where
  "simulateView rpc contract fn args =
     bindR (rpc contract fn args) (\<lambda>sim.
       (case sim of
          SimError msg \<Rightarrow> Inl (Error (''simulateView '' @ fn @ '': '' @ msg))
        | SimNoResult \<Rightarrow> Inl (Error (''simulateView '' @ fn @ '': no result''))
        | SimValue v \<Rightarrow> v))"

definition str_includes :: "string \<Rightarrow> string \<Rightarrow> bool" where
  "str_includes s t \<longleftrightarrow> list_ex (\<lambda>i. startsWith (drop i s) t) [0..<Suc (length s)]"

definition isRuleNotFound :: "js_error \<Rightarrow> bool" where
  "isRuleNotFound e \<longleftrightarrow> str_includes (error_message e) ''Error(Contract, #3000)'' \<or>
     str_includes (error_message e) ''ContextRuleNotFound''"

definition getRule :: "chain_rpc \<Rightarrow> string \<Rightarrow> nat \<Rightarrow> native result" where
  "getRule rpc account i = simulateView rpc account ''get_context_rule'' [ArgU32 i]"

definition ruleCount :: "chain_rpc \<Rightarrow> string \<Rightarrow> nat result" where
  "ruleCount rpc account =
     bindR (simulateView rpc account ''get_context_rules_count'' []) (\<lambda>c. Inr (as_num (Some c)))"

section \<open>Scanning the rules\<close>

definition scan_exhausted :: js_error where
  "scan_exhausted = Error ''context-rule scan exhausted''"

fun ruleScan :: "(nat \<Rightarrow> native result) \<Rightarrow> nat \<Rightarrow> nat \<Rightarrow> nat \<Rightarrow> nat \<Rightarrow> chain_rule list \<Rightarrow> chain_rule list result" where
  "ruleScan get count 0 i found out = (if length out < count then Inl scan_exhausted else Inr out)"
| "ruleScan get count (Suc n) i found out =
     (if \<not> found < count then (if length out < count then Inl scan_exhausted else Inr out)
      else (case get i of
              Inl e \<Rightarrow> if isRuleNotFound e then ruleScan get count n (Suc i) found out else Inl e
            | Inr v \<Rightarrow> bindR (parseRule v) (\<lambda>rule. ruleScan get count n (Suc i) (Suc found) (out @ [rule]))))"

definition fetchAllChainRules :: "chain_rpc \<Rightarrow> string \<Rightarrow> chain_rule list result" where
  "fetchAllChainRules rpc account =
     bindR (ruleCount rpc account) (\<lambda>count. ruleScan (getRule rpc account) count (count + 100) 0 0 [])"

text \<open>The hexadecimal form of a decoded key, which may come as bytes, a list or an object.\<close>

definition numHex :: "native \<Rightarrow> string" where
  "numHex v = padStart 2 CHR ''0'' (case v of NNum n \<Rightarrow> toStringBase 16 (nat n) | _ \<Rightarrow> asText v)"

fun ordered_values :: "(string \<times> native) list \<Rightarrow> nat \<Rightarrow> nat \<Rightarrow> native list" where
  "ordered_values kvs 0 j = []"
| "ordered_values kvs (Suc n) j =
     (case map_of kvs (showNat j) of None \<Rightarrow> [] | Some v \<Rightarrow> v # ordered_values kvs n (Suc j))"

definition candidateHex :: "native option \<Rightarrow> string" where
  "candidateHex raw = (case raw of
      Some (NBytes bs) \<Rightarrow> buf2hex bs
    | Some (NArr vs) \<Rightarrow> concat (map numHex vs)
    | Some (NObj kvs) \<Rightarrow> concat (map numHex (ordered_values kvs (length kvs) 0))
    | _ \<Rightarrow> [])"

fun signerHit :: "string \<Rightarrow> native list \<Rightarrow> string option" where
  "signerHit lowerHex [] = None"
| "signerHit lowerHex (s # ss) =
     (case s of
        NArr vs \<Rightarrow>
          if arr vs 0 = Some (NStr ''External'') \<and> candidateHex (arr vs 2) \<noteq> [] \<and> candidateHex (arr vs 2) = lowerHex
          then Some (textAt vs 1) else signerHit lowerHex ss
      | _ \<Rightarrow> signerHit lowerHex ss)"

definition ruleHit :: "string \<Rightarrow> nat \<Rightarrow> native \<Rightarrow> (nat \<times> string) option" where
  "ruleHit lowerHex i v =
     map_option (\<lambda>verifier. (case nfield ''id'' v of Some (NNum n) \<Rightarrow> nat n | _ \<Rightarrow> i, verifier))
       (signerHit lowerHex (list_of (nfield ''signers'' v)))"

fun signerScan ::
  "(nat \<Rightarrow> native result) \<Rightarrow> string \<Rightarrow> nat \<Rightarrow> nat \<Rightarrow> nat \<Rightarrow> nat \<Rightarrow> (nat \<times> string) option result" where
  "signerScan get lowerHex count 0 i found = (if found < count then Inl scan_exhausted else Inr None)"
| "signerScan get lowerHex count (Suc n) i found =
     (if \<not> found < count then Inr None
      else (case get i of
              Inl e \<Rightarrow> if isRuleNotFound e then signerScan get lowerHex count n (Suc i) found else Inl e
            | Inr v \<Rightarrow> (case ruleHit lowerHex i v of
                Some h \<Rightarrow> Inr (Some h)
              | None \<Rightarrow> signerScan get lowerHex count n (Suc i) (Suc found))))"

definition resolveSignerRule :: "chain_rpc \<Rightarrow> string \<Rightarrow> string \<Rightarrow> (nat \<times> string) option result" where
  "resolveSignerRule rpc account pubkeyHex =
     bindR (ruleCount rpc account) (\<lambda>count.
       signerScan (getRule rpc account) (toLowerCase pubkeyHex) count (count + 100) 0 0)"

definition findRuleForPubkey :: "chain_rpc \<Rightarrow> string \<Rightarrow> string \<Rightarrow> nat option result" where
  "findRuleForPubkey rpc account pubkeyHex =
     bindR (resolveSignerRule rpc account pubkeyHex) (\<lambda>r. Inr (map_option fst r))"

section \<open>Policies, verifiers and the default rule\<close>

text \<open>The registry lookup, with the fixed addresses of preview builds; the name is a constant of the program.\<close>

definition ZK_PREVIEW_ADDRESSES :: "string \<rightharpoonup> string" where
  "ZK_PREVIEW_ADDRESSES =
     [''factory'' \<mapsto> ''CA2NQS3V6XCNA4FZDPQ4JLSQ65CRWMHHLYQEZ5YQ7MYQX2G5USZ4GWBL'',
      ''zk-recovery'' \<mapsto> ''CDXT3DCXYFNZNKBST7VZMN5RJWH24HQXO3WLENQEP7YMPAEZJTQNMEKS'']"

definition chainRegistryAddress :: "bool \<Rightarrow> (string \<Rightarrow> string option result) \<Rightarrow> string \<Rightarrow> string result" where
  "chainRegistryAddress zkPreview lookup n =
     (case (if zkPreview then ZK_PREVIEW_ADDRESSES n else None) of
        Some a \<Rightarrow> Inr a
      | None \<Rightarrow> fetchRegistryAddress lookup n)"

text \<open>\<open>limitId\<close> is the page's memoized registry answer; \<open>readLimit\<close> the policy's generated client.\<close>

definition fetchSpendingLimit ::
  "string result \<Rightarrow> (string \<Rightarrow> nat \<Rightarrow> string \<Rightarrow> (int \<times> nat) option result) \<Rightarrow> string \<Rightarrow> chain_rule \<Rightarrow> (int \<times> nat) option" where
  "fetchSpendingLimit limitId readLimit account rule =
     (case limitId of
        Inl _ \<Rightarrow> None
      | Inr policyAddr \<Rightarrow>
          if policyAddr \<notin> set (rule_policies rule) then None
          else (case readLimit policyAddr (rule_id rule) account of Inl _ \<Rightarrow> None | Inr params \<Rightarrow> params))"

definition policyInfo ::
  "chain_rpc \<Rightarrow> string result \<Rightarrow> (string \<Rightarrow> nat \<Rightarrow> string \<Rightarrow> (int \<times> nat) option result) \<Rightarrow> string \<Rightarrow> chain_rule \<Rightarrow>
   string \<Rightarrow> policy_info" where
  "policyInfo rpc limitId readLimit account rule policyAddr =
     (if limitId = Inr policyAddr then
        \<lparr>info_threshold = None, info_limit = Some (case fetchSpendingLimit limitId readLimit account rule of
             Some (stroops, period) \<Rightarrow> Limit stroops period | None \<Rightarrow> Unreadable)\<rparr>
      else (case simulateView rpc policyAddr ''get_threshold'' [ArgU32 (rule_id rule), ArgAddress account] of
              Inr (NNum n) \<Rightarrow> \<lparr>info_threshold = Some (nat n), info_limit = None\<rparr>
            | _ \<Rightarrow> \<lparr>info_threshold = None, info_limit = None\<rparr>))"

definition fetchPolicyState ::
  "chain_rpc \<Rightarrow> string result \<Rightarrow> (string \<Rightarrow> nat \<Rightarrow> string \<Rightarrow> (int \<times> nat) option result) \<Rightarrow> string \<Rightarrow> chain_rule \<Rightarrow>
   policy_state" where
  "fetchPolicyState rpc limitId readLimit account rule =
     foldl (\<lambda>state p. state(p \<mapsto> policyInfo rpc limitId readLimit account rule p)) Map.empty (rule_policies rule)"

fun firstVerifier :: "native list \<Rightarrow> string option" where
  "firstVerifier [] = None"
| "firstVerifier (s # ss) =
     (case s of
        NArr (NStr t # NStr v # _) \<Rightarrow> if t = ''External'' then Some v else firstVerifier ss
      | _ \<Rightarrow> firstVerifier ss)"

definition fetchVerifierAddress :: "chain_rpc \<Rightarrow> (string \<Rightarrow> string result) \<Rightarrow> string \<Rightarrow> string result" where
  "fetchVerifierAddress rpc registryAddress account =
     (case getRule rpc account 0 of
        Inr native \<Rightarrow> (case firstVerifier (list_of (nfield ''signers'' native)) of
            Some v \<Rightarrow> Inr v | None \<Rightarrow> registryAddress ''verifier'')
      | Inl _ \<Rightarrow> registryAddress ''verifier'')"

record default_rule_info =
  externalSigners :: "(string \<times> bytes) list"
  delegatedCount :: nat
  policyCount :: nat
  rule_threshold :: "nat option"

definition externals :: "signer list \<Rightarrow> (string \<times> bytes) list" where
  "externals ss = concat (map (\<lambda>s. (case s of External v pk \<Rightarrow> [(v, pk)] | Delegated _ \<Rightarrow> [])) ss)"

definition firstThreshold :: "policy_state \<Rightarrow> string list \<Rightarrow> nat option" where
  "firstThreshold state ps =
     (case find (\<lambda>p. \<exists>t \<in> set_option (Option.bind (state p) info_threshold). 0 < t) ps of
        None \<Rightarrow> None | Some p \<Rightarrow> Option.bind (state p) info_threshold)"

definition fetchDefaultRuleAuthInfo ::
  "chain_rpc \<Rightarrow> (chain_rule \<Rightarrow> policy_state result) \<Rightarrow> string \<Rightarrow> nat \<Rightarrow> default_rule_info result" where
  "fetchDefaultRuleAuthInfo rpc fetchState account ruleId =
     bindR (getRule rpc account ruleId) (\<lambda>native.
     bindR (parseRule native) (\<lambda>rule.
       Inr \<lparr>externalSigners = externals (rule_signers rule),
            delegatedCount = length (rule_signers rule) - length (externals (rule_signers rule)),
            policyCount = length (rule_policies rule),
            rule_threshold = (if rule_policies rule = [] then None
              else (case fetchState rule of Inl _ \<Rightarrow> None | Inr st \<Rightarrow> firstThreshold st (rule_policies rule)))\<rparr>))"

datatype removable = Removable int bytes | NoneExternal | MultipleExternal nat | UnreadableSigner

text \<open>\<open>None\<close> in the ids stands for a value that is not an integer.\<close>

definition selectRemovableSigner :: "signer list \<Rightarrow> int option list \<Rightarrow> removable" where
  "selectRemovableSigner signers signerIds =
     (let exts = concat (map (\<lambda>(s, i). (case s of External v pk \<Rightarrow> [(pk, i)] | Delegated _ \<Rightarrow> []))
           (zip signers (map (\<lambda>k. Option.bind (arr signerIds (int k)) id) [0..<length signers])))
      in case exts of
           [] \<Rightarrow> NoneExternal
         | [(pk, Some i)] \<Rightarrow> Removable i pk
         | [(pk, None)] \<Rightarrow> UnreadableSigner
         | _ \<Rightarrow> MultipleExternal (length exts))"

definition findRemovableOldSigner :: "chain_rpc \<Rightarrow> string \<Rightarrow> removable result" where
  "findRemovableOldSigner rpc account =
     (case getRule rpc account 0 of
        Inl _ \<Rightarrow> Inr UnreadableSigner
      | Inr native \<Rightarrow>
          bindR (mapR parseSigner (list_of (nfield ''signers'' native))) (\<lambda>signers.
            Inr (selectRemovableSigner signers
              (map (\<lambda>v. (case v of NNum n \<Rightarrow> Some n | _ \<Rightarrow> None)) (list_of (nfield ''signer_ids'' native))))))"

section \<open>The account's promise\<close>

text \<open>
  What the account answers: its live rules by id, one value each, the number of them, and the
  contract error 3000 for every other id. Ids are never reused, so they may have gaps.
\<close>

definition serves :: "chain_rpc \<Rightarrow> string \<Rightarrow> (nat \<rightharpoonup> native) \<Rightarrow> bool" where
  "serves rpc account live \<longleftrightarrow> finite (dom live) \<and>
     simulateView rpc account ''get_context_rules_count'' [] = Inr (NNum (int (card (dom live)))) \<and>
     (\<forall>i. (case live i of
             Some v \<Rightarrow> getRule rpc account i = Inr v
           | None \<Rightarrow> (\<exists>e. getRule rpc account i = Inl e \<and> isRuleNotFound e)))"

definition below :: "(nat \<rightharpoonup> native) \<Rightarrow> nat \<Rightarrow> nat" where
  "below live i = card {j \<in> dom live. j < i}"

lemma below_Suc:
  "finite (dom live) \<Longrightarrow> below live (Suc i) = (if i \<in> dom live then Suc (below live i) else below live i)"
proof -
  have "{j \<in> dom live. j < Suc i} = (if i \<in> dom live then insert i {j \<in> dom live. j < i} else {j \<in> dom live. j < i})"
    by (auto simp: less_Suc_eq)
  then show "finite (dom live) \<Longrightarrow> ?thesis" by (simp add: below_def)
qed

lemma below_full:
  assumes "finite (dom live)" "\<not> below live i < card (dom live)" "j \<in> dom live"
  shows "j < i"
proof -
  have "{j \<in> dom live. j < i} = dom live"
    using assms(1,2) by (intro card_seteq) (auto simp: below_def)
  with assms(3) show ?thesis by auto
qed

lemma below_all: "dom live \<subseteq> {..<i} \<Longrightarrow> below live i = card (dom live)"
  by (auto simp: below_def intro!: arg_cong [where f = card])

lemma below_0 [simp]: "below live 0 = 0"
  by (simp add: below_def)

lemma servesD:
  assumes "serves rpc account live"
  shows "finite (dom live)" "ruleCount rpc account = Inr (card (dom live))"
    "live i = Some v \<Longrightarrow> getRule rpc account i = Inr v"
    "live i = None \<Longrightarrow> \<exists>e. getRule rpc account i = Inl e \<and> isRuleNotFound e"
proof -
  have all: "case live i of Some v \<Rightarrow> getRule rpc account i = Inr v
      | None \<Rightarrow> (\<exists>e. getRule rpc account i = Inl e \<and> isRuleNotFound e)" for i
    using assms by (simp add: serves_def)
  show "finite (dom live)" "ruleCount rpc account = Inr (card (dom live))"
    using assms by (simp_all add: serves_def ruleCount_def as_num_def)
  show "live i = Some v \<Longrightarrow> getRule rpc account i = Inr v"
    "live i = None \<Longrightarrow> \<exists>e. getRule rpc account i = Inl e \<and> isRuleNotFound e"
    using all [of i] by simp_all
qed

text \<open>The first rule, by id, that has the key among its signers.\<close>

definition first_hit :: "string \<Rightarrow> (nat \<rightharpoonup> native) \<Rightarrow> nat \<times> string \<Rightarrow> bool" where
  "first_hit lowerHex live h \<longleftrightarrow> (\<exists>i v. live i = Some v \<and> ruleHit lowerHex i v = Some h \<and>
     (\<forall>j w. j < i \<and> live j = Some w \<longrightarrow> ruleHit lowerHex j w = None))"

lemma signerScan_sound:
  assumes "serves rpc account live" "\<forall>j w. j < i \<and> live j = Some w \<longrightarrow> ruleHit hex j w = None"
    and "signerScan (getRule rpc account) hex (card (dom live)) n i (below live i) = Inr r"
  shows "case r of None \<Rightarrow> \<forall>j w. live j = Some w \<longrightarrow> ruleHit hex j w = None | Some h \<Rightarrow> first_hit hex live h"
  using assms(2,3)
proof (induction n arbitrary: i)
  case 0
  then show ?case
    using below_full [OF servesD(1) [OF assms(1)], of i] by (auto split: if_splits)
next
  case (Suc n)
  note served = servesD [OF assms(1)]
  show ?case
  proof (cases "below live i < card (dom live)")
    case False
    with Suc.prems below_full [OF served(1) False] show ?thesis by auto
  next
    case True
    show ?thesis
    proof (cases "live i")
      case None
      with served(4) obtain e where "getRule rpc account i = Inl e" "isRuleNotFound e" by blast
      with Suc.prems None True served(1) show ?thesis
        by (intro Suc.IH [of "Suc i"]) (auto simp: below_Suc domIff less_Suc_eq)
    next
      case (Some v)
      then have get: "getRule rpc account i = Inr v" by (rule served(3))
      show ?thesis
      proof (cases "ruleHit hex i v")
        case None
        with Suc.prems Some True get served(1) show ?thesis
          by (intro Suc.IH [of "Suc i"]) (auto simp: below_Suc domIff less_Suc_eq)
      next
        case (Some h)
        with Suc.prems(2) True get have "r = Some h" by simp
        with Some Suc.prems(1) \<open>live i = Some v\<close> show ?thesis
          unfolding first_hit_def by (simp only: option.case) blast
      qed
    qed
  qed
qed

lemma signerScan_returns:
  assumes "serves rpc account live" "dom live \<subseteq> {..<i + n}"
  shows "\<exists>r. signerScan (getRule rpc account) hex (card (dom live)) n i (below live i) = Inr r"
  using assms(2)
proof (induction n arbitrary: i)
  case 0
  then show ?case by (simp add: below_all)
next
  case (Suc n)
  note served = servesD [OF assms(1)]
  have IH: "\<exists>r. signerScan (getRule rpc account) hex (card (dom live)) n (Suc i) (below live (Suc i)) = Inr r"
    using Suc.prems by (intro Suc.IH) simp
  show ?case
  proof (cases "live i")
    case None
    with served(4) obtain e where "getRule rpc account i = Inl e" "isRuleNotFound e" by blast
    with IH None served(1) show ?thesis by (simp add: below_Suc domIff)
  next
    case (Some v)
    then have "getRule rpc account i = Inr v" by (rule served(3))
    with IH Some served(1) show ?thesis by (auto simp: below_Suc domIff split: option.split)
  qed
qed

lemma length_live: "length (filter (\<lambda>j. j \<in> dom live) [0..<i]) = below live i"
proof -
  have "{j \<in> dom live. j < i} = set (filter (\<lambda>j. j \<in> dom live) [0..<i])" by auto
  moreover have "distinct (filter (\<lambda>j. j \<in> dom live) [0..<i])" by simp
  ultimately show ?thesis unfolding below_def by (metis distinct_card)
qed

text \<open>The rules of a complete scan: the live ones in the order of their ids.\<close>

lemma ruleScan_sound:
  assumes "serves rpc account live"
    and "mapR (\<lambda>j. parseRule (the (live j))) (filter (\<lambda>j. j \<in> dom live) [0..<i]) = Inr out"
    and "ruleScan (getRule rpc account) (card (dom live)) n i (below live i) out = Inr rules"
  shows "\<exists>m. dom live \<subseteq> {..<m} \<and>
    mapR (\<lambda>j. parseRule (the (live j))) (filter (\<lambda>j. j \<in> dom live) [0..<m]) = Inr rules"
  using assms(2,3)
proof (induction n arbitrary: i out)
  case 0
  have served: "finite (dom live)" using assms(1) by (rule servesD)
  have "length out = below live i"
    using mapR_length [OF 0(1)] by (simp add: length_live)
  with 0(2) have "\<not> below live i < card (dom live)" "rules = out" by (simp_all split: if_splits)
  with below_full [OF served] 0(1) show ?case by (intro exI [of _ i]) auto
next
  case (Suc n)
  note served = servesD [OF assms(1)]
  have len: "length out = below live i"
    using mapR_length [OF Suc.prems(1)] by (simp add: length_live)
  show ?case
  proof (cases "below live i < card (dom live)")
    case False
    with Suc.prems len below_full [OF served(1) False] show ?thesis by (intro exI [of _ i]) auto
  next
    case True
    show ?thesis
    proof (cases "live i")
      case None
      with served(4) obtain e where "getRule rpc account i = Inl e" "isRuleNotFound e" by blast
      with Suc.prems None True served(1) show ?thesis
        by (intro Suc.IH [of "Suc i" out]) (auto simp: below_Suc domIff)
    next
      case (Some v)
      then have "getRule rpc account i = Inr v" by (rule served(3))
      with Suc.prems Some True served(1) obtain rule where "parseRule v = Inr rule"
        "ruleScan (getRule rpc account) (card (dom live)) n (Suc i) (below live (Suc i)) (out @ [rule]) = Inr rules"
        by (auto simp: result_simps below_Suc domIff)
      with Some Suc.prems(1) show ?thesis
        by (intro Suc.IH [of "Suc i" "out @ [rule]"]) (auto simp: mapR_append)
    qed
  qed
qed

text \<open>A sample account: rule 0 was revoked, rule 1 has the key 04.\<close>

definition sample_rule :: native where
  "sample_rule = NObj [(''id'', NNum 1), (''context_type'', NArr [NStr ''Default'']), (''name'', NStr ''recovered''),
     (''signers'', NArr [NArr [NStr ''External'', NStr ''CV'', NBytes [4]]]), (''policies'', NArr [])]"

definition sample_chain :: chain_rpc where
  "sample_chain contract fn args =
     (if fn = ''get_context_rules_count'' then Inr (SimValue (Inr (NNum 1)))
      else if args = [ArgU32 1] then Inr (SimValue (Inr sample_rule))
      else Inr (SimError ''HostError: Error(Contract, #3000)''))"

lemma sample_serves: "serves sample_chain ''CA'' [1 \<mapsto> sample_rule]"
proof -
  have "isRuleNotFound (Error (''simulateView '' @ ''get_context_rule'' @ '': '' @ ''HostError: Error(Contract, #3000)''))"
    by code_simp
  then show ?thesis
    by (auto simp: serves_def getRule_def simulateView_def sample_chain_def split: option.split)
qed

lemma sample_hit: "ruleHit ''04'' 1 sample_rule = Some (1, ''CV'')"
  by code_simp

lemma sample_list: "\<exists>rules. fetchAllChainRules sample_chain ''CA'' = Inr rules"
proof -
  note served = servesD [OF sample_serves]
  obtain e where e: "getRule sample_chain ''CA'' 0 = Inl e" "isRuleNotFound e" using served(4) [of 0] by auto
  have v: "getRule sample_chain ''CA'' 1 = Inr sample_rule" by (rule served(3)) simp
  have p: "\<not> isl (parseRule sample_rule)" by code_simp
  have "\<exists>rules. ruleScan (getRule sample_chain ''CA'') 1 (Suc (Suc (Suc n))) 0 0 [] = Inr rules" for n
    using e v p by (cases "parseRule sample_rule") auto
  from this [of 98] show ?thesis using served(2) by (simp add: fetchAllChainRules_def)
qed

section \<open>Properties\<close>

text \<open>
  C29. Finding the rule a passkey signs under is exact. If the account's live rules are read
  faithfully, an answer is the first rule that has the key, with that rule's verifier; "no
  rule" is answered only when no live rule has it; and the search answers whenever the live
  ids lie within the scan's bound. A truncated scan is an error, never a wrong answer.
\<close>

theorem signer_rule_exact:
  assumes "serves rpc account live"
  shows "(\<forall>r. resolveSignerRule rpc account pubkeyHex = Inr r \<longrightarrow>
      (case r of
         None \<Rightarrow> \<forall>j w. live j = Some w \<longrightarrow> ruleHit (toLowerCase pubkeyHex) j w = None
       | Some h \<Rightarrow> first_hit (toLowerCase pubkeyHex) live h)) \<and>
    (dom live \<subseteq> {..<card (dom live) + 100} \<longrightarrow> (\<exists>r. resolveSignerRule rpc account pubkeyHex = Inr r))"
  using signerScan_sound [OF assms, of 0 "toLowerCase pubkeyHex" "card (dom live) + 100"]
    signerScan_returns [OF assms, of 0 "card (dom live) + 100" "toLowerCase pubkeyHex"] servesD(2) [OF assms]
  by (simp add: resolveSignerRule_def)

theorem signer_rule_exact_witness:
  "resolveSignerRule sample_chain ''CA'' ''04'' = Inr (Some (1, ''CV''))"
proof -
  have l: "toLowerCase ''04'' = ''04''" by code_simp
  have "dom [1 \<mapsto> sample_rule] \<subseteq> {..<card (dom [1 \<mapsto> sample_rule]) + 100}" by simp
  with signer_rule_exact [OF sample_serves, of "''04''", unfolded l] obtain r where
    r: "resolveSignerRule sample_chain ''CA'' ''04'' = Inr r"
    and c: "case r of None \<Rightarrow> \<forall>j w. [1 \<mapsto> sample_rule] j = Some w \<longrightarrow> ruleHit ''04'' j w = None
      | Some h \<Rightarrow> first_hit ''04'' [1 \<mapsto> sample_rule] h" by blast
  have "r = Some (1, ''CV'')"
  proof (cases r)
    case None
    with c sample_hit show ?thesis by (auto dest: spec [of _ 1])
  next
    case (Some h)
    with c sample_hit show ?thesis by (auto simp: first_hit_def split: if_splits)
  qed
  with r show ?thesis by simp
qed

text \<open>
  C30. The list of an account's rules is never silently short: whenever it is returned, it is
  the parse of all live rules, in the order of their ids.
\<close>

theorem rule_list_complete:
  assumes "serves rpc account live" "fetchAllChainRules rpc account = Inr rules"
  shows "mapR (\<lambda>j. parseRule (the (live j))) (sorted_list_of_set (dom live)) = Inr rules"
proof -
  from assms obtain m where m: "dom live \<subseteq> {..<m}"
    "mapR (\<lambda>j. parseRule (the (live j))) (filter (\<lambda>j. j \<in> dom live) [0..<m]) = Inr rules"
    using ruleScan_sound [OF assms(1), of 0 "[]" "card (dom live) + 100" rules] servesD(2) [OF assms(1)]
    by (auto simp: fetchAllChainRules_def)
  have "filter (\<lambda>j. j \<in> dom live) [0..<m] = sorted_list_of_set (dom live)"
    using m(1) servesD(1) [OF assms(1)]
    by (intro sorted_distinct_set_unique) (auto simp: sorted_wrt_filter)
  with m(2) show ?thesis by simp
qed

theorem rule_list_complete_witness:
  "\<exists>rules. fetchAllChainRules sample_chain ''CA'' = Inr rules \<and>
     mapR (\<lambda>j. parseRule (the ([1 \<mapsto> sample_rule] j))) (sorted_list_of_set (dom [1::nat \<mapsto> sample_rule])) = Inr rules"
proof -
  from sample_list obtain rules where r: "fetchAllChainRules sample_chain ''CA'' = Inr rules" ..
  with rule_list_complete [OF sample_serves r] show ?thesis by blast
qed

end
