(* ===== verification/WalletKit.thy ===== *)
theory WalletKit
  imports Url
begin

text \<open>
  The wallet-kit module (\<open>packages/stellar-wallets-kit-module\<close>): a dApp opens the wallet in a
  popup and waits for the result. \<open>redirect.ts\<close> is a state machine over the events of the
  browser, \<open>handover.ts\<close> reads the result's query parameters (the parsed list of names and
  values), \<open>module.ts\<close> keeps the chosen address in the dApp's local storage. Opening a popup
  from the module is a parameter that gives the parameters posted back, or the rejection.
\<close>

section \<open>The popup ceremony\<close>

datatype settlement = ResolvedWith string | RejectedWith string

record popup_state =
  popup_closed :: bool
  popup_listening :: bool
  popup_outcome :: "settlement option"

text \<open>A message has an origin, a source and a query string; \<open>Tick\<close> is the half-second poll.\<close>

datatype popup_event =
    Message string "string option" "string option"
  | UserCloses
  | Tick
  | Timeout

definition MESSAGE_SOURCE :: string where
  "MESSAGE_SOURCE = ''nido-wallet''"

definition open_popup :: "bool \<Rightarrow> popup_state" where
  "open_popup blocked =
     (if blocked then \<lparr>popup_closed = True, popup_listening = False,
        popup_outcome = Some (RejectedWith ''Nido: popup was blocked. Allow popups for this site and retry.'')\<rparr>
      else \<lparr>popup_closed = False, popup_listening = True, popup_outcome = None\<rparr>)"

text \<open>A message is accepted from the expected origin and source only.\<close>

definition accepts :: "string \<Rightarrow> popup_event \<Rightarrow> bool" where
  "accepts expectedOrigin e =
     (case e of Message origin source _ \<Rightarrow> origin = expectedOrigin \<and> source = Some MESSAGE_SOURCE | _ \<Rightarrow> False)"

definition settle :: "popup_state \<Rightarrow> bool \<Rightarrow> settlement \<Rightarrow> popup_state" where
  "settle s closes r = s\<lparr>popup_closed := popup_closed s \<or> closes, popup_listening := False, popup_outcome := Some r\<rparr>"

inductive popup_step :: "string \<Rightarrow> popup_state \<Rightarrow> popup_event \<Rightarrow> popup_state \<Rightarrow> bool" for expectedOrigin where
  deliver: "popup_listening s \<Longrightarrow> accepts expectedOrigin (Message origin source search) \<Longrightarrow>
    popup_step expectedOrigin s (Message origin source search) (settle s True (ResolvedWith (orElse search [])))"
| ignore: "\<not> popup_listening s \<or> \<not> accepts expectedOrigin (Message origin source search) \<Longrightarrow>
    popup_step expectedOrigin s (Message origin source search) s"
| close: "popup_step expectedOrigin s UserCloses (s\<lparr>popup_closed := True\<rparr>)"
| tick_open: "\<not> popup_listening s \<or> \<not> popup_closed s \<Longrightarrow> popup_step expectedOrigin s Tick s"
| tick_closed: "popup_listening s \<Longrightarrow> popup_closed s \<Longrightarrow>
    popup_step expectedOrigin s Tick (settle s False (RejectedWith ''Nido: the wallet window was closed before completing.''))"
| time_out: "popup_listening s \<Longrightarrow>
    popup_step expectedOrigin s Timeout (settle s True (RejectedWith ''Nido: timed out waiting for the wallet.''))"
| late: "\<not> popup_listening s \<Longrightarrow> popup_step expectedOrigin s Timeout s"

declare popup_step.intros [intro]

code_pred popup_step .

inductive_cases popup_stepE [elim!]: "popup_step expectedOrigin s e t"

inductive popup_run :: "string \<Rightarrow> popup_state \<Rightarrow> popup_event list \<Rightarrow> popup_state \<Rightarrow> bool" for expectedOrigin where
  start: "popup_run expectedOrigin s [] s"
| step: "popup_run expectedOrigin s es t \<Longrightarrow> popup_step expectedOrigin t e u \<Longrightarrow> popup_run expectedOrigin s (es @ [e]) u"

text \<open>The wallet's side: post the result to the opener, or append it to the return URL.\<close>

datatype post_action =
    PostToOpener string string
  | NavigateTo string "(string \<times> string) list"
  | NoAction

fun setParam :: "string \<times> string \<Rightarrow> (string \<times> string) list \<Rightarrow> (string \<times> string) list" where
  "setParam kv [] = [kv]"
| "setParam kv (x # xs) = (if fst x = fst kv then kv # filter (\<lambda>y. fst y \<noteq> fst kv) xs else x # setParam kv xs)"

definition postResultToOpener ::
  "bool \<Rightarrow> string \<Rightarrow> (string \<times> string) list \<Rightarrow> string \<Rightarrow> (string \<times> (string \<times> string) list) option \<Rightarrow> post_action" where
  "postResultToOpener openerOpen search incoming dappOrigin returnUrl =
     (if openerOpen then PostToOpener dappOrigin search
      else (case returnUrl of
              Some (target, params) \<Rightarrow> NavigateTo target (foldl (\<lambda>ps kv. setParam kv ps) params incoming)
            | None \<Rightarrow> NoAction))"

section \<open>Reading the result\<close>

type_synonym params = "(string \<times> string) list"

datatype connect_return = ConnectOk string | ConnectCancelled | ConnectError string

definition parseConnectReturn :: "params \<Rightarrow> connect_return option" where
  "parseConnectReturn p =
     (let addr = orElse (map_of p ''nido_address'') []; connect = map_of p ''nido_connect''
      in if addr \<noteq> [] then
           (if \<not> isContractId (toUpperCase addr) then Some (ConnectError ''Returned address is not a contract id'')
            else Some (ConnectOk (toUpperCase addr)))
         else if connect = Some ''cancelled'' then Some ConnectCancelled
         else if connect = Some ''error'' then Some (ConnectError (orElse (map_of p ''nido_error'') ''Unknown connect error''))
         else None)"

datatype sign_return =
    SignOk string string
  | SignSubmitted string string
  | SignCancelled
  | SwitchAccount
  | SignError string

definition parseSignReturn :: "params \<Rightarrow> sign_return option" where
  "parseSignReturn p =
     (let signed = orElse (map_of p ''nido_signed'') []; submitted = orElse (map_of p ''nido_submitted'') [];
          sign = map_of p ''nido_sign''; kind = orElse (map_of p ''kind'') ''tx''
      in if signed \<noteq> [] then Some (SignOk kind signed)
         else if submitted \<noteq> [] then Some (SignSubmitted kind submitted)
         else if sign = Some ''cancelled'' then Some SignCancelled
         else if sign = Some ''switch-account'' then Some SwitchAccount
         else if sign = Some ''error'' then Some (SignError (orElse (map_of p ''nido_error'') ''Unknown signing error''))
         else None)"

text \<open>The cached address: the value of one key of the dApp's local storage.\<close>

type_synonym address_cache = "string option"

definition loadCachedAddress :: "address_cache \<Rightarrow> string option" where
  "loadCachedAddress cache = (case cache of None \<Rightarrow> None | Some v \<Rightarrow> if v \<noteq> [] \<and> isContractId v then Some v else None)"

definition saveCachedAddress :: "string \<Rightarrow> address_cache \<Rightarrow> address_cache result" where
  "saveCachedAddress address cache =
     (if \<not> isContractId address then Inl (Error ''saveCachedAddress: not a contract id'') else Inr (Some address))"

definition clearCachedAddress :: "address_cache \<Rightarrow> address_cache" where
  "clearCachedAddress cache = None"

section \<open>The module\<close>

record kit =
  kit_base :: string
  kit_network :: string
  kit_dappOrigin :: string
  kit_returnUrl :: string

definition DEFAULT_NETWORK_PASSPHRASE :: string where
  "DEFAULT_NETWORK_PASSPHRASE = ''Test SDF Network ; September 2015''"

text \<open>\<open>origin\<close> and \<open>href\<close> are those of the dApp's window.\<close>

definition NidoModule :: "string \<Rightarrow> string \<Rightarrow> string \<Rightarrow> string option \<Rightarrow> string option \<Rightarrow> string option \<Rightarrow> kit result" where
  "NidoModule origin href base networkPassphrase dappOrigin returnUrl =
     (if base = [] then Inl (Error ''NidoModule requires a `base` domain'')
      else Inr \<lparr>kit_base = base, kit_network = orElse networkPassphrase DEFAULT_NETWORK_PASSPHRASE,
                kit_dappOrigin = orElse dappOrigin origin, kit_returnUrl = orElse returnUrl href\<rparr>)"

definition getNetwork :: "kit \<Rightarrow> string \<times> string" where
  "getNetwork k = (if kit_network k = DEFAULT_NETWORK_PASSPHRASE then ''testnet'' else ''unknown'', kit_network k)"

definition connectUrl :: "kit \<Rightarrow> string option \<Rightarrow> string" where
  "connectUrl k previous =
     apexOrigin (kit_base k) @ ''/connect/?'' @ searchParams
       ([(''dapp'', kit_dappOrigin k), (''return'', kit_returnUrl k)] @
        (case previous of Some a \<Rightarrow> if a \<noteq> [] then [(''previous'', a)] else [] | None \<Rightarrow> []))"

definition handover :: "kit \<Rightarrow> params" where
  "handover k = [(''dapp'', kit_dappOrigin k), (''return'', kit_returnUrl k)]"

definition optional :: "string \<Rightarrow> string option \<Rightarrow> params" where
  "optional key v = (case v of Some s \<Rightarrow> if s \<noteq> [] then [(key, s)] else [] | None \<Rightarrow> [])"

definition signUrl :: "kit \<Rightarrow> string \<Rightarrow> params \<Rightarrow> string result" where
  "signUrl k account params =
     bindR (accountOrigin (kit_base k) account) (\<lambda>o'. Inr (o' @ ''/sign/?'' @ searchParams (params @ handover k)))"

definition signTransactionUrl :: "kit \<Rightarrow> string \<Rightarrow> string \<Rightarrow> string option \<Rightarrow> string result" where
  "signTransactionUrl k account xdr network =
     signUrl k account ([(''kind'', ''tx''), (''xdr'', xdr)] @ optional ''network'' network)"

definition signMessageUrl :: "kit \<Rightarrow> string \<Rightarrow> string \<Rightarrow> string result" where
  "signMessageUrl k account message = signUrl k account [(''kind'', ''message''), (''message'', message)]"

definition signAuthEntryUrl :: "kit \<Rightarrow> string \<Rightarrow> string \<Rightarrow> string option \<Rightarrow> string result" where
  "signAuthEntryUrl k account entry network =
     signUrl k account ([(''kind'', ''authEntry''), (''authEntry'', entry)] @ optional ''network'' network)"

text \<open>A popup opened at a URL, with the origin it must answer from.\<close>

type_synonym popup = "string \<Rightarrow> string \<Rightarrow> params result"

definition getAddress :: "kit \<Rightarrow> popup \<Rightarrow> bool \<Rightarrow> address_cache \<Rightarrow> string result \<times> address_cache" where
  "getAddress k popup skipRequestAccess cache =
     (let cached = loadCachedAddress cache
      in if skipRequestAccess then
           (case cached of
              Some a \<Rightarrow> (Inr a, cache)
            | None \<Rightarrow> (Inl (Error ''Nido: no account connected.''), cache))
         else
           (case popup (connectUrl k cached) (apexOrigin (kit_base k)) of
              Inl e \<Rightarrow> (Inl e, cache)
            | Inr search \<Rightarrow>
                (case parseConnectReturn search of
                   None \<Rightarrow> (Inl (Error ''Nido: the connect window returned no result.''), cache)
                 | Some ConnectCancelled \<Rightarrow> (Inl (Error ''Nido: account selection was cancelled.''), cache)
                 | Some (ConnectError e) \<Rightarrow> (Inl (Error (''Nido: '' @ e)), cache)
                 | Some (ConnectOk a) \<Rightarrow>
                     (case saveCachedAddress a cache of
                        Inl e \<Rightarrow> (Inl e, cache)
                      | Inr cache' \<Rightarrow> (Inr a, cache')))))"

definition resolveAccount :: "kit \<Rightarrow> popup \<Rightarrow> string option \<Rightarrow> address_cache \<Rightarrow> string result \<times> address_cache" where
  "resolveAccount k popup address cache =
     (if orElse address [] \<noteq> [] then (Inr (orElse address []), cache)
      else (case loadCachedAddress cache of
              Some a \<Rightarrow> (Inr a, cache)
            | None \<Rightarrow> getAddress k popup False cache))"

definition ACCOUNT_SWITCH_REQUESTED :: js_error where
  "ACCOUNT_SWITCH_REQUESTED = Error ''ACCOUNT_SWITCH_REQUESTED''"

definition runSign :: "kit \<Rightarrow> popup \<Rightarrow> string \<Rightarrow> string \<Rightarrow> address_cache \<Rightarrow> (string \<times> bool) result \<times> address_cache" where
  "runSign k popup url account cache =
     (case bindR (accountOrigin (kit_base k) account) (popup url) of
        Inl e \<Rightarrow> (Inl e, cache)
      | Inr search \<Rightarrow>
          (case parseSignReturn search of
             None \<Rightarrow> (Inl (Error ''Nido: the sign window returned no result.''), cache)
           | Some SignCancelled \<Rightarrow> (Inl (Error ''Nido: signing was cancelled.''), cache)
           | Some SwitchAccount \<Rightarrow> (Inl ACCOUNT_SWITCH_REQUESTED, clearCachedAddress cache)
           | Some (SignError e) \<Rightarrow> (Inl (Error (''Nido: '' @ e)), cache)
           | Some (SignOk _ result) \<Rightarrow> (Inr (result, False), cache)
           | Some (SignSubmitted _ result) \<Rightarrow> (Inr (result, True), cache)))"

text \<open>The three signing methods differ in the URL; the result also names the account.\<close>

definition signWith ::
  "kit \<Rightarrow> popup \<Rightarrow> (string \<Rightarrow> string result) \<Rightarrow> string option \<Rightarrow> address_cache \<Rightarrow>
   (string \<times> string \<times> bool) result \<times> address_cache" where
  "signWith k popup urlFor address cache =
     (case resolveAccount k popup address cache of
        (Inl e, cache') \<Rightarrow> (Inl e, cache')
      | (Inr account, cache') \<Rightarrow>
          (case urlFor account of
             Inl e \<Rightarrow> (Inl e, cache')
           | Inr url \<Rightarrow>
               (case runSign k popup url account cache' of
                  (r, cache'') \<Rightarrow> (bindR r (\<lambda>(result, submitted). Inr (result, account, submitted)), cache''))))"

definition signTransaction ::
  "kit \<Rightarrow> popup \<Rightarrow> string \<Rightarrow> string option \<Rightarrow> string option \<Rightarrow> address_cache \<Rightarrow>
   (string \<times> string \<times> bool) result \<times> address_cache" where
  "signTransaction k popup xdr network address cache =
     signWith k popup (\<lambda>account. signTransactionUrl k account xdr (Some (orElse network (kit_network k)))) address cache"

definition signMessage ::
  "kit \<Rightarrow> popup \<Rightarrow> string \<Rightarrow> string option \<Rightarrow> address_cache \<Rightarrow> (string \<times> string \<times> bool) result \<times> address_cache" where
  "signMessage k popup message address cache =
     signWith k popup (\<lambda>account. signMessageUrl k account message) address cache"

definition signAuthEntry ::
  "kit \<Rightarrow> popup \<Rightarrow> string \<Rightarrow> string option \<Rightarrow> string option \<Rightarrow> address_cache \<Rightarrow>
   (string \<times> string \<times> bool) result \<times> address_cache" where
  "signAuthEntry k popup entry network address cache =
     signWith k popup (\<lambda>account. signAuthEntryUrl k account entry (Some (orElse network (kit_network k)))) address cache"

text \<open>A dApp's use of the module: its calls, each with the popup it meets.\<close>

datatype kit_call =
    GetAddress popup bool
  | SignTransaction popup string "string option" "string option"
  | SignMessage popup string "string option"
  | SignAuthEntry popup string "string option" "string option"
  | Disconnect

definition kit_step :: "kit \<Rightarrow> address_cache \<Rightarrow> kit_call \<Rightarrow> address_cache" where
  "kit_step k cache call =
     (case call of
        GetAddress popup skip \<Rightarrow> snd (getAddress k popup skip cache)
      | SignTransaction popup xdr network address \<Rightarrow> snd (signTransaction k popup xdr network address cache)
      | SignMessage popup message address \<Rightarrow> snd (signMessage k popup message address cache)
      | SignAuthEntry popup entry network address \<Rightarrow> snd (signAuthEntry k popup entry network address cache)
      | Disconnect \<Rightarrow> clearCachedAddress cache)"

definition cache_ok :: "address_cache \<Rightarrow> bool" where
  "cache_ok cache = (case cache of None \<Rightarrow> True | Some a \<Rightarrow> isContractId a \<and> toUpperCase a = a)"

section \<open>Facts about the ceremony\<close>

lemma run_listening:
  "popup_run origin s es t \<Longrightarrow> popup_listening s \<longleftrightarrow> popup_outcome s = None \<Longrightarrow>
   popup_listening t \<longleftrightarrow> popup_outcome t = None"
  by (induction rule: popup_run.induct) (auto simp: settle_def)

lemma run_settled:
  "popup_run origin s es t \<Longrightarrow> \<not> popup_listening s \<Longrightarrow> popup_outcome t = popup_outcome s \<and> \<not> popup_listening t"
  by (induction rule: popup_run.induct) (auto simp: settle_def)

lemma run_resolved:
  "popup_run origin s es t \<Longrightarrow> popup_listening s \<Longrightarrow> popup_outcome s = None \<Longrightarrow>
   popup_outcome t = Some (ResolvedWith q) \<Longrightarrow>
   \<exists>before source search after. es = before @ Message origin source search # after \<and>
     source = Some MESSAGE_SOURCE \<and> q = orElse search [] \<and> list_all (\<lambda>e. \<not> accepts origin e \<and> e \<noteq> Timeout) before"
proof (induction rule: popup_run.induct)
  case (start s)
  then show ?case by simp
next
  case (step s es t e u)
  show ?case
  proof (cases "popup_listening t")
    case True
    have quiet: "list_all (\<lambda>e. \<not> accepts origin e \<and> e \<noteq> Timeout) es"
      using step.hyps(1) True by (induction rule: popup_run.induct) (auto simp: settle_def accepts_def)
    have "popup_outcome t = None" using run_listening [OF step.hyps(1)] step.prems True by simp
    with step.hyps(2) step.prems True obtain source search where
      "e = Message origin source search" "source = Some MESSAGE_SOURCE" "q = orElse search []"
      by (auto simp: settle_def accepts_def)
    with quiet show ?thesis by blast
  next
    case False
    with step.hyps(2) step.prems have "popup_outcome t = Some (ResolvedWith q)" by (auto simp: settle_def)
    with step.IH step.prems obtain before source search after where
      "es = before @ Message origin source search # after" "source = Some MESSAGE_SOURCE" "q = orElse search []"
      "list_all (\<lambda>e. \<not> accepts origin e \<and> e \<noteq> Timeout) before" by blast
    then show ?thesis by (intro exI [of _ before] exI [of _ source] exI [of _ search] exI [of _ "after @ [e]"]) simp
  qed
qed

section \<open>Facts about the cache\<close>

lemma cache_ok_None [simp]: "cache_ok None"
  by (simp add: cache_ok_def)

lemma getAddress_ok: "cache_ok cache \<Longrightarrow> cache_ok (snd (getAddress k popup skip cache))"
  by (auto simp: getAddress_def Let_def cache_ok_def saveCachedAddress_def parseConnectReturn_def
      split: option.splits sum.splits connect_return.splits if_splits)

lemma resolveAccount_ok: "cache_ok cache \<Longrightarrow> cache_ok (snd (resolveAccount k popup address cache))"
  using getAddress_ok by (simp add: resolveAccount_def split: option.split)

lemma runSign_ok: "cache_ok cache \<Longrightarrow> cache_ok (snd (runSign k popup url account cache))"
proof -
  assume ok: "cache_ok cache"
  have "snd (runSign k popup url account cache) = cache \<or> snd (runSign k popup url account cache) = None"
    by (simp add: runSign_def clearCachedAddress_def split: sum.split option.split sign_return.split)
  with ok cache_ok_None show ?thesis by metis
qed

lemma signWith_ok: "cache_ok cache \<Longrightarrow> cache_ok (snd (signWith k popup urlFor address cache))"
proof -
  assume "cache_ok cache"
  then have 1: "cache_ok (snd (resolveAccount k popup address cache))" by (rule resolveAccount_ok)
  obtain a c where a: "resolveAccount k popup address cache = (a, c)" by fastforce
  show ?thesis
  proof (cases a)
    case (Inl e)
    with a 1 show ?thesis by (simp add: signWith_def)
  next
    case (Inr account)
    with a 1 runSign_ok [of c k popup _ account] show ?thesis
      by (simp add: signWith_def split: sum.split prod.split)  (metis snd_conv)
  qed
qed

interpretation kit: preserved "kit_step k" cache_ok
  by unfold_locales
     (simp add: kit_step_def getAddress_ok signWith_ok signTransaction_def signMessage_def signAuthEntry_def
        clearCachedAddress_def split: kit_call.split)

lemma runSign_result:
  assumes "runSign k popup url account cache = (Inr (result, submitted), cache')"
  shows "\<exists>origin search. accountOrigin (kit_base k) account = Inr origin \<and> popup url origin = Inr search \<and>
    (if submitted then map_of search ''nido_submitted'' = Some result else map_of search ''nido_signed'' = Some result)"
  using assms
  by (auto simp: runSign_def result_simps parseSignReturn_def Let_def orElse_def
      split: sum.splits option.splits sign_return.splits if_splits)

section \<open>Properties\<close>

text \<open>
  What decides a ceremony: the first accepted message, the first poll that finds the window closed,
  or the timeout, whichever comes first.
\<close>

fun decision :: "string \<Rightarrow> bool \<Rightarrow> popup_event list \<Rightarrow> settlement option" where
  "decision expectedOrigin closed [] = None"
| "decision expectedOrigin closed (Message origin source search # es) =
     (if origin = expectedOrigin \<and> source = Some ''nido-wallet'' then Some (ResolvedWith (case search of None \<Rightarrow> [] | Some s \<Rightarrow> s))
      else decision expectedOrigin closed es)"
| "decision expectedOrigin closed (UserCloses # es) = decision expectedOrigin True es"
| "decision expectedOrigin closed (Tick # es) =
     (if closed then Some (RejectedWith ''Nido: the wallet window was closed before completing.'')
      else decision expectedOrigin closed es)"
| "decision expectedOrigin closed (Timeout # es) = Some (RejectedWith ''Nido: timed out waiting for the wallet.'')"

lemma decision_append:
  "decision origin closed (es @ [e]) =
     (case decision origin closed es of Some r \<Rightarrow> Some r | None \<Rightarrow> decision origin (closed \<or> UserCloses \<in> set es) [e])"
  by (induction origin closed es rule: decision.induct) (auto split: option.split)

lemma decision_timeout: "Timeout \<in> set es \<Longrightarrow> decision origin closed es \<noteq> None"
  by (induction origin closed es rule: decision.induct) auto

lemma run_decided:
  "popup_run origin s es t \<Longrightarrow> s = open_popup False \<Longrightarrow>
     popup_outcome t = decision origin False es \<and> (popup_listening t \<longleftrightarrow> popup_outcome t = None) \<and>
     (popup_listening t \<longrightarrow> (popup_closed t \<longleftrightarrow> UserCloses \<in> set es))"
proof (induction rule: popup_run.induct)
  case (step s es t e u)
  then show ?case
    by (cases "decision origin False es"; elim popup_stepE)
      (auto simp: decision_append settle_def accepts_def MESSAGE_SOURCE_def orElse_def split: option.splits)
qed (simp add: open_popup_def)

text \<open>
  C32. A popup ceremony settles at most once, whatever the outcome, and with a result only if the
  wallet sent it. The outcome is that of the first deciding event: a message from the expected
  origin and source, whose query string is the result, a poll that finds the window closed, or the
  timeout, after which there always is one. Once there is an outcome, resolved or rejected, nothing
  listens any more and no later event changes it.
\<close>

theorem popup_result_authentic:
  assumes "popup_run origin (open_popup False) es t"
  shows "popup_outcome t = decision origin False es \<and> (popup_listening t \<longleftrightarrow> popup_outcome t = None) \<and>
    (popup_outcome t \<noteq> None \<longrightarrow>
       (\<forall>es' u. popup_run origin t es' u \<longrightarrow> popup_outcome u = popup_outcome t \<and> \<not> popup_listening u)) \<and>
    (Timeout \<in> set es \<longrightarrow> popup_outcome t \<noteq> None) \<and>
    (\<forall>r. popup_outcome t = Some (ResolvedWith r) \<longrightarrow>
       (\<exists>before source search after. es = before @ Message origin source search # after \<and>
          source = Some MESSAGE_SOURCE \<and> r = orElse search [] \<and> list_all (\<lambda>e. \<not> accepts origin e \<and> e \<noteq> Timeout) before))"
proof -
  note decided = run_decided [OF assms refl]
  have opened: "popup_listening (open_popup False)" "popup_outcome (open_popup False) = None"
    by (simp_all add: open_popup_def)
  have "popup_outcome t \<noteq> None \<longrightarrow>
      (\<forall>es' u. popup_run origin t es' u \<longrightarrow> popup_outcome u = popup_outcome t \<and> \<not> popup_listening u)"
    using run_settled [of origin t] decided by auto
  with decided decision_timeout run_resolved [OF assms opened] show ?thesis by simp
qed

theorem popup_result_authentic_witness:
  "\<exists>t. popup_run ''https://nido.fyi'' (open_popup False)
      [Message ''https://evil.fyi'' (Some ''nido-wallet'') (Some ''?a''), Message ''https://nido.fyi'' (Some ''nido-wallet'') (Some ''?b'')] t \<and>
    popup_outcome t = Some (ResolvedWith ''?b'') \<and>
    (\<forall>es' u. popup_run ''https://nido.fyi'' t es' u \<longrightarrow> popup_outcome u = Some (ResolvedWith ''?b''))"
proof -
  let ?o = "''https://nido.fyi''" and ?s = "open_popup False"
  let ?e1 = "Message ''https://evil.fyi'' (Some ''nido-wallet'') (Some ''?a'')"
  let ?e2 = "Message ''https://nido.fyi'' (Some ''nido-wallet'') (Some ''?b'')"
  let ?t = "settle ?s True (ResolvedWith (orElse (Some ''?b'') []))"
  have "popup_step ?o ?s ?e1 ?s" by (rule popup_step.ignore) (simp add: accepts_def)
  moreover have "popup_step ?o ?s ?e2 ?t"
    by (rule popup_step.deliver) (simp_all add: accepts_def open_popup_def MESSAGE_SOURCE_def)
  ultimately have r: "popup_run ?o ?s [?e1, ?e2] ?t"
    using popup_run.step [of ?o ?s "[?e1]" ?s ?e2 ?t] popup_run.step [of ?o ?s "[]" ?s ?e1 ?s]
      popup_run.start [of ?o ?s] by simp
  have "popup_outcome ?t = Some (ResolvedWith ''?b'')" by (simp add: settle_def)
  with popup_result_authentic [OF r] r show ?thesis by (intro exI [of _ ?t] conjI) simp_all
qed

text \<open>
  The address the module remembers is always a contract address in capital letters,
  whatever calls a dApp makes and whatever the popups answer; and a signature or hash returned
  for an account was posted by the page of that account, whose origin the popup was bound to.
\<close>

theorem kit_session:
  assumes "cache_ok cache"
  shows "cache_ok (foldl (kit_step k) cache calls) \<and>
    (\<forall>result account submitted c'.
       signTransaction k popup xdr network address cache = (Inr (result, account, submitted), c') \<longrightarrow>
       (\<exists>url origin search. signTransactionUrl k account xdr (Some (orElse network (kit_network k))) = Inr url \<and>
          accountOrigin (kit_base k) account = Inr origin \<and> popup url origin = Inr search \<and>
          (if submitted then map_of search ''nido_submitted'' = Some result
           else map_of search ''nido_signed'' = Some result)))"
proof (intro conjI allI impI)
  show "cache_ok (foldl (kit_step k) cache calls)" using assms by (rule kit.run_inv)
next
  fix result account submitted c'
  assume "signTransaction k popup xdr network address cache = (Inr (result, account, submitted), c')"
  then obtain url c1 c2 where "signTransactionUrl k account xdr (Some (orElse network (kit_network k))) = Inr url"
    "runSign k popup url account c1 = (Inr (result, submitted), c2)"
    by (auto simp: signTransaction_def signWith_def result_simps split: prod.splits sum.splits)
  with runSign_result show "\<exists>url origin search.
      signTransactionUrl k account xdr (Some (orElse network (kit_network k))) = Inr url \<and>
      accountOrigin (kit_base k) account = Inr origin \<and> popup url origin = Inr search \<and>
      (if submitted then map_of search ''nido_submitted'' = Some result
       else map_of search ''nido_signed'' = Some result)" by blast
qed

theorem kit_session_witness:
  "cache_ok (foldl (kit_step \<lparr>kit_base = ''nido.fyi'', kit_network = ''net'', kit_dappOrigin = ''d'', kit_returnUrl = ''r''\<rparr>)
     None [GetAddress (\<lambda>_ _. Inr [(''nido_address'', toLowerCase sample_id)]) False, Disconnect])"
proof -
  have "cache_ok None" by (simp add: cache_ok_def)
  from kit_session [OF this] show ?thesis by blast
qed

end
