(* ===== verification/Json_Text.thy ===== *)
theory Json_Text
  imports Json
begin

text \<open>
  \<open>JSON.stringify\<close>, \<open>JSON.parse\<close>, \<open>TextEncoder\<close> and \<open>TextDecoder\<close>: the text form of the blobs
  that the program stores and shares. The parser is that of the JSON grammar, except that it
  refuses fractions and exponents; its recursion is bounded by fuel, and the length of the text
  is enough (\<open>parseValue_printed\<close>). A printed value parses to itself (\<open>json_round_trip\<close>).
\<close>

section \<open>Printing\<close>

definition escapeChar :: "char \<Rightarrow> string" where
  "escapeChar c =
     (if c = CHR 0x22 then [CHR 0x5C, CHR 0x22]
      else if c = CHR 0x5C then [CHR 0x5C, CHR 0x5C]
      else if code c = 8 then [CHR 0x5C, CHR ''b'']
      else if code c = 9 then [CHR 0x5C, CHR ''t'']
      else if code c = 10 then [CHR 0x5C, CHR ''n'']
      else if code c = 12 then [CHR 0x5C, CHR ''f'']
      else if code c = 13 then [CHR 0x5C, CHR ''r'']
      else if code c < 32 then [CHR 0x5C, CHR ''u'', CHR ''0'', CHR ''0'', digitChar (code c div 16), digitChar (code c mod 16)]
      else [c])"

definition quoted :: "string \<Rightarrow> string" where
  "quoted s = CHR 0x22 # concat (map escapeChar s) @ [CHR 0x22]"

fun stringify :: "json \<Rightarrow> string" where
  "stringify JNull = ''null''"
| "stringify (JBool b) = (if b then ''true'' else ''false'')"
| "stringify (JNum n) = showInt n"
| "stringify (JStr s) = quoted s"
| "stringify (JArr vs) = CHR ''['' # join '','' (map stringify vs) @ '']''"
| "stringify (JObj kvs) = CHR ''{'' # join '','' (map (\<lambda>(k, v). quoted k @ CHR '':'' # stringify v) kvs) @ ''}''"

section \<open>Parsing\<close>

definition json_space :: "char \<Rightarrow> bool" where
  "json_space c \<longleftrightarrow> code c \<in> {9, 10, 13, 32}"

definition skipSpace :: "string \<Rightarrow> string" where
  "skipSpace = dropWhile json_space"

text \<open>A code point that the model's strings cannot hold is read as a substitute character.\<close>

definition substitute :: char where
  "substitute = CHR 0x1A"

definition unescape :: "char \<Rightarrow> char option" where
  "unescape e =
     (if e = CHR 0x22 \<or> e = CHR 0x5C \<or> e = CHR ''/'' then Some e
      else map_of [(CHR ''b'', char_of (8 :: nat)), (CHR ''t'', char_of (9 :: nat)), (CHR ''n'', char_of (10 :: nat)),
        (CHR ''f'', char_of (12 :: nat)), (CHR ''r'', char_of (13 :: nat))] e)"

definition unicodeEscape :: "string \<Rightarrow> char option" where
  "unicodeEscape ds =
     (if length ds = 4 \<and> list_all is_hex ds
      then Some (if ofStringBase 16 ds < 256 then char_of (ofStringBase 16 ds) else substitute)
      else None)"

fun parseChars :: "string \<Rightarrow> (string \<times> string) option" where
  "parseChars [] = None"
| "parseChars (c # cs) =
     (if c = CHR 0x22 then Some ([], cs)
      else if c = CHR 0x5C then
        (case cs of
           [] \<Rightarrow> None
         | e # es \<Rightarrow>
             if e = CHR ''u'' then
               (case unicodeEscape (take 4 es) of
                  None \<Rightarrow> None
                | Some d \<Rightarrow> map_option (\<lambda>(s, r). (d # s, r)) (parseChars (drop 4 es)))
             else (case unescape e of
                     None \<Rightarrow> None
                   | Some d \<Rightarrow> map_option (\<lambda>(s, r). (d # s, r)) (parseChars es)))
      else if code c < 32 then None
      else map_option (\<lambda>(s, r). (c # s, r)) (parseChars cs))"

definition parseDigits :: "string \<Rightarrow> (nat \<times> string) option" where
  "parseDigits s =
     (let ds = takeWhile is_digit s; r = dropWhile is_digit s
      in if ds = [] \<or> hd ds = CHR ''0'' \<and> tl ds \<noteq> [] \<or> r \<noteq> [] \<and> hd r \<in> set ''.eE'' then None
         else Some (readNat ds, r))"

definition parseNumber :: "string \<Rightarrow> (json \<times> string) option" where
  "parseNumber s =
     (if s \<noteq> [] \<and> hd s = CHR ''-'' then map_option (\<lambda>(n, r). (JNum (- int n), r)) (parseDigits (tl s))
      else map_option (\<lambda>(n, r). (JNum (int n), r)) (parseDigits s))"

definition parseAtom :: "string \<Rightarrow> (json \<times> string) option" where
  "parseAtom s =
     (if startsWith s ''null'' then Some (JNull, drop 4 s)
      else if startsWith s ''true'' then Some (JBool True, drop 4 s)
      else if startsWith s ''false'' then Some (JBool False, drop 5 s)
      else parseNumber s)"

text \<open>A member that appears again replaces the value of the first.\<close>

fun putMember :: "(string \<times> 'v) list \<Rightarrow> string \<Rightarrow> 'v \<Rightarrow> (string \<times> 'v) list" where
  "putMember [] k v = [(k, v)]"
| "putMember ((k', v') # kvs) k v = (if k' = k then (k, v) # kvs else (k', v') # putMember kvs k v)"

definition after :: "char \<Rightarrow> string \<Rightarrow> string option" where
  "after c s = (case skipSpace s of d # r \<Rightarrow> if d = c then Some r else None | [] \<Rightarrow> None)"

text \<open>The fuel bounds the nesting; the length of the text is always enough.\<close>

fun parseValue :: "nat \<Rightarrow> string \<Rightarrow> (json \<times> string) option"
  and parseElements :: "nat \<Rightarrow> json list \<Rightarrow> string \<Rightarrow> (json \<times> string) option"
  and parseMembers :: "nat \<Rightarrow> (string \<times> json) list \<Rightarrow> string \<Rightarrow> (json \<times> string) option" where
  "parseValue 0 s = None"
| "parseValue (Suc n) s =
     (case after CHR ''{'' s of
        Some r \<Rightarrow> (case after CHR ''}'' r of Some r' \<Rightarrow> Some (JObj [], r') | None \<Rightarrow> parseMembers n [] r)
      | None \<Rightarrow>
     (case after CHR ''['' s of
        Some r \<Rightarrow> (case after CHR '']'' r of Some r' \<Rightarrow> Some (JArr [], r') | None \<Rightarrow> parseElements n [] r)
      | None \<Rightarrow>
     (case after CHR 0x22 s of
        Some r \<Rightarrow> map_option (\<lambda>(x, r'). (JStr x, r')) (parseChars r)
      | None \<Rightarrow> parseAtom (skipSpace s))))"
| "parseElements 0 out s = None"
| "parseElements (Suc n) out s =
     (case parseValue n s of
        None \<Rightarrow> None
      | Some (v, r) \<Rightarrow>
          (case after CHR '','' r of
             Some r' \<Rightarrow> parseElements n (out @ [v]) r'
           | None \<Rightarrow> map_option (\<lambda>r'. (JArr (out @ [v]), r')) (after CHR '']'' r)))"
| "parseMembers 0 out s = None"
| "parseMembers (Suc n) out s =
     (case Option.bind (after CHR 0x22 s) parseChars of
        None \<Rightarrow> None
      | Some (k, r) \<Rightarrow>
          (case Option.bind (after CHR '':'' r) (parseValue n) of
             None \<Rightarrow> None
           | Some (v, r') \<Rightarrow>
               (case after CHR '','' r' of
                  Some r'' \<Rightarrow> parseMembers n (putMember out k v) r''
                | None \<Rightarrow> map_option (\<lambda>r''. (JObj (putMember out k v), r'')) (after CHR ''}'' r'))))"

definition syntaxError :: js_error where
  "syntaxError = Error ''SyntaxError''"

definition parse_json :: "string \<Rightarrow> json result" where
  "parse_json s =
     (case parseValue (Suc (length s)) s of
        Some (j, r) \<Rightarrow> if skipSpace r = [] then Inr j else Inl syntaxError
      | None \<Rightarrow> Inl syntaxError)"

text \<open>\<open>TextDecoder\<close> on UTF-8: it never throws.\<close>

fun text_decode :: "bytes \<Rightarrow> string" where
  "text_decode [] = []"
| "text_decode (b # bs) =
     (if unat b < 128 then char_of (unat b) # text_decode bs
      else (case bs of
              c # cs \<Rightarrow>
                if (unat b = 0xC2 \<or> unat b = 0xC3) \<and> 128 \<le> unat c \<and> unat c < 192
                then char_of ((unat b - 0xC0) * 64 + (unat c - 128)) # text_decode cs
                else substitute # text_decode bs
            | [] \<Rightarrow> [substitute]))"

text \<open>An object has each key once.\<close>

fun wf_json :: "json \<Rightarrow> bool" where
  "wf_json (JArr vs) \<longleftrightarrow> list_all wf_json vs"
| "wf_json (JObj kvs) \<longleftrightarrow> distinct (map fst kvs) \<and> list_all (\<lambda>(_, v). wf_json v) kvs"
| "wf_json _ \<longleftrightarrow> True"

section \<open>What was printed is read back\<close>

lemma skipSpace_id: "\<not> json_space c \<Longrightarrow> skipSpace (c # s) = c # s"
  by (simp add: skipSpace_def)

lemma after_Cons: "\<not> json_space d \<Longrightarrow> after c (d # r) = (if d = c then Some r else None)"
  by (simp add: after_def skipSpace_id)

lemma unicode_low:
  assumes "n < 32"
  shows "unicodeEscape [CHR ''0'', CHR ''0'', digitChar (n div 16), digitChar (n mod 16)] = Some (char_of n)"
proof -
  let ?ds = "[CHR ''0'', CHR ''0''] @ [digitChar (n div 16)] @ [digitChar (n mod 16)]"
  from assms have d: "n div 16 < 16" "n mod 16 < 16" by auto
  moreover have "is_hex CHR ''0''" "digitVal CHR ''0'' = 0" by code_simp+
  moreover from this d have "ofStringBase 16 ?ds = n"
    by (simp add: ofStringBase_def)
  ultimately show ?thesis using assms by (simp add: unicodeEscape_def)
qed

lemma low_escape:
  assumes "code c \<in> {8, 9, 10, 12, 13}"
  shows "\<exists>e. escapeChar c = [CHR 0x5C, e] \<and> e \<noteq> CHR ''u'' \<and> unescape e = Some c"
proof -
  from assms have "c \<in> {char_of (8 :: nat), char_of (9 :: nat), char_of (10 :: nat), char_of (12 :: nat), char_of (13 :: nat)}"
    by (simp add: eq_char_of_iff)
  then show ?thesis by (elim insertE) (simp_all add: escapeChar_def unescape_def)
qed

lemma parseChars_escape: "parseChars (escapeChar c @ s) = map_option (\<lambda>(t, r). (c # t, r)) (parseChars s)"
proof -
  consider "c = CHR 0x22 \<or> c = CHR 0x5C" | "code c \<in> {8, 9, 10, 12, 13}"
    | "code c < 32" "code c \<notin> {8, 9, 10, 12, 13}"
    | "32 \<le> code c" "c \<noteq> CHR 0x22" "c \<noteq> CHR 0x5C" by fastforce
  then show ?thesis
  proof cases
    case 1
    then show ?thesis by (auto simp: escapeChar_def unescape_def)
  next
    case 2
    from low_escape [OF this] show ?thesis by auto
  next
    case 3
    then have "c \<noteq> CHR 0x22" "c \<noteq> CHR 0x5C" by auto
    with 3 have "escapeChar c = [CHR 0x5C, CHR ''u'', CHR ''0'', CHR ''0'', digitChar (code c div 16), digitChar (code c mod 16)]"
      by (simp add: escapeChar_def)
    with unicode_low [OF 3(1)] show ?thesis by (simp add: code_def del: code_char_of)
  next
    case 4
    then show ?thesis by (simp add: escapeChar_def)
  qed
qed

lemma parseChars_quoted: "parseChars (concat (map escapeChar s) @ CHR 0x22 # r) = Some (s, r)"
  by (induction s) (simp_all add: parseChars_escape)


lemma quoted_Cons: "quoted s @ r = CHR 0x22 # concat (map escapeChar s) @ CHR 0x22 # r"
  by (simp add: quoted_def)

text \<open>What may follow a printed value.\<close>

definition ends :: "string \<Rightarrow> bool" where
  "ends r \<longleftrightarrow> r = [] \<or> hd r \<in> set '',]}''"

lemma showNat_leading: "0 < n \<Longrightarrow> hd (showNat n) \<noteq> CHR ''0''"
proof (induction n rule: less_induct)
  case (less n)
  show ?case
  proof (cases "n < 10")
    case True
    with less.prems show ?thesis by (subst toStringBase.simps) (auto simp: digitChar_def eq_char_of_iff)
  next
    case False
    with less.IH [of "n div 10"] show ?thesis by (subst toStringBase.simps) simp
  qed
qed

lemma parseDigits_showNat:
  assumes "ends r"
  shows "parseDigits (showNat n @ r) = Some (n, r)"
proof -
  have d: "list_all is_digit (showNat n)" by (rule showNat_digits)
  from assms have r: "r = [] \<or> \<not> is_digit (hd r) \<and> hd r \<notin> set ''.eE''"
    by (auto simp: ends_def is_digit_def)
  then have "takeWhile is_digit (showNat n @ r) = showNat n" "dropWhile is_digit (showNat n @ r) = r"
    using d by (cases r; simp add: list_all_iff takeWhile_append dropWhile_append)+
  moreover have "showNat n \<noteq> []" using all_digits_showNat [of n] by (simp add: all_digits_def)
  moreover have "\<not> (hd (showNat n) = CHR ''0'' \<and> tl (showNat n) \<noteq> [])"
    using showNat_leading [of n] by (cases "n = 0") (auto simp: toStringBase.simps [of 10 0])
  ultimately show ?thesis using r by (auto simp: parseDigits_def)
qed


lemma parseNumber_showInt:
  assumes "ends r"
  shows "parseNumber (showInt n @ r) = Some (JNum n, r)"
proof (cases "n < 0")
  case True
  with parseDigits_showNat [OF assms, of "nat (- n)"] show ?thesis by (simp add: parseNumber_def showInt_def)
next
  case False
  have "hd (showNat (nat n) @ r) \<noteq> CHR ''-''"
    using showNat_digits [of "nat n"] by (cases "showNat (nat n)") (auto simp: is_digit_def)
  with False parseDigits_showNat [OF assms, of "nat n"] show ?thesis by (simp add: parseNumber_def showInt_def)
qed

text \<open>The first character of a printed value is none that the parser skips or looks for elsewhere.\<close>

lemma showInt_head: "\<exists>c s. showInt n = c # s \<and> (is_digit c \<or> c = CHR ''-'')"
  using showNat_digits [of "nat n"] by (cases "showNat (nat n)") (auto simp: showInt_def)

lemma stringify_head:
  obtains c s where "stringify j = c # s" "\<not> json_space c" "c \<notin> set '',:]}''"
    "c = CHR ''{'' \<longleftrightarrow> (\<exists>kvs. j = JObj kvs)" "c = CHR ''['' \<longleftrightarrow> (\<exists>vs. j = JArr vs)" "c = CHR 0x22 \<longleftrightarrow> (\<exists>x. j = JStr x)"
proof -
  have digit: "\<not> json_space c \<and> c \<notin> set '',:]}{['' \<and> c \<noteq> CHR 0x22" if "is_digit c \<or> c = CHR ''-''" for c
    using that by (auto simp: is_digit_def json_space_def)
  have "\<exists>c s. stringify j = c # s \<and> \<not> json_space c \<and> c \<notin> set '',:]}'' \<and>
    (c = CHR ''{'' \<longleftrightarrow> (\<exists>kvs. j = JObj kvs)) \<and> (c = CHR ''['' \<longleftrightarrow> (\<exists>vs. j = JArr vs)) \<and> (c = CHR 0x22 \<longleftrightarrow> (\<exists>x. j = JStr x))"
  proof (cases j)
    case (JNum n)
    with showInt_head [of n] obtain c s where "stringify j = c # s" "is_digit c \<or> c = CHR ''-''" by auto
    with digit [of c] JNum show ?thesis by auto
  qed (auto simp: quoted_def json_space_def)
  then show thesis using that by blast
qed

lemma after_stringify:
  assumes "c \<in> set ''{[,:]}'' \<or> c = CHR 0x22"
  shows "after c (stringify j @ r) =
    (case stringify j @ r of d # s \<Rightarrow> if c = d then Some s else None)"
  by (rule stringify_head [of j]) (auto simp: after_Cons)

lemma after_sep: "d \<in> set '',:]}'' \<or> d = CHR 0x22 \<Longrightarrow> after c (d # r) = (if d = c then Some r else None)"
  by (rule after_Cons) (auto simp: json_space_def)

lemma ends_sep: "c \<in> set '',]}'' \<Longrightarrow> ends (c # r)"
  by (simp add: ends_def)

lemma putMember_new: "k \<notin> fst ` set out \<Longrightarrow> putMember out k v = out @ [(k, v)]"
  by (induction out) auto

lemma parseElements_printed:
  assumes "\<And>v m r. v \<in> set vs \<Longrightarrow> length (stringify v) < m \<Longrightarrow> ends r \<Longrightarrow> parseValue m (stringify v @ r) = Some (v, r)"
    and "vs \<noteq> []" "length (join '','' (map stringify vs)) < n"
  shows "parseElements (Suc n) out (join '','' (map stringify vs) @ CHR '']'' # r) = Some (JArr (out @ vs), r)"
  using assms
proof (induction vs arbitrary: out n)
  case (Cons v vs)
  obtain m where n: "n = Suc m" using Cons.prems(3) by (cases n) auto
  show ?case
  proof (cases vs)
    case Nil
    with Cons.prems(1) [of v n "CHR '']'' # r"] Cons.prems(3) show ?thesis
      by (simp add: after_sep ends_sep)
  next
    case vs: (Cons w ws)
    define rest where "rest = join '','' (map stringify vs)"
    have j: "join '','' (map stringify (v # vs)) = stringify v @ CHR '','' # rest"
      by (simp add: vs rest_def)
    have "parseElements (Suc m) (out @ [v]) (rest @ CHR '']'' # r) = Some (JArr ((out @ [v]) @ vs), r)"
      unfolding rest_def using Cons.prems j vs n by (intro Cons.IH) (auto simp: rest_def)
    moreover have "parseValue n (stringify v @ CHR '','' # rest @ CHR '']'' # r) = Some (v, CHR '','' # rest @ CHR '']'' # r)"
      using Cons.prems(3) j by (intro Cons.prems(1)) (auto simp: ends_sep)
    ultimately show ?thesis unfolding j n by (simp add: after_sep)
  qed
qed simp

lemma after_quoted: "Option.bind (after CHR 0x22 (quoted k @ r)) parseChars = Some (k, r)"
  by (simp add: quoted_Cons after_sep parseChars_quoted)

lemma parseMembers_printed:
  assumes "\<And>k v m r. (k, v) \<in> set kvs \<Longrightarrow> length (stringify v) < m \<Longrightarrow> ends r \<Longrightarrow> parseValue m (stringify v @ r) = Some (v, r)"
    and "kvs \<noteq> []" "length (join '','' (map (\<lambda>(k, v). quoted k @ CHR '':'' # stringify v) kvs)) < n"
    and "distinct (map fst (out @ kvs))"
  shows "parseMembers (Suc n) out (join '','' (map (\<lambda>(k, v). quoted k @ CHR '':'' # stringify v) kvs) @ CHR ''}'' # r) =
    Some (JObj (out @ kvs), r)"
  using assms
proof (induction kvs arbitrary: out n)
  case (Cons kv kvs)
  obtain k v where kv: "kv = (k, v)" by (cases kv)
  obtain m where n: "n = Suc m" using Cons.prems(3) by (cases n) auto
  have put: "putMember out k v = out @ [(k, v)]"
    using Cons.prems(4) kv by (intro putMember_new) auto
  show ?case
  proof (cases kvs)
    case Nil
    with Cons.prems(1) [of k v n "CHR ''}'' # r"] Cons.prems(3) kv put show ?thesis
      by (simp add: after_sep ends_sep after_quoted)
  next
    case kvs: (Cons w ws)
    define rest where "rest = join '','' (map (\<lambda>(k, v). quoted k @ CHR '':'' # stringify v) kvs)"
    have j: "join '','' (map (\<lambda>(k, v). quoted k @ CHR '':'' # stringify v) (kv # kvs)) =
      quoted k @ CHR '':'' # stringify v @ CHR '','' # rest"
      by (simp add: kvs kv rest_def)
    have "parseMembers (Suc m) (out @ [(k, v)]) (rest @ CHR ''}'' # r) = Some (JObj ((out @ [(k, v)]) @ kvs), r)"
      unfolding rest_def
      using Cons.prems(1,4) Cons.prems(3) [unfolded j] kvs n kv by (intro Cons.IH) (auto simp: rest_def)
    moreover have "parseValue n (stringify v @ CHR '','' # rest @ CHR ''}'' # r) = Some (v, CHR '','' # rest @ CHR ''}'' # r)"
      using Cons.prems(3) [unfolded j] kv by (intro Cons.prems(1)) (auto simp: ends_sep)
    ultimately show ?thesis unfolding j n by (simp add: after_sep after_quoted put kv)
  qed
qed simp


lemma join_Cons_head: "ss \<noteq> [] \<Longrightarrow> hd ss \<noteq> [] \<Longrightarrow> join sep ss \<noteq> [] \<and> hd (join sep ss) = hd (hd ss)"
  by (cases "(sep, ss)" rule: join.cases) auto

lemma after_join:
  assumes "ss \<noteq> []" "hd ss = d # s" "\<not> json_space d" "d \<noteq> c"
  shows "after c (join sep ss @ r) = None"
proof -
  from assms(1,2) join_Cons_head [of ss sep] obtain t where "join sep ss = d # t" by (cases "join sep ss") auto
  with assms(3,4) show ?thesis by (simp add: after_Cons)
qed

lemma parseValue_printed:
  "wf_json j \<Longrightarrow> length (stringify j) < n \<Longrightarrow> ends r \<Longrightarrow> parseValue n (stringify j @ r) = Some (j, r)"
proof (induction j arbitrary: n r)
  case JNull
  then obtain m where "n = Suc m" by (cases n) auto
  then show ?case by (simp add: after_Cons json_space_def parseAtom_def startsWith_def skipSpace_id)
next
  case (JBool b)
  then obtain m where "n = Suc m" by (cases n) auto
  then show ?case by (cases b) (simp_all add: after_Cons json_space_def parseAtom_def startsWith_def skipSpace_id)
next
  case (JNum i)
  then obtain m where n: "n = Suc m" by (cases n) auto
  from showInt_head [of i] obtain c s where c: "showInt i @ r = c # s" "is_digit c \<or> c = CHR ''-''" by auto
  then have "\<not> json_space c" "c \<notin> set ''{[ntf''" "c \<noteq> CHR 0x22" by (auto simp: json_space_def is_digit_def)
  with parseNumber_showInt [OF JNum.prems(3), of i] c(1) n show ?case
    by (simp add: after_Cons parseAtom_def startsWith_def skipSpace_id)
next
  case (JStr x)
  then obtain m where "n = Suc m" by (cases n) auto
  then show ?case by (simp add: quoted_Cons after_sep parseChars_quoted after_Cons json_space_def)
next
  case (JArr vs)
  then obtain m where n: "n = Suc (Suc m)" by (cases n rule: nat.exhaust; cases "n - 1") auto
  show ?case
  proof (cases vs)
    case Nil
    with n show ?thesis by (simp add: after_Cons json_space_def)
  next
    case (Cons v ws)
    have "parseElements (Suc m) [] (join '','' (map stringify vs) @ CHR '']'' # r) = Some (JArr ([] @ vs), r)"
      using JArr Cons n by (intro parseElements_printed) (auto simp: list_all_iff)
    moreover have "after CHR '']'' (join '','' (map stringify vs) @ CHR '']'' # r) = None"
      by (rule stringify_head [of v], rule after_join) (auto simp: Cons)
    ultimately show ?thesis unfolding n by (simp add: after_Cons json_space_def)
  qed
next
  case (JObj kvs)
  then obtain m where n: "n = Suc (Suc m)" by (cases n rule: nat.exhaust; cases "n - 1") auto
  show ?case
  proof (cases kvs)
    case Nil
    with n show ?thesis by (simp add: after_Cons json_space_def)
  next
    case (Cons kv ws)
    let ?ms = "map (\<lambda>(k, v). quoted k @ CHR '':'' # stringify v) kvs"
    have "parseMembers (Suc m) [] (join '','' ?ms @ CHR ''}'' # r) = Some (JObj ([] @ kvs), r)"
      using JObj.prems Cons n by (intro parseMembers_printed JObj.IH) (auto simp: list_all_iff)
    moreover have "after CHR ''}'' (join '','' ?ms @ CHR ''}'' # r) = None"
      by (rule after_join [where d = "CHR 0x22" and s = "tl (hd ?ms)"])
        (auto simp: Cons quoted_def json_space_def split: prod.split)
    ultimately show ?thesis unfolding n by (simp add: after_Cons json_space_def)
  qed
qed

lemma json_round_trip: "wf_json j \<Longrightarrow> parse_json (stringify j) = Inr j"
  using parseValue_printed [of j "Suc (length (stringify j))" "[]"]
  by (simp add: parse_json_def ends_def skipSpace_def del: parseValue.simps)

lemma text_round_trip: "text_decode (utf8 s) = s"
proof (induction s)
  case Nil
  then show ?case by (simp add: utf8_def)
next
  case (Cons c s)
  have "utf8 (c # s) = utf8 [c] @ utf8 s" by (simp add: utf8_def)
  moreover have "text_decode (utf8 [c] @ bs) = c # text_decode bs" for bs
  proof (cases "code c < 128")
    case True
    then have "unat (of_nat (code c) :: byte) = code c" by (simp add: unat_of_nat)
    with True show ?thesis by (simp add: utf8_def code_def)
  next
    case False
    then have "2 \<le> code c div 64" by auto
    moreover have "code c div 64 < 4" using code_lt_256 [of c] by (simp del: code_lt_256 add: div_less_iff_less_mult)
    ultimately have c: "code c div 64 \<in> {2, 3}" "code c mod 64 < 64" "code c < 256" by auto
    then have "unat (of_nat (192 + code c div 64) :: byte) = 192 + code c div 64"
      "unat (of_nat (128 + code c mod 64) :: byte) = 128 + code c mod 64"
      by (subst unat_of_nat; auto)+
    moreover have "char_of (code c div 64 * 64 + code c mod 64) = c" by (simp add: code_def)
    ultimately show ?thesis using False c by (auto simp: utf8_def)
  qed
  ultimately show ?case using Cons by simp
qed

text \<open>A value sent as text: printed, encoded as UTF-8 and read back.\<close>

interpretation json_text: codec
  "\<lambda>j. if wf_json j then Inr (stringify j) else Inl ()" parse_json
  by unfold_locales (auto simp: json_round_trip split: if_splits)

lemma stringify_nonempty [simp]: "stringify j \<noteq> []"
  by (cases j) (simp_all add: showInt_def quoted_def)

lemma map_of_putMember: "map_of (putMember kvs k v) = (map_of kvs)(k \<mapsto> v)"
  by (induction kvs) auto

lemma set_putMember: "fst ` set (putMember kvs k v) = insert k (fst ` set kvs)"
proof (induction kvs)
  case (Cons x xs)
  then show ?case by (cases x) (simp add: insert_commute)
qed simp

lemma distinct_putMember: "distinct (map fst kvs) \<Longrightarrow> distinct (map fst (putMember kvs k v))"
proof (induction kvs)
  case (Cons x xs)
  then show ?case using set_putMember [of xs k v] by (cases x) (auto simp flip: set_map)
qed simp

lemma set_putMember_values: "set (putMember kvs k v) \<subseteq> insert (k, v) (set kvs)"
proof (induction kvs)
  case (Cons x xs)
  then show ?case by (cases x) auto
qed simp

lemma wf_putMember: "wf_json (JObj kvs) \<Longrightarrow> wf_json v \<Longrightarrow> wf_json (JObj (putMember kvs k v))"
  using set_putMember_values [of kvs k v] by (auto simp: list_all_iff distinct_putMember)

lemma wf_atom: "parseAtom s = Some (j, r) \<Longrightarrow> wf_json j"
  by (auto simp: parseAtom_def parseNumber_def split: option.splits if_splits)

lemma parse_wf_fuel:
  "parseValue n s = Some (j, r) \<Longrightarrow> wf_json j"
  "parseElements n vs s = Some (j, r) \<Longrightarrow> list_all wf_json vs \<Longrightarrow> wf_json j"
  "parseMembers n kvs s = Some (j, r) \<Longrightarrow> wf_json (JObj kvs) \<Longrightarrow> wf_json j"
proof (induction n s and n vs s and n kvs s arbitrary: j r and j r and j r
    rule: parseValue_parseElements_parseMembers.induct)
  case (2 n s)
  then show ?case
    by (auto split: option.splits dest: wf_atom)
next
  case (4 n vs s)
  then show ?case by (auto split: option.splits)
next
  case (6 n kvs s)
  from 6 show ?case
    by (fastforce simp del: wf_json.simps(2) simp: bind_eq_Some_conv split: option.splits intro: wf_putMember)
qed auto

lemma parse_wf: "parse_json s = Inr j \<Longrightarrow> wf_json j"
  by (auto simp: parse_json_def simp del: parseValue.simps split: option.splits if_splits dest: parse_wf_fuel(1))

declare stringify.simps [simp del] parseValue.simps [simp del] parseElements.simps [simp del]
  parseMembers.simps [simp del] parseChars.simps [simp del]

end
