(* ===== verification/Storage.thy ===== *)
theory Storage
  imports Encoding Json_Text
begin

text \<open>
  What the SDK keeps in \<open>localStorage\<close> (\<open>passkey-sdk/src/storage.ts\<close>): passkey credentials, the
  accounts of this origin, pending accounts, names, and the overlay of policy blocks. A stored
  text that is not JSON makes the reader throw; a stored value of a shape the program never
  writes makes it throw as well in the model.
\<close>

type_synonym local_storage = "string \<rightharpoonup> string"

definition setItem :: "string \<Rightarrow> string \<Rightarrow> local_storage \<Rightarrow> local_storage" where
  "setItem k v s = s(k \<mapsto> v)"

definition removeItem :: "string \<Rightarrow> local_storage \<Rightarrow> local_storage" where
  "removeItem k s = s(k := None)"

text \<open>\<open>JSON.parse(localStorage.getItem(k) || d)\<close>\<close>

definition readJson :: "local_storage \<Rightarrow> string \<Rightarrow> string \<Rightarrow> json result" where
  "readJson s k d = parse_json (case s k of Some (c # cs) \<Rightarrow> c # cs | _ \<Rightarrow> d)"

definition readList :: "local_storage \<Rightarrow> string \<Rightarrow> json list result" where
  "readList s k = bindR (readJson s k ''[]'') (\<lambda>j.
     (case j of JArr vs \<Rightarrow> Inr vs | _ \<Rightarrow> Inl (TypeError ''not a list'')))"

definition readObject :: "local_storage \<Rightarrow> string \<Rightarrow> (string \<times> json) list result" where
  "readObject s k = bindR (readJson s k ''{}'') (\<lambda>j.
     (case j of JObj kvs \<Rightarrow> Inr kvs | _ \<Rightarrow> Inl (TypeError ''not an object'')))"

section \<open>Credentials\<close>

definition credentialKey :: "string \<Rightarrow> string \<Rightarrow> string" where
  "credentialKey contractId part = ''passkey:'' @ contractId @ '':'' @ part"

definition saveCredential :: "string \<Rightarrow> bytes \<Rightarrow> bytes \<Rightarrow> local_storage \<Rightarrow> local_storage" where
  "saveCredential contractId credentialId publicKey s =
     setItem (credentialKey contractId ''publicKey'') (buf2hex publicKey)
       (setItem (credentialKey contractId ''credentialId'') (buf2base64url credentialId) s)"

definition loadCredential :: "local_storage \<Rightarrow> string \<Rightarrow> (bytes \<times> string) option result" where
  "loadCredential s contractId =
     (case (s (credentialKey contractId ''credentialId''), s (credentialKey contractId ''publicKey'')) of
        (Some credId, Some pubKey) \<Rightarrow>
          if credId \<noteq> [] \<and> pubKey \<noteq> []
          then bindR (base64url2buf credId) (\<lambda>c. Inr (Some (c, pubKey))) else Inr None
      | _ \<Rightarrow> Inr None)"

section \<open>Accounts\<close>

definition ACCOUNTS :: string where "ACCOUNTS = ''nido:accounts''"

definition PENDING :: string where "PENDING = ''nido:pending''"

definition saveAccount :: "string \<Rightarrow> local_storage \<Rightarrow> local_storage result" where
  "saveAccount contractId s =
     bindR (readList s ACCOUNTS) (\<lambda>accounts.
       Inr (if JStr contractId \<in> set accounts then s
            else setItem ACCOUNTS (stringify (JArr (accounts @ [JStr contractId]))) s))"

definition loadAccounts :: "local_storage \<Rightarrow> json list result" where
  "loadAccounts s = readList s ACCOUNTS"

definition has_contractId :: "string \<Rightarrow> json \<Rightarrow> bool" where
  "has_contractId contractId p \<longleftrightarrow> field ''contractId'' p = Some (JStr contractId)"

definition with_member :: "string \<Rightarrow> json \<Rightarrow> json \<Rightarrow> json" where
  "with_member k v j = (case j of JObj kvs \<Rightarrow> JObj (putMember kvs k v) | _ \<Rightarrow> j)"

definition without_member :: "string \<Rightarrow> json \<Rightarrow> json" where
  "without_member k j = (case j of JObj kvs \<Rightarrow> JObj (filter (\<lambda>(k', _). k' \<noteq> k) kvs) | _ \<Rightarrow> j)"

text \<open>The first pending entry of the account is updated in place.\<close>

fun updateFirst :: "('a \<Rightarrow> bool) \<Rightarrow> ('a \<Rightarrow> 'a) \<Rightarrow> 'a list \<Rightarrow> 'a list option" where
  "updateFirst P f [] = None"
| "updateFirst P f (x # xs) = (if P x then Some (f x # xs) else map_option ((#) x) (updateFirst P f xs))"

definition savePendingAccount :: "string \<Rightarrow> string \<Rightarrow> local_storage \<Rightarrow> local_storage result" where
  "savePendingAccount contractId setupKey s =
     bindR (readList s PENDING) (\<lambda>pending.
       Inr (setItem PENDING (stringify (JArr
         (orElse (updateFirst (has_contractId contractId)
                    (\<lambda>p. without_member ''secretKey'' (with_member ''setupKey'' (JStr setupKey) p)) pending)
            (pending @ [JObj [(''contractId'', JStr contractId), (''setupKey'', JStr setupKey)]])))) s))"

definition loadPendingAccounts :: "local_storage \<Rightarrow> json list result" where
  "loadPendingAccounts s =
     bindR (readList s PENDING) (\<lambda>pending. Inr (map (\<lambda>p.
       with_member ''setupKey'' (orElse (coalesce (field ''setupKey'' p)
         (coalesce (field ''secretKey'' p) (Some (JStr [])))) JNull) p) pending))"

definition removePendingAccount :: "string \<Rightarrow> local_storage \<Rightarrow> local_storage result" where
  "removePendingAccount contractId s =
     bindR (readList s PENDING) (\<lambda>pending.
       Inr (setItem PENDING (stringify (JArr (filter (\<lambda>p. \<not> has_contractId contractId p) pending))) s))"

definition activateAccount :: "string \<Rightarrow> local_storage \<Rightarrow> local_storage result" where
  "activateAccount contractId s = bindR (removePendingAccount contractId s) (saveAccount contractId)"

definition nameKey :: "string \<Rightarrow> string" where
  "nameKey contractId = ''nido:names:'' @ contractId"

definition saveAccountName :: "string \<Rightarrow> string \<Rightarrow> local_storage \<Rightarrow> local_storage" where
  "saveAccountName contractId n s = setItem (nameKey contractId) n s"

definition loadAccountName :: "local_storage \<Rightarrow> string \<Rightarrow> string option" where
  "loadAccountName s contractId = s (nameKey contractId)"

section \<open>The overlay of policy blocks\<close>

definition friendsKey :: "string \<Rightarrow> string" where
  "friendsKey account = ''nido.'' @ account @ ''.friends''"

definition sessionKey :: "string \<Rightarrow> string \<Rightarrow> string" where
  "sessionKey account target = ''nido.'' @ account @ ''.session-key.'' @ target"

definition labelsKey :: "string \<Rightarrow> string" where
  "labelsKey account = ''nido.'' @ account @ ''.block-labels''"

definition loadFriendNicknames :: "local_storage \<Rightarrow> string \<Rightarrow> (string \<times> json) list result" where
  "loadFriendNicknames s account = readObject s (friendsKey account)"

definition saveFriendNickname :: "string \<Rightarrow> string \<Rightarrow> string \<Rightarrow> local_storage \<Rightarrow> local_storage result" where
  "saveFriendNickname account address nick s =
     bindR (loadFriendNicknames s account) (\<lambda>existing.
       Inr (setItem (friendsKey account) (stringify (JObj (putMember existing address (JStr nick)))) s))"

definition loadBlockLabels :: "local_storage \<Rightarrow> string \<Rightarrow> (string \<times> json) list result" where
  "loadBlockLabels s account = readObject s (labelsKey account)"

definition saveBlockLabel :: "string \<Rightarrow> nat \<Rightarrow> string \<Rightarrow> local_storage \<Rightarrow> local_storage result" where
  "saveBlockLabel account ruleId label s =
     bindR (loadBlockLabels s account) (\<lambda>existing.
       Inr (setItem (labelsKey account) (stringify (JObj (putMember existing (showNat ruleId) (JStr label)))) s))"

record session_material =
  sm_credentialId :: "json option"
  sm_publicKey :: "json option"
  sm_label :: "json option"
  sm_privateKey :: "bytes option"

text \<open>\<open>new Uint8Array(v)\<close> of a stored value: a list of numbers, or a length.\<close>

definition bytesOfJson :: "json option \<Rightarrow> bytes" where
  "bytesOfJson j =
     (case j of
        Some (JArr vs) \<Rightarrow> map (\<lambda>v. (case v of JNum n \<Rightarrow> word_of_int n | _ \<Rightarrow> 0)) vs
      | Some (JNum n) \<Rightarrow> replicate (nat n) 0
      | _ \<Rightarrow> [])"

text \<open>\<open>Array.from(bytes)\<close>\<close>

definition jsonOfBytes :: "bytes \<Rightarrow> json" where
  "jsonOfBytes bs = JArr (map (\<lambda>b. JNum (uint b)) bs)"

text \<open>\<open>JSON.stringify\<close> leaves out the members that are \<open>undefined\<close>.\<close>

definition object :: "(string \<times> json option) list \<Rightarrow> json" where
  "object kvs = JObj (List.map_filter (\<lambda>(k, v). map_option (Pair k) v) kvs)"

definition saveSessionKeyMaterial :: "string \<Rightarrow> string \<Rightarrow> session_material \<Rightarrow> local_storage \<Rightarrow> local_storage" where
  "saveSessionKeyMaterial account target material s =
     setItem (sessionKey account target)
       (stringify (object [(''credentialId'', sm_credentialId material), (''publicKey'', sm_publicKey material),
          (''label'', sm_label material), (''privateKey'', map_option jsonOfBytes (sm_privateKey material))])) s"

definition loadSessionKeyMaterial :: "local_storage \<Rightarrow> string \<Rightarrow> string \<Rightarrow> session_material option result" where
  "loadSessionKeyMaterial s account target =
     (case s (sessionKey account target) of
        None \<Rightarrow> Inr None
      | Some raw \<Rightarrow>
          if raw = [] then Inr None
          else bindR (parse_json raw) (\<lambda>o'.
            if o' = JNull then Inl (TypeError ''Cannot read properties of null'')
            else Inr (Some \<lparr>sm_credentialId = field ''credentialId'' o', sm_publicKey = field ''publicKey'' o',
              sm_label = field ''label'' o',
              sm_privateKey = (if truthy (field ''privateKey'' o') then Some (bytesOfJson (field ''privateKey'' o')) else None)\<rparr>)))"

definition forgetSessionKeyMaterial :: "string \<Rightarrow> string \<Rightarrow> local_storage \<Rightarrow> local_storage" where
  "forgetSessionKeyMaterial account target s = removeItem (sessionKey account target) s"

section \<open>Facts\<close>

lemma object_simps [simp]:
  "object [] = JObj []"
  "object ((k, Some v) # kvs) = (case object kvs of JObj ms \<Rightarrow> JObj ((k, v) # ms) | j \<Rightarrow> j)"
  "object ((k, None) # kvs) = object kvs"
  by (simp_all add: object_def List.map_filter_simps)

lemma readJson_set: "wf_json j \<Longrightarrow> readJson (setItem k (stringify j) s) k d = Inr j"
  using json_round_trip [of j] by (cases "stringify j") (auto simp: readJson_def setItem_def)

lemma readJson_other: "k' \<noteq> k \<Longrightarrow> readJson (setItem k v s) k' d = readJson s k' d"
  by (simp add: readJson_def setItem_def)

lemma readList_set: "list_all wf_json vs \<Longrightarrow> readList (setItem k (stringify (JArr vs)) s) k = Inr vs"
  by (simp add: readList_def readJson_set)

lemma readList_other: "k' \<noteq> k \<Longrightarrow> readList (setItem k v s) k' = readList s k'"
  by (simp add: readList_def readJson_other)

lemma readObject_set:
  "distinct (map fst kvs) \<Longrightarrow> list_all (\<lambda>(_, v). wf_json v) kvs \<Longrightarrow>
   readObject (setItem k (stringify (JObj kvs)) s) k = Inr kvs"
  by (simp add: readObject_def readJson_set)

lemma bytes_json: "bytesOfJson (Some (jsonOfBytes bs)) = bs"
  by (simp add: bytesOfJson_def jsonOfBytes_def comp_def)

lemma wf_jsonOfBytes [simp]: "wf_json (jsonOfBytes bs)"
  by (simp add: jsonOfBytes_def list_all_iff)

text \<open>
  The account lists as the program keeps them: the accounts of this origin without repetition,
  and one pending entry an account.
\<close>

definition pending_id :: "json \<Rightarrow> string option" where
  "pending_id p = as_string (field ''contractId'' p)"

definition pending_entry :: "json \<Rightarrow> bool" where
  "pending_entry p \<longleftrightarrow> (\<exists>kvs. p = JObj kvs) \<and> wf_json p \<and> pending_id p \<noteq> None"

definition lists_ok :: "local_storage \<Rightarrow> bool" where
  "lists_ok s \<longleftrightarrow> (\<exists>ids. readList s ACCOUNTS = Inr (map JStr ids) \<and> distinct ids) \<and>
     (\<exists>ps. readList s PENDING = Inr ps \<and> list_all pending_entry ps \<and> distinct (map pending_id ps))"

datatype account_op =
    SaveAccount string
  | SavePending string string
  | RemovePending string
  | Activate string

definition account_step :: "local_storage \<Rightarrow> account_op \<Rightarrow> local_storage" where
  "account_step s oper =
     (case (case oper of
              SaveAccount i \<Rightarrow> saveAccount i s
            | SavePending i k \<Rightarrow> savePendingAccount i k s
            | RemovePending i \<Rightarrow> removePendingAccount i s
            | Activate i \<Rightarrow> activateAccount i s) of
        Inr s' \<Rightarrow> s' | Inl _ \<Rightarrow> s)"

lemma keys_differ: "ACCOUNTS \<noteq> PENDING" "PENDING \<noteq> ACCOUNTS"
  by (simp_all add: ACCOUNTS_def PENDING_def)

lemma has_contractId_iff: "has_contractId i p \<longleftrightarrow> pending_id p = Some i"
  by (auto simp: has_contractId_def pending_id_def dest: as_string_SomeD)

lemma wf_strings [simp]: "list_all wf_json (map JStr ids)"
  by (simp add: list_all_iff)

lemma accounts_saved:
  assumes "readList s ACCOUNTS = Inr (map JStr ids)" "distinct ids"
  shows "\<exists>s' ids'. saveAccount i s = Inr s' \<and> readList s' PENDING = readList s PENDING \<and>
    readList s' ACCOUNTS = Inr (map JStr ids') \<and> distinct ids' \<and> set ids' = insert i (set ids)"
proof (cases "i \<in> set ids")
  case True
  with assms show ?thesis by (auto simp: saveAccount_def)
next
  case False
  moreover have "map JStr ids @ [JStr i] = map JStr (ids @ [i])" by simp
  ultimately show ?thesis
    using assms by (intro exI [of _ "setItem ACCOUNTS (stringify (JArr (map JStr ids @ [JStr i]))) s"] exI [of _ "ids @ [i]"])
      (auto simp: saveAccount_def readList_set readList_other keys_differ)
qed

lemma pending_removed:
  assumes "readList s PENDING = Inr ps" "list_all pending_entry ps"
  shows "\<exists>s'. removePendingAccount i s = Inr s' \<and> readList s' ACCOUNTS = readList s ACCOUNTS \<and>
    readList s' PENDING = Inr (filter (\<lambda>p. pending_id p \<noteq> Some i) ps)"
  using assms
  by (auto simp: removePendingAccount_def has_contractId_iff readList_other keys_differ list_all_iff pending_entry_def
      intro!: readList_set)

lemma updateFirst_None: "updateFirst P f xs = None \<longleftrightarrow> (\<forall>x \<in> set xs. \<not> P x)"
  by (induction xs) auto

lemma updateFirst_Some:
  assumes "updateFirst P f xs = Some ys" "\<And>x. P x \<Longrightarrow> g (f x) = g x" "list_all Q xs" "\<And>x. Q x \<Longrightarrow> Q (f x)"
  shows "map g ys = map g xs \<and> list_all Q ys"
  using assms by (induction xs arbitrary: ys) (auto split: if_splits)

lemma updated_entry:
  assumes "pending_entry p" "p' = without_member ''secretKey'' (with_member ''setupKey'' (JStr k) p)"
  shows "pending_entry p'" "pending_id p' = pending_id p"
proof -
  from assms(1) obtain kvs where kvs: "p = JObj kvs" "distinct (map fst kvs)" "list_all (\<lambda>(_, v). wf_json v) kvs"
    by (auto simp: pending_entry_def)
  have map_filter: "map_of (filter (\<lambda>(k', _). k' \<noteq> ''secretKey'') ms) ''contractId'' = map_of ms ''contractId''"
    for ms :: "(string \<times> json) list" by (induction ms) auto
  from kvs show same: "pending_id p' = pending_id p"
    by (simp add: assms(2) pending_id_def with_member_def without_member_def map_filter map_of_putMember)
  have "list_all (\<lambda>(_, v). wf_json v) (putMember kvs ''setupKey'' (JStr k))"
    using kvs(3) set_putMember_values [of kvs] by (fastforce simp: list_all_iff)
  with kvs same assms(1) show "pending_entry p'"
    by (auto simp: assms(2) pending_entry_def with_member_def without_member_def list_all_iff
        intro!: distinct_map_filter distinct_putMember)
qed

lemma pending_saved:
  assumes "readList s PENDING = Inr ps" "list_all pending_entry ps"
  shows "\<exists>s' ps'. savePendingAccount i k s = Inr s' \<and> readList s' ACCOUNTS = readList s ACCOUNTS \<and>
    readList s' PENDING = Inr ps' \<and> list_all pending_entry ps' \<and>
    map pending_id ps' = (if Some i \<in> set (map pending_id ps) then map pending_id ps else map pending_id ps @ [Some i])"
proof -
  let ?f = "\<lambda>p. without_member ''secretKey'' (with_member ''setupKey'' (JStr k) p)"
  let ?new = "JObj [(''contractId'', JStr i), (''setupKey'', JStr k)]"
  let ?ps = "orElse (updateFirst (has_contractId i) ?f ps) (ps @ [?new])"
  have new: "pending_entry ?new" "pending_id ?new = Some i"
    by (simp_all add: pending_entry_def pending_id_def)
  have ids: "list_all pending_entry ?ps \<and>
    map pending_id ?ps = (if Some i \<in> set (map pending_id ps) then map pending_id ps else map pending_id ps @ [Some i])"
  proof (cases "updateFirst (has_contractId i) ?f ps")
    case None
    then have "Some i \<notin> set (map pending_id ps)" by (auto simp: updateFirst_None has_contractId_iff)
    with None assms(2) new show ?thesis by simp
  next
    case (Some ys)
    then have "\<not> (\<forall>p \<in> set ps. \<not> has_contractId i p)" using updateFirst_None [of "has_contractId i" ?f ps] by simp
    then have "Some i \<in> set (map pending_id ps)" by (force simp: has_contractId_iff)
    moreover have upd: "map pending_id ys = map pending_id ps \<and> list_all pending_entry ys"
      using Some assms(2)
    proof (induction ps arbitrary: ys)
      case (Cons p ps)
      then show ?case by (auto simp: updated_entry split: if_splits)
    qed simp
    ultimately show ?thesis using Some by simp
  qed
  then have "list_all wf_json ?ps" by (auto simp: list_all_iff pending_entry_def)
  with ids assms(1) show ?thesis
    by (auto simp: savePendingAccount_def readList_other keys_differ intro!: readList_set)
qed

lemma activated:
  assumes "readList s ACCOUNTS = Inr (map JStr ids)" "distinct ids"
    and "readList s PENDING = Inr ps" "list_all pending_entry ps"
  shows "\<exists>s' ids'. activateAccount i s = Inr s' \<and> readList s' ACCOUNTS = Inr (map JStr ids') \<and> distinct ids' \<and>
    i \<in> set ids' \<and> readList s' PENDING = Inr (filter (\<lambda>p. pending_id p \<noteq> Some i) ps)"
proof -
  from pending_removed [OF assms(3,4), of i] assms(1) obtain s1 where s1: "removePendingAccount i s = Inr s1"
    "readList s1 ACCOUNTS = Inr (map JStr ids)" "readList s1 PENDING = Inr (filter (\<lambda>p. pending_id p \<noteq> Some i) ps)"
    by auto
  with accounts_saved [OF s1(2) assms(2), of i] show ?thesis by (auto simp: activateAccount_def)
qed

lemma lists_ok_step:
  assumes "lists_ok s"
  shows "lists_ok (account_step s oper)"
proof -
  from assms obtain ids ps where a: "readList s ACCOUNTS = Inr (map JStr ids)" "distinct ids"
    and p: "readList s PENDING = Inr ps" "list_all pending_entry ps" "distinct (map pending_id ps)"
    by (auto simp: lists_ok_def)
  have removed: "distinct (map pending_id (filter P ps))" "list_all pending_entry (filter P ps)" for P
    using p(2,3) by (auto simp: list_all_iff intro: distinct_map_filter)
  show ?thesis
  proof (cases oper)
    case (SaveAccount i)
    with accounts_saved [OF a, of i] a p show ?thesis by (auto simp: account_step_def lists_ok_def)
  next
    case (SavePending i k)
    with pending_saved [OF p(1,2), of i k] a p show ?thesis
      by (fastforce simp: account_step_def lists_ok_def split: if_splits)
  next
    case (RemovePending i)
    with pending_removed [OF p(1,2), of i] a removed show ?thesis
      by (auto simp: account_step_def lists_ok_def)
  next
    case (Activate i)
    with activated [OF a p(1,2), of i] removed show ?thesis by (auto simp: account_step_def lists_ok_def)
  qed
qed

interpretation accounts: preserved account_step lists_ok
  by unfold_locales (rule lists_ok_step)

lemma empty_lists: "lists_ok Map.empty"
proof -
  have "parse_json ''[]'' = Inr (JArr [])" using json_round_trip [of "JArr []"] by (simp add: stringify.simps)
  then show ?thesis by (auto simp: lists_ok_def readList_def readJson_def intro!: exI [of _ "[]"])
qed

section \<open>Properties\<close>

text \<open>
  From an empty browser, after any sequence of account operations, both lists are readable,
  no account is listed twice and no account has two pending entries; activating an account then
  succeeds, lists it and leaves no pending entry of it.
\<close>

theorem account_lists_consistent:
  "let s = foldl account_step Map.empty opers
   in lists_ok s \<and>
     (\<exists>s' ids ps. activateAccount i s = Inr s' \<and> loadAccounts s' = Inr (map JStr ids) \<and> i \<in> set ids \<and>
        readList s' PENDING = Inr ps \<and> Some i \<notin> set (map pending_id ps))"
proof -
  define s where "s = foldl account_step Map.empty opers"
  have ok: "lists_ok s" unfolding s_def by (rule accounts.run_inv) (rule empty_lists)
  then obtain ids ps where a: "readList s ACCOUNTS = Inr (map JStr ids)" "distinct ids"
    and p: "readList s PENDING = Inr ps" "list_all pending_entry ps" by (auto simp: lists_ok_def)
  from activated [OF a p, of i] obtain s' ids' where "activateAccount i s = Inr s'"
    "loadAccounts s' = Inr (map JStr ids')" "i \<in> set ids'"
    "readList s' PENDING = Inr (filter (\<lambda>p. pending_id p \<noteq> Some i) ps)" by (auto simp: loadAccounts_def)
  moreover have "Some i \<notin> set (map pending_id (filter (\<lambda>p. pending_id p \<noteq> Some i) ps))" by auto
  ultimately show ?thesis using ok unfolding s_def [symmetric] Let_def by blast
qed

lemma credentialKey_inject: "credentialKey a p = credentialKey b p \<longleftrightarrow> a = b"
  by (simp add: credentialKey_def)

lemma credential_parts: "credentialKey a ''publicKey'' \<noteq> credentialKey b ''credentialId''"
proof
  assume "credentialKey a ''publicKey'' = credentialKey b ''credentialId''"
  then have "last (credentialKey a ''publicKey'') = last (credentialKey b ''credentialId'')" by simp
  then show False by (simp add: credentialKey_def)
qed

lemma credential_loaded:
  assumes "credentialId \<noteq> []" "publicKey \<noteq> []"
  shows "loadCredential (saveCredential a credentialId publicKey s) b =
    (if b = a then Inr (Some (credentialId, buf2hex publicKey)) else loadCredential s b)"
proof -
  have empty: "base64url2buf [] = Inr []" by code_simp
  have ne: "buf2hex publicKey \<noteq> []" "buf2base64url credentialId \<noteq> []"
    using length_buf2hex [of publicKey] base64url_round_trip [of credentialId] assms empty by auto
  then show ?thesis
    by (simp add: loadCredential_def saveCredential_def setItem_def credentialKey_inject credential_parts
        credential_parts [symmetric] base64url_round_trip cong: option.case_cong)
qed

lemma readJson_wf: "readJson s k d = Inr j \<Longrightarrow> wf_json j"
  by (simp add: readJson_def parse_wf)

lemma readObject_wf: "readObject s k = Inr kvs \<Longrightarrow> distinct (map fst kvs) \<and> list_all (\<lambda>(_, v). wf_json v) kvs"
proof -
  assume "readObject s k = Inr kvs"
  then obtain j where "readJson s k ''{}'' = Inr j" "j = JObj kvs"
    by (cases "readJson s k ''{}''") (auto simp: readObject_def split: json.split_asm)
  with readJson_wf [of s k "''{}''" j] show ?thesis by simp
qed

lemma nickname_loaded:
  assumes "saveFriendNickname a address nick s = Inr s'"
  shows "\<exists>kvs kvs'. loadFriendNicknames s a = Inr kvs \<and> loadFriendNicknames s' a = Inr kvs' \<and>
    map_of kvs' = (map_of kvs)(address \<mapsto> JStr nick)"
proof -
  from assms obtain kvs where kvs: "loadFriendNicknames s a = Inr kvs"
    "s' = setItem (friendsKey a) (stringify (JObj (putMember kvs address (JStr nick)))) s"
    by (auto simp: saveFriendNickname_def result_simps)
  from readObject_wf [of s "friendsKey a" kvs] kvs(1) have wf: "distinct (map fst kvs)" "list_all (\<lambda>(_, v). wf_json v) kvs"
    by (auto simp: loadFriendNicknames_def)
  have "list_all (\<lambda>(_, v). wf_json v) (putMember kvs address (JStr nick))"
    using wf(2) set_putMember_values [of kvs] by (fastforce simp: list_all_iff)
  with kvs wf(1) show ?thesis
    by (auto simp: loadFriendNicknames_def map_of_putMember intro!: readObject_set distinct_putMember)
qed

lemma session_loaded:
  assumes "sm_credentialId m = Some (JStr c)" "sm_publicKey m = Some (JStr p)"
    "sm_label m = map_option JStr l"
  shows "loadSessionKeyMaterial (saveSessionKeyMaterial a t m s) a t = Inr (Some m)"
proof -
  let ?j = "object [(''credentialId'', sm_credentialId m), (''publicKey'', sm_publicKey m),
          (''label'', sm_label m), (''privateKey'', map_option jsonOfBytes (sm_privateKey m))]"
  have "wf_json ?j" using assms by (cases l; cases "sm_privateKey m") simp_all
  then have "parse_json (stringify ?j) = Inr ?j" by (rule json_round_trip)
  with assms show ?thesis
    by (cases l; cases "sm_privateKey m")
      (auto simp: loadSessionKeyMaterial_def saveSessionKeyMaterial_def setItem_def truthy_def jsonOfBytes_def
        bytes_json [unfolded jsonOfBytes_def])
qed

text \<open>
  What is saved for an account is what is loaded: a credential comes back byte for byte and
  saving it changes no other account's; a nickname replaces that of the same friend only; and
  the material of a session key comes back, with its optional label and private key.
\<close>

theorem storage_round_trips:
  assumes "credentialId \<noteq> []" "publicKey \<noteq> []" "loadFriendNicknames s a = Inr kvs"
    "sm_credentialId m = Some (JStr c)" "sm_publicKey m = Some (JStr p)" "sm_label m = map_option JStr l"
  shows "loadCredential (saveCredential a credentialId publicKey s) b =
      (if b = a then Inr (Some (credentialId, buf2hex publicKey)) else loadCredential s b) \<and>
    (\<exists>s' kvs'. saveFriendNickname a address nick s = Inr s' \<and> loadFriendNicknames s' a = Inr kvs' \<and>
       map_of kvs' = (map_of kvs)(address \<mapsto> JStr nick)) \<and>
    loadSessionKeyMaterial (saveSessionKeyMaterial a t m s) a t = Inr (Some m)"
proof -
  obtain s' where s': "saveFriendNickname a address nick s = Inr s'"
    using assms(3) by (auto simp: saveFriendNickname_def)
  from nickname_loaded [OF s'] assms(3) s' credential_loaded [OF assms(1,2)]
    session_loaded [OF assms(4,5,6)] show ?thesis by auto
qed

theorem storage_round_trips_witness:
  "loadCredential (saveCredential ''CA'' [1, 2] [4] Map.empty) ''CA'' = Inr (Some ([1, 2], ''04'')) \<and>
   (\<exists>s' kvs'. saveFriendNickname ''CA'' ''CB'' ''bob'' Map.empty = Inr s' \<and> loadFriendNicknames s' ''CA'' = Inr kvs' \<and>
      map_of kvs' ''CB'' = Some (JStr ''bob''))"
proof -
  have "loadFriendNicknames Map.empty ''CA'' = Inr []" by code_simp
  from storage_round_trips [OF _ _ this, of "[1, 2]" "[4]"
      "\<lparr>sm_credentialId = Some (JStr ''k''), sm_publicKey = Some (JStr ''04''), sm_label = None, sm_privateKey = None\<rparr>"
      "''k''" "''04''" None "''CA''" "''CB''" "''bob''" "''CT''"]
  have "loadCredential (saveCredential ''CA'' [1, 2] [4] Map.empty) ''CA'' = Inr (Some ([1, 2], buf2hex [4]))"
    "\<exists>s' kvs'. saveFriendNickname ''CA'' ''CB'' ''bob'' Map.empty = Inr s' \<and> loadFriendNicknames s' ''CA'' = Inr kvs' \<and>
      map_of kvs' = Map.empty(''CB'' \<mapsto> JStr ''bob'')" by auto
  moreover have "buf2hex [4] = ''04''" by code_simp
  ultimately show ?thesis by force
qed

end
