(* ===== verification/Handoff.thy ===== *)
theory Handoff
  imports Auth Storage
begin

text \<open>
  The blobs that the owner of a recovering account and its friends exchange
  (\<open>passkey-sdk/src/friendSigning.ts\<close>): the handoff of the owner, the signature of a friend, and
  the invocation a friend authorizes. A field that the decoder does not check stays a JSON value,
  \<open>None\<close> for \<open>undefined\<close>.
\<close>

section \<open>Data\<close>

record rotation_handoff =
  h_version :: int
  h_account :: string
  h_recoveryRuleId :: int
  h_refractorTxHashes :: "string list"
  h_expiration :: int
  h_relayKey :: string
  h_relayBaseUrl :: string

record friend_entry =
  fe_authenticatorData :: bytes
  fe_clientDataJson :: bytes
  fe_signature :: bytes
  fe_nonce :: "json option"
  fe_expiration :: "json option"

record friend_signature =
  fs_friendAccount :: "json option"
  fs_verifierAddress :: "json option"
  fs_publicKey :: bytes
  fs_entries :: "friend_entry list"

section \<open>Sharing a value as a blob\<close>

definition blobOf :: "json \<Rightarrow> string" where
  "blobOf j = buf2base64url (utf8 (stringify j))"

section \<open>The handoff\<close>

definition TX_HASH_RE :: "string \<Rightarrow> bool" where
  "TX_HASH_RE tx \<longleftrightarrow> length tx = 64 \<and> list_all is_hex tx"

definition encodeRotationHandoff :: "rotation_handoff \<Rightarrow> string result" where
  "encodeRotationHandoff h =
     (if h_version h \<noteq> 4 then Inl (Error ''encodeRotationHandoff: unsupported version'')
      else if h_refractorTxHashes h = [] then Inl (Error ''encodeRotationHandoff: handoff carries no transactions'')
      else if \<not> list_all TX_HASH_RE (h_refractorTxHashes h)
      then Inl (Error ''encodeRotationHandoff: malformed Refractor transaction hash'')
      else if h_relayKey h = [] \<or> h_relayBaseUrl h = []
      then Inl (Error ''encodeRotationHandoff: missing relayKey or relayBaseUrl'')
      else Inr (blobOf (JObj [(''v'', JNum 4), (''a'', JStr (h_account h)), (''r'', JNum (h_recoveryRuleId h)),
        (''tx'', JArr (map JStr (h_refractorTxHashes h))), (''exp'', JNum (h_expiration h)),
        (''k'', JStr (h_relayKey h)), (''u'', JStr (h_relayBaseUrl h))])))"

definition strings_of :: "json option \<Rightarrow> string list option" where
  "strings_of j = (case j of
     Some (JArr vs) \<Rightarrow>
       if list_all (\<lambda>v. as_string (Some v) \<noteq> None) vs
       then Some (map (\<lambda>v. orElse (as_string (Some v)) []) vs) else None
   | _ \<Rightarrow> None)"

definition readHandoff :: "json \<Rightarrow> rotation_handoff result" where
  "readHandoff h =
     (if h = JNull then Inl (TypeError ''Cannot read properties of null'')
      else if field ''v'' h \<noteq> Some (JNum 4)
      then Inl (Error ''decodeRotationHandoff: unsupported handoff version'')
      else (case (as_string (field ''a'' h), as_int (field ''r'' h), strings_of (field ''tx'' h),
                  as_int (field ''exp'' h), as_string (field ''k'' h), as_string (field ''u'' h)) of
              (Some a, Some r, Some tx, Some exp, Some k, Some u) \<Rightarrow>
                if tx = [] \<or> \<not> list_all TX_HASH_RE tx
                then Inl (Error ''decodeRotationHandoff: malformed handoff payload'')
                else Inr \<lparr>h_version = 4, h_account = a, h_recoveryRuleId = r, h_refractorTxHashes = tx,
                       h_expiration = exp, h_relayKey = k, h_relayBaseUrl = u\<rparr>
            | _ \<Rightarrow> Inl (Error ''decodeRotationHandoff: malformed handoff payload'')))"

definition decodeRotationHandoff :: "string \<Rightarrow> rotation_handoff result" where
  "decodeRotationHandoff encoded =
     (case base64url2buf encoded of
        Inl _ \<Rightarrow> Inl (Error ''decodeRotationHandoff: input is not valid base64url'')
      | Inr bytes \<Rightarrow>
          (case parse_json (text_decode bytes) of
             Inl _ \<Rightarrow> Inl (Error ''decodeRotationHandoff: payload is not valid JSON'')
           | Inr h \<Rightarrow> readHandoff h))"

section \<open>A friend's signature\<close>

definition entryToWire :: "friend_entry \<Rightarrow> (string \<times> json option) list" where
  "entryToWire e =
     [(''ad'', Some (JStr (buf2hex (fe_authenticatorData e)))), (''cd'', Some (JStr (buf2hex (fe_clientDataJson e)))),
      (''sig'', Some (JStr (buf2hex (fe_signature e)))), (''nonce'', fe_nonce e), (''exp'', fe_expiration e)]"

text \<open>
  \<open>hex2buf\<close> of a value that may not be a string: a value without a length gives no bytes, and a
  non-empty list or an object with a length has no \<open>substr\<close>.
\<close>

definition hexField :: "json option \<Rightarrow> bytes result" where
  "hexField j =
     (case j of
        Some (JStr s) \<Rightarrow> Inr (hex2buf s)
      | Some (JNum _) \<Rightarrow> Inr []
      | Some (JBool _) \<Rightarrow> Inr []
      | Some (JArr vs) \<Rightarrow> if vs = [] then Inr [] else Inl (TypeError ''hex.substr is not a function'')
      | Some (JObj kvs) \<Rightarrow>
          if map_of kvs ''length'' = None then Inr [] else Inl (TypeError ''hex.substr is not a function'')
      | _ \<Rightarrow> Inl (TypeError ''Cannot read properties''))"

definition entryFromWire :: "json \<Rightarrow> friend_entry result" where
  "entryFromWire w =
     bindR (hexField (field ''ad'' w)) (\<lambda>ad.
     bindR (hexField (field ''cd'' w)) (\<lambda>cd.
     bindR (hexField (field ''sig'' w)) (\<lambda>s.
       Inr \<lparr>fe_authenticatorData = ad, fe_clientDataJson = cd, fe_signature = s,
            fe_nonce = field ''nonce'' w, fe_expiration = field ''exp'' w\<rparr>)))"

definition encodeFriendSignature :: "friend_signature \<Rightarrow> string result" where
  "encodeFriendSignature s =
     (case fs_entries s of
        [] \<Rightarrow> Inl (Error ''encodeFriendSignature: no signed entries'')
      | [e] \<Rightarrow> Inr (blobOf (object ([(''v'', Some (JNum 1)), (''friend'', fs_friendAccount s),
          (''verifier'', fs_verifierAddress s), (''pub'', Some (JStr (buf2hex (fs_publicKey s))))] @ entryToWire e)))
      | es \<Rightarrow> Inr (blobOf (object [(''v'', Some (JNum 2)), (''friend'', fs_friendAccount s),
          (''verifier'', fs_verifierAddress s), (''pub'', Some (JStr (buf2hex (fs_publicKey s)))),
          (''sigs'', Some (JArr (map (\<lambda>e. object (entryToWire e)) es)))])))"

definition wireEntries :: "json \<Rightarrow> friend_entry list result" where
  "wireEntries w =
     (if field ''v'' w = Some (JNum 1) then bindR (entryFromWire w) (\<lambda>e. Inr [e])
      else (case field ''sigs'' w of
              Some (JArr ws) \<Rightarrow> mapR entryFromWire ws
            | _ \<Rightarrow> Inl (TypeError ''w.sigs.map is not a function'')))"

definition decodeFriendSignature :: "string \<Rightarrow> friend_signature result" where
  "decodeFriendSignature encoded =
     (case base64url2buf encoded of
        Inl _ \<Rightarrow> Inl (Error ''decodeFriendSignature: input is not valid base64url'')
      | Inr bytes \<Rightarrow>
          bindR (parse_json (text_decode bytes)) (\<lambda>w.
            if w = JNull then Inl (TypeError ''Cannot read properties of null'')
            else if field ''v'' w \<notin> {Some (JNum 1), Some (JNum 2)}
            then Inl (Error ''decodeFriendSignature: unsupported version'')
            else bindR (hexField (field ''pub'' w)) (\<lambda>pub.
                 bindR (wireEntries w) (\<lambda>es.
                   Inr \<lparr>fs_friendAccount = field ''friend'' w, fs_verifierAddress = field ''verifier'' w,
                        fs_publicKey = pub, fs_entries = es\<rparr>))))"

section \<open>What a friend authorizes\<close>

datatype auth_fn = ContractFn string string "scval list" | CreateContractFn bytes

datatype invocation_tree = Invocation (inv_function: auth_fn) (inv_subs: "invocation_tree list")

definition buildFriendInvocation :: "xdr_lib \<Rightarrow> string \<Rightarrow> string \<Rightarrow> invocation_tree result" where
  "buildFriendInvocation lib recoveringAccount parentAuthDigestHex =
     bindR (addressScVal lib recoveringAccount) (\<lambda>_.
       Inr (Invocation (ContractFn recoveringAccount ''__check_auth''
         [ScvBytes (hex2buf parentAuthDigestHex)]) []))"

text \<open>\<open>int64\<close> is the XDR library's reading of a decimal string; it throws out of range.\<close>

type_synonym int64_reader = "json option \<Rightarrow> int result"

definition friendSignaturePayload ::
  "xdr_lib \<Rightarrow> invocation_tree preimage \<Rightarrow> int64_reader \<Rightarrow> string \<Rightarrow> string \<Rightarrow> string \<Rightarrow> string \<Rightarrow> nat \<Rightarrow> bytes result" where
  "friendSignaturePayload lib pre int64 recoveringAccount parentAuthDigestHex networkPassphrase nonce expiration =
     bindR (int64 (Some (JStr nonce))) (\<lambda>n.
     bindR (buildFriendInvocation lib recoveringAccount parentAuthDigestHex) (\<lambda>invocation.
       Inr (sha256 lib (pre (sha256 lib (utf8 networkPassphrase)) n expiration invocation))))"

text \<open>\<open>random\<close> is the eight bytes that \<open>crypto.getRandomValues\<close> filled in.\<close>

definition randomNonceValue :: "bytes \<Rightarrow> int" where
  "randomNonceValue random = and (foldl (\<lambda>v b. or (push_bit 8 v) (uint b)) 0 random) (2 ^ 63 - 1)"

definition randomNonce :: "bytes \<Rightarrow> string" where
  "randomNonce random = showInt (randomNonceValue random)"

section \<open>Facts\<close>

lemma blob_round_trip:
  assumes "wf_json j"
  shows "\<exists>bytes. base64url2buf (blobOf j) = Inr bytes \<and> parse_json (text_decode bytes) = Inr j"
  using assms by (simp add: blobOf_def base64url_round_trip text_round_trip json_round_trip)

lemma strings_of_map: "strings_of (Some (JArr (map JStr ss))) = Some ss"
  by (simp add: strings_of_def list_all_iff comp_def)

lemma decode_encode_handoff:
  assumes "encodeRotationHandoff h = Inr s"
  shows "decodeRotationHandoff s = Inr h"
proof -
  let ?j = "JObj [(''v'', JNum 4), (''a'', JStr (h_account h)), (''r'', JNum (h_recoveryRuleId h)),
        (''tx'', JArr (map JStr (h_refractorTxHashes h))), (''exp'', JNum (h_expiration h)),
        (''k'', JStr (h_relayKey h)), (''u'', JStr (h_relayBaseUrl h))]"
  have "wf_json ?j" by (simp add: list_all_iff)
  from blob_round_trip [OF this] obtain bs where bs: "base64url2buf (blobOf ?j) = Inr bs"
    "parse_json (text_decode bs) = Inr ?j" by blast
  from assms have "s = blobOf ?j" "h_version h = 4" "h_refractorTxHashes h \<noteq> []" "list_all TX_HASH_RE (h_refractorTxHashes h)"
    by (auto simp: encodeRotationHandoff_def split: if_splits)
  with bs show ?thesis
    by (simp add: decodeRotationHandoff_def readHandoff_def strings_of_map)
qed

interpretation handoff: codec encodeRotationHandoff decodeRotationHandoff
  by unfold_locales (rule decode_encode_handoff)


lemma bytes_or_shift:
  fixes b :: byte
  assumes "0 \<le> v"
  shows "or (push_bit 8 v) (uint b) = v * 256 + uint b"
proof -
  have "bit (uint b) n \<Longrightarrow> n < 8" for n by (auto simp: bit_uint_iff bit_imp_le_length dest: bit_imp_le_length)
  then have "or (push_bit 8 v) (uint b) = push_bit 8 v + uint b"
    by (intro disjunctive_add [symmetric]) (force simp: bit_push_bit_iff)
  then show ?thesis by (simp add: push_bit_eq_mult)
qed

lemma randomNonceValue_mod: "randomNonceValue random = bytesToBigIntBE random mod 2 ^ 63"
proof -
  have "foldl (\<lambda>v b. or (push_bit 8 v) (uint b)) 0 bs = bytesToBigIntBE bs" for bs :: bytes
  proof (induction bs rule: rev_induct)
    case (snoc b bs)
    then show ?case using bytes_or_shift [of "bytesToBigIntBE bs" b] bytesToBigIntBE_bounds [of bs] by simp
  qed simp
  moreover have "and x (2 ^ 63 - 1) = x mod 2 ^ 63" for x :: int
    using take_bit_eq_mask [of 63 x] by (simp add: take_bit_eq_mod mask_eq_exp_minus_1)
  ultimately show ?thesis by (simp add: randomNonceValue_def)
qed

text \<open>A signature as the encoder's type demands it.\<close>

definition typed_entry :: "friend_entry \<Rightarrow> bool" where
  "typed_entry e \<longleftrightarrow> as_string (fe_nonce e) \<noteq> None \<and> as_int (fe_expiration e) \<noteq> None"

definition typed_signature :: "friend_signature \<Rightarrow> bool" where
  "typed_signature s \<longleftrightarrow> as_string (fs_friendAccount s) \<noteq> None \<and> as_string (fs_verifierAddress s) \<noteq> None \<and>
     list_all typed_entry (fs_entries s)"

lemma entry_round_trip:
  assumes "typed_entry e"
  shows "wf_json (object (entryToWire e))" "entryFromWire (object (entryToWire e)) = Inr e"
proof -
  from assms obtain n x where "fe_nonce e = Some (JStr n)" "fe_expiration e = Some (JNum x)"
    by (auto simp: typed_entry_def dest!: as_string_SomeD as_int_SomeD)
  then show "wf_json (object (entryToWire e))" "entryFromWire (object (entryToWire e)) = Inr e"
    by (simp_all add: entryToWire_def entryFromWire_def hexField_def hex2buf_buf2hex)
qed

lemma decode_encode_signature:
  assumes "typed_signature s" "encodeFriendSignature s = Inr t"
  shows "decodeFriendSignature t = Inr s"
proof -
  from assms(1) obtain f v where f: "fs_friendAccount s = Some (JStr f)" "fs_verifierAddress s = Some (JStr v)"
    and es: "list_all typed_entry (fs_entries s)"
    by (auto simp: typed_signature_def dest!: as_string_SomeD)
  consider e where "fs_entries s = [e]" "typed_entry e"
    | e e' es' where "fs_entries s = e # e' # es'" "list_all typed_entry (e # e' # es')"
    using assms(2) es by (cases "fs_entries s" rule: remdups_adj.cases) (auto simp: encodeFriendSignature_def)
  then show ?thesis
  proof cases
    case 1
    from 1(2) obtain n x where n: "fe_nonce e = Some (JStr n)" "fe_expiration e = Some (JNum x)"
      by (auto simp: typed_entry_def dest!: as_string_SomeD as_int_SomeD)
    let ?j = "object ([(''v'', Some (JNum 1)), (''friend'', fs_friendAccount s),
          (''verifier'', fs_verifierAddress s), (''pub'', Some (JStr (buf2hex (fs_publicKey s))))] @ entryToWire e)"
    have "wf_json ?j" using f n by (simp add: entryToWire_def)
    from blob_round_trip [OF this] obtain bs where bs: "base64url2buf (blobOf ?j) = Inr bs"
      "parse_json (text_decode bs) = Inr ?j" by blast
    moreover have "t = blobOf ?j" using assms(2) 1 by (simp add: encodeFriendSignature_def)
    ultimately show ?thesis using f n 1
      by (simp add: decodeFriendSignature_def wireEntries_def entryToWire_def entryFromWire_def hexField_def hex2buf_buf2hex)
  next
    case 2
    let ?j = "object [(''v'', Some (JNum 2)), (''friend'', fs_friendAccount s),
          (''verifier'', fs_verifierAddress s), (''pub'', Some (JStr (buf2hex (fs_publicKey s)))),
          (''sigs'', Some (JArr (map (\<lambda>e. object (entryToWire e)) (fs_entries s))))]"
    have "wf_json ?j" using f es by (simp add: list_all_iff entry_round_trip)
    from blob_round_trip [OF this] obtain bs where bs: "base64url2buf (blobOf ?j) = Inr bs"
      "parse_json (text_decode bs) = Inr ?j" by blast
    moreover have "t = blobOf ?j" using assms(2) 2 by (simp add: encodeFriendSignature_def)
    moreover have "mapR entryFromWire (map (\<lambda>e. object (entryToWire e)) (fs_entries s)) = Inr (fs_entries s)"
      using es by (auto simp: mapR_Inr_iff list_all2_conv_all_nth list_all_length entry_round_trip)
    ultimately show ?thesis using f
      by (simp add: decodeFriendSignature_def wireEntries_def hexField_def hex2buf_buf2hex)
  qed
qed

interpretation friend_blob: codec
  "\<lambda>s. if typed_signature s then encodeFriendSignature s else Inl (TypeError ''FriendSignature'')" decodeFriendSignature
  by unfold_locales (auto simp: decode_encode_signature split: if_splits)


lemma base64url_chars: "list_all (\<lambda>c. is_upper c \<or> is_lower c \<or> is_digit c \<or> c \<in> set ''-_'') (buf2base64url bs)"
proof -
  have "is_upper (toUrlChar (b64Char v)) \<or> is_lower (toUrlChar (b64Char v)) \<or> is_digit (toUrlChar (b64Char v)) \<or>
    toUrlChar (b64Char v) \<in> set ''-_''" if "v < 64" for v
    using that by (auto simp: b64Char_def toUrlChar_def is_upper_def is_lower_def is_digit_def)
  then show ?thesis by (auto simp: buf2base64url_eq list_all_iff dest: values64_bound)
qed

section \<open>Properties\<close>

text \<open>
  The blobs of a recovery survive the trip: a well-formed handoff encodes to text that can
  stand in a link as it is, and decodes to the same handoff; a friend's signature with at least
  one entry comes back with every byte, in the wire format for one transaction as in that for
  several; and a random nonce is a non-negative 63-bit number in decimal.
\<close>

theorem recovery_blobs_round_trip:
  assumes "h_version h = 4" "h_refractorTxHashes h \<noteq> []" "list_all TX_HASH_RE (h_refractorTxHashes h)"
    "h_relayKey h \<noteq> []" "h_relayBaseUrl h \<noteq> []" "typed_signature sig" "fs_entries sig \<noteq> []"
  shows "\<exists>s t. encodeRotationHandoff h = Inr s \<and> decodeRotationHandoff s = Inr h \<and>
    list_all (\<lambda>c. is_upper c \<or> is_lower c \<or> is_digit c \<or> c \<in> set ''-_'') s \<and>
    encodeFriendSignature sig = Inr t \<and> decodeFriendSignature t = Inr sig \<and>
    (\<exists>n. randomNonce random = showNat n \<and> n < 2 ^ 63 \<and> int n = bytesToBigIntBE random mod 2 ^ 63)"
proof -
  obtain s where s: "encodeRotationHandoff h = Inr s" "list_all (\<lambda>c. is_upper c \<or> is_lower c \<or> is_digit c \<or> c \<in> set ''-_'') s"
    using assms base64url_chars by (auto simp: encodeRotationHandoff_def blobOf_def)
  obtain t where t: "encodeFriendSignature sig = Inr t"
    using assms(7) by (cases "fs_entries sig" rule: remdups_adj.cases) (auto simp: encodeFriendSignature_def)
  let ?n = "nat (bytesToBigIntBE random mod 2 ^ 63)"
  have "?n < 2 ^ 63" by (simp add: nat_less_iff)
  moreover have "randomNonce random = showNat ?n" "int ?n = bytesToBigIntBE random mod 2 ^ 63"
    by (simp_all add: randomNonce_def randomNonceValue_mod showInt_def)
  ultimately show ?thesis
    using s t decode_encode_handoff [OF s(1)] decode_encode_signature [OF assms(6) t] by blast
qed

definition sample_handoff :: rotation_handoff where
  "sample_handoff = \<lparr>h_version = 4, h_account = ''CA'', h_recoveryRuleId = 1,
     h_refractorTxHashes = [replicate 64 CHR ''a''], h_expiration = 12345, h_relayKey = ''k'', h_relayBaseUrl = ''u''\<rparr>"

definition sample_friend_signature :: friend_signature where
  "sample_friend_signature = \<lparr>fs_friendAccount = Some (JStr ''CF''), fs_verifierAddress = Some (JStr ''CV''),
     fs_publicKey = [4, 5], fs_entries = replicate 2 \<lparr>fe_authenticatorData = [1], fe_clientDataJson = [2],
       fe_signature = [3], fe_nonce = Some (JStr ''7''), fe_expiration = Some (JNum 9)\<rparr>\<rparr>"

theorem recovery_blobs_round_trip_witness:
  "\<exists>s t. encodeRotationHandoff sample_handoff = Inr s \<and> decodeRotationHandoff s = Inr sample_handoff \<and>
     encodeFriendSignature sample_friend_signature = Inr t \<and> decodeFriendSignature t = Inr sample_friend_signature"
proof -
  have "list_all TX_HASH_RE (h_refractorTxHashes sample_handoff)" "typed_signature sample_friend_signature"
    by code_simp+
  from recovery_blobs_round_trip [OF _ _ this(1) _ _ this(2)] show ?thesis
    by (force simp: sample_handoff_def sample_friend_signature_def)
qed

end
