(* ===== verification/RecoveryServices.thy ===== *)
theory RecoveryServices
  imports Handoff Submit Url
begin

text \<open>
  What a key recovery uses besides the chain: transaction envelopes, the store of unsigned
  transactions (\<open>frontend/src/lib/refractorClient.ts\<close>) and the client of the signature mailbox
  (\<open>frontend/src/lib/relayClient.ts\<close>). The XDR codec of the Stellar SDK is the record
  \<open>envelope_lib\<close>; the network is a function from a request to its reply.
\<close>

section \<open>Envelopes\<close>

definition TESTNET :: string where
  "TESTNET = ''Test SDF Network ; September 2015''"

definition PUBLIC :: string where
  "PUBLIC = ''Public Global Stellar Network ; September 2015''"

type_synonym auth = "invocation_tree auth_entry"

datatype host_function = HostInvoke string string "scval list" | OtherHostFunction bytes

datatype tx_op = InvokeHostFunction host_function "auth list" | OtherOperation string

text \<open>\<open>'h\<close> is the rest of an envelope: its source, sequence, fee and resource data.\<close>

datatype 'h envelope = EnvelopeV1 'h "tx_op list" | OtherEnvelope 'h

record 'h envelope_lib =
  parseEnvelope :: "string \<Rightarrow> 'h envelope result"
  printEnvelope :: "'h envelope \<Rightarrow> string"
  envelopeHash :: "string \<Rightarrow> 'h envelope \<Rightarrow> bytes"
  funcXDR :: "host_function \<Rightarrow> string"
  entryXDR :: "auth \<Rightarrow> string"

definition first_op :: "'h envelope \<Rightarrow> (host_function \<times> auth list) result" where
  "first_op e =
     (case e of
        EnvelopeV1 _ (InvokeHostFunction hf auth # _) \<Rightarrow> Inr (hf, auth)
      | _ \<Rightarrow> Inl (TypeError ''not a host function invocation''))"

definition assembledRootAuthEntry :: "'h envelope_lib \<Rightarrow> string \<Rightarrow> auth result" where
  "assembledRootAuthEntry lib txXdr =
     bindR (parseEnvelope lib txXdr) (\<lambda>envelope.
     bindR (first_op envelope) (\<lambda>(_, auth).
       (case auth of
          [] \<Rightarrow> Inl (Error ''assembled rotation tx has no auth entry'')
        | root # _ \<Rightarrow> Inr root)))"

definition validateRecoveryTxEnvelope :: "'h envelope_lib \<Rightarrow> string \<Rightarrow> string \<Rightarrow> auth result" where
  "validateRecoveryTxEnvelope lib txXdr account =
     bindR (parseEnvelope lib txXdr) (\<lambda>envelope.
       (case envelope of
          OtherEnvelope _ \<Rightarrow> Inl (TypeError ''v1 not set'')
        | EnvelopeV1 _ [op] \<Rightarrow>
            (case op of
               OtherOperation _ \<Rightarrow> Inl (Error ''Recovery transaction is not a Soroban invocation.'')
             | InvokeHostFunction hostFn auth \<Rightarrow>
                 (case hostFn of
                    OtherHostFunction _ \<Rightarrow> Inl (Error ''Recovery transaction does not invoke a contract.'')
                  | HostInvoke target _ _ \<Rightarrow>
                      if target \<noteq> account then Inl (Error ''Refractor transaction targets a different account.'')
                      else (case auth of
                              [] \<Rightarrow> Inl (Error ''Recovery transaction has no auth entry.'')
                            | rootAuth # _ \<Rightarrow>
                                (case ae_creds rootAuth of
                                   None \<Rightarrow> Inl (Error ''Recovery transaction auth is not account-scoped.'')
                                 | Some creds \<Rightarrow>
                                     if cred_address creds \<noteq> account
                                     then Inl (Error ''Recovery transaction auth is for a different account.'')
                                     else Inr rootAuth))))
        | EnvelopeV1 _ _ \<Rightarrow> Inl (Error ''Recovery transaction must have one operation'')))"

section \<open>Refractor\<close>

definition DEFAULT_REFRACTOR_API_URL :: string where
  "DEFAULT_REFRACTOR_API_URL = ''https://api.refractor.space''"

definition DEFAULT_REFRACTOR_WEB_URL :: string where
  "DEFAULT_REFRACTOR_WEB_URL = ''https://refractor.space''"

record refractor_tx =
  rt_hash :: string
  rt_network :: string
  rt_xdr :: string
  rt_status :: "json option"
  rt_submitted :: "json option"

record store_args =
  sa_xdr :: string
  sa_network :: "string option"
  sa_submit :: "bool option"
  sa_expires :: "json option"

text \<open>A request: its method, URL and body.\<close>

type_synonym http = "string \<Rightarrow> string \<Rightarrow> string option \<Rightarrow> relay_reply result"

definition refractorWebTxUrl :: "string \<Rightarrow> string option \<Rightarrow> string" where
  "refractorWebTxUrl hash webUrl =
     stripTrailing CHR ''/'' (orElse webUrl DEFAULT_REFRACTOR_WEB_URL) @ ''/tx/'' @ hash"

definition apiUrl :: "string \<Rightarrow> string option \<Rightarrow> string" where
  "apiUrl path baseUrl = stripTrailing CHR ''/'' (orElse baseUrl DEFAULT_REFRACTOR_API_URL) @ path"

definition refractorJson :: "relay_reply \<Rightarrow> json result" where
  "refractorJson resp =
     (case reply_json resp of
        None \<Rightarrow> Inl (Error (if reply_ok resp then ''Refractor returned non-JSON'' else ''Refractor HTTP''))
      | Some body \<Rightarrow>
          if reply_ok resp then Inr body
          else Inl (Error (case field ''error'' body of
                 Some e \<Rightarrow> orElse (as_string (Some e)) ''error'' | None \<Rightarrow> ''Refractor HTTP'')))"

definition assertHash :: "string \<Rightarrow> unit result" where
  "assertHash hash = (if TX_HASH_RE hash then Inr () else Inl (Error ''Invalid Refractor transaction hash''))"

definition assertXdrMatchesHash :: "'h envelope_lib \<Rightarrow> string \<Rightarrow> string \<Rightarrow> string \<Rightarrow> unit result" where
  "assertXdrMatchesHash lib xdrBase64 network hash =
     (case parseEnvelope lib xdrBase64 of
        Inl _ \<Rightarrow> Inl (Error ''Refractor transaction XDR could not be parsed'')
      | Inr e \<Rightarrow>
          let computed = buf2hex (envelopeHash lib (if network = ''public'' then PUBLIC else TESTNET) e)
          in if toLowerCase computed \<noteq> toLowerCase hash
             then Inl (Error ''Refractor returned a transaction whose hash does not match the requested hash'')
             else Inr ())"

definition storeRefractorTransaction :: "http \<Rightarrow> store_args \<Rightarrow> string option \<Rightarrow> refractor_tx result" where
  "storeRefractorTransaction fetch args baseUrl =
     (let network = orElse (sa_network args) ''testnet'';
          payload = object ([(''network'', Some (JStr network)), (''xdr'', Some (JStr (sa_xdr args)))] @
            (if sa_submit args = Some True then [(''submit'', Some (JBool True))] else []) @
            (if sa_expires args \<noteq> None \<and> sa_expires args \<noteq> Some (JStr []) then [(''expires'', sa_expires args)] else []))
      in bindR (fetch ''POST'' (apiUrl ''/tx'' baseUrl) (Some (stringify payload))) (\<lambda>resp.
         bindR (refractorJson resp) (\<lambda>tx.
           if tx = JNull then Inl (TypeError ''Cannot read properties of null'')
           else (case as_string (field ''hash'' tx) of
                   None \<Rightarrow> Inl (Error ''Refractor response did not include a transaction hash'')
                 | Some hash \<Rightarrow>
                     bindR (assertHash hash) (\<lambda>_.
                       Inr \<lparr>rt_hash = hash, rt_network = orElse (as_string (field ''network'' tx)) network,
                            rt_xdr = orElse (as_string (field ''xdr'' tx)) (sa_xdr args),
                            rt_status = field ''status'' tx, rt_submitted = field ''submitted'' tx\<rparr>)))))"

text \<open>An assignment to a member of a primitive value throws.\<close>

definition fetchRefractorTransaction :: "'h envelope_lib \<Rightarrow> http \<Rightarrow> string \<Rightarrow> string option \<Rightarrow> refractor_tx result" where
  "fetchRefractorTransaction lib fetch hash baseUrl =
     bindR (assertHash hash) (\<lambda>_.
     bindR (fetch ''GET'' (apiUrl (''/tx/'' @ hash) baseUrl) None) (\<lambda>resp.
     bindR (refractorJson resp) (\<lambda>tx.
       if tx = JNull \<or> \<not> is_object tx then Inl (TypeError ''Cannot create property hash'')
       else
         let txHash = orElse (as_string (field ''hash'' tx)) hash
         in bindR (assertHash txHash) (\<lambda>_.
              (case (as_string (field ''xdr'' tx), as_string (field ''network'' tx)) of
                 (None, _) \<Rightarrow> Inl (Error ''Refractor transaction is missing XDR'')
               | (_, None) \<Rightarrow> Inl (Error ''Refractor transaction is missing network'')
               | (Some x, Some network) \<Rightarrow>
                   bindR (assertXdrMatchesHash lib x network hash) (\<lambda>_.
                     Inr \<lparr>rt_hash = txHash, rt_network = network, rt_xdr = x,
                          rt_status = field ''status'' tx, rt_submitted = field ''submitted'' tx\<rparr>))))))"

section \<open>The mailbox client\<close>

definition baseOf :: "string \<Rightarrow> string" where
  "baseOf u = stripTrailing CHR ''/'' u"

definition sigUrl :: "string \<Rightarrow> string \<Rightarrow> string \<Rightarrow> string" where
  "sigUrl relayBaseUrl path relayKey =
     baseOf relayBaseUrl @ ''/sig'' @ path @ ''?bucket='' @ encodeURIComponent relayKey"

definition putFriendSignature :: "http \<Rightarrow> string \<Rightarrow> string \<Rightarrow> string \<Rightarrow> string \<Rightarrow> unit result" where
  "putFriendSignature fetch relayBaseUrl relayKey friend blob =
     bindR (fetch ''PUT'' (sigUrl relayBaseUrl (CHR ''/'' # encodeURIComponent friend) relayKey) (Some blob)) (\<lambda>resp.
       if reply_ok resp then Inr () else Inl (Error ''Relay PUT failed''))"

definition listFriendSignatures :: "http \<Rightarrow> string \<Rightarrow> string \<Rightarrow> json list result" where
  "listFriendSignatures fetch relayBaseUrl relayKey =
     bindR (fetch ''GET'' (sigUrl relayBaseUrl [] relayKey) None) (\<lambda>resp.
       if \<not> reply_ok resp then Inl (Error ''Relay GET failed'')
       else (case reply_json resp of
               None \<Rightarrow> Inl (Error ''SyntaxError'')
             | Some JNull \<Rightarrow> Inl (TypeError ''Cannot read properties of null'')
             | Some body \<Rightarrow> Inr (case field ''signed'' body of Some (JArr vs) \<Rightarrow> vs | _ \<Rightarrow> [])))"

section \<open>Facts\<close>

lemma validated:
  assumes "validateRecoveryTxEnvelope lib txXdr account = Inr root"
  obtains h fn args rest creds where
    "parseEnvelope lib txXdr = Inr (EnvelopeV1 h [InvokeHostFunction (HostInvoke account fn args) (root # rest)])"
    "ae_creds root = Some creds" "cred_address creds = account"
proof -
  from assms obtain e where e: "parseEnvelope lib txXdr = Inr e"
    by (auto simp: validateRecoveryTxEnvelope_def result_simps)
  with assms obtain h op where "e = EnvelopeV1 h [op]"
    by (auto simp: validateRecoveryTxEnvelope_def split: envelope.split_asm list.split_asm)
  with e assms that show thesis
    by (auto simp: validateRecoveryTxEnvelope_def
        split: tx_op.split_asm host_function.split_asm list.split_asm option.split_asm if_split_asm)
qed

lemma fetched:
  assumes "fetchRefractorTransaction lib fetch hash baseUrl = Inr tx"
  obtains e where "parseEnvelope lib (rt_xdr tx) = Inr e" "TX_HASH_RE hash"
    "toLowerCase (buf2hex (envelopeHash lib (if rt_network tx = ''public'' then PUBLIC else TESTNET) e)) = toLowerCase hash"
  using assms
  by (auto simp: fetchRefractorTransaction_def assertXdrMatchesHash_def assertHash_def result_simps Let_def
      split: if_splits option.splits sum.splits)

lemma stored:
  assumes "storeRefractorTransaction fetch args baseUrl = Inr tx"
  shows "TX_HASH_RE (rt_hash tx)"
  using assms
  by (auto simp: storeRefractorTransaction_def assertHash_def result_simps Let_def split: if_splits option.splits)

end
