(* ===== verification/Recovery.thy ===== *)
theory Recovery
  imports RecoveryServices Chain
begin

text \<open>
  Recovering an account with the help of friends (\<open>frontend/src/lib/recoveryActions.ts\<close>): the
  owner stages the rotation transactions and shares a handoff, each friend signs, and the owner
  collects the signatures and submits. The stored staging is JSON in \<open>localStorage\<close>; a member
  that the code reads without a check is read at its type, and a value of another type, which
  the program never writes, reads as empty.
\<close>

section \<open>Finding the recovery rule\<close>

record recovery_rule =
  rr_ruleId :: nat
  rr_threshold :: "nat option"
  rr_friends :: "string list"

definition delegates :: "signer list \<Rightarrow> string list" where
  "delegates ss = concat (map (\<lambda>s. (case s of Delegated a \<Rightarrow> [a] | External _ _ \<Rightarrow> [])) ss)"

text \<open>The threshold of the first policy that answers with one.\<close>

fun policyThreshold :: "policy_state \<Rightarrow> string list \<Rightarrow> nat option" where
  "policyThreshold state [] = None"
| "policyThreshold state (p # ps) =
     (case Option.bind (state p) info_threshold of Some t \<Rightarrow> Some t | None \<Rightarrow> policyThreshold state ps)"

definition recoveryRuleInfo :: "(chain_rule \<Rightarrow> policy_state result) \<Rightarrow> string \<Rightarrow> chain_rule \<Rightarrow> recovery_rule list" where
  "recoveryRuleInfo fetchState account r =
     (if rule_policies r = [] \<or> context_of r \<noteq> CtxCallContract account then []
      else [\<lparr>rr_ruleId = rule_id r,
             rr_threshold = (case fetchState r of Inr state \<Rightarrow> policyThreshold state (rule_policies r) | Inl _ \<Rightarrow> None),
             rr_friends = delegates (rule_signers r)\<rparr>])"

definition findRecoveryRules ::
  "chain_rpc \<Rightarrow> (chain_rule \<Rightarrow> policy_state result) \<Rightarrow> string \<Rightarrow> recovery_rule list result" where
  "findRecoveryRules rpc fetchState account =
     bindR (fetchAllChainRules rpc account) (\<lambda>rules. Inr (concat (map (recoveryRuleInfo fetchState account) rules)))"

definition requireRecoveryRule ::
  "chain_rpc \<Rightarrow> (chain_rule \<Rightarrow> policy_state result) \<Rightarrow> string \<Rightarrow> int \<Rightarrow> recovery_rule result" where
  "requireRecoveryRule rpc fetchState account ruleId =
     bindR (findRecoveryRules rpc fetchState account) (\<lambda>rules.
       (case find (\<lambda>r. int (rr_ruleId r) = ruleId) rules of
          None \<Rightarrow> Inl (Error ''Recovery rule was not found'')
        | Some rule \<Rightarrow> Inr rule))"

text \<open>The ellipsis of the text is written as three dots.\<close>

definition describeFriendRecoveryRequest :: "recovery_rule \<Rightarrow> string \<Rightarrow> string" where
  "describeFriendRecoveryRequest rule account =
     (let n = length (rr_friends rule); threshold = orElse (rr_threshold rule) (max 1 ((n + 1) div 2))
      in ''Recovery request for '' @ take 8 account @ ''...'' @ drop (length account - 4) account @ '': '' @
         showNat threshold @ '' of '' @ showNat n @ '' friend'' @ (if n = 1 then [] else ''s'') @ '' required'')"

record repair_state =
  needsRepair :: bool
  signerCount :: nat
  rulePolicyCount :: nat

definition checkDefaultRuleRepair :: "chain_rpc \<Rightarrow> string \<Rightarrow> repair_state result" where
  "checkDefaultRuleRepair rpc account =
     bindR (fetchAllChainRules rpc account) (\<lambda>rules.
       (case find (\<lambda>r. rule_id r = 0) rules of
          None \<Rightarrow> Inr \<lparr>needsRepair = False, signerCount = 0, rulePolicyCount = 0\<rparr>
        | Some rule \<Rightarrow> Inr \<lparr>needsRepair = length (rule_signers rule) > 1 \<and> rule_policies rule = [],
            signerCount = length (rule_signers rule), rulePolicyCount = length (rule_policies rule)\<rparr>))"

definition enrichRotationRequest ::
  "chain_rpc \<Rightarrow> (string \<Rightarrow> string result) \<Rightarrow> string \<Rightarrow> rotation_request \<Rightarrow> rotation_request result" where
  "enrichRotationRequest rpc registryAddress account request =
     (if ruleState request \<noteq> None \<and> orElse (thresholdPolicyAddress request) [] \<noteq> [] then Inr request
      else (case bindR (fetchAllChainRules rpc account) (\<lambda>rules.
                   (case find (\<lambda>r. rule_id r = defaultRuleId request) rules of
                      None \<Rightarrow> Inl (Error ''rule not found'')
                    | Some rule \<Rightarrow>
                        bindR (registryAddress ''multisig-policy'') (\<lambda>address.
                          Inr (request\<lparr>ruleState := Some (int (length (rule_signers rule)), int (length (rule_policies rule))),
                                 thresholdPolicyAddress := Some address\<rparr>)))) of
              Inr enriched \<Rightarrow> Inr enriched
            | Inl _ \<Rightarrow>
                if addPasskey request \<noteq> None
                then Inl (Error ''Could not read the signing rule of the account'')
                else Inr request))"

section \<open>The staged rotation\<close>

record staged_tx =
  st_txXdr :: string
  st_refractorTxHash :: string
  st_refractorTxUrl :: string
  st_parentAuthDigestHex :: string
  st_relayerTxId :: "string option"
  st_submittedHash :: "string option"

record rotation_staging =
  rs_account :: string
  rs_recoveryRuleId :: int
  rs_threshold :: int
  rs_friends :: "string list"
  rs_txs :: "staged_tx list"
  rs_lastLedger :: int
  rs_expiration :: int
  rs_description :: string
  rs_relayKey :: string
  rs_collected :: "(string \<times> friend_signature) list"

definition stagingKey :: "string \<Rightarrow> string" where
  "stagingKey account = ''nido.'' @ account @ ''.recovery-rotation''"

definition serializeFriendSig :: "friend_signature \<Rightarrow> json" where
  "serializeFriendSig s =
     object [(''friendAccount'', fs_friendAccount s), (''verifierAddress'', fs_verifierAddress s),
       (''publicKey'', Some (jsonOfBytes (fs_publicKey s))),
       (''entries'', Some (JArr (map (\<lambda>e. object
          [(''authenticatorData'', Some (jsonOfBytes (fe_authenticatorData e))),
           (''clientDataJson'', Some (jsonOfBytes (fe_clientDataJson e))),
           (''signature'', Some (jsonOfBytes (fe_signature e))),
           (''nonce'', fe_nonce e), (''signatureExpirationLedger'', fe_expiration e)]) (fs_entries s))))]"

definition deserializeEntry :: "json \<Rightarrow> friend_entry result" where
  "deserializeEntry e =
     (if e = JNull then Inl (TypeError ''Cannot read properties of null'')
      else Inr \<lparr>fe_authenticatorData = bytesOfJson (field ''authenticatorData'' e),
             fe_clientDataJson = bytesOfJson (field ''clientDataJson'' e),
             fe_signature = bytesOfJson (field ''signature'' e),
             fe_nonce = field ''nonce'' e, fe_expiration = field ''signatureExpirationLedger'' e\<rparr>)"

definition legacyEntry :: "json \<Rightarrow> friend_entry" where
  "legacyEntry o' =
     \<lparr>fe_authenticatorData = bytesOfJson (field ''authenticatorData'' o'),
      fe_clientDataJson = bytesOfJson (field ''clientDataJson'' o'),
      fe_signature = bytesOfJson (field ''signature'' o'),
      fe_nonce = coalesce (field ''nonce'' o') (Some (JStr ''0'')),
      fe_expiration = coalesce (field ''signatureExpirationLedger'' o') (Some (JNum 0))\<rparr>"

definition deserializeFriendSig :: "json \<Rightarrow> friend_signature result" where
  "deserializeFriendSig o' =
     (if o' = JNull then Inl (TypeError ''Cannot read properties of null'')
      else bindR (case field ''entries'' o' of
                    Some (JArr es) \<Rightarrow> mapR deserializeEntry es
                  | _ \<Rightarrow> Inr [legacyEntry o'])
             (\<lambda>es. Inr \<lparr>fs_friendAccount = field ''friendAccount'' o', fs_verifierAddress = field ''verifierAddress'' o',
                fs_publicKey = bytesOfJson (field ''publicKey'' o'), fs_entries = es\<rparr>))"

definition txJson :: "staged_tx \<Rightarrow> json" where
  "txJson t = object [(''txXdr'', Some (JStr (st_txXdr t))), (''refractorTxHash'', Some (JStr (st_refractorTxHash t))),
     (''refractorTxUrl'', Some (JStr (st_refractorTxUrl t))),
     (''parentAuthDigestHex'', Some (JStr (st_parentAuthDigestHex t))),
     (''relayerTxId'', map_option JStr (st_relayerTxId t)), (''submittedHash'', map_option JStr (st_submittedHash t))]"

definition saveStaging :: "rotation_staging \<Rightarrow> local_storage \<Rightarrow> local_storage" where
  "saveStaging staging s =
     setItem (stagingKey (rs_account staging)) (stringify (object
       [(''account'', Some (JStr (rs_account staging))), (''recoveryRuleId'', Some (JNum (rs_recoveryRuleId staging))),
        (''threshold'', Some (JNum (rs_threshold staging))), (''friends'', Some (JArr (map JStr (rs_friends staging)))),
        (''txs'', Some (JArr (map txJson (rs_txs staging)))), (''lastLedger'', Some (JNum (rs_lastLedger staging))),
        (''parentSignatureExpirationLedger'', Some (JNum (rs_expiration staging))),
        (''description'', Some (JStr (rs_description staging))), (''relayKey'', Some (JStr (rs_relayKey staging))),
        (''collected'', Some (JObj (map (\<lambda>(k, v). (k, serializeFriendSig v)) (rs_collected staging))))])) s"

definition text_of :: "json option \<Rightarrow> string" where
  "text_of j = orElse (as_string j) []"

definition number_of :: "json option \<Rightarrow> int" where
  "number_of j = orElse (as_int j) 0"

definition readStagedTx :: "json \<Rightarrow> staged_tx option" where
  "readStagedTx t =
     (case (as_string (field ''txXdr'' t), as_string (field ''parentAuthDigestHex'' t),
            as_string (field ''refractorTxHash'' t), as_string (field ''refractorTxUrl'' t)) of
        (Some x, Some d, Some h, Some u) \<Rightarrow>
          Some \<lparr>st_txXdr = x, st_refractorTxHash = h, st_refractorTxUrl = u, st_parentAuthDigestHex = d,
             st_relayerTxId = as_string (field ''relayerTxId'' t), st_submittedHash = as_string (field ''submittedHash'' t)\<rparr>
      | _ \<Rightarrow> None)"

text \<open>Any exception while reading makes the result \<open>null\<close>.\<close>

definition readStaging :: "json \<Rightarrow> rotation_staging option" where
  "readStaging o' =
     (case mapR (\<lambda>(k, v). bindR (deserializeFriendSig v) (\<lambda>s. Inr (k, s)))
             (case field ''collected'' o' of Some (JObj kvs) \<Rightarrow> kvs | _ \<Rightarrow> []) of
        Inl _ \<Rightarrow> None
      | Inr collected \<Rightarrow>
          (case field ''txs'' o' of
             Some (JArr txs) \<Rightarrow>
               if list_all (\<lambda>t. readStagedTx t \<noteq> None) txs
               then Some \<lparr>rs_account = text_of (field ''account'' o'), rs_recoveryRuleId = number_of (field ''recoveryRuleId'' o'),
                      rs_threshold = number_of (field ''threshold'' o'),
                      rs_friends = orElse (strings_of (field ''friends'' o')) [],
                      rs_txs = map (\<lambda>t. the (readStagedTx t)) txs,
                      rs_lastLedger = number_of (field ''lastLedger'' o'),
                      rs_expiration = number_of (field ''parentSignatureExpirationLedger'' o'),
                      rs_description = text_of (field ''description'' o'), rs_relayKey = text_of (field ''relayKey'' o'),
                      rs_collected = collected\<rparr>
               else None
           | _ \<Rightarrow> None))"

definition loadStaging :: "local_storage \<Rightarrow> string \<Rightarrow> rotation_staging option" where
  "loadStaging s account =
     (case s (stagingKey account) of
        None \<Rightarrow> None
      | Some raw \<Rightarrow>
          if raw = [] then None
          else (case parse_json raw of Inl _ \<Rightarrow> None | Inr o' \<Rightarrow> readStaging o'))"

definition clearStaging :: "string \<Rightarrow> local_storage \<Rightarrow> local_storage" where
  "clearStaging account s = removeItem (stagingKey account) s"

definition getStaging :: "local_storage \<Rightarrow> string \<Rightarrow> rotation_staging option" where
  "getStaging s account = loadStaging s account"

definition collectedCount :: "rotation_staging \<Rightarrow> nat" where
  "collectedCount staging = length (rs_collected staging)"

definition RELAY_BASE_URL :: "string option \<Rightarrow> string" where
  "RELAY_BASE_URL env = orElse env ''https://relay.nido.fyi''"

definition encodeHandoffLink :: "string \<Rightarrow> rotation_handoff \<Rightarrow> string result" where
  "encodeHandoffLink origin handoff =
     bindR (encodeRotationHandoff handoff) (\<lambda>e. Inr (origin @ ''/security/recover/?handoff='' @ e))"

definition handoffOf :: "string option \<Rightarrow> rotation_staging \<Rightarrow> rotation_handoff" where
  "handoffOf env staging =
     \<lparr>h_version = 4, h_account = rs_account staging, h_recoveryRuleId = rs_recoveryRuleId staging,
      h_refractorTxHashes = map st_refractorTxHash (rs_txs staging), h_expiration = rs_expiration staging,
      h_relayKey = rs_relayKey staging, h_relayBaseUrl = RELAY_BASE_URL env\<rparr>"

definition recoveryHandoffLinkFromStaging :: "string option \<Rightarrow> string \<Rightarrow> rotation_staging \<Rightarrow> string result" where
  "recoveryHandoffLinkFromStaging env origin staging =
     (if \<not> list_all TX_HASH_RE (map st_refractorTxHash (rs_txs staging))
      then Inl (Error ''This staged recovery request predates Refractor handoffs. Please stage it again.'')
      else encodeHandoffLink origin (handoffOf env staging))"

text \<open>\<open>random\<close> is the sixteen bytes that \<open>crypto.getRandomValues\<close> filled in.\<close>

definition mintRelayKey :: "bytes \<Rightarrow> string" where
  "mintRelayKey random = stripTrailing CHR ''='' (map toUrlChar (btoa random))"


section \<open>What was staged is loaded\<close>

lemma text_number [simp]: "text_of (Some (JStr x)) = x" "number_of (Some (JNum n)) = n"
  by (simp_all add: text_of_def number_of_def)

text \<open>Any JSON value may stand in the members that are not checked.\<close>

definition wf_option :: "json option \<Rightarrow> bool" where
  "wf_option j \<longleftrightarrow> (case j of None \<Rightarrow> True | Some v \<Rightarrow> wf_json v)"

definition wf_entry :: "friend_entry \<Rightarrow> bool" where
  "wf_entry e \<longleftrightarrow> wf_option (fe_nonce e) \<and> wf_option (fe_expiration e)"

definition wf_signature :: "friend_signature \<Rightarrow> bool" where
  "wf_signature s \<longleftrightarrow> wf_option (fs_friendAccount s) \<and> wf_option (fs_verifierAddress s) \<and>
     list_all wf_entry (fs_entries s)"

lemma serialized:
  assumes "wf_signature s"
  shows "wf_json (serializeFriendSig s)" "deserializeFriendSig (serializeFriendSig s) = Inr s"
proof -
  let ?entry = "\<lambda>e. object [(''authenticatorData'', Some (jsonOfBytes (fe_authenticatorData e))),
           (''clientDataJson'', Some (jsonOfBytes (fe_clientDataJson e))),
           (''signature'', Some (jsonOfBytes (fe_signature e))),
           (''nonce'', fe_nonce e), (''signatureExpirationLedger'', fe_expiration e)]"
  have entry: "wf_json (?entry e) \<and> deserializeEntry (?entry e) = Inr e" if "wf_entry e" for e
    using that by (cases "fe_nonce e"; cases "fe_expiration e")
      (simp_all add: wf_entry_def wf_option_def deserializeEntry_def bytes_json)
  from assms have es: "list_all wf_entry (fs_entries s)" by (simp add: wf_signature_def)
  have "mapR deserializeEntry (map ?entry (fs_entries s)) = Inr (fs_entries s)"
    using es entry by (auto simp: mapR_Inr_iff list_all2_conv_all_nth list_all_length)
  then show "deserializeFriendSig (serializeFriendSig s) = Inr s"
    by (cases "fs_friendAccount s"; cases "fs_verifierAddress s")
      (simp_all add: deserializeFriendSig_def serializeFriendSig_def bytes_json)
  show "wf_json (serializeFriendSig s)"
    using assms entry by (cases "fs_friendAccount s"; cases "fs_verifierAddress s")
      (auto simp: wf_signature_def wf_option_def serializeFriendSig_def list_all_iff)
qed

lemma staged_tx_json: "wf_json (txJson t)" "readStagedTx (txJson t) = Some t"
  by (cases "st_relayerTxId t"; cases "st_submittedHash t"; simp add: txJson_def readStagedTx_def)+

definition storable :: "rotation_staging \<Rightarrow> bool" where
  "storable staging \<longleftrightarrow> distinct (map fst (rs_collected staging)) \<and>
     list_all (\<lambda>(_, sig). wf_signature sig) (rs_collected staging)"

lemma collected_read:
  assumes "list_all (\<lambda>(_, sig). wf_signature sig) kvs"
  shows "mapR (\<lambda>(k, v). bindR (deserializeFriendSig v) (\<lambda>s. Inr (k, s))) (map (\<lambda>(k, v). (k, serializeFriendSig v)) kvs) = Inr kvs"
  using assms by (induction kvs) (auto simp: serialized)

lemma loadStaging_saved:
  assumes "storable staging"
  shows "loadStaging (saveStaging staging s) (rs_account staging) = Some staging"
proof -
  let ?collected = "JObj (map (\<lambda>(k, v). (k, serializeFriendSig v)) (rs_collected staging))"
  let ?j = "object
       [(''account'', Some (JStr (rs_account staging))), (''recoveryRuleId'', Some (JNum (rs_recoveryRuleId staging))),
        (''threshold'', Some (JNum (rs_threshold staging))), (''friends'', Some (JArr (map JStr (rs_friends staging)))),
        (''txs'', Some (JArr (map txJson (rs_txs staging)))), (''lastLedger'', Some (JNum (rs_lastLedger staging))),
        (''parentSignatureExpirationLedger'', Some (JNum (rs_expiration staging))),
        (''description'', Some (JStr (rs_description staging))), (''relayKey'', Some (JStr (rs_relayKey staging))),
        (''collected'', Some ?collected)]"
  from assms have c: "distinct (map fst (rs_collected staging))"
    "list_all (\<lambda>(_, sig). wf_signature sig) (rs_collected staging)" by (simp_all add: storable_def)
  from c have "wf_json ?collected"
    by (auto simp: list_all_iff serialized case_prod_beta comp_def)
  then have "wf_json ?j" by (simp add: list_all_iff staged_tx_json)
  then have "parse_json (stringify ?j) = Inr ?j" by (rule json_round_trip)
  moreover have "map (\<lambda>t. the (readStagedTx t)) (map txJson (rs_txs staging)) = rs_txs staging"
    by (simp add: staged_tx_json comp_def)
  moreover have "readStaging ?j = Some staging"
    using collected_read [OF c(2)] by (simp add: readStaging_def strings_of_map list_all_iff staged_tx_json comp_def)
  ultimately show ?thesis by (simp add: loadStaging_def saveStaging_def setItem_def)
qed

end
