(* ===== verification/Rotation.thy ===== *)
theory Rotation
  imports Recovery
begin

text \<open>
  The three parties of a key rotation in \<open>frontend/src/lib/recoveryActions.ts\<close>: the owner
  prepares it (\<open>prepareRotation\<close>), a friend signs it (\<open>signRotationAsFriend\<close>), and the owner
  collects and submits (\<open>addFriendSignature\<close>, \<open>collectFromRelay\<close>, \<open>submitRotation\<close>). What is
  outside the program (the network, the authenticator, the Stellar SDK) is one record a party;
  an answer that changes between calls is indexed by the number of the transaction.
\<close>

section \<open>The owner prepares\<close>

definition PARENT_EXPIRATION_OFFSET :: nat where
  "PARENT_EXPIRATION_OFFSET = 10000"

text \<open>A ledger number or rule id as XDR writes it.\<close>

definition u32 :: "int \<Rightarrow> nat result" where
  "u32 n = (if 0 \<le> n \<and> n < 2 ^ 32 then Inr (nat n) else Inl (TypeError ''not a uint32''))"

record 'h owner_env =
  oe_xdr :: xdr_lib
  oe_envelopes :: "'h envelope_lib"
  oe_preimage :: "invocation_tree preimage"
  oe_client :: "(host_function, auth) client"
  oe_rpc :: chain_rpc
  oe_registry :: "string \<Rightarrow> string result"
  oe_relayerUrl :: string
  oe_simSource :: string
  oe_submitter :: "string result"
  oe_getAccount :: "string \<Rightarrow> unit result"
  oe_simulate :: "nat \<Rightarrow> (host_function, auth) xdr_op \<Rightarrow> (nat \<times> 'h envelope) result"
  oe_refractor :: "nat \<Rightarrow> http"
  oe_random :: bytes
  oe_relayBase :: "string option"
  oe_origin :: string

definition prepareSource :: "'h owner_env \<Rightarrow> unit result" where
  "prepareSource env =
     (if relayerEnabled (oe_relayerUrl env) then
        (if oe_simSource env = []
         then Inl (Error ''Relayer misconfigured: PUBLIC_RELAYER_URL is set but PUBLIC_RELAYER_SIM_SOURCE is not.'')
         else oe_getAccount env (oe_simSource env))
      else bindR (oe_submitter env) (oe_getAccount env))"

text \<open>The expiration is fixed by the first simulation; 0 stands for not fixed yet.\<close>

fun stageTxs ::
  "'h owner_env \<Rightarrow> nat \<Rightarrow> nat \<Rightarrow> nat \<Rightarrow> nat \<Rightarrow> (host_function, auth) xdr_op list \<Rightarrow> (nat \<times> nat \<times> staged_tx list) result" where
  "stageTxs env recoveryRuleId i lastLedger expiration [] = Inr (lastLedger, expiration, [])"
| "stageTxs env recoveryRuleId i lastLedger expiration (operation # operations) =
     bindR (oe_simulate env i (operation\<lparr>x_auth := []\<rparr>)) (\<lambda>(latestLedger, assembled).
       let lastLedger' = (if expiration = 0 then latestLedger else lastLedger);
           expiration' = (if expiration = 0 then latestLedger + PARENT_EXPIRATION_OFFSET else expiration);
           txXdr = printEnvelope (oe_envelopes env) assembled
       in bindR (assembledRootAuthEntry (oe_envelopes env) txXdr) (\<lambda>authEntry.
          bindR (buildAuthHashAt (oe_xdr env) (oe_preimage env) authEntry TESTNET expiration') (\<lambda>signaturePayload.
          bindR (storeRefractorTransaction (oe_refractor env i)
                   \<lparr>sa_xdr = txXdr, sa_network = Some ''testnet'', sa_submit = None, sa_expires = None\<rparr> None) (\<lambda>refractorTx.
          bindR (stageTxs env recoveryRuleId (Suc i) lastLedger' expiration' operations) (\<lambda>(l, x, txs).
            Inr (l, x, \<lparr>st_txXdr = txXdr, st_refractorTxHash = rt_hash refractorTx,
                   st_refractorTxUrl = refractorWebTxUrl (rt_hash refractorTx) None,
                   st_parentAuthDigestHex = buf2hex (computeAuthDigest (oe_xdr env) signaturePayload [recoveryRuleId]),
                   st_relayerTxId = None, st_submittedHash = None\<rparr> # txs))))))"

definition stageRotation ::
  "'h owner_env \<Rightarrow> string \<Rightarrow> nat \<Rightarrow> string list \<Rightarrow> int \<Rightarrow> rotation_request \<Rightarrow> rotation_staging result" where
  "stageRotation env account recoveryRuleId friends threshold request0 =
     bindR (enrichRotationRequest (oe_rpc env) (oe_registry env) account request0) (\<lambda>request.
     bindR (buildRotation (oe_client env) account recoveryRuleId request) (\<lambda>(operations, _, description).
     bindR (prepareSource env) (\<lambda>_.
     bindR (stageTxs env recoveryRuleId 0 0 0 operations) (\<lambda>(lastLedger, expiration, txs).
       Inr \<lparr>rs_account = account, rs_recoveryRuleId = int recoveryRuleId, rs_threshold = threshold,
            rs_friends = friends, rs_txs = txs, rs_lastLedger = int lastLedger, rs_expiration = int expiration,
            rs_description = description, rs_relayKey = mintRelayKey (oe_random env), rs_collected = []\<rparr>))))"

text \<open>The staging is saved before the link is encoded.\<close>

definition prepareRotation ::
  "'h owner_env \<Rightarrow> string \<Rightarrow> nat \<Rightarrow> string list \<Rightarrow> int \<Rightarrow> rotation_request \<Rightarrow> local_storage \<Rightarrow>
   local_storage \<times> (rotation_staging \<times> rotation_handoff \<times> string) result" where
  "prepareRotation env account recoveryRuleId friends threshold request s =
     (case stageRotation env account recoveryRuleId friends threshold request of
        Inl e \<Rightarrow> (s, Inl e)
      | Inr staging \<Rightarrow>
          let handoff = handoffOf (oe_relayBase env) staging
          in (saveStaging staging s,
              bindR (encodeHandoffLink (oe_origin env) handoff) (\<lambda>link. Inr (staging, handoff, link))))"

section \<open>A friend signs\<close>

record 'h friend_env =
  fv_xdr :: xdr_lib
  fv_envelopes :: "'h envelope_lib"
  fv_preimage :: "invocation_tree preimage"
  fv_int64 :: int64_reader
  fv_rpc :: chain_rpc
  fv_state :: "string \<Rightarrow> chain_rule \<Rightarrow> policy_state result"
  fv_registry :: "string \<Rightarrow> string result"
  fv_latest :: "nat result"
  fv_refractor :: "nat \<Rightarrow> http"
  fv_nonce :: "nat \<Rightarrow> bytes"
  fv_assert :: "nat \<Rightarrow> bytes \<Rightarrow> bytes \<Rightarrow> (bytes \<times> bytes \<times> bytes) option result"

text \<open>What the passkey is asked to sign for one transaction: the nonce, the expiration and the digest.\<close>

definition friendChallenge ::
  "'h friend_env \<Rightarrow> rotation_handoff \<Rightarrow> nat \<Rightarrow> nat \<Rightarrow> string \<Rightarrow> (string \<times> nat \<times> bytes) result" where
  "friendChallenge env handoff latest i hash =
     bindR (fetchRefractorTransaction (fv_envelopes env) (fv_refractor env i) hash None) (\<lambda>refractorTx.
     if rt_network refractorTx \<noteq> ''testnet'' then Inl (Error ''Unsupported Refractor network'')
     else
     bindR (validateRecoveryTxEnvelope (fv_envelopes env) (rt_xdr refractorTx) (h_account handoff)) (\<lambda>parentRootAuth.
     bindR (u32 (h_expiration handoff)) (\<lambda>expiration.
     bindR (buildAuthHashAt (fv_xdr env) (fv_preimage env) parentRootAuth TESTNET expiration) (\<lambda>parentSignaturePayload.
     bindR (u32 (h_recoveryRuleId handoff)) (\<lambda>ruleId.
       let parentAuthDigestHex = buf2hex (computeAuthDigest (fv_xdr env) parentSignaturePayload [ruleId]);
           nonce = randomNonce (fv_nonce env i);
           signatureExpirationLedger = latest + PARENT_EXPIRATION_OFFSET
       in bindR (friendSignaturePayload (fv_xdr env) (fv_preimage env) (fv_int64 env) (h_account handoff)
                   parentAuthDigestHex TESTNET nonce signatureExpirationLedger) (\<lambda>friendPayload.
            Inr (nonce, signatureExpirationLedger, computeAuthDigest (fv_xdr env) friendPayload [0])))))))"

definition signTx :: "'h friend_env \<Rightarrow> rotation_handoff \<Rightarrow> bytes \<Rightarrow> nat \<Rightarrow> nat \<Rightarrow> string \<Rightarrow> friend_entry result" where
  "signTx env handoff credentialId latest i hash =
     bindR (friendChallenge env handoff latest i hash) (\<lambda>(nonce, expiration, friendDigest).
     bindR (fv_assert env i credentialId friendDigest) (\<lambda>assertion.
       (case assertion of
          None \<Rightarrow> Inl (Error ''Passkey signing was cancelled.'')
        | Some (ad, cd, s) \<Rightarrow>
            bindR (parseAssertionResponse ad cd s) (\<lambda>parsed.
              Inr \<lparr>fe_authenticatorData = authenticatorData parsed, fe_clientDataJson = clientDataJson parsed,
                   fe_signature = sig_compact parsed, fe_nonce = Some (JStr nonce),
                   fe_expiration = Some (JNum (int expiration))\<rparr>))))"

fun signTxs :: "'h friend_env \<Rightarrow> rotation_handoff \<Rightarrow> bytes \<Rightarrow> nat \<Rightarrow> nat \<Rightarrow> string list \<Rightarrow> friend_entry list result" where
  "signTxs env handoff credentialId latest i [] = Inr []"
| "signTxs env handoff credentialId latest i (hash # hashes) =
     bindR (signTx env handoff credentialId latest i hash) (\<lambda>e.
     bindR (signTxs env handoff credentialId latest (Suc i) hashes) (\<lambda>es. Inr (e # es)))"

definition signRotationAsFriend ::
  "'h friend_env \<Rightarrow> local_storage \<Rightarrow> string \<Rightarrow> string \<Rightarrow> (string \<times> string) result" where
  "signRotationAsFriend env s friendAccount handoffEncoded =
     bindR (decodeRotationHandoff handoffEncoded) (\<lambda>handoff.
     bindR (requireRecoveryRule (fv_rpc env) (fv_state env (h_account handoff)) (h_account handoff)
              (h_recoveryRuleId handoff)) (\<lambda>rule.
     if friendAccount \<notin> set (rr_friends rule)
     then Inl (Error ''This recovery request does not list your account as a friend.'')
     else
     bindR (loadCredential s friendAccount) (\<lambda>found.
       (case found of
          None \<Rightarrow> Inl (Error ''No primary passkey registered for your account on this device.'')
        | Some (credentialId, publicKey) \<Rightarrow>
            bindR (fetchVerifierAddress (fv_rpc env) (fv_registry env) friendAccount) (\<lambda>verifierAddress.
            bindR (fv_latest env) (\<lambda>latest.
            bindR (signTxs env handoff credentialId latest 0 (h_refractorTxHashes handoff)) (\<lambda>entries.
            bindR (encodeFriendSignature
                     \<lparr>fs_friendAccount = Some (JStr friendAccount), fs_verifierAddress = Some (JStr verifierAddress),
                      fs_publicKey = hex2buf publicKey, fs_entries = entries\<rparr>) (\<lambda>blob.
              Inr (blob, describeFriendRecoveryRequest rule (h_account handoff))))))))))"

section \<open>The owner collects\<close>

definition addFriendSignature ::
  "local_storage \<Rightarrow> string \<Rightarrow> string \<Rightarrow> (local_storage \<times> rotation_staging) result" where
  "addFriendSignature s account blob =
     (case loadStaging s account of
        None \<Rightarrow> Inl (Error ''No rotation in progress for this account.'')
      | Some staging \<Rightarrow>
          bindR (decodeFriendSignature (trim blob)) (\<lambda>sig.
            (case as_string (fs_friendAccount sig) of
               Some friend \<Rightarrow>
                 if friend \<notin> set (rs_friends staging) then Inl (Error ''not one of the recovery friends'')
                 else if length (fs_entries sig) \<noteq> length (rs_txs staging)
                 then Inl (Error ''This reply covers another number of transactions'')
                 else
                   let staging' = staging\<lparr>rs_collected := putMember (rs_collected staging) friend sig\<rparr>
                   in Inr (saveStaging staging' s, staging')
             | None \<Rightarrow> Inl (Error ''not one of the recovery friends''))))"

text \<open>A blob that is not text makes \<open>trim\<close> throw; an entry that is \<open>null\<close> ends the collection.\<close>

fun collectAll ::
  "(local_storage \<Rightarrow> string \<Rightarrow> string \<Rightarrow> (local_storage \<times> rotation_staging) result) \<Rightarrow> string \<Rightarrow> json option set \<Rightarrow>
   local_storage \<Rightarrow> json list \<Rightarrow> json option list \<Rightarrow> local_storage \<times> json option list result" where
  "collectAll addFn account known s [] added = (s, Inr added)"
| "collectAll addFn account known s (e # es) added =
     (if e = JNull then (s, Inl (TypeError ''Cannot destructure null''))
      else if field ''friend'' e \<in> known then collectAll addFn account known s es added
      else (case as_string (field ''blob'' e) of
              None \<Rightarrow> collectAll addFn account known s es added
            | Some blob \<Rightarrow>
                (case addFn s account blob of
                   Inr (s', _) \<Rightarrow> collectAll addFn account known s' es (added @ [field ''friend'' e])
                 | Inl _ \<Rightarrow> collectAll addFn account known s es added)))"

definition collectFromRelay ::
  "http \<Rightarrow> local_storage \<Rightarrow> string \<Rightarrow> string \<Rightarrow> string \<Rightarrow> json option set \<Rightarrow> local_storage \<times> json option list result" where
  "collectFromRelay fetch s account relayBaseUrl relayKey known =
     (case listFriendSignatures fetch relayBaseUrl relayKey of
        Inl e \<Rightarrow> (s, Inl e)
      | Inr all \<Rightarrow> collectAll addFriendSignature account known s all [])"

definition submitFriendSignatureToRelay :: "http \<Rightarrow> string \<Rightarrow> string \<Rightarrow> string \<Rightarrow> string \<Rightarrow> unit result" where
  "submitFriendSignatureToRelay fetch relayBaseUrl relayKey friendAccount blob =
     putFriendSignature fetch relayBaseUrl relayKey friendAccount blob"

section \<open>The owner submits\<close>

definition textOrThrow :: "json option \<Rightarrow> string result" where
  "textOrThrow j = (case as_string j of Some s \<Rightarrow> Inr s | None \<Rightarrow> Inl (TypeError ''not a string''))"

definition ledgerOf :: "json option \<Rightarrow> nat result" where
  "ledgerOf j = (case as_int j of Some n \<Rightarrow> u32 n | None \<Rightarrow> Inl (TypeError ''not a number''))"

definition buildFriendAuthEntry ::
  "xdr_lib \<Rightarrow> int64_reader \<Rightarrow> string \<Rightarrow> friend_signature \<Rightarrow> friend_entry \<Rightarrow> string \<Rightarrow> auth result" where
  "buildFriendAuthEntry lib int64 recoveringAccount fs entry parentAuthDigestHex =
     bindR (buildFriendInvocation lib recoveringAccount parentAuthDigestHex) (\<lambda>invocation.
     bindR (textOrThrow (fs_verifierAddress fs)) (\<lambda>verifier.
     bindR (buildAuthPayloadScVal lib
              \<lparr>ap_rule_ids = [0], ap_signers = [ExternalSig verifier (fs_publicKey fs)
                 \<lparr>authenticatorData = fe_authenticatorData entry, clientDataJson = fe_clientDataJson entry,
                  sig_compact = fe_signature entry\<rparr>]\<rparr>) (\<lambda>friendAuthPayload.
     bindR (textOrThrow (fs_friendAccount fs)) (\<lambda>friend.
     bindR (addressScVal lib friend) (\<lambda>_.
     bindR (int64 (fe_nonce entry)) (\<lambda>nonce.
     bindR (ledgerOf (fe_expiration entry)) (\<lambda>expiration.
       Inr \<lparr>ae_creds = Some \<lparr>cred_address = friend, cred_nonce = nonce, cred_expiration = expiration,
               cred_signature = Some friendAuthPayload\<rparr>,
            ae_invocation = invocation\<rparr>)))))))"

text \<open>An entry that is not there is \<open>undefined\<close>, and reading its members throws.\<close>

definition contributorEntries ::
  "xdr_lib \<Rightarrow> int64_reader \<Rightarrow> rotation_staging \<Rightarrow> friend_signature list \<Rightarrow> nat \<Rightarrow> staged_tx \<Rightarrow> auth list result" where
  "contributorEntries lib int64 staging contributors i staged =
     mapR (\<lambda>c. (case arr (fs_entries c) (int i) of
        None \<Rightarrow> Inl (TypeError ''Cannot read properties of undefined'')
      | Some e \<Rightarrow> buildFriendAuthEntry lib int64 (rs_account staging) c e (st_parentAuthDigestHex staged))) contributors"

definition parentPayload :: "xdr_lib \<Rightarrow> rotation_staging \<Rightarrow> friend_signature list \<Rightarrow> scval result" where
  "parentPayload lib staging contributors =
     bindR (u32 (rs_recoveryRuleId staging)) (\<lambda>ruleId.
     bindR (mapR (\<lambda>c. bindR (textOrThrow (fs_friendAccount c)) (\<lambda>a. Inr (DelegatedSig a None))) contributors) (\<lambda>signers.
       buildAuthPayloadScVal lib \<lparr>ap_rule_ids = [ruleId], ap_signers = signers\<rparr>))"

definition signedEnvelope ::
  "xdr_lib \<Rightarrow> 'h envelope_lib \<Rightarrow> int64_reader \<Rightarrow> rotation_staging \<Rightarrow> friend_signature list \<Rightarrow> nat \<Rightarrow> staged_tx \<Rightarrow>
   'h envelope result" where
  "signedEnvelope lib elib int64 staging contributors i staged =
     bindR (parentPayload lib staging contributors) (\<lambda>parentAuthPayload.
     bindR (parseEnvelope elib (st_txXdr staged)) (\<lambda>envelope.
       (case envelope of
          EnvelopeV1 h (InvokeHostFunction hf (rootAuth # rest) # ops) \<Rightarrow>
            (case ae_creds rootAuth of
               None \<Rightarrow> Inl (TypeError ''address not set'')
             | Some rootCreds \<Rightarrow>
                 bindR (u32 (rs_expiration staging)) (\<lambda>expiration.
                 bindR (contributorEntries lib int64 staging contributors i staged) (\<lambda>friendEntries.
                   Inr (EnvelopeV1 h (InvokeHostFunction hf
                     (rootAuth\<lparr>ae_creds := Some (rootCreds\<lparr>cred_expiration := expiration,
                         cred_signature := Some parentAuthPayload\<rparr>)\<rparr> # friendEntries) # ops)))))
        | _ \<Rightarrow> Inl (TypeError ''no auth entry''))))"

definition extractFuncAndAuth :: "'h envelope_lib \<Rightarrow> 'h envelope \<Rightarrow> (string \<times> string list) result" where
  "extractFuncAndAuth lib e =
     bindR (first_op e) (\<lambda>(hf, auth). Inr (funcXDR lib hf, map (entryXDR lib) auth))"

text \<open>
  \<open>su_fetch i\<close> is the network while the \<open>i\<close>-th transaction is handed to the relayer, \<open>su_poll i k\<close>
  during the \<open>k\<close>-th poll for it.
\<close>

record ('h, 'd) submit_env =
  su_xdr :: xdr_lib
  su_envelopes :: "'h envelope_lib"
  su_int64 :: int64_reader
  su_relayerUrl :: string
  su_fetch :: "nat \<Rightarrow> fetch"
  su_poll :: "nat \<Rightarrow> nat \<Rightarrow> fetch"
  su_submitter :: "string result"
  su_build :: "nat \<Rightarrow> tx_op list \<Rightarrow> (tx_op, 'd) transaction result"
  su_server :: "nat \<Rightarrow> (tx_op, 'd) soroban_server"

definition thrown :: "'a result \<Rightarrow> relayer_error + 'a" where
  "thrown r = (case r of Inl e \<Rightarrow> Inl (NetworkError e) | Inr x \<Rightarrow> Inr x)"

definition confirmedHash :: "('h, 'd) submit_env \<Rightarrow> nat \<Rightarrow> string \<Rightarrow> relayer_error + string" where
  "confirmedHash env i transactionId =
     bindR (waitForConfirmation (\<lambda>k. getRelayerTransaction (su_poll env i k) transactionId (su_relayerUrl env)) None)
       (\<lambda>confirmed.
         if \<not> truthy (field ''hash'' confirmed)
         then Inl (NetworkError (Error ''Relayer confirmed without a transaction hash''))
         else Inr (text_of (field ''hash'' confirmed)))"

definition relaySubmit :: "('h, 'd) submit_env \<Rightarrow> nat \<Rightarrow> 'h envelope \<Rightarrow> relayer_error + json" where
  "relaySubmit env i e =
     bindR (thrown (bindR (parseEnvelope (su_envelopes env) (printEnvelope (su_envelopes env) e))
                     (extractFuncAndAuth (su_envelopes env)))) (\<lambda>(func, auth).
       submitSorobanTransaction (su_fetch env i) func auth None (su_relayerUrl env))"

definition classicSubmit :: "('h, 'd) submit_env \<Rightarrow> nat \<Rightarrow> string \<Rightarrow> 'h envelope \<Rightarrow> string result" where
  "classicSubmit env i submitter e =
     bindR (first_op e) (\<lambda>(hf, auth).
     bindR (su_build env i [InvokeHostFunction hf auth]) (\<lambda>rebuilt.
       (case simulate_enforce (su_server env i) rebuilt of
          Inl _ \<Rightarrow> Inl (Error ''Final rotation simulation failed'')
        | Inr newSorobanData \<Rightarrow>
            let refitted = rebuilt\<lparr>tx_fee := tx_fee rebuilt + snd newSorobanData,
                  tx_sorobanData := Some newSorobanData, tx_signers := [submitter]\<rparr>;
                (status, hash) = send_transaction (su_server env i) refitted
            in if status = SendError then Inl (Error ''Submit rejected'')
               else if pollResult (get_transaction (su_server env i) hash) 30 0 \<noteq> GetSuccess
               then Inl (Error ''Rotation tx not successful'')
               else Inr hash)))"

definition setTx :: "rotation_staging \<Rightarrow> nat \<Rightarrow> (staged_tx \<Rightarrow> staged_tx) \<Rightarrow> rotation_staging" where
  "setTx staging i f = staging\<lparr>rs_txs := (rs_txs staging)[i := f (rs_txs staging ! i)]\<rparr>"

definition isSet :: "string option \<Rightarrow> bool" where
  "isSet x \<longleftrightarrow> orElse x [] \<noteq> []"

text \<open>The staging and its stored copy advance together; the result is the hash of the transaction.\<close>

type_synonym submit_state = "rotation_staging \<times> local_storage"

definition confirmTx :: "submit_state \<Rightarrow> nat \<Rightarrow> relayer_error + string \<Rightarrow> submit_state \<times> (relayer_error + string)" where
  "confirmTx st i r =
     (case r of
        Inl e \<Rightarrow> (st, Inl e)
      | Inr hash \<Rightarrow>
          let staging' = setTx (fst st) i (\<lambda>t. t\<lparr>st_submittedHash := Some hash\<rparr>)
          in ((staging', saveStaging staging' (snd st)), Inr hash))"

definition relayTx ::
  "('h, 'd) submit_env \<Rightarrow> submit_state \<Rightarrow> nat \<Rightarrow> 'h envelope \<Rightarrow> submit_state \<times> (relayer_error + string)" where
  "relayTx env st i e =
     (let staged = rs_txs (fst st) ! i in
      if isSet (st_relayerTxId staged) then confirmTx st i (confirmedHash env i (orElse (st_relayerTxId staged) []))
      else (case relaySubmit env i e of
              Inl err \<Rightarrow> (st, Inl err)
            | Inr submitted \<Rightarrow>
                let accepted = truthy (field ''transactionId'' submitted);
                    transactionId = text_of (field ''transactionId'' submitted);
                    st' = (if accepted
                           then let staging' = setTx (fst st) i (\<lambda>t. t\<lparr>st_relayerTxId := Some transactionId\<rparr>)
                                in (staging', saveStaging staging' (snd st))
                           else st)
                in if truthy (field ''hash'' submitted) then confirmTx st' i (Inr (text_of (field ''hash'' submitted)))
                   else if \<not> accepted
                   then (st', Inl (NetworkError (Error ''Relayer accepted the recovery transaction but returned no transaction id'')))
                   else confirmTx st' i (confirmedHash env i transactionId)))"

definition submitTx ::
  "('h, 'd) submit_env \<Rightarrow> string \<Rightarrow> friend_signature list \<Rightarrow> submit_state \<Rightarrow> nat \<Rightarrow> submit_state \<times> (relayer_error + string)" where
  "submitTx env submitter contributors st i =
     (let staged = rs_txs (fst st) ! i in
      if isSet (st_submittedHash staged) then (st, Inr (orElse (st_submittedHash staged) []))
      else (case signedEnvelope (su_xdr env) (su_envelopes env) (su_int64 env) (fst st) contributors i staged of
              Inl e \<Rightarrow> (st, Inl (NetworkError e))
            | Inr e \<Rightarrow>
                if relayerEnabled (su_relayerUrl env) then relayTx env st i e
                else confirmTx st i (thrown (classicSubmit env i submitter e))))"

fun submitTxs ::
  "('h, 'd) submit_env \<Rightarrow> string \<Rightarrow> friend_signature list \<Rightarrow> submit_state \<Rightarrow> nat list \<Rightarrow> string \<Rightarrow>
   submit_state \<times> (relayer_error + string)" where
  "submitTxs env submitter contributors st [] lastHash = (st, Inr lastHash)"
| "submitTxs env submitter contributors st (i # is') lastHash =
     (case submitTx env submitter contributors st i of
        (st', Inl e) \<Rightarrow> (st', Inl e)
      | (st', Inr hash) \<Rightarrow> submitTxs env submitter contributors st' is' hash)"

definition submitRotation ::
  "('h, 'd) submit_env \<Rightarrow> local_storage \<Rightarrow> string \<Rightarrow> local_storage \<times> (relayer_error + string)" where
  "submitRotation env s account =
     (case loadStaging s account of
        None \<Rightarrow> (s, Inl (NetworkError (Error ''No rotation in progress.'')))
      | Some staging \<Rightarrow>
          let contributors = map snd (rs_collected staging)
          in if int (length contributors) < rs_threshold staging
             then (s, Inl (NetworkError (Error ''Need more friend signatures'')))
             else if list_ex (\<lambda>c. length (fs_entries c) \<noteq> length (rs_txs staging)) contributors
             then (s, Inl (NetworkError (Error ''A reply covers another number of transactions'')))
             else (case (if relayerEnabled (su_relayerUrl env) then Inr [] else su_submitter env) of
                     Inl e \<Rightarrow> (s, Inl (NetworkError e))
                   | Inr submitter \<Rightarrow>
                       (case submitTxs env submitter contributors (staging, s) [0..<length (rs_txs staging)] [] of
                          (st, Inl e) \<Rightarrow> (snd st, Inl e)
                        | (st, Inr hash) \<Rightarrow> (clearStaging account (snd st), Inr hash))))"

section \<open>Every party signs the same digests\<close>

text \<open>The digest the account will demand for a staged transaction.\<close>

definition staged_digest_ok ::
  "xdr_lib \<Rightarrow> invocation_tree preimage \<Rightarrow> 'h envelope_lib \<Rightarrow> rotation_staging \<Rightarrow> staged_tx \<Rightarrow> bool" where
  "staged_digest_ok lib pre elib staging t \<longleftrightarrow>
     (\<exists>root payload. assembledRootAuthEntry elib (st_txXdr t) = Inr root \<and>
        buildAuthHashAt lib pre root TESTNET (nat (rs_expiration staging)) = Inr payload \<and>
        st_parentAuthDigestHex t = buf2hex (computeAuthDigest lib payload [nat (rs_recoveryRuleId staging)]))"

lemma stageTxs_frozen:
  assumes "stageTxs env ruleId i l x ops = Inr (l', x', txs)" "x \<noteq> 0 \<or> ops = []"
  shows "x' = x"
  using assms by (induction ops arbitrary: i l l' x' txs) (fastforce simp: result_simps Let_def split: prod.splits)+

lemma stageTxs_digests:
  assumes "stageTxs env ruleId i l x ops = Inr (l', x', txs)" "t \<in> set txs"
  shows "\<exists>root payload. assembledRootAuthEntry (oe_envelopes env) (st_txXdr t) = Inr root \<and>
    buildAuthHashAt (oe_xdr env) (oe_preimage env) root TESTNET x' = Inr payload \<and>
    st_parentAuthDigestHex t = buf2hex (computeAuthDigest (oe_xdr env) payload [ruleId]) \<and>
    TX_HASH_RE (st_refractorTxHash t)"
  using assms
proof (induction ops arbitrary: i l x l' x' txs)
  case (Cons oper ops)
  from Cons.prems(1) obtain latest assembled where sim: "oe_simulate env i (oper\<lparr>x_auth := []\<rparr>) = Inr (latest, assembled)"
    by (auto simp: result_simps)
  define l1 where "l1 = (if x = 0 then latest else l)"
  define x1 where "x1 = (if x = 0 then latest + PARENT_EXPIRATION_OFFSET else x)"
  define txXdr where "txXdr = printEnvelope (oe_envelopes env) assembled"
  from Cons.prems(1) sim obtain root payload r ts where s: "assembledRootAuthEntry (oe_envelopes env) txXdr = Inr root"
    "buildAuthHashAt (oe_xdr env) (oe_preimage env) root TESTNET x1 = Inr payload"
    "storeRefractorTransaction (oe_refractor env i)
       \<lparr>sa_xdr = txXdr, sa_network = Some ''testnet'', sa_submit = None, sa_expires = None\<rparr> None = Inr r"
    "stageTxs env ruleId (Suc i) l1 x1 ops = Inr (l', x', ts)"
    "txs = \<lparr>st_txXdr = txXdr, st_refractorTxHash = rt_hash r,
                   st_refractorTxUrl = refractorWebTxUrl (rt_hash r) None,
                   st_parentAuthDigestHex = buf2hex (computeAuthDigest (oe_xdr env) payload [ruleId]),
                   st_relayerTxId = None, st_submittedHash = None\<rparr> # ts"
    unfolding l1_def x1_def txXdr_def by (auto simp: result_simps Let_def split: prod.splits)
  have "x1 \<noteq> 0" by (simp add: x1_def PARENT_EXPIRATION_OFFSET_def)
  with stageTxs_frozen [OF s(4)] have "x' = x1" by simp
  with s Cons.IH [OF s(4)] Cons.prems(2) stored [OF s(3)] show ?case by auto
qed simp


lemma u32_Inr [simp]: "u32 n = Inr m \<longleftrightarrow> 0 \<le> n \<and> n < 2 ^ 32 \<and> m = nat n"
  by (auto simp: u32_def)

lemma assembledRoot:
  "assembledRootAuthEntry lib x = Inr root \<longleftrightarrow>
     (\<exists>h hf rest ops. parseEnvelope lib x = Inr (EnvelopeV1 h (InvokeHostFunction hf (root # rest) # ops)))"
  by (auto simp: assembledRootAuthEntry_def first_op_def result_simps
      split: envelope.split_asm list.split_asm tx_op.split_asm prod.split_asm)

lemma staged_rotation:
  assumes "stageRotation env account ruleId friends threshold request = Inr staging" "t \<in> set (rs_txs staging)"
  shows "staged_digest_ok (oe_xdr env) (oe_preimage env) (oe_envelopes env) staging t \<and>
    TX_HASH_RE (st_refractorTxHash t) \<and> rs_account staging = account \<and> rs_recoveryRuleId staging = int ruleId \<and>
    rs_collected staging = []"
proof -
  from assms(1) obtain ops l x txs where s: "stageTxs env ruleId 0 0 0 ops = Inr (l, x, txs)" "rs_txs staging = txs"
    "rs_expiration staging = int x" "rs_recoveryRuleId staging = int ruleId" "rs_account staging = account"
    "rs_collected staging = []"
    by (auto simp: stageRotation_def result_simps split: prod.splits)
  from stageTxs_digests [OF s(1), of t] assms(2) s show ?thesis by (auto simp: staged_digest_ok_def)
qed

lemma friend_entry_parts:
  assumes "buildFriendAuthEntry lib int64 account c e hex = Inr f"
  obtains payload friend nonce x where
    "ae_invocation f = Invocation (ContractFn account ''__check_auth'' [ScvBytes (hex2buf hex)]) []"
    "ae_creds f = Some \<lparr>cred_address = friend, cred_nonce = nonce, cred_expiration = x, cred_signature = Some payload\<rparr>"
    "payload_rule_ids payload = Some (ruleIdsScVal [0])" "int64 (fe_nonce e) = Inr nonce" "ledgerOf (fe_expiration e) = Inr x"
    "fs_friendAccount c = Some (JStr friend)"
  using assms
  by (auto simp: buildFriendAuthEntry_def buildFriendInvocation_def textOrThrow_def result_simps
      split: option.split_asm dest!: as_string_SomeD elim!: payload_parts)

lemma friend_entry_digest:
  assumes "buildFriendAuthEntry lib int64 account c e hex = Inr f"
    and "fe_nonce e = Some (JStr nonce)" "fe_expiration e = Some (JNum (int x))"
    and "friendSignaturePayload lib pre int64 account hex TESTNET nonce x = Inr payload"
  shows "contract_digest lib pre TESTNET f = Some (computeAuthDigest lib payload [0])"
proof -
  from assms(1) obtain sig friend n y where f:
    "ae_invocation f = Invocation (ContractFn account ''__check_auth'' [ScvBytes (hex2buf hex)]) []"
    "ae_creds f = Some \<lparr>cred_address = friend, cred_nonce = n, cred_expiration = y, cred_signature = Some sig\<rparr>"
    "payload_rule_ids sig = Some (ruleIdsScVal [0])" "int64 (fe_nonce e) = Inr n" "ledgerOf (fe_expiration e) = Inr y"
    by (rule friend_entry_parts)
  with assms(2-4) have "y = x"
    "payload = sha256 lib (pre (sha256 lib (utf8 TESTNET)) n x (ae_invocation f))"
    by (auto simp: ledgerOf_def friendSignaturePayload_def buildFriendInvocation_def result_simps)
  with f show ?thesis by (simp add: contract_digest_def computeAuthDigest_def)
qed

section \<open>Properties\<close>

text \<open>
  C5. What a friend's passkey signs is what the chain demands for the staged rotation. The
  friend fetches the transaction by the hash in the handoff and signs a challenge; the entry
  that the owner later builds from the friend's reply invokes \<open>__check_auth\<close> of the recovering
  account on exactly the digest that the account demands for the staged transaction, and its own
  digest is the challenge the passkey signed. The only way out is that another transaction with
  the same hash was served.
\<close>

theorem friend_authorizes_staged_rotation:
  assumes staged: "stageRotation oenv account ruleId friends threshold request = Inr staging" "t \<in> set (rs_txs staging)"
    and platform: "fv_xdr fenv = oe_xdr oenv" "fv_preimage fenv = oe_preimage oenv" "fv_envelopes fenv = oe_envelopes oenv"
    and hash: "parseEnvelope (oe_envelopes oenv) (st_txXdr t) = Inr e0"
      "st_refractorTxHash t = buf2hex (envelopeHash (oe_envelopes oenv) TESTNET e0)"
    and friend: "friendChallenge fenv (handoffOf base staging) latest i (st_refractorTxHash t) = Inr (nonce, x, challenge)"
    and reply: "fe_nonce e = Some (JStr nonce)" "fe_expiration e = Some (JNum (int x))"
    and built: "buildFriendAuthEntry (oe_xdr oenv) (fv_int64 fenv) account c e (st_parentAuthDigestHex t) = Inr f"
  shows "(\<exists>d root c. assembledRootAuthEntry (oe_envelopes oenv) (st_txXdr t) = Inr root \<and> ae_creds root = Some c \<and>
        (\<forall>v. payload_rule_ids v = Some (ruleIdsScVal [ruleId]) \<longrightarrow>
           contract_digest (oe_xdr oenv) (oe_preimage oenv) TESTNET
             (root\<lparr>ae_creds := Some (c\<lparr>cred_expiration := nat (rs_expiration staging), cred_signature := Some v\<rparr>)\<rparr>) = Some d) \<and>
        ae_invocation f = Invocation (ContractFn account ''__check_auth'' [ScvBytes d]) [] \<and>
        contract_digest (oe_xdr oenv) (oe_preimage oenv) TESTNET f = Some challenge) \<or>
    (\<exists>tx e1. fetchRefractorTransaction (oe_envelopes oenv) (fv_refractor fenv i) (st_refractorTxHash t) None = Inr tx \<and>
       parseEnvelope (oe_envelopes oenv) (rt_xdr tx) = Inr e1 \<and> e1 \<noteq> e0 \<and>
       toLowerCase (buf2hex (envelopeHash (oe_envelopes oenv) TESTNET e1)) =
       toLowerCase (buf2hex (envelopeHash (oe_envelopes oenv) TESTNET e0)))"
proof -
  let ?E = "oe_envelopes oenv" and ?L = "oe_xdr oenv" and ?P = "oe_preimage oenv"
  note st = staged_rotation [OF staged]
  from friend obtain tx root' payload p where fr:
    "fetchRefractorTransaction ?E (fv_refractor fenv i) (st_refractorTxHash t) None = Inr tx" "rt_network tx = ''testnet''"
    "validateRecoveryTxEnvelope ?E (rt_xdr tx) account = Inr root'"
    "buildAuthHashAt ?L ?P root' TESTNET (nat (rs_expiration staging)) = Inr payload"
    "friendSignaturePayload ?L ?P (fv_int64 fenv) account (buf2hex (computeAuthDigest ?L payload [ruleId])) TESTNET nonce x = Inr p"
    "challenge = computeAuthDigest ?L p [0]"
    using st platform by (auto simp: friendChallenge_def handoffOf_def result_simps Let_def split: if_splits prod.splits)
  from fetched [OF fr(1)] fr(2) obtain e1 where e1: "parseEnvelope ?E (rt_xdr tx) = Inr e1"
    "toLowerCase (buf2hex (envelopeHash ?E TESTNET e1)) = toLowerCase (st_refractorTxHash t)" by auto
  show ?thesis
  proof (cases "e1 = e0")
    case False
    with e1 hash fr(1) show ?thesis by metis
  next
    case True
    from validated [OF fr(3)] obtain h fn args rest creds where v:
      "e1 = EnvelopeV1 h [InvokeHostFunction (HostInvoke account fn args) (root' # rest)]" "ae_creds root' = Some creds"
      using e1(1) by (metis sum.inject(2))
    with True hash have root: "assembledRootAuthEntry ?E (st_txXdr t) = Inr root'" by (auto simp: assembledRoot)
    with st fr(4) have hex: "st_parentAuthDigestHex t = buf2hex (computeAuthDigest ?L payload [ruleId])"
      by (auto simp: staged_digest_ok_def)
    have "contract_digest ?L ?P TESTNET f = Some challenge"
      using friend_entry_digest [OF built reply] fr(5,6) hex by simp
    moreover have "ae_invocation f = Invocation (ContractFn account ''__check_auth'' [ScvBytes (computeAuthDigest ?L payload [ruleId])]) []"
      using built hex by (elim friend_entry_parts) (simp add: hex2buf_buf2hex)
    moreover have "contract_digest ?L ?P TESTNET
        (root'\<lparr>ae_creds := Some (creds\<lparr>cred_expiration := nat (rs_expiration staging), cred_signature := Some v\<rparr>)\<rparr>) =
        Some (computeAuthDigest ?L payload [ruleId])" if "payload_rule_ids v = Some (ruleIdsScVal [ruleId])" for v
      using that fr(4) v(2) by (simp add: contract_digest_def buildAuthHashAt_def computeAuthDigest_def)
    ultimately show ?thesis using root v(2) by blast
  qed
qed


lemma signedEnvelope_parts:
  assumes "signedEnvelope lib elib int64 staging contributors i t = Inr e"
  obtains payload h hf root0 rest ops creds friends where
    "parentPayload lib staging contributors = Inr payload"
    "parseEnvelope elib (st_txXdr t) = Inr (EnvelopeV1 h (InvokeHostFunction hf (root0 # rest) # ops))"
    "ae_creds root0 = Some creds" "contributorEntries lib int64 staging contributors i t = Inr friends"
    "e = EnvelopeV1 h (InvokeHostFunction hf (root0\<lparr>ae_creds := Some (creds\<lparr>cred_expiration := nat (rs_expiration staging),
         cred_signature := Some payload\<rparr>)\<rparr> # friends) # ops)"
proof -
  from assms obtain payload env where "parentPayload lib staging contributors = Inr payload"
    "parseEnvelope elib (st_txXdr t) = Inr env"
    by (auto simp: signedEnvelope_def bindR_Inr_iff)
  moreover from this assms obtain h hf root0 rest ops where "env = EnvelopeV1 h (InvokeHostFunction hf (root0 # rest) # ops)"
    by (auto simp: signedEnvelope_def split: envelope.split_asm list.split_asm tx_op.split_asm)
  ultimately show thesis using assms that
    by (auto simp: signedEnvelope_def bindR_Inr_iff split: option.split_asm)
qed

lemma payload_keys:
  assumes "buildAuthPayloadScVal lib \<lparr>ap_rule_ids = ids, ap_signers = signers\<rparr> = Inr v"
  obtains m where "payload_signers v = Some m" "payload_rule_ids v = Some (ruleIdsScVal ids)"
    "fst ` set m = {k. \<exists>s \<in> set signers. signerScVal lib s = Inr k}"
proof -
  from assms obtain entries where e:
    "mapR (\<lambda>s. bindR (signerScVal lib s) (\<lambda>k. Inr (k, sigDataScVal lib s))) signers = Inr entries"
    "payload_rule_ids v = Some (ruleIdsScVal ids)"
    "payload_signers v = Some (sort_key (\<lambda>e. toXDR lib (fst e)) entries)"
    by (rule payload_parts) auto
  from e(1) have "fst ` set entries = {k. \<exists>s \<in> set signers. signerScVal lib s = Inr k}"
  proof (induction signers arbitrary: entries)
    case (Cons s ss)
    then obtain k es where k: "signerScVal lib s = Inr k" "entries = (k, sigDataScVal lib s) # es"
      "fst ` set es = {k. \<exists>s \<in> set ss. signerScVal lib s = Inr k}" by (auto simp: bindR_Inr_iff)
    then have "fst ` set entries = insert k {k. \<exists>s \<in> set ss. signerScVal lib s = Inr k}" by simp
    with k(1) show ?case by auto
  qed simp
  with e that show thesis by simp
qed

lemma delegated_keys:
  assumes "mapR (\<lambda>c. bindR (textOrThrow (fs_friendAccount c)) (\<lambda>a. Inr (DelegatedSig a None))) contributors = Inr signers"
  shows "{k. \<exists>s \<in> set signers. signerScVal lib s = Inr k} =
    {k. \<exists>s \<in> set contributors. \<exists>a x. fs_friendAccount s = Some (JStr a) \<and>
       addressScVal lib a = Inr x \<and> k = ScvVec [ScvSymbol ''Delegated'', x]}"
  using assms
proof (induction contributors arbitrary: signers)
  case (Cons c cs)
  then obtain a ss where a: "fs_friendAccount c = Some (JStr a)" "signers = DelegatedSig a None # ss"
    "mapR (\<lambda>c. bindR (textOrThrow (fs_friendAccount c)) (\<lambda>a. Inr (DelegatedSig a None))) cs = Inr ss"
    by (auto simp: bindR_Inr_iff textOrThrow_def split: option.split_asm dest!: as_string_SomeD)
  have split: "{k. \<exists>s \<in> set (x # xs). P s k} = {k. P x k} \<union> {k. \<exists>s \<in> set xs. P s k}"
    for x :: 'x and xs and P :: "'x \<Rightarrow> scval \<Rightarrow> bool" by auto
  have "{k. signerScVal lib (DelegatedSig a None) = Inr k} =
    {k. \<exists>a x. fs_friendAccount c = Some (JStr a) \<and> addressScVal lib a = Inr x \<and> k = ScvVec [ScvSymbol ''Delegated'', x]}"
    using a(1) by (auto simp: signerScVal_def bindR_Inr_iff)
  then show ?case unfolding a(2) split Cons.IH [OF a(3)] by simp
qed simp

text \<open>
  C4. The transaction the owner submits authorizes the staged rotation and nothing else: its
  first entry keeps the staged invocation and demands the staged digest \<open>d\<close>, its signer map names
  exactly the contributing friends, and every other entry is that of one contributor, in order,
  for \<open>__check_auth\<close> of the account on \<open>d\<close>.
\<close>

theorem submitted_rotation_is_authorized:
  assumes "staged_digest_ok lib pre elib staging t"
    and "signedEnvelope lib elib int64 staging contributors i t = Inr e"
  shows "\<exists>h hf root0 root rest friends ops d v c m.
    parseEnvelope elib (st_txXdr t) = Inr (EnvelopeV1 h (InvokeHostFunction hf (root0 # rest) # ops)) \<and>
    e = EnvelopeV1 h (InvokeHostFunction hf (root # friends) # ops) \<and>
    ae_invocation root = ae_invocation root0 \<and> contract_digest lib pre TESTNET root = Some d \<and>
    st_parentAuthDigestHex t = buf2hex d \<and>
    ae_creds root = Some c \<and> cred_signature c = Some v \<and> payload_signers v = Some m \<and>
    fst ` set m = {k. \<exists>s \<in> set contributors. \<exists>a x. fs_friendAccount s = Some (JStr a) \<and>
       addressScVal lib a = Inr x \<and> k = ScvVec [ScvSymbol ''Delegated'', x]} \<and>
    list_all2 (\<lambda>s f. ae_invocation f = Invocation (ContractFn (rs_account staging) ''__check_auth'' [ScvBytes d]) [] \<and>
       (\<exists>fc. ae_creds f = Some fc \<and> fs_friendAccount s = Some (JStr (cred_address fc)))) contributors friends"
proof -
  from assms(2) obtain payload h hf root0 rest ops creds friends where p:
    "parentPayload lib staging contributors = Inr payload"
    "parseEnvelope elib (st_txXdr t) = Inr (EnvelopeV1 h (InvokeHostFunction hf (root0 # rest) # ops))"
    "ae_creds root0 = Some creds" "contributorEntries lib int64 staging contributors i t = Inr friends"
    "e = EnvelopeV1 h (InvokeHostFunction hf (root0\<lparr>ae_creds := Some (creds\<lparr>cred_expiration := nat (rs_expiration staging),
         cred_signature := Some payload\<rparr>)\<rparr> # friends) # ops)"
    by (rule signedEnvelope_parts)
  from p(1) obtain signers where signers:
    "mapR (\<lambda>c. bindR (textOrThrow (fs_friendAccount c)) (\<lambda>a. Inr (DelegatedSig a None))) contributors = Inr signers"
    "buildAuthPayloadScVal lib \<lparr>ap_rule_ids = [nat (rs_recoveryRuleId staging)], ap_signers = signers\<rparr> = Inr payload"
    by (auto simp: parentPayload_def bindR_Inr_iff)
  from signers(2) obtain m where m: "payload_signers payload = Some m"
    "payload_rule_ids payload = Some (ruleIdsScVal [nat (rs_recoveryRuleId staging)])"
    "fst ` set m = {k. \<exists>s \<in> set signers. signerScVal lib s = Inr k}"
    by (rule payload_keys)
  have keys: "{k. \<exists>s \<in> set signers. signerScVal lib s = Inr k} =
    {k. \<exists>s \<in> set contributors. \<exists>a x. fs_friendAccount s = Some (JStr a) \<and>
       addressScVal lib a = Inr x \<and> k = ScvVec [ScvSymbol ''Delegated'', x]}"
    by (rule delegated_keys [OF signers(1)])
  from assms(1) p(2,3) obtain payload0 where hash: "buildAuthHashAt lib pre root0 TESTNET (nat (rs_expiration staging)) = Inr payload0"
    "st_parentAuthDigestHex t = buf2hex (computeAuthDigest lib payload0 [nat (rs_recoveryRuleId staging)])"
    by (auto simp: staged_digest_ok_def assembledRoot)
  let ?root = "root0\<lparr>ae_creds := Some (creds\<lparr>cred_expiration := nat (rs_expiration staging), cred_signature := Some payload\<rparr>)\<rparr>"
  let ?d = "computeAuthDigest lib payload0 [nat (rs_recoveryRuleId staging)]"
  have "contract_digest lib pre TESTNET ?root = Some ?d"
    using hash(1) m(2) p(3) by (simp add: contract_digest_def buildAuthHashAt_def computeAuthDigest_def)
  moreover have "list_all2 (\<lambda>s f. ae_invocation f = Invocation (ContractFn (rs_account staging) ''__check_auth'' [ScvBytes ?d]) [] \<and>
       (\<exists>fc. ae_creds f = Some fc \<and> fs_friendAccount s = Some (JStr (cred_address fc)))) contributors friends"
    using p(4) unfolding contributorEntries_def mapR_Inr_iff
    by (rule list_all2_mono) (auto simp: hash(2) hex2buf_buf2hex split: option.split_asm elim!: friend_entry_parts)
  ultimately show ?thesis using p(2,5) m(1,3) keys hash(2) by fastforce
qed


section \<open>A recovery session\<close>

lemma wf_field: "wf_json j \<Longrightarrow> wf_option (field k j)"
  by (cases j) (auto simp: field_def wf_option_def list_all_iff split: option.split dest!: map_of_SomeD)

lemma wf_entryFromWire: "entryFromWire w = Inr e \<Longrightarrow> wf_json w \<Longrightarrow> wf_entry e"
  by (auto simp: entryFromWire_def wf_entry_def wf_field bindR_Inr_iff)

lemma wf_wireEntries:
  assumes "wireEntries w = Inr es" "wf_json w"
  shows "list_all wf_entry es"
proof (cases "field ''v'' w = Some (JNum 1)")
  case True
  with assms show ?thesis by (auto simp: wireEntries_def bindR_Inr_iff wf_entryFromWire)
next
  case False
  with assms(1) obtain ws where ws: "field ''sigs'' w = Some (JArr ws)" "mapR entryFromWire ws = Inr es"
    by (auto simp: wireEntries_def split: option.split_asm json.split_asm)
  with wf_field [OF assms(2), of "''sigs''"] have "list_all wf_json ws" by (simp add: wf_option_def)
  with ws(2) show ?thesis
    unfolding mapR_Inr_iff list_all2_conv_all_nth list_all_length by (metis wf_entryFromWire)
qed

lemma wf_decoded: "decodeFriendSignature t = Inr sig \<Longrightarrow> wf_signature sig"
  by (auto simp: decodeFriendSignature_def wf_signature_def bindR_Inr_iff wf_field wf_wireEntries parse_wf
      split: sum.split_asm if_split_asm)

text \<open>What a stored staging promises about the signatures collected so far.\<close>

definition collected_ok :: "string \<Rightarrow> rotation_staging \<Rightarrow> bool" where
  "collected_ok account st \<longleftrightarrow> rs_account st = account \<and> storable st \<and>
     list_all (\<lambda>(friend, sig). friend \<in> set (rs_friends st) \<and> fs_friendAccount sig = Some (JStr friend) \<and>
       length (fs_entries sig) = length (rs_txs st)) (rs_collected st)"

definition session_ok :: "string \<Rightarrow> local_storage \<Rightarrow> bool" where
  "session_ok account s \<longleftrightarrow> (\<forall>st. loadStaging s account = Some st \<longrightarrow> collected_ok account st)"

datatype ('h, 'd) rotation_op =
    ReceiveBlob string
  | CollectRelay http string string "json option set"
  | Submit "('h, 'd) submit_env"
  | Forget

definition rotation_step :: "string \<Rightarrow> local_storage \<Rightarrow> ('h, 'd) rotation_op \<Rightarrow> local_storage" where
  "rotation_step account s oper =
     (case oper of
        ReceiveBlob blob \<Rightarrow> (case addFriendSignature s account blob of Inr (s', _) \<Rightarrow> s' | Inl _ \<Rightarrow> s)
      | CollectRelay fetch url key known \<Rightarrow> fst (collectFromRelay fetch s account url key known)
      | Submit env \<Rightarrow> fst (submitRotation env s account)
      | Forget \<Rightarrow> clearStaging account s)"

lemma collected_ok_saved: "collected_ok account st \<Longrightarrow> loadStaging (saveStaging st s) account = Some st"
  using loadStaging_saved [of st s] by (auto simp: collected_ok_def)

lemma session_saved: "collected_ok account st \<Longrightarrow> session_ok account (saveStaging st s)"
  by (simp add: session_ok_def collected_ok_saved)

lemma session_cleared: "session_ok account (clearStaging account s)"
  by (simp add: session_ok_def loadStaging_def clearStaging_def removeItem_def)

lemma list_all_putMember:
  "list_all P kvs \<Longrightarrow> P (k, v) \<Longrightarrow> list_all P (putMember kvs k v)"
  using set_putMember_values [of kvs k v] by (auto simp: list_all_iff)

lemma session_added:
  assumes "session_ok account s" "addFriendSignature s account blob = Inr (s', st')"
  shows "session_ok account s' \<and> loadStaging s' account = Some st' \<and> collected_ok account st'"
proof -
  from assms(2) obtain st sig friend where st: "loadStaging s account = Some st" "decodeFriendSignature (trim blob) = Inr sig"
    "fs_friendAccount sig = Some (JStr friend)" "friend \<in> set (rs_friends st)" "length (fs_entries sig) = length (rs_txs st)"
    "st' = st\<lparr>rs_collected := putMember (rs_collected st) friend sig\<rparr>" "s' = saveStaging st' s"
    by (auto simp: addFriendSignature_def bindR_Inr_iff Let_def split: option.split_asm if_split_asm dest!: as_string_SomeD)
  from assms(1) st(1) have ok: "collected_ok account st" by (simp add: session_ok_def)
  with st have "collected_ok account st'"
    by (auto simp: collected_ok_def storable_def distinct_putMember wf_decoded intro!: list_all_putMember)
  with st(7) show ?thesis by (simp add: session_saved collected_ok_saved)
qed

lemma collected_ok_setTx:
  assumes "collected_ok account st"
  shows "collected_ok account (setTx st i f)"
  using assms by (simp add: collected_ok_def storable_def setTx_def)

text \<open>A stored staging that mirrors the one in hand, through every step of a submission.\<close>

definition mirrored :: "string \<Rightarrow> submit_state \<Rightarrow> bool" where
  "mirrored account st \<longleftrightarrow> collected_ok account (fst st) \<and> loadStaging (snd st) account = Some (fst st)"

lemma mirrored_set:
  assumes "mirrored account st"
  shows "mirrored account (setTx (fst st) i f, saveStaging (setTx (fst st) i f) s)"
proof -
  have "collected_ok account (setTx (fst st) i f)"
    using assms by (intro collected_ok_setTx) (simp add: mirrored_def)
  then show ?thesis by (simp add: mirrored_def collected_ok_saved)
qed

lemma mirrored_confirm:
  assumes "mirrored account st"
  shows "mirrored account (fst (confirmTx st i r))"
proof (cases r)
  case (Inl e)
  with assms show ?thesis by (simp add: confirmTx_def)
next
  case (Inr hash)
  then show ?thesis unfolding confirmTx_def by (simp only: sum.case Let_def fst_conv) (rule mirrored_set [OF assms])
qed

text \<open>The state in which the relayer's id is remembered.\<close>

definition remembered :: "submit_state \<Rightarrow> nat \<Rightarrow> json \<Rightarrow> submit_state" where
  "remembered st i submitted =
     (if truthy (field ''transactionId'' submitted)
      then let staging' = setTx (fst st) i (\<lambda>t. t\<lparr>st_relayerTxId := Some (text_of (field ''transactionId'' submitted))\<rparr>)
           in (staging', saveStaging staging' (snd st))
      else st)"

lemma mirrored_remembered: "mirrored account st \<Longrightarrow> mirrored account (remembered st i submitted)"
  unfolding remembered_def Let_def using mirrored_set by simp

lemma relayTx_cases:
  "relayTx env st i e =
     (if isSet (st_relayerTxId (rs_txs (fst st) ! i))
      then confirmTx st i (confirmedHash env i (orElse (st_relayerTxId (rs_txs (fst st) ! i)) []))
      else (case relaySubmit env i e of
              Inl err \<Rightarrow> (st, Inl err)
            | Inr submitted \<Rightarrow>
                if truthy (field ''hash'' submitted)
                then confirmTx (remembered st i submitted) i (Inr (text_of (field ''hash'' submitted)))
                else if \<not> truthy (field ''transactionId'' submitted)
                then (remembered st i submitted, Inl (NetworkError (Error ''Relayer accepted the recovery transaction but returned no transaction id'')))
                else confirmTx (remembered st i submitted) i (confirmedHash env i (text_of (field ''transactionId'' submitted)))))"
  unfolding relayTx_def remembered_def Let_def by (rule refl)

lemma mirrored_relay: "mirrored account st \<Longrightarrow> mirrored account (fst (relayTx env st i e))"
  by (simp add: relayTx_cases mirrored_confirm mirrored_remembered split: sum.split)

lemma mirrored_submit: "mirrored account st \<Longrightarrow> mirrored account (fst (submitTx env submitter cs st i))"
  by (simp add: submitTx_def Let_def mirrored_confirm mirrored_relay split: sum.split)

lemma mirrored_all: "mirrored account st \<Longrightarrow> mirrored account (fst (submitTxs env submitter cs st is' h))"
proof (induction is' arbitrary: st h)
  case (Cons i is')
  from mirrored_submit [OF Cons.prems, of env submitter cs i] Cons.IH show ?case
    by (auto split: prod.split sum.split)
qed simp

lemma session_step:
  assumes "session_ok account s"
  shows "session_ok account (rotation_step account s oper)"
proof (cases oper)
  case (ReceiveBlob blob)
  then show ?thesis using assms session_added [OF assms, of blob]
    by (auto simp: rotation_step_def split: sum.split)
next
  case (CollectRelay fetch url key known)
  have "session_ok account (fst (collectAll addFriendSignature account known s es added))" if "session_ok account s" for s es added
    using that
  proof (induction es arbitrary: s added)
    case (Cons e es)
    then show ?case using session_added [OF Cons.prems]
      by (auto split: option.split sum.split prod.split)
  qed simp
  with assms CollectRelay show ?thesis
    by (auto simp: rotation_step_def collectFromRelay_def split: sum.split)
next
  case (Submit env)
  have "session_ok account (fst (submitRotation env s account))"
  proof (cases "loadStaging s account")
    case None
    with assms show ?thesis by (simp add: submitRotation_def)
  next
    case (Some staging)
    with assms have m: "mirrored account (staging, s)" by (simp add: mirrored_def session_ok_def)
    have "session_ok account (snd (fst (submitTxs env submitter cs (staging, s) is' h)))" for submitter cs is' h
      using mirrored_all [OF m, of env submitter cs is' h] by (simp add: mirrored_def session_ok_def)
    with Some assms show ?thesis
      unfolding submitRotation_def Let_def
      by (simp add: session_cleared case_prod_beta split: sum.split prod.split)
  qed
  with Submit show ?thesis by (simp add: rotation_step_def)
next
  case Forget
  then show ?thesis by (simp add: rotation_step_def session_cleared)
qed

interpretation recovery_session: preserved "rotation_step account" "session_ok account"
  by unfold_locales (rule session_step)


lemma fresh_session:
  assumes "stageRotation env account ruleId friends threshold request = Inr staging"
  shows "collected_ok account staging"
  using assms by (auto simp: stageRotation_def bindR_Inr_iff collected_ok_def storable_def split: prod.split_asm)

text \<open>
  C10. However the replies of friends arrive, through the mailbox or pasted, in whatever order,
  mixed with attempts to submit: the stored rotation stays readable, each collected reply is
  filed under the friend who is named in it, that friend is one of those chosen, and the reply
  covers every transaction. So an attempt to submit never fails because of the shape of a reply,
  and it goes ahead only with replies of at least as many different friends as the threshold.
\<close>

theorem recovery_session_consistent:
  assumes "prepareRotation env account ruleId friends threshold request s0 = (s, Inr (staging, handoff, link))"
    and "loadStaging (foldl (rotation_step account) s opers) account = Some st"
  shows "collected_ok account st \<and> distinct (map fst (rs_collected st)) \<and>
    (submitRotation senv (foldl (rotation_step account) s opers) account =
       (foldl (rotation_step account) s opers, Inl (NetworkError (Error ''Need more friend signatures''))) \<or>
     rs_threshold st \<le> int (card (set (map fst (rs_collected st)))) \<and>
     \<not> list_ex (\<lambda>c. length (fs_entries c) \<noteq> length (rs_txs st)) (map snd (rs_collected st)))"
proof -
  from assms(1) have "stageRotation env account ruleId friends threshold request = Inr staging" "s = saveStaging staging s0"
    by (auto simp: prepareRotation_def Let_def bindR_Inr_iff split: sum.split_asm)
  then have "session_ok account s" by (simp add: fresh_session session_saved)
  then have "session_ok account (foldl (rotation_step account) s opers)" by (rule recovery_session.run_inv)
  with assms(2) have ok: "collected_ok account st" by (simp add: session_ok_def)
  then have d: "distinct (map fst (rs_collected st))" by (simp add: collected_ok_def storable_def)
  then have "card (set (map fst (rs_collected st))) = length (rs_collected st)" by (metis distinct_card length_map)
  moreover have "\<not> list_ex (\<lambda>c. length (fs_entries c) \<noteq> length (rs_txs st)) (map snd (rs_collected st))"
    using ok by (auto simp: collected_ok_def list_all_iff list_ex_iff)
  ultimately show ?thesis using ok d assms(2) by (auto simp: submitRotation_def Let_def)
qed

text \<open>
  C11. A transaction is handed to the relayer at most once. When the relayer has accepted it
  under an id and the attempt then fails, the id is already stored; whoever loads the stored
  rotation and tries again asks for the outcome of that id, and nothing is submitted, whatever
  the network would have answered to a submission.
\<close>

theorem accepted_is_never_resubmitted:
  assumes "relayerEnabled (su_relayerUrl env)" "collected_ok account staging" "i < length (rs_txs staging)"
    and "\<not> isSet (st_submittedHash (rs_txs staging ! i))" "\<not> isSet (st_relayerTxId (rs_txs staging ! i))"
    and "signedEnvelope (su_xdr env) (su_envelopes env) (su_int64 env) staging contributors i (rs_txs staging ! i) = Inr e"
    and "relaySubmit env i e = Inr submitted" "field ''transactionId'' submitted = Some (JStr (c # cs))"
    and "submitTx env submitter contributors (staging, s) i = (st', Inl err)"
  shows "loadStaging (snd st') account = Some (fst st') \<and> st_relayerTxId (rs_txs (fst st') ! i) = Some (c # cs) \<and>
    (\<forall>env' submitter' contributors'. su_relayerUrl env' = su_relayerUrl env \<longrightarrow>
       submitTx env' submitter' contributors' st' i =
         (case signedEnvelope (su_xdr env') (su_envelopes env') (su_int64 env') (fst st') contributors' i (rs_txs (fst st') ! i) of
            Inl e \<Rightarrow> (st', Inl (NetworkError e))
          | Inr _ \<Rightarrow> confirmTx st' i (confirmedHash env' i (c # cs))))"
proof -
  have id: "truthy (field ''transactionId'' submitted)" "text_of (field ''transactionId'' submitted) = c # cs"
    using assms(8) by (simp_all add: truthy_def)
  let ?st = "remembered (staging, s) i submitted"
  have st: "fst ?st = setTx staging i (\<lambda>t. t\<lparr>st_relayerTxId := Some (c # cs)\<rparr>)"
    "snd ?st = saveStaging (fst ?st) s"
    using id by (simp_all add: remembered_def Let_def)
  have "st' = ?st"
    using assms(1,4-7,9) id
    by (auto simp: submitTx_def relayTx_cases confirmTx_def Let_def split: sum.split_asm if_split_asm)
  moreover have "collected_ok account (fst ?st)" unfolding st(1) using assms(2) by (rule collected_ok_setTx)
  moreover have "rs_txs (fst ?st) ! i = (rs_txs staging ! i)\<lparr>st_relayerTxId := Some (c # cs)\<rparr>"
    using assms(3) by (simp add: st(1) setTx_def)
  ultimately show ?thesis
    using assms(1,4) st(2)
    by (auto simp: collected_ok_saved submitTx_def relayTx_cases isSet_def Let_def cong: sum.case_cong)
qed

section \<open>Samples\<close>


text \<open>A sample rotation of the account \<open>CA\<close>, with a platform that answers the same every time.\<close>

definition sample_root :: auth where
  "sample_root = \<lparr>ae_creds = Some \<lparr>cred_address = ''CA'', cred_nonce = 1, cred_expiration = 0, cred_signature = None\<rparr>,
     ae_invocation = Invocation (ContractFn ''CA'' ''remove_signer'' []) []\<rparr>"

definition sample_envelope :: "unit envelope" where
  "sample_envelope = EnvelopeV1 () [InvokeHostFunction (HostInvoke ''CA'' ''remove_signer'' []) [sample_root]]"

definition sample_envelopes :: "unit envelope_lib" where
  "sample_envelopes = \<lparr>parseEnvelope = \<lambda>_. Inr sample_envelope, printEnvelope = \<lambda>_. ''X'',
     envelopeHash = \<lambda>_ _. replicate 32 0, funcXDR = \<lambda>_. ''f'', entryXDR = \<lambda>_. ''a''\<rparr>"

definition sample_reply :: relay_reply where
  "sample_reply = \<lparr>reply_ok = True, reply_status = 200, reply_json = Some (JObj
     [(''hash'', JStr (replicate 64 CHR ''0'')), (''network'', JStr ''testnet''), (''xdr'', JStr ''X'')])\<rparr>"

definition sample_owner :: "unit owner_env" where
  "sample_owner = \<lparr>oe_xdr = sample_lib, oe_envelopes = sample_envelopes, oe_preimage = \<lambda>_ n x _. [of_int n, of_nat x],
     oe_client = \<lambda>_. Inr (Some [\<lparr>op_type = ''invokeHostFunction'', op_func = Some (HostInvoke ''CA'' ''remove_signer'' []),
       op_auth = None, op_source = None\<rparr>]),
     oe_rpc = sample_chain, oe_registry = \<lambda>_. Inr ''CM'', oe_relayerUrl = ''u'', oe_simSource = ''G'',
     oe_submitter = Inr ''G'', oe_getAccount = \<lambda>_. Inr (), oe_simulate = \<lambda>_ _. Inr (100, sample_envelope),
     oe_refractor = \<lambda>_ _ _ _. Inr sample_reply, oe_random = replicate 16 7, oe_relayBase = None, oe_origin = ''o''\<rparr>"

definition sample_request :: rotation_request where
  "sample_request = \<lparr>defaultRuleId = 0, addPasskey = None, removeSignerId = Some 1, ruleState = Some (1, 1),
     thresholdPolicyAddress = Some ''CM''\<rparr>"

definition sample_tx :: staged_tx where
  "sample_tx = \<lparr>st_txXdr = ''X'', st_refractorTxHash = replicate 64 CHR ''0'',
     st_refractorTxUrl = refractorWebTxUrl (replicate 64 CHR ''0'') None,
     st_parentAuthDigestHex = buf2hex (computeAuthDigest sample_lib [of_nat 10100, 1] [2]),
     st_relayerTxId = None, st_submittedHash = None\<rparr>"

definition sample_staging :: rotation_staging where
  "sample_staging = \<lparr>rs_account = ''CA'', rs_recoveryRuleId = 2, rs_threshold = 1, rs_friends = [''CF''],
     rs_txs = [sample_tx], rs_lastLedger = 100, rs_expiration = 10100,
     rs_description = ''Recovery rotation: remove signer #1'', rs_relayKey = mintRelayKey (replicate 16 7), rs_collected = []\<rparr>"

lemma zeros_hash: "TX_HASH_RE (replicate 64 CHR ''0'')"
  by code_simp

lemma sample_store: "storeRefractorTransaction (\<lambda>_ _ _. Inr sample_reply) args None =
    Inr \<lparr>rt_hash = replicate 64 CHR ''0'', rt_network = ''testnet'', rt_xdr = ''X'', rt_status = None, rt_submitted = None\<rparr>"
  by (simp add: storeRefractorTransaction_def sample_reply_def refractorJson_def assertHash_def zeros_hash Let_def)

lemma sample_staged: "stageRotation sample_owner ''CA'' 2 [''CF''] 1 sample_request = Inr sample_staging"
proof -
  have plan: "planRotation sample_request = Inr [RemoveSigner 0 1]"
    by (simp add: planRotation_def sample_request_def policyCalls_def)
  have one: "showNat (Suc 0) = ''1''" by code_simp
  have build: "buildRotation (oe_client sample_owner) ''CA'' 2 sample_request =
    Inr ([\<lparr>x_func = HostInvoke ''CA'' ''remove_signer'' [], x_auth = [], x_source = None\<rparr>], [2],
      ''Recovery rotation: remove signer #1'')"
    by (simp add: buildRotation_def plan callOps_def extractXdrOperations_def sample_owner_def describeRotation_def
        describeCall_def one)
  have root: "assembledRootAuthEntry sample_envelopes ''X'' = Inr sample_root"
    by (simp add: assembledRoot sample_envelopes_def sample_envelope_def)
  have print: "printEnvelope sample_envelopes e = ''X''" for e by (simp add: sample_envelopes_def)
  show ?thesis
    using build root sample_store
    by (simp add: stageRotation_def enrichRotationRequest_def prepareSource_def sample_owner_def sample_request_def
        relayerEnabled_def PARENT_EXPIRATION_OFFSET_def sample_staging_def sample_tx_def sample_root_def
        buildAuthHashAt_def computeAuthDigest_def sample_lib_def ruleIdsScVal_def Let_def print)
qed


definition sample_friend :: "unit friend_env" where
  "sample_friend = \<lparr>fv_xdr = sample_lib, fv_envelopes = sample_envelopes, fv_preimage = oe_preimage sample_owner,
     fv_int64 = \<lambda>_. Inr 0, fv_rpc = sample_chain, fv_state = \<lambda>_ _. Inr Map.empty, fv_registry = \<lambda>_. Inr ''CM'',
     fv_latest = Inr 100, fv_refractor = \<lambda>_ _ _ _. Inr sample_reply, fv_nonce = \<lambda>_. replicate 8 0,
     fv_assert = \<lambda>_ _ _. Inr None\<rparr>"

lemma sample_fetch_tx: "fetchRefractorTransaction sample_envelopes (\<lambda>_ _ _. Inr sample_reply) (replicate 64 CHR ''0'') None =
    Inr \<lparr>rt_hash = replicate 64 CHR ''0'', rt_network = ''testnet'', rt_xdr = ''X'', rt_status = None, rt_submitted = None\<rparr>"
proof -
  have "buf2hex (replicate 32 0) = replicate 64 CHR ''0''" by code_simp
  then show ?thesis
    by (simp add: fetchRefractorTransaction_def sample_reply_def refractorJson_def assertHash_def zeros_hash is_object_def
        assertXdrMatchesHash_def sample_envelopes_def Let_def)
qed

lemma sample_challenge:
  "\<exists>challenge. friendChallenge sample_friend (handoffOf None sample_staging) 100 0 (replicate 64 CHR ''0'') =
     Inr (''0'', 10100, challenge)"
proof -
  have nonce: "randomNonce (replicate 8 0) = ''0''" by code_simp
  have "validateRecoveryTxEnvelope sample_envelopes ''X'' ''CA'' = Inr sample_root"
    by (simp add: validateRecoveryTxEnvelope_def sample_envelopes_def sample_envelope_def sample_root_def)
  with sample_fetch_tx nonce show ?thesis
    by (simp add: friendChallenge_def sample_friend_def handoffOf_def sample_staging_def sample_root_def Let_def
        buildAuthHashAt_def friendSignaturePayload_def buildFriendInvocation_def sample_lib_def PARENT_EXPIRATION_OFFSET_def u32_def)
qed

definition sample_entry :: friend_entry where
  "sample_entry = \<lparr>fe_authenticatorData = [1], fe_clientDataJson = [2], fe_signature = [3],
     fe_nonce = Some (JStr ''0''), fe_expiration = Some (JNum 10100)\<rparr>"

definition sample_sig :: friend_signature where
  "sample_sig = \<lparr>fs_friendAccount = Some (JStr ''CF''), fs_verifierAddress = Some (JStr ''CV''), fs_publicKey = [4],
     fs_entries = [sample_entry]\<rparr>"

lemma sample_built:
  "\<exists>f. buildFriendAuthEntry sample_lib (\<lambda>_. Inr 0) ''CA'' sample_sig sample_entry (st_parentAuthDigestHex sample_tx) = Inr f \<and>
     ae_creds f \<noteq> None"
  by (simp add: buildFriendAuthEntry_def buildFriendInvocation_def sample_lib_def sample_sig_def sample_entry_def textOrThrow_def
      buildAuthPayloadScVal_def signerScVal_def ledgerOf_def u32_def)

theorem friend_authorizes_staged_rotation_witness:
  "\<exists>f challenge d. buildFriendAuthEntry sample_lib (\<lambda>_. Inr 0) ''CA'' sample_sig sample_entry (st_parentAuthDigestHex sample_tx) = Inr f \<and>
     friendChallenge sample_friend (handoffOf None sample_staging) 100 0 (replicate 64 CHR ''0'') = Inr (''0'', 10100, challenge) \<and>
     ae_invocation f = Invocation (ContractFn ''CA'' ''__check_auth'' [ScvBytes d]) [] \<and>
     contract_digest sample_lib (oe_preimage sample_owner) TESTNET f = Some challenge"
proof -
  from sample_challenge obtain challenge where ch:
    "friendChallenge sample_friend (handoffOf None sample_staging) 100 0 (replicate 64 CHR ''0'') = Inr (''0'', 10100, challenge)" ..
  from sample_built obtain f where f: "buildFriendAuthEntry sample_lib (\<lambda>_. Inr 0) ''CA'' sample_sig sample_entry
    (st_parentAuthDigestHex sample_tx) = Inr f" by blast
  have hash: "st_refractorTxHash sample_tx = buf2hex (envelopeHash (oe_envelopes sample_owner) TESTNET sample_envelope)"
    "parseEnvelope (oe_envelopes sample_owner) x = Inr sample_envelope" for x
    by (simp_all add: sample_tx_def sample_owner_def sample_envelopes_def) code_simp
  have same: "fv_int64 sample_friend = (\<lambda>_. Inr 0)" "oe_xdr sample_owner = sample_lib" "fv_xdr sample_friend = oe_xdr sample_owner"
    "fv_preimage sample_friend = oe_preimage sample_owner" "fv_envelopes sample_friend = oe_envelopes sample_owner"
    "sample_tx \<in> set (rs_txs sample_staging)" "fe_nonce sample_entry = Some (JStr ''0'')"
    "fe_expiration sample_entry = Some (JNum (int 10100))" "st_refractorTxHash sample_tx = replicate 64 CHR ''0''"
    by (simp_all add: sample_friend_def sample_owner_def sample_staging_def sample_entry_def sample_tx_def)
  from friend_authorizes_staged_rotation [OF sample_staged same(6,3,4,5) hash(2,1), of None 100 0 "''0''" 10100 challenge
      sample_entry sample_sig f] ch f same hash(2)
  show ?thesis by auto
qed


lemma sample_signed:
  "\<exists>e. signedEnvelope sample_lib sample_envelopes (\<lambda>_. Inr 0) sample_staging [sample_sig] 0 sample_tx = Inr e"
proof -
  from sample_built obtain f where "buildFriendAuthEntry sample_lib (\<lambda>_. Inr 0) ''CA'' sample_sig sample_entry
    (st_parentAuthDigestHex sample_tx) = Inr f" by blast
  moreover have "\<exists>v. parentPayload sample_lib sample_staging [sample_sig] = Inr v"
    by (simp add: parentPayload_def sample_staging_def sample_sig_def textOrThrow_def buildAuthPayloadScVal_def
        signerScVal_def sample_lib_def u32_def)
  ultimately show ?thesis
    by (auto simp: signedEnvelope_def sample_envelopes_def sample_envelope_def sample_root_def contributorEntries_def
        sample_staging_def sample_sig_def arr_def u32_def)
qed

theorem submitted_rotation_is_authorized_witness:
  "\<exists>h hf root friends ops d. signedEnvelope sample_lib sample_envelopes (\<lambda>_. Inr 0) sample_staging [sample_sig] 0 sample_tx =
     Inr (EnvelopeV1 h (InvokeHostFunction hf (root # friends) # ops)) \<and> length friends = 1 \<and>
     contract_digest sample_lib (oe_preimage sample_owner) TESTNET root = Some d \<and>
     st_parentAuthDigestHex sample_tx = buf2hex d"
proof -
  have "sample_tx \<in> set (rs_txs sample_staging)" "oe_xdr sample_owner = sample_lib" "oe_envelopes sample_owner = sample_envelopes"
    by (simp_all add: sample_staging_def sample_owner_def)
  with staged_rotation [OF sample_staged]
  have ok: "staged_digest_ok sample_lib (oe_preimage sample_owner) sample_envelopes sample_staging sample_tx" by auto
  from sample_signed obtain e where e: "signedEnvelope sample_lib sample_envelopes (\<lambda>_. Inr 0) sample_staging [sample_sig] 0 sample_tx = Inr e" ..
  from submitted_rotation_is_authorized [OF ok e] obtain h hf root friends ops d where
    "e = EnvelopeV1 h (InvokeHostFunction hf (root # friends) # ops)"
    "contract_digest sample_lib (oe_preimage sample_owner) TESTNET root = Some d" "st_parentAuthDigestHex sample_tx = buf2hex d"
    "list_all2 (\<lambda>s f. ae_invocation f = Invocation (ContractFn (rs_account sample_staging) ''__check_auth'' [ScvBytes d]) [] \<and>
       (\<exists>fc. ae_creds f = Some fc \<and> fs_friendAccount s = Some (JStr (cred_address fc)))) [sample_sig] friends"
    by blast
  moreover from this(4) have "length friends = 1" by (auto dest: list_all2_lengthD)
  ultimately show ?thesis using e by blast
qed

lemma sample_prepared:
  "\<exists>handoff link. prepareRotation sample_owner ''CA'' 2 [''CF''] 1 sample_request Map.empty =
     (saveStaging sample_staging Map.empty, Inr (sample_staging, handoff, link))"
proof -
  have "mintRelayKey (replicate 16 7) \<noteq> []" by code_simp
  then have "\<exists>link. encodeHandoffLink (oe_origin sample_owner) (handoffOf None sample_staging) = Inr link"
    by (simp add: encodeHandoffLink_def encodeRotationHandoff_def handoffOf_def
        sample_staging_def sample_tx_def zeros_hash RELAY_BASE_URL_def)
  moreover have "oe_relayBase sample_owner = None" by (simp add: sample_owner_def)
  ultimately show ?thesis using sample_staged by (auto simp: prepareRotation_def Let_def)
qed

theorem recovery_session_consistent_witness:
  "\<exists>handoff link. prepareRotation sample_owner ''CA'' 2 [''CF''] 1 sample_request Map.empty =
     (saveStaging sample_staging Map.empty, Inr (sample_staging, handoff, link)) \<and>
   collected_ok ''CA'' sample_staging"
proof -
  from sample_prepared obtain handoff link where p: "prepareRotation sample_owner ''CA'' 2 [''CF''] 1 sample_request Map.empty =
     (saveStaging sample_staging Map.empty, Inr (sample_staging, handoff, link))" by blast
  have "loadStaging (saveStaging sample_staging Map.empty) ''CA'' = Some sample_staging"
    using loadStaging_saved [of sample_staging Map.empty] by (simp add: sample_staging_def storable_def)
  then have "loadStaging (foldl (rotation_step ''CA'') (saveStaging sample_staging Map.empty) ([] :: (unit, unit) rotation_op list)) ''CA'' = Some sample_staging"
    by simp
  from recovery_session_consistent [OF p this] p show ?thesis by blast
qed

text \<open>A relayer that accepts the transaction and then cannot be reached.\<close>

definition sample_submit :: "(unit, unit) submit_env" where
  "sample_submit = \<lparr>su_xdr = sample_lib, su_envelopes = sample_envelopes, su_int64 = \<lambda>_. Inr 0, su_relayerUrl = ''u'',
     su_fetch = \<lambda>_ _ _. Inr \<lparr>reply_ok = True, reply_status = 200, reply_json = Some (JObj [(''success'', JBool True),
        (''data'', JObj [(''transactionId'', JStr ''t1''), (''status'', JStr ''pending'')])])\<rparr>,
     su_poll = \<lambda>_ _ _ _. Inl (TypeError ''Failed to fetch''), su_submitter = Inr ''G'',
     su_build = \<lambda>_ _. Inl (Error ''unused''), su_server = \<lambda>_. \<lparr>simulate_enforce = \<lambda>_. Inl (Error ''unused''),
       send_transaction = \<lambda>_. (SendError, []), get_transaction = \<lambda>_ _. GetFailed\<rparr>\<rparr>"

theorem accepted_is_never_resubmitted_witness:
  "\<exists>st' err. submitTx sample_submit [] [sample_sig] (sample_staging, Map.empty) 0 = (st', Inl err) \<and>
     st_relayerTxId (rs_txs (fst st') ! 0) = Some ''t1'' \<and>
     loadStaging (snd st') ''CA'' = Some (fst st')"
proof -
  let ?submitted = "JObj [(''transactionId'', JStr ''t1''), (''status'', JStr ''pending'')]"
  from sample_signed obtain e where e: "signedEnvelope (su_xdr sample_submit) (su_envelopes sample_submit) (su_int64 sample_submit)
    sample_staging [sample_sig] 0 (rs_txs sample_staging ! 0) = Inr e"
    by (auto simp: sample_submit_def sample_staging_def)
  have sub: "relaySubmit sample_submit 0 e = Inr ?submitted"
    by (simp add: relaySubmit_def sample_submit_def thrown_def extractFuncAndAuth_def sample_envelopes_def
        sample_envelope_def first_op_def submitSorobanTransaction_def relay_call_def call_body_def ofield_def
        coalesce_def nullish_def truthy_def is_object_def)
  have wait: "\<exists>err. confirmedHash sample_submit 0 ''t1'' = Inl err"
  proof -
    have poll: "getRelayerTransaction (su_poll sample_submit 0 k) ''t1'' (su_relayerUrl sample_submit) =
      Inl (NetworkError (TypeError ''Failed to fetch''))" for k
      by (simp add: sample_submit_def getRelayerTransaction_def relay_call_def)
    then have "\<exists>err. waitForConfirmation (\<lambda>k. getRelayerTransaction (su_poll sample_submit 0 k) ''t1'' (su_relayerUrl sample_submit)) None = Inl err"
      using wait_confirmed [of "\<lambda>k. getRelayerTransaction (su_poll sample_submit 0 k) ''t1'' (su_relayerUrl sample_submit)"]
      by (cases "waitForConfirmation (\<lambda>k. getRelayerTransaction (su_poll sample_submit 0 k) ''t1'' (su_relayerUrl sample_submit)) None") auto
    then show ?thesis by (auto simp: confirmedHash_def)
  qed
  have enabled: "relayerEnabled (su_relayerUrl sample_submit)" by (simp add: sample_submit_def relayerEnabled_def)
  have unset: "\<not> isSet (st_submittedHash (rs_txs sample_staging ! 0))" "\<not> isSet (st_relayerTxId (rs_txs sample_staging ! 0))"
    by (simp_all add: sample_staging_def sample_tx_def isSet_def)
  from wait obtain err where w: "confirmedHash sample_submit 0 ''t1'' = Inl err" ..
  obtain st' where st': "submitTx sample_submit [] [sample_sig] (sample_staging, Map.empty) 0 = (st', Inl err)"
    using enabled unset e sub w by (auto simp: submitTx_def relayTx_cases confirmTx_def truthy_def Let_def)
  have "collected_ok ''CA'' sample_staging" by (simp add: collected_ok_def storable_def sample_staging_def)
  from accepted_is_never_resubmitted [OF enabled this _ unset e sub _ st', of "CHR ''t''" "''1''"] st'
  show ?thesis by (auto simp: sample_staging_def)
qed

end
