(* ===== verification/Signing.thy ===== *)
theory Signing
  imports RecoveryServices Chain
begin

text \<open>
  Signing with the passkey of the account: \<open>primaryPasskeySigner.ts\<close> builds, signs and submits an
  operation of the wallet, \<open>walletSign.ts\<close> signs a transaction, a message or an authorization
  entry for a dApp. The RPC, the authenticator, the curve and the XDR codec are the record
  \<open>signer_env\<close>; \<open>sg_assert i\<close> is the authenticator's answer to the \<open>i\<close>-th ceremony.
\<close>

section \<open>The world of a signer\<close>

definition RELAYER_EXPIRATION_OFFSET :: nat where
  "RELAYER_EXPIRATION_OFFSET = 120"

type_synonym wallet_op = "(host_function, invocation_tree) invoke_op"

text \<open>A successful simulation: its authorization entries, its ledger, the call's result, and what it assembles to.\<close>

record 'd sim_success =
  ss_auth :: "auth list option"
  ss_latestLedger :: nat
  ss_retval :: "native option"
  ss_assembled :: "(wallet_op, 'd) transaction"

datatype wallet_tx = FeeBumpTx | PlainTx string int "tx_op list"

record 'd signer_env =
  sg_xdr :: xdr_lib
  sg_preimage :: "invocation_tree preimage"
  sg_rpc :: chain_rpc
  sg_state :: "string \<Rightarrow> chain_rule \<Rightarrow> policy_state result"
  sg_relayerUrl :: string
  sg_simSource :: string
  sg_submitter :: "string result"
  sg_getAccount :: "string \<Rightarrow> unit result"
  sg_simulate :: "string \<Rightarrow> int \<Rightarrow> host_function \<Rightarrow> 'd sim_success result"
  sg_assert :: "nat \<Rightarrow> bytes option \<Rightarrow> bytes \<Rightarrow> (bytes \<times> bytes \<times> bytes) option result"
  sg_not_allowed :: "js_error \<Rightarrow> bool"
  sg_verify :: p256_verify
  sg_fetch :: fetch
  sg_poll :: "nat \<Rightarrow> fetch"
  sg_server :: "(wallet_op, 'd) soroban_server"
  sg_parseTx :: "string \<Rightarrow> string \<Rightarrow> wallet_tx result"
  sg_printTx :: "(wallet_op, 'd) transaction \<Rightarrow> string"
  sg_funcXDR :: "host_function \<Rightarrow> string"
  sg_entryXDR :: "auth \<Rightarrow> string"
  sg_preimageOf :: "string \<Rightarrow> bytes result"

definition expirationOffset :: "'d signer_env \<Rightarrow> nat option" where
  "expirationOffset env = (if relayerEnabled (sg_relayerUrl env) then Some RELAYER_EXPIRATION_OFFSET else None)"

definition txFuncAndAuth :: "'d signer_env \<Rightarrow> (wallet_op, 'd) transaction \<Rightarrow> (string \<times> string list) result" where
  "txFuncAndAuth env tx =
     (case tx_operations tx of
        [] \<Rightarrow> Inl (TypeError ''Cannot read properties of undefined'')
      | op # _ \<Rightarrow> Inr (sg_funcXDR env (op_hostFunction op), map (sg_entryXDR env) (orElse (op_authEntries op) [])))"

section \<open>The primary signer\<close>

definition not_registered :: "string \<Rightarrow> js_error" where
  "not_registered advice = Error (''This passkey is not registered on any authorization rule of the account.'' @ advice)"

definition signingSource :: "'d signer_env \<Rightarrow> string result" where
  "signingSource env =
     (if relayerEnabled (sg_relayerUrl env) then
        (if sg_simSource env = []
         then Inl (Error ''Relayer misconfigured: PUBLIC_RELAYER_URL is set but PUBLIC_RELAYER_SIM_SOURCE is not.'')
         else bindR (sg_getAccount env (sg_simSource env)) (\<lambda>_. Inr (sg_simSource env)))
      else bindR (sg_submitter env) (\<lambda>g. bindR (sg_getAccount env g) (\<lambda>_. Inr g)))"

text \<open>The signed transaction and the digest that was signed; the operation's own entries are stripped.\<close>

definition signOperation ::
  "'d signer_env \<Rightarrow> local_storage \<Rightarrow> string \<Rightarrow> host_function \<Rightarrow> string option \<Rightarrow>
   (string \<times> (wallet_op, 'd) transaction \<times> bytes) result" where
  "signOperation env s account operation verifierAddress =
     bindR (loadCredential s account) (\<lambda>found.
       (case found of
          None \<Rightarrow> Inl (Error ''No passkey registered for this account.'')
        | Some (credentialId, publicKey) \<Rightarrow>
            bindR (resolveSignerRule (sg_rpc env) account publicKey) (\<lambda>resolved.
              (case resolved of
                 None \<Rightarrow> Inl (not_registered '' If you just recovered, wait for the completion transaction to confirm and retry; otherwise this browser's stored passkey may not match the account on-chain.'')
               | Some (ruleId, verifier) \<Rightarrow>
                   bindR (signingSource env) (\<lambda>source.
                   bindR (sg_simulate env source 10000000 operation) (\<lambda>sim.
                   bindR (getAuthEntry (ss_auth sim)) (\<lambda>authEntry.
                   bindR (buildAuthHash (sg_xdr env) (sg_preimage env) authEntry TESTNET (ss_latestLedger sim)
                            (expirationOffset env)) (\<lambda>signaturePayload.
                   let challengeBytes = computeAuthDigest (sg_xdr env) signaturePayload [ruleId]
                   in bindR (sg_assert env 0 (Some credentialId) challengeBytes) (\<lambda>assertion.
                      (case assertion of
                         None \<Rightarrow> Inl (Error ''Passkey signing was cancelled.'')
                       | Some (ad, cd, sig) \<Rightarrow>
                           bindR (parseAssertionResponse ad cd sig) (\<lambda>parsed.
                           bindR (injectPasskeySignature (sg_xdr env) (tx_operations (ss_assembled sim)) parsed
                                    (orElse verifierAddress verifier) (hex2buf publicKey) (ss_latestLedger sim)
                                    (expirationOffset env) [ruleId]) (\<lambda>ops.
                             Inr (source, (ss_assembled sim)\<lparr>tx_operations := ops\<rparr>, challengeBytes)))))))))))))"

text \<open>The hash of the transaction and the hexadecimal digest.\<close>

definition signAndSubmit ::
  "'d signer_env \<Rightarrow> local_storage \<Rightarrow> string \<Rightarrow> host_function \<Rightarrow> string option \<Rightarrow> relayer_error + string \<times> string" where
  "signAndSubmit env s account operation verifierAddress =
     (case signOperation env s account operation verifierAddress of
        Inl e \<Rightarrow> Inl (NetworkError e)
      | Inr (source, tx, challengeBytes) \<Rightarrow>
          if relayerEnabled (sg_relayerUrl env) then
            bindR (relayerSubmitAndConfirm (sg_fetch env) (sg_poll env) (txFuncAndAuth env tx) (sg_relayerUrl env)) (\<lambda>hash.
              Inr (hash, buf2hex challengeBytes))
          else (case classicSubmitAndPoll (sg_server env) tx source of
                  Inl e \<Rightarrow> Inl (NetworkError e)
                | Inr hash \<Rightarrow> Inr (hash, buf2hex challengeBytes)))"

section \<open>Signing for a dApp\<close>

definition requiredSignatureCount :: "default_rule_info \<Rightarrow> nat" where
  "requiredSignatureCount info =
     (if policyCount info > 0 then max 1 (orElse (rule_threshold info) 1)
      else max 1 (length (externalSigners info) + delegatedCount info))"

text \<open>The help text without its fixed second part; \<open>ofAll\<close> counts all signers of the rule.\<close>

definition nOfNHelp :: "nat \<Rightarrow> nat \<Rightarrow> string" where
  "nOfNHelp required ofAll =
     ''This account currently requires all '' @ showNat required @ '' of its '' @ showNat ofAll @
     '' passkeys to approve together''"

definition sorobanFunc :: "tx_op list \<Rightarrow> host_function option" where
  "sorobanFunc ops = (case ops of [InvokeHostFunction hf _] \<Rightarrow> Some hf | _ \<Rightarrow> None)"

definition runAssertionCeremony ::
  "'d signer_env \<Rightarrow> nat \<Rightarrow> bytes \<Rightarrow> bytes option \<Rightarrow> passkey_signature result" where
  "runAssertionCeremony env i challenge credentialId =
     (case sg_assert env i credentialId challenge of
        Inl e \<Rightarrow> Inl (if sg_not_allowed env e then Error ''Passkey signing was cancelled.'' else e)
      | Inr None \<Rightarrow> Inl (Error ''Passkey signing was cancelled.'')
      | Inr (Some (ad, cd, sig)) \<Rightarrow> parseAssertionResponse ad cd sig)"

definition cancelled :: "js_error \<Rightarrow> bool" where
  "cancelled e \<longleftrightarrow> str_includes (toLowerCase (error_message e)) ''cancelled''"

definition wrapCancel :: "nat \<Rightarrow> nat \<Rightarrow> nat \<Rightarrow> passkey_signature result \<Rightarrow> passkey_signature result" where
  "wrapCancel got required ofAll r =
     (case r of
        Inl e \<Rightarrow> Inl (if cancelled e
          then Error (''Signing stopped after '' @ showNat got @ '' of '' @ showNat required @
                 '' required passkey approvals. '' @ nOfNHelp required ofAll)
          else e)
      | Inr sig \<Rightarrow> Inr sig)"

text \<open>The signers still awaited, by the lower-case hexadecimal form of their keys, in order.\<close>

type_synonym awaited = "(string \<times> string \<times> bytes) list"

definition keyHex :: "bytes \<Rightarrow> string" where
  "keyHex pk = toLowerCase (buf2hex pk)"

definition awaitedSigners :: "default_rule_info \<Rightarrow> awaited" where
  "awaitedSigners info = foldl (\<lambda>m (v, pk). putMember m (keyHex pk) (v, pk)) [] (externalSigners info)"

definition dropKey :: "string \<Rightarrow> awaited \<Rightarrow> awaited" where
  "dropKey k m = filter (\<lambda>(k', _). k' \<noteq> k) m"

fun discoverSigners ::
  "'d signer_env \<Rightarrow> bytes \<Rightarrow> nat \<Rightarrow> nat \<Rightarrow> nat \<Rightarrow> awaited \<Rightarrow> signer_signature list \<Rightarrow> signer_signature list result" where
  "discoverSigners env challenge required ofAll 0 remaining collected = Inr collected"
| "discoverSigners env challenge required ofAll (Suc n) remaining collected =
     bindR (wrapCancel (length collected) required ofAll
              (runAssertionCeremony env (length collected) challenge None)) (\<lambda>sig.
       (case identifyAssertionSigner (sg_verify env) (sha256 (sg_xdr env)) sig (map (\<lambda>(_, _, pk). pk) remaining) of
          None \<Rightarrow> Inl (Error (''That passkey is not one of this account's remaining signers (or was already used in this ceremony). '' @
                     nOfNHelp required ofAll))
        | Some idx \<Rightarrow>
            (case snd (remaining ! idx) of (verifier, pk) \<Rightarrow>
               discoverSigners env challenge required ofAll n (dropKey (keyHex pk) remaining)
                 (collected @ [ExternalSig verifier pk sig]))))"

definition collectMultiPasskeySignatures ::
  "'d signer_env \<Rightarrow> default_rule_info \<Rightarrow> nat \<Rightarrow> bytes \<Rightarrow> bytes \<times> string \<Rightarrow> signer_signature list result" where
  "collectMultiPasskeySignatures env ruleInfo required challenge storedCred =
     (let remaining = awaitedSigners ruleInfo; storedHex = toLowerCase (snd storedCred);
          ofAll = length (externalSigners ruleInfo) + delegatedCount ruleInfo
      in case map_of remaining storedHex of
           None \<Rightarrow> discoverSigners env challenge required ofAll required remaining []
         | Some (verifier, pk) \<Rightarrow>
             bindR (wrapCancel 0 required ofAll (runAssertionCeremony env 0 challenge (Some (fst storedCred)))) (\<lambda>sig.
               discoverSigners env challenge required ofAll (required - 1) (dropKey storedHex remaining)
                 [ExternalSig verifier pk sig]))"

text \<open>Whether the ceremony can satisfy the rule at all; an unreadable rule counts as one signature.\<close>

definition preflight :: "default_rule_info option \<Rightarrow> nat result" where
  "preflight ruleInfo =
     (case ruleInfo of
        None \<Rightarrow> Inr 1
      | Some info \<Rightarrow>
          let required = requiredSignatureCount info; ofAll = length (externalSigners info) + delegatedCount info
          in if required > 1 \<and> (policyCount info = 0 \<and> delegatedCount info > 0 \<or> required > length (externalSigners info))
             then Inl (Error (nOfNHelp required ofAll)) else Inr required)"

definition readRuleInfo :: "'d signer_env \<Rightarrow> string \<Rightarrow> nat \<Rightarrow> default_rule_info option" where
  "readRuleInfo env account rid =
     (case fetchDefaultRuleAuthInfo (sg_rpc env) (sg_state env account) account rid of
        Inr info \<Rightarrow> Some info | Inl _ \<Rightarrow> None)"

text \<open>One ceremony, or all those the rule requires.\<close>

definition collectSignatures ::
  "'d signer_env \<Rightarrow> default_rule_info option \<Rightarrow> nat \<Rightarrow> bytes \<Rightarrow> bytes \<times> string \<Rightarrow> string \<Rightarrow> signer_signature list result" where
  "collectSignatures env ruleInfo required challengeBytes cred verifierAddress =
     (case (if required \<le> 1 then None else ruleInfo) of
        None \<Rightarrow> bindR (runAssertionCeremony env 0 challengeBytes (Some (fst cred))) (\<lambda>sig.
          Inr [ExternalSig verifierAddress (hex2buf (snd cred)) sig])
      | Some info \<Rightarrow> collectMultiPasskeySignatures env info required challengeBytes cred)"

definition signTransactionXdr ::
  "'d signer_env \<Rightarrow> local_storage \<Rightarrow> string \<Rightarrow> string \<Rightarrow> string option \<Rightarrow> string result" where
  "signTransactionXdr env s account txXdr passphrase =
     (let networkPassphrase = orElse passphrase TESTNET in
      bindR (loadCredential s account) (\<lambda>found.
       (case found of
          None \<Rightarrow> Inl (Error ''No passkey registered for this account.'')
        | Some cred \<Rightarrow>
            bindR (sg_parseTx env txXdr networkPassphrase) (\<lambda>parsed.
              (case parsed of
                 FeeBumpTx \<Rightarrow> Inl (Error ''Fee-bump transactions are not supported by the Nido passkey signer.'')
               | PlainTx source fee ops \<Rightarrow>
                   (case sorobanFunc ops of
                      None \<Rightarrow> Inl (Error (''This transaction is not a Soroban contract invocation. A Nido smart account (a contract address) can only '' @
                                ''authorize Soroban operations, so there is nothing for the passkey to sign on a classic Stellar transaction.''))
                    | Some func \<Rightarrow>
                        bindR (resolveSignerRule (sg_rpc env) account (snd cred)) (\<lambda>resolved.
                          (case resolved of
                             None \<Rightarrow> Inl (not_registered '' If you just recovered, wait for the completion transaction to confirm and retry.'')
                           | Some (ruleId, verifierAddress) \<Rightarrow>
                               let ruleInfo = readRuleInfo env account ruleId in
                               bindR (preflight ruleInfo) (\<lambda>required.
                               bindR (sg_getAccount env source) (\<lambda>_.
                               bindR (sg_simulate env source fee func) (\<lambda>sim.
                               bindR (getAuthEntry (ss_auth sim)) (\<lambda>authEntry.
                               bindR (buildAuthHash (sg_xdr env) (sg_preimage env) authEntry networkPassphrase
                                        (ss_latestLedger sim) (expirationOffset env)) (\<lambda>signaturePayload.
                               let challengeBytes = computeAuthDigest (sg_xdr env) signaturePayload [ruleId] in
                               bindR (collectSignatures env ruleInfo required challengeBytes cred verifierAddress) (\<lambda>signers.
                               bindR (injectSignedAuthPayload (sg_xdr env) (tx_operations (ss_assembled sim)) signers
                                        (ss_latestLedger sim) (expirationOffset env) [ruleId]) (\<lambda>ops'.
                               let assembledTx = (ss_assembled sim)\<lparr>tx_operations := ops'\<rparr> in
                               (case simulate_enforce (sg_server env) assembledTx of
                                  Inl _ \<Rightarrow> Inl (Error ''Final simulation failed'')
                                | Inr newSorobanData \<Rightarrow> Inr (sg_printTx env (refit assembledTx newSorobanData))))))))))))))))))"

section \<open>Messages and authorization entries\<close>

definition bytesToHex :: "bytes \<Rightarrow> string" where
  "bytesToHex b = concat (map (\<lambda>x. padStart 2 CHR ''0'' (toStringBase 16 (unat x))) b)"

definition base64urlJson :: "json \<Rightarrow> string" where
  "base64urlJson o' = filter (\<lambda>c. c \<noteq> CHR ''='') (map toUrlChar (btoa (utf8 (stringify o'))))"

definition passkeyAssertEnvelope :: "'d signer_env \<Rightarrow> local_storage \<Rightarrow> string \<Rightarrow> bytes \<Rightarrow> string result" where
  "passkeyAssertEnvelope env s account challenge32 =
     bindR (loadCredential s account) (\<lambda>found.
       (case found of
          None \<Rightarrow> Inl (Error ''No passkey registered for this account.'')
        | Some (credentialId, publicKey) \<Rightarrow>
            if length challenge32 \<noteq> 32 then Inl (Error ''challenge must be 32 bytes'')
            else bindR (sg_assert env 0 (Some credentialId) challenge32) (\<lambda>assertion.
              (case assertion of
                 None \<Rightarrow> Inl (Error ''Passkey signing was cancelled.'')
               | Some (ad, cd, sig) \<Rightarrow>
                   bindR (parseAssertionResponse ad cd sig) (\<lambda>sig.
                     Inr (base64urlJson (JObj [(''type'', JStr ''nido-webauthn-assertion''), (''publicKey'', JStr publicKey),
                       (''authenticatorData'', JStr (bytesToHex (authenticatorData sig))),
                       (''clientData'', JStr (bytesToHex (clientDataJson sig))),
                       (''signature'', JStr (bytesToHex (sig_compact sig)))])))))))"

definition signMessageRaw :: "'d signer_env \<Rightarrow> local_storage \<Rightarrow> string \<Rightarrow> string \<Rightarrow> string result" where
  "signMessageRaw env s account message = passkeyAssertEnvelope env s account (sha256 (sg_xdr env) (utf8 message))"

definition signAuthEntryXdr :: "'d signer_env \<Rightarrow> local_storage \<Rightarrow> string \<Rightarrow> string \<Rightarrow> string result" where
  "signAuthEntryXdr env s account authEntryXdr =
     bindR (loadCredential s account) (\<lambda>found.
       (case found of
          None \<Rightarrow> Inl (Error ''No passkey registered for this account.'')
        | Some (_, publicKey) \<Rightarrow>
            bindR (resolveSignerRule (sg_rpc env) account publicKey) (\<lambda>resolved.
              (case resolved of
                 None \<Rightarrow> Inl (not_registered [])
               | Some (ruleId, _) \<Rightarrow>
                   bindR (sg_preimageOf env authEntryXdr) (\<lambda>preimage.
                     passkeyAssertEnvelope env s account
                       (computeAuthDigest (sg_xdr env) (sha256 (sg_xdr env) preimage) [ruleId]))))))"

section \<open>Facts\<close>

lemma guard_Inr_iff:
  "(case x of None \<Rightarrow> Inl e | Some y \<Rightarrow> f y) = Inr r \<longleftrightarrow> (\<exists>y. x = Some y \<and> f y = Inr r)"
  "(case w of FeeBumpTx \<Rightarrow> Inl e' | PlainTx source fee ops \<Rightarrow> g source fee ops) = Inr r \<longleftrightarrow>
     (\<exists>source fee ops. w = PlainTx source fee ops \<and> g source fee ops = Inr r)"
  "(case y of Inl u \<Rightarrow> Inl (h u) | Inr z \<Rightarrow> k z) = Inr r \<longleftrightarrow> (\<exists>z. y = Inr z \<and> k z = Inr r)"
  by (simp_all split: option.split wallet_tx.split sum.split)

lemma firstVerifyingD:
  "firstVerifying verify s d i cs = Some k \<Longrightarrow>
     i \<le> k \<and> k - i < length cs \<and> verify s d (cs ! (k - i)) = Inr True"
proof (induction cs arbitrary: i)
  case (Cons c cs)
  show ?case
  proof (cases "verify s d c = Inr True")
    case False
    with Cons show ?thesis by (force simp: nth_Cons' Suc_diff_le dest: Cons.IH [of "Suc i"])
  qed (use Cons.prems in simp)
qed simp

lemma identifyD:
  assumes "identifyAssertionSigner verify sha s cs = Some k"
  shows "k < length cs" "verify (sig_compact s) (assertionDigest sha (authenticatorData s) (clientDataJson s)) (cs ! k) = Inr True"
  using firstVerifyingD [OF assms [unfolded identifyAssertionSigner_def]] by simp_all

text \<open>The key a signature is collected for, and the check of one that a discoverable ceremony returned.\<close>

definition signerKey :: "signer_signature \<Rightarrow> string" where
  "signerKey s = (case s of ExternalSig _ pk _ \<Rightarrow> keyHex pk | DelegatedSig _ _ \<Rightarrow> [])"

definition checked :: "'d signer_env \<Rightarrow> signer_signature \<Rightarrow> bool" where
  "checked env s = (case s of
     ExternalSig _ pk sig \<Rightarrow>
       sg_verify env (sig_compact sig) (assertionDigest (sha256 (sg_xdr env)) (authenticatorData sig) (clientDataJson sig)) pk
         = Inr True
   | DelegatedSig _ _ \<Rightarrow> False)"

definition of_signer :: "(string \<times> bytes) set \<Rightarrow> signer_signature \<Rightarrow> bool" where
  "of_signer S s = (case s of ExternalSig v pk _ \<Rightarrow> (v, pk) \<in> S | DelegatedSig _ _ \<Rightarrow> False)"

text \<open>
  The \<open>i\<close>-th ceremony asserted this digest, with this credential or, for \<open>None\<close>, with one the
  user picked; the latter is then identified by its signature.
\<close>

definition asserted :: "'d signer_env \<Rightarrow> bytes \<Rightarrow> nat \<Rightarrow> bytes option \<Rightarrow> passkey_signature \<Rightarrow> bool" where
  "asserted env challenge i credentialId sig \<longleftrightarrow> (\<exists>ad cd der.
     sg_assert env i credentialId challenge = Inr (Some (ad, cd, der)) \<and> parseAssertionResponse ad cd der = Inr sig)"

definition by_stored :: "'d signer_env \<Rightarrow> bytes \<Rightarrow> bytes \<Rightarrow> nat \<Rightarrow> signer_signature \<Rightarrow> bool" where
  "by_stored env challenge cid i s \<longleftrightarrow> i = 0 \<and> (\<exists>v pk sig. s = ExternalSig v pk sig \<and> asserted env challenge 0 (Some cid) sig)"

definition by_discovery :: "'d signer_env \<Rightarrow> bytes \<Rightarrow> nat \<Rightarrow> signer_signature \<Rightarrow> bool" where
  "by_discovery env challenge i s \<longleftrightarrow>
     (\<exists>v pk sig. s = ExternalSig v pk sig \<and> asserted env challenge i None sig) \<and> checked env s"

lemma ceremony_asserted: "runAssertionCeremony env i ch cid = Inr sig \<Longrightarrow> asserted env ch i cid sig"
  by (auto simp: runAssertionCeremony_def asserted_def split: sum.splits option.splits)

lemma wrapCancel_Inr: "wrapCancel got required ofAll r = Inr sig \<longleftrightarrow> r = Inr sig"
  by (cases r) (auto simp: wrapCancel_def)

lemma of_signer_mono: "of_signer S s \<Longrightarrow> S \<subseteq> T \<Longrightarrow> of_signer T s"
  by (auto simp: of_signer_def split: signer_signature.splits)

lemma of_signer_External [simp]: "of_signer S (ExternalSig v pk sig) \<longleftrightarrow> (v, pk) \<in> S"
  by (simp add: of_signer_def)

definition awaited_ok :: "awaited \<Rightarrow> bool" where
  "awaited_ok m \<longleftrightarrow> distinct (map fst m) \<and> (\<forall>(k, v, pk) \<in> set m. k = keyHex pk)"

lemma awaited_ok_put: "awaited_ok m \<Longrightarrow> awaited_ok (putMember m (keyHex pk) (v, pk))"
  using set_putMember_values [of m "keyHex pk" "(v, pk)"]
  by (fastforce simp: awaited_ok_def intro: distinct_putMember)

lemma awaited_signers: "awaited_ok (awaitedSigners info)" "snd ` set (awaitedSigners info) \<subseteq> set (externalSigners info)"
proof -
  have "awaited_ok m \<and> snd ` set m \<subseteq> S \<Longrightarrow> set xs \<subseteq> S \<Longrightarrow>
      awaited_ok (foldl (\<lambda>m (v, pk). putMember m (keyHex pk) (v, pk)) m xs) \<and>
      snd ` set (foldl (\<lambda>m (v, pk). putMember m (keyHex pk) (v, pk)) m xs) \<subseteq> S" for m xs S
  proof (induction xs arbitrary: m)
    case (Cons x xs)
    obtain v pk where x: "x = (v, pk)" by (cases x)
    have "snd ` set (putMember m (keyHex pk) (v, pk)) \<subseteq> S"
      using Cons.prems x set_putMember_values [of m "keyHex pk" "(v, pk)"] by (fastforce dest: subsetD)
    then show ?case
      using Cons.prems x by (simp add: Cons.IH awaited_ok_put)
  qed simp
  from this [of "[]" "set (externalSigners info)" "externalSigners info"]
  show "awaited_ok (awaitedSigners info)" "snd ` set (awaitedSigners info) \<subseteq> set (externalSigners info)"
    by (simp_all add: awaitedSigners_def awaited_ok_def)
qed

lemma awaited_ok_drop: "awaited_ok m \<Longrightarrow> awaited_ok (dropKey k m)"
  by (auto simp: awaited_ok_def dropKey_def intro: distinct_map_filter)

lemma set_dropKey [simp]: "e \<in> set (dropKey k m) \<longleftrightarrow> e \<in> set m \<and> fst e \<noteq> k"
  by (auto simp: dropKey_def)

lemma keys_dropKey: "fst ` set (dropKey k m) = fst ` set m - {k}"
  by auto

lemma dropKey_signers: "snd ` set (dropKey k m) \<subseteq> snd ` set m"
  by (auto simp: dropKey_def)

lemma sigKey_External [simp]: "signerKey (ExternalSig v pk sig) = keyHex pk"
  by (simp add: signerKey_def)

lemma discovered:
  assumes "discoverSigners env ch required ofAll n m collected = Inr sigs" "awaited_ok m"
    and "distinct (map signerKey collected)" "fst ` set m \<inter> signerKey ` set collected = {}"
  shows "\<exists>more. sigs = collected @ more \<and> length more = n \<and> distinct (map signerKey sigs) \<and>
    (\<forall>s \<in> set more. of_signer (snd ` set m) s) \<and>
    (\<forall>j < n. by_discovery env ch (length collected + j) (more ! j))"
  using assms
proof (induction n arbitrary: m collected)
  case (Suc n)
  from Suc.prems(1) obtain sig idx where
    ran: "runAssertionCeremony env (length collected) ch None = Inr sig"
    and idx: "identifyAssertionSigner (sg_verify env) (sha256 (sg_xdr env)) sig (map (\<lambda>(_, _, pk). pk) m) = Some idx"
    and rest: "(case snd (m ! idx) of (v, pk) \<Rightarrow>
      discoverSigners env ch required ofAll n (dropKey (keyHex pk) m) (collected @ [ExternalSig v pk sig])) = Inr sigs"
    by (auto simp: result_simps wrapCancel_Inr split: option.splits)
  obtain k v pk where kv: "m ! idx = (k, v, pk)" by (cases "m ! idx") auto
  have lt: "idx < length m" using identifyD(1) [OF idx] by simp
  with kv have mem: "(k, v, pk) \<in> set m" by (metis nth_mem)
  with Suc.prems(2) have k: "k = keyHex pk" by (auto simp: awaited_ok_def)
  have "checked env (ExternalSig v pk sig)"
    using identifyD(2) [OF idx] lt kv by (simp add: checked_def)
  then have ok: "by_discovery env ch (length collected) (ExternalSig v pk sig)"
    using ceremony_asserted [OF ran] by (simp add: by_discovery_def)
  have new: "signerKey (ExternalSig v pk sig) \<notin> signerKey ` set collected"
    using Suc.prems(4) mem k by force
  have "\<exists>more. sigs = (collected @ [ExternalSig v pk sig]) @ more \<and> length more = n \<and> distinct (map signerKey sigs) \<and>
    (\<forall>s \<in> set more. of_signer (snd ` set (dropKey (keyHex pk) m)) s) \<and>
    (\<forall>j < n. by_discovery env ch (length (collected @ [ExternalSig v pk sig]) + j) (more ! j))"
    using rest kv Suc.prems(2,3,4) new
    by (intro Suc.IH) (auto simp: awaited_ok_drop keys_dropKey)
  then obtain more where more: "sigs = (collected @ [ExternalSig v pk sig]) @ more" "length more = n" "distinct (map signerKey sigs)"
    "\<forall>s \<in> set more. of_signer (snd ` set (dropKey (keyHex pk) m)) s"
    "\<forall>j < n. by_discovery env ch (Suc (length collected) + j) (more ! j)"
    by auto
  have "by_discovery env ch (length collected + j) ((ExternalSig v pk sig # more) ! j)" if "j < Suc n" for j
    using that ok more(5) by (cases j) auto
  with more mem show ?case
    by (intro exI [of _ "ExternalSig v pk sig # more"]) (auto intro: of_signer_mono [OF _ dropKey_signers] rev_image_eqI)
qed simp

lemma collected_signatures:
  assumes "collectMultiPasskeySignatures env info required ch cred = Inr sigs" "0 < required"
  shows "length sigs = required" "distinct (map signerKey sigs)"
    "\<forall>s \<in> set sigs. of_signer (set (externalSigners info)) s"
    "\<forall>i < length sigs. by_stored env ch (fst cred) i (sigs ! i) \<and> signerKey (sigs ! i) = toLowerCase (snd cred) \<or>
       by_discovery env ch i (sigs ! i)"
proof -
  let ?m = "awaitedSigners info" and ?k = "toLowerCase (snd cred)"
    and ?all = "length (externalSigners info) + delegatedCount info"
  have sub: "x \<in> set (externalSigners info)" if "x \<in> snd ` set ?m" for x
    using awaited_signers(2) that by blast
  have "length sigs = required \<and> distinct (map signerKey sigs) \<and>
    (\<forall>s \<in> set sigs. of_signer (set (externalSigners info)) s) \<and>
    (\<forall>i < length sigs. by_stored env ch (fst cred) i (sigs ! i) \<and> signerKey (sigs ! i) = ?k \<or> by_discovery env ch i (sigs ! i))"
  proof (cases "map_of ?m ?k")
    case None
    with assms(1) have "discoverSigners env ch required ?all required ?m [] = Inr sigs"
      by (simp add: collectMultiPasskeySignatures_def Let_def)
    from discovered [OF this awaited_signers(1)] show ?thesis using awaited_signers(2) [of info] by (auto intro: of_signer_mono)
  next
    case (Some vp)
    obtain v pk where vp: "vp = (v, pk)" by (cases vp)
    with Some have mem: "(?k, v, pk) \<in> set ?m" by (simp add: map_of_SomeD)
    then have k: "?k = keyHex pk" using awaited_signers(1) [of info] by (auto simp: awaited_ok_def)
    from assms(1) Some vp obtain sig where
      ran: "runAssertionCeremony env 0 ch (Some (fst cred)) = Inr sig"
      and run: "discoverSigners env ch required ?all (required - 1) (dropKey ?k ?m) [ExternalSig v pk sig] = Inr sigs"
      by (auto simp: collectMultiPasskeySignatures_def Let_def result_simps wrapCancel_Inr)
    have "\<exists>more. sigs = [ExternalSig v pk sig] @ more \<and> length more = required - 1 \<and> distinct (map signerKey sigs) \<and>
      (\<forall>s \<in> set more. of_signer (snd ` set (dropKey ?k ?m)) s) \<and>
      (\<forall>j < required - 1. by_discovery env ch (length [ExternalSig v pk sig] + j) (more ! j))"
      using run by (rule discovered) (auto simp: awaited_ok_drop awaited_signers keys_dropKey k)
    then obtain more where more: "sigs = ExternalSig v pk sig # more" "length more = required - 1" "distinct (map signerKey sigs)"
      "\<forall>s \<in> set more. of_signer (snd ` set (dropKey ?k ?m)) s"
      "\<forall>j < required - 1. by_discovery env ch (Suc j) (more ! j)"
      by auto
    have all: "\<forall>s \<in> set more. of_signer (set (externalSigners info)) s"
      using more(4) awaited_signers(2) [of info] by (fastforce elim: of_signer_mono)
    have first: "(v, pk) \<in> set (externalSigners info)" using sub mem by force
    have stored: "by_stored env ch (fst cred) 0 (ExternalSig v pk sig) \<and> signerKey (ExternalSig v pk sig) = ?k"
      using ceremony_asserted [OF ran] k by (simp add: by_stored_def)
    have "by_stored env ch (fst cred) i (sigs ! i) \<and> signerKey (sigs ! i) = ?k \<or> by_discovery env ch i (sigs ! i)"
      if "i < length sigs" for i
      using that stored more(1,2,5) by (cases i) auto
    then show ?thesis
      using more(1-3) all first assms(2) k by auto
  qed
  then show "length sigs = required" "distinct (map signerKey sigs)"
    "\<forall>s \<in> set sigs. of_signer (set (externalSigners info)) s"
    "\<forall>i < length sigs. by_stored env ch (fst cred) i (sigs ! i) \<and> signerKey (sigs ! i) = ?k \<or> by_discovery env ch i (sigs ! i)"
    by simp_all
qed

text \<open>
  What the SDK's \<open>assembleTransaction\<close> does with an operation without entries: the simulated
  ones are written into it.
\<close>

definition assembles :: "'d signer_env \<Rightarrow> bool" where
  "assembles env \<longleftrightarrow> (\<forall>source fee hf sim. sg_simulate env source fee hf = Inr sim \<longrightarrow>
     tx_operations (ss_assembled sim) = [\<lparr>op_hostFunction = hf, op_authEntries = ss_auth sim\<rparr>])"

text \<open>
  The entry that is submitted: the digest that the account recomputes from it, the rules and the
  signatures it carries, and the invocation it authorizes.
\<close>

definition authorizes ::
  "'d signer_env \<Rightarrow> string \<Rightarrow> auth \<Rightarrow> auth \<Rightarrow> bytes \<Rightarrow> nat \<Rightarrow> signer_signature list \<Rightarrow> bool" where
  "authorizes env network e0 e challenge rid sigs \<longleftrightarrow>
     contract_digest (sg_xdr env) (sg_preimage env) network e = Some challenge \<and>
     ae_invocation e = ae_invocation e0 \<and>
     (\<exists>c v. ae_creds e = Some c \<and> cred_signature c = Some v \<and>
        buildAuthPayloadScVal (sg_xdr env) \<lparr>ap_rule_ids = [rid], ap_signers = sigs\<rparr> = Inr v)"

lemma injected_authorizes:
  assumes "injectSignedAuthPayload (sg_xdr env) [\<lparr>op_hostFunction = hf, op_authEntries = auth\<rparr>] sigs ledger offset [rid] = Inr ops'"
    and "getAuthEntry auth = Inr e"
    and "buildAuthHash (sg_xdr env) (sg_preimage env) e network ledger offset = Inr payload"
  shows "\<exists>e' rest. auth = Some (e # rest) \<and> ops' = [\<lparr>op_hostFunction = hf, op_authEntries = Some (e' # rest)\<rparr>] \<and>
    authorizes env network e e' (computeAuthDigest (sg_xdr env) payload [rid]) rid sigs"
proof -
  from assms(2) obtain rest where auth: "auth = Some (e # rest)"
    by (auto simp: getAuthEntry_def split: option.splits list.splits)
  from injected_digest [OF assms(1) _ assms(3), of rest] auth show ?thesis
    by (fastforce simp: authorizes_def)
qed

lemma resolved_first:
  assumes "serves rpc account live" "resolveSignerRule rpc account hex = Inr (Some h)"
  shows "first_hit (toLowerCase hex) live h"
proof -
  from assms(2) have "signerScan (getRule rpc account) (toLowerCase hex) (card (dom live)) (card (dom live) + 100) 0 (below live 0) = Inr (Some h)"
    by (simp add: resolveSignerRule_def servesD(2) [OF assms(1)] result_simps)
  from signerScan_sound [OF assms(1) _ this] show ?thesis by simp
qed

text \<open>What the collected signatures are: one by the stored credential, or several by different keys.\<close>

definition collected_ok ::
  "'d signer_env \<Rightarrow> default_rule_info option \<Rightarrow> bytes \<Rightarrow> bytes \<times> string \<Rightarrow> string \<Rightarrow> signer_signature list \<Rightarrow> bool" where
  "collected_ok env ruleInfo challenge cred verifier sigs \<longleftrightarrow>
     length sigs = (case ruleInfo of None \<Rightarrow> 1 | Some info \<Rightarrow> requiredSignatureCount info) \<and>
     (length sigs = 1 \<longrightarrow> (\<exists>sig. sigs = [ExternalSig verifier (hex2buf (snd cred)) sig] \<and>
        asserted env challenge 0 (Some (fst cred)) sig)) \<and>
     (\<forall>info. 1 < length sigs \<and> ruleInfo = Some info \<longrightarrow> distinct (map signerKey sigs) \<and>
        (\<forall>x \<in> set sigs. of_signer (set (externalSigners info)) x) \<and>
        (\<forall>i < length sigs. by_stored env challenge (fst cred) i (sigs ! i) \<and> signerKey (sigs ! i) = toLowerCase (snd cred) \<or>
           by_discovery env challenge i (sigs ! i)))"

lemma collected_for_rule:
  assumes "collectSignatures env ruleInfo required ch cred v = Inr sigs" "preflight ruleInfo = Inr required"
  shows "collected_ok env ruleInfo ch cred v sigs"
proof (cases "required \<le> 1")
  case True
  with assms(1) obtain sig where sigs: "sigs = [ExternalSig v (hex2buf (snd cred)) sig]"
    "runAssertionCeremony env 0 ch (Some (fst cred)) = Inr sig"
    by (auto simp: collectSignatures_def bindR_Inr_iff)
  have "(case ruleInfo of None \<Rightarrow> 1 | Some info \<Rightarrow> requiredSignatureCount info) = 1"
    using assms(2) True by (auto simp: preflight_def Let_def requiredSignatureCount_def split: if_splits option.splits)
  with sigs ceremony_asserted [OF sigs(2)] show ?thesis by (simp add: collected_ok_def)
next
  case False
  with assms(2) obtain info where info: "ruleInfo = Some info" by (cases ruleInfo) (auto simp: preflight_def)
  have required: "required = requiredSignatureCount info" "1 < required"
    using assms(2) info False by (auto simp: preflight_def Let_def split: if_splits)
  from assms(1) info False have "collectMultiPasskeySignatures env info required ch cred = Inr sigs"
    by (simp add: collectSignatures_def)
  from collected_signatures [OF this] required info show ?thesis by (simp add: collected_ok_def)
qed

section \<open>Properties\<close>

text \<open>
  C2. The passkey signs for the right rule: whatever \<open>signAndSubmit\<close> sends carries, in place of the
  simulated entry and for the same invocation, an entry whose only rule is the first live rule that
  has this device's key, whose only signature is an assertion by the stored credential, over
  exactly the digest that the account recomputes from that entry.
\<close>

theorem primary_signature_authorizes:
  assumes "serves (sg_rpc env) account live" "assembles env"
    and "signOperation env s account operation v = Inr (source, tx, challenge)"
  shows "\<exists>cid pk rid verifier sim e e' rest ad cd sig parsed.
    loadCredential s account = Inr (Some (cid, pk)) \<and> first_hit (toLowerCase pk) live (rid, verifier) \<and>
    sg_simulate env source 10000000 operation = Inr sim \<and> ss_auth sim = Some (e # rest) \<and>
    tx_operations tx = [\<lparr>op_hostFunction = operation, op_authEntries = Some (e' # rest)\<rparr>] \<and>
    sg_assert env 0 (Some cid) challenge = Inr (Some (ad, cd, sig)) \<and> parseAssertionResponse ad cd sig = Inr parsed \<and>
    authorizes env TESTNET e e' challenge rid [ExternalSig (orElse v verifier) (hex2buf pk) parsed]"
proof -
  from assms(3) obtain cid pk rid verifier sim e payload ad cd sig parsed ops where
    cred: "loadCredential s account = Inr (Some (cid, pk))"
    and r: "resolveSignerRule (sg_rpc env) account pk = Inr (Some (rid, verifier))"
    and sim: "sg_simulate env source 10000000 operation = Inr sim"
    and e: "getAuthEntry (ss_auth sim) = Inr e"
    and payload: "buildAuthHash (sg_xdr env) (sg_preimage env) e TESTNET (ss_latestLedger sim) (expirationOffset env) = Inr payload"
    and ch: "challenge = computeAuthDigest (sg_xdr env) payload [rid]"
    and a: "sg_assert env 0 (Some cid) challenge = Inr (Some (ad, cd, sig))" "parseAssertionResponse ad cd sig = Inr parsed"
    and inj: "injectPasskeySignature (sg_xdr env) (tx_operations (ss_assembled sim)) parsed (orElse v verifier)
      (hex2buf pk) (ss_latestLedger sim) (expirationOffset env) [rid] = Inr ops"
    and tx: "tx = (ss_assembled sim)\<lparr>tx_operations := ops\<rparr>"
    by (auto simp: signOperation_def result_simps Let_def split: option.splits)
  have baked: "tx_operations (ss_assembled sim) = [\<lparr>op_hostFunction = operation, op_authEntries = ss_auth sim\<rparr>]"
    using assms(2) sim unfolding assembles_def by blast
  note inj' = inj [unfolded injectPasskeySignature_def baked]
  show ?thesis
    using injected_authorizes [OF inj' e payload] resolved_first [OF assms(1) r] cred sim a tx ch
    by (fastforce)
qed


text \<open>A sample device of the account \<open>CA\<close>, whose key is in rule 1, with a platform that answers the same every time.\<close>

definition sample_device :: local_storage where
  "sample_device = saveCredential ''CA'' [1] [4] Map.empty"

definition sample_call :: host_function where
  "sample_call = HostInvoke ''CA'' ''set_key'' []"

definition sample_entry :: auth where
  "sample_entry = \<lparr>ae_creds = Some \<lparr>cred_address = ''CA'', cred_nonce = 7, cred_expiration = 0, cred_signature = None\<rparr>,
     ae_invocation = Invocation (ContractFn ''CA'' ''set_key'' []) []\<rparr>"

definition sample_sim :: "host_function \<Rightarrow> unit sim_success" where
  "sample_sim hf = \<lparr>ss_auth = Some [sample_entry], ss_latestLedger = 100, ss_retval = None,
     ss_assembled = \<lparr>tx_fee = 200, tx_operations = [\<lparr>op_hostFunction = hf, op_authEntries = Some [sample_entry]\<rparr>],
       tx_sorobanData = None, tx_signers = []\<rparr>\<rparr>"

definition sample_der :: bytes where
  "sample_der = [0x30, 6, 2, 1, 1, 2, 1, 1]"

definition sample_signer :: "unit signer_env" where
  "sample_signer = \<lparr>sg_xdr = sample_lib, sg_preimage = \<lambda>_ n x _. [of_int n, of_nat x], sg_rpc = sample_chain,
     sg_state = \<lambda>_ _. Inr Map.empty, sg_relayerUrl = [], sg_simSource = [], sg_submitter = Inr ''G'',
     sg_getAccount = \<lambda>_. Inr (), sg_simulate = \<lambda>_ _ hf. Inr (sample_sim hf),
     sg_assert = \<lambda>_ _ _. Inr (Some ([1], [2], sample_der)), sg_not_allowed = \<lambda>_. False,
     sg_verify = \<lambda>_ _ _. Inr True, sg_fetch = \<lambda>_ _. Inl (Error ''offline''), sg_poll = \<lambda>_ _ _. Inl (Error ''offline''),
     sg_server = \<lparr>simulate_enforce = \<lambda>_. Inr ((), 5), send_transaction = \<lambda>_. (SendError, []), get_transaction = \<lambda>_ _. GetNotFound\<rparr>,
     sg_parseTx = \<lambda>_ _. Inr (PlainTx ''G'' 100 [InvokeHostFunction sample_call []]), sg_printTx = \<lambda>_. ''signed'',
     sg_funcXDR = \<lambda>_. [], sg_entryXDR = \<lambda>_. [],
     sg_preimageOf = \<lambda>_. Inr []\<rparr>"

lemma sample_loaded: "loadCredential sample_device ''CA'' = Inr (Some ([1], ''04''))"
proof -
  have "buf2hex [4] = ''04''" by code_simp
  then show ?thesis by (simp add: sample_device_def credential_loaded)
qed

lemma sample_resolved: "resolveSignerRule sample_chain ''CA'' ''04'' = Inr (Some (1, ''CV''))"
proof -
  note served = servesD [OF sample_serves]
  obtain e where e: "getRule sample_chain ''CA'' 0 = Inl e" "isRuleNotFound e" using served(4) [of 0] by auto
  have l: "toLowerCase ''04'' = ''04''" by code_simp
  have "signerScan (getRule sample_chain ''CA'') ''04'' 1 (Suc (Suc n)) 0 0 = Inr (Some (1, ''CV''))" for n
    using e served(3) [of 1] sample_hit by simp
  from this [of 99] served(2) show ?thesis by (simp add: resolveSignerRule_def l)
qed

lemma sample_parsed: "\<exists>sig. parseAssertionResponse [1] [2] sample_der = Inr sig"
proof -
  have "\<not> isl (derToCompact sample_der)" by code_simp
  then show ?thesis by (cases "derToCompact sample_der") (simp_all add: parseAssertionResponse_def)
qed

lemma sample_signer_env [simp]:
  "sg_rpc sample_signer = sample_chain" "sg_xdr sample_signer = sample_lib"
  "sg_simulate sample_signer source fee hf = Inr (sample_sim hf)" "sg_getAccount sample_signer a = Inr ()"
  "sg_assert sample_signer i cid ch = Inr (Some ([1], [2], sample_der))"
  "expirationOffset sample_signer = None" "signingSource sample_signer = Inr ''G''"
  "sg_parseTx sample_signer t p = Inr (PlainTx ''G'' 100 [InvokeHostFunction sample_call []])"
  "simulate_enforce (sg_server sample_signer) tx = Inr ((), 5)" "sg_printTx sample_signer tx = ''signed''"
  by (simp_all add: sample_signer_def expirationOffset_def signingSource_def relayerEnabled_def)

lemma sample_sim_simps [simp]:
  "ss_auth (sample_sim hf) = Some [sample_entry]" "ss_latestLedger (sample_sim hf) = 100"
  "tx_operations (ss_assembled (sample_sim hf)) = [\<lparr>op_hostFunction = hf, op_authEntries = Some [sample_entry]\<rparr>]"
  by (simp_all add: sample_sim_def)

lemma sample_assembles: "assembles sample_signer"
  by (auto simp: assembles_def)

lemma sample_injects:
  "\<exists>ops. injectSignedAuthPayload sample_lib [\<lparr>op_hostFunction = hf, op_authEntries = Some [sample_entry]\<rparr>]
     [ExternalSig v pk sig] ledger offset ids = Inr ops"
  by (simp add: injectSignedAuthPayload_def sample_entry_def buildAuthPayloadScVal_def signerScVal_def sample_lib_def Let_def)

lemma sample_hash: "\<exists>payload. buildAuthHash lib pre sample_entry network ledger offset = Inr payload"
  by (simp add: buildAuthHash_def buildAuthHashAt_def sample_entry_def)

lemma sample_signs: "\<exists>r. signOperation sample_signer sample_device ''CA'' sample_call None = Inr r"
proof -
  obtain sig where sig: "parseAssertionResponse [1] [2] sample_der = Inr sig" using sample_parsed by blast
  obtain payload where payload: "buildAuthHash sample_lib (sg_preimage sample_signer) sample_entry TESTNET 100 None = Inr payload"
    using sample_hash by blast
  obtain ops where "injectSignedAuthPayload sample_lib [\<lparr>op_hostFunction = sample_call, op_authEntries = Some [sample_entry]\<rparr>]
     [ExternalSig ''CV'' (hex2buf ''04'') sig] 100 None [1] = Inr ops" by (rule exE [OF sample_injects])
  with sig payload show ?thesis
    by (simp add: signOperation_def sample_loaded sample_resolved getAuthEntry_def injectPasskeySignature_def Let_def)
qed

theorem primary_signature_authorizes_witness:
  "\<exists>source tx challenge e'. signOperation sample_signer sample_device ''CA'' sample_call None = Inr (source, tx, challenge) \<and>
     op_authEntries (hd (tx_operations tx)) = Some [e'] \<and>
     contract_digest sample_lib (sg_preimage sample_signer) TESTNET e' = Some challenge"
proof -
  obtain source tx challenge where r: "signOperation sample_signer sample_device ''CA'' sample_call None = Inr (source, tx, challenge)"
    using sample_signs by (auto simp: prod_eq_iff)
  from primary_signature_authorizes [OF _ sample_assembles r, unfolded sample_signer_env(1), OF sample_serves] r
  show ?thesis by (fastforce simp: authorizes_def)
qed

lemma sample_single: "\<exists>sigs. collectSignatures sample_signer info 1 ch ([1], ''04'') ''CV'' = Inr [ExternalSig ''CV'' (hex2buf ''04'') sigs]"
  by (rule exE [OF sample_parsed]) (simp add: collectSignatures_def runAssertionCeremony_def)

lemma sample_info: "preflight (readRuleInfo sample_signer ''CA'' 1) = Inr 1"
proof -
  have "case parseRule sample_rule of Inr r \<Rightarrow> requiredSignatureCount \<lparr>externalSigners = externals (rule_signers r),
      delegatedCount = length (rule_signers r) - length (externals (rule_signers r)), policyCount = length (rule_policies r),
      rule_threshold = None\<rparr> = 1 \<and> rule_policies r = [] | Inl _ \<Rightarrow> False" by code_simp
  then show ?thesis
    using servesD(3) [OF sample_serves, of 1]
    by (auto simp: readRuleInfo_def fetchDefaultRuleAuthInfo_def preflight_def Let_def split: sum.splits)
qed

lemma sample_tx_signed: "signTransactionXdr sample_signer sample_device ''CA'' ''AAAA'' None = Inr ''signed''"
proof -
  obtain payload where payload: "buildAuthHash sample_lib (sg_preimage sample_signer) sample_entry TESTNET 100 None = Inr payload"
    using sample_hash by blast
  obtain sig where sigs: "collectSignatures sample_signer (readRuleInfo sample_signer ''CA'' 1) 1
      (computeAuthDigest sample_lib payload [1]) ([1], ''04'') ''CV'' = Inr [ExternalSig ''CV'' (hex2buf ''04'') sig]"
    using sample_single by blast
  obtain ops where "injectSignedAuthPayload sample_lib [\<lparr>op_hostFunction = sample_call, op_authEntries = Some [sample_entry]\<rparr>]
     [ExternalSig ''CV'' (hex2buf ''04'') sig] 100 None [1] = Inr ops" by (rule exE [OF sample_injects])
  with sigs payload show ?thesis
    by (simp add: signTransactionXdr_def sample_loaded sample_resolved sample_info [simplified] getAuthEntry_def sorobanFunc_def Let_def)
qed


end
