(* ===== verification/ZkOps.thy ===== *)
theory ZkOps
  imports Storage RecoveryServices AuthHash
begin

text \<open>
  The operations of a zero-knowledge recovery (\<open>zkRecovery/recovery.ts\<close>), the advisory note of a
  pending one (\<open>zkRecovery/overlay.ts\<close>), and the derivation of the secret from a wallet's
  signature (\<open>lib/walletRecoverySign.ts\<close>). The argument encoders generated from the contracts'
  interfaces are parameters, and so are ed25519 and the address codec.
\<close>

section \<open>Contract calls\<close>

text \<open>The JavaScript values that the builders give to a generated encoder.\<close>

datatype spec_arg =
    AString string
  | ABuffer bytes
  | AInt int
  | AUndefined
  | AEnum string "spec_arg list"
  | AList "spec_arg list"
  | AEmptyMap

type_synonym spec = "string \<Rightarrow> (string \<times> spec_arg) list \<Rightarrow> scval list result"

text \<open>\<open>newContract\<close> is the constructor of \<open>Contract\<close>, which throws for a text that is no address.\<close>

record call_lib =
  zkRecoverySpec :: spec
  smartAccountSpec :: spec
  newContract :: "string \<Rightarrow> unit result"

record zk_build =
  zb_operations :: "host_function list"
  zb_description :: string
  zb_contextRuleIds :: "nat list"

record proof_args =
  pa_controllerId :: string
  pa_account :: string
  pa_nonce :: int
  pa_root :: bytes
  pa_nullifier :: bytes
  pa_proof :: bytes

record initiate_args = proof_args +
  ia_newPubkey65 :: bytes
  ia_timelockSecs :: int

definition requirePubkey65 :: "bytes \<Rightarrow> string \<Rightarrow> unit result" where
  "requirePubkey65 newPubkey fnName =
     (if length newPubkey \<noteq> 65
      then Inl (Error (fnName @ '': new pubkey must be a 65-byte SEC1 uncompressed P-256 key, got '' @ showNat (length newPubkey)))
      else Inr ())"

definition requireBytes32 :: "bytes \<Rightarrow> string \<Rightarrow> string \<Rightarrow> unit result" where
  "requireBytes32 value argName fnName =
     (if length value \<noteq> 32
      then Inl (Error (fnName @ '': '' @ argName @ '' must be 32 bytes, got '' @ showNat (length value)))
      else Inr ())"

definition callOp :: "call_lib \<Rightarrow> spec \<Rightarrow> string \<Rightarrow> string \<Rightarrow> (string \<times> spec_arg) list \<Rightarrow> host_function result" where
  "callOp lib spec contract fn args =
     bindR (spec fn args) (\<lambda>scVals. bindR (newContract lib contract) (\<lambda>_. Inr (HostInvoke contract fn scVals)))"

definition buildInitiateRecovery :: "call_lib \<Rightarrow> initiate_args \<Rightarrow> zk_build result" where
  "buildInitiateRecovery lib args =
     bindR (requirePubkey65 (ia_newPubkey65 args) ''buildInitiateRecovery'') (\<lambda>_.
     bindR (requireBytes32 (pa_root args) ''root'' ''buildInitiateRecovery'') (\<lambda>_.
     bindR (requireBytes32 (pa_nullifier args) ''nullifier'' ''buildInitiateRecovery'') (\<lambda>_.
     bindR (callOp lib (zkRecoverySpec lib) (pa_controllerId args) ''initiate_recovery''
         [(''account'', AString (pa_account args)), (''new_pubkey'', ABuffer (ia_newPubkey65 args)),
          (''nonce'', AInt (pa_nonce args)), (''timelock_secs'', AInt (ia_timelockSecs args)),
          (''root'', ABuffer (pa_root args)), (''nullifier'', ABuffer (pa_nullifier args)),
          (''proof'', ABuffer (pa_proof args))]) (\<lambda>operation.
       Inr \<lparr>zb_operations = [operation], zb_description = ''Initiate account recovery'', zb_contextRuleIds = []\<rparr>))))"

text \<open>The arguments that cancelling and burning share.\<close>

definition proofArgList :: "'a proof_args_scheme \<Rightarrow> (string \<times> spec_arg) list" where
  "proofArgList args =
     [(''account'', AString (pa_account args)), (''nonce'', AInt (pa_nonce args)), (''root'', ABuffer (pa_root args)),
      (''nullifier'', ABuffer (pa_nullifier args)), (''proof'', ABuffer (pa_proof args))]"

definition buildCancelRecovery :: "call_lib \<Rightarrow> proof_args \<Rightarrow> zk_build result" where
  "buildCancelRecovery lib args =
     bindR (requireBytes32 (pa_root args) ''root'' ''buildCancelRecovery'') (\<lambda>_.
     bindR (requireBytes32 (pa_nullifier args) ''nullifier'' ''buildCancelRecovery'') (\<lambda>_.
     bindR (callOp lib (zkRecoverySpec lib) (pa_controllerId args) ''cancel_recovery'' (proofArgList args)) (\<lambda>operation.
       Inr \<lparr>zb_operations = [operation], zb_description = ''Cancel pending account recovery'', zb_contextRuleIds = []\<rparr>)))"

definition buildBurnNullifier :: "call_lib \<Rightarrow> proof_args \<Rightarrow> zk_build result" where
  "buildBurnNullifier lib args =
     bindR (requireBytes32 (pa_root args) ''root'' ''buildBurnNullifier'') (\<lambda>_.
     bindR (requireBytes32 (pa_nullifier args) ''nullifier'' ''buildBurnNullifier'') (\<lambda>_.
     bindR (callOp lib (zkRecoverySpec lib) (pa_controllerId args) ''burn_nullifier'' (proofArgList args)) (\<lambda>operation.
       Inr \<lparr>zb_operations = [operation], zb_description = ''Burn compromised nullifier'', zb_contextRuleIds = []\<rparr>)))"

record complete_args =
  ca_account :: string
  ca_recoveryRuleId :: nat
  ca_newPubkey65 :: bytes
  ca_webauthnVerifierId :: string

definition buildCompleteRecovery :: "call_lib \<Rightarrow> complete_args \<Rightarrow> zk_build result" where
  "buildCompleteRecovery lib args =
     bindR (requirePubkey65 (ca_newPubkey65 args) ''buildCompleteRecovery'') (\<lambda>_.
     bindR (callOp lib (smartAccountSpec lib) (ca_account args) ''add_context_rule''
         [(''context_type'', AEnum ''Default'' []), (''name'', AString ''recovered''), (''valid_until'', AUndefined),
          (''signers'', AList [AEnum ''External'' [AString (ca_webauthnVerifierId args), ABuffer (ca_newPubkey65 args)]]),
          (''policies'', AEmptyMap)]) (\<lambda>operation.
       Inr \<lparr>zb_operations = [operation], zb_description = ''Complete account recovery (install recovered passkey)'',
            zb_contextRuleIds = [ca_recoveryRuleId args]\<rparr>))"

section \<open>The note of a pending recovery\<close>

text \<open>
  \<open>None\<close> is a browser without usable storage. A write may fail (\<open>writable\<close>), which leaves the
  storage as it is.
\<close>

type_synonym overlay = "local_storage option"

record staged_recovery =
  sr_newPubkey65Hex :: string
  sr_initiatedAt :: int
  sr_executableAfter :: int

definition overlayKey :: "string \<Rightarrow> string" where
  "overlayKey account = ''nido:zkrecovery:'' @ account"

definition stageRecovery :: "bool \<Rightarrow> string \<Rightarrow> staged_recovery \<Rightarrow> overlay \<Rightarrow> overlay" where
  "stageRecovery writable account staged storage =
     map_option (\<lambda>s. if writable then setItem (overlayKey account)
        (stringify (JObj [(''newPubkey65Hex'', JStr (sr_newPubkey65Hex staged)), (''initiatedAt'', JNum (sr_initiatedAt staged)),
           (''executableAfter'', JNum (sr_executableAfter staged))])) s
      else s) storage"

definition readStaged :: "overlay \<Rightarrow> string \<Rightarrow> json option" where
  "readStaged storage account =
     (case Option.bind storage (\<lambda>s. s (overlayKey account)) of
        None \<Rightarrow> None
      | Some raw \<Rightarrow> (case parse_json raw of Inl _ \<Rightarrow> None | Inr v \<Rightarrow> if v = JNull then None else Some v))"

definition clearStaged :: "string \<Rightarrow> overlay \<Rightarrow> overlay" where
  "clearStaged account storage = map_option (removeItem (overlayKey account)) storage"

section \<open>The secret from a wallet's signature\<close>

text \<open>
  The two forms of \<open>WalletNotDeterministicError\<close>, by their message, and the errors of what is
  called. \<open>mw_sign i\<close> is the wallet's answer to the \<open>i\<close>-th prompt: the signed message in base64.
\<close>

datatype m2_error = NotRepeatable | NotSep53 | Thrown js_error

record m2_wallet =
  mw_sign :: "nat \<Rightarrow> string \<Rightarrow> string \<Rightarrow> string \<Rightarrow> string result"
  mw_decodeKey :: "string \<Rightarrow> bytes result"
  mw_verify :: "bytes \<Rightarrow> bytes \<Rightarrow> bytes \<Rightarrow> bool result"
  mw_sha256 :: digest
  mw_hkdf :: kdf
  mw_decodeContract :: "string \<Rightarrow> bytes result"

definition throws :: "'a result \<Rightarrow> m2_error + 'a" where
  "throws r = (case r of Inl e \<Rightarrow> Inl (Thrown e) | Inr x \<Rightarrow> Inr x)"

definition sigEqual :: "bytes \<Rightarrow> bytes \<Rightarrow> bool" where
  "sigEqual a b = (if length a \<noteq> length b then False else list_all (\<lambda>i. a ! i = b ! i) [0..<length a])"

definition sep53Preimage :: "digest \<Rightarrow> string \<Rightarrow> bytes" where
  "sep53Preimage sha message = sha (utf8 (''Stellar Signed Message:'' @ ''\<newline>'') @ utf8 message)"

definition verifySep53 :: "m2_wallet \<Rightarrow> string \<Rightarrow> string \<Rightarrow> bytes \<Rightarrow> bool result" where
  "verifySep53 w gAddress message sig64 =
     bindR (mw_decodeKey w gAddress) (\<lambda>pubkey. mw_verify w sig64 (sep53Preimage (mw_sha256 w) message) pubkey)"

definition deriveM2SecretSafely :: "m2_wallet \<Rightarrow> string \<Rightarrow> string \<Rightarrow> string \<Rightarrow> m2_error + int" where
  "deriveM2SecretSafely w account walletAddress network =
     (let message = m2Message account network in
      bindR (throws (bindR (mw_sign w 0 message walletAddress network) atob)) (\<lambda>sig1.
      bindR (throws (bindR (mw_sign w 1 message walletAddress network) atob)) (\<lambda>sig2.
        if \<not> sigEqual sig1 sig2 then Inl NotRepeatable
        else
          bindR (throws (verifySep53 w walletAddress message sig1)) (\<lambda>ok1.
          bindR (if ok1 then throws (verifySep53 w walletAddress message sig2) else Inr False) (\<lambda>ok2.
            if \<not> ok1 \<or> \<not> ok2 then Inl NotSep53
            else
              bindR (throws (deriveSecretM2 (mw_hkdf w) (mw_decodeContract w) sig1 account network)) (\<lambda>secret1.
              bindR (throws (deriveSecretM2 (mw_hkdf w) (mw_decodeContract w) sig2 account network)) (\<lambda>secret2.
                if secret1 \<noteq> secret2 then Inl NotRepeatable else Inr secret1)))))))"

section \<open>Facts\<close>

lemma sigEqual_eq [simp]: "sigEqual a b \<longleftrightarrow> a = b"
  by (cases "length a = length b") (auto simp: sigEqual_def list_all_iff intro: nth_equalityI)

lemma throws_Inr [simp]: "throws (Inr x) = Inr x"
  by (simp add: throws_def)

lemma throws_Inr_iff [simp]: "throws r = Inr x \<longleftrightarrow> r = Inr x"
  by (simp add: throws_def split: sum.split)

lemma callOp_Inr: "callOp lib spec c fn args = Inr hf \<longleftrightarrow>
    (\<exists>vs. spec fn args = Inr vs \<and> newContract lib c = Inr () \<and> hf = HostInvoke c fn vs)"
  by (auto simp: callOp_def bindR_Inr_iff)

lemma require_Inr:
  "requirePubkey65 b fn = Inr u \<longleftrightarrow> length b = 65" "requireBytes32 b a fn = Inr u \<longleftrightarrow> length b = 32"
  by (auto simp: requirePubkey65_def requireBytes32_def)

text \<open>A staged note is read back, on the same device, until it is cleared.\<close>

lemma overlay_round_trip:
  "readStaged (stageRecovery True a st (Some s)) b =
     (if b = a then Some (JObj [(''newPubkey65Hex'', JStr (sr_newPubkey65Hex st)), (''initiatedAt'', JNum (sr_initiatedAt st)),
        (''executableAfter'', JNum (sr_executableAfter st))]) else readStaged (Some s) b)"
  "readStaged (clearStaged a (Some s)) b = (if b = a then None else readStaged (Some s) b)"
proof -
  let ?j = "JObj [(''newPubkey65Hex'', JStr (sr_newPubkey65Hex st)), (''initiatedAt'', JNum (sr_initiatedAt st)),
    (''executableAfter'', JNum (sr_executableAfter st))]"
  have "parse_json (stringify ?j) = Inr ?j" by (rule json_round_trip) simp
  then show "readStaged (stageRecovery True a st (Some s)) b = (if b = a then Some ?j else readStaged (Some s) b)"
    by (simp add: readStaged_def stageRecovery_def overlayKey_def setItem_def)
qed (simp add: readStaged_def clearStaged_def overlayKey_def removeItem_def)

section \<open>Properties\<close>

text \<open>
  A wallet yields a recovery secret exactly when it answered both prompts for the account's
  message with the same signature, that signature is a valid SEP-53 signature by the wallet's
  address, and the secret is the one derived from it; otherwise there is no secret at all, and
  two different answers are reported as such.
\<close>

theorem m2_secret_checked:
  "(deriveM2SecretSafely w account g network = Inr secret \<longleftrightarrow>
     (\<exists>b1 b2 sig. mw_sign w 0 (m2Message account network) g network = Inr b1 \<and>
        mw_sign w 1 (m2Message account network) g network = Inr b2 \<and> atob b1 = Inr sig \<and> atob b2 = Inr sig \<and>
        verifySep53 w g (m2Message account network) sig = Inr True \<and>
        deriveSecretM2 (mw_hkdf w) (mw_decodeContract w) sig account network = Inr secret)) \<and>
   (\<forall>b1 b2 s1 s2. mw_sign w 0 (m2Message account network) g network = Inr b1 \<and>
        mw_sign w 1 (m2Message account network) g network = Inr b2 \<and> atob b1 = Inr s1 \<and> atob b2 = Inr s2 \<and> s1 \<noteq> s2 \<longrightarrow>
        deriveM2SecretSafely w account g network = Inl NotRepeatable)"
  by (auto simp: deriveM2SecretSafely_def bindR_Inr_iff Let_def split: if_splits)

definition sample_wallet :: m2_wallet where
  "sample_wallet = \<lparr>mw_sign = \<lambda>i _ _ _. Inr (if i = 0 then ''AAAA'' else ''AAAB''), mw_decodeKey = \<lambda>_. Inr [],
     mw_verify = \<lambda>_ _ _. Inr True, mw_sha256 = \<lambda>_. replicate 32 0, mw_hkdf = \<lambda>_ _ _ n. replicate n 0,
     mw_decodeContract = \<lambda>_. Inr (replicate 32 0)\<rparr>"

theorem m2_secret_checked_witness:
  "deriveM2SecretSafely sample_wallet ''CA'' ''GA'' TESTNET = Inl NotRepeatable"
proof -
  have a: "atob ''AAAA'' = Inr [0, 0, 0]" "atob ''AAAB'' = Inr [0, 0, 1]" by code_simp+
  have s: "mw_sign sample_wallet 0 m g n = Inr ''AAAA''" "mw_sign sample_wallet 1 m g n = Inr ''AAAB''" for m g n
    by (simp_all add: sample_wallet_def)
  note m2_secret_checked [of sample_wallet "''CA''" "''GA''" TESTNET, THEN conjunct2, rule_format,
      of "''AAAA''" "''AAAB''" "[0, 0, 0]" "[0, 0, 1]"]
  then show ?thesis using s a by simp
qed

end
