(* ===== verification/ZkProver.thy ===== *)
theory ZkProver
  imports Json_Text Encoding Field
begin

text \<open>
  From a circuit's inputs to the proof that is submitted: the proof blob (\<open>lib/zk/blob.ts\<close>), the
  pinned artifacts (\<open>manifest.ts\<close>), the pipeline of the worker (\<open>prover.worker.ts\<close>), its caller
  (\<open>prover.ts\<close>), and the reading of a blob in \<open>zkRecoveryActions.ts\<close>. The packages
  \<open>noir_js\<close> and \<open>bb.js\<close>, the hashes and the network are the record \<open>prover_env\<close>.
\<close>

section \<open>Blobs\<close>

fun checkPubs :: "nat \<Rightarrow> bytes list \<Rightarrow> unit result" where
  "checkPubs i [] = Inr ()"
| "checkPubs i (pub # pubs) =
     (if length pub \<noteq> 32
      then Inl (Error (''buildProofBlob: public input '' @ showNat i @ '' must be 32 bytes, got '' @ showNat (length pub)))
      else checkPubs (Suc i) pubs)"

text \<open>\<open>setUint32\<close> writes the number modulo \<open>2 ^ 32\<close>, big-endian.\<close>

definition uint32BE :: "nat \<Rightarrow> bytes" where
  "uint32BE n = toBytesBE 4 (int n mod 2 ^ 32)"

definition buildProofBlob :: "bytes list \<Rightarrow> bytes \<Rightarrow> bytes result" where
  "buildProofBlob publicInputs pr =
     bindR (checkPubs 0 publicInputs) (\<lambda>_. Inr (uint32BE (length publicInputs) @ concat publicInputs @ pr))"

definition ZK_PUBLIC_INPUT_COUNT :: nat where
  "ZK_PUBLIC_INPUT_COUNT = 3"

definition rawProofFromBlob :: "bytes \<Rightarrow> bytes result" where
  "rawProofFromBlob blob =
     (let headerLen = 4 + ZK_PUBLIC_INPUT_COUNT * 32 in
      if length blob < headerLen then Inl (Error ''recovery proof blob too short'')
      else let nPubs = bytesToBigIntBE (take 4 blob)
           in if nPubs \<noteq> int ZK_PUBLIC_INPUT_COUNT then Inl (Error ''recovery proof blob declares another number of public inputs'')
              else Inr (drop headerLen blob))"

section \<open>Artifacts\<close>

definition circuitSha256 :: string where
  "circuitSha256 = ''bfb14bb25e356411245c7a1ae1a997b3ee8e5c5cdb8e1627aad87b68015a1ec4''"

definition manifestCheck :: "string \<Rightarrow> string \<Rightarrow> unit result" where
  "manifestCheck fetchedSha expectedSha =
     (let fetched = toLowerCase (trim fetchedSha); expected = toLowerCase (trim expectedSha)
      in if fetched \<noteq> expected
         then Inl (Error (''zk manifest mismatch: fetched artifact sha256 '' @ fetched @ '' does not match expected '' @ expected))
         else Inr ())"

section \<open>The pipeline\<close>

text \<open>The values of a Noir input map that the callers build: a field as text, or an array of them.\<close>

datatype noir_value = NoirField string | NoirArray "string list"

type_synonym noir_inputs = "(string \<times> noir_value) list"

text \<open>\<open>pv_fetch\<close> answers with the status and the body; \<open>'w\<close> is a witness.\<close>

record 'w prover_env =
  pv_imports :: "unit result"
  pv_fetch :: "string \<Rightarrow> (nat \<times> bytes) result"
  pv_sha256 :: "bytes \<Rightarrow> bytes"
  pv_keccak :: "bytes \<Rightarrow> bytes"
  pv_execute :: "json \<Rightarrow> noir_inputs \<Rightarrow> 'w result"
  pv_generate :: "json \<Rightarrow> 'w \<Rightarrow> (bytes \<times> string list option) result"
  pv_stub :: "(string \<Rightarrow> noir_inputs \<Rightarrow> (bytes \<times> string) result) option"
  pv_worker :: "string option option"

definition verifyAndParseCircuit :: "(bytes \<Rightarrow> bytes) \<Rightarrow> bytes \<Rightarrow> json result" where
  "verifyAndParseCircuit sha bs =
     bindR (manifestCheck (buf2hex (sha bs)) circuitSha256) (\<lambda>_. parse_json (text_decode bs))"

text \<open>\<open>BigInt(s)\<close>: white space is trimmed, the empty text is 0, a prefix names the base, a sign is decimal only.\<close>

definition digitsIn :: "nat \<Rightarrow> string \<Rightarrow> bool" where
  "digitsIn b ds \<longleftrightarrow> ds \<noteq> [] \<and> list_all (\<lambda>c. is_hex c \<and> digitVal c < b) ds"

definition bigIntOf :: "string \<Rightarrow> int result" where
  "bigIntOf s =
     (let t = trim s;
          base = (if startsWith (toLowerCase t) ''0x'' then Some 16 else if startsWith (toLowerCase t) ''0o'' then Some 8
            else if startsWith (toLowerCase t) ''0b'' then Some 2 else None);
          u = (if startsWith t ''-'' \<or> startsWith t ''+'' then tl t else t)
      in case base of
           Some b \<Rightarrow> if digitsIn b (drop 2 t) then Inr (int (ofStringBase b (drop 2 t))) else Inl syntaxError
         | None \<Rightarrow> if t = [] then Inr 0
             else if digitsIn 10 u then Inr (if startsWith t ''-'' then - int (readNat u) else int (readNat u))
             else Inl syntaxError)"

definition encodeFieldBE :: "string \<Rightarrow> bytes result" where
  "encodeFieldBE s = bindR (bigIntOf s) (\<lambda>v. Inr (toBytesBE 32 v))"

text \<open>The blob in hexadecimal, the public inputs and the proof id, or the message of what failed.\<close>

datatype prove_response = ProveOk string "string list" string | ProveFailed string

definition proveSteps ::
  "'w prover_env \<Rightarrow> string \<Rightarrow> noir_inputs \<Rightarrow> string \<Rightarrow> (string \<times> string list \<times> string) result" where
  "proveSteps env circuitName inputs baseUrl =
     bindR (pv_imports env) (\<lambda>_.
     bindR (pv_fetch env (baseUrl @ ''circuits/'' @ circuitName @ ''.json'')) (\<lambda>(status, body).
       if \<not> (200 \<le> status \<and> status \<le> 299)
       then Inl (Error (''Failed to load circuit: '' @ circuitName @ '' (HTTP '' @ showNat status @ '')''))
       else
         bindR (verifyAndParseCircuit (pv_sha256 env) body) (\<lambda>circuit.
         bindR (pv_execute env circuit inputs) (\<lambda>witness.
         bindR (pv_generate env circuit witness) (\<lambda>(pr, pubs).
         bindR (mapR encodeFieldBE (orElse pubs [])) (\<lambda>publicInputFields.
         bindR (buildProofBlob publicInputFields pr) (\<lambda>blob.
           Inr (buf2hex blob, map buf2hex publicInputFields, buf2hex (pv_keccak env blob)))))))))"

definition runProve :: "'w prover_env \<Rightarrow> string \<Rightarrow> noir_inputs \<Rightarrow> string \<Rightarrow> prove_response" where
  "runProve env circuitName inputs baseUrl =
     (case proveSteps env circuitName inputs baseUrl of
        Inl err \<Rightarrow> ProveFailed (error_message err)
      | Inr (blobHex, pubsHex, proofId) \<Rightarrow> ProveOk blobHex pubsHex proofId)"

definition hexToBytes :: "string \<Rightarrow> bytes result" where
  "hexToBytes hex =
     (if length hex mod 2 \<noteq> 0
      then Inl (Error (''hexToBytes: odd-length hex string ('' @ showNat (length hex) @ '' chars)''))
      else Inr (hex2buf hex))"

definition toResult :: "prove_response \<Rightarrow> (bytes \<times> string) result" where
  "toResult response =
     (case response of
        ProveFailed msg \<Rightarrow> Inl (Error (''zk prover failed: '' @ msg))
      | ProveOk blobHex _ proofId \<Rightarrow> bindR (hexToBytes blobHex) (\<lambda>blob. Inr (blob, proofId)))"

text \<open>
  In a worker if there are any (\<open>Some\<close>), which may crash with a message, or in the page; a test
  may have installed a stub. Both paths run the same pipeline.
\<close>

definition prove :: "'w prover_env \<Rightarrow> string \<Rightarrow> string \<Rightarrow> noir_inputs \<Rightarrow> (bytes \<times> string) result" where
  "prove env baseUrl circuitName inputs =
     (case pv_stub env of
        Some stub \<Rightarrow> stub circuitName inputs
      | None \<Rightarrow>
          (case pv_worker env of
             Some (Some message) \<Rightarrow> Inl (Error (''zk prover worker error: '' @ message))
           | _ \<Rightarrow> toResult (runProve env circuitName inputs baseUrl)))"

section \<open>Facts\<close>

lemma checkPubs_Inr: "checkPubs i pubs = Inr u \<longleftrightarrow> list_all (\<lambda>p. length p = 32) pubs"
  by (induction pubs arbitrary: i) auto

lemma blob_Inr:
  "buildProofBlob pubs pr = Inr blob \<longleftrightarrow>
     list_all (\<lambda>p. length p = 32) pubs \<and> blob = uint32BE (length pubs) @ concat pubs @ pr"
  by (auto simp: buildProofBlob_def bindR_Inr_iff checkPubs_Inr)

lemma length_pubs: "list_all (\<lambda>p. length p = 32) pubs \<Longrightarrow> length (concat pubs) = length pubs * 32"
  by (induction pubs) auto

lemma blob_header:
  assumes "buildProofBlob pubs pr = Inr blob" "length pubs < 2 ^ 32"
  shows "bytesToBigIntBE (take 4 blob) = int (length pubs)" "length blob = 4 + length pubs * 32 + length pr"
    "drop (4 + length pubs * 32) blob = pr"
proof -
  have blob: "blob = uint32BE (length pubs) @ concat pubs @ pr" and len: "length (concat pubs) = length pubs * 32"
    using assms(1) length_pubs by (auto simp: blob_Inr)
  have int: "int (length pubs) mod 2 ^ 32 = int (length pubs)" using assms(2) by simp
  have "bytesToBigIntBE (uint32BE (length pubs)) = int (length pubs) mod 256 ^ 4"
    unfolding uint32BE_def int by (rule toBytesBE_value) simp
  then show "bytesToBigIntBE (take 4 blob) = int (length pubs)"
    using assms(2) by (simp add: blob uint32BE_def)
  show "length blob = 4 + length pubs * 32 + length pr" "drop (4 + length pubs * 32) blob = pr"
    using len by (simp_all add: blob uint32BE_def)
qed

text \<open>Only a blob of three public inputs is taken apart, and then nothing but the proof is left.\<close>

lemma rawProof_blob:
  assumes "buildProofBlob pubs pr = Inr blob" "length pubs < 2 ^ 32"
  shows "rawProofFromBlob blob = Inr r \<longleftrightarrow> length pubs = 3 \<and> r = pr"
proof -
  note h = blob_header [OF assms]
  have count: "bytesToBigIntBE (take 4 blob) = 3 \<longleftrightarrow> length pubs = 3" unfolding h(1) by simp
  have "length pubs = 3 \<Longrightarrow> drop 100 blob = pr" using h(3) by simp
  with h(2) count show ?thesis
    by (auto simp: rawProofFromBlob_def ZK_PUBLIC_INPUT_COUNT_def Let_def)
qed

lemma hexToBytes_buf2hex [simp]: "hexToBytes (buf2hex b) = Inr b"
  by (simp add: hexToBytes_def hex2buf_buf2hex length_buf2hex)

lemma runProve_Ok:
  assumes "runProve env c inputs base = ProveOk blobHex pubsHex pid"
  obtains status body circuit witness pr pubs fields blob where
    "pv_fetch env (base @ ''circuits/'' @ c @ ''.json'') = Inr (status, body)"
    "verifyAndParseCircuit (pv_sha256 env) body = Inr circuit" "pv_execute env circuit inputs = Inr witness"
    "pv_generate env circuit witness = Inr (pr, pubs)" "mapR encodeFieldBE (orElse pubs []) = Inr fields"
    "buildProofBlob fields pr = Inr blob" "blobHex = buf2hex blob"
proof -
  from assms have "proveSteps env c inputs base = Inr (blobHex, pubsHex, pid)"
    by (auto simp: runProve_def split: sum.splits prod.splits)
  then show ?thesis
    by (auto simp: proveSteps_def bindR_Inr_iff split: if_splits intro: that)
qed

lemma prove_Inr:
  assumes "prove env base c inputs = Inr (blob, pid)" "pv_stub env = None"
  obtains status body circuit witness pr pubs fields where
    "pv_fetch env (base @ ''circuits/'' @ c @ ''.json'') = Inr (status, body)"
    "verifyAndParseCircuit (pv_sha256 env) body = Inr circuit" "pv_execute env circuit inputs = Inr witness"
    "pv_generate env circuit witness = Inr (pr, pubs)" "mapR encodeFieldBE (orElse pubs []) = Inr fields"
    "buildProofBlob fields pr = Inr blob"
proof -
  from assms obtain blobHex pubsHex where r: "runProve env c inputs base = ProveOk blobHex pubsHex pid"
    and b: "hexToBytes blobHex = Inr blob"
    by (auto simp: prove_def toResult_def bindR_Inr_iff split: option.splits prove_response.splits)
  from r show ?thesis
    by (rule runProve_Ok) (use b in \<open>auto intro: that\<close>)
qed

end
