(* ===== verification/ZkPool.thy ===== *)
theory ZkPool
  imports ZkOps ZkProver Chain
begin

text \<open>
  Where the recovery client gets the pool's leaves from, and why it need not trust the source
  (the first half of \<open>lib/zkRecoveryActions.ts\<close>): an indexer over HTTP, or the pool's own events
  read page by page, checked against the root that the contract reports. The loop over pages is
  bounded by the code itself.
\<close>

section \<open>The sources\<close>

record chain_event =
  ev_topic :: "native list"
  ev_value :: native

record event_page =
  pg_events :: "chain_event list"
  pg_cursor :: "string option"
  pg_latest :: int

datatype event_query = FromLedger int | FromCursor string

text \<open>\<open>pe_events\<close> takes the contract, the name of the event and the start; a page has at most \<open>PAGE_LIMIT\<close> events.\<close>

record pool_env =
  pe_pos :: hash
  pe_registry :: "string \<Rightarrow> string result"
  pe_rpc :: chain_rpc
  pe_address :: "string \<Rightarrow> unit result"
  pe_indexerUrl :: "string option"
  pe_http :: "string \<Rightarrow> relay_reply result"
  pe_oldestLedger :: "int result"
  pe_events :: "string \<Rightarrow> string \<Rightarrow> event_query \<Rightarrow> event_page result"

definition hexToBytes32 :: "string \<Rightarrow> bytes result" where
  "hexToBytes32 hex =
     (let s = (if startsWith hex ''0x'' \<or> startsWith hex ''0X'' then drop 2 hex else hex)
      in if length s = 64 \<and> list_all is_hex s then Inr (hex2buf s)
         else Inl (Error ''hexToBytes32: expected a 0x-prefixed 32-byte hex string''))"

definition fetchCurrentRootFr :: "chain_rpc \<Rightarrow> string \<Rightarrow> int result" where
  "fetchCurrentRootFr rpc controllerId =
     bindR (simulateView rpc controllerId ''current_root'' []) (\<lambda>v. bytesToFieldCanonical (toBytes (Some v)))"

definition fetchNextNonce :: "chain_rpc \<Rightarrow> (string \<Rightarrow> unit result) \<Rightarrow> string \<Rightarrow> string \<Rightarrow> int result" where
  "fetchNextNonce rpc address controllerId account =
     bindR (address account) (\<lambda>_.
     bindR (simulateView rpc controllerId ''next_nonce'' [ArgAddress account]) (\<lambda>v.
       (case v of
          NNum n \<Rightarrow> Inr n
        | NNull \<Rightarrow> Inl (TypeError ''Cannot convert null to a BigInt'')
        | _ \<Rightarrow> bigIntOf (asText v))))"

text \<open>
  A leaf whose index is no whole number, which neither source ever sends, is refused here; the
  code keeps it until \<open>mergeLeaves\<close> refuses the set.
\<close>

definition bad_index :: js_error where
  "bad_index = Error ''mergeLeaves: non-contiguous leaf set''"

definition wireLeaf :: "json \<Rightarrow> pool_leaf result" where
  "wireLeaf l =
     (case field ''leaf'' l of
        Some (JStr hex) \<Rightarrow> bindR (hexToBytes32 hex) (\<lambda>b.
          (case field ''index'' l of
             Some (JNum i) \<Rightarrow> Inr \<lparr>leaf_index = i, leaf_bytes = b\<rparr>
           | _ \<Rightarrow> Inl bad_index))
      | _ \<Rightarrow> Inl (TypeError ''hex.startsWith is not a function''))"

definition fetchLeavesFromIndexer :: "(string \<Rightarrow> relay_reply result) \<Rightarrow> string \<Rightarrow> pool_leaf list result" where
  "fetchLeavesFromIndexer http indexerUrlRaw =
     bindR (http (stripTrailing CHR ''/'' indexerUrlRaw @ ''/leaves'')) (\<lambda>resp.
       if \<not> reply_ok resp
       then Inl (Error (''syncPoolAndLocate: pool-indexer fetch failed (HTTP '' @ showNat (reply_status resp) @ '')''))
       else (case Option.bind (reply_json resp) (field ''leaves'') of
               Some (JArr ls) \<Rightarrow> mapR wireLeaf ls
             | _ \<Rightarrow> Inl (TypeError ''Cannot read properties of undefined'')))"

definition LEAF_INSERTED_EVENT_NAME :: string where
  "LEAF_INSERTED_EVENT_NAME = ''leaf_inserted''"

definition PAGE_LIMIT :: nat where
  "PAGE_LIMIT = 1000"

definition MAX_PAGES :: nat where
  "MAX_PAGES = 1000"

definition eventBytes :: "native \<Rightarrow> bytes option" where
  "eventBytes v =
     (case nfield ''leaf'' v of
        Some (NBytes b) \<Rightarrow> if length b = 32 then Some b else None
      | Some (NArr vs) \<Rightarrow> if length vs = 32 then Some (toBytes (Some (NArr vs))) else None
      | _ \<Rightarrow> None)"

text \<open>The leaf of an event, none for an event of another shape.\<close>

definition eventLeaf :: "chain_event \<Rightarrow> pool_leaf option result" where
  "eventLeaf ev =
     (if length (ev_topic ev) < 2 then Inr None
      else (case eventBytes (ev_value ev) of
              None \<Rightarrow> Inr None
            | Some b \<Rightarrow> (case ev_topic ev ! 1 of
                NNum i \<Rightarrow> Inr (Some \<lparr>leaf_index = i, leaf_bytes = b\<rparr>)
              | _ \<Rightarrow> Inl bad_index)))"

definition pageLeaves :: "chain_event list \<Rightarrow> pool_leaf list result" where
  "pageLeaves evs = bindR (mapR eventLeaf evs) (\<lambda>ls. Inr (List.map_filter id ls))"

text \<open>The ledger of a cursor \<open>toid-n\<close> is the high half of its number.\<close>

definition cursorLedger :: "string \<Rightarrow> int option" where
  "cursorLedger c =
     (let toid = hd (split_on CHR ''-'' c) in if all_digits toid then Some (int (readNat toid div 2 ^ 32)) else None)"

definition exhausted :: "event_page \<Rightarrow> string \<Rightarrow> bool" where
  "exhausted p c =
     (case cursorLedger c of
        Some ledger \<Rightarrow> ledger \<ge> pg_latest p \<and> length (pg_events p) < PAGE_LIMIT
      | None \<Rightarrow> pg_events p = [])"

text \<open>At most \<open>n\<close> pages; the last of them is read in vain.\<close>

fun eventPages :: "(event_query \<Rightarrow> event_page result) \<Rightarrow> nat \<Rightarrow> event_query \<Rightarrow> pool_leaf list \<Rightarrow> pool_leaf list result" where
  "eventPages get 0 qy acc = Inl (Error ''fetchLeavesFromChain: exceeded 1000 getEvents pages'')"
| "eventPages get (Suc n) qy acc =
     bindR (get qy) (\<lambda>p.
     bindR (pageLeaves (pg_events p)) (\<lambda>ls.
       if n = 0 then Inl (Error ''fetchLeavesFromChain: exceeded 1000 getEvents pages'')
       else (case pg_cursor p of
               None \<Rightarrow> Inr (acc @ ls)
             | Some c \<Rightarrow>
                 if c = [] \<or> exhausted p c then Inr (acc @ ls)
                 else eventPages get n (FromCursor c) (acc @ ls))))"

definition fetchLeavesFromChain :: "pool_env \<Rightarrow> string \<Rightarrow> pool_leaf list result" where
  "fetchLeavesFromChain env zkRecoveryAddress =
     bindR (pe_oldestLedger env) (\<lambda>oldest.
     bindR (eventPages (pe_events env zkRecoveryAddress LEAF_INSERTED_EVENT_NAME) MAX_PAGES (FromLedger (max 1 oldest)) [])
       (\<lambda>ls. Inr (sort_key leaf_index ls)))"

section \<open>The check against the chain\<close>

record pool_witness =
  pw_index :: nat
  pw_siblings :: "int list"
  pw_bits :: "int list"
  pw_root :: int

definition poolLeaves :: "pool_env \<Rightarrow> string \<Rightarrow> pool_leaf list result" where
  "poolLeaves env controllerId =
     (case pe_indexerUrl env of
        Some url \<Rightarrow> if url \<noteq> [] then fetchLeavesFromIndexer (pe_http env) url else fetchLeavesFromChain env controllerId
      | None \<Rightarrow> fetchLeavesFromChain env controllerId)"

definition syncPoolAndLocate :: "pool_env \<Rightarrow> bytes \<Rightarrow> pool_witness option result" where
  "syncPoolAndLocate env myStoredLeaf =
     bindR (pe_registry env ''zk-recovery'') (\<lambda>controllerId.
     bindR (poolLeaves env controllerId) (\<lambda>incoming.
     bindR (mergeLeaves [] incoming) (\<lambda>merged.
     bindR (fetchCurrentRootFr (pe_rpc env) controllerId) (\<lambda>onChainRoot.
     bindR (verifyAgainstOnChainRoot (pe_pos env) merged onChainRoot) (\<lambda>ok.
       if \<not> ok then Inl (Error ''syncPoolAndLocate: rebuilt Merkle root does not match the on-chain root'')
       else
         bindR (locateLeaf (pe_pos env) merged myStoredLeaf) (\<lambda>located.
           Inr (map_option (\<lambda>m. \<lparr>pw_index = m_index m, pw_siblings = m_siblings m, pw_bits = m_bits m, pw_root = onChainRoot\<rparr>)
             located)))))))"

section \<open>The event service\<close>

text \<open>
  What the RPC promises of \<open>getEvents\<close>: \<open>hist\<close> are the retained events with their ledgers, in
  order; \<open>cov qy\<close> is how many of them precede a query. A page holds the next ones, its cursor
  stands behind them, a page without a cursor is the last, and a short page has reached the
  ledger of its cursor. No event is younger than the reported tip.
\<close>

definition serves_events ::
  "(event_query \<Rightarrow> event_page result) \<Rightarrow> (event_query \<Rightarrow> nat) \<Rightarrow> (int \<times> chain_event) list \<Rightarrow> bool" where
  "serves_events get cov hist \<longleftrightarrow> (\<forall>qy p. get qy = Inr p \<longrightarrow>
     (let m = cov qy + length (pg_events p) in
      pg_events p = map snd (take (length (pg_events p)) (drop (cov qy) hist)) \<and>
      (\<forall>e \<in> set hist. fst e \<le> pg_latest p) \<and>
      (case pg_cursor p of
         None \<Rightarrow> length hist \<le> m
       | Some c \<Rightarrow>
           (c = [] \<longrightarrow> length hist \<le> m) \<and> cov (FromCursor c) = m \<and>
           (case cursorLedger c of
              Some ledger \<Rightarrow> length (pg_events p) < PAGE_LIMIT \<longrightarrow> (\<forall>e \<in> set (drop m hist). ledger < fst e)
            | None \<Rightarrow> pg_events p = [] \<longrightarrow> length hist \<le> m))))"

lemma pageLeaves_append:
  "pageLeaves (xs @ ys) = bindR (pageLeaves xs) (\<lambda>a. bindR (pageLeaves ys) (\<lambda>b. Inr (a @ b)))"
  by (cases "mapR eventLeaf xs"; cases "mapR eventLeaf ys")
     (simp_all add: pageLeaves_def mapR_append map_filter_def)

lemma served_page:
  assumes "serves_events get cov hist" "get qy = Inr p"
  shows "pg_events p = map snd (take (length (pg_events p)) (drop (cov qy) hist))"
    "\<forall>e \<in> set hist. fst e \<le> pg_latest p"
    "pg_cursor p = Some c \<Longrightarrow> cov (FromCursor c) = cov qy + length (pg_events p)"
proof -
  note here = assms(1) [unfolded serves_events_def Let_def, THEN spec, THEN spec, THEN mp, OF assms(2)]
  from here show "pg_events p = map snd (take (length (pg_events p)) (drop (cov qy) hist))"
    "\<forall>e \<in> set hist. fst e \<le> pg_latest p" by blast+
  from here show "cov (FromCursor c) = cov qy + length (pg_events p)" if "pg_cursor p = Some c"
    unfolding that by simp
qed

lemma served_end:
  assumes "serves_events get cov hist" "get qy = Inr p"
    and "pg_cursor p = None \<or> (\<exists>c. pg_cursor p = Some c \<and> (c = [] \<or> exhausted p c))"
  shows "length hist \<le> cov qy + length (pg_events p)"
proof (rule ccontr)
  assume less: "\<not> ?thesis"
  then obtain e where e: "e \<in> set (drop (cov qy + length (pg_events p)) hist)"
    by (metis drop_eq_Nil last_in_set)
  then have "e \<in> set hist" by (rule in_set_dropD)
  with served_page(2) [OF assms(1,2)] have "fst e \<le> pg_latest p" by blast
  with assms less e show False
    by (fastforce simp: serves_events_def Let_def exhausted_def split: option.splits)
qed

lemma eventPages_complete:
  assumes "serves_events get cov hist" "eventPages get n qy acc = Inr ls"
  shows "\<exists>more. pageLeaves (map snd (drop (cov qy) hist)) = Inr more \<and> ls = acc @ more"
  using assms(2)
proof (induction n arbitrary: qy acc)
  case (Suc n)
  from Suc.prems obtain p here where p: "get qy = Inr p" and here: "pageLeaves (pg_events p) = Inr here"
    by (auto simp: bindR_Inr_iff)
  let ?k = "length (pg_events p)"
  have evs: "pg_events p = map snd (take ?k (drop (cov qy) hist))"
    using assms(1) p by (rule served_page)
  have split: "drop (cov qy) hist = take ?k (drop (cov qy) hist) @ drop (cov qy + ?k) hist"
    by (metis append_take_drop_id drop_drop add.commute)
  show ?case
  proof (cases "pg_cursor p = None \<or> (\<exists>c. pg_cursor p = Some c \<and> (c = [] \<or> exhausted p c))")
    case True
    with Suc.prems p here have "ls = acc @ here" by (auto split: if_splits)
    moreover have "drop (cov qy + ?k) hist = []" using served_end [OF assms(1) p True] by simp
    ultimately show ?thesis using here evs split by (metis append_Nil2)
  next
    case False
    with Suc.prems p here obtain c where c: "pg_cursor p = Some c"
      and rec: "eventPages get n (FromCursor c) (acc @ here) = Inr ls"
      by (auto split: if_splits option.splits)
    have "cov (FromCursor c) = cov qy + ?k" using assms(1) p c by (rule served_page)
    with Suc.IH [OF rec] obtain more where
      "pageLeaves (map snd (drop (cov qy + ?k) hist)) = Inr more" "ls = (acc @ here) @ more" by auto
    with here evs show ?thesis by (subst split) (simp add: pageLeaves_append)
  qed
qed simp

section \<open>Properties\<close>

text \<open>
  The leaves read from the chain are complete: whenever reading ends, every leaf event that
  the RPC retains is in the result, once, ordered by index, although pages may be empty, full,
  or end inside a ledger. It ends after at most a thousand pages.
\<close>

theorem leaves_from_chain_complete:
  assumes "serves_events (pe_events env addr LEAF_INSERTED_EVENT_NAME) cov hist"
    and "\<forall>oldest. pe_oldestLedger env = Inr oldest \<longrightarrow> cov (FromLedger (max 1 oldest)) = 0"
    and "fetchLeavesFromChain env addr = Inr ls"
  shows "\<exists>raw. pageLeaves (map snd hist) = Inr raw \<and> ls = sort_key leaf_index raw"
proof -
  from assms(3) obtain oldest raw where o: "pe_oldestLedger env = Inr oldest"
    and raw: "eventPages (pe_events env addr LEAF_INSERTED_EVENT_NAME) MAX_PAGES (FromLedger (max 1 oldest)) [] = Inr raw"
    and ls: "ls = sort_key leaf_index raw"
    by (auto simp: fetchLeavesFromChain_def bindR_Inr_iff)
  from eventPages_complete [OF assms(1) raw] assms(2) o ls show ?thesis by auto
qed

text \<open>A sample pool of one leaf, under a hash that is always zero.\<close>

definition sample_event :: chain_event where
  "sample_event = \<lparr>ev_topic = [NStr ''leaf_inserted'', NNum 0], ev_value = NObj [(''leaf'', NBytes (replicate 32 0))]\<rparr>"

definition sample_events :: "event_query \<Rightarrow> event_page result" where
  "sample_events qy =
     (case qy of
        FromLedger _ \<Rightarrow> Inr \<lparr>pg_events = [sample_event], pg_cursor = None, pg_latest = 9\<rparr>
      | FromCursor _ \<Rightarrow> Inl (Error ''no such cursor''))"

definition sample_zk_rpc :: chain_rpc where
  "sample_zk_rpc contract fn args =
     Inr (SimValue (Inr (if fn = ''current_root'' then NBytes (replicate 32 0) else NNum 1)))"

definition sample_pool :: pool_env where
  "sample_pool = \<lparr>pe_pos = \<lambda>_. 0, pe_registry = \<lambda>_. Inr ''CZ'', pe_rpc = sample_zk_rpc, pe_address = \<lambda>_. Inr (),
     pe_indexerUrl = None, pe_http = \<lambda>_. Inl (Error ''offline''), pe_oldestLedger = Inr 5, pe_events = \<lambda>_ _. sample_events\<rparr>"

definition zero_leaf :: pool_leaf where
  "zero_leaf = \<lparr>leaf_index = 0, leaf_bytes = replicate 32 0\<rparr>"

lemma sample_eventLeaf: "eventLeaf sample_event = Inr (Some zero_leaf)"
  by code_simp

lemma sample_fetched: "fetchLeavesFromChain sample_pool addr = Inr [zero_leaf]"
proof -
  have "eventPages sample_events (Suc (Suc n)) (FromLedger l) [] = Inr [zero_leaf]" for n l
    by (simp add: sample_events_def pageLeaves_def sample_eventLeaf map_filter_def)
  from this [of 998] show ?thesis by (simp add: fetchLeavesFromChain_def sample_pool_def MAX_PAGES_def)
qed

theorem leaves_from_chain_complete_witness:
  "\<exists>raw. pageLeaves [sample_event] = Inr raw \<and> [zero_leaf] = sort_key leaf_index raw"
proof -
  let ?cov = "\<lambda>qy. case qy of FromLedger l \<Rightarrow> if l = 5 then 0 else 1 | FromCursor _ \<Rightarrow> (1::nat)"
  have "serves_events (\<lambda>qy. if qy = FromLedger 5 then sample_events qy else Inl (Error [])) ?cov [(7, sample_event)]"
    by (auto simp: serves_events_def sample_events_def)
  let ?env = "sample_pool\<lparr>pe_events := \<lambda>_ _ qy. if qy = FromLedger 5 then sample_events qy else Inl (Error [])\<rparr>"
  have get: "eventPages (\<lambda>qy. if qy = FromLedger 5 then sample_events qy else Inl (Error [])) (Suc (Suc n)) (FromLedger 5) [] = Inr [zero_leaf]" for n
    by (simp add: sample_events_def pageLeaves_def sample_eventLeaf map_filter_def)
  have "fetchLeavesFromChain ?env addr = Inr [zero_leaf]" for addr
    using get [of 998] by (simp add: fetchLeavesFromChain_def sample_pool_def MAX_PAGES_def)
  with leaves_from_chain_complete [of ?env "''CZ''" ?cov "[(7, sample_event)]" "[zero_leaf]"]
    \<open>serves_events _ _ _\<close> show ?thesis by (simp add: sample_pool_def)
qed

end
