(* ===== verification/ZkRecovery.thy ===== *)
theory ZkRecovery
  imports ZkPool Signing
begin

text \<open>
  Zero-knowledge recovery of an account (the second half of \<open>lib/zkRecoveryActions.ts\<close>): the inputs
  of the circuit, the start, cancellation and completion of a recovery, and the burning of a
  leaked secret. The circuit (\<open>circuits/zk_recovery/src/main.nr\<close>) is stated as a predicate on its
  input map; its Poseidon2 is the hash \<open>pos\<close> of the client.
\<close>

section \<open>The circuit\<close>

text \<open>A field of an input map is read as hexadecimal text, modulo the field order.\<close>

definition noirField :: "string \<Rightarrow> int" where
  "noirField s = int (ofStringBase 16 (drop 2 s)) mod FIELD_ORDER"

definition nfieldOf :: "noir_inputs \<Rightarrow> string \<Rightarrow> int" where
  "nfieldOf inputs k = (case map_of inputs k of Some (NoirField s) \<Rightarrow> noirField s | _ \<Rightarrow> 0)"

definition narrayOf :: "noir_inputs \<Rightarrow> string \<Rightarrow> int list" where
  "narrayOf inputs k = (case map_of inputs k of Some (NoirArray ss) \<Rightarrow> map noirField ss | _ \<Rightarrow> [])"

text \<open>\<open>compute_root\<close>; \<open>None\<close> is a failed assertion that a path element is a bit.\<close>

fun compute_root :: "hash \<Rightarrow> int \<Rightarrow> int list \<Rightarrow> int list \<Rightarrow> int option" where
  "compute_root pos cur (s # sib) (b # bits) =
     (if b * (1 - b) mod FIELD_ORDER \<noteq> 0 then None
      else compute_root pos (pos (if b = 0 then [cur, s] else [s, cur])) sib bits)"
| "compute_root pos cur _ _ = Some cur"

definition zk_circuit :: "hash \<Rightarrow> noir_inputs \<Rightarrow> bool" where
  "zk_circuit pos m \<longleftrightarrow>
     (let f = nfieldOf m;
          inner = pos [DOM_LEAF, f ''secret''];
          stored = pos [DOM_BIND, f ''acct_hi'', f ''acct_lo'', inner]
      in length (narrayOf m ''path_siblings'') = DEPTH \<and> length (narrayOf m ''path_bits'') = DEPTH \<and>
         compute_root pos stored (narrayOf m ''path_siblings'') (narrayOf m ''path_bits'') = Some (f ''root'') \<and>
         pos [DOM_NULL, f ''acct_hi'', f ''acct_lo'', f ''secret''] = f ''nullifier'' \<and>
         pos [DOM_AUTH, f ''action'', f ''acct_hi'', f ''acct_lo'', f ''npass_hi'', f ''npass_lo'', f ''ctrl_hi'', f ''ctrl_lo'',
              f ''pk_prefix'', f ''pk_x_hi'', f ''pk_x_lo'', f ''pk_y_hi'', f ''pk_y_lo'', f ''nonce'', f ''timelock_secs'']
           = f ''auth_hash'')"

section \<open>The circuit's inputs\<close>

definition circuitPubkeyFields :: "bytes option \<Rightarrow> (int \<times> int \<times> int \<times> int \<times> int) result" where
  "circuitPubkeyFields pk =
     (case pk of
        None \<Rightarrow> Inr (0, 0, 0, 0, 0)
      | Some b \<Rightarrow>
          if length b \<noteq> 65
          then Inl (Error (''pubkeyFields: expected a 65-byte SEC1 uncompressed pubkey, got '' @ showNat (length b)))
          else bindR (u256FromU64 (uint (b ! 0))) (\<lambda>pkPrefix.
               bindR (split16 (subarray 1 33 b)) (\<lambda>(pkXHi, pkXLo).
               bindR (split16 (subarray 33 65 b)) (\<lambda>(pkYHi, pkYLo).
                 Inr (pkPrefix, pkXHi, pkXLo, pkYHi, pkYLo)))))"

definition frToNoirField :: "int \<Rightarrow> string" where
  "frToNoirField x = ''0x'' @ (if x < 0 then CHR ''-'' # toStringBase 16 (nat (- x)) else toStringBase 16 (nat x))"

record assemble_args =
  as_action :: int
  as_accountId32 :: bytes
  as_controllerId32 :: bytes
  as_secret :: int
  as_root :: int
  as_siblings :: "int list"
  as_bits :: "int list"
  as_nullifier :: int
  as_newPubkey65 :: "bytes option"
  as_nonce :: int
  as_timelockSecs :: int

definition authParams :: "assemble_args \<Rightarrow> auth_hash_params" where
  "authParams a = \<lparr>action = as_action a, accountId32 = as_accountId32 a, networkPassphrase = TESTNET,
     controllerId32 = as_controllerId32 a, newPubkey65 = as_newPubkey65 a, nonce = as_nonce a,
     timelockSecs = as_timelockSecs a\<rparr>"

definition assembleCircuitInputs :: "hash \<Rightarrow> digest \<Rightarrow> assemble_args \<Rightarrow> (noir_inputs \<times> int) result" where
  "assembleCircuitInputs pos sha a =
     bindR (split16 (as_accountId32 a)) (\<lambda>(acctHi, acctLo).
     bindR (split16 (as_controllerId32 a)) (\<lambda>(ctrlHi, ctrlLo).
     bindR (split16 (sha (utf8 TESTNET))) (\<lambda>(npassHi, npassLo).
     bindR (circuitPubkeyFields (as_newPubkey65 a)) (\<lambda>(pkPrefix, pkXHi, pkXLo, pkYHi, pkYLo).
     bindR (computeAuthHash pos sha (authParams a)) (\<lambda>authHash.
       Inr ([(''root'', NoirField (frToNoirField (as_root a))), (''nullifier'', NoirField (frToNoirField (as_nullifier a))),
             (''auth_hash'', NoirField (frToNoirField authHash)), (''secret'', NoirField (frToNoirField (as_secret a))),
             (''acct_hi'', NoirField (frToNoirField acctHi)), (''acct_lo'', NoirField (frToNoirField acctLo)),
             (''path_siblings'', NoirArray (map frToNoirField (as_siblings a))),
             (''path_bits'', NoirArray (map frToNoirField (as_bits a))),
             (''action'', NoirField (frToNoirField (as_action a))),
             (''npass_hi'', NoirField (frToNoirField npassHi)), (''npass_lo'', NoirField (frToNoirField npassLo)),
             (''ctrl_hi'', NoirField (frToNoirField ctrlHi)), (''ctrl_lo'', NoirField (frToNoirField ctrlLo)),
             (''pk_prefix'', NoirField (frToNoirField pkPrefix)),
             (''pk_x_hi'', NoirField (frToNoirField pkXHi)), (''pk_x_lo'', NoirField (frToNoirField pkXLo)),
             (''pk_y_hi'', NoirField (frToNoirField pkYHi)), (''pk_y_lo'', NoirField (frToNoirField pkYLo)),
             (''nonce'', NoirField (frToNoirField (as_nonce a))),
             (''timelock_secs'', NoirField (frToNoirField (as_timelockSecs a)))], authHash))))))"

section \<open>Proofs\<close>

record ('w, 'd) zk_env =
  ze_pool :: pool_env
  ze_calls :: call_lib
  ze_sha256 :: digest
  ze_decodeContract :: "string \<Rightarrow> bytes result"
  ze_prover :: "'w prover_env"
  ze_baseUrl :: string
  ze_signer :: "'d signer_env"
  ze_nowMs :: nat

definition TESTNET_ZK_RECOVERY_DELAY_SECS :: int where
  "TESTNET_ZK_RECOVERY_DELAY_SECS = 60"

text \<open>
  The steps that starting a recovery and \<open>buildOwnerAuthedProofTx\<close> share, up to the circuit's
  inputs; they differ in the action, the new key, the delay and the message for a missing leaf.
\<close>

definition proofInputs ::
  "('w, 'd) zk_env \<Rightarrow> string \<Rightarrow> int \<Rightarrow> bytes option \<Rightarrow> int \<Rightarrow> string \<Rightarrow> int \<Rightarrow>
   (string \<times> assemble_args \<times> noir_inputs) result" where
  "proofInputs env missing act newPubkey timelock account secret =
     (let pool = ze_pool env; pos = pe_pos pool in
      bindR (pe_registry pool ''zk-recovery'') (\<lambda>controllerId.
      bindR (ze_decodeContract env account) (\<lambda>acct.
      bindR (ze_decodeContract env controllerId) (\<lambda>ctrl.
      bindR (wrapLeafInner pos secret) (\<lambda>inner.
      bindR (wrapLeafStored pos acct inner) (\<lambda>storedLeaf.
      bindR (fieldToBytes32 storedLeaf) (\<lambda>leaf32.
      bindR (syncPoolAndLocate pool leaf32) (\<lambda>found.
        (case found of
           None \<Rightarrow> Inl (Error missing)
         | Some located \<Rightarrow>
             bindR (fetchNextNonce (pe_rpc pool) (pe_address pool) controllerId account) (\<lambda>n.
             bindR (computeNullifier pos acct secret) (\<lambda>nullifierFr.
             let a = \<lparr>as_action = act, as_accountId32 = acct, as_controllerId32 = ctrl, as_secret = secret,
                   as_root = pw_root located, as_siblings = pw_siblings located, as_bits = pw_bits located,
                   as_nullifier = nullifierFr, as_newPubkey65 = newPubkey, as_nonce = n, as_timelockSecs = timelock\<rparr>
             in bindR (assembleCircuitInputs pos (ze_sha256 env) a) (\<lambda>(inputs, _).
                  Inr (controllerId, a, inputs)))))))))))))"

definition proofArgs ::
  "('w, 'd) zk_env \<Rightarrow> string \<Rightarrow> string \<times> assemble_args \<times> noir_inputs \<Rightarrow> proof_args result" where
  "proofArgs env account p =
     (case p of (controllerId, a, inputs) \<Rightarrow>
        bindR (prove (ze_prover env) (ze_baseUrl env) ''zk_recovery'' inputs) (\<lambda>(blob, _).
        bindR (fieldToBytes32 (as_root a)) (\<lambda>root32.
        bindR (fieldToBytes32 (as_nullifier a)) (\<lambda>nullifier32.
        bindR (rawProofFromBlob blob) (\<lambda>raw.
          Inr \<lparr>pa_controllerId = controllerId, pa_account = account, pa_nonce = as_nonce a, pa_root = root32,
               pa_nullifier = nullifier32, pa_proof = raw\<rparr>)))))"

definition buildOwnerAuthedProofTx :: "('w, 'd) zk_env \<Rightarrow> int \<Rightarrow> string \<Rightarrow> int \<Rightarrow> proof_args result" where
  "buildOwnerAuthedProofTx env act account secret =
     bindR (proofInputs env ''this account's enrollment leaf was not found in the recovery pool.'' act None 0 account secret)
       (proofArgs env account)"

definition initiateArgs :: "('w, 'd) zk_env \<Rightarrow> string \<Rightarrow> int \<Rightarrow> bytes \<Rightarrow> initiate_args result" where
  "initiateArgs env account secret newPubkey =
     (if length newPubkey \<noteq> 65
      then Inl (Error (''initiateZkRecovery: newPubkey65 must be 65 bytes, got '' @ showNat (length newPubkey)))
      else
        bindR (proofInputs env ''initiateZkRecovery: this account's enrollment leaf was not found in the recovery pool.''
                 1 (Some newPubkey) TESTNET_ZK_RECOVERY_DELAY_SECS account secret) (\<lambda>p.
        bindR (proofArgs env account p) (\<lambda>pa.
          Inr \<lparr>pa_controllerId = pa_controllerId pa, pa_account = pa_account pa, pa_nonce = pa_nonce pa, pa_root = pa_root pa,
               pa_nullifier = pa_nullifier pa, pa_proof = pa_proof pa, ia_newPubkey65 = newPubkey,
               ia_timelockSecs = TESTNET_ZK_RECOVERY_DELAY_SECS\<rparr>)))"

section \<open>Starting a recovery\<close>

text \<open>Relayed, or sent by the fee payer \<open>source\<close>.\<close>

definition submitAssembled ::
  "'d signer_env \<Rightarrow> (wallet_op, 'd) transaction \<Rightarrow> string \<Rightarrow> relayer_error + string" where
  "submitAssembled sg tx source =
     (if relayerEnabled (sg_relayerUrl sg)
      then relayerSubmitAndConfirm (sg_fetch sg) (sg_poll sg) (txFuncAndAuth sg tx) (sg_relayerUrl sg)
      else (case classicSubmitAndPoll (sg_server sg) tx source of Inl e \<Rightarrow> Inl (NetworkError e) | Inr h \<Rightarrow> Inr h))"

definition simulateOp :: "'d signer_env \<Rightarrow> host_function \<Rightarrow> (string \<times> 'd sim_success) result" where
  "simulateOp sg operation =
     bindR (signingSource sg) (\<lambda>source. bindR (sg_simulate sg source 10000000 operation) (\<lambda>sim. Inr (source, sim)))"

definition submitPermissionlessOp :: "'d signer_env \<Rightarrow> host_function \<Rightarrow> relayer_error + string \<times> native option" where
  "submitPermissionlessOp sg operation =
     (case simulateOp sg operation of
        Inl e \<Rightarrow> Inl (NetworkError e)
      | Inr (source, sim) \<Rightarrow> bindR (submitAssembled sg (ss_assembled sim) source) (\<lambda>h. Inr (h, ss_retval sim)))"

text \<open>The contract returns a \<open>u64\<close>; a result that is no number counts as none.\<close>

definition executableAfter :: "native option \<Rightarrow> int" where
  "executableAfter retval = (case retval of Some (NNum n) \<Rightarrow> n | _ \<Rightarrow> 0)"

text \<open>The outcome and the storage; the note of a pending recovery is written once it is submitted.\<close>

definition initiateZkRecovery ::
  "('w, 'd) zk_env \<Rightarrow> bool \<Rightarrow> string \<Rightarrow> int \<Rightarrow> bytes \<Rightarrow> overlay \<Rightarrow> (relayer_error + string \<times> int) \<times> overlay" where
  "initiateZkRecovery env writable account secret newPubkey st =
     (case bindR (initiateArgs env account secret newPubkey) (buildInitiateRecovery (ze_calls env)) of
        Inl e \<Rightarrow> (Inl (NetworkError e), st)
      | Inr built \<Rightarrow>
          (case submitPermissionlessOp (ze_signer env) (hd (zb_operations built)) of
             Inl e \<Rightarrow> (Inl e, st)
           | Inr (h, retval) \<Rightarrow>
               (Inr (h, executableAfter retval),
                stageRecovery writable account \<lparr>sr_newPubkey65Hex = buf2hex newPubkey,
                  sr_initiatedAt = int (ze_nowMs env div 1000), sr_executableAfter = executableAfter retval\<rparr> st)))"

section \<open>Cancelling and burning\<close>

definition ownerCall ::
  "('w, 'd) zk_env \<Rightarrow> local_storage \<Rightarrow> string \<Rightarrow> zk_build result \<Rightarrow> overlay \<Rightarrow> (relayer_error + string) \<times> overlay" where
  "ownerCall env s account built st =
     (case built of
        Inl e \<Rightarrow> (Inl (NetworkError e), st)
      | Inr b \<Rightarrow>
          (case signAndSubmit (ze_signer env) s account (hd (zb_operations b)) None of
             Inl e \<Rightarrow> (Inl e, st)
           | Inr (h, _) \<Rightarrow> (Inr h, clearStaged account st)))"

definition cancelZkRecovery ::
  "('w, 'd) zk_env \<Rightarrow> local_storage \<Rightarrow> string \<Rightarrow> int \<Rightarrow> overlay \<Rightarrow> (relayer_error + string) \<times> overlay" where
  "cancelZkRecovery env s account secret st =
     ownerCall env s account (bindR (buildOwnerAuthedProofTx env 2 account secret) (buildCancelRecovery (ze_calls env))) st"

definition burnZkNullifier ::
  "('w, 'd) zk_env \<Rightarrow> local_storage \<Rightarrow> string \<Rightarrow> int \<Rightarrow> overlay \<Rightarrow> (relayer_error + string) \<times> overlay" where
  "burnZkNullifier env s account secret st =
     ownerCall env s account (bindR (buildOwnerAuthedProofTx env 3 account secret) (buildBurnNullifier (ze_calls env))) st"

section \<open>Completing a recovery\<close>

definition zeroSignerAuthPayloadScVal :: "nat list \<Rightarrow> scval" where
  "zeroSignerAuthPayloadScVal contextRuleIds =
     ScvMap [(ScvSymbol ''context_rule_ids'', ScvVec (map ScvU32 contextRuleIds)), (ScvSymbol ''signers'', ScvMap [])]"

definition CLASSIC_EXPIRATION_LEDGER_OFFSET :: nat where
  "CLASSIC_EXPIRATION_LEDGER_OFFSET = 10000"

text \<open>The fee payer and the transaction whose first entry carries the zero-signer payload.\<close>

definition signCompletion ::
  "'d signer_env \<Rightarrow> host_function \<Rightarrow> nat list \<Rightarrow> (string \<times> (wallet_op, 'd) transaction) result" where
  "signCompletion sg operation contextRuleIds =
     bindR (simulateOp sg operation) (\<lambda>(source, sim).
     bindR (getAuthEntry (ss_auth sim)) (\<lambda>_.
       (case tx_operations (ss_assembled sim) of
          [] \<Rightarrow> Inl (TypeError ''Cannot read properties of undefined'')
        | op # ops \<Rightarrow>
            (case orElse (op_authEntries op) [] of
               [] \<Rightarrow> Inl (Error ''submitZeroSignerCompletion: no authorization entry in the assembled transaction'')
             | entry # rest \<Rightarrow>
                 (case ae_creds entry of
                    None \<Rightarrow> Inl (TypeError ''address not set'')
                  | Some creds \<Rightarrow>
                      let offset = (if relayerEnabled (sg_relayerUrl sg) then RELAYER_EXPIRATION_OFFSET
                            else CLASSIC_EXPIRATION_LEDGER_OFFSET);
                          signedEntry = entry\<lparr>ae_creds := Some (creds\<lparr>cred_expiration := ss_latestLedger sim + offset,
                            cred_signature := Some (zeroSignerAuthPayloadScVal contextRuleIds)\<rparr>)\<rparr>
                      in Inr (source, (ss_assembled sim)\<lparr>tx_operations :=
                           op\<lparr>op_authEntries := Some (signedEntry # rest)\<rparr> # ops\<rparr>))))))"

definition submitZeroSignerCompletion :: "'d signer_env \<Rightarrow> host_function \<Rightarrow> nat list \<Rightarrow> relayer_error + string" where
  "submitZeroSignerCompletion sg operation contextRuleIds =
     (case signCompletion sg operation contextRuleIds of
        Inl e \<Rightarrow> Inl (NetworkError e)
      | Inr (source, tx) \<Rightarrow> submitAssembled sg tx source)"

definition completeZkRecovery ::
  "('w, 'd) zk_env \<Rightarrow> complete_args \<Rightarrow> overlay \<Rightarrow> (relayer_error + string) \<times> overlay" where
  "completeZkRecovery env args st =
     (case buildCompleteRecovery (ze_calls env) args of
        Inl e \<Rightarrow> (Inl (NetworkError e), st)
      | Inr built \<Rightarrow>
          (case submitZeroSignerCompletion (ze_signer env) (hd (zb_operations built)) (zb_contextRuleIds built) of
             Inl e \<Rightarrow> (Inl e, st)
           | Inr h \<Rightarrow> (Inr h, clearStaged (ca_account args) st)))"

section \<open>Enrollment and the pending record\<close>

definition enrollAtCreation :: "hash \<Rightarrow> int \<Rightarrow> bytes result" where
  "enrollAtCreation pos secret = commitmentForCreation pos secret"

definition buildMigrationEnrollTx :: "('w, 'd) zk_env \<Rightarrow> string \<Rightarrow> int \<Rightarrow> zk_build result" where
  "buildMigrationEnrollTx env account secret =
     bindR (pe_registry (ze_pool env) ''zk-recovery'') (\<lambda>controllerId.
     bindR (commitmentForCreation (pe_pos (ze_pool env)) secret) (\<lambda>commitment.
     bindR (callOp (ze_calls env) (zkRecoverySpec (ze_calls env)) controllerId ''insert_for''
         [(''account'', AString account), (''commitment'', ABuffer commitment)]) (\<lambda>operation.
       Inr \<lparr>zb_operations = [operation], zb_description = ''Enroll a new ZK-recovery secret'', zb_contextRuleIds = []\<rparr>)))"

record zk_pending =
  zp_executableAfter :: int
  zp_expiresAt :: int
  zp_newPubkey65 :: bytes

text \<open>A member that is no number counts as absent.\<close>

definition numberAt :: "string \<Rightarrow> native \<Rightarrow> int" where
  "numberAt k v = executableAfter (nfield k v)"

definition getZkPending :: "pool_env \<Rightarrow> string \<Rightarrow> zk_pending option result" where
  "getZkPending pool account =
     bindR (pe_registry pool ''zk-recovery'') (\<lambda>controllerId.
     bindR (pe_address pool account) (\<lambda>_.
     bindR (simulateView (pe_rpc pool) controllerId ''get_pending'' [ArgAddress account]) (\<lambda>v.
       Inr (if v = NNull then None
            else Some \<lparr>zp_executableAfter = numberAt ''executable_after'' v, zp_expiresAt = numberAt ''expires_at'' v,
                   zp_newPubkey65 = toBytes (nfield ''new_pubkey'' v)\<rparr>))))"

section \<open>Facts\<close>

lemma getAuthEntry_Inr: "getAuthEntry auth = Inr e \<longleftrightarrow> (\<exists>rest. auth = Some (e # rest))"
  by (auto simp: getAuthEntry_def split: option.splits list.splits)

lemma noirField_fr [simp]: "0 \<le> x \<Longrightarrow> noirField (frToNoirField x) = x mod FIELD_ORDER"
  by (simp add: noirField_def frToNoirField_def)

lemma noirField_canonical: "canonical x \<Longrightarrow> noirField (frToNoirField x) = x"
  by (simp add: canonical_def)

lemma map_noirField: "list_all canonical xs \<Longrightarrow> map (noirField \<circ> frToNoirField) xs = xs"
  by (induction xs) (simp_all add: noirField_canonical)

lemma canonical_bit [simp]: "canonical 0" "canonical 1"
  by (simp_all add: canonical_def FIELD_ORDER_val)

text \<open>Along the bits of the index, the circuit climbs as the client does.\<close>

lemma compute_root_climb:
  assumes "canonical_hash pos" "i < 2 ^ 31"
  shows "k + length sibs \<le> 31 \<Longrightarrow> list_all canonical sibs \<Longrightarrow> canonical cur \<Longrightarrow>
    computeRootFrom pos (int i) k sibs cur = Inr r \<Longrightarrow>
    compute_root pos cur sibs (map (\<lambda>l. int (i div 2 ^ l mod 2)) [k..<k + length sibs]) = Some r"
proof (induction sibs arbitrary: k cur)
  case (Cons s sibs)
  let ?b = "int (i div 2 ^ k mod 2)" and ?cur = "pos (pairAt i k cur s)"
  have b: "?b = 0 \<or> ?b = 1" by linarith
  have "?b = 0 \<longleftrightarrow> even (i div 2 ^ k)" by (simp only: of_nat_eq_0_iff even_iff_mod_2_eq_zero)
  then have pair: "(if ?b = 0 then [cur, s] else [s, cur]) = pairAt i k cur s"
    using Cons.prems by (simp add: pairAt_def)
  have "computeRootFrom pos (int i) (Suc k) sibs ?cur = Inr r"
    using Cons.prems computeRootStep_climb [OF assms(2), of k pos s cur] by simp
  moreover have "canonical ?cur" using assms(1) by (simp add: canonical_hash_def)
  ultimately have "compute_root pos ?cur sibs (map (\<lambda>l. int (i div 2 ^ l mod 2)) [Suc k..<Suc k + length sibs]) = Some r"
    using Cons.prems by (intro Cons.IH) auto
  moreover have "[k..<k + length (s # sibs)] = k # [Suc k..<Suc k + length sibs]" by (subst upt_rec) simp
  ultimately show ?case using b pair by auto
qed simp

lemma circuitPubkeyFields_list:
  "circuitPubkeyFields pk = Inr (a, b, c, d, e) \<Longrightarrow> pubkeyFields pk = Inr [a, b, c, d, e]"
  by (auto simp: circuitPubkeyFields_def pubkeyFields_def bindR_Inr_iff split: option.splits if_splits)

text \<open>The input map satisfies the circuit, when it is built from what the client computed for itself.\<close>

lemma assembled_circuit:
  assumes "canonical_hash pos" "assembleCircuitInputs pos sha a = Inr (inputs, h)"
    and "canonical (as_secret a)" "list_all canonical (as_siblings a)" "length (as_siblings a) = DEPTH"
    and "i < 2 ^ DEPTH" "as_bits a = map (\<lambda>l. int (i div 2 ^ l mod 2)) [0..<DEPTH]"
    and "wrapLeafInner pos (as_secret a) = Inr inner" "wrapLeafStored pos (as_accountId32 a) inner = Inr leafv"
    and "computeRoot pos leafv (int i) (as_siblings a) = Inr (as_root a)"
    and "computeNullifier pos (as_accountId32 a) (as_secret a) = Inr (as_nullifier a)"
  shows "zk_circuit pos inputs \<and> nfieldOf inputs ''root'' = as_root a \<and> nfieldOf inputs ''nullifier'' = as_nullifier a \<and>
    nfieldOf inputs ''auth_hash'' = h \<and> computeAuthHash pos sha (authParams a) = Inr h"
proof -
  from assms(2) obtain hi lo chi clo nhi nlo pp xh xl yh yl where
    acct: "split16 (as_accountId32 a) = Inr (hi, lo)" and ctrl: "split16 (as_controllerId32 a) = Inr (chi, clo)"
    and np: "split16 (sha (utf8 TESTNET)) = Inr (nhi, nlo)"
    and pk: "circuitPubkeyFields (as_newPubkey65 a) = Inr (pp, xh, xl, yh, yl)"
    and auth: "computeAuthHash pos sha (authParams a) = Inr h"
    and inputs: "inputs = [(''root'', NoirField (frToNoirField (as_root a))), (''nullifier'', NoirField (frToNoirField (as_nullifier a))),
             (''auth_hash'', NoirField (frToNoirField h)), (''secret'', NoirField (frToNoirField (as_secret a))),
             (''acct_hi'', NoirField (frToNoirField hi)), (''acct_lo'', NoirField (frToNoirField lo)),
             (''path_siblings'', NoirArray (map frToNoirField (as_siblings a))),
             (''path_bits'', NoirArray (map frToNoirField (as_bits a))),
             (''action'', NoirField (frToNoirField (as_action a))),
             (''npass_hi'', NoirField (frToNoirField nhi)), (''npass_lo'', NoirField (frToNoirField nlo)),
             (''ctrl_hi'', NoirField (frToNoirField chi)), (''ctrl_lo'', NoirField (frToNoirField clo)),
             (''pk_prefix'', NoirField (frToNoirField pp)),
             (''pk_x_hi'', NoirField (frToNoirField xh)), (''pk_x_lo'', NoirField (frToNoirField xl)),
             (''pk_y_hi'', NoirField (frToNoirField yh)), (''pk_y_lo'', NoirField (frToNoirField yl)),
             (''nonce'', NoirField (frToNoirField (as_nonce a))),
             (''timelock_secs'', NoirField (frToNoirField (as_timelockSecs a)))]"
    by (auto simp: assembleCircuitInputs_def bindR_Inr_iff)
  note pkl = circuitPubkeyFields_list [OF pk]
  from auth obtain v where v: "authInputs sha (authParams a) = Inr v" and h: "h = pos v"
    by (auto simp: computeAuthHash_eq)
  have v15: "v = [DOM_AUTH, as_action a, hi, lo, nhi, nlo, chi, clo, pp, xh, xl, yh, yl, as_nonce a, as_timelockSecs a]"
    using v acct ctrl np pkl
    by (auto simp: authInputs_def authParams_def bindR_Inr_iff u256FromU64_Inr)
  have can: "list_all canonical v" using authInputs_canonical [OF v] by simp
  have hash: "canonical (pos xs)" for xs using assms(1) by (simp add: canonical_hash_def)
  have dom: "canonical DOM_LEAF" "canonical DOM_BIND" "canonical DOM_NULL"
    by (simp_all add: canonical_def FIELD_ORDER_val DOM_LEAF_def DOM_BIND_def DOM_NULL_def)
  have inner: "inner = pos [DOM_LEAF, as_secret a]"
    using assms(3,8) dom by (simp add: wrapLeafInner_def hash2_def)
  have leafv: "leafv = pos [DOM_BIND, hi, lo, inner]" and nullifier: "as_nullifier a = pos [DOM_NULL, hi, lo, as_secret a]"
    using assms(3,9,11) acct dom can hash inner by (auto simp: wrapLeafStored_def computeNullifier_def v15)
  have bits: "list_all canonical (as_bits a)"
    unfolding assms(7) list_all_iff by (auto simp: canonical_def FIELD_ORDER_val intro: le_less_trans [of _ 1])
  have i: "i < 2 ^ 31" using assms(6) by (simp add: DEPTH_def)
  have "compute_root pos leafv (as_siblings a) (map (\<lambda>l. int (i div 2 ^ l mod 2)) [0..<0 + length (as_siblings a)]) = Some (as_root a)"
    by (rule compute_root_climb [OF assms(1) i]) (use assms hash leafv in \<open>auto simp: computeRoot_def DEPTH_def\<close>)
  then have root: "compute_root pos leafv (as_siblings a) (as_bits a) = Some (as_root a)" using assms(5,7) by simp
  have "canonical (climb pos i leafv (as_siblings a) (Suc n))" for n using hash by simp
  from this [of 23] have "canonical (as_root a)"
    using computeRoot_climb [of i "as_siblings a" pos leafv] i assms(5,10) by (simp add: DEPTH_def)
  moreover have "canonical (as_nullifier a)" "canonical h" using hash nullifier h by simp_all
  ultimately have fields: "nfieldOf inputs ''root'' = as_root a" "nfieldOf inputs ''nullifier'' = as_nullifier a"
      "nfieldOf inputs ''auth_hash'' = h" "nfieldOf inputs ''secret'' = as_secret a"
      "narrayOf inputs ''path_siblings'' = as_siblings a" "narrayOf inputs ''path_bits'' = as_bits a"
    using assms(3,4) bits by (simp_all add: inputs nfieldOf_def narrayOf_def noirField_canonical map_noirField)
  have auths: "[DOM_AUTH, nfieldOf inputs ''action'', nfieldOf inputs ''acct_hi'', nfieldOf inputs ''acct_lo'', nfieldOf inputs ''npass_hi'',
      nfieldOf inputs ''npass_lo'', nfieldOf inputs ''ctrl_hi'', nfieldOf inputs ''ctrl_lo'', nfieldOf inputs ''pk_prefix'',
      nfieldOf inputs ''pk_x_hi'', nfieldOf inputs ''pk_x_lo'', nfieldOf inputs ''pk_y_hi'', nfieldOf inputs ''pk_y_lo'',
      nfieldOf inputs ''nonce'', nfieldOf inputs ''timelock_secs''] = v"
    using can by (simp add: inputs nfieldOf_def noirField_canonical v15)
  then have acct': "nfieldOf inputs ''acct_hi'' = hi" "nfieldOf inputs ''acct_lo'' = lo" by (simp_all add: v15)
  have len: "length (as_bits a) = DEPTH" using assms(7) by simp
  have "zk_circuit pos inputs"
    unfolding zk_circuit_def Let_def auths fields
    using root nullifier leafv inner h assms(5) len acct' by simp
  with fields auth show ?thesis by simp
qed

text \<open>What the synchronised pool gives: a path from the account's own leaf to the contract's root.\<close>

lemma synced_path:
  assumes "syncPoolAndLocate env mine = Inr (Some w)" "pe_registry env ''zk-recovery'' = Inr cid"
    and "canonical_hash (pe_pos env)" "\<forall>ls. poolLeaves env cid = Inr ls \<longrightarrow> card (set ls) \<le> 2 ^ DEPTH"
  shows "fetchCurrentRootFr (pe_rpc env) cid = Inr (pw_root w) \<and>
    (\<exists>x. bytesToFieldCanonical mine = Inr x \<and>
       computeRoot (pe_pos env) x (int (pw_index w)) (pw_siblings w) = Inr (pw_root w)) \<and>
    pw_index w < 2 ^ DEPTH \<and> length (pw_siblings w) = DEPTH \<and> list_all canonical (pw_siblings w) \<and>
    pw_bits w = map (\<lambda>l. int (pw_index w div 2 ^ l mod 2)) [0..<DEPTH]"
proof -
  from assms(1,2) obtain incoming merged root m where inc: "poolLeaves env cid = Inr incoming"
    and merged: "mergeLeaves [] incoming = Inr merged" and root: "fetchCurrentRootFr (pe_rpc env) cid = Inr root"
    and ok: "verifyAgainstOnChainRoot (pe_pos env) merged root = Inr True"
    and m: "locateLeaf (pe_pos env) merged mine = Inr (Some m)"
    and w: "w = \<lparr>pw_index = m_index m, pw_siblings = m_siblings m, pw_bits = m_bits m, pw_root = root\<rparr>"
    by (auto simp: syncPoolAndLocate_def bindR_Inr_iff split: if_splits)
  have "merged = indexed (map leaf_bytes merged)" "set merged = set incoming"
    using mergeLeaves_sound [OF merged] by simp_all
  note parts = this
  have "distinct merged"
    by (subst parts(1)) (auto simp: indexed_def distinct_map intro: inj_onI)
  then have "length merged \<le> 2 ^ DEPTH"
    using assms(4) inc parts(2) by (metis distinct_card)
  from located_leaf [OF this ok m] root w assms(3) show ?thesis by auto
qed

section \<open>The pending recoveries of a device\<close>

text \<open>
  The abstract state is which accounts have a pending recovery, as far as this device knows. An
  operation starts a recovery, ends it, or fails and changes nothing. It touches the storage once,
  at its end; then the browser may refuse the storage, or have no room for a note, and the
  operation succeeds without it.
\<close>

datatype zk_op =
    InitiateOp string int bytes
  | CancelOp string int
  | BurnOp string int
  | CompleteOp complete_args

datatype storage_access = Usable | Full | Refused

datatype zk_event = Started string staged_recovery | Ended string | Failed

type_synonym pending = "string \<rightharpoonup> staged_recovery"

definition recovery_step :: "pending \<Rightarrow> zk_event \<Rightarrow> pending" where
  "recovery_step p e =
     (case e of Started account staged \<Rightarrow> p(account \<mapsto> staged) | Ended account \<Rightarrow> p(account := None) | Failed \<Rightarrow> p)"

definition noteworthy :: "storage_access \<times> zk_event \<Rightarrow> bool" where
  "noteworthy x \<longleftrightarrow> (case x of (Usable, _) \<Rightarrow> True | (Full, Ended _) \<Rightarrow> True | _ \<Rightarrow> False)"

definition pending_step :: "pending \<Rightarrow> storage_access \<times> zk_event \<Rightarrow> pending" where
  "pending_step p x = (if noteworthy x then recovery_step p (snd x) else p)"

definition ended :: "string \<Rightarrow> (relayer_error + string) \<times> overlay \<Rightarrow> zk_event \<times> overlay" where
  "ended account r = (if isl (fst r) then Failed else Ended account, snd r)"

definition run_zk_on ::
  "('w, 'd) zk_env \<Rightarrow> local_storage \<Rightarrow> bool \<Rightarrow> zk_op \<Rightarrow> overlay \<Rightarrow> zk_event \<times> overlay" where
  "run_zk_on env s writable op st =
     (case op of
        InitiateOp account secret newPubkey \<Rightarrow>
          (case initiateZkRecovery env writable account secret newPubkey st of
             (Inl _, st') \<Rightarrow> (Failed, st')
           | (Inr (_, ea), st') \<Rightarrow> (Started account \<lparr>sr_newPubkey65Hex = buf2hex newPubkey,
                 sr_initiatedAt = int (ze_nowMs env div 1000), sr_executableAfter = ea\<rparr>, st'))
      | CancelOp account secret \<Rightarrow> ended account (cancelZkRecovery env s account secret st)
      | BurnOp account secret \<Rightarrow> ended account (burnZkNullifier env s account secret st)
      | CompleteOp args \<Rightarrow> ended (ca_account args) (completeZkRecovery env args st))"

text \<open>\<open>getStorage\<close> is undefined where the browser refuses the storage, which then stays as it is.\<close>

type_synonym ('w, 'd) zk_call = "('w, 'd) zk_env \<times> local_storage \<times> storage_access \<times> zk_op"

definition run_zk_op :: "('w, 'd) zk_call \<Rightarrow> overlay \<Rightarrow> (storage_access \<times> zk_event) \<times> overlay" where
  "run_zk_op x st =
     (case x of (env, s, access, op) \<Rightarrow>
        (case run_zk_on env s (access = Usable) op (if access = Refused then None else st) of
           (e, st') \<Rightarrow> ((access, e), if access = Refused then st else st')))"

fun run_zk :: "('w, 'd) zk_call list \<Rightarrow> overlay \<Rightarrow> (storage_access \<times> zk_event) list \<times> overlay" where
  "run_zk [] st = ([], st)"
| "run_zk (x # xs) st = (case run_zk_op x st of (e, st') \<Rightarrow> (case run_zk xs st' of (es, st'') \<Rightarrow> (e # es, st'')))"

definition noteJson :: "staged_recovery \<Rightarrow> json" where
  "noteJson st = JObj [(''newPubkey65Hex'', JStr (sr_newPubkey65Hex st)), (''initiatedAt'', JNum (sr_initiatedAt st)),
     (''executableAfter'', JNum (sr_executableAfter st))]"

text \<open>The notes in the storage are exactly the pending recoveries.\<close>

definition noted :: "overlay \<Rightarrow> pending \<Rightarrow> bool" where
  "noted st p \<longleftrightarrow> st \<noteq> None \<and> (\<forall>a. readStaged st a = map_option noteJson (p a))"

lemma notes_staged: "noted st p \<Longrightarrow> noted (stageRecovery True a v st) (p(a \<mapsto> v))"
  by (cases st) (auto simp: noted_def overlay_round_trip noteJson_def, simp add: stageRecovery_def)

lemma notes_unwritten: "stageRecovery False a v st = st"
  by (simp add: stageRecovery_def option.map_ident)

lemma notes_cleared: "noted st p \<Longrightarrow> noted (clearStaged a st) (p(a := None))"
  by (cases st) (auto simp: noted_def overlay_round_trip, simp add: clearStaged_def)

lemma ownerCall_notes:
  "noted st p \<Longrightarrow> ended account (ownerCall env s account built st) = (e, st') \<Longrightarrow>
     noted st' (recovery_step p e) \<and> (\<forall>a v. e \<noteq> Started a v)"
  by (auto simp: ended_def ownerCall_def recovery_step_def notes_cleared split: sum.splits prod.splits if_splits)

lemma run_zk_on_notes:
  assumes "noted st p" "run_zk_on env s writable op st = (e, st')"
  shows "noted st' (if writable \<or> (\<exists>a. e = Ended a) then recovery_step p e else p)"
proof (cases op)
  case (InitiateOp account secret pk)
  with assms show ?thesis
    by (auto simp: run_zk_on_def initiateZkRecovery_def recovery_step_def notes_staged notes_unwritten
        split: sum.splits prod.splits)
next
  case (CompleteOp args)
  with assms show ?thesis
    by (auto simp: run_zk_on_def completeZkRecovery_def ended_def recovery_step_def notes_cleared split: sum.splits)
next
  case (CancelOp account secret)
  with assms have "noted st' (recovery_step p e) \<and> (\<forall>a v. e \<noteq> Started a v)"
    by (auto simp: run_zk_on_def cancelZkRecovery_def dest: ownerCall_notes)
  then show ?thesis by (cases e) (auto simp: recovery_step_def)
next
  case (BurnOp account secret)
  with assms have "noted st' (recovery_step p e) \<and> (\<forall>a v. e \<noteq> Started a v)"
    by (auto simp: run_zk_on_def burnZkNullifier_def dest: ownerCall_notes)
  then show ?thesis by (cases e) (auto simp: recovery_step_def)
qed

lemma run_zk_op_notes:
  assumes "noted st p" "run_zk_op x st = (e, st')"
  shows "noted st' (pending_step p e) \<and> fst e = (case x of (_, _, access, _) \<Rightarrow> access)"
proof -
  obtain env s access op where x: "x = (env, s, access, op)" by (cases x)
  from assms(2) x obtain ev st1 where
    run: "run_zk_on env s (access = Usable) op (if access = Refused then None else st) = (ev, st1)"
    and e: "e = (access, ev)" "st' = (if access = Refused then st else st1)"
    by (auto simp: run_zk_op_def split: prod.splits)
  have "noted st' (pending_step p e)"
  proof (cases "access = Refused")
    case False
    with run_zk_on_notes [OF assms(1), of env s "access = Usable" op ev st1] run e show ?thesis
      by (cases access; cases ev) (auto simp: pending_step_def noteworthy_def recovery_step_def)
  qed (use assms(1) e in \<open>auto simp: pending_step_def noteworthy_def\<close>)
  with e x show ?thesis by simp
qed

lemma run_zk_notes:
  "noted st p \<Longrightarrow> run_zk xs st = (es, st') \<Longrightarrow>
     noted st' (foldl pending_step p es) \<and> map fst es = map (\<lambda>(_, _, access, _). access) xs"
proof (induction xs arbitrary: st p es)
  case (Cons x xs)
  from Cons.prems(2) obtain e st1 es' where "run_zk_op x st = (e, st1)" "run_zk xs st1 = (es', st')" "es = e # es'"
    by (auto split: prod.splits)
  note step = run_zk_op_notes [OF Cons.prems(1) this(1)]
  from Cons.IH [OF conjunct1 [OF step] \<open>run_zk xs st1 = (es', st')\<close>] step \<open>es = e # es'\<close> show ?case by simp
qed simp

lemma usable_steps:
  "\<forall>x \<in> set es. fst x = Usable \<Longrightarrow> foldl pending_step p es = foldl recovery_step p (map snd es)"
  by (induction es arbitrary: p) (auto simp: pending_step_def noteworthy_def)

section \<open>Properties\<close>

text \<open>
  C1. An honest recovery is provable: whenever the wallet gets as far as a proof, the inputs it
  gave to the prover satisfy the circuit, their public part is the root that the contract
  reports, the nullifier it submits and the hash of exactly the submitted action, account,
  network, contract, key, nonce and delay, and the submitted proof is the prover's.
\<close>

theorem recovery_inputs_satisfy_circuit:
  assumes "canonical_hash (pe_pos (ze_pool env))" "canonical secret"
    and "\<forall>cid ls. poolLeaves (ze_pool env) cid = Inr ls \<longrightarrow> card (set ls) \<le> 2 ^ DEPTH"
    and "proofInputs env missing act pk timelock account secret = Inr (cid, a, inputs)"
    and "proofArgs env account (cid, a, inputs) = Inr pa"
  shows "zk_circuit (pe_pos (ze_pool env)) inputs \<and>
    fetchCurrentRootFr (pe_rpc (ze_pool env)) cid = Inr (nfieldOf inputs ''root'') \<and>
    bytesToFieldCanonical (pa_root pa) = Inr (nfieldOf inputs ''root'') \<and>
    bytesToFieldCanonical (pa_nullifier pa) = Inr (nfieldOf inputs ''nullifier'') \<and>
    pa_controllerId pa = cid \<and> pa_account pa = account \<and>
    (\<exists>acct ctrl. ze_decodeContract env account = Inr acct \<and> ze_decodeContract env cid = Inr ctrl \<and>
      computeAuthHash (pe_pos (ze_pool env)) (ze_sha256 env)
        \<lparr>action = act, accountId32 = acct, networkPassphrase = TESTNET, controllerId32 = ctrl, newPubkey65 = pk,
         nonce = pa_nonce pa, timelockSecs = timelock\<rparr> = Inr (nfieldOf inputs ''auth_hash'')) \<and>
    (\<exists>blob pid. prove (ze_prover env) (ze_baseUrl env) ''zk_recovery'' inputs = Inr (blob, pid) \<and>
      rawProofFromBlob blob = Inr (pa_proof pa))"
proof -
  let ?pool = "ze_pool env" and ?pos = "pe_pos (ze_pool env)"
  from assms(4) obtain acct ctrl inner leafv leaf32 w n nul h where reg: "pe_registry ?pool ''zk-recovery'' = Inr cid"
    and ids: "ze_decodeContract env account = Inr acct" "ze_decodeContract env cid = Inr ctrl"
    and inner: "wrapLeafInner ?pos secret = Inr inner" and leafv: "wrapLeafStored ?pos acct inner = Inr leafv"
    and leaf32: "fieldToBytes32 leafv = Inr leaf32" and sync: "syncPoolAndLocate ?pool leaf32 = Inr (Some w)"
    and nul: "computeNullifier ?pos acct secret = Inr nul"
    and a: "a = \<lparr>as_action = act, as_accountId32 = acct, as_controllerId32 = ctrl, as_secret = secret,
       as_root = pw_root w, as_siblings = pw_siblings w, as_bits = pw_bits w,
       as_nullifier = nul, as_newPubkey65 = pk, as_nonce = n, as_timelockSecs = timelock\<rparr>"
    and inputs: "assembleCircuitInputs ?pos (ze_sha256 env) a = Inr (inputs, h)"
    by (auto simp: proofInputs_def Let_def bindR_Inr_iff guard_Inr_iff)
  note path = synced_path [OF sync reg assms(1)]
  from path assms(3) obtain x where x: "bytesToFieldCanonical leaf32 = Inr x"
    "computeRoot ?pos x (int (pw_index w)) (pw_siblings w) = Inr (pw_root w)" by blast
  have "x = leafv" using x(1) field.dec_enc [OF leaf32] by simp
  have circuit: "zk_circuit ?pos inputs \<and> nfieldOf inputs ''root'' = as_root a \<and> nfieldOf inputs ''nullifier'' = as_nullifier a \<and>
    nfieldOf inputs ''auth_hash'' = h \<and> computeAuthHash ?pos (ze_sha256 env) (authParams a) = Inr h"
    by (rule assembled_circuit [OF assms(1) inputs, of "pw_index w" inner leafv])
      (use path assms(2,3) a inner leafv nul x \<open>x = leafv\<close> in auto)
  from assms(5) obtain blob pid where proved: "prove (ze_prover env) (ze_baseUrl env) ''zk_recovery'' inputs = Inr (blob, pid)"
    and raw: "rawProofFromBlob blob = Inr (pa_proof pa)"
    and r32: "fieldToBytes32 (as_root a) = Inr (pa_root pa)" "fieldToBytes32 (as_nullifier a) = Inr (pa_nullifier pa)"
    and pa: "pa_controllerId pa = cid" "pa_account pa = account" "pa_nonce pa = as_nonce a"
    by (auto simp: proofArgs_def bindR_Inr_iff)
  have "fetchCurrentRootFr (pe_rpc ?pool) cid = Inr (as_root a)" using path assms(3) a by simp
  moreover have "computeAuthHash ?pos (ze_sha256 env)
        \<lparr>action = act, accountId32 = acct, networkPassphrase = TESTNET, controllerId32 = ctrl, newPubkey65 = pk,
         nonce = pa_nonce pa, timelockSecs = timelock\<rparr> = Inr h"
    using circuit pa a by (simp add: authParams_def)
  ultimately show ?thesis
    using circuit field.dec_enc [OF r32(1)] field.dec_enc [OF r32(2)] pa ids proved raw by auto
qed

text \<open>A sample recovery: the account's leaf is the only one of the pool, the prover is a stub.\<close>

definition sample_blob :: bytes where
  "sample_blob = uint32BE 3 @ replicate 96 0 @ [7]"

definition sample_prover :: "unit prover_env" where
  "sample_prover = \<lparr>pv_imports = Inr (), pv_fetch = \<lambda>_. Inr (200, []), pv_sha256 = \<lambda>b. b, pv_keccak = \<lambda>b. b,
     pv_execute = \<lambda>_ _. Inr (), pv_generate = \<lambda>_ _. Inr ([7], None), pv_stub = Some (\<lambda>_ _. Inr (sample_blob, ''id'')),
     pv_worker = None\<rparr>"

definition sample_zk :: "(unit, unit) zk_env" where
  "sample_zk = \<lparr>ze_pool = sample_pool,
     ze_calls = \<lparr>zkRecoverySpec = \<lambda>_ _. Inr [], smartAccountSpec = \<lambda>_ _. Inr [], newContract = \<lambda>_. Inr ()\<rparr>,
     ze_sha256 = \<lambda>_. replicate 32 0, ze_decodeContract = \<lambda>_. Inr (replicate 32 0), ze_prover = sample_prover,
     ze_baseUrl = ''/'', ze_signer = sample_signer, ze_nowMs = 5000\<rparr>"

lemma zero_located:
  "locateLeaf (\<lambda>_. 0) [zero_leaf] (replicate 32 0) =
     Inr (Some \<lparr>m_index = 0, m_siblings = replicate 24 0, m_bits = replicate 24 0\<rparr>)"
  by code_simp

lemma zero_facts:
  "mergeLeaves [] [zero_leaf] = Inr [zero_leaf]" "verifyAgainstOnChainRoot (\<lambda>_. 0) [zero_leaf] 0 = Inr True"
  "bytesToFieldCanonical (replicate 32 0) = Inr 0" "fieldToBytes32 0 = Inr (replicate 32 0)"
  "split16 (replicate 32 0) = Inr (0, 0)" "rawProofFromBlob sample_blob = Inr [7]"
  by code_simp+

lemma sample_synced:
  "syncPoolAndLocate sample_pool (replicate 32 0) =
     Inr (Some \<lparr>pw_index = 0, pw_siblings = replicate 24 0, pw_bits = replicate 24 0, pw_root = 0\<rparr>)"
  using sample_fetched zero_located zero_facts(1-3)
  by (simp add: syncPoolAndLocate_def sample_pool_def poolLeaves_def fetchCurrentRootFr_def simulateView_def
      sample_zk_rpc_def toBytes_def)

lemma sample_inputs:
  "\<exists>a inputs pa. proofInputs sample_zk ''missing'' 2 None 0 ''CA'' 5 = Inr (''CZ'', a, inputs) \<and>
     proofArgs sample_zk ''CA'' (''CZ'', a, inputs) = Inr pa"
  using sample_synced zero_facts(4-6)
  by (simp add: proofInputs_def proofArgs_def sample_zk_def wrapLeafInner_def wrapLeafStored_def hash2_def computeNullifier_def
      fetchNextNonce_def simulateView_def sample_zk_rpc_def assembleCircuitInputs_def circuitPubkeyFields_def computeAuthHash_def
      authInputs_def authParams_def pubkeyFields_def u256FromU64_def prove_def sample_prover_def sample_pool_def Let_def)

theorem recovery_inputs_satisfy_circuit_witness:
  "\<exists>a inputs. proofInputs sample_zk ''missing'' 2 None 0 ''CA'' 5 = Inr (''CZ'', a, inputs) \<and>
     zk_circuit (\<lambda>_. 0) inputs"
proof -
  obtain a inputs pa where p: "proofInputs sample_zk ''missing'' 2 None 0 ''CA'' 5 = Inr (''CZ'', a, inputs)"
    and q: "proofArgs sample_zk ''CA'' (''CZ'', a, inputs) = Inr pa" using sample_inputs by blast
  have pool: "ze_pool sample_zk = sample_pool" "pe_pos sample_pool = (\<lambda>_. 0)" by (simp_all add: sample_zk_def sample_pool_def)
  have "canonical_hash (pe_pos (ze_pool sample_zk))" "canonical 5"
    by (simp_all add: pool canonical_hash_def canonical_def FIELD_ORDER_val)
  moreover have "\<forall>cid ls. poolLeaves (ze_pool sample_zk) cid = Inr ls \<longrightarrow> card (set ls) \<le> 2 ^ DEPTH"
    using sample_fetched by (simp add: pool(1) poolLeaves_def DEPTH_def) (simp add: sample_pool_def)
  ultimately show ?thesis
    using recovery_inputs_satisfy_circuit [of sample_zk 5 "''missing''" 2 None 0 "''CA''" "''CZ''" a inputs pa] p q pool by simp
qed

text \<open>
  C9. The notes of pending recoveries follow the recoveries: after any operations on any accounts,
  with any outcome of each and of its access to the storage, the storage shows for every account
  the note of the last successful operation whose access took effect: the key and times of the
  start that it was, or none if it ended a recovery. A start with no room for its note leaves the
  older note, and a refused storage changes nothing. If every access succeeds, the notes are
  exactly those of the accounts whose last successful operation started a recovery.
\<close>

theorem pending_notes_refine:
  "run_zk xs (Some Map.empty) = (es, st) \<Longrightarrow>
     map fst es = map (\<lambda>(_, _, access, _). access) xs \<and>
     readStaged st a = map_option noteJson (foldl pending_step Map.empty es a) \<and>
     (list_all (\<lambda>(_, _, access, _). access = Usable) xs \<longrightarrow>
        readStaged st a = map_option noteJson (foldl recovery_step Map.empty (map snd es) a))"
proof -
  assume run: "run_zk xs (Some Map.empty) = (es, st)"
  have "noted (Some Map.empty) Map.empty" by (simp add: noted_def readStaged_def)
  from run_zk_notes [OF this run] have kept: "noted st (foldl pending_step Map.empty es)"
    and access: "map fst es = map (\<lambda>(_, _, access, _). access) xs" by blast+
  have "\<forall>x \<in> set es. fst x = Usable" if all: "list_all (\<lambda>(_, _, access, _). access = Usable) xs"
  proof
    fix x assume "x \<in> set es"
    then have "fst x \<in> set (map (\<lambda>(_, _, access, _). access) xs)" unfolding access [symmetric] by simp
    with all show "fst x = Usable" by (auto simp: list_all_iff)
  qed
  with kept access usable_steps [of es Map.empty] show ?thesis by (simp add: noted_def)
qed

text \<open>
  A recovery is completed by nothing but the new key's rule: what is submitted calls, on the
  recovering account itself, \<open>add_context_rule\<close> for one new default rule whose only signer is the
  matured key; its entry is the simulated one with an empty signer map under the recovery rule
  alone, valid as long as the mode allows.
\<close>

theorem completion_is_zero_signer:
  assumes "assembles sg" "buildCompleteRecovery calls args = Inr built"
    and "signCompletion sg (hd (zb_operations built)) (zb_contextRuleIds built) = Inr (source, tx)"
  shows "\<exists>vs sim e rest e' c v.
    smartAccountSpec calls ''add_context_rule''
      [(''context_type'', AEnum ''Default'' []), (''name'', AString ''recovered''), (''valid_until'', AUndefined),
       (''signers'', AList [AEnum ''External'' [AString (ca_webauthnVerifierId args), ABuffer (ca_newPubkey65 args)]]),
       (''policies'', AEmptyMap)] = Inr vs \<and> length (ca_newPubkey65 args) = 65 \<and>
    sg_simulate sg source 10000000 (HostInvoke (ca_account args) ''add_context_rule'' vs) = Inr sim \<and>
    ss_auth sim = Some (e # rest) \<and>
    tx_operations tx = [\<lparr>op_hostFunction = HostInvoke (ca_account args) ''add_context_rule'' vs,
                         op_authEntries = Some (e' # rest)\<rparr>] \<and>
    ae_invocation e' = ae_invocation e \<and> ae_creds e' = Some c \<and> cred_signature c = Some v \<and>
    payload_rule_ids v = Some (ruleIdsScVal [ca_recoveryRuleId args]) \<and> payload_signers v = Some [] \<and>
    cred_expiration c = ss_latestLedger sim + (if relayerEnabled (sg_relayerUrl sg) then 120 else 10000)"
proof -
  from assms(2) obtain vs where vs: "smartAccountSpec calls ''add_context_rule''
      [(''context_type'', AEnum ''Default'' []), (''name'', AString ''recovered''), (''valid_until'', AUndefined),
       (''signers'', AList [AEnum ''External'' [AString (ca_webauthnVerifierId args), ABuffer (ca_newPubkey65 args)]]),
       (''policies'', AEmptyMap)] = Inr vs" "length (ca_newPubkey65 args) = 65"
    and built: "zb_operations built = [HostInvoke (ca_account args) ''add_context_rule'' vs]"
      "zb_contextRuleIds built = [ca_recoveryRuleId args]"
    by (auto simp: buildCompleteRecovery_def bindR_Inr_iff callOp_Inr require_Inr)
  let ?op = "HostInvoke (ca_account args) ''add_context_rule'' vs"
  from assms(3) built obtain src sim e where so: "simulateOp sg ?op = Inr (src, sim)" and ge: "getAuthEntry (ss_auth sim) = Inr e"
    by (auto simp: signCompletion_def bindR_Inr_iff)
  from so have sim: "sg_simulate sg src 10000000 ?op = Inr sim" by (auto simp: simulateOp_def bindR_Inr_iff)
  from ge obtain rest where e: "ss_auth sim = Some (e # rest)" by (auto simp: getAuthEntry_Inr)
  have baked: "tx_operations (ss_assembled sim) = [\<lparr>op_hostFunction = ?op, op_authEntries = ss_auth sim\<rparr>]"
    using assms(1) sim unfolding assembles_def by blast
  from assms(3) built so ge baked e have src: "src = source" and tx: "\<exists>c. ae_creds e = Some c \<and>
      tx = (ss_assembled sim)\<lparr>tx_operations := [\<lparr>op_hostFunction = ?op, op_authEntries = Some (e\<lparr>ae_creds := Some (c
        \<lparr>cred_expiration := ss_latestLedger sim + (if relayerEnabled (sg_relayerUrl sg) then RELAYER_EXPIRATION_OFFSET
           else CLASSIC_EXPIRATION_LEDGER_OFFSET),
         cred_signature := Some (zeroSignerAuthPayloadScVal [ca_recoveryRuleId args])\<rparr>)\<rparr> # rest)\<rparr>]\<rparr>"
    by (auto simp: signCompletion_def Let_def split: option.splits)
  from tx vs sim src e show ?thesis
    by (auto simp: payload_rule_ids_def payload_signers_def ruleIdsScVal_def zeroSignerAuthPayloadScVal_def
        RELAYER_EXPIRATION_OFFSET_def CLASSIC_EXPIRATION_LEDGER_OFFSET_def)
qed

definition sample_zk' :: "(unit, unit) zk_env" where
  "sample_zk' = sample_zk\<lparr>ze_signer := sample_signer\<lparr>sg_server := \<lparr>simulate_enforce = \<lambda>_. Inr ((), 5),
     send_transaction = \<lambda>_. (SendPending, ''HASH''), get_transaction = \<lambda>_ _. GetSuccess\<rparr>\<rparr>\<rparr>"

lemma poll_success [simp]: "pollResult (\<lambda>_. GetSuccess) n i = GetSuccess"
  by (cases n) simp_all

lemma sample_started:
  "\<exists>st'. run_zk_op (sample_zk', sample_device, access, InitiateOp ''CA'' 5 (replicate 65 4)) st =
     ((access, Started ''CA'' \<lparr>sr_newPubkey65Hex = buf2hex (replicate 65 4), sr_initiatedAt = 5, sr_executableAfter = 0\<rparr>), st')"
proof -
  have "\<not> isl (circuitPubkeyFields (Some (replicate 65 4)))" by code_simp
  then obtain a b c d e where pk: "circuitPubkeyFields (Some (replicate 65 4)) = Inr (a, b, c, d, e)"
    by (cases "circuitPubkeyFields (Some (replicate 65 4))") auto
  have "\<exists>args. initiateArgs sample_zk' ''CA'' 5 (replicate 65 4) = Inr args \<and> length (pa_root args) = 32 \<and>
      length (pa_nullifier args) = 32 \<and> ia_newPubkey65 args = replicate 65 4"
    using sample_synced zero_facts(4-6) pk circuitPubkeyFields_list [OF pk]
    by (simp add: initiateArgs_def proofInputs_def proofArgs_def sample_zk'_def sample_zk_def wrapLeafInner_def wrapLeafStored_def hash2_def
        computeNullifier_def fetchNextNonce_def simulateView_def sample_zk_rpc_def assembleCircuitInputs_def computeAuthHash_def
        authInputs_def authParams_def u256FromU64_def prove_def sample_prover_def sample_pool_def Let_def
        TESTNET_ZK_RECOVERY_DELAY_SECS_def)
  then obtain args where args: "initiateArgs sample_zk' ''CA'' 5 (replicate 65 4) = Inr args" "length (pa_root args) = 32"
      "length (pa_nullifier args) = 32" "ia_newPubkey65 args = replicate 65 4" by blast
  have signer: "simulateOp (ze_signer sample_zk') hf = Inr (''G'', sample_sim hf)"
    "submitAssembled (ze_signer sample_zk') tx ''G'' = Inr ''HASH''" for hf tx
    by (simp_all add: simulateOp_def sample_zk'_def signingSource_def relayerEnabled_def sample_signer_def submitAssembled_def
        classicSubmitAndPoll_def Let_def)
  have sub: "submitPermissionlessOp (ze_signer sample_zk') hf = Inr (''HASH'', None)" for hf
    by (simp add: submitPermissionlessOp_def signer) (simp add: sample_sim_def)
  have calls: "zkRecoverySpec (ze_calls sample_zk') fn xs = Inr []" "newContract (ze_calls sample_zk') x = Inr ()"
    "ze_nowMs sample_zk' = 5000" for fn xs x
    by (simp_all add: sample_zk'_def sample_zk_def)
  show ?thesis
    by (simp add: run_zk_op_def run_zk_on_def initiateZkRecovery_def args sub buildInitiateRecovery_def requirePubkey65_def requireBytes32_def
        callOp_def calls executableAfter_def)
qed

theorem pending_notes_refine_witness:
  "\<exists>st. run_zk [(sample_zk', sample_device, Usable, InitiateOp ''CA'' 5 (replicate 65 4))] (Some Map.empty) =
     ([(Usable, Started ''CA'' \<lparr>sr_newPubkey65Hex = buf2hex (replicate 65 4), sr_initiatedAt = 5, sr_executableAfter = 0\<rparr>)], st) \<and>
     readStaged st ''CA'' = Some (noteJson \<lparr>sr_newPubkey65Hex = buf2hex (replicate 65 4), sr_initiatedAt = 5, sr_executableAfter = 0\<rparr>)"
proof -
  let ?n = "\<lparr>sr_newPubkey65Hex = buf2hex (replicate 65 4), sr_initiatedAt = 5, sr_executableAfter = 0\<rparr>"
  obtain st where "run_zk_op (sample_zk', sample_device, Usable, InitiateOp ''CA'' 5 (replicate 65 4)) (Some Map.empty) = ((Usable, Started ''CA'' ?n), st)"
    using sample_started by blast
  then have run: "run_zk [(sample_zk', sample_device, Usable, InitiateOp ''CA'' 5 (replicate 65 4))] (Some Map.empty) =
    ([(Usable, Started ''CA'' ?n)], st)" by simp
  with pending_notes_refine [OF run, of "''CA''"] show ?thesis
    by (simp add: recovery_step_def pending_step_def noteworthy_def)
qed

text \<open>A start whose note finds no room is not shown, although the recovery is pending.\<close>

lemma unwritten_note:
  "\<exists>st. run_zk [(sample_zk', sample_device, Full, InitiateOp ''CA'' 5 (replicate 65 4))] (Some Map.empty) =
     ([(Full, Started ''CA'' \<lparr>sr_newPubkey65Hex = buf2hex (replicate 65 4), sr_initiatedAt = 5, sr_executableAfter = 0\<rparr>)], st) \<and>
     readStaged st ''CA'' = None"
proof -
  let ?x = "(sample_zk', sample_device, Full, InitiateOp ''CA'' 5 (replicate 65 4))"
  obtain e st where run: "run_zk_op ?x (Some Map.empty) = ((Full, Started ''CA'' e), st)"
    and e: "e = \<lparr>sr_newPubkey65Hex = buf2hex (replicate 65 4), sr_initiatedAt = 5, sr_executableAfter = 0\<rparr>"
    using sample_started by blast
  have "noted (Some Map.empty) Map.empty" by (simp add: noted_def readStaged_def)
  from run_zk_op_notes [OF this run] have "readStaged st ''CA'' = None"
    by (simp add: noted_def pending_step_def noteworthy_def)
  with run e show ?thesis by simp
qed

definition sample_completion :: complete_args where
  "sample_completion = \<lparr>ca_account = ''CA'', ca_recoveryRuleId = 2, ca_newPubkey65 = replicate 65 4, ca_webauthnVerifierId = ''CV''\<rparr>"

theorem completion_is_zero_signer_witness:
  "\<exists>built source tx e' c v. buildCompleteRecovery (ze_calls sample_zk) sample_completion = Inr built \<and>
     signCompletion sample_signer (hd (zb_operations built)) (zb_contextRuleIds built) = Inr (source, tx) \<and>
     op_authEntries (hd (tx_operations tx)) = Some [e'] \<and> ae_creds e' = Some c \<and> cred_signature c = Some v \<and>
     payload_signers v = Some []"
proof -
  let ?op = "HostInvoke ''CA'' ''add_context_rule'' []"
  have b: "buildCompleteRecovery (ze_calls sample_zk) sample_completion = Inr \<lparr>zb_operations = [?op],
      zb_description = ''Complete account recovery (install recovered passkey)'', zb_contextRuleIds = [2]\<rparr>"
    by (simp add: buildCompleteRecovery_def requirePubkey65_def callOp_def sample_zk_def sample_completion_def)
  have "\<exists>tx. signCompletion sample_signer ?op [2] = Inr (''G'', tx)"
    by (simp add: signCompletion_def simulateOp_def getAuthEntry_def sample_entry_def Let_def)
  then obtain tx where tx: "signCompletion sample_signer ?op [2] = Inr (''G'', tx)" by blast
  with completion_is_zero_signer [OF sample_assembles b, of "''G''" tx] b show ?thesis by fastforce
qed

end
