(* ===== verification/SignReview.thy ===== *)
theory SignReview
  imports Signing Money
begin

text \<open>
  What the signing page shows and what it signs: the descriptor of an operation
  (\<open>signing/signRequest.ts\<close>), the operation built from it (\<open>signing/operationBuilders.ts\<close>,
  \<open>transfer/buildSend.ts\<close>) and the summary decoded from an operation (\<open>transfer/txSummary.ts\<close>).
  The SDK's conversion of contract values to JavaScript values is a parameter, as are the
  generated clients and the registry.
\<close>

section \<open>Decoded values\<close>

text \<open>A number of JavaScript and a \<open>bigint\<close> are different values.\<close>

datatype js_val =
    VNull
  | VBool bool
  | VNumber int
  | VBigint int
  | VText string
  | VBuffer bytes
  | VArray "js_val list"
  | VObject "(string \<times> js_val) list"

definition vfield :: "string \<Rightarrow> js_val \<Rightarrow> js_val option" where
  "vfield k v = (case v of VObject kvs \<Rightarrow> map_of kvs k | _ \<Rightarrow> None)"

text \<open>\<open>String(v)\<close>; a \<open>Buffer\<close> prints as the text it encodes.\<close>

fun vtext :: "js_val \<Rightarrow> string" where
  "vtext VNull = ''null''"
| "vtext (VBool b) = (if b then ''true'' else ''false'')"
| "vtext (VNumber n) = showInt n"
| "vtext (VBigint n) = showInt n"
| "vtext (VText s) = s"
| "vtext (VBuffer bs) = text_decode bs"
| "vtext (VArray vs) = join '','' (map (\<lambda>v. if v = VNull then [] else vtext v) vs)"
| "vtext (VObject _) = ''[object Object]''"

text \<open>\<open>BigInt\<close> of a text: white space around it, a sign before decimal digits only, a radix prefix.\<close>

definition digits_below :: "nat \<Rightarrow> string \<Rightarrow> bool" where
  "digits_below b s \<longleftrightarrow> s \<noteq> [] \<and> list_all (\<lambda>c. is_hex (lower c) \<and> digitVal (lower c) < b) s"

definition radixOf :: "char \<Rightarrow> nat option" where
  "radixOf c = (case lower c of CHR ''x'' \<Rightarrow> Some 16 | CHR ''o'' \<Rightarrow> Some 8 | CHR ''b'' \<Rightarrow> Some 2 | _ \<Rightarrow> None)"

definition unsignedText :: "string \<Rightarrow> int option" where
  "unsignedText s = (if all_digits s then Some (int (readNat s)) else None)"

definition bigintText :: "string \<Rightarrow> int option" where
  "bigintText t =
     (case trim t of
        [] \<Rightarrow> Some 0
      | CHR ''-'' # ds \<Rightarrow> map_option uminus (unsignedText ds)
      | CHR ''+'' # ds \<Rightarrow> unsignedText ds
      | CHR ''0'' # c # ds \<Rightarrow>
          (case radixOf c of
             Some b \<Rightarrow> if digits_below b ds then Some (int (ofStringBase b (map lower ds))) else None
           | None \<Rightarrow> unsignedText (CHR ''0'' # c # ds))
      | ds \<Rightarrow> unsignedText ds)"

definition toBigInt :: "js_val \<Rightarrow> int result" where
  "toBigInt v =
     (case v of
        VNull \<Rightarrow> Inl (TypeError ''Cannot convert null to a BigInt'')
      | VBool b \<Rightarrow> Inr (of_bool b)
      | VNumber n \<Rightarrow> Inr n
      | VBigint n \<Rightarrow> Inr n
      | _ \<Rightarrow> (case bigintText (vtext v) of
                None \<Rightarrow> Inl (Error ''Cannot convert to a BigInt'') | Some n \<Rightarrow> Inr n))"

section \<open>Summaries\<close>

text \<open>The fields of a transfer are whatever the transaction holds there.\<close>

datatype op_summary =
    TransferSummary js_val js_val js_val int
  | NameRegister string string string
  | SessionGrant string string string "int option"
  | SessionRevoke string int
  | InvokeSummary string string nat
  | OtherSummary string

type_synonym to_native = "scval \<Rightarrow> js_val result"

text \<open>\<open>None\<close> where the source goes on to its generic summary.\<close>

definition recognized :: "to_native \<Rightarrow> string \<Rightarrow> string \<Rightarrow> scval list \<Rightarrow> op_summary option result" where
  "recognized scValToNative contract fn args =
     (if fn = ''execute'' \<and> length args = 3 then
        bindR (scValToNative (args ! 1)) (\<lambda>f.
          if f \<noteq> VText ''transfer'' then Inr None
          else bindR (scValToNative (args ! 2)) (\<lambda>inner.
            (case inner of
               VArray [from, to, amount] \<Rightarrow>
                 bindR (scValToNative (args ! 0)) (\<lambda>token.
                 bindR (toBigInt amount) (\<lambda>n. Inr (Some (TransferSummary token from to n))))
             | _ \<Rightarrow> Inr None)))
      else if fn = ''transfer'' \<and> length args = 3 then
        bindR (mapR scValToNative args) (\<lambda>vs.
        bindR (toBigInt (vs ! 2)) (\<lambda>n. Inr (Some (TransferSummary (VText contract) (vs ! 0) (vs ! 1) n))))
      else if fn = ''register'' \<and> length args = 2 then
        bindR (scValToNative (args ! 0)) (\<lambda>account.
        bindR (scValToNative (args ! 1)) (\<lambda>name.
          (case (account, name) of
             (VText a, VText n) \<Rightarrow> Inr (Some (NameRegister contract a n))
           | _ \<Rightarrow> Inr None)))
      else if fn = ''remove_context_rule'' \<and> length args = 1 then
        bindR (scValToNative (args ! 0)) (\<lambda>ruleId.
          Inr (case ruleId of VNumber n \<Rightarrow> Some (SessionRevoke contract n) | _ \<Rightarrow> None))
      else if fn = ''add_context_rule'' \<and> length args = 1 then
        bindR (scValToNative (args ! 0)) (\<lambda>rule.
          if rule = VNull then Inl (TypeError ''Cannot read properties of null'')
          else Inr (Some (SessionGrant contract
            (case vfield ''name'' rule of Some (VText n) \<Rightarrow> n | _ \<Rightarrow> ''session-key'')
            (case Option.bind (vfield ''context_type'' rule) (vfield ''values'') of
               Some (VArray (VText t # _)) \<Rightarrow> t | _ \<Rightarrow> [])
            (case vfield ''valid_until'' rule of Some (VNumber n) \<Rightarrow> Some n | _ \<Rightarrow> None))))
      else Inr None)"

definition describeInvokeContract :: "to_native \<Rightarrow> string \<Rightarrow> string \<Rightarrow> scval list \<Rightarrow> op_summary" where
  "describeInvokeContract scValToNative contract fn args =
     (case recognized scValToNative contract fn args of
        Inr (Some s) \<Rightarrow> s
      | _ \<Rightarrow> InvokeSummary contract fn (length args))"

text \<open>\<open>kindOf\<close> names the type of a host function that is not an invocation.\<close>

definition describeHostFunction :: "to_native \<Rightarrow> (bytes \<Rightarrow> string) \<Rightarrow> host_function \<Rightarrow> op_summary" where
  "describeHostFunction scValToNative kindOf fn =
     (case fn of
        OtherHostFunction x \<Rightarrow> OtherSummary (kindOf x)
      | HostInvoke contract name args \<Rightarrow> describeInvokeContract scValToNative contract name args)"

definition describeOperation :: "to_native \<Rightarrow> (bytes \<Rightarrow> string) \<Rightarrow> tx_op \<Rightarrow> op_summary" where
  "describeOperation scValToNative kindOf op =
     (case op of
        OtherOperation t \<Rightarrow> OtherSummary t
      | InvokeHostFunction hf _ \<Rightarrow> describeHostFunction scValToNative kindOf hf)"

text \<open>A parsed envelope: its declared fee and operations; a fee bump has those of its inner transaction.\<close>

datatype parsed_tx = FeeBump string "tx_op list" | Inner string "tx_op list"

definition describeTransaction ::
  "to_native \<Rightarrow> (bytes \<Rightarrow> string) \<Rightarrow> (string \<Rightarrow> string \<Rightarrow> parsed_tx result) \<Rightarrow> string \<Rightarrow> string \<Rightarrow>
   (string \<times> op_summary list) result" where
  "describeTransaction scValToNative kindOf parse txXdr networkPassphrase =
     bindR (parse txXdr networkPassphrase) (\<lambda>tx.
       (case (case tx of FeeBump fee inner \<Rightarrow> (fee, inner) | Inner fee ops \<Rightarrow> (fee, ops)) of
          (fee, ops) \<Rightarrow> Inr (fee, map (describeOperation scValToNative kindOf) ops)))"

section \<open>Descriptors and the operations built from them\<close>

datatype operation_descriptor =
    Register string
  | Transfer string string string "int option" "string option"
  | AddContextRule string string string "nat option" "(string \<times> nat) option" "string option" "string option"
  | RemoveContextRule nat string
  | RawXdr string

definition buildSendOperation :: "xdr_lib \<Rightarrow> string \<Rightarrow> string \<Rightarrow> string \<Rightarrow> int \<Rightarrow> host_function result" where
  "buildSendOperation lib smartAccount tokenContractId destination amount =
     bindR (addressScVal lib smartAccount) (\<lambda>from.
     bindR (addressScVal lib destination) (\<lambda>to.
     bindR (addressScVal lib tokenContractId) (\<lambda>token.
       Inr (HostInvoke smartAccount ''execute''
         [token, ScvSymbol ''transfer'', ScvVec [from, to, ScvI128 amount]]))))"

record builder_env =
  be_xdr :: xdr_lib
  be_registry :: "string \<Rightarrow> string result"
  be_client :: "(host_function, auth) client"

text \<open>\<open>extractXdrOperations(assembled, ...)[0]!\<close>\<close>

definition firstOperation :: "builder_env \<Rightarrow> invocation \<Rightarrow> host_function result" where
  "firstOperation env call =
     bindR (callOps (be_client env) call) (\<lambda>ops.
       (case ops of [] \<Rightarrow> Inl (TypeError ''undefined operation'') | op # _ \<Rightarrow> Inr (x_func op)))"

definition grant_invocation ::
  "string \<Rightarrow> string \<Rightarrow> string \<Rightarrow> bytes \<Rightarrow> nat option \<Rightarrow> string option \<Rightarrow> call_arg \<Rightarrow> invocation" where
  "grant_invocation account target verifierAddress publicKey validUntil label policies =
     \<lparr>inv_contract = account, inv_method = ''add_context_rule'',
      inv_args = [(''context_type'', Context (CtxCallContract target)), (''name'', Str (orElse label ''session-key'')),
        (''valid_until'', OptU32 validUntil), (''signers'', Signers [External verifierAddress publicKey]),
        (''policies'', policies)]\<rparr>"

text \<open>\<open>BigInt\<close> of a text throws when the text is not an integer.\<close>

definition parseBigInt :: "string \<Rightarrow> int result" where
  "parseBigInt s = toBigInt (VText s)"

definition spendingLimitPolicies :: "builder_env \<Rightarrow> (string \<times> nat) option \<Rightarrow> call_arg result" where
  "spendingLimitPolicies env limit =
     (case limit of
        None \<Rightarrow> Inr NoPolicies
      | Some (stroops, periodLedgers) \<Rightarrow>
          bindR (be_registry env ''spending-limit-policy'') (\<lambda>policyAddr.
          bindR (parseBigInt stroops) (\<lambda>n. Inr (LimitPolicy policyAddr n periodLedgers))))"

definition buildOperation :: "builder_env \<Rightarrow> operation_descriptor \<Rightarrow> string \<Rightarrow> host_function result" where
  "buildOperation env d account =
     (case d of
        Register name \<Rightarrow>
          bindR (be_registry env ''name-registry'') (\<lambda>nameRegistryId.
          bindR (addressScVal (be_xdr env) account) (\<lambda>a.
            Inr (HostInvoke nameRegistryId ''register'' [a, ScvString name])))
      | Transfer token to amountRaw _ _ \<Rightarrow>
          bindR (parseBigInt amountRaw) (\<lambda>amount. buildSendOperation (be_xdr env) account token to amount)
      | AddContextRule target signerPublicKeyHex verifierAddress validUntil limit label _ \<Rightarrow>
          bindR (spendingLimitPolicies env limit) (\<lambda>policies.
            firstOperation env (grant_invocation account target verifierAddress (hex2buf signerPublicKeyHex)
              validUntil label policies))
      | RemoveContextRule ruleId _ \<Rightarrow> firstOperation env (revoke_invocation account ruleId)
      | RawXdr _ \<Rightarrow> Inl (TypeError ''undefined operation''))"

section \<open>What is shown is what is signed\<close>

text \<open>
  The SDK's conversions: the values the wallet encodes decode to the JavaScript values they come
  from. The clients encode the arguments of a call in the order of the contract's interface.
\<close>

definition decodes :: "to_native \<Rightarrow> xdr_lib \<Rightarrow> bool" where
  "decodes scValToNative lib \<longleftrightarrow>
     (\<forall>s a. addressScVal lib s = Inr a \<longrightarrow> scValToNative a = Inr (VText s)) \<and>
     (\<forall>s. scValToNative (ScvSymbol s) = Inr (VText s)) \<and> (\<forall>s. scValToNative (ScvString s) = Inr (VText s)) \<and>
     (\<forall>n. scValToNative (ScvU32 n) = Inr (VNumber (int n))) \<and> (\<forall>n. scValToNative (ScvI128 n) = Inr (VBigint n)) \<and>
     (\<forall>vs. scValToNative (ScvVec vs) = bindR (mapR scValToNative vs) (\<lambda>ws. Inr (VArray ws)))"

definition encodes :: "(host_function, auth) client \<Rightarrow> bool" where
  "encodes client \<longleftrightarrow> (\<forall>call ops. client call = Inr (Some ops) \<longrightarrow>
     (\<forall>op \<in> set ops. \<forall>f. op_func op = Some f \<longrightarrow>
       (\<exists>args. f = HostInvoke (inv_contract call) (inv_method call) args \<and>
          length args = length (inv_args call) \<and>
          (\<forall>i n. i < length args \<longrightarrow> snd (inv_args call ! i) = U32 n \<longrightarrow> args ! i = ScvU32 n))))"

text \<open>The client answered this invocation with an envelope that has this host function.\<close>

definition answered :: "(host_function, auth) client \<Rightarrow> invocation \<Rightarrow> host_function \<Rightarrow> bool" where
  "answered client call hf \<longleftrightarrow> (\<exists>ops. client call = Inr (Some ops) \<and> (\<exists>op \<in> set ops. op_func op = Some hf))"

lemma extracted_head:
  assumes "extractXdrOperations (Some ps) = Inr (op # rest)"
  shows "\<exists>p \<in> set ps. op_func p = Some (x_func op)"
proof (cases ps)
  case (Cons p ps')
  with assms show ?thesis
    by (cases "op_func p") (auto simp: extractXdrOperations_def bindR_Inr_iff split: if_splits)
qed (use assms in \<open>simp add: extractXdrOperations_def\<close>)

lemma firstOperation_answered:
  assumes "firstOperation env call = Inr hf"
  shows "answered (be_client env) call hf"
proof -
  from assms obtain xs where xs: "callOps (be_client env) call = Inr xs"
      "(case xs of [] \<Rightarrow> Inl (TypeError ''undefined operation'') | op # _ \<Rightarrow> Inr (x_func op)) = Inr hf"
    by (auto simp: firstOperation_def bindR_Inr_iff)
  then obtain op rest where ops: "callOps (be_client env) call = Inr (op # rest)" "hf = x_func op"
    by (cases xs) simp_all
  then obtain built where built: "be_client env call = Inr built" "extractXdrOperations built = Inr (op # rest)"
    by (auto simp: callOps_def bindR_Inr_iff)
  then obtain ps where ps: "built = Some ps" by (cases built) (simp_all add: extractXdrOperations_def)
  with extracted_head [of ps op rest] built ops(2) show ?thesis unfolding answered_def by auto
qed

lemma answered_encoded:
  assumes "encodes client" "answered client call hf"
  shows "\<exists>args. hf = HostInvoke (inv_contract call) (inv_method call) args \<and> length args = length (inv_args call) \<and>
    (\<forall>i n. i < length args \<longrightarrow> snd (inv_args call ! i) = U32 n \<longrightarrow> args ! i = ScvU32 n)"
  using assms unfolding encodes_def answered_def by blast

lemma recognized_calls:
  "recognized f c ''register'' [a, n] = bindR (f a) (\<lambda>account. bindR (f n) (\<lambda>name.
     (case (account, name) of (VText a, VText n) \<Rightarrow> Inr (Some (NameRegister c a n)) | _ \<Rightarrow> Inr None)))"
  "recognized f c ''remove_context_rule'' [a] = bindR (f a) (\<lambda>ruleId.
     Inr (case ruleId of VNumber n \<Rightarrow> Some (SessionRevoke c n) | _ \<Rightarrow> None))"
  "length args = 5 \<Longrightarrow> recognized f c ''add_context_rule'' args = Inr None"
  by (simp_all add: recognized_def)

lemma recognized_send:
  assumes "f token = Inr t" "f s = Inr (VText ''transfer'')" "f inner = Inr (VArray [from, to, VBigint n])"
  shows "recognized f c ''execute'' [token, s, inner] = Inr (Some (TransferSummary t from to n))"
  using assms by (simp add: recognized_def numeral_2_eq_2 toBigInt_def)

lemma send_describes:
  assumes "decodes f lib" "buildSendOperation lib account token to n = Inr hf"
  shows "describeHostFunction f kindOf hf = TransferSummary (VText token) (VText account) (VText to) n"
proof -
  from assms(2) obtain a b t where v: "addressScVal lib account = Inr a" "addressScVal lib to = Inr b" "addressScVal lib token = Inr t"
    "hf = HostInvoke account ''execute'' [t, ScvSymbol ''transfer'', ScvVec [a, b, ScvI128 n]]"
    by (auto simp: buildSendOperation_def bindR_Inr_iff)
  have d: "f a = Inr (VText account)" "f b = Inr (VText to)" "f t = Inr (VText token)" "f (ScvI128 n) = Inr (VBigint n)"
    "f (ScvSymbol ''transfer'') = Inr (VText ''transfer'')"
    "f (ScvVec [a, b, ScvI128 n]) = bindR (mapR f [a, b, ScvI128 n]) (\<lambda>ws. Inr (VArray ws))"
    using assms(1) v(1-3) unfolding decodes_def by blast+
  have "recognized f account ''execute'' [t, ScvSymbol ''transfer'', ScvVec [a, b, ScvI128 n]] =
      Inr (Some (TransferSummary (VText token) (VText account) (VText to) n))"
    by (rule recognized_send) (simp_all add: d)
  then show ?thesis by (simp add: v(4) describeHostFunction_def describeInvokeContract_def)
qed

lemma built_transfer:
  assumes "decodes f (be_xdr env)" "buildOperation env (Transfer token to amountRaw dec c) account = Inr hf"
  shows "\<exists>n. bigintText amountRaw = Some n \<and>
    describeHostFunction f kindOf hf = TransferSummary (VText token) (VText account) (VText to) n"
proof -
  from assms(2) obtain n where "bigintText amountRaw = Some n" "buildSendOperation (be_xdr env) account token to n = Inr hf"
    by (auto simp: buildOperation_def parseBigInt_def toBigInt_def bindR_Inr_iff split: option.splits)
  with send_describes [OF assms(1)] show ?thesis by blast
qed

lemma built_register:
  assumes "decodes f (be_xdr env)" "buildOperation env (Register name) account = Inr hf"
  shows "\<exists>registry. be_registry env ''name-registry'' = Inr registry \<and>
    describeHostFunction f kindOf hf = NameRegister registry account name"
proof -
  from assms(2) obtain registry a where a: "be_registry env ''name-registry'' = Inr registry"
    "addressScVal (be_xdr env) account = Inr a" "hf = HostInvoke registry ''register'' [a, ScvString name]"
    by (auto simp: buildOperation_def bindR_Inr_iff)
  have "f a = Inr (VText account)" "f (ScvString name) = Inr (VText name)"
    using assms(1) a(2) unfolding decodes_def by blast+
  with a(1) show ?thesis by (simp add: a(3) describeHostFunction_def describeInvokeContract_def recognized_calls)
qed

lemma built_grant:
  assumes "buildOperation env (AddContextRule target pk verifier vu limit label ex) account = Inr hf"
  shows "\<exists>policies. spendingLimitPolicies env limit = Inr policies \<and>
    answered (be_client env) (grant_invocation account target verifier (hex2buf pk) vu label policies) hf"
  using assms firstOperation_answered by (auto simp: buildOperation_def bindR_Inr_iff)

lemma built_revoke:
  assumes "decodes f (be_xdr env)" "encodes (be_client env)" "buildOperation env (RemoveContextRule ruleId target) account = Inr hf"
  shows "describeHostFunction f kindOf hf = SessionRevoke account (int ruleId)"
proof -
  have "firstOperation env (revoke_invocation account ruleId) = Inr hf"
    using assms(3) by (simp add: buildOperation_def)
  from answered_encoded [OF assms(2) firstOperation_answered [OF this]] obtain args where
    args: "hf = HostInvoke account ''remove_context_rule'' args" "length args = 1"
      "\<forall>i n. i < length args \<longrightarrow> snd ([(''context_rule_id'', U32 ruleId)] ! i) = U32 n \<longrightarrow> args ! i = ScvU32 n"
    unfolding revoke_invocation_def invocation.simps by (elim exE conjE) simp
  from args(2) args(3) [rule_format, of 0 ruleId] have "args ! 0 = ScvU32 ruleId" by simp
  with args(1,2) have "hf = HostInvoke account ''remove_context_rule'' [ScvU32 ruleId]" by (cases args) simp_all
  moreover have "f (ScvU32 ruleId) = Inr (VNumber (int ruleId))" using assms(1) unfolding decodes_def by blast
  ultimately show ?thesis
    by (simp add: describeHostFunction_def describeInvokeContract_def recognized_calls)
qed

text \<open>The five arguments of the contract's \<open>add_context_rule\<close> are not recognized as a grant.\<close>

lemma grant_review_degrades:
  "describeInvokeContract f account ''add_context_rule'' [c, n, v, s, p] = InvokeSummary account ''add_context_rule'' 5"
  by (simp add: describeInvokeContract_def recognized_calls)

end
