(* ===== verification/Review.thy ===== *)
theory Review
  imports SignReview
begin

text \<open>
  The cards on which an operation is reviewed: escaping (\<open>html.ts\<close>), shortened addresses
  (\<open>address.ts\<close>), the cards of a transfer, a name and a generic operation
  (\<open>transfer/review.ts\<close>) and of a session grant (\<open>transfer/sessionGrantReview.ts\<close>). The card is
  a text of markup that the page assigns to \<open>innerHTML\<close>. The few characters of the templates
  outside ASCII are written as the bytes of their UTF-8 form.
\<close>

section \<open>Escaping\<close>

definition escHtml :: "char \<Rightarrow> string" where
  "escHtml c =
     (if c = CHR ''&'' then ''&amp;'' else if c = CHR ''<'' then ''&lt;'' else if c = CHR ''>'' then ''&gt;''
      else if c = CHR 0x22 then ''&quot;'' else if c = CHR 0x27 then ''&#39;'' else [c])"

definition esc :: "string \<Rightarrow> string" where
  "esc value = concat (map escHtml value)"

text \<open>The characters \<open>esc\<close> must keep out of the text: those that open or close a tag or an attribute.\<close>

definition is_markup :: "char \<Rightarrow> bool" where
  "is_markup c \<longleftrightarrow> c = CHR ''<'' \<or> c = CHR ''>'' \<or> c = CHR 0x22 \<or> c = CHR 0x27"

definition markup :: "string \<Rightarrow> string" where
  "markup s = filter is_markup s"

text \<open>The browser's reading of the five character references.\<close>

definition reference :: "string \<Rightarrow> (char \<times> nat) option" where
  "reference s =
     (if startsWith s ''amp;'' then Some (CHR ''&'', 4) else if startsWith s ''lt;'' then Some (CHR ''<'', 3)
      else if startsWith s ''gt;'' then Some (CHR ''>'', 3) else if startsWith s ''quot;'' then Some (CHR 0x22, 5)
      else if startsWith s ''#39;'' then Some (CHR 0x27, 4) else None)"

fun shown :: "string \<Rightarrow> string" where
  "shown [] = []"
| "shown (c # s) =
     (if c \<noteq> CHR ''&'' then c # shown s
      else case reference s of
        Some (d, n) \<Rightarrow> d # shown (drop n s)
      | None \<Rightarrow> c # shown s)"

section \<open>Cards\<close>

definition ELLIPSIS :: string where
  "ELLIPSIS = [CHR 0xE2, CHR 0x80, CHR 0xA6]"

definition APPROX :: string where
  "APPROX = [CHR 0xE2, CHR 0x89, CHR 0x88]"

definition MIDDLE_DOT :: string where
  "MIDDLE_DOT = [CHR 0xC2, CHR 0xB7]"

definition shortAddr :: "string \<Rightarrow> nat \<Rightarrow> nat \<Rightarrow> string" where
  "shortAddr addr front back =
     (if length addr > front + back + 1
      then take front addr @ ELLIPSIS @ (if back = 0 then addr else drop (length addr - back) addr)
      else addr)"

definition row :: "string \<Rightarrow> string \<Rightarrow> bool \<Rightarrow> string" where
  \<open>row label valueHtml first =
     ''<div style="display:flex;align-items:center;justify-content:space-between;gap:14px;padding:13px 0;'' @
     (if first then [] else ''border-top:1px solid var(--line-soft);'') @ ''">
      <span class="mut" style="font-size:13px;font-weight:600;white-space:nowrap;">'' @ label @ ''</span>
      <span style="font-size:13.5px;font-weight:600;text-align:right;min-width:0;word-break:break-word;">'' @
     valueHtml @ ''</span>
    </div>''\<close>

definition mono :: "string \<Rightarrow> string" where
  \<open>mono s = ''<span class="mono">'' @ esc s @ ''</span>''\<close>

definition addrWithLabel :: "string \<Rightarrow> string option \<Rightarrow> string" where
  \<open>addrWithLabel addr label =
     (case label of
        Some (c # cs) \<Rightarrow> esc (c # cs) @ '' <span class="mut">('' @ esc (shortAddr addr 4 4) @ '')</span>''
      | _ \<Rightarrow> mono (shortAddr addr 4 4))\<close>

record transfer_view =
  tv_token :: string
  tv_from :: string
  tv_to :: string
  tv_amountRaw :: int
  tv_decimals :: "int option"
  tv_code :: "string option"
  tv_verified :: "bool option"
  tv_icon :: "string option"
  tv_fromLabel :: "string option"
  tv_toLabel :: "string option"
  tv_feeStroops :: "int option"

definition amountText :: "transfer_view \<Rightarrow> string" where
  "amountText v =
     (case tv_decimals v of
        Some d \<Rightarrow> formatDecimal (rawToDecimal (tv_amountRaw v) d) (nat d)
      | None \<Rightarrow> showInt (tv_amountRaw v))"

definition assetCode :: "transfer_view \<Rightarrow> string" where
  "assetCode v = (case tv_code v of Some (c # cs) \<Rightarrow> c # cs | _ \<Rightarrow> shortAddr (tv_token v) 4 4)"

definition assetChip :: "transfer_view \<Rightarrow> string" where
  \<open>assetChip v =
     ''<span style="position:relative;overflow:hidden;width:30px;height:30px;border-radius:9px;flex:0 0 auto;display:grid;place-items:center;background:var(--chip);color:var(--ink-soft);font-weight:800;font-size:12.5px;">'' @
     esc (toUpperCase (case assetCode v of [] \<Rightarrow> ''?'' | c # _ \<Rightarrow> [c])) @
     (case (tv_verified v, tv_icon v) of
        (Some True, Some (c # cs)) \<Rightarrow> ''<img src="'' @ esc (c # cs) @ ''" alt="" loading="lazy" referrerpolicy="no-referrer" style="position:absolute;inset:0;width:100%;height:100%;object-fit:cover;border-radius:inherit;background:var(--paper-2);">''
      | _ \<Rightarrow> []) @ ''</span>''\<close>

definition feeRow :: "int option \<Rightarrow> string" where
  \<open>feeRow feeStroops =
     (case feeStroops of
        None \<Rightarrow> []
      | Some fee \<Rightarrow> row ''Network fee''
          (APPROX @ '' '' @ esc (formatDecimal (rawToDecimal fee 7) 7) @ '' XLM <span class="mut" style="font-weight:500;">'' @
           MIDDLE_DOT @ '' paid for you</span>'') False)\<close>

definition renderTransferReview :: "transfer_view \<Rightarrow> string" where
  \<open>renderTransferReview v =
     (let shown_code = esc (assetCode v);
          verifiedTag = (if tv_verified v = Some True then []
            else '' <span class="chip" style="padding:2px 8px;font-size:10.5px;">unverified</span>'');
          unverifiedNote = (if tv_verified v = Some False
            then ''<p class="mut" style="font-size:12px;line-height:1.5;margin:12px 0 0;">This token isn'' @ [CHR 0x27] @
              ''t on the verified list. Confirm the contract id is one you trust: <code class="mono" style="word-break:break-all;">'' @
              esc (tv_token v) @ ''</code></p>'' else [])
      in ''<div class="txr">
    <div style="text-align:center;padding:6px 0 4px;">
      <div class="disp" style="font-weight:800;font-size:34px;letter-spacing:-.01em;line-height:1.1;">'' @ esc (amountText v) @
      '' <span class="acc">'' @ shown_code @ ''</span></div>
      <div class="mut" style="font-size:13.5px;margin-top:4px;">to '' @ addrWithLabel (tv_to v) (tv_toLabel v) @ ''</div>
    </div>
    <div class="card" style="padding:2px 16px;margin-top:14px;">
      '' @ row ''From'' (addrWithLabel (tv_from v) (tv_fromLabel v)) True @ ''
      '' @ row ''Asset'' (''<span style="display:inline-flex;align-items:center;gap:8px;justify-content:flex-end;">'' @
         assetChip v @ ''<span>'' @ shown_code @ verifiedTag @ ''</span></span>'') False @ ''
      '' @ feeRow (tv_feeStroops v) @ ''
    </div>
    '' @ unverifiedNote @ ''
  </div>'')\<close>

definition renderNameRegister :: "string \<Rightarrow> string \<Rightarrow> string \<Rightarrow> int option \<Rightarrow> string" where
  \<open>renderNameRegister contract account name feeStroops =
     ''<div class="card" style="padding:2px 16px;">
    '' @ row ''Action'' ''Register a name'' True @ ''
    '' @ row ''Name'' (''<code class="mono">'' @ esc name @ ''</code>'') False @ ''
    '' @ row ''For account'' (mono (shortAddr account 4 4)) False @ ''
    '' @ row ''Registry'' (mono (shortAddr contract 4 4)) False @ ''
    '' @ feeRow feeStroops @ ''
  </div>''\<close>

definition codeSpan :: "string \<Rightarrow> string" where
  \<open>codeSpan s = ''<code class="mono">'' @ esc s @ ''</code>''\<close>

definition renderGenericOpLine :: "op_summary \<Rightarrow> string" where
  \<open>renderGenericOpLine op =
     ''<span style="font-size:13.5px;font-weight:600;">'' @
     (case op of
        NameRegister _ _ name \<Rightarrow> ''Registers the name '' @ codeSpan name
      | InvokeSummary contract fn argsCount \<Rightarrow>
          ''Calls '' @ codeSpan fn @ '' on '' @ codeSpan (shortAddr contract 4 4) @ '' ('' @ showNat argsCount @
          '' arg'' @ (if argsCount = 1 then [] else ''s'') @ '')''
      | SessionGrant _ _ target _ \<Rightarrow> ''Grants a session key to '' @ codeSpan target
      | SessionRevoke _ ruleId \<Rightarrow> ''Revokes session-key rule #'' @ showInt ruleId
      | OtherSummary t \<Rightarrow> codeSpan t @ '' operation''
      | TransferSummary _ _ _ _ \<Rightarrow> []) @ ''</span>''\<close>

definition renderGenericOp :: "op_summary \<Rightarrow> string" where
  \<open>renderGenericOp op = ''<div class="card" style="padding:13px 16px;">'' @ renderGenericOpLine op @ ''</div>''\<close>

datatype limit_period = Day | Week | Days30

definition PERIOD_LEDGERS :: "limit_period \<Rightarrow> nat" where
  "PERIOD_LEDGERS p = (case p of Day \<Rightarrow> 17280 | Week \<Rightarrow> 120960 | Days30 \<Rightarrow> 518400)"

definition PERIOD_LABEL :: "limit_period \<Rightarrow> string" where
  "PERIOD_LABEL p = (case p of Day \<Rightarrow> ''per day'' | Week \<Rightarrow> ''per week'' | Days30 \<Rightarrow> ''per 30 days'')"

text \<open>The scope of a grant: its origin, limit, period and expiry label. The limit's text may not be a number.\<close>

record grant_scope =
  gs_origin :: string
  gs_limitStroops :: "string option"
  gs_period :: limit_period
  gs_expiryLabel :: string

definition grantCap :: "grant_scope \<Rightarrow> string result" where
  \<open>grantCap scope =
     (case gs_limitStroops scope of
        None \<Rightarrow> Inr ''Any amount <span class="mut" style="font-weight:500;">(no cap)</span>''
      | Some s \<Rightarrow> bindR (parseBigInt s) (\<lambda>n.
          Inr (''Up to '' @ esc (stroopsToXlm n) @ '' XLM <span class="mut" style="font-weight:500;">'' @
               esc (PERIOD_LABEL (gs_period scope)) @ ''</span>'')))\<close>

definition renderSessionGrant :: "string \<Rightarrow> grant_scope \<Rightarrow> string result" where
  \<open>renderSessionGrant target scope =
     bindR (grantCap scope) (\<lambda>cap.
       Inr (''<div class="card" style="padding:2px 16px;">
    '' @ row ''Action'' ''Grant an app a session key'' True @ ''
    '' @ row ''App'' (mono (gs_origin scope)) False @ ''
    '' @ row ''Can spend'' cap False @ ''
    '' @ row ''Expires'' (esc (gs_expiryLabel scope)) False @ ''
    '' @ row ''On contract'' (mono (shortAddr target 4 4)) False @ ''
  </div>''))\<close>

section \<open>The cards are free of injected markup\<close>

named_theorems markup_simps "the markup of the parts of a card"

lemma markup_append [markup_simps]: "markup (s @ t) = markup s @ markup t"
  by (simp add: markup_def)

lemma markup_Nil [markup_simps]: "markup [] = []"
  by (simp add: markup_def)

lemma markup_Cons [markup_simps]: "markup (c # s) = (if is_markup c then c # markup s else markup s)"
  by (simp add: markup_def)

lemmas [markup_simps] = is_markup_def

lemma escHtml_clean: "markup (escHtml c) = []"
  by (simp add: escHtml_def markup_def is_markup_def)

lemma markup_esc [markup_simps]: "markup (esc s) = []"
  by (induction s) (simp_all add: esc_def markup_append escHtml_clean markup_Nil)

lemma markup_digits: "list_all is_digit s \<Longrightarrow> markup s = []"
  by (auto simp: markup_def list_all_iff is_markup_def is_digit_def filter_empty_conv)

lemma shown_escHtml: "shown (escHtml c @ s) = c # shown s"
  by (simp add: escHtml_def reference_def startsWith_def)

lemma shown_esc: "shown (esc s) = s"
  by (induction s) (simp_all add: esc_def shown_escHtml)

lemma showNat_clean [markup_simps]: "markup (showNat n) = []"
  using toStringBase_digits [of 10 n] by (intro markup_digits) (auto simp: list_all_iff)

lemma showInt_clean [markup_simps]: "markup (showInt n) = []"
  by (simp add: showInt_def markup_simps)

text \<open>The same operation, view or scope with none of the texts that come from outside.\<close>

definition blank_op :: "op_summary \<Rightarrow> op_summary" where
  "blank_op op =
     (case op of
        NameRegister _ _ _ \<Rightarrow> NameRegister [] [] []
      | InvokeSummary _ _ _ \<Rightarrow> InvokeSummary [] [] 0
      | SessionGrant _ _ _ _ \<Rightarrow> SessionGrant [] [] [] None
      | SessionRevoke _ _ \<Rightarrow> SessionRevoke [] 0
      | OtherSummary _ \<Rightarrow> OtherSummary []
      | TransferSummary _ _ _ _ \<Rightarrow> TransferSummary VNull VNull VNull 0)"

definition blank_text :: "string option \<Rightarrow> string option" where
  "blank_text t = (case t of Some (_ # _) \<Rightarrow> Some ''x'' | _ \<Rightarrow> None)"

definition blank_view :: "transfer_view \<Rightarrow> transfer_view" where
  "blank_view v = \<lparr>tv_token = [], tv_from = [], tv_to = [], tv_amountRaw = 0, tv_decimals = None, tv_code = None,
     tv_verified = tv_verified v, tv_icon = blank_text (tv_icon v), tv_fromLabel = blank_text (tv_fromLabel v),
     tv_toLabel = blank_text (tv_toLabel v), tv_feeStroops = map_option (\<lambda>_. 0) (tv_feeStroops v)\<rparr>"

definition blank_scope :: "grant_scope \<Rightarrow> grant_scope" where
  "blank_scope scope = scope\<lparr>gs_origin := [], gs_period := Day, gs_expiryLabel := []\<rparr>"

lemma generic_inert: "markup (renderGenericOp op) = markup (renderGenericOp (blank_op op))"
  by (cases op) (simp_all add: renderGenericOp_def renderGenericOpLine_def blank_op_def codeSpan_def markup_simps)

lemma feeRow_inert: "markup (feeRow fee) = markup (feeRow (map_option (\<lambda>_. 0) fee))"
  by (cases fee) (simp_all add: feeRow_def row_def markup_simps)

lemma addrWithLabel_inert: "markup (addrWithLabel a l) = markup (addrWithLabel [] (blank_text l))"
  by (simp add: addrWithLabel_def mono_def blank_text_def markup_simps split: option.split list.split)

lemma assetChip_inert: "markup (assetChip v) = markup (assetChip (blank_view v))"
  by (simp add: assetChip_def blank_view_def blank_text_def markup_simps split: option.split list.split bool.split)

lemma blank_view_simps:
  "tv_token (blank_view v) = []" "tv_from (blank_view v) = []" "tv_to (blank_view v) = []"
  "tv_verified (blank_view v) = tv_verified v"
  "tv_fromLabel (blank_view v) = blank_text (tv_fromLabel v)" "tv_toLabel (blank_view v) = blank_text (tv_toLabel v)"
  "tv_feeStroops (blank_view v) = map_option (\<lambda>_. 0) (tv_feeStroops v)"
  by (simp_all add: blank_view_def)

lemmas card_simps = row_def mono_def markup_append markup_esc append_Nil

lemma transfer_inert: "markup (renderTransferReview v) = markup (renderTransferReview (blank_view v))"
  by (simp only: renderTransferReview_def Let_def card_simps blank_view_simps assetChip_inert [of v]
      feeRow_inert [of "tv_feeStroops v"] addrWithLabel_inert [of "tv_to v" "tv_toLabel v"]
      addrWithLabel_inert [of "tv_from v" "tv_fromLabel v"] if_distrib [of markup])

lemma name_inert: "markup (renderNameRegister c a n fee) = markup (renderNameRegister [] [] [] (map_option (\<lambda>_. 0) fee))"
  by (simp only: renderNameRegister_def card_simps feeRow_inert [of fee])

lemma grant_inert:
  "map_sum id markup (renderSessionGrant target scope) = map_sum id markup (renderSessionGrant [] (blank_scope scope))"
proof -
  have cap: "map_sum id markup (grantCap scope) = map_sum id markup (grantCap (blank_scope scope))"
    by (cases "gs_limitStroops scope"; cases "parseBigInt (the (gs_limitStroops scope))")
      (simp_all add: grantCap_def blank_scope_def markup_simps)
  have sel: "gs_origin (blank_scope scope) = []" "gs_expiryLabel (blank_scope scope) = []"
    by (simp_all add: blank_scope_def)
  from cap show ?thesis
    by (cases "grantCap scope"; cases "grantCap (blank_scope scope)")
      (simp_all only: renderSessionGrant_def bindR_simps map_sum.simps sum.inject sum.distinct id_apply sel card_simps)
qed

text \<open>
  C34. No text of a transaction, an account or a dApp can add markup to a review card: every card
  has the tags and quotes of the same card with all such texts left out. Escaping loses nothing:
  the browser shows the text that was escaped.
\<close>

theorem review_cards_inert:
  "markup (renderGenericOp op) = markup (renderGenericOp (blank_op op)) \<and>
   markup (renderTransferReview v) = markup (renderTransferReview (blank_view v)) \<and>
   markup (renderNameRegister c a n fee) = markup (renderNameRegister [] [] [] (map_option (\<lambda>_. 0) fee)) \<and>
   map_sum id markup (renderSessionGrant target scope) = map_sum id markup (renderSessionGrant [] (blank_scope scope)) \<and>
   markup (esc s) = [] \<and> shown (esc s) = s"
  by (intro conjI generic_inert transfer_inert name_inert grant_inert markup_esc shown_esc)

end
