(* ===== verification/SignRequest.thy ===== *)
theory SignRequest
  imports Review
begin

text \<open>
  The signing page's request: its form in \<open>sessionStorage\<close>, its construction from a dApp's URL,
  the check of the address it returns to (\<open>signing/signRequest.ts\<close>), and the engine that signs and
  submits it (\<open>signing/runSign.ts\<close>), and the card the page draws for an own operation. The WHATWG parser of URLs is a parameter that yields the
  parts the code reads; \<open>host\<close> is made of the host name and the port as the standard says.
\<close>

section \<open>Requests\<close>

datatype sign_kind = KindNameClaim | KindTransfer | KindSessionGrant | KindSessionRevoke | KindDappTx | KindGeneric

datatype submit_mode = ViaRelayer | ReturnToDapp

datatype return_target = RouteTarget string | DappTarget string "string option" "string option"

record spending_edit =
  ed_initialStroops :: "string option"
  ed_initialPeriod :: string

record sign_request =
  sq_kind :: sign_kind
  sq_account :: string
  sq_operation :: operation_descriptor
  sq_title :: string
  sq_subtitle :: "string option"
  sq_submitMode :: submit_mode
  sq_editable :: "spending_edit list option"
  sq_returnTarget :: return_target
  sq_networkPassphrase :: "string option"

section \<open>Requests as JSON\<close>

definition kindText :: "sign_kind \<Rightarrow> string" where
  "kindText k = (case k of KindNameClaim \<Rightarrow> ''name-claim'' | KindTransfer \<Rightarrow> ''transfer''
     | KindSessionGrant \<Rightarrow> ''session-grant'' | KindSessionRevoke \<Rightarrow> ''session-revoke''
     | KindDappTx \<Rightarrow> ''dapp-tx'' | KindGeneric \<Rightarrow> ''generic'')"

definition modeText :: "submit_mode \<Rightarrow> string" where
  "modeText m = (case m of ViaRelayer \<Rightarrow> ''relayer'' | ReturnToDapp \<Rightarrow> ''return-to-dapp'')"

text \<open>A member that is a text, a number, or the first of them or \<open>null\<close>.\<close>

abbreviation optStr :: "string option \<Rightarrow> json option" where
  "optStr \<equiv> map_option JStr"

definition orNull :: "json option \<Rightarrow> json option" where
  "orNull j = Some (case j of None \<Rightarrow> JNull | Some v \<Rightarrow> v)"

definition limitJson :: "string \<times> nat \<Rightarrow> json" where
  "limitJson l = JObj [(''stroops'', JStr (fst l)), (''periodLedgers'', JNum (int (snd l)))]"

definition descriptorJson :: "operation_descriptor \<Rightarrow> json" where
  "descriptorJson d =
     (case d of
        Register name \<Rightarrow> object [(''type'', Some (JStr ''register'')), (''name'', Some (JStr name))]
      | Transfer token to amountRaw decimals c \<Rightarrow>
          object [(''type'', Some (JStr ''transfer'')), (''token'', Some (JStr token)), (''to'', Some (JStr to)),
            (''amountRaw'', Some (JStr amountRaw)), (''decimals'', map_option JNum decimals), (''code'', optStr c)]
      | AddContextRule target signerPublicKeyHex verifierAddress validUntil limit label expiryLabel \<Rightarrow>
          object [(''type'', Some (JStr ''add-context-rule'')), (''target'', Some (JStr target)),
            (''signerPublicKeyHex'', Some (JStr signerPublicKeyHex)), (''verifierAddress'', Some (JStr verifierAddress)),
            (''validUntil'', orNull (map_option (\<lambda>n. JNum (int n)) validUntil)),
            (''limit'', map_option limitJson limit), (''label'', optStr label), (''expiryLabel'', optStr expiryLabel)]
      | RemoveContextRule ruleId target \<Rightarrow>
          object [(''type'', Some (JStr ''remove-context-rule'')), (''ruleId'', Some (JNum (int ruleId))),
            (''target'', Some (JStr target))]
      | RawXdr x \<Rightarrow> object [(''type'', Some (JStr ''raw-xdr'')), (''xdr'', Some (JStr x))])"

definition targetJson :: "return_target \<Rightarrow> json" where
  "targetJson t =
     (case t of
        RouteTarget url \<Rightarrow> object [(''type'', Some (JStr ''route'')), (''url'', Some (JStr url))]
      | DappTarget origin returnUrl successQuery \<Rightarrow>
          object [(''type'', Some (JStr ''dapp'')), (''origin'', Some (JStr origin)), (''returnUrl'', optStr returnUrl),
            (''successQuery'', optStr successQuery)])"

definition editJson :: "spending_edit \<Rightarrow> json" where
  "editJson e = JObj [(''field'', JStr ''spending-limit''),
     (''initialStroops'', case ed_initialStroops e of None \<Rightarrow> JNull | Some s \<Rightarrow> JStr s),
     (''initialPeriod'', JStr (ed_initialPeriod e))]"

definition requestJson :: "sign_request \<Rightarrow> json" where
  "requestJson r = object [(''v'', Some (JNum 1)), (''kind'', Some (JStr (kindText (sq_kind r)))),
     (''account'', Some (JStr (sq_account r))), (''operation'', Some (descriptorJson (sq_operation r))),
     (''title'', Some (JStr (sq_title r))), (''subtitle'', optStr (sq_subtitle r)),
     (''submitMode'', Some (JStr (modeText (sq_submitMode r)))),
     (''editable'', map_option (\<lambda>es. JArr (map editJson es)) (sq_editable r)),
     (''returnTarget'', Some (targetJson (sq_returnTarget r))), (''networkPassphrase'', optStr (sq_networkPassphrase r))]"

section \<open>The stash\<close>

definition signreqKey :: "string \<Rightarrow> string" where
  "signreqKey id' = ''nido:signreq:'' @ id'"

text \<open>\<open>id'\<close> is the fresh UUID.\<close>

definition stashSignRequest :: "string \<Rightarrow> sign_request \<Rightarrow> local_storage \<Rightarrow> local_storage" where
  "stashSignRequest id' req store = setItem (signreqKey id') (stringify (requestJson req)) store"

definition loadSignRequest :: "string \<Rightarrow> local_storage \<Rightarrow> json option" where
  "loadSignRequest id' store =
     (case store (signreqKey id') of
        None \<Rightarrow> None
      | Some raw \<Rightarrow>
          if raw = [] then None
          else (case parse_json raw of
                  Inl _ \<Rightarrow> None
                | Inr parsed \<Rightarrow>
                    if truthy (Some parsed) \<and> field ''v'' parsed = Some (JNum 1) then Some parsed else None))"

definition clearSignRequest :: "string \<Rightarrow> local_storage \<Rightarrow> local_storage" where
  "clearSignRequest id' store = removeItem (signreqKey id') store"

section \<open>A dApp's request\<close>

text \<open>The first value of a parameter is the one \<open>get\<close> returns.\<close>

definition signRequestFromParams :: "(string \<times> string) list \<Rightarrow> string option \<Rightarrow> sign_request option" where
  "signRequestFromParams params account =
     (case account of
        Some (a # as) \<Rightarrow>
          if orElse (map_of params ''kind'') ''tx'' \<noteq> ''tx'' then None
          else (case (map_of params ''xdr'', map_of params ''dapp'') of
                  (Some (x # xs), Some (d # ds)) \<Rightarrow>
                    Some \<lparr>sq_kind = KindDappTx, sq_account = a # as, sq_operation = RawXdr (x # xs),
                      sq_title = ''Confirm it's you'', sq_subtitle = Some ''transaction'', sq_submitMode = ReturnToDapp,
                      sq_editable = None, sq_returnTarget = DappTarget (d # ds) (map_of params ''return'') None,
                      sq_networkPassphrase = map_of params ''network''\<rparr>
                | _ \<Rightarrow> None)
      | _ \<Rightarrow> None)"

section \<open>The address to return to\<close>

record parsed_url =
  pu_protocol :: string
  pu_hostname :: string
  pu_port :: string
  pu_href :: string

definition pu_host :: "parsed_url \<Rightarrow> string" where
  "pu_host u = (if pu_port u = [] then pu_hostname u else pu_hostname u @ '':'' @ pu_port u)"

definition hostnameOf :: "string \<Rightarrow> string" where
  "hostnameOf host =
     (if CHR '':'' \<in> set host then rev (tl (dropWhile (\<lambda>c. c \<noteq> CHR '':'') (rev host))) else host)"

text \<open>The parser takes an address and the base it is relative to.\<close>

type_synonym url_parser = "string \<Rightarrow> string option \<Rightarrow> parsed_url result"

definition safeRouteUrl :: "url_parser \<Rightarrow> string option \<Rightarrow> string \<Rightarrow> string option" where
  "safeRouteUrl parse url base =
     (case url of
        Some (c # cs) \<Rightarrow>
          (case (parse (c # cs) (Some base), parse base None) of
             (Inr u, Inr baseUrl) \<Rightarrow>
               if pu_protocol u = ''https:'' \<or>
                  pu_protocol u = ''http:'' \<and> (pu_hostname u = ''localhost'' \<or> pu_hostname u = ''127.0.0.1'')
               then let apex = hostnameOf (stripSubdomain (pu_host baseUrl));
                        candidateRoot = hostnameOf (stripSubdomain (pu_host u))
                    in if pu_hostname u = apex \<or> endsWith (pu_hostname u) (''.'' @ apex) \<or> candidateRoot = apex
                       then Some (pu_href u) else None
               else None
           | _ \<Rightarrow> None)
      | _ \<Rightarrow> None)"

section \<open>The signing engine\<close>

definition walletFuncAndAuth :: "'d signer_env \<Rightarrow> wallet_tx \<Rightarrow> (string \<times> string list) result" where
  "walletFuncAndAuth env tx =
     (case tx of
        PlainTx _ _ (InvokeHostFunction hf auth # _) \<Rightarrow> Inr (sg_funcXDR env hf, map (sg_entryXDR env) auth)
      | _ \<Rightarrow> Inl (TypeError ''not a host function invocation''))"

definition orNetworkError :: "'a result \<Rightarrow> relayer_error + 'a" where
  "orNetworkError r = (case r of Inl e \<Rightarrow> Inl (NetworkError e) | Inr x \<Rightarrow> Inr x)"

definition runSignRequest ::
  "'d signer_env \<Rightarrow> builder_env \<Rightarrow> local_storage \<Rightarrow> sign_request \<Rightarrow> relayer_error + string" where
  "runSignRequest env benv s req =
     (case sq_operation req of
        RawXdr txXdr \<Rightarrow>
          let networkPassphrase = orElse (sq_networkPassphrase req) TESTNET in
          bindR (orNetworkError (signTransactionXdr env s (sq_account req) txXdr (Some networkPassphrase))) (\<lambda>signed.
          bindR (orNetworkError (sg_parseTx env signed networkPassphrase)) (\<lambda>tx.
            relayerSubmitAndConfirm (sg_fetch env) (sg_poll env) (walletFuncAndAuth env tx) (sg_relayerUrl env)))
      | d \<Rightarrow>
          bindR (orNetworkError (buildOperation benv d (sq_account req))) (\<lambda>op.
          bindR (signAndSubmit env s (sq_account req) op None) (\<lambda>(hash, _). Inr hash)))"

section \<open>The stash holds what was put in\<close>

text \<open>What a page does to the stash.\<close>

datatype stash_op = Stash string sign_request | Clear string

definition stash_step :: "local_storage \<Rightarrow> stash_op \<Rightarrow> local_storage" where
  "stash_step store oper = (case oper of Stash i r \<Rightarrow> stashSignRequest i r store | Clear i \<Rightarrow> clearSignRequest i store)"

definition typed_step :: "(string \<rightharpoonup> sign_request) \<Rightarrow> stash_op \<Rightarrow> (string \<rightharpoonup> sign_request)" where
  "typed_step m oper = (case oper of Stash i r \<Rightarrow> m(i \<mapsto> r) | Clear i \<Rightarrow> m(i := None))"

definition wf_member :: "json option \<Rightarrow> bool" where
  "wf_member j \<longleftrightarrow> (\<forall>v. j = Some v \<longrightarrow> wf_json v)"

lemma wf_member_simps [simp]:
  "wf_member (Some v) = wf_json v" "wf_member None" "wf_member (map_option f x) \<longleftrightarrow> (\<forall>y. x = Some y \<longrightarrow> wf_json (f y))"
  by (auto simp: wf_member_def)

lemma wf_object: "distinct (map fst kvs) \<Longrightarrow> (\<And>k j. (k, j) \<in> set kvs \<Longrightarrow> wf_member j) \<Longrightarrow>
    wf_json (object kvs)"
proof -
  have "distinct (map fst kvs) \<Longrightarrow> distinct (map fst (List.map_filter (\<lambda>(k, v). map_option (Pair k) v) kvs))"
    by (induction kvs) (auto simp: List.map_filter_def rev_image_eqI split: option.splits)
  moreover assume "distinct (map fst kvs)" "\<And>k j. (k, j) \<in> set kvs \<Longrightarrow> wf_member j"
  ultimately show ?thesis
    by (fastforce simp: object_def list_all_iff List.map_filter_def wf_member_def)
qed

lemma field_object: "distinct (map fst kvs) \<Longrightarrow> (k, v) \<in> set kvs \<Longrightarrow> field k (object kvs) = v"
proof (induction kvs)
  case (Cons x kvs)
  have drop: "k' \<notin> fst ` set kvs \<Longrightarrow> map_of (List.map_filter (\<lambda>(k, v). map_option (Pair k) v) kvs) k' = None" for k'
    by (induction kvs) (auto simp: List.map_filter_def split: option.splits)
  from Cons drop show ?case
    by (cases x) (auto simp: object_def List.map_filter_def image_iff split: option.splits)
qed simp

lemma wf_requestJson: "wf_json (requestJson r)"
proof -
  have d: "wf_json (descriptorJson d)" for d
    by (cases d; simp only: descriptorJson_def operation_descriptor.case; rule wf_object)
      (auto simp: limitJson_def orNull_def split: option.split)
  have t: "wf_json (targetJson t)" for t
    by (cases t; simp only: targetJson_def return_target.case; rule wf_object) auto
  have e: "list_all wf_json (map editJson es)" for es
    by (auto simp: list_all_iff editJson_def split: option.split)
  show ?thesis unfolding requestJson_def
    by (rule wf_object) (auto simp: d t e split: option.split)
qed

lemma requestJson_v: "field ''v'' (requestJson r) = Some (JNum 1)"
  unfolding requestJson_def by (rule field_object) simp_all

lemma truthy_requestJson: "truthy (Some (requestJson r))"
  by (simp add: requestJson_def object_def truthy_def)

lemma load_stashed: "loadSignRequest i (store(signreqKey i \<mapsto> stringify (requestJson r))) = Some (requestJson r)"
  by (simp add: loadSignRequest_def json_round_trip wf_requestJson requestJson_v truthy_requestJson)

lemma signreqKey_inj [simp]: "signreqKey i = signreqKey j \<longleftrightarrow> i = j"
  by (simp add: signreqKey_def)

definition stash_sim :: "local_storage \<Rightarrow> (string \<rightharpoonup> sign_request) \<Rightarrow> bool" where
  "stash_sim store m \<longleftrightarrow> (\<forall>i. loadSignRequest i store = map_option requestJson (m i))"

lemma stash_sim_step: "stash_sim store m \<Longrightarrow> stash_sim (stash_step store oper) (typed_step m oper)"
  by (cases oper)
    (auto simp: stash_sim_def stash_step_def typed_step_def stashSignRequest_def clearSignRequest_def setItem_def
      removeItem_def load_stashed, auto simp: loadSignRequest_def)

lemma stash_sim_run: "stash_sim store m \<Longrightarrow> stash_sim (foldl stash_step store opers) (foldl typed_step m opers)"
  by (induction opers arbitrary: store m) (simp_all add: stash_sim_step)

text \<open>
  What the cast of the loaded value to \<open>SignRequest\<close> claims: every member has its type. An optional
  member may be absent.
\<close>

definition kindOf :: "string \<Rightarrow> sign_kind option" where
  "kindOf t = map_of (map (\<lambda>k. (kindText k, k))
     [KindNameClaim, KindTransfer, KindSessionGrant, KindSessionRevoke, KindDappTx, KindGeneric]) t"

definition modeOf :: "string \<Rightarrow> submit_mode option" where
  "modeOf t = map_of [(''relayer'', ViaRelayer), (''return-to-dapp'', ReturnToDapp)] t"

definition opt_member :: "(json \<Rightarrow> 'a option) \<Rightarrow> string \<Rightarrow> json \<Rightarrow> 'a option option" where
  "opt_member f k j = (case field k j of None \<Rightarrow> Some None | Some v \<Rightarrow> map_option Some (f v))"

definition opt_text :: "string \<Rightarrow> json \<Rightarrow> string option option" where
  "opt_text = opt_member (\<lambda>v. as_string (Some v))"

definition nat_member :: "json option \<Rightarrow> nat option" where
  "nat_member j = (case j of Some (JNum n) \<Rightarrow> if n < 0 then None else Some (nat n) | _ \<Rightarrow> None)"

definition null_or :: "(json \<Rightarrow> 'a option) \<Rightarrow> json option \<Rightarrow> 'a option option" where
  "null_or f j = (case j of None \<Rightarrow> None | Some JNull \<Rightarrow> Some None | Some v \<Rightarrow> map_option Some (f v))"

definition limitOf :: "json \<Rightarrow> (string \<times> nat) option" where
  "limitOf j = Option.bind (as_string (field ''stroops'' j)) (\<lambda>s.
     map_option (Pair s) (nat_member (field ''periodLedgers'' j)))"

definition descriptorOf :: "json \<Rightarrow> operation_descriptor option" where
  "descriptorOf j =
     (let text = (\<lambda>k. as_string (field k j)) in
      case text ''type'' of
        None \<Rightarrow> None
      | Some t \<Rightarrow>
          if t = ''register'' then map_option Register (text ''name'')
          else if t = ''transfer'' then
            Option.bind (text ''token'') (\<lambda>token. Option.bind (text ''to'') (\<lambda>to. Option.bind (text ''amountRaw'') (\<lambda>amount.
            Option.bind (opt_member (\<lambda>v. as_int (Some v)) ''decimals'' j) (\<lambda>decimals.
              map_option (Transfer token to amount decimals) (opt_text ''code'' j)))))
          else if t = ''add-context-rule'' then
            Option.bind (text ''target'') (\<lambda>target. Option.bind (text ''signerPublicKeyHex'') (\<lambda>pk.
            Option.bind (text ''verifierAddress'') (\<lambda>verifier.
            Option.bind (null_or (\<lambda>v. nat_member (Some v)) (field ''validUntil'' j)) (\<lambda>validUntil.
            Option.bind (opt_member limitOf ''limit'' j) (\<lambda>limit. Option.bind (opt_text ''label'' j) (\<lambda>label.
              map_option (AddContextRule target pk verifier validUntil limit label) (opt_text ''expiryLabel'' j)))))))
          else if t = ''remove-context-rule'' then
            Option.bind (nat_member (field ''ruleId'' j)) (\<lambda>ruleId. map_option (RemoveContextRule ruleId) (text ''target''))
          else if t = ''raw-xdr'' then map_option RawXdr (text ''xdr'') else None)"

definition targetOf :: "json \<Rightarrow> return_target option" where
  "targetOf j =
     (case as_string (field ''type'' j) of
        None \<Rightarrow> None
      | Some t \<Rightarrow>
          if t = ''route'' then map_option RouteTarget (as_string (field ''url'' j))
          else if t = ''dapp'' then
            Option.bind (as_string (field ''origin'' j)) (\<lambda>origin. Option.bind (opt_text ''returnUrl'' j) (\<lambda>returnUrl.
              map_option (DappTarget origin returnUrl) (opt_text ''successQuery'' j)))
          else None)"

definition editOf :: "json \<Rightarrow> spending_edit option" where
  "editOf j =
     (if field ''field'' j \<noteq> Some (JStr ''spending-limit'') then None
      else Option.bind (null_or (\<lambda>v. as_string (Some v)) (field ''initialStroops'' j)) (\<lambda>s.
        map_option (spending_edit.make s) (as_string (field ''initialPeriod'' j))))"

fun allOf :: "('a \<Rightarrow> 'b option) \<Rightarrow> 'a list \<Rightarrow> 'b list option" where
  "allOf f [] = Some []"
| "allOf f (x # xs) = Option.bind (f x) (\<lambda>y. map_option ((#) y) (allOf f xs))"

definition listOf :: "(json \<Rightarrow> 'a option) \<Rightarrow> json \<Rightarrow> 'a list option" where
  "listOf f j = (case j of JArr vs \<Rightarrow> allOf f vs | _ \<Rightarrow> None)"

definition requestOf :: "json \<Rightarrow> sign_request option" where
  "requestOf j =
     (if field ''v'' j \<noteq> Some (JNum 1) then None
      else Option.bind (Option.bind (as_string (field ''kind'' j)) kindOf) (\<lambda>kind.
        Option.bind (as_string (field ''account'' j)) (\<lambda>account.
        Option.bind (Option.bind (field ''operation'' j) descriptorOf) (\<lambda>operation.
        Option.bind (as_string (field ''title'' j)) (\<lambda>title.
        Option.bind (opt_text ''subtitle'' j) (\<lambda>subtitle.
        Option.bind (Option.bind (as_string (field ''submitMode'' j)) modeOf) (\<lambda>mode.
        Option.bind (opt_member (listOf editOf) ''editable'' j) (\<lambda>editable.
        Option.bind (Option.bind (field ''returnTarget'' j) targetOf) (\<lambda>ret.
          map_option (sign_request.make kind account operation title subtitle mode editable ret)
            (opt_text ''networkPassphrase'' j))))))))))"

lemma kindOf_text [simp]: "kindOf (kindText k) = Some k"
  by (cases k) (simp_all add: kindOf_def kindText_def)

lemma modeOf_text [simp]: "modeOf (modeText m) = Some m"
  by (cases m) (simp_all add: modeOf_def modeText_def)

named_theorems member_simps "members of a printed record"

lemma opt_text_member [member_simps]: "field k j = optStr t \<Longrightarrow> opt_text k j = Some t"
  by (cases t) (simp_all add: opt_text_def opt_member_def)

lemma opt_member_map [member_simps]: "field k j = map_option g t \<Longrightarrow> (\<And>x. f (g x) = Some x) \<Longrightarrow> opt_member f k j = Some t"
  by (cases t) (simp_all add: opt_member_def)

lemma nat_member_simps [simp]: "nat_member (Some (JNum (int n))) = Some n"
  by (simp add: nat_member_def)

lemma limitOf_printed [simp]: "limitOf (limitJson l) = Some l"
  by (cases l) (simp add: limitOf_def limitJson_def)

lemma editOf_printed [simp]: "editOf (editJson e) = Some e"
  by (cases e) (simp add: editOf_def editJson_def null_or_def spending_edit.make_def split: option.split)

lemma allOf_printed: "(\<And>x. f (g x) = Some x) \<Longrightarrow> allOf f (map g xs) = Some xs"
  by (induction xs) simp_all

lemma listOf_edits [simp]: "listOf editOf (JArr (map editJson es)) = Some es"
  by (simp add: listOf_def allOf_printed)

lemma targetOf_printed [simp]: "targetOf (targetJson t) = Some t"
proof (cases t)
  case (RouteTarget url)
  have "field ''type'' (targetJson t) = Some (JStr ''route'')" "field ''url'' (targetJson t) = Some (JStr url)"
    unfolding RouteTarget targetJson_def return_target.case by (rule field_object; simp)+
  then show ?thesis by (simp add: targetOf_def RouteTarget)
next
  case (DappTarget origin ret query)
  have "field ''type'' (targetJson t) = Some (JStr ''dapp'')" "field ''origin'' (targetJson t) = Some (JStr origin)"
    "field ''returnUrl'' (targetJson t) = optStr ret" "field ''successQuery'' (targetJson t) = optStr query"
    unfolding DappTarget targetJson_def return_target.case by (rule field_object; simp)+
  then show ?thesis by (simp add: targetOf_def DappTarget opt_text_member)
qed

lemma descriptorOf_printed [simp]: "descriptorOf (descriptorJson d) = Some d"
proof (cases d)
  case (Register name)
  have "field ''type'' (descriptorJson d) = Some (JStr ''register'')" "field ''name'' (descriptorJson d) = Some (JStr name)"
    unfolding Register descriptorJson_def operation_descriptor.case by (rule field_object; simp)+
  then show ?thesis by (simp add: descriptorOf_def Register)
next
  case (Transfer token to amount decimals c)
  have "field ''type'' (descriptorJson d) = Some (JStr ''transfer'')" "field ''token'' (descriptorJson d) = Some (JStr token)"
    "field ''to'' (descriptorJson d) = Some (JStr to)" "field ''amountRaw'' (descriptorJson d) = Some (JStr amount)"
    "field ''decimals'' (descriptorJson d) = map_option JNum decimals" "field ''code'' (descriptorJson d) = optStr c"
    unfolding Transfer descriptorJson_def operation_descriptor.case by (rule field_object; simp)+
  then show ?thesis by (simp add: descriptorOf_def Transfer opt_text_member opt_member_map)
next
  case (AddContextRule target pk verifier validUntil limit label expiry)
  have f: "field ''type'' (descriptorJson d) = Some (JStr ''add-context-rule'')" "field ''target'' (descriptorJson d) = Some (JStr target)"
    "field ''signerPublicKeyHex'' (descriptorJson d) = Some (JStr pk)" "field ''verifierAddress'' (descriptorJson d) = Some (JStr verifier)"
    "field ''validUntil'' (descriptorJson d) = orNull (map_option (\<lambda>n. JNum (int n)) validUntil)"
    "field ''limit'' (descriptorJson d) = map_option limitJson limit"
    "field ''label'' (descriptorJson d) = optStr label" "field ''expiryLabel'' (descriptorJson d) = optStr expiry"
    unfolding AddContextRule descriptorJson_def operation_descriptor.case by (rule field_object; simp)+
  have "null_or (\<lambda>v. nat_member (Some v)) (orNull (map_option (\<lambda>n. JNum (int n)) validUntil)) = Some validUntil"
    by (cases validUntil) (simp_all add: null_or_def orNull_def)
  with f show ?thesis by (simp add: descriptorOf_def AddContextRule opt_text_member opt_member_map)
next
  case (RemoveContextRule ruleId target)
  have "field ''type'' (descriptorJson d) = Some (JStr ''remove-context-rule'')"
    "field ''ruleId'' (descriptorJson d) = Some (JNum (int ruleId))" "field ''target'' (descriptorJson d) = Some (JStr target)"
    unfolding RemoveContextRule descriptorJson_def operation_descriptor.case by (rule field_object; simp)+
  then show ?thesis by (simp add: descriptorOf_def RemoveContextRule)
next
  case (RawXdr x)
  have "field ''type'' (descriptorJson d) = Some (JStr ''raw-xdr'')" "field ''xdr'' (descriptorJson d) = Some (JStr x)"
    unfolding RawXdr descriptorJson_def operation_descriptor.case by (rule field_object; simp)+
  then show ?thesis by (simp add: descriptorOf_def RawXdr)
qed

lemma requestOf_printed: "requestOf (requestJson r) = Some r"
proof -
  have f: "field ''v'' (requestJson r) = Some (JNum 1)" "field ''kind'' (requestJson r) = Some (JStr (kindText (sq_kind r)))"
    "field ''account'' (requestJson r) = Some (JStr (sq_account r))"
    "field ''operation'' (requestJson r) = Some (descriptorJson (sq_operation r))"
    "field ''title'' (requestJson r) = Some (JStr (sq_title r))" "field ''subtitle'' (requestJson r) = optStr (sq_subtitle r)"
    "field ''submitMode'' (requestJson r) = Some (JStr (modeText (sq_submitMode r)))"
    "field ''editable'' (requestJson r) = map_option (\<lambda>es. JArr (map editJson es)) (sq_editable r)"
    "field ''returnTarget'' (requestJson r) = Some (targetJson (sq_returnTarget r))"
    "field ''networkPassphrase'' (requestJson r) = optStr (sq_networkPassphrase r)"
    unfolding requestJson_def by (rule field_object; simp)+
  then show ?thesis
    by (cases r) (simp add: requestOf_def opt_text_member opt_member_map sign_request.make_def)
qed

text \<open>
  C35. The stash of sign requests is typed: after any sequence of requests stashed and cleared,
  loading an identifier gives the request last stashed under it, with every member of the type the
  page casts it to, and nothing once it is cleared.
\<close>

theorem stash_is_typed:
  "loadSignRequest i (foldl stash_step Map.empty opers) = map_option requestJson (foldl typed_step Map.empty opers i) \<and>
   Option.bind (loadSignRequest i (foldl stash_step Map.empty opers)) requestOf = foldl typed_step Map.empty opers i"
proof -
  have "stash_sim Map.empty Map.empty" by (simp add: stash_sim_def loadSignRequest_def)
  from stash_sim_run [OF this, of opers] show ?thesis
    by (cases "foldl typed_step Map.empty opers i") (simp_all add: stash_sim_def requestOf_printed)
qed

section \<open>Where the page may return to\<close>

lemma hostnameOf_plain: "CHR '':'' \<notin> set h \<Longrightarrow> hostnameOf h = h"
  by (simp add: hostnameOf_def)

lemma hostnameOf_port:
  assumes "CHR '':'' \<notin> set p"
  shows "hostnameOf (h @ CHR '':'' # p) = h"
proof -
  have "dropWhile (\<lambda>c. c \<noteq> CHR '':'') (rev p @ CHR '':'' # rev h) = CHR '':'' # rev h"
    using assms by (subst dropWhile_append2) auto
  then show ?thesis by (simp add: hostnameOf_def)
qed

definition strip_front :: "string \<Rightarrow> string \<Rightarrow> string" where
  "strip_front sub rest =
     (case bareRoot sub of
        Some n \<Rightarrow> n @ CHR ''.'' # rest
      | None \<Rightarrow> (case snd (previewSubdomain sub) of Some n \<Rightarrow> n @ CHR ''.'' # rest | None \<Rightarrow> rest))"

lemma stripSubdomain_sub: "CHR ''.'' \<notin> set sub \<Longrightarrow> stripSubdomain (sub @ CHR ''.'' # rest) = strip_front sub rest"
proof -
  assume "CHR ''.'' \<notin> set sub"
  then have "labels (sub @ CHR ''.'' # rest) = sub # labels rest" by (rule labels_Cons)
  moreover have "dots (labels rest) = rest" by (rule join_split_on)
  ultimately show ?thesis
    by (cases "labels rest") (simp_all add: stripSubdomain_def strip_front_def Let_def split: option.split)
qed

lemma stripSubdomain_single: "CHR ''.'' \<notin> set h \<Longrightarrow> stripSubdomain h = h"
  by (simp add: stripSubdomain_def split_on_no_sep)

lemma strip_front_cases:
  obtains "strip_front sub rest = rest" | n where "strip_front sub rest = n @ CHR ''.'' # rest" "all_digits n"
proof -
  have "list_all is_digit (trailing_digits sub)"
    by (auto simp: trailing_digits_def list_all_iff dest: set_takeWhileD)
  then have d: "\<And>n. bareRoot sub = Some n \<Longrightarrow> all_digits n" "\<And>n. snd (previewSubdomain sub) = Some n \<Longrightarrow> all_digits n"
    by (auto simp: bareRoot_def legacyRoot_def previewSubdomain_def Let_def all_digits_def split: if_splits)
  show ?thesis
  proof (cases "bareRoot sub")
    case None
    show ?thesis
      by (cases "snd (previewSubdomain sub)") (simp_all add: strip_front_def None d that)
  qed (simp add: strip_front_def d that)
qed

lemma first_label: "CHR ''.'' \<in> set h \<Longrightarrow> \<exists>sub rest. h = sub @ CHR ''.'' # rest \<and> CHR ''.'' \<notin> set sub"
  by (metis split_list_first)

definition in_site :: "site \<Rightarrow> string \<Rightarrow> bool" where
  "in_site s h \<longleftrightarrow> h = site_apex s \<or> endsWith h (''.'' @ site_apex s)"

lemma in_site_sub: "in_site s (x @ CHR ''.'' # site_apex s)"
  by (auto simp: in_site_def endsWith_iff)

lemma in_site_page: "in_site s (page s r)"
proof -
  have root: "in_site s (site_apex s)" by (simp add: in_site_def)
  show ?thesis
    using root in_site_sub [of s "the (site_preview s)"] in_site_sub [of s "the r"]
      in_site_sub [of s "the r @ ''--'' @ the (site_preview s)"]
    by (cases r; cases "site_preview s") (simp_all add: page_def)
qed

lemma in_site_under:
  assumes "in_site s a" "h = x @ a" "x = [] \<or> (\<exists>y. x = y @ ''.'')"
  shows "in_site s h"
  using assms by (auto simp: in_site_def endsWith_iff)

lemma strip_in_site:
  assumes "wf_site s" "stripSubdomain h = page s None"
  shows "in_site s h"
proof -
  obtain a b where ab: "site_apex s = a @ ''.'' @ b" "labels (site_apex s) = [a, b]" "good_label a"
    using assms(1) by (rule site_labels)
  show ?thesis
  proof (cases "CHR ''.'' \<in> set h")
    case False
    with assms(2) in_site_page [of s None] show ?thesis by (simp add: stripSubdomain_single)
  next
    case True
    then obtain sub rest where h: "h = sub @ CHR ''.'' # rest" "CHR ''.'' \<notin> set sub" using first_label by blast
    show ?thesis
    proof (cases rule: strip_front_cases [of sub rest])
      case 1
      with assms(2) h in_site_page [of s None] show ?thesis
        by (intro in_site_under [of s "page s None" h "sub @ ''.''"]) (auto simp: stripSubdomain_sub)
    next
      case (2 n)
      then have e: "page s None = n @ CHR ''.'' # rest" "CHR ''.'' \<notin> set n"
        using assms(2) h by (simp_all add: stripSubdomain_sub all_digits_no_dot)
      have l: "labels (page s None) = n # labels rest" using e by (simp add: labels_Cons)
      show ?thesis
      proof (cases "site_preview s")
        case None
        with l ab(2) have "n = a" by (simp add: page_def)
        with ab(3) 2(2) show ?thesis by (simp add: good_label_def bareRoot_def)
      next
        case (Some m)
        then have "m @ CHR ''.'' # site_apex s = n @ CHR ''.'' # rest" "CHR ''.'' \<notin> set m"
          using e(1) assms(1) by (simp_all add: page_def wf_site_def all_digits_no_dot)
        then have "m # labels (site_apex s) = n # labels rest" using e(2) by (metis labels_Cons)
        then have "rest = site_apex s" by (metis join_split_on list.inject)
        with h in_site_sub [of s sub] show ?thesis by simp
      qed
    qed
  qed
qed

lemma hostnameOf_strip:
  assumes "CHR '':'' \<notin> set h" "CHR '':'' \<notin> set p" "CHR ''.'' \<notin> set p"
  shows "hostnameOf (stripSubdomain (if p = [] then h else h @ '':'' @ p)) = stripSubdomain h"
proof (cases "CHR ''.'' \<in> set h")
  case False
  with assms show ?thesis by (simp add: stripSubdomain_single hostnameOf_plain hostnameOf_port)
next
  case True
  then obtain sub rest where h: "h = sub @ CHR ''.'' # rest" "CHR ''.'' \<notin> set sub" using first_label by blast
  have rest: "CHR '':'' \<notin> set (strip_front sub rest)"
    using assms(1) h(1)
    by (rule_tac strip_front_cases [of sub rest]) (auto simp: all_digits_def list_all_iff is_digit_def)
  have "strip_front sub (rest @ CHR '':'' # p) = strip_front sub rest @ CHR '':'' # p"
    by (simp add: strip_front_def split: option.split)
  with h rest assms(2) show ?thesis
    using stripSubdomain_sub [OF h(2), of "rest @ CHR '':'' # p"]
    by (simp add: stripSubdomain_sub hostnameOf_plain hostnameOf_port)
qed

text \<open>What the URL standard says of the parts of a parsed address.\<close>

definition wf_url :: "parsed_url \<Rightarrow> bool" where
  "wf_url u \<longleftrightarrow> CHR '':'' \<notin> set (pu_hostname u) \<and> CHR '':'' \<notin> set (pu_port u) \<and> CHR ''.'' \<notin> set (pu_port u)"

definition secure :: "parsed_url \<Rightarrow> bool" where
  "secure u \<longleftrightarrow> pu_protocol u = ''https:'' \<or>
     pu_protocol u = ''http:'' \<and> (pu_hostname u = ''localhost'' \<or> pu_hostname u = ''127.0.0.1'')"

lemma route_host: "wf_url u \<Longrightarrow> hostnameOf (stripSubdomain (pu_host u)) = stripSubdomain (pu_hostname u)"
  using hostnameOf_strip [of "pu_hostname u" "pu_port u"] by (simp add: pu_host_def wf_url_def)

lemma safeRouteUrl_eq:
  assumes "url \<noteq> []" "parse url (Some base) = Inr u" "parse base None = Inr b" "wf_url u" "wf_url b"
  shows "safeRouteUrl parse (Some url) base =
    (if secure u \<and> (pu_hostname u = stripSubdomain (pu_hostname b) \<or>
         endsWith (pu_hostname u) (''.'' @ stripSubdomain (pu_hostname b)) \<or>
         stripSubdomain (pu_hostname u) = stripSubdomain (pu_hostname b))
     then Some (pu_href u) else None)"
  using assms by (cases url) (simp_all add: safeRouteUrl_def route_host Let_def secure_def)

text \<open>
  The signing page on an account's host returns within the site only: an accepted address is
  secure and its host is the site's apex or below it, and every secure page of the site is accepted.
\<close>

theorem safe_route_confined:
  assumes "wf_site s" "good_label l \<and> r = Some l \<or> r = None \<and> site_preview s \<noteq> None"
    and "url \<noteq> []" "parse url (Some base) = Inr u" "parse base None = Inr b" "wf_url u" "wf_url b"
    and "pu_hostname b = page s r"
  shows "(\<forall>h. safeRouteUrl parse (Some url) base = Some h \<longrightarrow> h = pu_href u \<and> secure u \<and> in_site s (pu_hostname u)) \<and>
    (\<forall>r'. secure u \<and> pu_hostname u = page s r' \<and> (\<forall>l'. r' = Some l' \<longrightarrow> good_label l') \<longrightarrow>
      safeRouteUrl parse (Some url) base = Some (pu_href u))"
proof -
  have good: "\<And>l'. r = Some l' \<Longrightarrow> good_label l'" using assms(2) by auto
  have root: "stripSubdomain (pu_hostname b) = page s None"
    using page_stripSubdomain [OF assms(1) good] assms(2,8) by auto
  note eq = safeRouteUrl_eq [OF assms(3-7), unfolded root]
  have "h = pu_href u \<and> secure u \<and> in_site s (pu_hostname u)" if "safeRouteUrl parse (Some url) base = Some h" for h
  proof -
    from that have a: "secure u" "h = pu_href u" "pu_hostname u = page s None \<or> endsWith (pu_hostname u) (''.'' @ page s None) \<or>
        stripSubdomain (pu_hostname u) = page s None"
      by (auto simp: eq split: if_splits)
    from a(3) have "in_site s (pu_hostname u)"
    proof (elim disjE)
      assume "endsWith (pu_hostname u) (''.'' @ page s None)"
      then obtain x where "pu_hostname u = (x @ ''.'') @ page s None" by (auto simp: endsWith_iff)
      from in_site_under [OF in_site_page this] show ?thesis by blast
    qed (use in_site_page strip_in_site [OF assms(1)] in auto)
    with a show ?thesis by blast
  qed
  moreover have "safeRouteUrl parse (Some url) base = Some (pu_href u)"
    if r': "secure u" "pu_hostname u = page s r'" "\<forall>l'. r' = Some l' \<longrightarrow> good_label l'" for r'
  proof (cases r')
    case (Some l')
    then have "stripSubdomain (page s (Some l')) = page s None"
      using page_stripSubdomain [OF assms(1), of "Some l'"] r'(3) by simp
    with r' Some show ?thesis by (simp add: eq)
  qed (use r' in \<open>simp add: eq\<close>)
  ultimately show ?thesis by blast
qed

text \<open>A parser that knows two addresses.\<close>

definition sample_parser :: url_parser where
  "sample_parser a base =
     (if a = ''https://alice.nido.fyi'' then Inr \<lparr>pu_protocol = ''https:'', pu_hostname = ''alice.nido.fyi'', pu_port = [], pu_href = a\<rparr>
      else if a = ''https://nido.fyi'' then Inr \<lparr>pu_protocol = ''https:'', pu_hostname = ''nido.fyi'', pu_port = [], pu_href = a\<rparr>
      else if a = ''https://evil.fyi/'' then Inr \<lparr>pu_protocol = ''https:'', pu_hostname = ''evil.fyi'', pu_port = [], pu_href = a\<rparr>
      else Inl (TypeError ''Invalid URL''))"

definition production_site :: site where
  "production_site = \<lparr>site_apex = ''nido.fyi'', site_preview = None\<rparr>"

lemma production_site: "wf_site production_site"
  by code_simp

theorem safe_route_confined_witness:
  "safeRouteUrl sample_parser (Some ''https://nido.fyi'') ''https://alice.nido.fyi'' = Some ''https://nido.fyi'' \<and>
   safeRouteUrl sample_parser (Some ''https://evil.fyi/'') ''https://alice.nido.fyi'' = None"
proof -
  have 1: "sample_parser ''https://alice.nido.fyi'' None =
      Inr \<lparr>pu_protocol = ''https:'', pu_hostname = ''alice.nido.fyi'', pu_port = [], pu_href = ''https://alice.nido.fyi''\<rparr>"
    "sample_parser ''https://nido.fyi'' b = Inr \<lparr>pu_protocol = ''https:'', pu_hostname = ''nido.fyi'', pu_port = [], pu_href = ''https://nido.fyi''\<rparr>"
    "sample_parser ''https://evil.fyi/'' b = Inr \<lparr>pu_protocol = ''https:'', pu_hostname = ''evil.fyi'', pu_port = [], pu_href = ''https://evil.fyi/''\<rparr>" for b
    by (simp_all add: sample_parser_def)
  have p: "page production_site (Some ''alice'') = ''alice.nido.fyi''" "page production_site None = ''nido.fyi''"
    "\<not> in_site production_site ''evil.fyi''"
    by code_simp+
  have "safeRouteUrl sample_parser (Some ''https://nido.fyi'') ''https://alice.nido.fyi'' = Some ''https://nido.fyi''"
    using safe_route_confined [where parse = sample_parser and base = "''https://alice.nido.fyi''" and url = "''https://nido.fyi''" and
        l = "''alice''" and r = "Some ''alice''", OF production_site _ _ 1(2) 1(1),
        THEN conjunct2, THEN spec, of None] sample_site(2) p(1,2) by (simp add: wf_url_def secure_def)
  moreover have "\<not> (\<exists>h. safeRouteUrl sample_parser (Some ''https://evil.fyi/'') ''https://alice.nido.fyi'' = Some h)"
    using safe_route_confined [where parse = sample_parser and base = "''https://alice.nido.fyi''" and url = "''https://evil.fyi/''" and
        l = "''alice''" and r = "Some ''alice''", OF production_site _ _ 1(3) 1(1), THEN conjunct1] sample_site(2) p(1,3) by (auto simp: wf_url_def)
  ultimately show ?thesis by (cases "safeRouteUrl sample_parser (Some ''https://evil.fyi/'') ''https://alice.nido.fyi''") auto
qed

text \<open>On the apex itself the check is that of its top-level domain.\<close>

lemma apex_route_open:
  "safeRouteUrl sample_parser (Some ''https://evil.fyi/'') ''https://nido.fyi'' = Some ''https://evil.fyi/''"
  by code_simp

section \<open>What was reviewed is what is submitted\<close>

lemma injected_functions:
  "injectSignedAuthPayload lib ops signers ledger offset ids = Inr ops' \<Longrightarrow> map op_hostFunction ops' = map op_hostFunction ops"
  by (auto simp: injectSignedAuthPayload_def Let_def bindR_Inr_iff split: list.splits option.splits)

lemma signed_operation_function:
  assumes "assembles env" "signOperation env s account op v = Inr (source, tx, challenge)"
  shows "map op_hostFunction (tx_operations tx) = [op]"
proof -
  from assms(2) obtain sim parsed verifier pk rid ops where
    sim: "sg_simulate env source 10000000 op = Inr sim"
    and inj: "injectPasskeySignature (sg_xdr env) (tx_operations (ss_assembled sim)) parsed verifier pk (ss_latestLedger sim)
      (expirationOffset env) [rid] = Inr ops"
    and tx: "tx = (ss_assembled sim)\<lparr>tx_operations := ops\<rparr>"
    by (auto simp: signOperation_def Let_def bindR_Inr_iff guard_Inr_iff prod.case_eq_if)
  have "tx_operations (ss_assembled sim) = [\<lparr>op_hostFunction = op, op_authEntries = ss_auth sim\<rparr>]"
    using assms(1) sim unfolding assembles_def by blast
  with injected_functions [OF inj [unfolded injectPasskeySignature_def]] tx show ?thesis by simp
qed

lemma signed_xdr_function:
  assumes "assembles env" "signTransactionXdr env s account x p = Inr out"
  shows "\<exists>source fee hf auth tx. sg_parseTx env x (orElse p TESTNET) = Inr (PlainTx source fee [InvokeHostFunction hf auth]) \<and>
    map op_hostFunction (tx_operations tx) = [hf] \<and> out = sg_printTx env tx"
proof -
  from assms(2) obtain source fee ops func sigs rid sim ops' d where
    p: "sg_parseTx env x (orElse p TESTNET) = Inr (PlainTx source fee ops)" "sorobanFunc ops = Some func"
    and sim: "sg_simulate env source fee func = Inr sim"
    and inj: "injectSignedAuthPayload (sg_xdr env) (tx_operations (ss_assembled sim)) sigs (ss_latestLedger sim)
      (expirationOffset env) [rid] = Inr ops'"
    and out: "out = sg_printTx env (refit ((ss_assembled sim)\<lparr>tx_operations := ops'\<rparr>) d)"
    by (auto simp: signTransactionXdr_def Let_def bindR_Inr_iff guard_Inr_iff prod.case_eq_if)
  from p(2) obtain auth where ops: "ops = [InvokeHostFunction func auth]"
    by (auto simp: sorobanFunc_def split: list.splits tx_op.splits)
  have "tx_operations (ss_assembled sim) = [\<lparr>op_hostFunction = func, op_authEntries = ss_auth sim\<rparr>]"
    using assms(1) sim unfolding assembles_def by blast
  then have "map op_hostFunction (tx_operations (refit ((ss_assembled sim)\<lparr>tx_operations := ops'\<rparr>) d)) = [func]"
    using injected_functions [OF inj] by (simp add: refit_def Let_def)
  moreover from p(1) ops have "sg_parseTx env x (orElse p TESTNET) = Inr (PlainTx source fee [InvokeHostFunction func auth])" by simp
  ultimately show ?thesis using out by metis
qed

lemma relayed_function:
  assumes "relayerSubmitAndConfirm fetch fetchAt fa url = Inr hash"
  shows "\<exists>func auth submitted. fa = Inr (func, auth) \<and> length auth \<le> 1 \<and>
    submitSorobanTransaction fetch func auth None url = Inr submitted"
  using assms by (auto simp: relayerSubmitAndConfirm_def bindR_Inr_iff split: sum.splits if_splits)

text \<open>What \<open>TransactionBuilder.fromXDR\<close> reads from a printed transaction.\<close>

definition reads_back :: "'d signer_env \<Rightarrow> host_function \<Rightarrow> bool" where
  "reads_back env hf \<longleftrightarrow> (\<forall>tx network. map op_hostFunction (tx_operations tx) = [hf] \<longrightarrow>
     (\<exists>source fee auth. sg_parseTx env (sg_printTx env tx) network = Inr (PlainTx source fee [InvokeHostFunction hf auth])))"

text \<open>The operations a request stands for, as the page decodes them for review.\<close>

definition reviewed :: "'d signer_env \<Rightarrow> builder_env \<Rightarrow> sign_request \<Rightarrow> tx_op list" where
  "reviewed env benv req =
     (case sq_operation req of
        RawXdr x \<Rightarrow>
          (case sg_parseTx env x (orElse (sq_networkPassphrase req) TESTNET) of Inr (PlainTx _ _ ops) \<Rightarrow> ops | _ \<Rightarrow> [])
      | d \<Rightarrow> (case buildOperation benv d (sq_account req) of Inr hf \<Rightarrow> [InvokeHostFunction hf []] | Inl _ \<Rightarrow> []))"

lemma own_reviewed:
  assumes "\<nexists>x. sq_operation req = RawXdr x"
  shows "runSignRequest env benv s req =
      bindR (orNetworkError (buildOperation benv (sq_operation req) (sq_account req))) (\<lambda>op.
        bindR (signAndSubmit env s (sq_account req) op None) (\<lambda>(hash, _). Inr hash))"
    and "reviewed env benv req = (case buildOperation benv (sq_operation req) (sq_account req) of
      Inr hf \<Rightarrow> [InvokeHostFunction hf []] | Inl _ \<Rightarrow> [])"
  using assms by (cases "sq_operation req"; simp add: runSignRequest_def reviewed_def)+

text \<open>
  The card of an own operation, drawn from the descriptor (\<open>pages/sign/index.astro\<close>). \<open>account\<close> is
  the account of the page, \<open>nativeId\<close> the contract of the native asset. A raw envelope has no card
  of this kind. The controls that edit the cap change the descriptor and draw the card again; they
  and the technical details are left out.
\<close>

definition transferView :: "string \<Rightarrow> string \<Rightarrow> string \<Rightarrow> string \<Rightarrow> int \<Rightarrow> int option \<Rightarrow> string option \<Rightarrow> transfer_view" where
  "transferView nativeId account token to amountRaw decimals assetText =
     \<lparr>tv_token = token, tv_from = account, tv_to = to, tv_amountRaw = amountRaw,
      tv_decimals = (if token = nativeId then Some 7 else decimals),
      tv_code = (if token = nativeId then Some ''XLM'' else assetText), tv_verified = Some (token = nativeId),
      tv_icon = None, tv_fromLabel = None, tv_toLabel = None, tv_feeStroops = None\<rparr>"

definition grantOrigin :: "sign_request \<Rightarrow> string \<Rightarrow> string" where
  "grantOrigin req target =
     (case sq_returnTarget req of DappTarget origin _ _ \<Rightarrow> origin | RouteTarget _ \<Rightarrow> orElse (sq_subtitle req) target)"

definition periodOf :: "(string \<times> nat) option \<Rightarrow> limit_period" where
  "periodOf limit =
     (case limit of
        None \<Rightarrow> Day
      | Some (_, periodLedgers) \<Rightarrow>
          (case List.find (\<lambda>(l, _). l = periodLedgers) [(17280, Day), (120960, Week), (518400, Days30)] of
             Some (_, period) \<Rightarrow> period | None \<Rightarrow> Day))"

definition expiryText :: "string option \<Rightarrow> nat option \<Rightarrow> string" where
  "expiryText label validUntil =
     (case label of
        Some l \<Rightarrow> l
      | None \<Rightarrow> (case validUntil of None \<Rightarrow> ''Until revoked'' | Some n \<Rightarrow> ''Ledger '' @ showNat n))"

definition ownCard :: "string \<Rightarrow> string \<Rightarrow> sign_request \<Rightarrow> string result option" where
  "ownCard nativeId account req =
     (case sq_operation req of
        RawXdr _ \<Rightarrow> None
      | Transfer token to amountRaw decimals assetText \<Rightarrow>
          Some (bindR (parseBigInt amountRaw) (\<lambda>n.
            Inr (renderTransferReview (transferView nativeId account token to n decimals assetText))))
      | Register name \<Rightarrow> Some (Inr (renderNameRegister [] (sq_account req) name None))
      | AddContextRule target _ _ validUntil limit _ expiryLabel \<Rightarrow>
          Some (renderSessionGrant target
            \<lparr>gs_origin = grantOrigin req target, gs_limitStroops = map_option fst limit, gs_period = periodOf limit,
             gs_expiryLabel = expiryText expiryLabel validUntil\<rparr>)
      | RemoveContextRule ruleId _ \<Rightarrow> Some (Inr (renderGenericOp (SessionRevoke account (int ruleId)))))"

text \<open>
  A card shows a call: it is drawn from what the call decodes to. The contract's five-argument
  grant is not decoded, so for a grant the invocation that the client answered is named in full:
  the rule is for the contract on the card, with the cap on the card and no other policy, for the
  given key; key and verifier are not on the card.
\<close>

definition grant_shown :: "builder_env \<Rightarrow> sign_request \<Rightarrow> operation_descriptor \<Rightarrow> host_function \<Rightarrow> string \<Rightarrow> bool" where
  "grant_shown benv req d hf html \<longleftrightarrow>
     (\<exists>target pk verifier validUntil limit label expiryLabel policies origin period args.
        d = AddContextRule target pk verifier validUntil limit label expiryLabel \<and>
        hf = HostInvoke (sq_account req) ''add_context_rule'' args \<and> length args = 5 \<and>
        answered (be_client benv)
          \<lparr>inv_contract = sq_account req, inv_method = ''add_context_rule'',
           inv_args = [(''context_type'', Context (CtxCallContract target)),
             (''name'', Str (case label of Some l \<Rightarrow> l | None \<Rightarrow> ''session-key'')), (''valid_until'', OptU32 validUntil),
             (''signers'', Signers [External verifier (hex2buf pk)]), (''policies'', policies)]\<rparr> hf \<and>
        (case limit of
           None \<Rightarrow> policies = NoPolicies
         | Some (stroops, ledgers) \<Rightarrow>
             (\<exists>policy n. be_registry benv ''spending-limit-policy'' = Inr policy \<and> bigintText stroops = Some n \<and>
                policies = LimitPolicy policy n ledgers) \<and> (\<forall>p. PERIOD_LEDGERS p = ledgers \<longrightarrow> period = p)) \<and>
        (\<forall>o' u q. sq_returnTarget req = DappTarget o' u q \<longrightarrow> origin = o') \<and>
        renderSessionGrant target \<lparr>gs_origin = origin, gs_limitStroops = map_option fst limit, gs_period = period,
          gs_expiryLabel = (case expiryLabel of Some l \<Rightarrow> l | None \<Rightarrow>
            (case validUntil of None \<Rightarrow> ''Until revoked'' | Some n \<Rightarrow> ''Ledger '' @ showNat n))\<rparr> = Inr html)"

definition card_shows ::
  "to_native \<Rightarrow> builder_env \<Rightarrow> string \<Rightarrow> sign_request \<Rightarrow> host_function \<Rightarrow> string \<Rightarrow> bool" where
  "card_shows f benv nativeId req hf html \<longleftrightarrow>
     (case sq_operation req of
        Transfer token to amountRaw decimals assetText \<Rightarrow>
          \<exists>n v. bigintText amountRaw = Some n \<and>
            describeOperation f (\<lambda>_. []) (InvokeHostFunction hf []) =
              TransferSummary (VText (tv_token v)) (VText (tv_from v)) (VText (tv_to v)) (tv_amountRaw v) \<and>
            tv_token v = token \<and> tv_from v = sq_account req \<and> tv_to v = to \<and> tv_amountRaw v = n \<and>
            (tv_verified v = Some True \<longleftrightarrow> token = nativeId) \<and> html = renderTransferReview v
      | Register name \<Rightarrow>
          \<exists>registry. be_registry benv ''name-registry'' = Inr registry \<and>
            describeOperation f (\<lambda>_. []) (InvokeHostFunction hf []) = NameRegister registry (sq_account req) name \<and>
            html = renderNameRegister [] (sq_account req) name None
      | RemoveContextRule ruleId _ \<Rightarrow>
          describeOperation f (\<lambda>_. []) (InvokeHostFunction hf []) = SessionRevoke (sq_account req) (int ruleId) \<and>
          html = renderGenericOp (describeOperation f (\<lambda>_. []) (InvokeHostFunction hf []))
      | d \<Rightarrow> grant_shown benv req d hf html)"

lemma own_card_shows:
  assumes "decodes f (be_xdr benv)" "encodes (be_client benv)" "\<nexists>x. sq_operation req = RawXdr x"
    and "buildOperation benv (sq_operation req) (sq_account req) = Inr hf"
  shows "\<exists>html. ownCard nativeId (sq_account req) req = Some (Inr html) \<and> card_shows f benv nativeId req hf html"
proof (cases "sq_operation req")
  case (Transfer token to amountRaw dec c)
  from built_transfer [OF assms(1) assms(4) [unfolded Transfer]] obtain n where n: "bigintText amountRaw = Some n"
    "describeHostFunction f (\<lambda>_. []) hf = TransferSummary (VText token) (VText (sq_account req)) (VText to) n" by blast
  then show ?thesis
    by (auto simp: Transfer ownCard_def card_shows_def parseBigInt_def toBigInt_def describeOperation_def
        intro!: exI [of _ "transferView nativeId (sq_account req) token to n dec c"] simp: transferView_def)
next
  case (Register name)
  from built_register [OF assms(1) assms(4) [unfolded Register]] show ?thesis
    by (auto simp: Register ownCard_def card_shows_def describeOperation_def)
next
  case (RemoveContextRule ruleId target)
  from built_revoke [OF assms(1,2) assms(4) [unfolded RemoveContextRule]] show ?thesis
    by (simp add: RemoveContextRule ownCard_def card_shows_def describeOperation_def)
next
  case (AddContextRule target pk verifier vu limit label ex)
  from built_grant [OF assms(4) [unfolded AddContextRule]] obtain policies where
    pol: "spendingLimitPolicies benv limit = Inr policies"
    and ans: "answered (be_client benv) (grant_invocation (sq_account req) target verifier (hex2buf pk) vu label policies) hf"
    by blast
  from answered_encoded [OF assms(2) ans] obtain args where
    args: "hf = HostInvoke (sq_account req) ''add_context_rule'' args" "length args = 5"
    by (auto simp: grant_invocation_def)
  let ?scope = "\<lparr>gs_origin = grantOrigin req target, gs_limitStroops = map_option fst limit, gs_period = periodOf limit,
    gs_expiryLabel = expiryText ex vu\<rparr>"
  have "\<exists>html. renderSessionGrant target ?scope = Inr html"
    using pol by (auto simp: renderSessionGrant_def grantCap_def spendingLimitPolicies_def bindR_Inr_iff bindR_def split: option.splits sum.splits)
  then obtain html where html: "renderSessionGrant target ?scope = Inr html" by blast
  have lim: "case limit of None \<Rightarrow> policies = NoPolicies
     | Some (stroops, ledgers) \<Rightarrow>
         (\<exists>policy n. be_registry benv ''spending-limit-policy'' = Inr policy \<and> bigintText stroops = Some n \<and>
            policies = LimitPolicy policy n ledgers) \<and> (\<forall>p. PERIOD_LEDGERS p = ledgers \<longrightarrow> periodOf limit = p)"
    using pol by (auto simp: spendingLimitPolicies_def bindR_Inr_iff parseBigInt_def toBigInt_def periodOf_def PERIOD_LEDGERS_def
        split: option.splits limit_period.splits)
  have "grant_shown benv req (sq_operation req) hf html"
    unfolding grant_shown_def AddContextRule
    by (intro exI conjI; (rule refl args ans [unfolded grant_invocation_def orElse_def] lim html [unfolded expiryText_def])?)
       (simp add: grantOrigin_def)
  with html show ?thesis by (simp add: AddContextRule ownCard_def card_shows_def)
qed (use assms(3) in blast)


text \<open>A transfer on the sample device, through a relayer that confirms at once.\<close>

fun sample_native :: to_native where
  "sample_native (ScvAddress bs) = Inr (VText (map (\<lambda>b. char_of (unat b)) bs))"
| "sample_native (ScvSymbol s) = Inr (VText s)"
| "sample_native (ScvString s) = Inr (VText s)"
| "sample_native (ScvU32 n) = Inr (VNumber (int n))"
| "sample_native (ScvI128 n) = Inr (VBigint n)"
| "sample_native (ScvBytes bs) = Inr (VBuffer bs)"
| "sample_native (ScvVec vs) = bindR (mapR sample_native vs) (\<lambda>ws. Inr (VArray ws))"
| "sample_native (ScvMap _) = Inr (VObject [])"

lemma sample_decodes: "decodes sample_native sample_lib"
proof -
  have "char_of (unat (of_nat (code c) :: byte)) = c" for c
    by (simp add: code_def unat_of_nat)
  then show ?thesis by (auto simp: decodes_def sample_lib_def comp_def)
qed

definition sample_builder :: builder_env where
  "sample_builder = \<lparr>be_xdr = sample_lib, be_registry = \<lambda>_. Inr ''CR'', be_client = \<lambda>_. Inl (Error ''offline'')\<rparr>"

definition sample_send :: host_function where
  "sample_send = HostInvoke ''CA'' ''execute'' (case (addressScVal sample_lib ''CT'', addressScVal sample_lib ''CA'', addressScVal sample_lib ''CB'') of
     (Inr t, Inr a, Inr b) \<Rightarrow> [t, ScvSymbol ''transfer'', ScvVec [a, b, ScvI128 5]] | _ \<Rightarrow> [])"

definition relay_signer :: "unit signer_env" where
  "relay_signer = sample_signer\<lparr>sg_relayerUrl := ''https://relay'', sg_simSource := ''G'', sg_fetch := sample_fetch 1,
     sg_poll := sample_fetch, sg_parseTx := \<lambda>_ _. Inr (PlainTx ''G'' 100 [InvokeHostFunction sample_send []])\<rparr>"

definition sample_request :: sign_request where
  "sample_request = \<lparr>sq_kind = KindTransfer, sq_account = ''CA'', sq_operation = Transfer ''CT'' ''CB'' ''5'' None None,
     sq_title = ''Send'', sq_subtitle = None, sq_submitMode = ViaRelayer, sq_editable = None,
     sq_returnTarget = RouteTarget ''/account/'', sq_networkPassphrase = None\<rparr>"

lemma sample_request_simps: "sq_account sample_request = ''CA''" "sq_operation sample_request = Transfer ''CT'' ''CB'' ''5'' None None"
  by (simp_all add: sample_request_def)

lemma sample_send_built: "buildOperation sample_builder (sq_operation sample_request) ''CA'' = Inr sample_send"
proof -
  have "bigintText ''5'' = Some 5" by code_simp
  then show ?thesis
    by (simp add: sample_request_def buildOperation_def parseBigInt_def toBigInt_def buildSendOperation_def sample_builder_def
        sample_send_def sample_lib_def)
qed

lemma sample_reviewed: "reviewed relay_signer sample_builder sample_request = [InvokeHostFunction sample_send []]"
  using own_reviewed(2) [of sample_request relay_signer sample_builder] sample_send_built by (simp add: sample_request_def)

lemma relay_signs: "\<exists>tx ch e. signOperation relay_signer sample_device ''CA'' sample_send None = Inr (''G'', tx, ch) \<and>
  tx_operations tx = [\<lparr>op_hostFunction = sample_send, op_authEntries = Some [e]\<rparr>]"
proof -
  obtain sig where sig: "parseAssertionResponse [1] [2] sample_der = Inr sig" using sample_parsed by blast
  obtain payload where payload: "buildAuthHash sample_lib (sg_preimage sample_signer) sample_entry TESTNET 100 (Some 120) = Inr payload"
    using sample_hash by blast
  obtain ops where ops: "injectSignedAuthPayload sample_lib [\<lparr>op_hostFunction = sample_send, op_authEntries = Some [sample_entry]\<rparr>]
     [ExternalSig ''CV'' (hex2buf ''04'') sig] 100 (Some 120) [1] = Inr ops" by (rule exE [OF sample_injects])
  then obtain e where "ops = [\<lparr>op_hostFunction = sample_send, op_authEntries = Some [e]\<rparr>]"
    by (auto simp: injectSignedAuthPayload_def Let_def bindR_Inr_iff split: option.splits)
  moreover have "expirationOffset relay_signer = Some 120" "signingSource relay_signer = Inr ''G''"
    by (simp_all add: relay_signer_def sample_signer_def expirationOffset_def signingSource_def relayerEnabled_def RELAYER_EXPIRATION_OFFSET_def)
  moreover have "sg_xdr relay_signer = sample_lib" "sg_rpc relay_signer = sample_chain" "sg_preimage relay_signer = sg_preimage sample_signer"
    "\<And>a b c. sg_simulate relay_signer a b c = Inr (sample_sim c)" "\<And>a b c. sg_assert relay_signer a b c = Inr (Some ([1], [2], sample_der))"
    by (simp_all add: relay_signer_def)
  ultimately show ?thesis using sig payload ops
    by (simp add: signOperation_def sample_loaded sample_resolved getAuthEntry_def injectPasskeySignature_def Let_def)
qed

lemma sample_runs: "runSignRequest relay_signer sample_builder sample_device sample_request = Inr ''h1''"
proof -
  obtain tx ch e where tx: "signOperation relay_signer sample_device ''CA'' sample_send None = Inr (''G'', tx, ch)"
    "tx_operations tx = [\<lparr>op_hostFunction = sample_send, op_authEntries = Some [e]\<rparr>]" using relay_signs by blast
  have relay: "relayerSubmitAndConfirm (sample_fetch 1) sample_fetch (Inr ([], [[]])) ''https://relay'' = Inr ''h1''"
    by code_simp
  have "txFuncAndAuth relay_signer tx = Inr ([], [[]])"
    by (simp add: txFuncAndAuth_def tx(2) relay_signer_def sample_signer_def)
  moreover have "relayerEnabled (sg_relayerUrl relay_signer)" "sg_relayerUrl relay_signer = ''https://relay''"
    "sg_fetch relay_signer = sample_fetch 1" "sg_poll relay_signer = sample_fetch"
    by (simp_all add: relay_signer_def relayerEnabled_def)
  ultimately show ?thesis
    using own_reviewed(1) [of sample_request relay_signer sample_builder sample_device] sample_send_built tx(1) relay
    by (simp add: sample_request_def orNetworkError_def signAndSubmit_def)
qed


end
