(* ===== verification/Sessions.thy ===== *)
theory Sessions
  imports Review SignRequest Webauthn
begin

text \<open>
  Session keys: a dApp creates a passkey of its own (\<open>passkey-sdk/src/sessionKey.ts\<close>), sends its
  public key to the wallet (\<open>delegationHandover.ts\<close>, in the frontend and in the example dApp), the
  wallet installs it as a rule scoped to one contract (\<open>sessionKeyActions.ts\<close>,
  \<open>delegationForm.ts\<close>), and the dApp then signs calls in its own page
  (\<open>examples/status-message-dapp/src/lib/nidoSign.ts\<close>, \<open>describeAuthEntry.ts\<close>). WebCrypto and the
  authenticator are parameters.
\<close>

section \<open>Creating a session key\<close>

definition b64uToBytes :: "string \<Rightarrow> bytes result" where
  "b64uToBytes s = atob (map fromUrlChar s @ replicate ((4 - length s mod 4) mod 4) CHR ''='')"

text \<open>The exported private key: its members \<open>x\<close>, \<open>y\<close> and \<open>d\<close>; \<open>random8\<close> is eight random bytes.\<close>

definition generateSessionKey :: "(string \<times> string \<times> string) result \<Rightarrow> bytes \<Rightarrow> (bytes \<times> bytes \<times> string) result" where
  "generateSessionKey exported random8 =
     bindR exported (\<lambda>(jx, jy, jd).
     bindR (b64uToBytes jx) (\<lambda>x.
     bindR (b64uToBytes jy) (\<lambda>y.
     bindR (b64uToBytes jd) (\<lambda>d.
     bindR (setBytes (0x04 # replicate 64 0) x 1) (\<lambda>publicKey.
     bindR (setBytes publicKey y 33) (\<lambda>publicKey.
       Inr (publicKey, d, ''sk-'' @ bytesToHex random8)))))))"

text \<open>\<open>create\<close> is the registration ceremony: the raw identifier of the credential and its response.\<close>

definition createSessionPasskey :: "(bytes \<times> attestation_response) option result \<Rightarrow> (bytes \<times> string) result" where
  "createSessionPasskey create =
     bindR create (\<lambda>credential.
       (case credential of
          None \<Rightarrow> Inl (Error ''Session passkey creation was cancelled.'')
        | Some (rawId, response) \<Rightarrow>
            bindR (parseRegistration rawId response) (\<lambda>(publicKey, credentialId).
              Inr (publicKey, buf2base64url credentialId))))"

definition signWithSessionPasskey ::
  "(bytes option \<Rightarrow> bytes \<Rightarrow> (bytes \<times> bytes \<times> bytes) option result) \<Rightarrow> string \<Rightarrow> bytes \<Rightarrow> passkey_signature result" where
  "signWithSessionPasskey get credentialId payload =
     (if length payload \<noteq> 32 then Inl (Error ''signWithSessionPasskey: payload must be 32 bytes'')
      else bindR (base64url2buf credentialId) (\<lambda>credId.
        bindR (get (Some credId) payload) (\<lambda>assertion.
          (case assertion of
             None \<Rightarrow> Inl (Error ''Session passkey signing was cancelled.'')
           | Some (ad, cd, sig) \<Rightarrow> parseAssertionResponse ad cd sig))))"

section \<open>The dApp's side of a delegation\<close>

definition PENDING_KEY :: string where
  "PENDING_KEY = ''nido:pendingDelegation''"

text \<open>The account, the target and the label of a delegation; the label read back may be any value.\<close>

definition writePendingDelegation :: "string \<Rightarrow> string \<Rightarrow> string option \<Rightarrow> local_storage \<Rightarrow> local_storage" where
  "writePendingDelegation account target label s =
     setItem PENDING_KEY (stringify (object [(''account'', Some (JStr account)), (''target'', Some (JStr target)),
       (''label'', map_option JStr label)])) s"

definition consumePendingDelegation :: "local_storage \<Rightarrow> (string \<times> string \<times> json option) option \<times> local_storage" where
  "consumePendingDelegation s =
     (case s PENDING_KEY of
        Some (c # cs) \<Rightarrow>
          (case parse_json (c # cs) of
             Inr o' \<Rightarrow>
               (case (field ''account'' o', field ''target'' o') of
                  (Some (JStr account), Some (JStr target)) \<Rightarrow> Some (account, target, field ''label'' o')
                | _ \<Rightarrow> None)
           | Inl _ \<Rightarrow> None, removeItem PENDING_KEY s)
      | _ \<Rightarrow> (None, s))"

definition readDelegationReturn :: "(string \<times> string) list \<Rightarrow> string option" where
  "readDelegationReturn params =
     (case map_of params ''delegation'' of
        Some v \<Rightarrow> if v = ''ok'' \<or> v = ''cancelled'' then Some v else None
      | None \<Rightarrow> None)"

record delegation_options =
  do_walletOrigin :: string
  do_account :: string
  do_target :: string
  do_duration :: string
  do_returnUrl :: string
  do_label :: "string option"
  do_limit :: "string option"
  do_limitPeriod :: "string option"

definition delegationParams :: "delegation_options \<Rightarrow> string \<Rightarrow> string \<Rightarrow> (string \<times> string) list" where
  "delegationParams opts pubkeyHex dappOrigin =
     [(''origin'', dappOrigin), (''target'', do_target opts), (''pubkey'', pubkeyHex), (''duration'', do_duration opts)] @
     (case do_limit opts of
        Some (c # cs) \<Rightarrow> [(''limit'', c # cs), (''limit_period'', orElse (do_limitPeriod opts) ''day'')]
      | _ \<Rightarrow> []) @ [(''return'', do_returnUrl opts)]"

definition buildDelegationUrl :: "delegation_options \<Rightarrow> string \<Rightarrow> string \<Rightarrow> string" where
  "buildDelegationUrl opts pubkeyHex dappOrigin =
     do_walletOrigin opts @ ''/security/delegate/?'' @ searchParams (delegationParams opts pubkeyHex dappOrigin)"

definition session_passkey :: "string \<Rightarrow> bytes \<Rightarrow> string option \<Rightarrow> bytes option \<Rightarrow> session_material" where
  "session_passkey credentialId publicKey label privateKey =
     \<lparr>sm_credentialId = Some (JStr credentialId), sm_publicKey = Some (JStr (buf2hex publicKey)),
      sm_label = map_option JStr label, sm_privateKey = privateKey\<rparr>"

text \<open>The storage after it and the address the page goes to.\<close>

definition startDelegation ::
  "(bytes \<times> attestation_response) option result \<Rightarrow> string \<Rightarrow> delegation_options \<Rightarrow> local_storage \<Rightarrow>
   (local_storage \<times> string) result" where
  "startDelegation create dappOrigin opts s =
     bindR (createSessionPasskey create) (\<lambda>(publicKey, credentialId).
       Inr (writePendingDelegation (do_account opts) (do_target opts) (do_label opts)
              (saveSessionKeyMaterial (do_account opts) (do_target opts)
                (session_passkey credentialId publicKey (do_label opts) None) s),
            buildDelegationUrl opts (buf2hex publicKey) dappOrigin))"

text \<open>The frontend's own copy of the flow suggests no limit.\<close>

definition frontendStartDelegation ::
  "(bytes \<times> attestation_response) option result \<Rightarrow> string \<Rightarrow> delegation_options \<Rightarrow> local_storage \<Rightarrow>
   (local_storage \<times> string) result" where
  "frontendStartDelegation create origin opts s =
     bindR (createSessionPasskey create) (\<lambda>(publicKey, credentialId).
       let pubkeyHex = buf2hex publicKey;
           saved = saveSessionKeyMaterial (do_account opts) (do_target opts)
             (session_passkey credentialId publicKey (do_label opts) None) s
       in Inr (writePendingDelegation (do_account opts) (do_target opts) (do_label opts) saved,
            do_walletOrigin opts @ ''/security/delegate/?'' @ searchParams
              [(''origin'', origin), (''target'', do_target opts), (''pubkey'', pubkeyHex),
               (''duration'', do_duration opts), (''return'', do_returnUrl opts)]))"

definition hasSessionKey :: "local_storage \<Rightarrow> string \<Rightarrow> string \<Rightarrow> bool result" where
  "hasSessionKey s account contractId =
     bindR (loadSessionKeyMaterial s account contractId) (\<lambda>m. Inr (m \<noteq> None))"

section \<open>Starting a delegation by itself\<close>

definition AUTOSTART_KEY :: string where
  "AUTOSTART_KEY = ''nido:autostartDelegation''"

definition markAutoStartDelegation :: "string \<Rightarrow> local_storage \<Rightarrow> local_storage" where
  "markAutoStartDelegation account s = setItem AUTOSTART_KEY account s"

definition consumeAutoStartDelegation :: "local_storage \<Rightarrow> string option \<times> local_storage" where
  "consumeAutoStartDelegation s =
     (case s AUTOSTART_KEY of
        Some (c # cs) \<Rightarrow> (Some (c # cs), removeItem AUTOSTART_KEY s)
      | v \<Rightarrow> (v, s))"

definition shouldAutoStartDelegation :: "string option \<Rightarrow> string option \<Rightarrow> bool \<Rightarrow> bool" where
  "shouldAutoStartDelegation account flaggedAccount has \<longleftrightarrow>
     account \<noteq> None \<and> account \<noteq> Some [] \<and> flaggedAccount = account \<and> \<not> has"

section \<open>The wallet's side\<close>

definition delegateSessionKey ::
  "'d signer_env \<Rightarrow> (string \<Rightarrow> string result) \<Rightarrow> (host_function, auth) client \<Rightarrow> nat result \<Rightarrow> local_storage \<Rightarrow>
   string \<Rightarrow> string \<Rightarrow> bytes \<Rightarrow> nat option \<Rightarrow> string option \<Rightarrow> relayer_error + string \<times> string" where
  "delegateSessionKey env registry client latest s account target sessionPubkey validUntilOffset label =
     bindR (orNetworkError latest) (\<lambda>sequence.
     bindR (orNetworkError (session_buildInstall client (Some (fetchVerifierAddress (sg_rpc env) registry account)) account
              \<lparr>sb_ruleId = None, sb_target = target, sb_pubkey = sessionPubkey, sb_credentialId = [],
               sb_validUntil = map_option (\<lambda>n. sequence + n) validUntilOffset, sb_label = label, sb_limit = None,
               sb_unreadable = False\<rparr>)) (\<lambda>(operations, _).
     bindR (orNetworkError (fetchVerifierAddress (sg_rpc env) registry account)) (\<lambda>verifierAddr.
       (case operations of
          [] \<Rightarrow> Inl (NetworkError (TypeError ''undefined operation''))
        | op # _ \<Rightarrow> signAndSubmit env s account (x_func op) (Some verifierAddr)))))"

definition ruleStillExists :: "chain_rpc \<Rightarrow> string \<Rightarrow> nat \<Rightarrow> bool" where
  "ruleStillExists rpc account ruleId =
     (case simulateView rpc account ''get_context_rule'' [ArgU32 ruleId] of
        Inr _ \<Rightarrow> True
      | Inl err \<Rightarrow> \<not> isRuleNotFound err)"

text \<open>A stored public key that is not a text throws at \<open>toLowerCase\<close>.\<close>

definition forgetRevokedMaterial :: "string \<Rightarrow> string \<Rightarrow> string option \<Rightarrow> local_storage \<Rightarrow> local_storage result" where
  "forgetRevokedMaterial account target pubkeyHex s =
     (if target = [] then Inr s
      else bindR (loadSessionKeyMaterial s account target) (\<lambda>stored.
        let owner = Option.bind stored sm_publicKey; forget = forgetSessionKeyMaterial account target s
        in if \<not> truthy owner then Inr forget
           else (case pubkeyHex of
                   Some (c # cs) \<Rightarrow>
                     (case owner of
                        Some (JStr p) \<Rightarrow> Inr (if toLowerCase p \<noteq> toLowerCase (c # cs) then s else forget)
                      | _ \<Rightarrow> Inl (TypeError ''toLowerCase is not a function''))
                 | _ \<Rightarrow> Inr s)))"

section \<open>The delegation form\<close>

definition DURATIONS :: "string \<Rightarrow> nat option option" where
  "DURATIONS d = (if d = ''24h'' then Some (Some 17280) else if d = ''7d'' then Some (Some (17280 * 7))
     else if d = ''30d'' then Some (Some (17280 * 30)) else if d = ''none'' then Some None else None)"

text \<open>\<open>DURATIONS[duration] ?? DURATIONS['30d']\<close>\<close>

definition formOffset :: "string \<Rightarrow> nat option" where
  "formOffset duration = (case DURATIONS duration of Some (Some n) \<Rightarrow> Some n | _ \<Rightarrow> Option.bind (DURATIONS ''30d'') id)"

datatype form_outcome = FormError string | FormFailed relayer_error | SessionDelegated

definition saveDelegation ::
  "(bytes \<times> bytes \<times> string) result \<Rightarrow> (local_storage \<Rightarrow> string \<Rightarrow> bytes \<Rightarrow> nat option \<Rightarrow> string option \<Rightarrow> relayer_error + 'h) \<Rightarrow>
   string \<Rightarrow> string \<Rightarrow> string \<Rightarrow> string \<Rightarrow> local_storage \<Rightarrow> local_storage \<times> form_outcome" where
  "saveDelegation key delegate account targetText duration labelText s =
     (let target = trim targetText; label = (if trim labelText = [] then None else Some (trim labelText)) in
      if target = [] then (s, FormError ''App address is required.'')
      else if \<not> startsWith target ''C'' \<or> length target \<noteq> 56
      then (s, FormError ''App address must start with C and be 56 characters.'')
      else (case key of
              Inl e \<Rightarrow> (forgetSessionKeyMaterial account target s, FormFailed (NetworkError e))
            | Inr (publicKey, privateKey, credentialId) \<Rightarrow>
                let saved = saveSessionKeyMaterial account target (session_passkey credentialId publicKey label (Some privateKey)) s
                in (case delegate saved target publicKey (formOffset duration) label of
                      Inl e \<Rightarrow> (forgetSessionKeyMaterial account target saved, FormFailed e)
                    | Inr _ \<Rightarrow> (saved, SessionDelegated))))"

section \<open>Signing in the dApp's page\<close>

definition decodeContractCall :: "to_native \<Rightarrow> invocation_tree \<Rightarrow> (string \<times> string \<times> js_val list) option result" where
  "decodeContractCall scValToNative invocation =
     (case inv_function invocation of
        CreateContractFn _ \<Rightarrow> Inr None
      | ContractFn contract fn args \<Rightarrow> bindR (mapR scValToNative args) (\<lambda>vs. Inr (Some (contract, fn, vs))))"

definition isStrkey :: "string \<Rightarrow> bool" where
  "isStrkey s \<longleftrightarrow> length s = 56 \<and> list_all (\<lambda>c. is_upper c \<or> c \<in> set ''234567'') s"

definition shortenStrkey :: "string \<Rightarrow> string" where
  "shortenStrkey s = (if isStrkey s then take 6 s @ ELLIPSIS @ drop (length s - 4) s else s)"

text \<open>\<open>JSON.stringify\<close> throws on a \<open>bigint\<close>; a \<open>Buffer\<close> prints as an object.\<close>

fun jsonOf :: "js_val \<Rightarrow> json option" where
  "jsonOf VNull = Some JNull"
| "jsonOf (VBool b) = Some (JBool b)"
| "jsonOf (VNumber n) = Some (JNum n)"
| "jsonOf (VBigint _) = None"
| "jsonOf (VText s) = Some (JStr s)"
| "jsonOf (VBuffer bs) = Some (JObj [(''type'', JStr ''Buffer''), (''data'', jsonOfBytes bs)])"
| "jsonOf (VArray vs) =
     (if list_ex (\<lambda>v. jsonOf v = None) vs then None else Some (JArr (map (\<lambda>v. the (jsonOf v)) vs)))"
| "jsonOf (VObject kvs) =
     (if list_ex (\<lambda>(_, v). jsonOf v = None) kvs then None else Some (JObj (map (\<lambda>(k, v). (k, the (jsonOf v))) kvs)))"

definition formatValue :: "js_val \<Rightarrow> string" where
  "formatValue v =
     (case v of
        VText s \<Rightarrow> shortenStrkey s
      | VBigint n \<Rightarrow> showInt n
      | VNumber n \<Rightarrow> showInt n
      | VBool b \<Rightarrow> vtext v
      | _ \<Rightarrow> (case jsonOf v of Some j \<Rightarrow> stringify j | None \<Rightarrow> vtext v))"

definition argLabel :: "string list \<Rightarrow> nat \<Rightarrow> string" where
  "argLabel paramNames i =
     (if i < length paramNames \<and> paramNames ! i \<noteq> [] then paramNames ! i else ''arg '' @ showNat (i + 1))"

definition buildApprovalDetails :: "string \<times> string \<times> js_val list \<Rightarrow> string list \<Rightarrow> (string \<times> string) list" where
  "buildApprovalDetails call paramNames =
     (case call of (contract, fn, args) \<Rightarrow>
        [(''Operation'', fn), (''Contract'', shortenStrkey contract)] @
        map (\<lambda>(i, v). (argLabel paramNames i, formatValue v)) (enumerate 0 args))"

text \<open>The dash of the messages, in UTF-8.\<close>

definition EM_DASH :: string where
  "EM_DASH = [char_of (0xE2 :: nat), char_of (0x80 :: nat), char_of (0x94 :: nat)]"

record session_errors =
  se_noMaterial :: string
  se_ruleMissing :: string

definition default_errors :: session_errors where
  "default_errors = \<lparr>se_noMaterial = ''No dApp passkey for this account '' @ EM_DASH @ '' click \"Create dApp passkey\" to delegate one first.'',
     se_ruleMissing = ''Session passkey is not installed on chain (the delegation never committed). '' @ ''Create the dApp passkey again.''\<rparr>"

text \<open>What the dApp's page has beside the SDK: the registry, the conversion of values and the network.\<close>

record dapp_env =
  da_registry :: "string \<Rightarrow> string result"
  da_native :: to_native
  da_network :: string

text \<open>Up to the search for the rule: the key, the call, its entry and digest, and the rule that was found.\<close>

definition sessionCall ::
  "'d signer_env \<Rightarrow> dapp_env \<Rightarrow> string \<Rightarrow> session_material \<Rightarrow> ((wallet_op, 'd) transaction \<times> 'd sim_success) result \<Rightarrow> nat option \<Rightarrow>
   ((wallet_op, 'd) transaction \<times> nat \<times> auth \<times> bytes \<times> string \<times> nat option) result" where
  "sessionCall env dapp account material buildTx validity =
     bindR buildTx (\<lambda>(tx, sim).
     bindR (getAuthEntry (ss_auth sim)) (\<lambda>authEntry.
     bindR (buildAuthHash (sg_xdr env) (sg_preimage env) authEntry (da_network dapp) (ss_latestLedger sim) validity) (\<lambda>authHash.
     bindR (case sm_publicKey material of
              Some (JStr p) \<Rightarrow> Inr p
            | _ \<Rightarrow> bindR (ruleCount (sg_rpc env) account) (\<lambda>_. Inl (TypeError ''toLowerCase is not a function''))) (\<lambda>publicKey.
     bindR (findRuleForPubkey (sg_rpc env) account publicKey) (\<lambda>ruleId.
       Inr (tx, ss_latestLedger sim, authEntry, authHash, publicKey, ruleId))))))"

text \<open>
  What the page makes of a stored key (\<open>sessionKeyStatus.ts\<close>): the rule on chain decides, and a key
  without a rule is dropped.
\<close>

datatype key_status = StatusMissing | StatusLive | StatusRevoked

definition checkSessionKeyStatus ::
  "chain_rpc \<Rightarrow> string \<Rightarrow> string \<Rightarrow> local_storage \<Rightarrow> local_storage \<times> key_status result" where
  "checkSessionKeyStatus rpc account targetContract s =
     (case loadSessionKeyMaterial s account targetContract of
        Inl e \<Rightarrow> (s, Inl e)
      | Inr None \<Rightarrow> (s, Inr StatusMissing)
      | Inr (Some material) \<Rightarrow>
          (case (case sm_publicKey material of
                   Some (JStr p) \<Rightarrow> findRuleForPubkey rpc account p
                 | _ \<Rightarrow> bindR (ruleCount rpc account) (\<lambda>_. Inl (TypeError ''toLowerCase is not a function''))) of
             Inl e \<Rightarrow> (s, Inl e)
           | Inr None \<Rightarrow> (forgetSessionKeyMaterial account targetContract s, Inr StatusRevoked)
           | Inr (Some _) \<Rightarrow> (s, Inr StatusLive)))"

definition approvalRows :: "(string \<times> string \<times> js_val list) option \<Rightarrow> (string \<Rightarrow> string list) \<Rightarrow> (string \<times> string) list" where
  "approvalRows call paramNames =
     (case call of
        Some c \<Rightarrow> buildApprovalDetails c (paramNames (fst (snd c)))
      | None \<Rightarrow> [(''Warning'', ''Could not decode this authorization.'')])"

text \<open>The ceremony, with the rows its sheet shows, and the signed transaction.\<close>

definition sessionSignature ::
  "'d signer_env \<Rightarrow> dapp_env \<Rightarrow> string \<Rightarrow> session_material \<Rightarrow> (string \<Rightarrow> string list) \<Rightarrow> nat option \<Rightarrow>
   (wallet_op, 'd) transaction \<Rightarrow> nat \<Rightarrow> auth \<Rightarrow> bytes \<Rightarrow> string \<Rightarrow> nat \<Rightarrow>
   ((wallet_op, 'd) transaction \<times> (string \<times> string) list) result" where
  "sessionSignature env dapp account material paramNames validity tx lastLedger authEntry authHash publicKey ruleId =
     bindR (fetchVerifierAddress (sg_rpc env) (da_registry dapp) account) (\<lambda>verifierAddress.
     bindR (decodeContractCall (da_native dapp) (ae_invocation authEntry)) (\<lambda>call.
     bindR (case sm_credentialId material of
              Some (JStr c) \<Rightarrow> signWithSessionPasskey (sg_assert env 0) c (computeAuthDigest (sg_xdr env) authHash [ruleId])
            | _ \<Rightarrow> Inl (TypeError ''not a string'')) (\<lambda>parsed.
     bindR (injectPasskeySignature (sg_xdr env) (tx_operations tx) parsed verifierAddress (hex2buf publicKey)
              lastLedger validity [ruleId]) (\<lambda>ops.
       Inr (tx\<lparr>tx_operations := ops\<rparr>, approvalRows call paramNames)))))"

text \<open>
  The signed transaction with the rows the sheet showed. The transaction and its simulation come
  from the caller; the storage changes when the key's rule is gone.
\<close>

definition signSessionCallInPage ::
  "'d signer_env \<Rightarrow> dapp_env \<Rightarrow> string \<Rightarrow> string \<Rightarrow> ((wallet_op, 'd) transaction \<times> 'd sim_success) result \<Rightarrow>
   (string \<Rightarrow> string list) \<Rightarrow> session_errors \<Rightarrow> nat option \<Rightarrow> local_storage \<Rightarrow>
   local_storage \<times> ((wallet_op, 'd) transaction \<times> (string \<times> string) list) result" where
  "signSessionCallInPage env dapp account targetContract buildTx paramNames errors validity s =
     (case loadSessionKeyMaterial s account targetContract of
        Inl e \<Rightarrow> (s, Inl e)
      | Inr None \<Rightarrow> (s, Inl (Error (se_noMaterial errors)))
      | Inr (Some material) \<Rightarrow>
          (case sessionCall env dapp account material buildTx validity of
             Inl e \<Rightarrow> (s, Inl e)
           | Inr (tx, lastLedger, authEntry, authHash, publicKey, None) \<Rightarrow>
               (forgetSessionKeyMaterial account targetContract s, Inl (Error (se_ruleMissing errors)))
           | Inr (tx, lastLedger, authEntry, authHash, publicKey, Some ruleId) \<Rightarrow>
               (s, sessionSignature env dapp account material paramNames validity tx lastLedger authEntry authHash publicKey ruleId)))"

text \<open>The common end of the two flows; \<open>noun\<close> is what the relayer accepted.\<close>

definition submitInPage :: "'d signer_env \<Rightarrow> string \<Rightarrow> (string \<times> string list) result \<Rightarrow> relayer_error + string" where
  "submitInPage env noun funcAndAuth =
     bindR (orNetworkError funcAndAuth) (\<lambda>(func, auth).
       if length auth > 1 then Inl (NetworkError (Error (''Expected a single auth entry, got '' @ showNat (length auth) @
         '' '' @ EM_DASH @ '' only the first is passkey-signed.'')))
       else bindR (submitSorobanTransaction (sg_fetch env) func auth None (sg_relayerUrl env)) (\<lambda>submitted.
         if \<not> truthy (field ''transactionId'' submitted)
         then Inl (NetworkError (Error (''Relayer accepted the '' @ noun @ '' but returned no transaction id'')))
         else bindR (waitForConfirmation (\<lambda>i. getRelayerTransaction (sg_poll env i)
                (orElse (as_string (field ''transactionId'' submitted)) []) (sg_relayerUrl env)) None) (\<lambda>confirmed.
           if \<not> truthy (field ''hash'' confirmed)
           then Inl (NetworkError (Error ''Relayer confirmed without a transaction hash''))
           else Inr (orElse (as_string (field ''hash'' confirmed)) []))))"

text \<open>\<open>update\<close> is the generated client of the example's contract.\<close>

definition signUpdateMessageInPage ::
  "'d signer_env \<Rightarrow> dapp_env \<Rightarrow> (string \<Rightarrow> string \<Rightarrow> ((wallet_op, 'd) transaction \<times> 'd sim_success) result) \<Rightarrow>
   (string \<Rightarrow> string list) \<Rightarrow> string \<Rightarrow> string \<Rightarrow> string \<Rightarrow> local_storage \<Rightarrow> local_storage \<times> (relayer_error + string)" where
  "signUpdateMessageInPage env dapp update paramNames account message contractId s =
     (case signSessionCallInPage env dapp account contractId (update message account) paramNames default_errors (Some 120) s of
        (s', Inl e) \<Rightarrow> (s', Inl (NetworkError e))
      | (s', Inr (signedTx, _)) \<Rightarrow>
          (s', submitInPage env ''update'' (bindR (sg_parseTx env (sg_printTx env signedTx) (da_network dapp)) (walletFuncAndAuth env))))"

text \<open>A tip of a whole number of XLM; \<open>xlmSac\<close> is the address of the native asset's contract.\<close>

definition tipTx ::
  "'d signer_env \<Rightarrow> string \<Rightarrow> string \<Rightarrow> string \<Rightarrow> int \<Rightarrow> ((wallet_op, 'd) transaction \<times> 'd sim_success) result" where
  "tipTx env xlmSac account author stroops =
     bindR (sg_getAccount env (sg_simSource env)) (\<lambda>_.
     bindR (addressScVal (sg_xdr env) account) (\<lambda>from.
     bindR (addressScVal (sg_xdr env) author) (\<lambda>to.
     bindR (sg_simulate env (sg_simSource env) 10000000 (HostInvoke xlmSac ''transfer'' [from, to, ScvI128 stroops])) (\<lambda>sim.
       Inr (ss_assembled sim, sim)))))"

definition tip_errors :: session_errors where
  "tip_errors = \<lparr>se_noMaterial = ''No tipping passkey for this account '' @ EM_DASH @ '' click \"Enable tipping\" to delegate one first.'',
     se_ruleMissing = ''The tipping passkey is not installed on chain (the delegation never '' @
       ''committed or was revoked). Click \"Enable tipping\" again.''\<rparr>"

definition tipAuthorInPage ::
  "'d signer_env \<Rightarrow> dapp_env \<Rightarrow> string \<Rightarrow> string \<Rightarrow> string \<Rightarrow> int \<Rightarrow> local_storage \<Rightarrow>
   local_storage \<times> (relayer_error + string)" where
  "tipAuthorInPage env dapp xlmSac account author xlm s =
     (let stroops = xlm * 10000000 in
      case signSessionCallInPage env dapp account xlmSac (tipTx env xlmSac account author stroops)
             (\<lambda>_. [''from'', ''to'', ''amount'']) tip_errors (Some 120) s of
        (s', Inl e) \<Rightarrow> (s', Inl (NetworkError e))
      | (s', Inr (signedTx, _)) \<Rightarrow> (s', submitInPage env ''tip'' (txFuncAndAuth env signedTx)))"

text \<open>
  The effect of the example's page when its account or the state of the key changes
  (\<open>StatusMessage.tsx\<close>): whether it starts a delegation.
\<close>

definition autoStartEffect :: "string option \<Rightarrow> bool \<Rightarrow> bool \<Rightarrow> local_storage \<Rightarrow> bool \<times> local_storage" where
  "autoStartEffect nidoAccount checking live s =
     (if nidoAccount = None \<or> nidoAccount = Some [] \<or> checking then (False, s)
      else (case consumeAutoStartDelegation s of
              (flagged, s') \<Rightarrow> (shouldAutoStartDelegation nidoAccount flagged live, s')))"

section \<open>Facts\<close>

lemma frontend_start: "do_limit opts = None \<Longrightarrow> frontendStartDelegation create origin opts s = startDelegation create origin opts s"
  by (simp add: frontendStartDelegation_def startDelegation_def buildDelegationUrl_def delegationParams_def Let_def)

text \<open>The form's choice \<open>No expiry\<close> is a key of thirty days.\<close>

lemma form_has_no_unlimited_key: "formOffset ''none'' = Some 518400" "formOffset d \<noteq> None"
  by (simp_all add: formOffset_def DURATIONS_def split: option.split)

lemma sessionKey_inject:
  assumes "CHR ''.'' \<notin> set a" "CHR ''.'' \<notin> set b"
  shows "sessionKey a t = sessionKey b u \<longleftrightarrow> a = b \<and> t = u"
proof
  assume "sessionKey a t = sessionKey b u"
  then have e: "a @ CHR ''.'' # (''session-key.'' @ t) = b @ CHR ''.'' # (''session-key.'' @ u)"
    by (simp add: sessionKey_def)
  then have "a # labels (''session-key.'' @ t) = b # labels (''session-key.'' @ u)"
    using labels_Cons [OF assms(1), of "''session-key.'' @ t"] labels_Cons [OF assms(2), of "''session-key.'' @ u"] by simp
  with e show "a = b \<and> t = u" by simp
qed simp

text \<open>The slots of session keys: what is done to them, and the abstract map they implement.\<close>

datatype slot_op =
    SaveKey string string string bytes "string option" "bytes option"
  | RevokeKey string string "string option"

definition slot_step :: "local_storage \<Rightarrow> slot_op \<Rightarrow> local_storage" where
  "slot_step s oper =
     (case oper of
        SaveKey account target credentialId publicKey label privateKey \<Rightarrow>
          saveSessionKeyMaterial account target (session_passkey credentialId publicKey label privateKey) s
      | RevokeKey account target pubkeyHex \<Rightarrow>
          (case forgetRevokedMaterial account target pubkeyHex s of Inr s' \<Rightarrow> s' | Inl _ \<Rightarrow> s))"

definition slot_spec :: "(string \<times> string \<rightharpoonup> session_material) \<Rightarrow> slot_op \<Rightarrow> (string \<times> string \<rightharpoonup> session_material)" where
  "slot_spec m oper =
     (case oper of
        SaveKey account target credentialId publicKey label privateKey \<Rightarrow>
          m((account, target) \<mapsto> session_passkey credentialId publicKey label privateKey)
      | RevokeKey account target pubkeyHex \<Rightarrow>
          (case (m (account, target), pubkeyHex) of
             (Some material, Some h) \<Rightarrow>
               if target \<noteq> [] \<and> (\<exists>p. sm_publicKey material = Some (JStr p) \<and> toLowerCase p = toLowerCase h)
               then m((account, target) := None) else m
           | _ \<Rightarrow> m))"

definition slot_op_ok :: "slot_op \<Rightarrow> bool" where
  "slot_op_ok oper =
     (case oper of
        SaveKey account _ _ publicKey _ _ \<Rightarrow> CHR ''.'' \<notin> set account \<and> publicKey \<noteq> []
      | RevokeKey account _ _ \<Rightarrow> CHR ''.'' \<notin> set account)"

definition owned :: "session_material \<Rightarrow> bool" where
  "owned material \<longleftrightarrow> (\<exists>p. sm_publicKey material = Some (JStr p) \<and> p \<noteq> [])"

definition slots_sim :: "local_storage \<Rightarrow> (string \<times> string \<rightharpoonup> session_material) \<Rightarrow> bool" where
  "slots_sim s m \<longleftrightarrow> (\<forall>a t. CHR ''.'' \<notin> set a \<longrightarrow> loadSessionKeyMaterial s a t = Inr (m (a, t))) \<and>
     (\<forall>material \<in> ran m. owned material)"

lemma loaded_passkey:
  "loadSessionKeyMaterial (saveSessionKeyMaterial a t (session_passkey c pk l pr) s) a t = Inr (Some (session_passkey c pk l pr))"
  by (rule session_loaded) (simp_all add: session_passkey_def)

lemma load_other:
  assumes "sessionKey b u \<noteq> sessionKey a t"
  shows "loadSessionKeyMaterial (saveSessionKeyMaterial a t m s) b u = loadSessionKeyMaterial s b u"
    and "loadSessionKeyMaterial (forgetSessionKeyMaterial a t s) b u = loadSessionKeyMaterial s b u"
  using assms
  by (simp_all add: loadSessionKeyMaterial_def saveSessionKeyMaterial_def forgetSessionKeyMaterial_def setItem_def removeItem_def)

lemma load_forgotten: "loadSessionKeyMaterial (forgetSessionKeyMaterial a t s) a t = Inr None"
  by (simp add: loadSessionKeyMaterial_def forgetSessionKeyMaterial_def removeItem_def)

lemma buf2hex_nonempty: "publicKey \<noteq> [] \<Longrightarrow> buf2hex publicKey \<noteq> []"
  by (cases publicKey) (simp_all add: byteHex_digits)

lemma forget_owned:
  assumes "loadSessionKeyMaterial s a t = Inr found" "\<And>m. found = Some m \<Longrightarrow> owned m"
  shows "forgetRevokedMaterial a t h s = Inr
    (if t \<noteq> [] \<and> (found = None \<or> (\<exists>p. Option.bind found sm_publicKey = Some (JStr p) \<and> h \<noteq> None \<and> h \<noteq> Some [] \<and>
         toLowerCase p = toLowerCase (the h)))
     then forgetSessionKeyMaterial a t s else s)"
proof (cases found)
  case None
  with assms(1) show ?thesis by (simp add: forgetRevokedMaterial_def truthy_def)
next
  case (Some m)
  with assms(2) obtain p where "sm_publicKey m = Some (JStr p)" "p \<noteq> []" by (auto simp: owned_def)
  with assms(1) Some show ?thesis
    by (auto simp: forgetRevokedMaterial_def truthy_def Let_def split: option.split list.split)
qed

lemma ran_map_upd_subset: "ran (m(k \<mapsto> v)) \<subseteq> insert v (ran m)"
  by (auto simp: ran_def)

lemma slots_step:
  assumes "slots_sim s m" "slot_op_ok oper"
  shows "slots_sim (slot_step s oper) (slot_spec m oper)"
proof (cases oper)
  case (SaveKey account target c pk l pr)
  have "owned (session_passkey c pk l pr)"
    using assms(2) SaveKey by (simp add: owned_def session_passkey_def slot_op_ok_def buf2hex_nonempty)
  moreover have "loadSessionKeyMaterial (slot_step s oper) a t = Inr (slot_spec m oper (a, t))" if "CHR ''.'' \<notin> set a" for a t
  proof (cases "(a, t) = (account, target)")
    case True
    then show ?thesis by (simp add: SaveKey slot_step_def slot_spec_def loaded_passkey)
  next
    case False
    then have "sessionKey a t \<noteq> sessionKey account target"
      using that assms(2) SaveKey by (simp add: sessionKey_inject slot_op_ok_def)
    then show ?thesis using assms(1) that False by (auto simp: SaveKey slot_step_def slot_spec_def load_other slots_sim_def)
  qed
  moreover have "\<forall>material \<in> ran m. owned material" using assms(1) by (simp add: slots_sim_def)
  ultimately show ?thesis
    using ran_map_upd_subset [of m "(account, target)" "session_passkey c pk l pr"]
    by (fastforce simp: slots_sim_def SaveKey slot_spec_def)
next
  case (RevokeKey account target h)
  have dot: "CHR ''.'' \<notin> set account" using assms(2) RevokeKey by (simp add: slot_op_ok_def)
  have own: "\<And>material. m (account, target) = Some material \<Longrightarrow> owned material"
    using assms(1) by (auto simp: slots_sim_def intro: ranI)
  have load: "loadSessionKeyMaterial s account target = Inr (m (account, target))"
    using assms(1) dot by (simp add: slots_sim_def)
  note f = forget_owned [OF load own, of h]
  have "loadSessionKeyMaterial (slot_step s oper) a t = Inr (slot_spec m oper (a, t))" if "CHR ''.'' \<notin> set a" for a t
  proof (cases "(a, t) = (account, target)")
    case True
    with own load show ?thesis
      by (auto simp: RevokeKey slot_step_def slot_spec_def f load_forgotten owned_def toLowerCase_def split: option.split)
  next
    case False
    then have "sessionKey a t \<noteq> sessionKey account target" using that dot by (simp add: sessionKey_inject)
    then show ?thesis using assms(1) that False
      by (auto simp: RevokeKey slot_step_def slot_spec_def f load_other slots_sim_def split: option.split)
  qed
  moreover have "ran (slot_spec m oper) \<subseteq> ran m"
    by (auto simp: RevokeKey slot_spec_def ran_def split: option.splits if_splits)
  ultimately show ?thesis using assms(1) by (auto simp: slots_sim_def)
qed

lemma slots_run: "slots_sim s m \<Longrightarrow> list_all slot_op_ok opers \<Longrightarrow> slots_sim (foldl slot_step s opers) (foldl slot_spec m opers)"
  by (induction opers arbitrary: s m) (simp_all add: slots_step)

text \<open>
  Session-key slots are ownership safe: after any sequence of delegations and revocations, for
  any accounts and targets, the material that is loaded for an account and a target is that of
  the last delegation made for them, unless a revocation naming that very key came after it; in
  particular revoking an older key, or without naming a key, leaves a newer one alone.
\<close>

theorem session_slots_owned:
  assumes "list_all slot_op_ok opers" "CHR ''.'' \<notin> set account"
  shows "loadSessionKeyMaterial (foldl slot_step Map.empty opers) account target =
    Inr (foldl slot_spec Map.empty opers (account, target))"
proof -
  have "slots_sim Map.empty Map.empty" by (simp add: slots_sim_def loadSessionKeyMaterial_def)
  from slots_run [OF this assms(1)] assms(2) show ?thesis by (simp add: slots_sim_def)
qed

theorem session_slots_owned_witness:
  "loadSessionKeyMaterial (foldl slot_step Map.empty
     [SaveKey ''CA'' ''CT'' ''old'' [1] None None, SaveKey ''CA'' ''CT'' ''new'' [2] None None, RevokeKey ''CA'' ''CT'' (Some ''01'')])
     ''CA'' ''CT'' = Inr (Some (session_passkey ''new'' [2] None None))"
proof -
  have "toLowerCase (buf2hex [2]) \<noteq> toLowerCase ''01''" by code_simp
  then show ?thesis
    using session_slots_owned [of "[SaveKey ''CA'' ''CT'' ''old'' [1] None None, SaveKey ''CA'' ''CT'' ''new'' [2] None None,
      RevokeKey ''CA'' ''CT'' (Some ''01'')]" "''CA''" "''CT''"]
    by (simp add: slot_op_ok_def slot_spec_def session_passkey_def)
qed

section \<open>A delegation comes back\<close>

lemma pending_consumed:
  "consumePendingDelegation (writePendingDelegation a t l s) =
    (Some (a, t, map_option JStr l), s(PENDING_KEY := None))"
proof -
  let ?j = "object [(''account'', Some (JStr a)), (''target'', Some (JStr t)), (''label'', map_option JStr l)]"
  have "wf_json ?j" by (cases l) simp_all
  then have "parse_json (stringify ?j) = Inr ?j" by (rule json_round_trip)
  then show ?thesis
    using stringify_nonempty [of ?j]
    by (cases l; cases "stringify ?j")
      (simp_all add: consumePendingDelegation_def writePendingDelegation_def setItem_def removeItem_def)
qed

lemma load_through_pending:
  "loadSessionKeyMaterial (writePendingDelegation a t l s) b u = loadSessionKeyMaterial s b u"
  "loadSessionKeyMaterial (s(PENDING_KEY := None)) b u = loadSessionKeyMaterial s b u"
  by (simp_all add: loadSessionKeyMaterial_def writePendingDelegation_def setItem_def PENDING_KEY_def sessionKey_def)

lemma param_pubkey: "map_of (delegationParams opts k origin) ''pubkey'' = Some k"
  by (simp add: delegationParams_def)

text \<open>
  C40. A delegation comes back to where it started: after the redirect the page finds the account,
  the target and the label of its request, once; the key it then holds for them is the new
  passkey, whose public key is the one in the address the user was sent to.
\<close>

theorem delegation_comes_back:
  assumes "startDelegation create origin opts s = Inr (s', url)"
  shows "\<exists>publicKey credentialId s''. createSessionPasskey create = Inr (publicKey, credentialId) \<and>
    url = do_walletOrigin opts @ ''/security/delegate/?'' @ searchParams (delegationParams opts (buf2hex publicKey) origin) \<and>
    map_of (delegationParams opts (buf2hex publicKey) origin) ''pubkey'' = Some (buf2hex publicKey) \<and>
    hex2buf (buf2hex publicKey) = publicKey \<and>
    consumePendingDelegation s' = (Some (do_account opts, do_target opts, map_option JStr (do_label opts)), s'') \<and>
    consumePendingDelegation s'' = (None, s'') \<and>
    loadSessionKeyMaterial s'' (do_account opts) (do_target opts) =
      Inr (Some (session_passkey credentialId publicKey (do_label opts) None)) \<and>
    hasSessionKey s'' (do_account opts) (do_target opts) = Inr True"
proof -
  from assms obtain pk cid where create: "createSessionPasskey create = Inr (pk, cid)"
    and s': "s' = writePendingDelegation (do_account opts) (do_target opts) (do_label opts)
      (saveSessionKeyMaterial (do_account opts) (do_target opts) (session_passkey cid pk (do_label opts) None) s)"
    and url: "url = buildDelegationUrl opts (buf2hex pk) origin"
    by (auto simp: startDelegation_def bindR_Inr_iff)
  let ?s = "(saveSessionKeyMaterial (do_account opts) (do_target opts) (session_passkey cid pk (do_label opts) None) s)(PENDING_KEY := None)"
  have "consumePendingDelegation ?s = (None, ?s)" by (simp add: consumePendingDelegation_def)
  moreover have "loadSessionKeyMaterial ?s (do_account opts) (do_target opts) = Inr (Some (session_passkey cid pk (do_label opts) None))"
    by (simp add: load_through_pending loaded_passkey)
  ultimately show ?thesis
    using create url pending_consumed [of "do_account opts" "do_target opts" "do_label opts"]
    by (auto simp: s' buildDelegationUrl_def hex2buf_buf2hex param_pubkey hasSessionKey_def)
qed

text \<open>A registration whose response carries the key itself.\<close>

definition sample_registration :: "(bytes \<times> attestation_response) option result" where
  "sample_registration = Inr (Some ([9], \<lparr>getPublicKey = Some (replicate 26 0 @ 4 # replicate 64 7), attestationObject = []\<rparr>))"

definition sample_options :: delegation_options where
  "sample_options = \<lparr>do_walletOrigin = ''https://ca.nido.fyi'', do_account = ''CA'', do_target = ''CT'', do_duration = ''7d'',
     do_returnUrl = ''https://dapp.example/'', do_label = Some ''app'', do_limit = Some ''5'', do_limitPeriod = None\<rparr>"

lemma sample_passkey: "createSessionPasskey sample_registration = Inr (4 # replicate 64 7, buf2base64url [9])"
  by code_simp

theorem delegation_comes_back_witness:
  "\<exists>s' url s''. startDelegation sample_registration ''https://dapp.example'' sample_options Map.empty = Inr (s', url) \<and>
     consumePendingDelegation s' = (Some (''CA'', ''CT'', Some (JStr ''app'')), s'') \<and> hasSessionKey s'' ''CA'' ''CT'' = Inr True"
proof -
  obtain s' url where s: "startDelegation sample_registration ''https://dapp.example'' sample_options Map.empty = Inr (s', url)"
    by (simp add: startDelegation_def sample_passkey)
  from delegation_comes_back [OF s] s show ?thesis by (auto simp: sample_options_def)
qed

section \<open>No redirect loop\<close>

text \<open>What happens to the example's page: the user connects, or the effect runs.\<close>

datatype page_event = Connect string | Effect "string option" bool bool

fun starts :: "local_storage \<Rightarrow> page_event list \<Rightarrow> nat" where
  "starts s [] = 0"
| "starts s (Connect account # es) = starts (markAutoStartDelegation account s) es"
| "starts s (Effect account checking live # es) =
     (case autoStartEffect account checking live s of (started, s') \<Rightarrow> of_bool started + starts s' es)"

definition connects :: "page_event list \<Rightarrow> nat" where
  "connects es = length (filter (\<lambda>e. case e of Connect _ \<Rightarrow> True | _ \<Rightarrow> False) es)"

lemma effect_cases:
  "autoStartEffect account checking live s = (started, s') \<Longrightarrow>
     (s' = s \<and> \<not> started) \<or> (s' AUTOSTART_KEY = None \<and> (started \<longrightarrow> s AUTOSTART_KEY \<noteq> None))"
  by (auto simp: autoStartEffect_def consumeAutoStartDelegation_def shouldAutoStartDelegation_def removeItem_def
      split: if_splits option.splits list.splits)

lemma starts_bound: "starts s es \<le> connects es + of_bool (s AUTOSTART_KEY \<noteq> None)"
proof (induction es arbitrary: s)
  case (Cons e es)
  show ?case
  proof (cases e)
    case (Connect account)
    have "starts s (e # es) \<le> Suc (connects es)"
      using Cons.IH [of "markAutoStartDelegation account s"] Connect
      by (simp add: markAutoStartDelegation_def setItem_def fun_upd_def)
    moreover have "connects (e # es) = Suc (connects es)" by (simp add: Connect connects_def)
    ultimately show ?thesis by simp
  next
    case (Effect account busy live)
    obtain started s' where e: "autoStartEffect account busy live s = (started, s')" by fastforce
    from effect_cases [OF e] Cons.IH [of s'] Effect e show ?thesis by (auto simp: connects_def)
  qed
qed (simp add: connects_def)

lemma connect_starts: "starts s [Connect (c # cs), Effect (Some (c # cs)) False False] = 1"
  by (simp add: autoStartEffect_def consumeAutoStartDelegation_def markAutoStartDelegation_def setItem_def
      shouldAutoStartDelegation_def)

text \<open>
  A cancelled delegation cannot start again by itself: however the user connects, cancels and
  reloads, from an empty store the page starts at most one delegation per time the user
  connected; and connecting an account that has no key does start one.
\<close>

theorem no_redirect_loop:
  "starts Map.empty es \<le> connects es \<and> starts s [Connect (c # cs), Effect (Some (c # cs)) False False] = 1"
  using starts_bound [of Map.empty es] connect_starts [of s c cs] by simp

section \<open>A call signed in the page\<close>

lemma sessionCall_Inr:
  assumes "sessionCall env dapp account material buildTx validity = Inr (tx, ledger, e0, payload, pk, r)"
  shows "\<exists>sim. buildTx = Inr (tx, sim) \<and> getAuthEntry (ss_auth sim) = Inr e0 \<and> ledger = ss_latestLedger sim \<and>
    buildAuthHash (sg_xdr env) (sg_preimage env) e0 (da_network dapp) ledger validity = Inr payload \<and>
    sm_publicKey material = Some (JStr pk) \<and> findRuleForPubkey (sg_rpc env) account pk = Inr r"
  using assms by (auto simp: sessionCall_def bindR_Inr_iff split: option.splits json.splits)

lemma sessionSignature_Inr:
  assumes "sessionSignature env dapp account material names validity tx ledger e0 payload pk rid = Inr (tx', rows)"
  shows "\<exists>verifier call cid sig ops. fetchVerifierAddress (sg_rpc env) (da_registry dapp) account = Inr verifier \<and>
    decodeContractCall (da_native dapp) (ae_invocation e0) = Inr call \<and> rows = approvalRows call names \<and>
    sm_credentialId material = Some (JStr cid) \<and>
    signWithSessionPasskey (sg_assert env 0) cid (computeAuthDigest (sg_xdr env) payload [rid]) = Inr sig \<and>
    injectSignedAuthPayload (sg_xdr env) (tx_operations tx) [ExternalSig verifier (hex2buf pk) sig] ledger validity [rid] = Inr ops \<and>
    tx' = tx\<lparr>tx_operations := ops\<rparr>"
  using assms by (auto simp: sessionSignature_def bindR_Inr_iff injectPasskeySignature_def split: option.splits json.splits)

lemma session_call_Inr:
  assumes "signSessionCallInPage env dapp account target buildTx names errors validity s = (s', Inr (tx', rows))"
  shows "\<exists>material tx ledger e0 payload pk rid. s' = s \<and> loadSessionKeyMaterial s account target = Inr (Some material) \<and>
    sessionCall env dapp account material buildTx validity = Inr (tx, ledger, e0, payload, pk, Some rid) \<and>
    sessionSignature env dapp account material names validity tx ledger e0 payload pk rid = Inr (tx', rows)"
  using assms by (auto simp: signSessionCallInPage_def split: sum.splits option.splits prod.splits)

lemma submitInPage_Inr:
  assumes "submitInPage env noun fa = Inr hash"
  shows "\<exists>func auth submitted. fa = Inr (func, auth) \<and> length auth \<le> 1 \<and>
    submitSorobanTransaction (sg_fetch env) func auth None (sg_relayerUrl env) = Inr submitted"
  using assms by (auto simp: submitInPage_def bindR_Inr_iff orNetworkError_def split: sum.splits if_splits)

lemma found_rule:
  assumes "serves (sg_rpc env) account live" "findRuleForPubkey (sg_rpc env) account pk = Inr (Some rid)"
  shows "\<exists>v. first_hit (toLowerCase pk) live (rid, v)"
  using assms(2) resolved_first [OF assms(1)] by (auto simp: findRuleForPubkey_def bindR_Inr_iff)

text \<open>
  C17. A tip signed in the dApp's page is the tip that was shown, and authorized: the relayer was
  handed a transfer of the amount from the account to the author, with one entry, for the same
  invocation the sheet listed; its rule is the first live rule that has the dApp's key, and the
  passkey signed the 32-byte digest that the account recomputes from that entry. The verifier is
  the one of rule 0, or the registry's, whatever verifier the key has in its rule. The key stays
  stored.
\<close>

theorem tip_is_authorized:
  assumes "serves (sg_rpc env) account live" "assembles env"
    and "tipAuthorInPage env dapp xlmSac account author xlm s = (s', Inr hash)"
  shows "\<exists>material pk cid rid v verifier sig src dst e0 e challenge call tx submitted. s' = s \<and>
    loadSessionKeyMaterial s account xlmSac = Inr (Some material) \<and>
    sm_publicKey material = Some (JStr pk) \<and> sm_credentialId material = Some (JStr cid) \<and> first_hit (toLowerCase pk) live (rid, v) \<and>
    addressScVal (sg_xdr env) account = Inr src \<and> addressScVal (sg_xdr env) author = Inr dst \<and>
    authorizes env (da_network dapp) e0 e challenge rid [ExternalSig verifier (hex2buf pk) sig] \<and>
    length challenge = 32 \<and> signWithSessionPasskey (sg_assert env 0) cid challenge = Inr sig \<and>
    decodeContractCall (da_native dapp) (ae_invocation e) = Inr call \<and>
    fetchVerifierAddress (sg_rpc env) (da_registry dapp) account = Inr verifier \<and>
    signSessionCallInPage env dapp account xlmSac (tipTx env xlmSac account author (xlm * 10000000))
      (\<lambda>_. [''from'', ''to'', ''amount'']) tip_errors (Some 120) s = (s, Inr (tx, approvalRows call (\<lambda>_. [''from'', ''to'', ''amount'']))) \<and>
    submitSorobanTransaction (sg_fetch env) (sg_funcXDR env (HostInvoke xlmSac ''transfer'' [src, dst, ScvI128 (xlm * 10000000)]))
      [sg_entryXDR env e] None (sg_relayerUrl env) = Inr submitted"
proof -
  let ?names = "\<lambda>_. [''from'', ''to'', ''amount'']"
  let ?build = "tipTx env xlmSac account author (xlm * 10000000)"
  from assms(3) obtain tx' rows where
    sign: "signSessionCallInPage env dapp account xlmSac ?build ?names tip_errors (Some 120) s = (s', Inr (tx', rows))"
    and sub: "submitInPage env ''tip'' (txFuncAndAuth env tx') = Inr hash"
    by (auto simp: tipAuthorInPage_def Let_def split: prod.splits sum.splits)
  from session_call_Inr [OF sign] obtain material tx ledger e0 payload pk rid where
    m: "s' = s" "loadSessionKeyMaterial s account xlmSac = Inr (Some material)"
    and call: "sessionCall env dapp account material ?build (Some 120) = Inr (tx, ledger, e0, payload, pk, Some rid)"
    and sig: "sessionSignature env dapp account material ?names (Some 120) tx ledger e0 payload pk rid = Inr (tx', rows)"
    by blast
  from sessionCall_Inr [OF call] obtain sim where
    b: "?build = Inr (tx, sim)" "getAuthEntry (ss_auth sim) = Inr e0" "ledger = ss_latestLedger sim"
    "buildAuthHash (sg_xdr env) (sg_preimage env) e0 (da_network dapp) ledger (Some 120) = Inr payload"
    "sm_publicKey material = Some (JStr pk)" "findRuleForPubkey (sg_rpc env) account pk = Inr (Some rid)" by blast
  from sessionSignature_Inr [OF sig] obtain verifier c cid sg ops where
    v: "fetchVerifierAddress (sg_rpc env) (da_registry dapp) account = Inr verifier"
    and c: "decodeContractCall (da_native dapp) (ae_invocation e0) = Inr c" "rows = approvalRows c ?names"
    "sm_credentialId material = Some (JStr cid)"
    "signWithSessionPasskey (sg_assert env 0) cid (computeAuthDigest (sg_xdr env) payload [rid]) = Inr sg"
    "injectSignedAuthPayload (sg_xdr env) (tx_operations tx) [ExternalSig verifier (hex2buf pk) sg] ledger (Some 120) [rid] = Inr ops"
    "tx' = tx\<lparr>tx_operations := ops\<rparr>" by blast
  from b(1) obtain src dst where
    t: "addressScVal (sg_xdr env) account = Inr src" "addressScVal (sg_xdr env) author = Inr dst"
    "sg_simulate env (sg_simSource env) 10000000 (HostInvoke xlmSac ''transfer'' [src, dst, ScvI128 (xlm * 10000000)]) = Inr sim"
    "tx = ss_assembled sim"
    by (auto simp: tipTx_def bindR_Inr_iff)
  have "tx_operations tx = [\<lparr>op_hostFunction = HostInvoke xlmSac ''transfer'' [src, dst, ScvI128 (xlm * 10000000)], op_authEntries = ss_auth sim\<rparr>]"
    using assms(2) t(3,4) unfolding assembles_def by blast
  from injected_authorizes [OF c(5) [unfolded this] b(2) b(4)] obtain e rest where
    e: "ops = [\<lparr>op_hostFunction = HostInvoke xlmSac ''transfer'' [src, dst, ScvI128 (xlm * 10000000)], op_authEntries = Some (e # rest)\<rparr>]"
    "authorizes env (da_network dapp) e0 e (computeAuthDigest (sg_xdr env) payload [rid]) rid [ExternalSig verifier (hex2buf pk) sg]" by blast
  have fa: "txFuncAndAuth env tx' = Inr (sg_funcXDR env (HostInvoke xlmSac ''transfer'' [src, dst, ScvI128 (xlm * 10000000)]), map (sg_entryXDR env) (e # rest))"
    by (simp add: txFuncAndAuth_def c(6) e(1))
  from submitInPage_Inr [OF sub] fa obtain submitted where
    "submitSorobanTransaction (sg_fetch env) (sg_funcXDR env (HostInvoke xlmSac ''transfer'' [src, dst, ScvI128 (xlm * 10000000)]))
      [sg_entryXDR env e] None (sg_relayerUrl env) = Inr submitted" by auto
  moreover have "length (computeAuthDigest (sg_xdr env) payload [rid]) = 32"
    using c(4) by (auto simp: signWithSessionPasskey_def split: if_splits)
  moreover have "decodeContractCall (da_native dapp) (ae_invocation e) = Inr c"
    using c(1) e(2) by (simp add: authorizes_def)
  moreover obtain v where "first_hit (toLowerCase pk) live (rid, v)" using found_rule [OF assms(1) b(6)] by blast
  ultimately show ?thesis using m b(5) c(2-4) t(1,2) e(2) sign v
    by (intro exI conjI) (assumption | simp)+
qed

text \<open>A device that holds a session key for the token \<open>CX\<close>, in the page of a dApp with the relayer of the samples.\<close>

definition tip_signer :: "unit signer_env" where
  "tip_signer = relay_signer\<lparr>sg_xdr := sample_lib\<lparr>sha256 := \<lambda>_. replicate 32 0\<rparr>\<rparr>"

definition sample_dapp :: dapp_env where
  "sample_dapp = \<lparr>da_registry = \<lambda>_. Inr ''CM'', da_native = sample_native, da_network = TESTNET\<rparr>"

definition session_device :: local_storage where
  "session_device = saveSessionKeyMaterial ''CA'' ''CX'' (session_passkey ''AQ'' [4] None None) Map.empty"

lemma tip_signer_env [simp]:
  "sg_xdr tip_signer = sample_lib\<lparr>sha256 := \<lambda>_. replicate 32 0\<rparr>" "sg_rpc tip_signer = sample_chain"
  "sg_preimage tip_signer = sg_preimage sample_signer" "sg_simulate tip_signer x y hf = Inr (sample_sim hf)"
  "sg_assert tip_signer i cid ch = Inr (Some ([1], [2], sample_der))" "sg_getAccount tip_signer g = Inr ()"
  "sg_relayerUrl tip_signer = ''https://relay''" "sg_fetch tip_signer = sample_fetch 1" "sg_poll tip_signer = sample_fetch"
  "sg_funcXDR tip_signer hf = []" "sg_entryXDR tip_signer e = []"
  by (simp_all add: tip_signer_def relay_signer_def sample_signer_def)

lemma tip_relayed: "submitInPage tip_signer ''tip'' (Inr ([], [[]])) = Inr ''h1''"
proof -
  have "case submitSorobanTransaction (sample_fetch 1) [] [[]] None ''https://relay'' of
      Inr r \<Rightarrow> truthy (field ''transactionId'' r) \<and>
        (case waitForConfirmation (\<lambda>i. getRelayerTransaction (sample_fetch i) (orElse (as_string (field ''transactionId'' r)) []) ''https://relay'') None of
           Inr c \<Rightarrow> truthy (field ''hash'' c) \<and> as_string (field ''hash'' c) = Some ''h1'' | Inl _ \<Rightarrow> False)
    | Inl _ \<Rightarrow> False" by code_simp
  then show ?thesis by (auto simp: submitInPage_def orNetworkError_def orElse_def split: sum.splits)
qed

lemma sample_verifier: "fetchVerifierAddress sample_chain (\<lambda>_. Inr ''CM'') ''CA'' = Inr ''CM''"
proof -
  obtain e where "getRule sample_chain ''CA'' 0 = Inl e" using servesD(4) [OF sample_serves, of 0] by auto
  then show ?thesis by (simp add: fetchVerifierAddress_def)
qed

lemma tip_injects:
  "\<exists>e. injectPasskeySignature (sample_lib\<lparr>sha256 := h\<rparr>) [\<lparr>op_hostFunction = hf, op_authEntries = Some [sample_entry]\<rparr>]
     sig v pk ledger offset ids = Inr [\<lparr>op_hostFunction = hf, op_authEntries = Some [e]\<rparr>]"
  by (simp add: injectPasskeySignature_def injectSignedAuthPayload_def sample_entry_def buildAuthPayloadScVal_def signerScVal_def
      sample_lib_def Let_def)

lemma tip_signed:
  fixes hf :: host_function
  defines "tx \<equiv> ss_assembled (sample_sim hf)"
  shows "\<exists>payload e rows. sessionCall tip_signer sample_dapp ''CA'' (session_passkey ''AQ'' [4] None None) (Inr (tx, sample_sim hf)) (Some 120) =
      Inr (tx, 100, sample_entry, payload, ''04'', Some 1) \<and>
    sessionSignature tip_signer sample_dapp ''CA'' (session_passkey ''AQ'' [4] None None) names (Some 120) tx 100 sample_entry payload ''04'' 1 =
      Inr (tx\<lparr>tx_operations := [\<lparr>op_hostFunction = hf, op_authEntries = Some [e]\<rparr>]\<rparr>, rows)"
proof -
  obtain sig where sig: "parseAssertionResponse [1] [2] sample_der = Inr sig" using sample_parsed by blast
  have m: "sm_publicKey (session_passkey ''AQ'' [4] None None) = Some (JStr ''04'')"
    "sm_credentialId (session_passkey ''AQ'' [4] None None) = Some (JStr ''AQ'')" "base64url2buf ''AQ'' = Inr [1]"
    by code_simp+
  obtain payload where "buildAuthHash (sg_xdr tip_signer) (sg_preimage sample_signer) sample_entry TESTNET 100 (Some 120) = Inr payload"
    using sample_hash by blast
  moreover obtain pk where pk: "hex2buf ''04'' = pk" by simp
  moreover obtain e where "injectPasskeySignature (sg_xdr tip_signer) [\<lparr>op_hostFunction = hf, op_authEntries = Some [sample_entry]\<rparr>]
     sig ''CM'' pk 100 (Some 120) [1] = Inr [\<lparr>op_hostFunction = hf, op_authEntries = Some [e]\<rparr>]"
    using tip_injects by fastforce
  moreover have "decodeContractCall sample_native (ae_invocation sample_entry) = Inr (Some (''CA'', ''set_key'', []))"
    by (simp add: decodeContractCall_def sample_entry_def)
  moreover have "length (computeAuthDigest (sg_xdr tip_signer) payload [1]) = 32" by (simp add: computeAuthDigest_def)
  ultimately show ?thesis
    by (intro exI [of _ payload] exI [of _ e]) (simp add: tx_def sessionCall_def sessionSignature_def sample_dapp_def m sample_verifier sig
        findRuleForPubkey_def sample_resolved getAuthEntry_def signWithSessionPasskey_def del: tip_signer_env(1))
qed

lemma tip_sent: "tipAuthorInPage tip_signer sample_dapp ''CX'' ''CA'' ''CB'' 1 session_device = (session_device, Inr ''h1'')"
proof -
  let ?args = "case (addressScVal sample_lib ''CA'', addressScVal sample_lib ''CB'') of
     (Inr a, Inr b) \<Rightarrow> [a, b, ScvI128 10000000] | _ \<Rightarrow> []"
  have built: "tipTx tip_signer ''CX'' ''CA'' ''CB'' 10000000 =
      Inr (ss_assembled (sample_sim (HostInvoke ''CX'' ''transfer'' ?args)), sample_sim (HostInvoke ''CX'' ''transfer'' ?args))"
    by (simp add: tipTx_def sample_lib_def)
  have "\<exists>tx rows. signSessionCallInPage tip_signer sample_dapp ''CA'' ''CX'' (tipTx tip_signer ''CX'' ''CA'' ''CB'' 10000000)
      (\<lambda>_. [''from'', ''to'', ''amount'']) tip_errors (Some 120) session_device = (session_device, Inr (tx, rows)) \<and>
      txFuncAndAuth tip_signer tx = Inr ([], [[]])"
    using tip_signed [of "HostInvoke ''CX'' ''transfer'' ?args" "\<lambda>_. [''from'', ''to'', ''amount'']"]
    unfolding signSessionCallInPage_def built session_device_def loaded_passkey
    by (auto simp: txFuncAndAuth_def)
  with tip_relayed show ?thesis by (auto simp: tipAuthorInPage_def)
qed

theorem tip_is_authorized_witness:
  "\<exists>e0 e challenge cid pk rid sig. length challenge = 32 \<and>
     signWithSessionPasskey (sg_assert tip_signer 0) cid challenge = Inr sig \<and>
     authorizes tip_signer TESTNET e0 e challenge rid [ExternalSig ''CM'' pk sig]"
proof -
  have "assembles tip_signer" by (auto simp: assembles_def)
  from tip_is_authorized [OF _ this tip_sent, unfolded tip_signer_env(2), OF sample_serves]
  show ?thesis by (fastforce simp: sample_dapp_def sample_verifier)
qed

end
