(* ===== verification/RecoverySetup.thy ===== *)
theory RecoverySetup
  imports Sessions Resolver
begin

text \<open>
  Setting up the recovery by friends (\<open>frontend/src/lib/recoveryForm.ts\<close> and \<open>installRecovery\<close> of
  \<open>recoveryActions.ts\<close>): the form as a machine whose steps are the user's inputs and the replies to
  its lookups, which arrive in any order, and the transaction it saves.
\<close>

section \<open>The form\<close>

text \<open>
  A row is a friend object, named by a number, and the lookups that are still under way hold on to
  it. \<open>built\<close> is the draft as \<open>buildInstall\<close> reads it, some time after the click on save.
\<close>

record recovery_form =
  fm_open :: bool
  fm_rows :: "(nat \<times> friend) list"
  fm_next :: nat
  fm_threshold :: nat
  fm_label :: "string option"
  fm_pending :: "(nat \<times> string) list"
  fm_saving :: bool
  fm_error :: "string option"
  fm_built :: "multisig_block option"

datatype form_event =
    AddFriend
  | ThresholdUp
  | ThresholdDown
  | RuleName string
  | TypeInto nat string
  | Replies nat
  | RemoveFriend nat
  | CancelForm
  | SaveForm
  | BuildsCall
  | SaveFails string

definition emptyFriend :: friend where
  "emptyFriend = \<lparr>friend_address = [], inputAs = [], nickname = None\<rparr>"

definition mountRecoveryForm :: recovery_form where
  "mountRecoveryForm = \<lparr>fm_open = True, fm_rows = [(0, emptyFriend), (1, emptyFriend), (2, emptyFriend)], fm_next = 3,
     fm_threshold = mb_threshold multisig_defaultDraft, fm_label = mb_label multisig_defaultDraft, fm_pending = [],
     fm_saving = False, fm_error = None, fm_built = None\<rparr>"

definition draft :: "recovery_form \<Rightarrow> multisig_block" where
  "draft st = \<lparr>mb_ruleId = None, mb_threshold = fm_threshold st, mb_friends = map snd (fm_rows st), mb_label = fm_label st\<rparr>"

text \<open>The address a lookup puts into its row: none for an invalid input or a failure.\<close>

type_synonym friend_lookup = "string \<Rightarrow> resolved_friend option result"

fun friendAddress :: "resolved_friend \<Rightarrow> string" where
  "friendAddress (FriendName a _) = a"
| "friendAddress (FriendContract a _) = a"
| "friendAddress (FriendAccount a _) = a"

definition repliedAddress :: "friend_lookup \<Rightarrow> string \<Rightarrow> string" where
  "repliedAddress resolve text = (case resolve text of Inr (Some r) \<Rightarrow> friendAddress r | _ \<Rightarrow> [])"

definition updateRow :: "nat \<Rightarrow> (friend \<Rightarrow> friend) \<Rightarrow> (nat \<times> friend) list \<Rightarrow> (nat \<times> friend) list" where
  "updateRow i f rows = map (\<lambda>(j, x). if j = i then (j, f x) else (j, x)) rows"

definition validateForm :: "recovery_form \<Rightarrow> string option" where
  "validateForm st =
     (if fm_rows st = [] then Some ''Add at least one friend.''
      else if \<exists>(_, f) \<in> set (fm_rows st). friend_address f = []
      then Some (''Some friends did not resolve '' @ EM_DASH @ '' check the addresses.'')
      else None)"

definition typeInto :: "nat \<Rightarrow> string \<Rightarrow> recovery_form \<Rightarrow> recovery_form" where
  "typeInto i text st =
     (if i \<notin> fst ` set (fm_rows st) then st
      else st\<lparr>fm_rows := updateRow i (\<lambda>f. f\<lparr>inputAs := text\<rparr>) (fm_rows st), fm_pending := fm_pending st @ [(i, text)]\<rparr>)"

definition replies :: "friend_lookup \<Rightarrow> nat \<Rightarrow> recovery_form \<Rightarrow> recovery_form" where
  "replies resolve k st =
     (if k \<ge> length (fm_pending st) then st
      else let (i, text) = fm_pending st ! k
           in st\<lparr>fm_rows := updateRow i (\<lambda>f. f\<lparr>friend_address := repliedAddress resolve text\<rparr>) (fm_rows st),
                 fm_pending := take k (fm_pending st) @ drop (Suc k) (fm_pending st)\<rparr>)"

definition removeFriend :: "nat \<Rightarrow> recovery_form \<Rightarrow> recovery_form" where
  "removeFriend k st =
     (if k \<ge> length (fm_rows st) then st
      else let rows = take k (fm_rows st) @ drop (Suc k) (fm_rows st)
           in st\<lparr>fm_rows := rows,
                 fm_threshold := (if fm_threshold st > length rows then max 1 (length rows) else fm_threshold st)\<rparr>)"

definition saveForm :: "recovery_form \<Rightarrow> recovery_form" where
  "saveForm st =
     (if fm_saving st then st
      else let st' = st\<lparr>fm_error := (if fm_error st = None then None else Some [])\<rparr>
           in (case validateForm st of
                 Some msg \<Rightarrow> st'\<lparr>fm_error := Some msg\<rparr>
               | None \<Rightarrow> st'\<lparr>fm_saving := True, fm_built := None\<rparr>))"

definition buildsCall :: "recovery_form \<Rightarrow> recovery_form" where
  "buildsCall st = (if fm_saving st \<and> fm_built st = None then st\<lparr>fm_built := Some (draft st)\<rparr> else st)"

text \<open>After a cancel the inputs are gone; what is under way goes on.\<close>

fun formStep :: "friend_lookup \<Rightarrow> recovery_form \<Rightarrow> form_event \<Rightarrow> recovery_form" where
  "formStep resolve st AddFriend =
     (if fm_open st then st\<lparr>fm_rows := fm_rows st @ [(fm_next st, emptyFriend)], fm_next := Suc (fm_next st)\<rparr> else st)"
| "formStep resolve st ThresholdUp =
     (if fm_open st \<and> fm_threshold st < length (fm_rows st) then st\<lparr>fm_threshold := Suc (fm_threshold st)\<rparr> else st)"
| "formStep resolve st ThresholdDown =
     (if fm_open st \<and> fm_threshold st > 1 then st\<lparr>fm_threshold := fm_threshold st - 1\<rparr> else st)"
| "formStep resolve st (RuleName text) = (if fm_open st then st\<lparr>fm_label := Some text\<rparr> else st)"
| "formStep resolve st (TypeInto i text) = (if fm_open st then typeInto i text st else st)"
| "formStep resolve st (Replies k) = replies resolve k st"
| "formStep resolve st (RemoveFriend k) = (if fm_open st then removeFriend k st else st)"
| "formStep resolve st CancelForm = st\<lparr>fm_open := False\<rparr>"
| "formStep resolve st SaveForm = (if fm_open st then saveForm st else st)"
| "formStep resolve st BuildsCall = buildsCall st"
| "formStep resolve st (SaveFails msg) =
     (if fm_saving st then st\<lparr>fm_saving := False, fm_built := None, fm_error := Some (''Failed to save: '' @ msg)\<rparr> else st)"

definition runForm :: "friend_lookup \<Rightarrow> form_event list \<Rightarrow> recovery_form" where
  "runForm resolve evs = foldl (formStep resolve) mountRecoveryForm evs"

text \<open>The row of a friend, as it is drawn: the text of the input is not escaped.\<close>

definition friendRowHtml :: "friend \<Rightarrow> string" where
  \<open>friendRowHtml f =
     ''
        <input value="'' @ inputAs f @ ''" placeholder="name, C'' @ ELLIPSIS @ '', or G'' @ ELLIPSIS @ ''" style="flex:1"/>
        <span class="resolve-status muted" style="font-size:0.85em"></span>
        <button class="remove" type="button">'' @ [CHR 0xC3, CHR 0x97] @ ''</button>
      ''\<close>

section \<open>Installing the rule\<close>

text \<open>The nicknames of the friends, stored one after the other.\<close>

definition saveNicknames :: "string \<Rightarrow> friend list \<Rightarrow> local_storage \<Rightarrow> local_storage result" where
  "saveNicknames account friends s =
     foldl (\<lambda>r f. bindR r (\<lambda>s. case nickname f of
         Some (c # cs) \<Rightarrow> saveFriendNickname account (friend_address f) (c # cs) s
       | _ \<Rightarrow> Inr s)) (Inr s) friends"

definition multisigPolicyName :: "string \<Rightarrow> string" where
  "multisigPolicyName name = (if name = ''multisig'' then ''multisig-policy'' else name)"

definition installRecovery ::
  "'d signer_env \<Rightarrow> (string \<Rightarrow> string result) \<Rightarrow> (host_function, auth) client \<Rightarrow> local_storage \<Rightarrow> string \<Rightarrow> multisig_block \<Rightarrow>
   relayer_error + local_storage" where
  "installRecovery env registry client s account block =
     bindR (orNetworkError (multisig_buildInstall client (Some (\<lambda>name. registry (multisigPolicyName name))) account block)) (\<lambda>(operations, _).
     bindR (orNetworkError (fetchVerifierAddress (sg_rpc env) registry account)) (\<lambda>verifierAddr.
       (case operations of
          [] \<Rightarrow> Inl (NetworkError (TypeError ''undefined operation''))
        | op # _ \<Rightarrow> bindR (signAndSubmit env s account (x_func op) (Some verifierAddr)) (\<lambda>_.
            orNetworkError (saveNicknames account (mb_friends block) s)))))"

section \<open>What a saved rule says\<close>

text \<open>
  The invariant of the form, for the inputs that were made: the threshold can be met (or the form
  is empty), rows are distinct objects, and an address comes from a text typed into its row.
\<close>

definition row_ok :: "friend_lookup \<Rightarrow> form_event list \<Rightarrow> nat \<times> friend \<Rightarrow> bool" where
  "row_ok resolve evs r \<longleftrightarrow>
     (friend_address (snd r) = [] \<or> (\<exists>t. TypeInto (fst r) t \<in> set evs \<and> friend_address (snd r) = repliedAddress resolve t)) \<and>
     nickname (snd r) = None"

definition form_ok :: "friend_lookup \<Rightarrow> form_event list \<Rightarrow> recovery_form \<Rightarrow> bool" where
  "form_ok resolve evs st \<longleftrightarrow>
     1 \<le> fm_threshold st \<and> fm_threshold st \<le> max 1 (length (fm_rows st)) \<and>
     list_all (\<lambda>(i, t). TypeInto i t \<in> set evs) (fm_pending st) \<and> list_all (row_ok resolve evs) (fm_rows st)"

lemma row_ok_mono: "row_ok resolve evs r \<Longrightarrow> row_ok resolve (evs @ [ev]) r"
  by (auto simp: row_ok_def)

lemma form_ok_mono: "form_ok resolve evs st \<Longrightarrow> form_ok resolve (evs @ [ev]) st"
  by (auto simp: form_ok_def list_all_iff row_ok_mono)

lemma length_updateRow [simp]: "length (updateRow i f rows) = length rows"
  by (simp add: updateRow_def)

lemma all_updateRow: "list_all P rows \<Longrightarrow> (\<And>x. P (i, x) \<Longrightarrow> P (i, f x)) \<Longrightarrow> list_all P (updateRow i f rows)"
  by (induction rows) (auto simp: updateRow_def)

lemma list_all_cut: "list_all P xs \<Longrightarrow> list_all P (take k xs @ drop n xs)"
  by (auto simp: list_all_iff dest: in_set_takeD in_set_dropD)

lemma form_ok_type:
  assumes "form_ok resolve evs st"
  shows "form_ok resolve (evs @ [TypeInto i text]) (typeInto i text st)"
proof -
  have "list_all (row_ok resolve (evs @ [TypeInto i text])) (updateRow i (\<lambda>f. f\<lparr>inputAs := text\<rparr>) (fm_rows st))"
    using form_ok_mono [OF assms] by (intro all_updateRow) (auto simp: form_ok_def row_ok_def)
  then show ?thesis using form_ok_mono [OF assms, of "TypeInto i text"] by (auto simp: typeInto_def form_ok_def)
qed

lemma form_ok_reply:
  assumes "form_ok resolve evs st"
  shows "form_ok resolve evs (replies resolve k st)"
proof (cases "k < length (fm_pending st)")
  case True
  obtain i w where p: "fm_pending st ! k = (i, w)" by fastforce
  have "TypeInto i w \<in> set evs" using assms nth_mem [OF True] p by (auto simp: form_ok_def list_all_iff)
  then have "list_all (row_ok resolve evs) (updateRow i (\<lambda>f. f\<lparr>friend_address := repliedAddress resolve w\<rparr>) (fm_rows st))"
    using assms by (intro all_updateRow) (auto simp: form_ok_def row_ok_def)
  moreover have "list_all (\<lambda>(i, t). TypeInto i t \<in> set evs) (take k (fm_pending st) @ drop (Suc k) (fm_pending st))"
    using assms by (intro list_all_cut) (simp add: form_ok_def)
  ultimately show ?thesis using True p assms by (simp add: replies_def form_ok_def)
qed (use assms in \<open>simp add: replies_def\<close>)

lemma form_ok_remove: "form_ok resolve evs st \<Longrightarrow> form_ok resolve evs (removeFriend k st)"
  using list_all_cut [of "row_ok resolve evs" "fm_rows st" k "Suc k"]
  by (auto simp: form_ok_def removeFriend_def Let_def)

lemma form_ok_save: "form_ok resolve evs st \<Longrightarrow> form_ok resolve evs (saveForm st)"
  by (simp add: form_ok_def saveForm_def Let_def split: option.split)

lemma form_ok_builds: "form_ok resolve evs st \<Longrightarrow> form_ok resolve evs (buildsCall st)"
  by (simp add: form_ok_def buildsCall_def)

lemma form_ok_mount: "form_ok resolve [] mountRecoveryForm"
  by (simp add: form_ok_def row_ok_def mountRecoveryForm_def multisig_defaultDraft_def emptyFriend_def)

lemma form_ok_step: "form_ok resolve evs st \<Longrightarrow> form_ok resolve (evs @ [ev]) (formStep resolve st ev)"
proof (cases ev)
  case AddFriend
  then show "form_ok resolve evs st \<Longrightarrow> form_ok resolve (evs @ [ev]) (formStep resolve st ev)"
    using form_ok_mono [of resolve evs st ev] by (auto simp: form_ok_def row_ok_def emptyFriend_def)
next
  case (TypeInto i w)
  then show "form_ok resolve evs st \<Longrightarrow> form_ok resolve (evs @ [ev]) (formStep resolve st ev)"
    using form_ok_type [of resolve evs st i w] form_ok_mono [of resolve evs st ev] by simp
qed (use form_ok_mono [of resolve evs st ev] in
    \<open>auto simp: form_ok_reply form_ok_remove form_ok_save form_ok_builds, auto simp: form_ok_def\<close>)

lemma form_run_ok: "form_ok resolve evs (runForm resolve evs)"
  by (induction evs rule: rev_induct) (simp_all add: runForm_def form_ok_mount form_ok_step)

text \<open>
  When the lookups reply in the order they were made, a row whose last lookup has replied has the
  address of the text it shows. \<open>map_of (rev p) i\<close> is the text last typed into row \<open>i\<close> that is
  still looked up.
\<close>

definition in_order :: "form_event list \<Rightarrow> bool" where
  "in_order evs \<longleftrightarrow> list_all (\<lambda>ev. case ev of Replies k \<Rightarrow> k = 0 | _ \<Rightarrow> True) evs"

definition row_current :: "friend_lookup \<Rightarrow> (nat \<times> string) list \<Rightarrow> nat \<times> friend \<Rightarrow> bool" where
  "row_current resolve p r \<longleftrightarrow>
     (case map_of (rev p) (fst r) of
        Some t \<Rightarrow> inputAs (snd r) = t
      | None \<Rightarrow> friend_address (snd r) = [] \<or> friend_address (snd r) = repliedAddress resolve (inputAs (snd r)))"

definition form_current :: "friend_lookup \<Rightarrow> recovery_form \<Rightarrow> bool" where
  "form_current resolve st \<longleftrightarrow>
     list_all (\<lambda>(i, _). i < fm_next st) (fm_rows st) \<and> list_all (\<lambda>(i, _). i < fm_next st) (fm_pending st) \<and>
     list_all (row_current resolve (fm_pending st)) (fm_rows st)"

lemma no_pending: "list_all (\<lambda>(i, _). i < (n :: nat)) p \<Longrightarrow> map_of (rev p) n = None"
  by (auto simp: map_of_eq_None_iff list_all_iff dest!: bspec)

lemma every_updateRow:
  assumes "list_all P rows" "\<And>j x. P (j, x) \<Longrightarrow> Q (j, if j = i then f x else x)"
  shows "list_all Q (updateRow i f rows)"
proof -
  have "Q (if j = i then (j, f x) else (j, x))" if "(j, x) \<in> set rows" for j x
    using assms(1) assms(2) [of j x] that by (cases "j = i") (auto simp: list_all_iff)
  then show ?thesis by (auto simp: updateRow_def list_all_iff)
qed

lemma below_updateRow: "list_all (\<lambda>(i, _). i < n) rows \<Longrightarrow> list_all (\<lambda>(i, _). i < n) (updateRow j f rows)"
  by (erule every_updateRow) simp

lemma current_added: "form_current resolve st \<Longrightarrow>
   form_current resolve (st\<lparr>fm_rows := fm_rows st @ [(fm_next st, emptyFriend)], fm_next := Suc (fm_next st)\<rparr>)"
  using no_pending [of "fm_next st" "fm_pending st"]
  by (auto simp: form_current_def list_all_iff row_current_def emptyFriend_def)

lemma current_typed:
  assumes "form_current resolve st"
  shows "form_current resolve (typeInto i w st)"
proof (cases "i \<in> fst ` set (fm_rows st)")
  case True
  have "row_current resolve (fm_pending st @ [(i, w)]) (j, if j = i then f\<lparr>inputAs := w\<rparr> else f)"
    if "row_current resolve (fm_pending st) (j, f)" for j f
    using that by (cases "j = i") (simp_all add: row_current_def)
  then have "list_all (row_current resolve (fm_pending st @ [(i, w)])) (updateRow i (\<lambda>f. f\<lparr>inputAs := w\<rparr>) (fm_rows st))"
    using assms by (auto simp: form_current_def intro: every_updateRow [of "row_current resolve (fm_pending st)"])
  moreover have "i < fm_next st" using True assms by (auto simp: form_current_def list_all_iff)
  ultimately show ?thesis using True assms by (simp add: typeInto_def form_current_def below_updateRow)
qed (use assms in \<open>simp add: typeInto_def\<close>)

lemma current_replied:
  assumes "form_current resolve st"
  shows "form_current resolve (replies resolve 0 st)"
proof (cases "fm_pending st")
  case (Cons q qs)
  obtain i w where q: "q = (i, w)" by fastforce
  have "row_current resolve qs (j, if j = i then f\<lparr>friend_address := repliedAddress resolve w\<rparr> else f)"
    if "row_current resolve (fm_pending st) (j, f)" for j f
    using that by (cases "map_of (rev qs) j") (auto simp: Cons q row_current_def map_add_def)
  then have "list_all (row_current resolve qs) (updateRow i (\<lambda>f. f\<lparr>friend_address := repliedAddress resolve w\<rparr>) (fm_rows st))"
    using assms by (auto simp: form_current_def intro: every_updateRow [of "row_current resolve (fm_pending st)"])
  with assms show ?thesis
    by (simp add: replies_def Cons q form_current_def below_updateRow)
qed (use assms in \<open>simp add: replies_def\<close>)

lemma current_step:
  assumes "form_current resolve st" "in_order [ev]"
  shows "form_current resolve (formStep resolve st ev)"
proof (cases ev)
  case (Replies k)
  with assms current_replied show ?thesis by (simp add: in_order_def)
next
  case (RemoveFriend k)
  then show ?thesis
    using assms(1) list_all_cut [of _ "fm_rows st" k "Suc k"] by (auto simp: form_current_def removeFriend_def Let_def)
next
  case AddFriend
  then show ?thesis using current_added [OF assms(1)] assms(1) by simp
next
  case (TypeInto i w)
  then show ?thesis using current_typed [OF assms(1)] assms(1) by simp
qed (use assms in \<open>auto simp: form_current_def saveForm_def buildsCall_def Let_def split: option.split\<close>)

lemma form_run_current: "in_order evs \<Longrightarrow> form_current resolve (runForm resolve evs)"
proof (induction evs rule: rev_induct)
  case Nil
  show ?case by (simp add: runForm_def mountRecoveryForm_def form_current_def row_current_def emptyFriend_def)
next
  case (snoc ev evs)
  then show ?case using current_step [of resolve "runForm resolve evs" ev] by (simp add: runForm_def in_order_def)
qed

text \<open>
  C14. A recovery rule that is saved can be used: if nothing happens between the click and the
  construction of the call, then whatever was clicked and typed before and in whatever order the
  lookups replied, the call names the friends of the form's rows, at least one, its threshold lies
  between one and their number, and the friend of each row is an address that a text typed into
  that very row resolves to. If the lookups replied in the order they were made and all have, it is
  the address of the text that the row shows.
\<close>

theorem saved_recovery_is_usable:
  assumes st: "st = runForm resolve evs" and ready: "fm_open st" "\<not> fm_saving st"
    and built: "fm_built (formStep resolve (formStep resolve st SaveForm) BuildsCall) = Some b" and fresh: "fm_built st = None"
  shows "1 \<le> mb_threshold b \<and> mb_threshold b \<le> length (mb_friends b) \<and> mb_friends b = map snd (fm_rows st) \<and>
    (\<forall>(i, f) \<in> set (fm_rows st). friend_address f \<noteq> [] \<and>
       (\<exists>t. TypeInto i t \<in> set evs \<and> friend_address f = repliedAddress resolve t) \<and>
       (in_order evs \<and> fm_pending st = [] \<longrightarrow> friend_address f = repliedAddress resolve (inputAs f))) \<and>
    inv_args (multisig_invocation account b policy) =
      [(''name'', Str (orElse (fm_label st) ''recovery'')), (''valid_until'', OptU32 None),
       (''friends'', Signers (map (\<lambda>(_, f). Delegated (friend_address f)) (fm_rows st))),
       (''multisig_policy'', Address policy), (''threshold'', U32 (fm_threshold st))]"
proof -
  have ok: "form_ok resolve evs st" unfolding st by (rule form_run_ok)
  have valid: "validateForm st = None"
    using built ready fresh by (cases "validateForm st") (auto simp: saveForm_def buildsCall_def)
  then have b: "b = draft st"
    using built ready by (simp add: saveForm_def buildsCall_def draft_def)
  have rows: "fm_rows st \<noteq> []" "\<And>i f. (i, f) \<in> set (fm_rows st) \<Longrightarrow> friend_address f \<noteq> []"
    using valid by (auto simp: validateForm_def split: if_splits)
  have "friend_address f \<noteq> [] \<and> (\<exists>t. TypeInto i t \<in> set evs \<and> friend_address f = repliedAddress resolve t) \<and>
      (in_order evs \<and> fm_pending st = [] \<longrightarrow> friend_address f = repliedAddress resolve (inputAs f))"
    if i: "(i, f) \<in> set (fm_rows st)" for i f
  proof -
    have "row_ok resolve evs (i, f)" using ok i by (auto simp: form_ok_def list_all_iff)
    moreover have "row_current resolve (fm_pending st) (i, f)" if "in_order evs"
      using form_run_current [OF that, of resolve] i by (auto simp: st [symmetric] form_current_def list_all_iff)
    ultimately show ?thesis using rows(2) [OF i] by (auto simp: row_ok_def row_current_def)
  qed
  moreover have "fm_threshold st \<le> length (fm_rows st)" "1 \<le> fm_threshold st"
    using ok rows(1) by (cases "fm_rows st"; auto simp: form_ok_def)+
  ultimately show ?thesis
    by (auto simp: b draft_def multisig_invocation_def comp_def split_beta)
qed

text \<open>
  The lookups of a row race: the reply to a text typed earlier may come last, and then the rule
  names the address of that text while the row shows the other.
\<close>

definition two_names :: friend_lookup where
  "two_names t = (if t = ''alice'' then Inr (Some (FriendName ''CALICE'' t)) else if t = ''bob'' then Inr (Some (FriendName ''CBOB'' t)) else Inr None)"

lemma stale_reply_wins:
  "mb_friends (draft (runForm two_names [RemoveFriend 2, RemoveFriend 1, TypeInto 0 ''alice'', TypeInto 0 ''bob'', Replies 1, Replies 0])) =
     [\<lparr>friend_address = ''CALICE'', inputAs = ''bob'', nickname = None\<rparr>]"
  by (simp add: runForm_def mountRecoveryForm_def multisig_defaultDraft_def emptyFriend_def removeFriend_def typeInto_def replies_def
      updateRow_def repliedAddress_def two_names_def draft_def Let_def)

text \<open>A change between the click and the construction of the call is not validated.\<close>

lemma edited_while_saving:
  "fm_built (runForm two_names [RemoveFriend 2, RemoveFriend 1, TypeInto 0 ''alice'', Replies 0, SaveForm, AddFriend, BuildsCall]) =
     Some \<lparr>mb_ruleId = None, mb_threshold = 1, mb_friends = [\<lparr>friend_address = ''CALICE'', inputAs = ''alice'', nickname = None\<rparr>, emptyFriend],
       mb_label = Some ''Recovery''\<rparr>"
  by (simp add: runForm_def mountRecoveryForm_def multisig_defaultDraft_def emptyFriend_def removeFriend_def typeInto_def replies_def
      updateRow_def repliedAddress_def two_names_def draft_def Let_def saveForm_def validateForm_def buildsCall_def)

text \<open>A typed text can add markup to the form when its rows are drawn again.\<close>

lemma friend_row_not_inert:
  "markup (friendRowHtml (emptyFriend\<lparr>inputAs := [CHR 0x22] @ ''><b>''\<rparr>)) \<noteq> markup (friendRowHtml emptyFriend)"
  by (simp add: friendRowHtml_def emptyFriend_def markup_def is_markup_def)

theorem saved_recovery_is_usable_witness:
  "\<exists>b. fm_built (runForm two_names [TypeInto 0 ''alice'', TypeInto 1 ''bob'', Replies 1, RemoveFriend 2, Replies 0, SaveForm, BuildsCall]) = Some b \<and>
     mb_threshold b \<le> length (mb_friends b)"
proof -
  let ?evs = "[TypeInto 0 ''alice'', TypeInto 1 ''bob'', Replies 1, RemoveFriend 2, Replies 0]"
  have st: "fm_open (runForm two_names ?evs)" "\<not> fm_saving (runForm two_names ?evs)" "fm_built (runForm two_names ?evs) = None"
    "fm_built (formStep two_names (formStep two_names (runForm two_names ?evs) SaveForm) BuildsCall) = Some (draft (runForm two_names ?evs))"
    by (simp_all add: runForm_def mountRecoveryForm_def multisig_defaultDraft_def emptyFriend_def removeFriend_def typeInto_def replies_def
        updateRow_def repliedAddress_def two_names_def draft_def Let_def saveForm_def validateForm_def buildsCall_def)
  from saved_recovery_is_usable [OF refl st(1,2,4,3), THEN conjunct2, THEN conjunct1] st(4) show ?thesis by (simp add: runForm_def)
qed

section \<open>The installed rule\<close>

lemma no_nicknames: "list_all (\<lambda>f. nickname f = None) friends \<Longrightarrow> saveNicknames account friends s = Inr s"
  by (induction friends arbitrary: s) (simp_all add: saveNicknames_def)

end
