(* ===== verification/SharedStorage.thy ===== *)
theory SharedStorage
  imports Storage Resolver "HOL-Library.Multiset" "HOL-Library.List_Lexorder" "HOL-Library.Char_ord"
begin

text \<open>
  The list of accounts that the pages of one site share (\<open>frontend/src/lib/nidoSharedStorage.ts\<close>
  and the page \<open>nido-storage-bridge\<close>). Each account lives on a subdomain with a storage of its
  own; a page exchanges its list with the apex through a hidden frame. The listing of a storage's
  keys is a parameter, as the browser may give them in any order; identifiers are compared by
  their codes.
\<close>

section \<open>Snapshots\<close>

definition normalizeContractId :: "json \<Rightarrow> string option" where
  "normalizeContractId value =
     (case value of
        JStr s \<Rightarrow> if isContractId (toUpperCase s) then Some (toUpperCase s) else None
      | _ \<Rightarrow> None)"

definition addContractId :: "string list \<Rightarrow> json \<Rightarrow> string list" where
  "addContractId out value =
     (case normalizeContractId value of
        None \<Rightarrow> out
      | Some c \<Rightarrow> if c \<in> set out then out else out @ [c])"

definition uniqueContractIds :: "json option \<Rightarrow> string list" where
  "uniqueContractIds values = (case values of Some (JArr vs) \<Rightarrow> foldl addContractId [] vs | _ \<Rightarrow> [])"

definition readJsonOrNull :: "string option \<Rightarrow> json option" where
  "readJsonOrNull value =
     (case value of
        Some (c # cs) \<Rightarrow> (case parse_json (c # cs) of Inr j \<Rightarrow> Some j | Inl _ \<Rightarrow> None)
      | _ \<Rightarrow> None)"

text \<open>An entry of the pending list: the account and its setup key, which older pages stored as a secret key.\<close>

type_synonym shared_pending = "string \<times> string"

definition setupKeyOf :: "json \<Rightarrow> string option" where
  "setupKeyOf record' =
     (case field ''setupKey'' record' of
        Some (JStr (c # cs)) \<Rightarrow> Some (c # cs)
      | _ \<Rightarrow> (case field ''secretKey'' record' of Some (JStr (c # cs)) \<Rightarrow> Some (c # cs) | _ \<Rightarrow> None))"

definition addPending :: "string list \<Rightarrow> shared_pending list \<Rightarrow> json \<Rightarrow> shared_pending list" where
  "addPending active out value =
     (case Option.bind (field ''contractId'' value) normalizeContractId of
        None \<Rightarrow> out
      | Some c \<Rightarrow> if c \<in> set active \<or> c \<in> fst ` set out then out
          else (case setupKeyOf value of None \<Rightarrow> out | Some k \<Rightarrow> out @ [(c, k)]))"

definition normalizePending :: "json option \<Rightarrow> string list \<Rightarrow> shared_pending list" where
  "normalizePending values active = (case values of Some (JArr vs) \<Rightarrow> foldl (addPending active) [] vs | _ \<Rightarrow> [])"

definition addName :: "(string \<times> string) list \<Rightarrow> string \<times> json \<Rightarrow> (string \<times> string) list" where
  "addName names entry =
     (case entry of (key, value) \<Rightarrow>
        (case (normalizeContractId (JStr key), value) of
           (Some c, JStr n) \<Rightarrow> if VALID_NAME_RE n then putMember names c n else names
         | _ \<Rightarrow> names))"

definition normalizeNames :: "json option \<Rightarrow> (string \<times> string) list" where
  "normalizeNames values = (case values of Some (JObj kvs) \<Rightarrow> foldl addName [] kvs | _ \<Rightarrow> [])"

record snapshot =
  sn_accounts :: "string list"
  sn_pending :: "shared_pending list"
  sn_names :: "(string \<times> string) list"

definition normalizeSnapshot :: "json option \<Rightarrow> snapshot" where
  "normalizeSnapshot snap =
     (let accounts = uniqueContractIds (ofield ''accounts'' snap)
      in \<lparr>sn_accounts = accounts, sn_pending = normalizePending (ofield ''pending'' snap) accounts,
          sn_names = normalizeNames (ofield ''names'' snap)\<rparr>)"

text \<open>The two loops that collect names: over the known accounts, then over every key of the storage.\<close>

definition addStoredName :: "local_storage \<Rightarrow> (string \<times> string) list \<Rightarrow> string \<Rightarrow> (string \<times> string) list" where
  "addStoredName s names contractId =
     (case s (nameKey contractId) of
        Some n \<Rightarrow> if VALID_NAME_RE n then putMember names contractId n else names
      | None \<Rightarrow> names)"

definition addKeyedName :: "local_storage \<Rightarrow> (string \<times> string) list \<Rightarrow> string \<Rightarrow> (string \<times> string) list" where
  "addKeyedName s names key =
     (if \<not> startsWith key (nameKey []) then names
      else (case (normalizeContractId (JStr (drop (length (nameKey [])) key)), s key) of
              (Some c, Some n) \<Rightarrow> if VALID_NAME_RE n then putMember names c n else names
            | _ \<Rightarrow> names))"

definition localNidoSnapshot :: "(local_storage \<Rightarrow> string list) \<Rightarrow> local_storage option \<Rightarrow> snapshot" where
  "localNidoSnapshot keys store =
     (case store of
        None \<Rightarrow> \<lparr>sn_accounts = [], sn_pending = [], sn_names = []\<rparr>
      | Some s \<Rightarrow>
          let accounts = uniqueContractIds (readJsonOrNull (s ACCOUNTS));
              pending = normalizePending (readJsonOrNull (s PENDING)) accounts;
              known = foldl (addStoredName s) [] (accounts @ map fst pending)
          in \<lparr>sn_accounts = accounts, sn_pending = pending, sn_names = foldl (addKeyedName s) known (keys s)\<rparr>)"

definition pendingJson :: "shared_pending \<Rightarrow> json" where
  "pendingJson p = JObj [(''contractId'', JStr (fst p)), (''setupKey'', JStr (snd p))]"

definition namesJson :: "(string \<times> string) list \<Rightarrow> json" where
  "namesJson names = JObj (map (\<lambda>(c, n). (c, JStr n)) names)"

definition snapshotJson :: "snapshot \<Rightarrow> json" where
  "snapshotJson sn = JObj [(''accounts'', JArr (map JStr (sn_accounts sn))),
     (''pending'', JArr (map pendingJson (sn_pending sn))), (''names'', namesJson (sn_names sn))]"

definition stableSnapshot :: "snapshot \<Rightarrow> string" where
  "stableSnapshot sn = stringify (snapshotJson (sn\<lparr>sn_names := sort_key fst (sn_names sn)\<rparr>))"

section \<open>Merging\<close>

definition addPendingById :: "string list \<Rightarrow> shared_pending list \<Rightarrow> shared_pending \<Rightarrow> shared_pending list" where
  "addPendingById active out p = (if fst p \<in> set active \<or> fst p \<in> fst ` set out then out else out @ [p])"

definition mergedSnapshot :: "snapshot \<Rightarrow> snapshot \<Rightarrow> snapshot" where
  "mergedSnapshot before' incoming =
     (let accounts = uniqueContractIds (Some (JArr (map JStr (sn_accounts before' @ sn_accounts incoming))))
      in \<lparr>sn_accounts = accounts,
          sn_pending = foldl (addPendingById accounts) [] (sn_pending before' @ sn_pending incoming),
          sn_names = foldl (\<lambda>names (c, n). putMember names c n) (sn_names before') (sn_names incoming)\<rparr>)"

definition writeSnapshot :: "snapshot \<Rightarrow> local_storage \<Rightarrow> local_storage" where
  "writeSnapshot sn s =
     foldl (\<lambda>s (c, n). setItem (nameKey c) n s)
       (setItem PENDING (stringify (JArr (map pendingJson (sn_pending sn))))
         (setItem ACCOUNTS (stringify (JArr (map JStr (sn_accounts sn)))) s)) (sn_names sn)"

definition mergeNidoSnapshot ::
  "(local_storage \<Rightarrow> string list) \<Rightarrow> json option \<Rightarrow> local_storage option \<Rightarrow> bool \<times> local_storage option" where
  "mergeNidoSnapshot keys incoming store =
     (case store of
        None \<Rightarrow> (False, None)
      | Some s \<Rightarrow>
          let before' = localNidoSnapshot keys store; after' = mergedSnapshot before' (normalizeSnapshot incoming)
          in if stableSnapshot before' = stableSnapshot after' then (False, store)
             else (True, Some (writeSnapshot after' s)))"

section \<open>The bridge\<close>

definition apexHostForHost :: "string \<Rightarrow> string" where
  "apexHostForHost host =
     (case labels host of
        subdomain # p # ps \<Rightarrow>
          let rest = dots (p # ps)
          in (case snd (previewSubdomain subdomain) of
                Some n \<Rightarrow> n @ ''.'' @ rest
              | None \<Rightarrow>
                  if all_digits subdomain then host
                  else (case legacyRoot subdomain of
                          Some n \<Rightarrow> n @ ''.'' @ rest
                        | None \<Rightarrow> if startsWith rest ''localhost'' then rest
                            else if ps \<noteq> [] then rest else host))
      | _ \<Rightarrow> host)"

text \<open>\<open>urlHost\<close> is the \<open>host\<close> of \<open>new URL\<close>, which throws on a text that is no address.\<close>

definition sameNidoApexOrigin :: "(string \<Rightarrow> string option) \<Rightarrow> string \<Rightarrow> string \<Rightarrow> bool" where
  "sameNidoApexOrigin urlHost origin host =
     (case urlHost origin of
        Some h \<Rightarrow> apexHostForHost h = apexHostForHost host
      | None \<Rightarrow> False)"

definition bridgeTarget :: "string \<Rightarrow> string \<Rightarrow> (string \<times> string) option" where
  "bridgeTarget protocol host =
     (let apexHost = apexHostForHost host; origin = protocol @ ''//'' @ apexHost
      in if apexHost = host then None else Some (origin, origin @ ''/nido-storage-bridge/''))"

definition NIDO_STORAGE_REQUEST :: string where
  "NIDO_STORAGE_REQUEST = ''nido:storage:request:v1''"

definition NIDO_STORAGE_RESPONSE :: string where
  "NIDO_STORAGE_RESPONSE = ''nido:storage:response:v1''"

text \<open>The apex: what it answers to a message, if anything.\<close>

definition bridgeAnswer ::
  "(local_storage \<Rightarrow> string list) \<Rightarrow> (string \<Rightarrow> string option) \<Rightarrow> string \<Rightarrow> string \<Rightarrow> json option \<Rightarrow> local_storage option \<Rightarrow>
   (string \<times> json) option \<times> local_storage option" where
  "bridgeAnswer keys urlHost host origin msg store =
     (if \<not> sameNidoApexOrigin urlHost origin host then (None, store)
      else if ofield ''type'' msg \<noteq> Some (JStr NIDO_STORAGE_REQUEST) then (None, store)
      else (case ofield ''id'' msg of
              Some (JStr i) \<Rightarrow>
                let store' = snd (mergeNidoSnapshot keys (ofield ''snapshot'' msg) store)
                in (Some (origin, JObj [(''type'', JStr NIDO_STORAGE_RESPONSE), (''id'', JStr i),
                     (''snapshot'', snapshotJson (localNidoSnapshot keys store'))]), store')
            | _ \<Rightarrow> (None, store)))"

text \<open>The page: what it sends, and what it does with the events until one settles the exchange.\<close>

definition bridgeRequest :: "(local_storage \<Rightarrow> string list) \<Rightarrow> string \<Rightarrow> local_storage option \<Rightarrow> json" where
  "bridgeRequest keys i store =
     JObj [(''type'', JStr NIDO_STORAGE_REQUEST), (''id'', JStr i), (''snapshot'', snapshotJson (localNidoSnapshot keys store))]"

datatype bridge_event = BridgeMessage string "json option" | BridgeTimeout | BridgeFrameError

fun syncEvents ::
  "(local_storage \<Rightarrow> string list) \<Rightarrow> string \<Rightarrow> string \<Rightarrow> bridge_event list \<Rightarrow> local_storage option \<Rightarrow> bool \<times> local_storage option" where
  "syncEvents keys bridgeOrigin i [] store = (False, store)"
| "syncEvents keys bridgeOrigin i (BridgeMessage origin msg # es) store =
     (if origin \<noteq> bridgeOrigin then syncEvents keys bridgeOrigin i es store
      else if ofield ''type'' msg \<noteq> Some (JStr NIDO_STORAGE_RESPONSE) \<or> ofield ''id'' msg \<noteq> Some (JStr i)
      then syncEvents keys bridgeOrigin i es store
      else mergeNidoSnapshot keys (ofield ''snapshot'' msg) store)"
| "syncEvents keys bridgeOrigin i (_ # es) store = (False, store)"

definition syncNidoStorageViaBridge ::
  "(local_storage \<Rightarrow> string list) \<Rightarrow> string \<Rightarrow> string \<Rightarrow> string \<Rightarrow> bridge_event list \<Rightarrow> local_storage option \<Rightarrow>
   bool \<times> local_storage option" where
  "syncNidoStorageViaBridge keys protocol host i events store =
     (case bridgeTarget protocol host of
        None \<Rightarrow> (False, store)
      | Some (origin, _) \<Rightarrow> syncEvents keys origin i events store)"

section \<open>What a snapshot is\<close>

definition canonicalId :: "string \<Rightarrow> bool" where
  "canonicalId c \<longleftrightarrow> isContractId c \<and> toUpperCase c = c"

definition snapshot_ok :: "snapshot \<Rightarrow> bool" where
  "snapshot_ok sn \<longleftrightarrow>
     distinct (sn_accounts sn) \<and> (\<forall>a \<in> set (sn_accounts sn). canonicalId a) \<and>
     distinct (map fst (sn_pending sn)) \<and>
     (\<forall>(c, k) \<in> set (sn_pending sn). canonicalId c \<and> c \<notin> set (sn_accounts sn) \<and> k \<noteq> []) \<and>
     distinct (map fst (sn_names sn)) \<and> (\<forall>(c, n) \<in> set (sn_names sn). canonicalId c \<and> VALID_NAME_RE n)"

lemma normalize_canonical: "normalizeContractId v = Some c \<Longrightarrow> canonicalId c"
  by (auto simp: normalizeContractId_def canonicalId_def split: json.splits if_splits)

lemma normalize_fixed [simp]: "canonicalId c \<Longrightarrow> normalizeContractId (JStr c) = Some c"
  by (auto simp: normalizeContractId_def canonicalId_def)

lemma foldl_invariant: "P a \<Longrightarrow> (\<And>a x. x \<in> set xs \<Longrightarrow> P a \<Longrightarrow> P (f a x)) \<Longrightarrow> P (foldl f a xs)"
  by (induction xs arbitrary: a) auto

definition ids_ok :: "string list \<Rightarrow> bool" where
  "ids_ok out \<longleftrightarrow> distinct out \<and> (\<forall>c \<in> set out. canonicalId c)"

definition pending_ok :: "string list \<Rightarrow> shared_pending list \<Rightarrow> bool" where
  "pending_ok active out \<longleftrightarrow> distinct (map fst out) \<and> (\<forall>(c, k) \<in> set out. canonicalId c \<and> c \<notin> set active \<and> k \<noteq> [])"

definition names_ok :: "(string \<times> string) list \<Rightarrow> bool" where
  "names_ok out \<longleftrightarrow> distinct (map fst out) \<and> (\<forall>(c, n) \<in> set out. canonicalId c \<and> VALID_NAME_RE n)"

lemma snapshot_ok_parts:
  "snapshot_ok sn \<longleftrightarrow> ids_ok (sn_accounts sn) \<and> pending_ok (sn_accounts sn) (sn_pending sn) \<and> names_ok (sn_names sn)"
  by (auto simp: snapshot_ok_def ids_ok_def pending_ok_def names_ok_def)

lemma ids_ok_unique: "ids_ok (uniqueContractIds vs)"
proof -
  have "ids_ok (foldl addContractId [] js)" for js
    by (rule foldl_invariant) (auto simp: ids_ok_def addContractId_def split: option.splits dest: normalize_canonical)
  moreover have "ids_ok []" by (simp add: ids_ok_def)
  ultimately show ?thesis by (simp add: uniqueContractIds_def split: option.split json.split)
qed

lemma setupKeyOf_nonempty: "setupKeyOf v = Some k \<Longrightarrow> k \<noteq> []"
  by (auto simp: setupKeyOf_def split: option.splits json.splits list.splits)

lemma pending_ok_normalized: "pending_ok active (normalizePending vs active)"
proof -
  have "pending_ok active (foldl (addPending active) [] js)" for js
    by (rule foldl_invariant)
      (auto simp: pending_ok_def addPending_def bind_eq_Some_conv split: option.splits dest: normalize_canonical setupKeyOf_nonempty)
  moreover have "pending_ok active []" by (simp add: pending_ok_def)
  ultimately show ?thesis by (simp add: normalizePending_def split: option.split json.split)
qed

lemma names_ok_put: "names_ok out \<Longrightarrow> canonicalId c \<Longrightarrow> VALID_NAME_RE n \<Longrightarrow> names_ok (putMember out c n)"
  using set_putMember_values [of out c n] by (auto simp: names_ok_def distinct_putMember)

lemma names_ok_normalized: "names_ok (normalizeNames vs)"
proof -
  have "names_ok (foldl addName [] kvs)" for kvs
    by (rule foldl_invariant)
      (auto simp: addName_def names_ok_def [of "[]"] split: option.splits json.splits intro!: names_ok_put dest: normalize_canonical)
  moreover have "names_ok []" by (simp add: names_ok_def)
  ultimately show ?thesis by (simp add: normalizeNames_def split: option.split json.split)
qed

lemma normalized_ok: "snapshot_ok (normalizeSnapshot v)"
  by (simp add: snapshot_ok_parts normalizeSnapshot_def Let_def ids_ok_unique pending_ok_normalized names_ok_normalized)

lemma names_ok_stored:
  assumes "\<And>c. c \<in> set cs \<Longrightarrow> canonicalId c"
  shows "names_ok out \<Longrightarrow> names_ok (foldl (addStoredName s) out cs)"
  using assms by (induction cs arbitrary: out) (auto simp: addStoredName_def split: option.splits intro!: names_ok_put)

lemma local_ok: "snapshot_ok (localNidoSnapshot keys store)"
proof (cases store)
  case None
  then show ?thesis by (simp add: localNidoSnapshot_def snapshot_ok_def)
next
  case (Some s)
  let ?acc = "uniqueContractIds (readJsonOrNull (s ACCOUNTS))"
  let ?pend = "normalizePending (readJsonOrNull (s PENDING)) ?acc"
  have ids: "c \<in> set (?acc @ map fst ?pend) \<Longrightarrow> canonicalId c" for c
    using ids_ok_unique [of "readJsonOrNull (s ACCOUNTS)"] pending_ok_normalized [of ?acc "readJsonOrNull (s PENDING)"]
    by (auto simp: ids_ok_def pending_ok_def)
  have "names_ok (foldl (addKeyedName s) (foldl (addStoredName s) [] (?acc @ map fst ?pend)) (keys s))"
  proof (rule foldl_invariant)
    show "names_ok (foldl (addStoredName s) [] (?acc @ map fst ?pend))"
      by (rule names_ok_stored [OF ids]) (simp_all add: names_ok_def)
    show "names_ok out \<Longrightarrow> names_ok (addKeyedName s out k)" for out k
      by (auto simp: addKeyedName_def split: option.splits intro!: names_ok_put dest: normalize_canonical)
  qed
  then show ?thesis
    by (simp add: Some localNidoSnapshot_def Let_def snapshot_ok_parts ids_ok_unique pending_ok_normalized)
qed

section \<open>Reading back what was written\<close>

lemma unique_typed:
  assumes "\<forall>x \<in> set xs. canonicalId x" "distinct xs"
  shows "foldl addContractId out (map JStr xs) = out @ filter (\<lambda>x. x \<notin> set out) xs"
  using assms
proof (induction xs arbitrary: out)
  case (Cons x xs)
  have "filter (\<lambda>y. y \<notin> set (out @ [x])) xs = filter (\<lambda>y. y \<notin> set out) xs"
    using Cons.prems(2) by (auto intro: filter_cong)
  with Cons show ?case by (auto simp: addContractId_def)
qed simp

lemma unique_ids: "ids_ok xs \<Longrightarrow> uniqueContractIds (Some (JArr (map JStr xs))) = xs"
  using unique_typed [of xs "[]"] by (simp add: uniqueContractIds_def ids_ok_def)

lemma unique_two:
  assumes "ids_ok xs" "ids_ok ys"
  shows "uniqueContractIds (Some (JArr (map JStr (xs @ ys)))) = xs @ filter (\<lambda>y. y \<notin> set xs) ys"
  using assms unique_typed [of xs "[]"] unique_typed [of ys xs] by (simp add: uniqueContractIds_def ids_ok_def)

lemma pending_read:
  assumes "pending_ok active ps" "\<forall>(c, k) \<in> set ps. c \<notin> fst ` set out"
  shows "foldl (addPending active) out (map pendingJson ps) = out @ ps"
  using assms
proof (induction ps arbitrary: out)
  case (Cons p ps)
  obtain c k where p: "p = (c, k)" by fastforce
  with Cons.prems have k: "k \<noteq> []" "canonicalId c" "c \<notin> set active" "c \<notin> fst ` set out" by (auto simp: pending_ok_def)
  then have "addPending active out (pendingJson p) = out @ [p]"
    by (auto simp: p addPending_def pendingJson_def setupKeyOf_def neq_Nil_conv)
  moreover have "pending_ok active ps" "\<forall>(c, k) \<in> set ps. c \<notin> fst ` set (out @ [p])"
    using Cons.prems p by (auto simp: pending_ok_def image_iff)
  ultimately show ?case using Cons.IH [of "out @ [p]"] by simp
qed simp

lemma names_read:
  "names_ok ns \<Longrightarrow> foldl addName out (map (\<lambda>(c, n). (c, JStr n)) ns) = foldl (\<lambda>names (c, n). putMember names c n) out ns"
  by (induction ns arbitrary: out) (auto simp: names_ok_def addName_def)

lemma map_of_puts: "distinct (map fst ns) \<Longrightarrow> map_of (foldl (\<lambda>names (c, n). putMember names c n) out ns) = map_of out ++ map_of ns"
proof (induction ns arbitrary: out)
  case (Cons p ns)
  obtain c n where p: "p = (c, n)" by fastforce
  with Cons.prems have "c \<notin> dom (map_of ns)" by (auto simp: dom_map_of_conv_image_fst)
  then have "(map_of out)(c \<mapsto> n) ++ map_of ns = (map_of out ++ map_of ns)(c \<mapsto> n)" by (rule map_add_upd_left)
  with Cons p show ?case by (simp add: map_of_putMember del: fun_upd_apply)
qed simp

lemma puts_new:
  assumes "distinct (map fst ns)" "\<forall>(c, n) \<in> set ns. c \<notin> fst ` set out"
  shows "foldl (\<lambda>names (c, n). putMember names c n) out ns = out @ ns"
  using assms
proof (induction ns arbitrary: out)
  case (Cons p ns)
  obtain c n where p: "p = (c, n)" by fastforce
  with Cons.prems have "putMember out c n = out @ [(c, n)]" by (intro putMember_new) auto
  moreover have "\<forall>(d, m) \<in> set ns. d \<notin> fst ` set (out @ [(c, n)])"
    using Cons.prems p by (auto simp: image_iff)
  ultimately show ?case using Cons p by simp
qed simp

text \<open>A snapshot that is sent arrives as it was.\<close>

lemma snapshot_received: "snapshot_ok sn \<Longrightarrow> normalizeSnapshot (Some (snapshotJson sn)) = sn"
  unfolding snapshot_ok_parts
  using pending_read [of "sn_accounts sn" "sn_pending sn" "[]"] names_read [of "sn_names sn" "[]"] puts_new [of "sn_names sn" "[]"]
  by (auto simp: normalizeSnapshot_def snapshotJson_def ofield_def unique_ids normalizePending_def normalizeNames_def namesJson_def
      names_ok_def Let_def)

section \<open>The abstract list\<close>

text \<open>
  What a storage means: its accounts, its pending entries, and a name for some identifiers.
  Absorbing another list adds its accounts at the end, drops the pending entries of accounts that
  are active in either, and lets its names win.
\<close>

type_synonym shared_list = "string list \<times> shared_pending list \<times> (string \<rightharpoonup> string)"

definition view :: "snapshot \<Rightarrow> shared_list" where
  "view sn = (sn_accounts sn, sn_pending sn, map_of (sn_names sn))"

definition absorb :: "shared_list \<Rightarrow> shared_list \<Rightarrow> shared_list" where
  "absorb x y = (case x of (A, P, N) \<Rightarrow> case y of (A', P', N') \<Rightarrow>
     let B = A @ filter (\<lambda>a. a \<notin> set A) A'
     in (B, filter (\<lambda>p. fst p \<notin> set B) P @ filter (\<lambda>p. fst p \<notin> set B \<and> fst p \<notin> fst ` set P) P', N ++ N'))"

text \<open>A storage in which every key of a name carries an identifier as the program writes it.\<close>

definition tidy :: "local_storage \<Rightarrow> bool" where
  "tidy s \<longleftrightarrow> (\<forall>i c. s (nameKey i) \<noteq> None \<longrightarrow> normalizeContractId (JStr i) = Some c \<longrightarrow> c = i)"

definition nameIn :: "local_storage \<Rightarrow> string \<rightharpoonup> string" where
  "nameIn s c = (if canonicalId c then Option.bind (s (nameKey c)) (\<lambda>n. if VALID_NAME_RE n then Some n else None) else None)"

definition lists_keys :: "(local_storage \<Rightarrow> string list) \<Rightarrow> bool" where
  "lists_keys keys \<longleftrightarrow> (\<forall>s. finite (dom s) \<longrightarrow> set (keys s) = dom s)"

lemma nameKey_inj [simp]: "nameKey i = nameKey j \<longleftrightarrow> i = j"
  by (simp add: nameKey_def)

lemma nameKey_prefix [simp]: "startsWith (nameKey i) (nameKey [])" "drop (length (nameKey [])) (nameKey i) = i"
  by (simp_all add: nameKey_def startsWith_def)

lemma nameKey_other [simp]: "nameKey c \<noteq> ACCOUNTS" "nameKey c \<noteq> PENDING" "ACCOUNTS \<noteq> nameKey c" "PENDING \<noteq> nameKey c"
  "ACCOUNTS \<noteq> PENDING" "PENDING \<noteq> ACCOUNTS"
  by (simp_all add: nameKey_def ACCOUNTS_def PENDING_def)

lemma keyed_name:
  assumes "tidy s"
  shows "map_of (addKeyedName s out k) = (\<lambda>c. if k = nameKey c \<and> nameIn s c \<noteq> None then nameIn s c else map_of out c)"
proof (cases "startsWith k (nameKey []) \<and> s k \<noteq> None")
  case True
  then obtain i n where k: "k = nameKey i" "s (nameKey i) = Some n" by (auto simp: startsWith_iff nameKey_def)
  show ?thesis
  proof (cases "normalizeContractId (JStr i)")
    case None
    then have "\<not> canonicalId i" by auto
    with None k show ?thesis by (auto simp: addKeyedName_def nameIn_def fun_eq_iff)
  next
    case (Some c)
    with assms k have "c = i" by (auto simp: tidy_def)
    with Some k normalize_canonical [OF Some] show ?thesis
      by (auto simp: addKeyedName_def nameIn_def map_of_putMember fun_eq_iff)
  qed
next
  case False
  then have "addKeyedName s out k = out" by (auto simp: addKeyedName_def split: option.split)
  moreover have "k = nameKey c \<Longrightarrow> nameIn s c = None" for c
    using False by (auto simp: nameIn_def)
  ultimately show ?thesis by (auto simp: fun_eq_iff)
qed

lemma keyed_names:
  assumes "tidy s"
  shows "map_of (foldl (addKeyedName s) out ks) =
    (\<lambda>c. if nameKey c \<in> set ks \<and> nameIn s c \<noteq> None then nameIn s c else map_of out c)"
  by (induction ks arbitrary: out) (auto simp: keyed_name [OF assms] fun_eq_iff)

lemma stored_names:
  assumes "\<And>c. c \<in> set cs \<Longrightarrow> canonicalId c"
  shows "map_of out \<subseteq>\<^sub>m nameIn s \<Longrightarrow> map_of (foldl (addStoredName s) out cs) \<subseteq>\<^sub>m nameIn s"
  using assms
proof (induction cs arbitrary: out)
  case (Cons c cs)
  then have "map_of (addStoredName s out c) \<subseteq>\<^sub>m nameIn s"
    by (auto simp: addStoredName_def map_of_putMember map_le_def nameIn_def split: option.split)
  with Cons show ?case by simp
qed simp

lemma map_le_None: "f \<subseteq>\<^sub>m g \<Longrightarrow> g c = None \<Longrightarrow> f c = None"
  by (cases "f c") (auto simp: map_le_def dom_def)

lemma local_names:
  assumes "tidy s" "lists_keys keys" "finite (dom s)"
  shows "map_of (sn_names (localNidoSnapshot keys (Some s))) = nameIn s"
proof -
  let ?acc = "uniqueContractIds (readJsonOrNull (s ACCOUNTS))"
  let ?pend = "normalizePending (readJsonOrNull (s PENDING)) ?acc"
  have "c \<in> set (?acc @ map fst ?pend) \<Longrightarrow> canonicalId c" for c
    using ids_ok_unique [of "readJsonOrNull (s ACCOUNTS)"] pending_ok_normalized [of ?acc "readJsonOrNull (s PENDING)"]
    by (auto simp: ids_ok_def pending_ok_def)
  moreover have "map_of [] \<subseteq>\<^sub>m nameIn s" by (simp add: map_le_def)
  ultimately have le: "map_of (foldl (addStoredName s) [] (?acc @ map fst ?pend)) \<subseteq>\<^sub>m nameIn s"
    by (intro stored_names) auto
  have listed: "nameIn s c \<noteq> None \<Longrightarrow> nameKey c \<in> set (keys s)" for c
    using assms(2,3) by (auto simp: lists_keys_def nameIn_def bind_eq_Some_conv split: if_splits)
  note known = map_le_None [OF le]
  show ?thesis
  proof
    fix c
    show "map_of (sn_names (localNidoSnapshot keys (Some s))) c = nameIn s c"
      using listed [of c] known [of c]
      by (cases "nameIn s c") (simp_all add: localNidoSnapshot_def Let_def keyed_names [OF assms(1)])
  qed
qed

section \<open>Merging refines absorbing\<close>

lemma pending_fold:
  "distinct (map fst ps) \<Longrightarrow>
     foldl (addPendingById B) out ps = out @ filter (\<lambda>p. fst p \<notin> set B \<and> fst p \<notin> fst ` set out) ps"
proof (induction ps arbitrary: out)
  case (Cons p ps)
  have "filter (\<lambda>q. fst q \<notin> set B \<and> fst q \<notin> fst ` set (out @ [p])) ps = filter (\<lambda>q. fst q \<notin> set B \<and> fst q \<notin> fst ` set out) ps"
    using Cons.prems by (intro filter_cong) (auto simp: image_iff)
  with Cons show ?case by (auto simp: addPendingById_def)
qed simp

lemma merged_view:
  assumes "snapshot_ok a" "snapshot_ok b"
  shows "view (mergedSnapshot a b) = absorb (view a) (view b)"
proof -
  have "ids_ok (sn_accounts a)" "ids_ok (sn_accounts b)" "distinct (map fst (sn_pending a))" "distinct (map fst (sn_pending b))"
    "distinct (map fst (sn_names b))"
    using assms by (auto simp: snapshot_ok_def ids_ok_def)
  note parts = this
  let ?B = "sn_accounts a @ filter (\<lambda>y. y \<notin> set (sn_accounts a)) (sn_accounts b)"
  have "fst ` set (filter (\<lambda>p. fst p \<notin> set ?B) (sn_pending a)) = fst ` set (sn_pending a) - set ?B" by auto
  then have "foldl (addPendingById ?B) [] (sn_pending a @ sn_pending b) =
      filter (\<lambda>p. fst p \<notin> set ?B) (sn_pending a) @ filter (\<lambda>p. fst p \<notin> set ?B \<and> fst p \<notin> fst ` set (sn_pending a)) (sn_pending b)"
    using parts by (simp add: pending_fold) (auto intro!: filter_cong)
  then show ?thesis
    using unique_two [OF parts(1,2)] by (simp add: view_def absorb_def mergedSnapshot_def Let_def map_of_puts parts(5))
qed

lemma pending_ok_fold:
  "pending_ok B out \<Longrightarrow> \<forall>(c, k) \<in> set ps. canonicalId c \<and> k \<noteq> [] \<Longrightarrow> pending_ok B (foldl (addPendingById B) out ps)"
  by (rule foldl_invariant) (auto simp: addPendingById_def pending_ok_def)

lemma names_ok_puts:
  "names_ok out \<Longrightarrow> \<forall>(c, n) \<in> set ns. canonicalId c \<and> VALID_NAME_RE n \<Longrightarrow>
   names_ok (foldl (\<lambda>names (c, n). putMember names c n) out ns)"
  by (induction ns arbitrary: out) (auto simp: names_ok_put)

lemma merged_ok:
  assumes "snapshot_ok a" "snapshot_ok b"
  shows "snapshot_ok (mergedSnapshot a b)"
proof -
  have "\<forall>(c, k) \<in> set (sn_pending a @ sn_pending b). canonicalId c \<and> k \<noteq> []" using assms by (auto simp: snapshot_ok_def)
  from pending_ok_fold [OF _ this] have "pending_ok B (foldl (addPendingById B) [] (sn_pending a @ sn_pending b))" for B
    by (rule meta_mp) (simp only: pending_ok_def, simp)
  moreover have "names_ok (foldl (\<lambda>names (c, n). putMember names c n) (sn_names a) (sn_names b))"
    using assms by (intro names_ok_puts) (auto simp: snapshot_ok_def names_ok_def)
  ultimately show ?thesis by (simp add: snapshot_ok_parts mergedSnapshot_def Let_def ids_ok_unique)
qed

abbreviation writeNames :: "local_storage \<Rightarrow> (string \<times> string) list \<Rightarrow> local_storage" where
  "writeNames \<equiv> foldl (\<lambda>s (c, n). setItem (nameKey c) n s)"

lemma written_other: "(\<And>c. k \<noteq> nameKey c) \<Longrightarrow> writeNames s ns k = s k"
  by (induction ns arbitrary: s) (auto simp: setItem_def)

lemma written_names:
  "distinct (map fst ns) \<Longrightarrow> writeNames s ns (nameKey c) = (case map_of ns c of Some n \<Rightarrow> Some n | None \<Rightarrow> s (nameKey c))"
proof (induction ns arbitrary: s)
  case (Cons p ns)
  obtain d n where p: "p = (d, n)" by fastforce
  have "map_of ns d = None" using Cons.prems p by (auto simp: map_of_eq_None_iff)
  with Cons p show ?case by (auto simp: setItem_def split: option.split)
qed simp

lemma read_written:
  assumes "snapshot_ok sn"
  shows "readJsonOrNull (writeSnapshot sn s ACCOUNTS) = Some (JArr (map JStr (sn_accounts sn)))"
    and "readJsonOrNull (writeSnapshot sn s PENDING) = Some (JArr (map pendingJson (sn_pending sn)))"
proof -
  have w: "writeNames s ns ACCOUNTS = s ACCOUNTS" "writeNames s ns PENDING = s PENDING" for s ns
    by (simp_all add: written_other)
  have "readJsonOrNull (Some (stringify j)) = Some j" if "wf_json j" for j
    using json_round_trip [OF that] by (cases "stringify j") (auto simp: readJsonOrNull_def)
  moreover have "wf_json (JArr (map JStr (sn_accounts sn)))" "wf_json (JArr (map pendingJson (sn_pending sn)))"
    by (auto simp: list_all_iff pendingJson_def)
  ultimately show "readJsonOrNull (writeSnapshot sn s ACCOUNTS) = Some (JArr (map JStr (sn_accounts sn)))"
    "readJsonOrNull (writeSnapshot sn s PENDING) = Some (JArr (map pendingJson (sn_pending sn)))"
    by (simp_all add: writeSnapshot_def w) (simp_all add: setItem_def)
qed

lemma write_names:
  assumes "snapshot_ok sn"
  shows "writeSnapshot sn s (nameKey c) = (case map_of (sn_names sn) c of Some n \<Rightarrow> Some n | None \<Rightarrow> s (nameKey c))"
proof -
  have "distinct (map fst (sn_names sn))" using assms by (simp add: snapshot_ok_def)
  from written_names [OF this] show ?thesis
    by (simp add: writeSnapshot_def) (simp add: setItem_def split: option.split)
qed

lemma name_in_ok: "snapshot_ok sn \<Longrightarrow> map_of (sn_names sn) c = Some n \<Longrightarrow> canonicalId c \<and> VALID_NAME_RE n"
  by (auto simp: snapshot_ok_def dest: map_of_SomeD)

lemma write_tidy: "snapshot_ok sn \<Longrightarrow> tidy s \<Longrightarrow> tidy (writeSnapshot sn s)"
  using name_in_ok [of sn] by (auto simp: tidy_def write_names split: option.splits)

lemma write_finite: "snapshot_ok sn \<Longrightarrow> finite (dom s) \<Longrightarrow> finite (dom (writeSnapshot sn s))"
  unfolding writeSnapshot_def
  by (rule foldl_invariant [where P = "\<lambda>s. finite (dom s)"]) (simp_all add: setItem_def prod.case_eq_if)

lemma write_view:
  assumes "snapshot_ok sn" "tidy s" "lists_keys keys" "finite (dom s)"
    and keep: "\<And>c n. nameIn s c = Some n \<Longrightarrow> map_of (sn_names sn) c \<noteq> None"
  shows "view (localNidoSnapshot keys (Some (writeSnapshot sn s))) = view sn"
proof -
  have parts: "ids_ok (sn_accounts sn)" "pending_ok (sn_accounts sn) (sn_pending sn)"
    using assms(1) by (simp_all add: snapshot_ok_parts)
  have "nameIn (writeSnapshot sn s) c = map_of (sn_names sn) c" for c
  proof (cases "map_of (sn_names sn) c")
    case None
    with keep [of c] have "nameIn s c = None" by (cases "nameIn s c") auto
    with None show ?thesis by (auto simp: nameIn_def write_names [OF assms(1)])
  next
    case (Some n)
    with name_in_ok [OF assms(1) Some] show ?thesis by (simp add: nameIn_def write_names [OF assms(1)])
  qed
  then have "map_of (sn_names (localNidoSnapshot keys (Some (writeSnapshot sn s)))) = map_of (sn_names sn)"
    using assms by (simp add: local_names write_tidy write_finite fun_eq_iff)
  moreover have "normalizePending (Some (JArr (map pendingJson (sn_pending sn)))) (sn_accounts sn) = sn_pending sn"
    using pending_read [OF parts(2), of "[]"] by (simp add: normalizePending_def)
  ultimately show ?thesis
    by (simp add: view_def localNidoSnapshot_def Let_def read_written [OF assms(1)] unique_ids [OF parts(1)])
qed

lemma stringify_inj: "wf_json a \<Longrightarrow> wf_json b \<Longrightarrow> stringify a = stringify b \<longleftrightarrow> a = b"
  by (metis json_round_trip sum.inject(2))

lemma stable_iff:
  assumes "snapshot_ok a" "snapshot_ok b"
  shows "stableSnapshot a = stableSnapshot b \<longleftrightarrow> view a = view b"
proof -
  let ?sort = "\<lambda>sn. sn\<lparr>sn_names := sort_key fst (sn_names sn)\<rparr>"
  have wf: "wf_json (snapshotJson (?sort sn))" if "snapshot_ok sn" for sn
  proof -
    have "distinct (map fst (sort_key fst (sn_names sn)))"
      using that by (simp add: snapshot_ok_def distinct_map)
    then have "wf_json (namesJson (sort_key fst (sn_names sn)))"
      by (simp add: namesJson_def comp_def case_prod_unfold list_all_iff)
    moreover have "wf_json (JArr (map JStr (sn_accounts sn)))" "wf_json (JArr (map pendingJson (sn_pending sn)))"
      by (auto simp: list_all_iff pendingJson_def)
    ultimately show ?thesis by (simp add: snapshotJson_def)
  qed
  have "stableSnapshot a = stableSnapshot b \<longleftrightarrow> snapshotJson (?sort a) = snapshotJson (?sort b)"
    unfolding stableSnapshot_def by (rule stringify_inj [OF wf wf]) (fact assms)+
  also have "\<dots> \<longleftrightarrow> sn_accounts a = sn_accounts b \<and> sn_pending a = sn_pending b \<and>
      sort_key fst (sn_names a) = sort_key fst (sn_names b)"
    by (auto simp: snapshotJson_def namesJson_def pendingJson_def inj_map_eq_map inj_def)
  also have "sort_key fst (sn_names a) = sort_key fst (sn_names b) \<longleftrightarrow> map_of (sn_names a) = map_of (sn_names b)"
  proof
    assume "sort_key fst (sn_names a) = sort_key fst (sn_names b)"
    then have "set (sn_names a) = set (sn_names b)" by (metis set_sort)
    then show "map_of (sn_names a) = map_of (sn_names b)" using assms by (simp add: snapshot_ok_def map_of_inject_set)
  next
    assume "map_of (sn_names a) = map_of (sn_names b)"
    then have s: "set (sn_names a) = set (sn_names b)" using assms by (simp add: snapshot_ok_def map_of_inject_set)
    have d: "distinct (sn_names a)" "distinct (sn_names b)" "inj_on fst (set (sn_names a))"
      using assms by (auto simp: snapshot_ok_def distinct_map)
    have "mset (sn_names a) = mset (sn_names b)" using s d by (simp add: set_eq_iff_mset_eq_distinct)
    with d(3) show "sort_key fst (sn_names a) = sort_key fst (sn_names b)"
      by (intro sort_key_inj_key_eq [of _ "sort_key fst (sn_names b)"]) simp_all
  qed
  finally show ?thesis by (simp add: view_def)
qed

lemma absorbed_names: "snd (snd (absorb x y)) = snd (snd x) ++ snd (snd y)"
  by (cases x; cases y) (simp add: absorb_def Let_def)

lemma absorb_eq:
  "B = A @ filter (\<lambda>a. a \<notin> set A) A' \<Longrightarrow> absorb (A, P, N) (A', P', N') =
     (B, filter (\<lambda>p. fst p \<notin> set B) P @ filter (\<lambda>p. fst p \<notin> set B \<and> fst p \<notin> fst ` set P) P', N ++ N')"
  by (simp add: absorb_def)

lemma absorb_idem: "absorb (absorb x y) y = absorb x y"
proof -
  obtain A P N A' P' N' where xy: "x = (A, P, N)" "y = (A', P', N')" by (metis surj_pair)
  define B where "B = A @ filter (\<lambda>a. a \<notin> set A) A'"
  define R where "R = filter (\<lambda>p. fst p \<notin> set B) P @ filter (\<lambda>p. fst p \<notin> set B \<and> fst p \<notin> fst ` set P) P'"
  have "absorb x y = (B, R, N ++ N')" unfolding xy R_def by (rule absorb_eq [OF B_def])
  moreover have "filter (\<lambda>a. a \<notin> set B) A' = []" by (auto simp: B_def filter_empty_conv)
  moreover have "filter (\<lambda>p. fst p \<notin> set B) R = R" by (rule filter_True) (auto simp: R_def)
  moreover have "filter (\<lambda>p. fst p \<notin> set B \<and> fst p \<notin> fst ` set R) P' = []"
  proof (rule filter_False, rule ballI, rule notI)
    fix p
    assume p: "p \<in> set P'" "fst p \<notin> set B \<and> fst p \<notin> fst ` set R"
    show False
    proof (cases "fst p \<in> fst ` set P")
      case True
      then obtain p' where "p' \<in> set P" "fst p' = fst p" by force
      with p have "p' \<in> set R" by (simp add: R_def)
      with p \<open>fst p' = fst p\<close> show False by (metis imageI)
    next
      case False
      with p have "p \<in> set R" by (simp add: R_def)
      with p show False by simp
    qed
  qed
  moreover have "(N ++ N') ++ N' = N ++ N'" by (auto simp: map_add_def fun_eq_iff split: option.split)
  ultimately show ?thesis using absorb_eq [of B B A' R "N ++ N'" P' N'] by (simp add: xy)
qed

lemma merge_view:
  assumes "tidy s" "lists_keys keys" "finite (dom s)"
    and m: "mergeNidoSnapshot keys v (Some s) = (changed, store')"
  shows "\<exists>s'. store' = Some s' \<and> tidy s' \<and> finite (dom s') \<and>
    view (localNidoSnapshot keys (Some s')) = absorb (view (localNidoSnapshot keys (Some s))) (view (normalizeSnapshot v)) \<and>
    (changed \<longleftrightarrow> view (localNidoSnapshot keys (Some s')) \<noteq> view (localNidoSnapshot keys (Some s))) \<and> (\<not> changed \<longrightarrow> s' = s)"
proof -
  let ?a = "localNidoSnapshot keys (Some s)" and ?b = "normalizeSnapshot v"
  let ?m = "mergedSnapshot ?a ?b"
  have ok: "snapshot_ok ?a" "snapshot_ok ?b" "snapshot_ok ?m"
    by (simp_all add: local_ok normalized_ok merged_ok)
  have v: "view ?m = absorb (view ?a) (view ?b)" by (rule merged_view [OF ok(1,2)])
  have "map_of (sn_names ?m) = nameIn s ++ map_of (sn_names ?b)"
    using arg_cong [OF v, of "\<lambda>x. snd (snd x)"] local_names [OF assms(1-3)] by (simp add: absorbed_names) (simp add: view_def)
  then have "nameIn s c = Some n \<Longrightarrow> map_of (sn_names ?m) c \<noteq> None" for c n
    by (auto simp: map_add_def split: option.split)
  then have w: "view (localNidoSnapshot keys (Some (writeSnapshot ?m s))) = view ?m"
    by (rule write_view [OF ok(3) assms(1-3)])
  show ?thesis
  proof (cases "stableSnapshot ?a = stableSnapshot ?m")
    case True
    with m assms v stable_iff [OF ok(1,3)] show ?thesis by (auto simp: mergeNidoSnapshot_def)
  next
    case False
    with m v w stable_iff [OF ok(1,3)] write_tidy [OF ok(3) assms(1)] write_finite [OF ok(3) assms(3)] show ?thesis
      by (auto simp: mergeNidoSnapshot_def Let_def)
  qed
qed

text \<open>
  C12. Merging a list into the storage is absorbing it into the list the storage means: whatever was
  received, malformed or not, the storage afterwards means the old list with the valid part of the
  new one absorbed, its accounts and pending entries stay well formed and apart, the result says
  whether anything changed, nothing is written when it did not, and merging the same list again
  changes nothing.
\<close>

theorem merge_refines_absorb:
  assumes "tidy s" "lists_keys keys" "finite (dom s)"
    and "mergeNidoSnapshot keys v (Some s) = (changed, store')"
  shows "\<exists>s'. store' = Some s' \<and> snapshot_ok (localNidoSnapshot keys store') \<and>
    view (localNidoSnapshot keys store') = absorb (view (localNidoSnapshot keys (Some s))) (view (normalizeSnapshot v)) \<and>
    (changed \<longleftrightarrow> view (localNidoSnapshot keys store') \<noteq> view (localNidoSnapshot keys (Some s))) \<and>
    (\<not> changed \<longrightarrow> s' = s) \<and> mergeNidoSnapshot keys v store' = (False, store')"
proof -
  from merge_view [OF assms] obtain s' where s': "store' = Some s'" "tidy s'" "finite (dom s')"
    "view (localNidoSnapshot keys (Some s')) = absorb (view (localNidoSnapshot keys (Some s))) (view (normalizeSnapshot v))"
    "changed \<longleftrightarrow> view (localNidoSnapshot keys (Some s')) \<noteq> view (localNidoSnapshot keys (Some s))" "\<not> changed \<longrightarrow> s' = s" by blast
  obtain c2 st2 where m2: "mergeNidoSnapshot keys v (Some s') = (c2, st2)" by fastforce
  from merge_view [OF s'(2) assms(2) s'(3) m2] s'(4) have "\<not> c2" "st2 = Some s'"
    by (auto simp: absorb_idem)
  with m2 s' show ?thesis by (simp add: local_ok)
qed

text \<open>A storage with a name under its own key, and a received list with a stray entry and an account.\<close>

definition id_of_letter :: "char \<Rightarrow> string" where
  "id_of_letter c = CHR ''C'' # replicate 55 c"

definition sample_store :: local_storage where
  "sample_store = [nameKey (id_of_letter CHR ''A'') \<mapsto> ''alpha'']"

definition sample_keys :: "local_storage \<Rightarrow> string list" where
  "sample_keys s = sorted_list_of_set (dom s)"

definition received :: json where
  "received = JObj [(''accounts'', JArr [JNum 1, JStr (id_of_letter CHR ''B'')])]"

lemma sample_lists: "lists_keys sample_keys"
  by (simp add: lists_keys_def sample_keys_def)

lemma sample_tidy: "tidy sample_store" "finite (dom sample_store)"
proof -
  have "normalizeContractId (JStr (id_of_letter CHR ''A'')) = Some (id_of_letter CHR ''A'')" by code_simp
  then show "tidy sample_store" by (auto simp: tidy_def sample_store_def)
qed (simp add: sample_store_def)

lemma sample_view: "fst (view (normalizeSnapshot (Some received))) = [id_of_letter CHR ''B'']"
  "fst (view (localNidoSnapshot keys (Some sample_store))) = []"
proof -
  show "fst (view (normalizeSnapshot (Some received))) = [id_of_letter CHR ''B'']" by code_simp
  show "fst (view (localNidoSnapshot keys (Some sample_store))) = []"
    by (simp add: view_def localNidoSnapshot_def sample_store_def Let_def readJsonOrNull_def uniqueContractIds_def)
qed

theorem merge_refines_absorb_witness:
  "\<exists>s'. mergeNidoSnapshot sample_keys (Some received) (Some sample_store) = (True, Some s') \<and>
     sn_accounts (localNidoSnapshot sample_keys (Some s')) = [id_of_letter CHR ''B''] \<and>
     mergeNidoSnapshot sample_keys (Some received) (Some s') = (False, Some s')"
proof -
  obtain changed st where m: "mergeNidoSnapshot sample_keys (Some received) (Some sample_store) = (changed, st)" by fastforce
  from merge_refines_absorb [OF sample_tidy(1) sample_lists sample_tidy(2) m]
  obtain s' where s': "st = Some s'" "mergeNidoSnapshot sample_keys (Some received) st = (False, st)"
    "view (localNidoSnapshot sample_keys st) = absorb (view (localNidoSnapshot sample_keys (Some sample_store))) (view (normalizeSnapshot (Some received)))"
    "changed \<longleftrightarrow> view (localNidoSnapshot sample_keys st) \<noteq> view (localNidoSnapshot sample_keys (Some sample_store))" by blast
  have "fst (absorb x y) = fst x @ filter (\<lambda>a. a \<notin> set (fst x)) (fst y)" for x y
    by (cases x; cases y) (simp add: absorb_def Let_def)
  then have a: "fst (view (localNidoSnapshot sample_keys st)) = [id_of_letter CHR ''B'']"
    using s'(3) by (simp add: sample_view)
  with s'(4) have changed by (metis list.distinct(1) sample_view(2))
  moreover have "sn_accounts (localNidoSnapshot sample_keys (Some s')) = [id_of_letter CHR ''B'']"
    using a s'(1) by (simp add: view_def)
  ultimately show ?thesis using m s'(1,2) by auto
qed

section \<open>The exchange with the apex\<close>

lemma absorb_accounts: "set (fst (absorb x y)) = set (fst x) \<union> set (fst y)"
  by (cases x; cases y) (auto simp: absorb_def Let_def)

lemma absorb_pending:
  "fst ` set (fst (snd (absorb x y))) = fst ` set (fst (snd x)) \<union> fst ` set (fst (snd y)) - set (fst x) - set (fst y)"
proof -
  obtain A P N A' P' N' where xy: "x = (A, P, N)" "y = (A', P', N')" by (metis surj_pair)
  define B where "B = A @ filter (\<lambda>a. a \<notin> set A) A'"
  have "fst ` {p \<in> X. fst p \<notin> Y} = fst ` X - Y" for X :: "shared_pending set" and Y by auto
  from this [of "set P" "set B"] this [of "set P'" "set B \<union> fst ` set P"] show ?thesis
    by (auto simp: xy absorb_eq [OF B_def] image_Un conj_disj_distribL B_def)
qed

text \<open>Messages of other frames, and answers to other requests, do not settle the exchange.\<close>

definition ignored :: "string \<Rightarrow> string \<Rightarrow> bridge_event \<Rightarrow> bool" where
  "ignored bridgeOrigin i e =
     (case e of
        BridgeMessage origin msg \<Rightarrow> origin \<noteq> bridgeOrigin \<or> ofield ''type'' msg \<noteq> Some (JStr NIDO_STORAGE_RESPONSE) \<or>
          ofield ''id'' msg \<noteq> Some (JStr i)
      | _ \<Rightarrow> False)"

lemma sync_ignored: "list_all (ignored o' i) noise \<Longrightarrow> syncEvents keys o' i (noise @ es) store = syncEvents keys o' i es store"
  by (induction noise) (auto simp: ignored_def split: bridge_event.splits)

lemma fields_of_answer [simp]:
  "ofield ''type'' (Some (JObj [(''type'', a), (''id'', b), (''snapshot'', c)])) = Some a"
  "ofield ''id'' (Some (JObj [(''type'', a), (''id'', b), (''snapshot'', c)])) = Some b"
  "ofield ''snapshot'' (Some (JObj [(''type'', a), (''id'', b), (''snapshot'', c)])) = Some c"
  by (simp_all add: ofield_def)

lemma received_view: "view (normalizeSnapshot (Some (snapshotJson (localNidoSnapshot keys store)))) = view (localNidoSnapshot keys store)"
  by (simp add: snapshot_received local_ok)

text \<open>
  The exchange makes the two storages agree: when a page of an account has sent its list to the
  apex and the apex has answered, whatever messages of other frames came in between, both list
  the same accounts, namely those that either listed, the same accounts as pending, and the same
  names, the page's own winning.
\<close>

theorem exchange_converges:
  assumes "tidy a" "finite (dom a)" "tidy c" "finite (dom c)" "lists_keys keys"
    and "bridgeTarget protocol host = Some (origin, url)" "apexHostForHost (apexHostForHost host) = apexHostForHost host"
    and "urlHost pageOrigin = Some host"
    and "bridgeAnswer keys urlHost (apexHostForHost host) pageOrigin (Some (bridgeRequest keys i (Some c))) (Some a) = (answer, store')"
    and "list_all (ignored origin i) noise"
  shows "\<exists>msg a' c' changed. answer = Some (pageOrigin, msg) \<and> store' = Some a' \<and>
    syncNidoStorageViaBridge keys protocol host i (noise @ [BridgeMessage origin (Some msg)]) (Some c) = (changed, Some c') \<and>
    set (sn_accounts (localNidoSnapshot keys (Some c'))) = set (sn_accounts (localNidoSnapshot keys (Some a'))) \<and>
    set (sn_accounts (localNidoSnapshot keys (Some c'))) =
      set (sn_accounts (localNidoSnapshot keys (Some c))) \<union> set (sn_accounts (localNidoSnapshot keys (Some a))) \<and>
    fst ` set (sn_pending (localNidoSnapshot keys (Some c'))) = fst ` set (sn_pending (localNidoSnapshot keys (Some a'))) \<and>
    map_of (sn_names (localNidoSnapshot keys (Some c'))) = map_of (sn_names (localNidoSnapshot keys (Some a'))) \<and>
    map_of (sn_names (localNidoSnapshot keys (Some c'))) =
      map_of (sn_names (localNidoSnapshot keys (Some a))) ++ map_of (sn_names (localNidoSnapshot keys (Some c)))"
proof -
  let ?view = "\<lambda>s. view (localNidoSnapshot keys (Some s))"
  have same: "sameNidoApexOrigin urlHost pageOrigin (apexHostForHost host)"
    using assms(7,8) by (simp add: sameNidoApexOrigin_def)
  obtain ch st where m: "mergeNidoSnapshot keys (Some (snapshotJson (localNidoSnapshot keys (Some c)))) (Some a) = (ch, st)" by fastforce
  from merge_view [OF assms(1,5,2) m] obtain a' where a': "st = Some a'" "?view a' = absorb (?view a) (?view c)"
    by (auto simp: received_view)
  define msg where "msg = JObj [(''type'', JStr NIDO_STORAGE_RESPONSE), (''id'', JStr i), (''snapshot'', snapshotJson (localNidoSnapshot keys (Some a')))]"
  have answer: "answer = Some (pageOrigin, msg)" "store' = Some a'"
    using assms(9) same m a'(1) by (auto simp: bridgeAnswer_def bridgeRequest_def msg_def Let_def)
  obtain changed st2 where m2: "mergeNidoSnapshot keys (Some (snapshotJson (localNidoSnapshot keys (Some a')))) (Some c) = (changed, st2)"
    by fastforce
  from merge_view [OF assms(3,5,4) m2] obtain c' where c': "st2 = Some c'" "?view c' = absorb (?view c) (?view a')"
    by (auto simp: received_view)
  have sync: "syncNidoStorageViaBridge keys protocol host i (noise @ [BridgeMessage origin (Some msg)]) (Some c) = (changed, Some c')"
    using assms(6,10) m2 c'(1) by (simp add: syncNidoStorageViaBridge_def sync_ignored msg_def)
  have "set (fst (?view c')) = set (fst (?view a'))" "set (fst (?view c')) = set (fst (?view c)) \<union> set (fst (?view a))"
    using a'(2) c'(2) by (auto simp: absorb_accounts)
  moreover have "fst ` set (fst (snd (?view c'))) = fst ` set (fst (snd (?view a')))"
    using a'(2) c'(2) by (auto simp: absorb_pending absorb_accounts)
  moreover have "snd (snd (?view c')) = snd (snd (?view a'))" "snd (snd (?view c')) = snd (snd (?view a)) ++ snd (snd (?view c))"
    using a'(2) c'(2) by (auto simp: absorbed_names map_add_def fun_eq_iff split: option.split)
  ultimately show ?thesis using answer sync by (simp add: view_def)
qed

theorem exchange_converges_witness:
  "\<exists>msg a' c' changed. bridgeAnswer sample_keys (\<lambda>_. Some ''ca.nido.fyi'') ''nido.fyi'' ''https://ca.nido.fyi''
       (Some (bridgeRequest sample_keys ''1'' (Some sample_store))) (Some Map.empty) = (Some (''https://ca.nido.fyi'', msg), Some a') \<and>
     syncNidoStorageViaBridge sample_keys ''https:'' ''ca.nido.fyi'' ''1'' [BridgeMessage ''https://nido.fyi'' (Some msg)] (Some sample_store) =
       (changed, Some c') \<and>
     map_of (sn_names (localNidoSnapshot sample_keys (Some c'))) = map_of (sn_names (localNidoSnapshot sample_keys (Some a')))"
proof -
  have empty: "tidy Map.empty" "finite (dom Map.empty)" by (simp_all add: tidy_def)
  have apex: "apexHostForHost ''ca.nido.fyi'' = ''nido.fyi''" "apexHostForHost ''nido.fyi'' = ''nido.fyi''"
    "bridgeTarget ''https:'' ''ca.nido.fyi'' = Some (''https://nido.fyi'', ''https://nido.fyi/nido-storage-bridge/'')" by code_simp+
  obtain answer st where b: "bridgeAnswer sample_keys (\<lambda>_. Some ''ca.nido.fyi'') ''nido.fyi'' ''https://ca.nido.fyi''
       (Some (bridgeRequest sample_keys ''1'' (Some sample_store))) (Some Map.empty) = (answer, st)" by fastforce
  show ?thesis
    using exchange_converges [OF empty sample_tidy sample_lists apex(3), of "\<lambda>_. Some ''ca.nido.fyi''" "''https://ca.nido.fyi''" "''1''" answer st "[]"]
      b apex(1,2) by auto
qed

section \<open>Who is answered\<close>

lemma apex_of_subdomain:
  assumes "apexHostForHost h = x @ ''.'' @ y" "CHR ''.'' \<notin> set x" "\<not> all_digits x"
  shows "h = x @ ''.'' @ y \<or> (\<exists>l. CHR ''.'' \<notin> set l \<and> h = l @ ''.'' @ x @ ''.'' @ y)"
proof (cases "labels h")
  case (Cons l ls)
  show ?thesis
  proof (cases ls)
    case Nil
    with Cons assms(1) show ?thesis by (auto simp: apexHostForHost_def)
  next
    case (Cons p ps)
    with \<open>labels h = l # ls\<close> have h: "h = l @ CHR ''.'' # dots (p # ps)" "CHR ''.'' \<notin> set l"
      using split_on_hd_tl [of "CHR ''.''" h l p ps] by auto
    have same: "n = x" if "n @ ''.'' @ r = x @ ''.'' @ y" "CHR ''.'' \<notin> set n" for n r
    proof -
      have "hd (labels (n @ CHR ''.'' # r)) = n" "hd (labels (x @ CHR ''.'' # y)) = x"
        using that(2) assms(2) by (simp_all add: split_on_append)
      with that(1) show ?thesis by simp
    qed
    have no: False if "n @ ''.'' @ r = x @ ''.'' @ y" "all_digits n" for n r
    proof -
      have "CHR ''.'' \<notin> set n" using that(2) by (auto simp: all_digits_def list_all_iff is_digit_def)
      with same [OF that(1)] that(2) assms(3) show False by simp
    qed
    have pre: "all_digits n" if "snd (previewSubdomain l) = Some n" for n
      using that set_takeWhileD by (fastforce simp: previewSubdomain_def Let_def trailing_digits_def all_digits_def list_all_iff split: if_splits)
    have leg: "all_digits n" if "legacyRoot l = Some n" for n
      using that by (auto simp: legacyRoot_def split: if_splits)
    from assms(1) \<open>labels h = l # ls\<close> Cons h no pre leg show ?thesis
      by (auto simp: apexHostForHost_def Let_def split: option.splits if_splits)
  qed
qed (use assms in \<open>simp add: split_on_nonempty\<close>)

text \<open>
  The apex answers, and changes its list for, pages of its own site only: whoever gets an
  answer, or makes a difference, has the apex for its host or is exactly one label below it; and
  the answer goes to the origin of the question. The scheme is not part of the comparison.
\<close>

theorem answers_own_site:
  assumes "apexHostForHost (x @ ''.'' @ y) = x @ ''.'' @ y" "CHR ''.'' \<notin> set x" "\<not> all_digits x"
    and "bridgeAnswer keys urlHost (x @ ''.'' @ y) origin msg store = (answer, store')"
    and "answer \<noteq> None \<or> store' \<noteq> store"
  shows "\<exists>h reply. urlHost origin = Some h \<and> answer = Some (origin, reply) \<and>
    (h = x @ ''.'' @ y \<or> (\<exists>l. CHR ''.'' \<notin> set l \<and> h = l @ ''.'' @ x @ ''.'' @ y))"
proof -
  have "sameNidoApexOrigin urlHost origin (x @ ''.'' @ y)"
    using assms(4,5) by (auto simp: bridgeAnswer_def split: if_splits)
  then obtain h where h: "urlHost origin = Some h" "apexHostForHost h = x @ ''.'' @ y"
    using assms(1) by (auto simp: sameNidoApexOrigin_def split: option.splits)
  moreover have "\<exists>reply. answer = Some (origin, reply)"
    using assms(4,5) by (auto simp: bridgeAnswer_def Let_def split: if_splits option.splits json.splits)
  ultimately show ?thesis using apex_of_subdomain [OF h(2) assms(2,3)] by blast
qed

theorem answers_own_site_witness:
  "\<exists>reply st. bridgeAnswer sample_keys (\<lambda>_. Some ''ca.nido.fyi'') ''nido.fyi'' ''https://ca.nido.fyi''
     (Some (bridgeRequest sample_keys ''1'' (Some sample_store))) (Some Map.empty) = (Some (''https://ca.nido.fyi'', reply), st)"
proof -
  obtain answer st where b: "bridgeAnswer sample_keys (\<lambda>_. Some ''ca.nido.fyi'') (''nido'' @ ''.'' @ ''fyi'') ''https://ca.nido.fyi''
     (Some (bridgeRequest sample_keys ''1'' (Some sample_store))) (Some Map.empty) = (answer, st)" by fastforce
  have side: "apexHostForHost (''nido'' @ ''.'' @ ''fyi'') = ''nido'' @ ''.'' @ ''fyi''" "CHR ''.'' \<notin> set ''nido''" "\<not> all_digits ''nido''"
    "apexHostForHost ''ca.nido.fyi'' = ''nido'' @ ''.'' @ ''fyi''" by code_simp+
  have "answer \<noteq> None" using b side by (auto simp: bridgeAnswer_def sameNidoApexOrigin_def bridgeRequest_def Let_def)
  with answers_own_site [OF side(1-3) b] b show ?thesis by auto
qed

lemma scheme_not_compared:
  "urlHost ''http://ca.nido.fyi'' = Some ''ca.nido.fyi'' \<Longrightarrow> sameNidoApexOrigin urlHost ''http://ca.nido.fyi'' ''nido.fyi''"
proof -
  have "apexHostForHost ''ca.nido.fyi'' = apexHostForHost ''nido.fyi''" by code_simp
  then show "urlHost ''http://ca.nido.fyi'' = Some ''ca.nido.fyi'' \<Longrightarrow> sameNidoApexOrigin urlHost ''http://ca.nido.fyi'' ''nido.fyi''"
    by (simp add: sameNidoApexOrigin_def)
qed

end
