(* ===== verification/Activity.thy ===== *)
theory Activity
  imports Review "HOL-Library.Multiset"
begin

text \<open>
  The activity feed (\<open>frontend/src/lib/activity\<close>): the walk over recent ledgers
  (\<open>rpcSource.ts\<close>), the rows made of a transaction's events (\<open>classify.ts\<close>), their order
  (\<open>history.ts\<close>) and their markup (\<open>rowHtml.ts\<close>). The RPC, the conversion of contract values,
  the derivation of an asset's contract and the formatting of dates are parameters.
\<close>

section \<open>Rows\<close>

record decoded_event =
  de_contractId :: "string option"
  de_topics :: "js_val list"
  de_data :: js_val

record decoded_tx =
  dx_txHash :: string
  dx_ts :: int
  dx_events :: "decoded_event list"

datatype activity_kind = ActPayment | ActRule | ActSigner | ActPolicy | ActRegistry | ActOther

datatype direction = DirIn | DirOut

record activity_item =
  ai_id :: string
  ai_txHash :: string
  ai_timestamp :: int
  ai_kind :: activity_kind
  ai_direction :: "direction option"
  ai_title :: string
  ai_subtitle :: "string option"
  ai_amount :: "string option"
  ai_asset :: "string option"
  ai_unverified :: bool
  ai_counterparty :: "string option"
  ai_explorerUrl :: string

text \<open>The contract of the native asset, and the contract of an asset given by its code and issuer; \<open>None\<close> if there is none.\<close>

record sac_env =
  sac_native :: string
  sac_of :: "string \<Rightarrow> string option \<Rightarrow> string option"

definition EXPLORER_BASE :: string where
  "EXPLORER_BASE = ''https://stellar.expert/explorer/testnet''"

definition explorerUrl :: "string \<Rightarrow> string" where
  "explorerUrl txHash = EXPLORER_BASE @ ''/tx/'' @ txHash"

definition eventName :: "decoded_event \<Rightarrow> string" where
  "eventName e = (case de_topics e of VText s # _ \<Rightarrow> s | _ \<Rightarrow> [])"

definition assetLabel :: "string \<Rightarrow> string" where
  "assetLabel topic3 = (if topic3 = ''native'' then ''XLM'' else hd (split_on CHR '':'' topic3))"

definition sacIdFor :: "sac_env \<Rightarrow> string \<Rightarrow> string option" where
  "sacIdFor env asset =
     (if asset = ''native'' then Some (sac_native env)
      else (case split_on CHR '':'' asset of
              assetCode' # issuer # _ \<Rightarrow> sac_of env assetCode' (Some issuer)
            | assetCode' # _ \<Rightarrow> sac_of env assetCode' None
            | [] \<Rightarrow> None))"

definition assetTopic :: "decoded_event \<Rightarrow> string option" where
  "assetTopic e = (case arr (de_topics e) 3 of Some (VText s) \<Rightarrow> Some s | _ \<Rightarrow> None)"

definition isVerifiedSacTransfer :: "sac_env \<Rightarrow> decoded_event \<Rightarrow> bool" where
  "isVerifiedSacTransfer env e \<longleftrightarrow>
     eventName e = ''transfer'' \<and>
     (case assetTopic e of None \<Rightarrow> False | Some asset \<Rightarrow> de_contractId e \<noteq> None \<and> de_contractId e = sacIdFor env asset)"

definition transferAmount :: "js_val \<Rightarrow> int option" where
  "transferAmount v =
     (case v of
        VBigint n \<Rightarrow> Some n
      | _ \<Rightarrow> (case vfield ''amount'' v of Some (VBigint n) \<Rightarrow> Some n | _ \<Rightarrow> None))"

text \<open>\<open>String\<close> of a topic, which may be missing.\<close>

definition topicText :: "decoded_event \<Rightarrow> int \<Rightarrow> string" where
  "topicText e i = (case arr (de_topics e) i of Some v \<Rightarrow> vtext v | None \<Rightarrow> ''undefined'')"

definition paymentRow ::
  "sac_env \<Rightarrow> decoded_event \<Rightarrow> nat \<Rightarrow> string \<Rightarrow> string \<Rightarrow> int \<Rightarrow> string set option \<Rightarrow> activity_item option" where
  "paymentRow env e idx self txHash ts knownSacIds =
     (if \<not> isVerifiedSacTransfer env e then None
      else let fromS = topicText e 1; toS = topicText e 2; isOut = (fromS = self); isIn = (toS = self)
      in if \<not> isOut \<and> \<not> isIn then None
         else (case transferAmount (de_data e) of
                 None \<Rightarrow> None
               | Some amountRaw \<Rightarrow>
                   let counterparty = (if isOut then toS else fromS);
                       curated = de_contractId e = Some (sac_native env) \<or>
                         (case knownSacIds of Some ids \<Rightarrow> the (de_contractId e) \<in> ids | None \<Rightarrow> False)
                   in Some \<lparr>ai_id = txHash @ '':transfer:'' @ showNat idx, ai_txHash = txHash, ai_timestamp = ts, ai_kind = ActPayment,
                        ai_direction = Some (if isOut then DirOut else DirIn),
                        ai_title = (if isOut then ''Sent'' else ''Received''),
                        ai_subtitle = Some ((if isOut then ''to'' else ''from'') @ '' '' @ shortAddr counterparty 4 4),
                        ai_amount = Some (formatDecimal (stroopsToXlm amountRaw) 7),
                        ai_asset = map_option assetLabel (assetTopic e), ai_unverified = (\<not> curated),
                        ai_counterparty = Some counterparty, ai_explorerUrl = explorerUrl txHash\<rparr>))"

definition adminMeta :: "string \<Rightarrow> (activity_kind \<times> string) option" where
  "adminMeta name =
     (if name = ''context_rule_added'' then Some (ActRule, ''Created a rule'')
      else if name = ''context_rule_removed'' then Some (ActRule, ''Removed a rule'')
      else if name = ''context_rule_updated'' \<or> name = ''context_rule_meta_updated'' then Some (ActRule, ''Updated a rule'')
      else if name = ''signer_added'' then Some (ActSigner, ''Added a signer'')
      else if name = ''signer_removed'' then Some (ActSigner, ''Removed a signer'')
      else if name = ''policy_added'' then Some (ActPolicy, ''Added a policy'')
      else if name = ''policy_removed'' then Some (ActPolicy, ''Removed a policy'')
      else if name \<in> {''signer_registered'', ''policy_registered'', ''signer_deregistered'', ''policy_deregistered''}
      then Some (ActRegistry, ''Updated account keys'') else None)"

fun PRIORITY :: "activity_kind \<Rightarrow> nat" where
  "PRIORITY ActRule = 4"
| "PRIORITY ActSigner = 3"
| "PRIORITY ActPolicy = 2"
| "PRIORITY ActRegistry = 1"
| "PRIORITY ActOther = 0"
| "PRIORITY ActPayment = 0"

definition betterMeta :: "(activity_kind \<times> string) option \<Rightarrow> decoded_event \<Rightarrow> (activity_kind \<times> string) option" where
  "betterMeta best e =
     (case (adminMeta (eventName e), best) of
        (None, _) \<Rightarrow> best
      | (Some meta, None) \<Rightarrow> Some meta
      | (Some meta, Some b) \<Rightarrow> if PRIORITY (fst meta) > PRIORITY (fst b) then Some meta else best)"

definition plain_row :: "decoded_tx \<Rightarrow> activity_kind \<Rightarrow> string \<Rightarrow> activity_item" where
  "plain_row tx kind' title =
     \<lparr>ai_id = dx_txHash tx, ai_txHash = dx_txHash tx, ai_timestamp = dx_ts tx, ai_kind = kind', ai_direction = None, ai_title = title,
      ai_subtitle = None, ai_amount = None, ai_asset = None, ai_unverified = False, ai_counterparty = None,
      ai_explorerUrl = explorerUrl (dx_txHash tx)\<rparr>"

definition groupTxRows :: "sac_env \<Rightarrow> decoded_tx \<Rightarrow> string \<Rightarrow> string set option \<Rightarrow> activity_item list" where
  "groupTxRows env decoded self knownSacIds =
     (let events = dx_events decoded;
          payments = List.map_filter (\<lambda>(i, e). if eventName e = ''transfer''
            then paymentRow env e i self (dx_txHash decoded) (dx_ts decoded) knownSacIds else None) (enumerate 0 events);
          rows = payments @ (case foldl betterMeta None events of None \<Rightarrow> [] | Some (k, t) \<Rightarrow> [plain_row decoded k t]);
          trustworthy = list_ex (\<lambda>e. de_contractId e = Some self \<or> isVerifiedSacTransfer env e) events
      in if rows = [] \<and> trustworthy then [plain_row decoded ActOther ''Contract activity''] else rows)"

section \<open>The walk over ledgers\<close>

record raw_event =
  re_contractId :: "string option"
  re_topic :: "scval list"
  re_value :: scval
  re_txHash :: string
  re_ledgerClosedAt :: string

definition CHUNK_LEDGERS :: int where "CHUNK_LEDGERS = 9000"

definition MIN_CHUNK_LEDGERS :: int where "MIN_CHUNK_LEDGERS = 1000"

definition EVENTS_LIMIT :: nat where "EVENTS_LIMIT = 1000"

text \<open>The RPC: the number of the request, its first and its last ledger.\<close>

type_synonym events_rpc = "nat \<Rightarrow> int \<Rightarrow> int \<Rightarrow> raw_event list result"

text \<open>One chunk, shrunk until it fits; what it found starts at the ledger given with it.\<close>

function fetchChunk :: "events_rpc \<Rightarrow> nat \<Rightarrow> int \<Rightarrow> int \<Rightarrow> js_error \<Rightarrow> nat \<times> (int \<times> raw_event list) result" where
  "fetchChunk getEvents n endLedger span lastError =
     (if span < MIN_CHUNK_LEDGERS then (n, Inl lastError)
      else let startLedger = max 1 (endLedger - span + 1)
      in (case getEvents n startLedger endLedger of
            Inl e \<Rightarrow> fetchChunk getEvents (Suc n) endLedger (span div 3) e
          | Inr evs \<Rightarrow>
              if length evs \<ge> EVENTS_LIMIT
              then fetchChunk getEvents (Suc n) endLedger (span div 3) (Error ''getEvents page overflow'')
              else (Suc n, Inr (startLedger, evs))))"
  by pat_completeness auto

termination
  by (relation "measure (\<lambda>(_, _, _, span, _). nat span)") (auto simp: MIN_CHUNK_LEDGERS_def)

fun walkChunks :: "events_rpc \<Rightarrow> nat \<Rightarrow> nat \<Rightarrow> nat \<Rightarrow> int \<Rightarrow> raw_event list \<Rightarrow> raw_event list result" where
  "walkChunks getEvents 0 n chunk endLedger raw = Inr raw"
| "walkChunks getEvents (Suc m) n chunk endLedger raw =
     (if \<not> endLedger > 1 then Inr raw
      else (case fetchChunk getEvents n endLedger CHUNK_LEDGERS (Error ''getEvents failed'') of
              (n', Inl lastError) \<Rightarrow> if chunk = 0 then Inl lastError else Inr raw
            | (n', Inr (startLedger, evs)) \<Rightarrow> walkChunks getEvents m n' (Suc chunk) (startLedger - 1) (raw @ evs)))"

definition walkEventChunks :: "int result \<Rightarrow> events_rpc \<Rightarrow> nat \<Rightarrow> raw_event list result" where
  "walkEventChunks getLatestLedger getEvents maxChunks =
     bindR getLatestLedger (\<lambda>latest. walkChunks getEvents maxChunks 0 0 latest [])"

definition MAX_CHUNKS :: nat where "MAX_CHUNKS = 6"

text \<open>The memo of a page: successful walks by account and depth.\<close>

type_synonym events_cache = "string \<rightharpoonup> raw_event list"

definition fetchAccountEvents ::
  "(string \<Rightarrow> nat \<Rightarrow> raw_event list result) \<Rightarrow> string \<Rightarrow> nat \<Rightarrow> events_cache \<Rightarrow> events_cache \<times> raw_event list result" where
  "fetchAccountEvents walk address maxChunks eventsCache =
     (let key = address @ '':'' @ showNat maxChunks
      in (case eventsCache key of
            Some raw \<Rightarrow> (eventsCache, Inr raw)
          | None \<Rightarrow> (case walk address maxChunks of
                       Inl e \<Rightarrow> (eventsCache, Inl e)
                     | Inr raw \<Rightarrow> (eventsCache(key \<mapsto> raw), Inr raw))))"

definition nativeOrNull :: "to_native \<Rightarrow> scval \<Rightarrow> js_val" where
  "nativeOrNull scValToNative v = (case scValToNative v of Inr w \<Rightarrow> w | Inl _ \<Rightarrow> VNull)"

definition toDecoded :: "to_native \<Rightarrow> raw_event \<Rightarrow> decoded_event" where
  "toDecoded scValToNative e =
     \<lparr>de_contractId = re_contractId e, de_topics = map (nativeOrNull scValToNative) (re_topic e),
      de_data = nativeOrNull scValToNative (re_value e)\<rparr>"

text \<open>The events of a transaction are kept under its hash, in the order in which the hashes come up; \<open>getTime\<close> is in milliseconds.\<close>

fun addToTx :: "(string \<Rightarrow> int) \<Rightarrow> to_native \<Rightarrow> raw_event \<Rightarrow> decoded_tx list \<Rightarrow> decoded_tx list" where
  "addToTx getTime conv e [] =
     [\<lparr>dx_txHash = re_txHash e, dx_ts = getTime (re_ledgerClosedAt e) div 1000, dx_events = [toDecoded conv e]\<rparr>]"
| "addToTx getTime conv e (tx # txs) =
     (if dx_txHash tx = re_txHash e then tx\<lparr>dx_events := dx_events tx @ [toDecoded conv e]\<rparr> # txs
      else tx # addToTx getTime conv e txs)"

definition newestFirst :: "activity_item list \<Rightarrow> activity_item list" where
  "newestFirst = sort_key (\<lambda>i. - ai_timestamp i)"

definition mapRpcEvents ::
  "sac_env \<Rightarrow> (string \<Rightarrow> int) \<Rightarrow> to_native \<Rightarrow> raw_event list \<Rightarrow> string \<Rightarrow> string set option \<Rightarrow> activity_item list" where
  "mapRpcEvents env getTime conv raw self knownSacIds =
     newestFirst (concat (map (\<lambda>tx. groupTxRows env tx self knownSacIds) (foldl (\<lambda>txs e. addToTx getTime conv e txs) [] raw)))"

definition fetchRpcRecent ::
  "sac_env \<Rightarrow> (string \<Rightarrow> int) \<Rightarrow> to_native \<Rightarrow> raw_event list result \<Rightarrow> raw_event list result \<Rightarrow> string \<Rightarrow> string set option \<Rightarrow>
   activity_item list result" where
  "fetchRpcRecent env getTime conv own transfers address knownSacIds =
     bindR own (\<lambda>o'. bindR transfers (\<lambda>t. Inr (mapRpcEvents env getTime conv (o' @ t) address knownSacIds)))"

definition firstById :: "activity_item list \<Rightarrow> activity_item \<Rightarrow> activity_item list" where
  "firstById out it = (if ai_id it \<in> ai_id ` set out then out else out @ [it])"

definition dedupSort :: "activity_item list \<Rightarrow> activity_item list" where
  "dedupSort items = newestFirst (foldl firstById [] items)"

definition loadActivityPage ::
  "sac_env \<Rightarrow> (string \<Rightarrow> int) \<Rightarrow> to_native \<Rightarrow> raw_event list result \<Rightarrow> raw_event list result \<Rightarrow> string \<Rightarrow> string set \<Rightarrow>
   activity_item list result" where
  "loadActivityPage env getTime conv own transfers address knownSacIds =
     bindR (fetchRpcRecent env getTime conv own transfers address (Some knownSacIds)) (\<lambda>items. Inr (dedupSort items))"

section \<open>The span that was walked\<close>

declare fetchChunk.simps [simp del]

text \<open>
  What the RPC promises: a page that is not full has every event of the requested ledgers that
  matches the filters, in order. \<open>history\<close> is what matches on the chain, with its ledgers. The RPC's
  documentation bounds the requested range before \<open>endLedger\<close>, the walk is written for a range with
  it; \<open>inclusive\<close> tells which of the two holds.
\<close>

definition events_between :: "(int \<times> raw_event) list \<Rightarrow> int \<Rightarrow> int \<Rightarrow> raw_event list" where
  "events_between history lo hi = map snd (filter (\<lambda>(l, _). lo \<le> l \<and> l \<le> hi) history)"

definition serves_events :: "bool \<Rightarrow> events_rpc \<Rightarrow> (int \<times> raw_event) list \<Rightarrow> bool" where
  "serves_events inclusive getEvents history \<longleftrightarrow>
     (\<forall>n lo hi evs. getEvents n lo hi = Inr evs \<longrightarrow> length evs < EVENTS_LIMIT \<longrightarrow>
        evs = events_between history lo (if inclusive then hi else hi - 1))"

text \<open>The ledgers at which the walk asked a range to end; each is far below the one before.\<close>

definition range_ends :: "int \<Rightarrow> int list \<Rightarrow> bool" where
  "range_ends lo bounds \<longleftrightarrow> sorted_wrt (\<lambda>x y. y + 1000 \<le> x) bounds \<and> (\<forall>e \<in> set bounds. lo \<le> e \<and> 1 < e)"

definition events_outside :: "(int \<times> raw_event) list \<Rightarrow> int \<Rightarrow> int \<Rightarrow> int set \<Rightarrow> raw_event list" where
  "events_outside history lo hi missed = map snd (filter (\<lambda>(l, _). lo \<le> l \<and> l \<le> hi \<and> l \<notin> missed) history)"

lemma fetchChunk_Inr:
  "fetchChunk getEvents n hi span err = (n', Inr (lo, evs)) \<Longrightarrow> 1 \<le> hi \<Longrightarrow>
     \<exists>i. getEvents i lo hi = Inr evs \<and> length evs < EVENTS_LIMIT \<and> 1 \<le> lo \<and> lo \<le> hi \<and> (lo = 1 \<or> lo + 999 \<le> hi)"
proof (induction getEvents n hi span err rule: fetchChunk.induct)
  case (1 getEvents n hi span err)
  let ?lo = "max 1 (hi - span + 1)"
  from "1.prems"(1) have big: "\<not> span < MIN_CHUNK_LEDGERS" by (subst (asm) fetchChunk.simps) (auto split: if_splits)
  then have range: "1 \<le> ?lo" "?lo \<le> hi" "?lo = 1 \<or> ?lo + 999 \<le> hi" using "1.prems"(2) by (auto simp: MIN_CHUNK_LEDGERS_def)
  show ?case
  proof (cases "getEvents n ?lo hi")
    case (Inl e)
    with "1.prems" big have "fetchChunk getEvents (Suc n) hi (span div 3) e = (n', Inr (lo, evs))"
      by (subst (asm) fetchChunk.simps) (simp add: Let_def)
    with 1 Inl big show ?thesis by simp
  next
    case (Inr page)
    show ?thesis
    proof (cases "length page \<ge> EVENTS_LIMIT")
      case True
      with "1.prems" big Inr have "fetchChunk getEvents (Suc n) hi (span div 3) (Error ''getEvents page overflow'') = (n', Inr (lo, evs))"
        by (subst (asm) fetchChunk.simps) (simp add: Let_def)
      with 1 Inr True big show ?thesis by simp
    next
      case False
      with "1.prems" big Inr have "lo = ?lo" "evs = page"
        by (subst (asm) fetchChunk.simps, simp add: Let_def)+
      with Inr False range show ?thesis by (auto intro!: exI [of _ n])
    qed
  qed
qed

lemma mset_filter_parts:
  "(\<And>x. x \<in> set xs \<Longrightarrow> P x \<longleftrightarrow> Q x \<or> R x) \<Longrightarrow> (\<And>x. x \<in> set xs \<Longrightarrow> \<not> (Q x \<and> R x)) \<Longrightarrow>
     mset (map f (filter P xs)) = mset (map f (filter Q xs)) + mset (map f (filter R xs))"
  by (induction xs) auto

lemma chunk_joined:
  assumes "lo \<le> mid" "mid \<le> hi" "\<forall>e \<in> bounds. e < mid"
  shows "mset (events_outside history lo hi (if inclusive then {} else insert hi bounds)) =
    mset (events_outside history lo (mid - 1) (if inclusive then {} else bounds)) +
    mset (events_between history mid (if inclusive then hi else hi - 1))"
  unfolding events_outside_def events_between_def
  by (rule mset_filter_parts) (use assms in \<open>auto split: if_splits\<close>)

lemma walkChunks_span:
  assumes "serves_events inclusive getEvents history"
  shows "walkChunks getEvents m n chunk hi raw = Inr out \<Longrightarrow> 0 \<le> hi \<Longrightarrow> chunk = 0 \<longrightarrow> 0 < m \<and> 1 < hi \<Longrightarrow>
    \<exists>lo bounds. 1 \<le> lo \<and> lo \<le> hi + 1 \<and> (chunk = 0 \<longrightarrow> bounds \<noteq> [] \<and> hd bounds = hi) \<and> length bounds \<le> m \<and>
      range_ends lo bounds \<and> (\<forall>e \<in> set bounds. e \<le> hi) \<and>
      mset out = mset raw + mset (events_outside history lo hi (if inclusive then {} else set bounds))"
proof (induction m arbitrary: n chunk hi raw)
  case 0
  then show ?case by (auto simp: events_outside_def range_ends_def intro!: exI [of _ "hi + 1"] exI [of _ "[]"])
next
  case (Suc m)
  have none: "out = raw \<Longrightarrow> chunk \<noteq> 0 \<Longrightarrow> ?case"
    using Suc.prems(2) by (intro exI [of _ "hi + 1"] exI [of _ "[]"]) (auto simp: events_outside_def range_ends_def)
  show ?case
  proof (cases "hi > 1")
    case False
    with Suc.prems have "out = raw" "chunk \<noteq> 0" by auto
    then show ?thesis by (rule none)
  next
    case True
    obtain n' r where f: "fetchChunk getEvents n hi CHUNK_LEDGERS (Error ''getEvents failed'') = (n', r)" by fastforce
    show ?thesis
    proof (cases r)
      case (Inl e)
      with Suc.prems True f have "out = raw" "chunk \<noteq> 0" by (simp_all split: if_splits)
      then show ?thesis by (rule none)
    next
      case (Inr p)
      obtain mid evs where p: "p = (mid, evs)" by fastforce
      from fetchChunk_Inr [OF f [unfolded Inr p]] True obtain i where
        i: "getEvents i mid hi = Inr evs" "length evs < EVENTS_LIMIT" "1 \<le> mid" "mid \<le> hi" "mid = 1 \<or> mid + 999 \<le> hi" by auto
      with assms have evs: "evs = events_between history mid (if inclusive then hi else hi - 1)"
        unfolding serves_events_def by blast
      have "walkChunks getEvents m n' (Suc chunk) (mid - 1) (raw @ evs) = Inr out"
        using Suc.prems(1) True f Inr p by simp
      from Suc.IH [OF this] i(3) obtain lo bounds where
        rest: "1 \<le> lo" "lo \<le> mid - 1 + 1" "length bounds \<le> m" "range_ends lo bounds" "\<forall>e \<in> set bounds. e \<le> mid - 1"
          "mset out = mset (raw @ evs) + mset (events_outside history lo (mid - 1) (if inclusive then {} else set bounds))" by auto
      have bounds: "range_ends lo (hi # bounds)"
        using rest(1,2,4,5) i(4,5) True by (force simp: range_ends_def)
      have "mset out = mset raw + mset (events_outside history lo hi (if inclusive then {} else set (hi # bounds)))"
        using chunk_joined [of lo mid hi "set bounds" history inclusive] rest(2,5,6) i(4) evs by auto
      with rest(1-3,5) i(4) bounds show ?thesis
        by (intro exI [of _ lo] exI [of _ "hi # bounds"]) auto
    qed
  qed
qed

text \<open>
  C15. What the walk returns, whatever requests fail or overflow: every matching event of the ledgers
  from some point up to the tip, each once, and nothing else, if the RPC's range includes its end.
  If it does not, as the RPC documents, the same but for the ledgers at which the requested ranges
  end: the tip and, for each further chunk, one ledger at least a thousand below, so at most one
  ledger per chunk. A page that the RPC cut off is never taken for complete.
\<close>

theorem walk_is_complete:
  assumes "serves_events inclusive getEvents history" "1 < latest" "0 < maxChunks"
    and "walkEventChunks (Inr latest) getEvents maxChunks = Inr raw"
  shows "\<exists>lo bounds. 1 \<le> lo \<and> range_ends lo bounds \<and> hd bounds = latest \<and> 1 \<le> length bounds \<and> length bounds \<le> maxChunks \<and>
    mset raw = (if inclusive then mset (events_between history lo latest) else mset (events_outside history lo latest (set bounds)))"
proof -
  obtain lo bounds where "1 \<le> lo" "bounds \<noteq> []" "hd bounds = latest" "length bounds \<le> maxChunks" "range_ends lo bounds"
    "mset raw = mset (events_outside history lo latest (if inclusive then {} else set bounds))"
    using walkChunks_span [OF assms(1), of maxChunks 0 0 latest "[]" raw] assms(2-4)
    by (auto simp: walkEventChunks_def)
  then show ?thesis
    by (intro exI [of _ lo] exI [of _ bounds]) (auto simp: events_outside_def events_between_def Suc_le_eq)
qed

text \<open>An RPC that cuts off the widest request.\<close>

definition sample_raw :: raw_event where
  "sample_raw = \<lparr>re_contractId = Some ''CX'', re_topic = [], re_value = ScvU32 0, re_txHash = ''h'', re_ledgerClosedAt = []\<rparr>"

definition busy_rpc :: events_rpc where
  "busy_rpc n lo hi = (if hi - lo \<ge> 5000 then Inr (replicate 1000 sample_raw) else Inr (events_between [(19999, sample_raw)] lo hi))"

lemma busy_walk: "walkEventChunks (Inr 20000) busy_rpc 1 = Inr [sample_raw]"
proof -
  have "fetchChunk busy_rpc 0 20000 9000 e = (2, Inr (17001, [sample_raw]))" for e
    by (simp add: fetchChunk.simps busy_rpc_def MIN_CHUNK_LEDGERS_def EVENTS_LIMIT_def events_between_def numeral_2_eq_2)
  then show ?thesis by (simp add: walkEventChunks_def CHUNK_LEDGERS_def)
qed

theorem walk_is_complete_witness:
  "\<exists>lo. 1 \<le> lo \<and> mset [sample_raw] = mset (events_between [(19999, sample_raw)] lo 20000)"
proof -
  have "serves_events True busy_rpc [(19999, sample_raw)]"
    by (auto simp: serves_events_def busy_rpc_def EVENTS_LIMIT_def)
  from walk_is_complete [OF this _ _ busy_walk] show ?thesis by auto
qed

text \<open>An event of the tip is not returned when the range ends before \<open>endLedger\<close>.\<close>

definition exclusive_rpc :: "(int \<times> raw_event) list \<Rightarrow> events_rpc" where
  "exclusive_rpc history n lo hi = Inr (events_between history lo (hi - 1))"

lemma tip_is_missed: "walkEventChunks (Inr 5000) (exclusive_rpc [(5000, sample_raw)]) 6 = Inr []"
proof -
  have "fetchChunk (exclusive_rpc [(5000, sample_raw)]) 0 5000 9000 e = (1, Inr (1, []))" for e
    by (simp add: fetchChunk.simps exclusive_rpc_def events_between_def MIN_CHUNK_LEDGERS_def EVENTS_LIMIT_def)
  then show ?thesis by (simp add: walkEventChunks_def CHUNK_LEDGERS_def numeral_eq_Suc)
qed

lemma exclusive_serves: "serves_events False (exclusive_rpc history) history"
  by (simp add: serves_events_def exclusive_rpc_def)

section \<open>What a row proves\<close>

text \<open>
  The evidence for a payment: an event of the transaction, emitted by the very contract of the asset
  it names, that moves the amount from or to the account.
\<close>

definition payment_proven :: "sac_env \<Rightarrow> string \<Rightarrow> string set \<Rightarrow> decoded_event \<Rightarrow> activity_item \<Rightarrow> bool" where
  "payment_proven env self known e it \<longleftrightarrow>
     (\<exists>asset contract n. eventName e = ''transfer'' \<and> assetTopic e = Some asset \<and> de_contractId e = Some contract \<and>
        sacIdFor env asset = Some contract \<and> transferAmount (de_data e) = Some n \<and>
        ai_amount it = Some (formatDecimal (stroopsToXlm n) 7) \<and> ai_asset it = Some (assetLabel asset) \<and>
        (ai_unverified it \<longleftrightarrow> contract \<noteq> sac_native env \<and> contract \<notin> known) \<and>
        (if ai_direction it = Some DirOut then topicText e 1 = self \<and> ai_counterparty it = Some (topicText e 2)
         else topicText e 2 = self \<and> ai_counterparty it = Some (topicText e 1)))"

lemma verified_iff:
  "isVerifiedSacTransfer env e \<longleftrightarrow> eventName e = ''transfer'' \<and>
     (\<exists>asset c. assetTopic e = Some asset \<and> de_contractId e = Some c \<and> sacIdFor env asset = Some c)"
  by (cases "assetTopic e"; cases "de_contractId e") (auto simp: isVerifiedSacTransfer_def)

lemma paymentRow_proven:
  assumes "paymentRow env e i self h ts (Some known) = Some it"
  shows "payment_proven env self known e it" "ai_kind it = ActPayment" "ai_txHash it = h"
proof -
  have ver: "isVerifiedSacTransfer env e" using assms by (simp add: paymentRow_def split: if_splits)
  then obtain asset contract where v: "eventName e = ''transfer''" "assetTopic e = Some asset" "de_contractId e = Some contract"
    "sacIdFor env asset = Some contract" by (auto simp: verified_iff)
  with ver assms show "payment_proven env self known e it" "ai_kind it = ActPayment" "ai_txHash it = h"
    by (auto simp: paymentRow_def Let_def payment_proven_def split: if_splits option.splits)
qed

lemma best_meta:
  "foldl betterMeta best es = Some m \<Longrightarrow> best = Some m \<or> (\<exists>e \<in> set es. adminMeta (eventName e) = Some m)"
proof (induction es arbitrary: best)
  case (Cons e es)
  from Cons.IH [of "betterMeta best e"] Cons.prems show ?case
    by (auto simp: betterMeta_def split: option.splits if_splits)
qed simp

lemma admin_not_payment: "adminMeta s = Some (k, t) \<Longrightarrow> k \<noteq> ActPayment \<and> s \<noteq> ''transfer''"
  by (auto simp: adminMeta_def split: if_splits)

definition evidence :: "sac_env \<Rightarrow> string \<Rightarrow> decoded_event \<Rightarrow> bool" where
  "evidence env self e \<longleftrightarrow> de_contractId e = Some self \<or> isVerifiedSacTransfer env e"

lemma trustworthy_iff:
  "list_ex (\<lambda>e. de_contractId e = Some self \<or> isVerifiedSacTransfer env e) es = list_ex (evidence env self) es"
  by (induction es) (auto simp: evidence_def)

lemma rows_proven:
  assumes "it \<in> set (groupTxRows env tx self (Some known))"
    and src: "\<And>e. e \<in> set (dx_events tx) \<Longrightarrow> de_contractId e = Some self \<or> eventName e = ''transfer''"
  shows "ai_txHash it = dx_txHash tx \<and>
    (\<exists>e \<in> set (dx_events tx). if ai_kind it = ActPayment then payment_proven env self known e it else evidence env self e)"
proof -
  let ?events = "dx_events tx"
  let ?pays = "List.map_filter (\<lambda>(i, e). if eventName e = ''transfer''
    then paymentRow env e i self (dx_txHash tx) (dx_ts tx) (Some known) else None) (enumerate 0 ?events)"
  have "it \<in> set ?pays \<or> (\<exists>k t. foldl betterMeta None ?events = Some (k, t) \<and> it = plain_row tx k t) \<or>
      (it = plain_row tx ActOther ''Contract activity'' \<and> list_ex (evidence env self) ?events)"
    using assms(1) by (auto simp: groupTxRows_def Let_def trustworthy_iff split: if_splits option.splits prod.splits)
  then consider (pay) "it \<in> set ?pays" | (admin) k t where "foldl betterMeta None ?events = Some (k, t)" "it = plain_row tx k t"
    | (other) "it = plain_row tx ActOther ''Contract activity''" "list_ex (evidence env self) ?events" by blast
  then show ?thesis
  proof cases
    case pay
    then obtain i e where "(i, e) \<in> set (enumerate 0 ?events)" "paymentRow env e i self (dx_txHash tx) (dx_ts tx) (Some known) = Some it"
      by (auto simp: List.map_filter_def split: if_splits)
    moreover from this have "e \<in> set ?events" by (metis enumerate_eq_zip set_zip_rightD)
    ultimately show ?thesis using paymentRow_proven [of env e i self "dx_txHash tx" "dx_ts tx" known it]
      by (auto intro!: bexI [of _ e])
  next
    case admin
    from best_meta [OF admin(1)] obtain e where e: "e \<in> set ?events" "adminMeta (eventName e) = Some (k, t)" by auto
    with admin_not_payment [OF e(2)] src [OF e(1)] admin(2) show ?thesis
      by (auto simp: plain_row_def evidence_def intro!: bexI [of _ e])
  next
    case other
    then show ?thesis by (auto simp: plain_row_def list_ex_iff)
  qed
qed

lemma addToTx_events:
  "tx \<in> set (addToTx getTime conv r txs) \<Longrightarrow> d \<in> set (dx_events tx) \<Longrightarrow>
     (d = toDecoded conv r \<and> re_txHash r = dx_txHash tx) \<or> (\<exists>tx' \<in> set txs. dx_txHash tx' = dx_txHash tx \<and> d \<in> set (dx_events tx'))"
  by (induction txs) (auto split: if_splits)

lemma grouped_events:
  "tx \<in> set (foldl (\<lambda>txs e. addToTx getTime conv e txs) [] raw) \<Longrightarrow> d \<in> set (dx_events tx) \<Longrightarrow>
     \<exists>r \<in> set raw. d = toDecoded conv r \<and> re_txHash r = dx_txHash tx"
proof (induction raw arbitrary: tx rule: rev_induct)
  case (snoc r raw)
  from snoc.prems consider "d = toDecoded conv r" "re_txHash r = dx_txHash tx"
    | tx' where "tx' \<in> set (foldl (\<lambda>txs e. addToTx getTime conv e txs) [] raw)" "dx_txHash tx' = dx_txHash tx" "d \<in> set (dx_events tx')"
    using addToTx_events [of tx getTime conv r _ d] by auto
  then show ?case using snoc.IH by cases fastforce+
qed simp

lemma first_by_id:
  "distinct (map ai_id out) \<Longrightarrow> distinct (map ai_id (foldl firstById out items)) \<and>
     set (foldl firstById out items) \<subseteq> set out \<union> set items \<and>
     ai_id ` set (foldl firstById out items) = ai_id ` set out \<union> ai_id ` set items"
proof (induction items arbitrary: out)
  case (Cons i items)
  have "distinct (map ai_id (firstById out i))" using Cons.prems by (auto simp: firstById_def)
  note Cons.IH [OF this]
  then show ?case by (auto simp: firstById_def split: if_splits)
qed simp

lemma dedup_facts:
  "distinct (map ai_id (dedupSort items))" "set (dedupSort items) \<subseteq> set items"
  "ai_id ` set (dedupSort items) = ai_id ` set items" "sorted (map (\<lambda>i. - ai_timestamp i) (dedupSort items))"
proof -
  note f = first_by_id [of "[]" items]
  then show "set (dedupSort items) \<subseteq> set items" "ai_id ` set (dedupSort items) = ai_id ` set items"
    by (simp_all add: dedupSort_def newestFirst_def)
  show "sorted (map (\<lambda>i. - ai_timestamp i) (dedupSort items))" by (simp add: dedupSort_def newestFirst_def)
  have "distinct (map ai_id (sort_key g xs)) = distinct (map ai_id xs)" for g :: "activity_item \<Rightarrow> int" and xs
    by (metis (no_types, lifting) distinct_map distinct_sort set_sort)
  with f show "distinct (map ai_id (dedupSort items))" by (simp add: dedupSort_def newestFirst_def)
qed

text \<open>
  C16. The feed shows nothing that is not proven: when the two walks return what their filters ask
  for (the account's own events, and transfers), each payment has an event of its transaction,
  emitted by the contract of the asset it names, that moved the amount shown from or to the
  account, and it is marked unverified unless that contract is native or curated; each other row
  has an event of the account itself or such a transfer. The rows are newest first, each
  identifier once.
\<close>

theorem feed_is_proven:
  assumes "\<And>r. r \<in> set own \<Longrightarrow> re_contractId r = Some self"
    and "\<And>r. r \<in> set transfers \<Longrightarrow> eventName (toDecoded conv r) = ''transfer''"
    and "loadActivityPage env getTime conv (Inr own) (Inr transfers) self known = Inr items"
  shows "distinct (map ai_id items) \<and> sorted (map (\<lambda>i. - ai_timestamp i) items) \<and>
    (\<forall>it \<in> set items. \<exists>r \<in> set (own @ transfers). ai_txHash it = re_txHash r \<and>
       (if ai_kind it = ActPayment then payment_proven env self known (toDecoded conv r) it else evidence env self (toDecoded conv r)))"
proof -
  let ?txs = "foldl (\<lambda>txs e. addToTx getTime conv e txs) [] (own @ transfers)"
  let ?all = "newestFirst (concat (map (\<lambda>tx. groupTxRows env tx self (Some known)) ?txs))"
  have items: "items = dedupSort ?all"
    using assms(3) by (simp add: loadActivityPage_def fetchRpcRecent_def mapRpcEvents_def)
  have "\<exists>r \<in> set (own @ transfers). ai_txHash it = re_txHash r \<and>
       (if ai_kind it = ActPayment then payment_proven env self known (toDecoded conv r) it else evidence env self (toDecoded conv r))"
    if it: "it \<in> set items" for it
  proof -
    from it dedup_facts(2) [of ?all] items obtain tx where tx: "tx \<in> set ?txs" "it \<in> set (groupTxRows env tx self (Some known))"
      by (auto simp: newestFirst_def)
    have src: "de_contractId e = Some self \<or> eventName e = ''transfer''" if "e \<in> set (dx_events tx)" for e
      using grouped_events [OF tx(1) that] assms(1,2) by (auto simp: toDecoded_def)
    from rows_proven [OF tx(2) src] obtain e where e: "e \<in> set (dx_events tx)" "ai_txHash it = dx_txHash tx"
      "if ai_kind it = ActPayment then payment_proven env self known e it else evidence env self e" by auto
    from grouped_events [OF tx(1) e(1)] e(2,3) show ?thesis by metis
  qed
  then show ?thesis using items dedup_facts(1,4) by simp
qed

text \<open>A genuine transfer of the native asset to the account \<open>CA\<close>.\<close>

definition sample_sac :: sac_env where
  "sample_sac = \<lparr>sac_native = ''CX'', sac_of = \<lambda>_ _. None\<rparr>"

definition native_transfer :: raw_event where
  "native_transfer = \<lparr>re_contractId = Some ''CX'', re_topic = [ScvSymbol ''transfer'', ScvSymbol ''CB'', ScvSymbol ''CA'', ScvString ''native''],
     re_value = ScvI128 15000000, re_txHash = ''h'', re_ledgerClosedAt = []\<rparr>"

fun symbols_native :: to_native where
  "symbols_native (ScvSymbol s) = Inr (VText s)"
| "symbols_native (ScvString s) = Inr (VText s)"
| "symbols_native (ScvI128 n) = Inr (VBigint n)"
| "symbols_native _ = Inl (Error ''unsupported'')"

lemma sample_page:
  "\<exists>it. loadActivityPage sample_sac (\<lambda>_. 5000) symbols_native (Inr []) (Inr [native_transfer]) ''CA'' {} = Inr [it] \<and>
     ai_kind it = ActPayment \<and> ai_timestamp it = 5"
  by (simp add: loadActivityPage_def fetchRpcRecent_def mapRpcEvents_def newestFirst_def dedupSort_def firstById_def groupTxRows_def
      toDecoded_def nativeOrNull_def native_transfer_def eventName_def paymentRow_def isVerifiedSacTransfer_def assetTopic_def
      arr_def sacIdFor_def sample_sac_def topicText_def transferAmount_def betterMeta_def adminMeta_def Let_def List.map_filter_def)

theorem feed_is_proven_witness:
  "\<exists>it. loadActivityPage sample_sac (\<lambda>_. 5000) symbols_native (Inr []) (Inr [native_transfer]) ''CA'' {} = Inr [it] \<and>
     payment_proven sample_sac ''CA'' {} (toDecoded symbols_native native_transfer) it"
proof -
  obtain it where it: "loadActivityPage sample_sac (\<lambda>_. 5000) symbols_native (Inr []) (Inr [native_transfer]) ''CA'' {} = Inr [it]"
    "ai_kind it = ActPayment" using sample_page by blast
  have "eventName (toDecoded symbols_native native_transfer) = ''transfer''"
    by (simp add: eventName_def toDecoded_def native_transfer_def nativeOrNull_def)
  with feed_is_proven [of "[]" "''CA''" "[native_transfer]" symbols_native, OF _ _ it(1)] it show ?thesis by auto
qed

section \<open>Markup\<close>

definition ARROW_DOWN :: string where "ARROW_DOWN = [CHR 0xE2, CHR 0x86, CHR 0x93]"
definition ARROW_UP :: string where "ARROW_UP = [CHR 0xE2, CHR 0x86, CHR 0x91]"
definition BULLET :: string where "BULLET = [CHR 0xE2, CHR 0x80, CHR 0xA2]"
definition MINUS_SIGN :: string where "MINUS_SIGN = [CHR 0xE2, CHR 0x88, CHR 0x92]"

definition amountSpan :: "activity_item \<Rightarrow> string" where
  \<open>amountSpan it =
     (let sign = (if ai_kind it = ActPayment then (if ai_direction it = Some DirIn then ''+'' else MINUS_SIGN) else []);
          assetTag = esc (orElse (ai_asset it) []) @ (if ai_unverified it then '' '' @ MIDDLE_DOT @ '' unverified'' else [])
      in (case ai_amount it of
            Some (c # cs) \<Rightarrow> ''<span class="ramt">'' @ sign @ esc (c # cs) @ '' <small>'' @ assetTag @ ''</small></span>''
          | _ \<Rightarrow> []))\<close>

text \<open>\<open>shownTime\<close> is the date of the row as the browser prints it.\<close>

definition activityRowHtml :: "activity_item \<Rightarrow> string \<Rightarrow> string" where
  \<open>activityRowHtml it shownTime =
     (let icon = (if ai_kind it = ActPayment then (if ai_direction it = Some DirIn then ARROW_DOWN else ARROW_UP) else BULLET);
          iconCls = (if ai_kind it = ActPayment \<and> ai_direction it = Some DirIn then ''in'' else ''acc'')
      in ''<a class="row" href="'' @ esc (ai_explorerUrl it) @ ''" target="_blank" rel="noopener noreferrer">
      <span class="ricon '' @ iconCls @ ''">'' @ icon @ ''</span>
      <span class="rmain"><span class="rtitle">'' @ esc (ai_title it) @ ''</span><span class="rsub">'' @
      esc (orElse (ai_subtitle it) shownTime) @ ''</span></span>'' @ amountSpan it @ ''</a>'')\<close>

definition blank_item :: "activity_item \<Rightarrow> activity_item" where
  "blank_item it = it\<lparr>ai_title := [], ai_subtitle := None, ai_asset := None, ai_explorerUrl := [],
     ai_amount := (case ai_amount it of Some (c # cs) \<Rightarrow> Some ''0'' | _ \<Rightarrow> None)\<rparr>"

lemma blank_item_simps:
  "ai_kind (blank_item it) = ai_kind it" "ai_direction (blank_item it) = ai_direction it"
  "ai_unverified (blank_item it) = ai_unverified it"
  "ai_amount (blank_item it) = (case ai_amount it of Some (c # cs) \<Rightarrow> Some ''0'' | _ \<Rightarrow> None)"
  by (simp_all add: blank_item_def)

lemma amount_inert: "markup (amountSpan it) = markup (amountSpan (blank_item it))"
proof (cases "ai_amount it")
  case (Some s)
  then show ?thesis
    by (cases s) (simp_all only: amountSpan_def Let_def blank_item_simps card_simps option.case list.case)
qed (simp only: amountSpan_def Let_def blank_item_simps option.case)

lemma activity_row_inert: "markup (activityRowHtml it t) = markup (activityRowHtml (blank_item it) [])"
  by (simp only: activityRowHtml_def Let_def blank_item_simps card_simps amount_inert [of it])

end
