(* ===== verification/Assets.thy ===== *)
theory Assets
  imports Activity "HOL-Library.List_Lexorder" "HOL-Library.Char_ord"
begin

text \<open>
  The assets of an account (\<open>frontend/src/lib/assets\<close>): the curated lists (\<open>curated.ts\<close>), the tokens
  seen in recent events (\<open>discover.ts\<close>), the store of confirmed holdings (\<open>store.ts\<close>), balances
  (\<open>balances.ts\<close>, \<open>simulateRead.ts\<close>) and their combination (\<open>assets.ts\<close>, \<open>rowHtml.ts\<close>). \<open>fetch\<close>,
  the RPC, the URL parser and the order of codes are parameters. A stored value of a type the
  program never writes is read as absent.
\<close>

section \<open>Candidates\<close>

datatype asset_source = SrcNative | SrcCurated | SrcEvents | SrcStored

record asset_candidate =
  ac_contractId :: string
  ac_code :: "string option"
  ac_issuer :: "string option"
  ac_domain :: "string option"
  ac_decimals :: "int option"
  ac_icon :: "string option"
  ac_sac :: bool
  ac_source :: asset_source

record asset_holding =
  ah_contractId :: string
  ah_code :: string
  ah_issuer :: "string option"
  ah_domain :: "string option"
  ah_decimals :: int
  ah_raw :: int
  ah_formatted :: string
  ah_verified :: bool
  ah_icon :: "string option"
  ah_explorerUrl :: string

text \<open>\<open>a || b\<close> on texts, and a text that is there and not empty.\<close>

definition orText :: "string option \<Rightarrow> string option \<Rightarrow> string option" where
  "orText a b = (case a of Some (c # cs) \<Rightarrow> Some (c # cs) | _ \<Rightarrow> b)"

definition nonempty_text :: "json option \<Rightarrow> string option" where
  "nonempty_text j = (case j of Some (JStr (c # cs)) \<Rightarrow> Some (c # cs) | _ \<Rightarrow> None)"

definition MAX_DECIMALS :: int where "MAX_DECIMALS = 38"

definition sanitizeDecimals :: "int option \<Rightarrow> int option" where
  "sanitizeDecimals value = (case value of Some n \<Rightarrow> if 0 \<le> n \<and> n \<le> MAX_DECIMALS then Some n else None | None \<Rightarrow> None)"

text \<open>The scheme and the normalised form of an address, if it is one.\<close>

type_synonym url_parser = "string \<Rightarrow> (string \<times> string) option"

definition sanitizeIconUrl :: "url_parser \<Rightarrow> json option \<Rightarrow> string option" where
  "sanitizeIconUrl url value =
     (case nonempty_text value of
        None \<Rightarrow> None
      | Some v \<Rightarrow> (case url v of Some (protocol, href) \<Rightarrow> if protocol = ''https:'' then Some href else None | None \<Rightarrow> None))"

section \<open>Curated lists\<close>

definition CURATED_LIST_URL :: string where
  "CURATED_LIST_URL = ''https://api.stellar.expert/explorer/testnet/asset-list/top50''"

definition SOROSWAP_LIST_URL :: string where
  "SOROSWAP_LIST_URL = ''https://api.soroswap.finance/api/tokens''"

definition curatedEntry :: "url_parser \<Rightarrow> json \<Rightarrow> asset_candidate option" where
  "curatedEntry url e =
     (case field ''contract'' e of
        Some (JStr c) \<Rightarrow>
          if CONTRACT_ID_RE c then
            Some \<lparr>ac_contractId = c, ac_code = nonempty_text (field ''code'' e), ac_issuer = nonempty_text (field ''issuer'' e),
              ac_domain = nonempty_text (field ''domain'' e), ac_decimals = sanitizeDecimals (as_int (field ''decimals'' e)),
              ac_icon = sanitizeIconUrl url (field ''icon'' e), ac_sac = (nonempty_text (field ''issuer'' e) \<noteq> None), ac_source = SrcCurated\<rparr>
          else None
      | _ \<Rightarrow> None)"

text \<open>Reading a member of an entry that is \<open>null\<close> throws.\<close>

fun curatedEntries :: "url_parser \<Rightarrow> json list \<Rightarrow> asset_candidate list result" where
  "curatedEntries url [] = Inr []"
| "curatedEntries url (e # es) =
     (if e = JNull then Inl (TypeError ''Cannot read properties of null'')
      else bindR (curatedEntries url es) (\<lambda>cs. Inr (case curatedEntry url e of Some c \<Rightarrow> c # cs | None \<Rightarrow> cs)))"

definition parseAssetList :: "url_parser \<Rightarrow> json option \<Rightarrow> asset_candidate list result" where
  "parseAssetList url doc =
     (case ofield ''assets'' doc of Some (JArr es) \<Rightarrow> curatedEntries url es | _ \<Rightarrow> Inr [])"

definition pluckSoroswapNetwork :: "json option \<Rightarrow> json option" where
  "pluckSoroswapNetwork doc =
     (case doc of
        Some (JArr ns) \<Rightarrow> find (\<lambda>n. field ''network'' n = Some (JStr ''testnet'')) ns
      | _ \<Rightarrow> None)"

record asset_list =
  al_url :: string
  al_cacheKey :: string
  al_pluck :: "json option \<Rightarrow> json option"

definition LISTS :: "asset_list list" where
  "LISTS = [\<lparr>al_url = CURATED_LIST_URL, al_cacheKey = ''nido:assets:curated'', al_pluck = id\<rparr>,
     \<lparr>al_url = SOROSWAP_LIST_URL, al_cacheKey = ''nido:assets:curated:soroswap'', al_pluck = pluckSoroswapNetwork\<rparr>]"

text \<open>The document of an address: a failed request, a failed answer and an unreadable body are errors.\<close>

type_synonym list_fetch = "string \<Rightarrow> json result"

definition cachedList :: "url_parser \<Rightarrow> asset_list \<Rightarrow> local_storage \<Rightarrow> asset_candidate list" where
  "cachedList url l s =
     (case s (al_cacheKey l) of
        Some (c # cs) \<Rightarrow>
          (case bindR (parse_json (c # cs)) (\<lambda>j. parseAssetList url (al_pluck l (Some j))) of Inr v \<Rightarrow> v | Inl _ \<Rightarrow> [])
      | _ \<Rightarrow> [])"

definition fetchList :: "url_parser \<Rightarrow> list_fetch \<Rightarrow> asset_list \<Rightarrow> local_storage \<Rightarrow> asset_candidate list \<times> local_storage" where
  "fetchList url fetch l s =
     (case bindR (fetch (al_url l)) (\<lambda>doc. bindR (parseAssetList url (al_pluck l (Some doc))) (\<lambda>parsed. Inr (doc, parsed))) of
        Inl _ \<Rightarrow> (cachedList url l s, s)
      | Inr (doc, parsed) \<Rightarrow> (parsed, if parsed \<noteq> [] then setItem (al_cacheKey l) (stringify doc) s else s))"

definition fetchCuratedAssets :: "url_parser \<Rightarrow> list_fetch \<Rightarrow> local_storage \<Rightarrow> asset_candidate list \<times> local_storage" where
  "fetchCuratedAssets url fetch s =
     foldl (\<lambda>(out, s) l. case fetchList url fetch l s of (cs, s') \<Rightarrow> (out @ cs, s')) ([], s) LISTS"

definition curatedSacIds :: "string \<Rightarrow> asset_candidate list \<Rightarrow> string set" where
  "curatedSacIds native curated = insert native (ac_contractId ` set (filter ac_sac curated))"

section \<open>Tokens seen in events\<close>

definition topicAt :: "js_val list \<Rightarrow> nat \<Rightarrow> string" where
  "topicAt topics i = (if i < length topics then vtext (topics ! i) else ''undefined'')"

definition eventCandidate :: "string \<Rightarrow> js_val option \<Rightarrow> asset_candidate" where
  "eventCandidate cid t3 =
     (let sep11 = (case t3 of Some (VText s) \<Rightarrow> if CHR '':'' \<in> set s then Some (split_on CHR '':'' s) else None | _ \<Rightarrow> None);
          part = (\<lambda>i. case sep11 of Some ps \<Rightarrow> orText (Some (ps ! i)) None | None \<Rightarrow> None)
      in \<lparr>ac_contractId = cid, ac_code = part 0, ac_issuer = part 1, ac_domain = None, ac_decimals = None, ac_icon = None,
          ac_sac = (sep11 \<noteq> None \<or> t3 = Some (VText ''native'')), ac_source = SrcEvents\<rparr>)"

definition addTokenCandidate :: "string \<Rightarrow> to_native \<Rightarrow> string \<Rightarrow> asset_candidate list \<Rightarrow> raw_event \<Rightarrow> asset_candidate list" where
  "addTokenCandidate native conv self out e =
     (case re_contractId e of
        Some (c # cs) \<Rightarrow>
          let cid = c # cs; topics = map (nativeOrNull conv) (re_topic e)
          in if cid = native \<or> cid \<in> ac_contractId ` set out then out
             else if arr topics 0 \<noteq> Some (VText ''transfer'') then out
             else if topicAt topics 1 \<noteq> self \<and> topicAt topics 2 \<noteq> self then out
             else out @ [eventCandidate cid (arr topics 3)]
      | _ \<Rightarrow> out)"

definition extractTokenCandidates :: "string \<Rightarrow> to_native \<Rightarrow> raw_event list \<Rightarrow> string \<Rightarrow> asset_candidate list" where
  "extractTokenCandidates native conv raw self = foldl (addTokenCandidate native conv self) [] raw"

definition MAX_DISCOVERED :: nat where "MAX_DISCOVERED = 100"

definition discoverFromEvents :: "string \<Rightarrow> to_native \<Rightarrow> raw_event list result \<Rightarrow> string \<Rightarrow> asset_candidate list" where
  "discoverFromEvents native conv events address =
     (case events of Inl _ \<Rightarrow> [] | Inr raw \<Rightarrow> take MAX_DISCOVERED (extractTokenCandidates native conv raw address))"

section \<open>The store of confirmed holdings\<close>

definition MAX_STORED :: nat where "MAX_STORED = 100"

definition knownKey :: "string \<Rightarrow> string" where
  "knownKey account = ''nido:assets:known:'' @ account"

definition candidateOfJson :: "json \<Rightarrow> asset_candidate option" where
  "candidateOfJson a =
     map_option (\<lambda>c. \<lparr>ac_contractId = c, ac_code = as_string (field ''code'' a), ac_issuer = as_string (field ''issuer'' a),
         ac_domain = as_string (field ''domain'' a), ac_decimals = as_int (field ''decimals'' a), ac_icon = as_string (field ''icon'' a),
         ac_sac = truthy (field ''sac'' a), ac_source = SrcStored\<rparr>) (as_string (field ''contractId'' a))"

fun sourceText :: "asset_source \<Rightarrow> string" where
  "sourceText SrcNative = ''native''"
| "sourceText SrcCurated = ''curated''"
| "sourceText SrcEvents = ''events''"
| "sourceText SrcStored = ''stored''"

definition candidateJson :: "asset_candidate \<Rightarrow> json" where
  "candidateJson c = object [(''contractId'', Some (JStr (ac_contractId c))), (''code'', map_option JStr (ac_code c)),
     (''issuer'', map_option JStr (ac_issuer c)), (''domain'', map_option JStr (ac_domain c)),
     (''decimals'', map_option JNum (ac_decimals c)), (''icon'', map_option JStr (ac_icon c)),
     (''sac'', Some (JBool (ac_sac c))), (''source'', Some (JStr (sourceText (ac_source c))))]"

definition loadKnownAssets :: "string \<Rightarrow> local_storage \<Rightarrow> asset_candidate list" where
  "loadKnownAssets account s =
     (case s (knownKey account) of
        Some (c # cs) \<Rightarrow> (case parse_json (c # cs) of Inr (JArr vs) \<Rightarrow> List.map_filter candidateOfJson vs | _ \<Rightarrow> [])
      | _ \<Rightarrow> [])"

text \<open>\<open>new Map(\<dots>)\<close> keeps the place of the first entry of a key and the value of the last.\<close>

definition replaceKnownAssets :: "string \<Rightarrow> asset_candidate list \<Rightarrow> local_storage \<Rightarrow> local_storage" where
  "replaceKnownAssets account assets s =
     (let byId = foldl (\<lambda>m a. putMember m (ac_contractId a) a) [] assets
      in setItem (knownKey account) (stringify (JArr (map candidateJson (take MAX_STORED (map snd byId))))) s)"

section \<open>Balances\<close>

text \<open>A read-only call: its contract, function and arguments. A failed request propagates.\<close>

type_synonym read_rpc = "string \<Rightarrow> string \<Rightarrow> view_arg list \<Rightarrow> js_val simulation result"

definition simulateRead :: "read_rpc \<Rightarrow> string \<Rightarrow> string \<Rightarrow> view_arg list \<Rightarrow> js_val result" where
  "simulateRead rpc contract fn args =
     bindR (rpc contract fn args) (\<lambda>sim. Inr (case sim of SimValue (Inr v) \<Rightarrow> v | _ \<Rightarrow> VNull))"

definition balanceEntryAmount :: "js_val result \<Rightarrow> int option" where
  "balanceEntryAmount v =
     (case v of
        Inl _ \<Rightarrow> None
      | Inr (VBigint n) \<Rightarrow> Some n
      | Inr w \<Rightarrow> (case vfield ''amount'' w of Some (VBigint n) \<Rightarrow> Some n | _ \<Rightarrow> None))"

text \<open>The encoded ledger key of a token's balance entry for a holder, and the entries the RPC has for some keys.\<close>

record balance_rpc =
  br_key :: "string \<Rightarrow> string \<Rightarrow> string"
  br_entries :: "string list \<Rightarrow> (string \<times> js_val result) list result"

text \<open>\<open>new Map\<close> of the pairs: the last token of a key.\<close>

definition tokenOfKey :: "(string \<times> string) list \<Rightarrow> string \<Rightarrow> string option" where
  "tokenOfKey kts k = map_of (rev kts) k"

definition applyEntry ::
  "(string \<times> string) list \<Rightarrow> (string \<rightharpoonup> int) \<Rightarrow> string \<times> js_val result \<Rightarrow> (string \<rightharpoonup> int)" where
  "applyEntry kts out entry =
     (case (tokenOfKey kts (fst entry), balanceEntryAmount (snd entry)) of
        (Some token, Some n) \<Rightarrow> out(token \<mapsto> n)
      | _ \<Rightarrow> out)"

function balanceBatches ::
  "balance_rpc \<Rightarrow> (string \<times> string) list \<Rightarrow> string list \<Rightarrow> (string \<rightharpoonup> int) \<Rightarrow> (string \<rightharpoonup> int) result" where
  "balanceBatches rpc kts keys out =
     (if keys = [] then Inr out
      else bindR (br_entries rpc (take 200 keys)) (\<lambda>entries.
             balanceBatches rpc kts (drop 200 keys) (foldl (applyEntry kts) out entries)))"
  by pat_completeness auto

termination
  by (relation "measure (\<lambda>(_, _, keys, _). length keys)") auto

declare balanceBatches.simps [simp del]

definition fetchSacBalances :: "balance_rpc \<Rightarrow> string list \<Rightarrow> string \<Rightarrow> (string \<rightharpoonup> int) result" where
  "fetchSacBalances rpc tokenContracts holder =
     (let zero = (\<lambda>t. if t \<in> set tokenContracts then Some 0 else None);
          keys = map (\<lambda>t. br_key rpc t holder) tokenContracts
      in if tokenContracts = [] then Inr zero else balanceBatches rpc (zip keys tokenContracts) keys zero)"

record token_probe =
  tp_balance :: int
  tp_decimals :: int
  tp_symbol :: "string option"

definition metaKey :: "string \<Rightarrow> string" where
  "metaKey tokenContract = ''nido:assets:meta:'' @ tokenContract"

definition numberOf :: "js_val \<Rightarrow> int option" where
  "numberOf v = (case v of VNumber n \<Rightarrow> Some n | _ \<Rightarrow> None)"

definition cachedMeta :: "string \<Rightarrow> local_storage \<Rightarrow> (int \<times> string option) option" where
  "cachedMeta tokenContract s =
     (case parse_json (orElse (s (metaKey tokenContract)) ''null'') of
        Inr j \<Rightarrow> map_option (\<lambda>d. (d, as_string (field ''symbol'' j))) (sanitizeDecimals (as_int (field ''decimals'' j)))
      | Inl _ \<Rightarrow> None)"

definition probeSep41Token ::
  "read_rpc \<Rightarrow> string \<Rightarrow> string \<Rightarrow> local_storage \<Rightarrow> (token_probe option \<times> local_storage) result" where
  "probeSep41Token rpc tokenContract holder s =
     bindR (simulateRead rpc tokenContract ''balance'' [ArgAddress holder]) (\<lambda>balance.
       (case balance of
          VBigint n \<Rightarrow>
            if n \<le> 0 then Inr (Some \<lparr>tp_balance = n, tp_decimals = 0, tp_symbol = None\<rparr>, s)
            else (case cachedMeta tokenContract s of
                    Some (d, symb) \<Rightarrow> Inr (Some \<lparr>tp_balance = n, tp_decimals = d, tp_symbol = symb\<rparr>, s)
                  | None \<Rightarrow>
                      bindR (simulateRead rpc tokenContract ''decimals'' []) (\<lambda>decimals.
                      bindR (simulateRead rpc tokenContract ''symbol'' []) (\<lambda>symbol.
                        (case sanitizeDecimals (numberOf decimals) of
                           None \<Rightarrow> Inr (None, s)
                         | Some d \<Rightarrow>
                             let symb = (case symbol of VText t \<Rightarrow> Some t | _ \<Rightarrow> None)
                             in Inr (Some \<lparr>tp_balance = n, tp_decimals = d, tp_symbol = symb\<rparr>,
                                  setItem (metaKey tokenContract) (stringify (object [(''decimals'', Some (JNum d)),
                                    (''symbol'', map_option JStr symb)])) s)))))
        | _ \<Rightarrow> Inr (None, s)))"

section \<open>The list\<close>

definition MAX_PROBES :: nat where "MAX_PROBES = 20"

definition SAC_DECIMALS :: int where "SAC_DECIMALS = 7"

definition mergeInto :: "asset_candidate \<Rightarrow> asset_candidate \<Rightarrow> asset_candidate" where
  "mergeInto prev c = prev\<lparr>ac_code := orText (ac_code prev) (ac_code c), ac_issuer := orText (ac_issuer prev) (ac_issuer c),
     ac_domain := orText (ac_domain prev) (ac_domain c),
     ac_decimals := (case ac_decimals prev of Some d \<Rightarrow> Some d | None \<Rightarrow> ac_decimals c),
     ac_icon := orText (ac_icon prev) (ac_icon c), ac_sac := (ac_sac prev \<or> ac_sac c)\<rparr>"

fun addCandidate :: "asset_candidate list \<Rightarrow> asset_candidate \<Rightarrow> asset_candidate list" where
  "addCandidate [] c = [c]"
| "addCandidate (prev # cs) c =
     (if ac_contractId prev = ac_contractId c then mergeInto prev c # cs else prev # addCandidate cs c)"

definition mergeCandidates :: "asset_candidate list list \<Rightarrow> asset_candidate list" where
  "mergeCandidates groups = foldl addCandidate [] (concat groups)"

text \<open>\<open>collation\<close> gives the sort key of a code in the language of the page.\<close>

definition sortHoldings :: "string \<Rightarrow> (string \<Rightarrow> string) \<Rightarrow> asset_holding list \<Rightarrow> asset_holding list" where
  "sortHoldings native collation items =
     filter (\<lambda>h. ah_contractId h = native) items @
     sort_key (\<lambda>h. collation (ah_code h)) (filter (\<lambda>h. ah_contractId h \<noteq> native) items)"

definition toHolding :: "asset_candidate \<Rightarrow> int \<Rightarrow> int \<Rightarrow> asset_holding" where
  "toHolding c raw decimals =
     (let verified = ac_source c \<in> {SrcNative, SrcCurated}
      in \<lparr>ah_contractId = ac_contractId c, ah_code = orElse (orText (ac_code c) None) (shortAddr (ac_contractId c) 4 4),
          ah_issuer = ac_issuer c, ah_domain = ac_domain c, ah_decimals = decimals, ah_raw = raw,
          ah_formatted = formatDecimal (rawToDecimal raw decimals) 7, ah_verified = verified,
          ah_icon = (if verified then ac_icon c else None), ah_explorerUrl = EXPLORER_BASE @ ''/contract/'' @ ac_contractId c\<rparr>)"

text \<open>A failed probe is unknown; a definitive one may say that the contract is no token.\<close>

datatype probe_result = ProbeFailed | ProbeDone "token_probe option"

fun probeAll :: "read_rpc \<Rightarrow> string \<Rightarrow> asset_candidate list \<Rightarrow> local_storage \<Rightarrow> (asset_candidate \<times> probe_result) list \<times> local_storage" where
  "probeAll rpc address [] s = ([], s)"
| "probeAll rpc address (c # cs) s =
     (case probeSep41Token rpc (ac_contractId c) address s of
        Inl _ \<Rightarrow> (case probeAll rpc address cs s of (rs, s') \<Rightarrow> ((c, ProbeFailed) # rs, s'))
      | Inr (p, s1) \<Rightarrow> (case probeAll rpc address cs s1 of (rs, s') \<Rightarrow> ((c, ProbeDone p) # rs, s')))"

definition nativeCandidate :: "string \<Rightarrow> asset_candidate" where
  "nativeCandidate native = \<lparr>ac_contractId = native, ac_code = Some ''XLM'', ac_issuer = None, ac_domain = Some ''stellar.org'',
     ac_decimals = None, ac_icon = None, ac_sac = True, ac_source = SrcNative\<rparr>"

text \<open>The holdings of the contracts with a balance entry, and the contracts proven absent.\<close>

definition sacHolding :: "string \<Rightarrow> (string \<rightharpoonup> int) \<Rightarrow> asset_candidate \<Rightarrow> asset_holding + string" where
  "sacHolding native balances c =
     (let raw = orElse (balances (ac_contractId c)) 0
      in if raw \<le> 0 \<and> ac_contractId c \<noteq> native then Inr (ac_contractId c) else Inl (toHolding c raw SAC_DECIMALS))"

definition probeHolding :: "asset_candidate \<times> probe_result \<Rightarrow> (asset_holding + string) option" where
  "probeHolding r =
     (case r of
        (c, ProbeFailed) \<Rightarrow> None
      | (c, ProbeDone None) \<Rightarrow> Some (Inr (ac_contractId c))
      | (c, ProbeDone (Some p)) \<Rightarrow>
          if tp_balance p \<le> 0 then Some (Inr (ac_contractId c))
          else Some (Inl (toHolding (c\<lparr>ac_code := orText (ac_code c) (tp_symbol p)\<rparr>) (tp_balance p)
                 (orElse (ac_decimals c) (tp_decimals p)))))"

record assets_env =
  as_native :: string
  as_balances :: balance_rpc
  as_read :: read_rpc
  as_collation :: "string \<Rightarrow> string"

text \<open>What a load found: the results of the two kinds of reads, in the order of the candidates.\<close>

definition assetResults ::
  "assets_env \<Rightarrow> asset_candidate list \<Rightarrow> string \<Rightarrow> local_storage \<Rightarrow> ((asset_holding + string) list \<times> local_storage) result" where
  "assetResults env candidates address s =
     bindR (fetchSacBalances (as_balances env) (map ac_contractId (filter ac_sac candidates)) address) (\<lambda>sacBalances.
       case probeAll (as_read env) address (take MAX_PROBES (filter (\<lambda>c. \<not> ac_sac c) candidates)) s of
         (probes, s') \<Rightarrow>
           Inr (map (sacHolding (as_native env) sacBalances) (filter ac_sac candidates) @ List.map_filter probeHolding probes, s'))"

definition keepStored ::
  "string \<Rightarrow> string set \<Rightarrow> string set \<Rightarrow> string set \<Rightarrow> asset_candidate \<Rightarrow> bool" where
  "keepStored native curatedIds held confirmedAbsent c \<longleftrightarrow>
     ac_contractId c \<notin> curatedIds \<and> ac_contractId c \<noteq> native \<and>
     (ac_contractId c \<in> held \<or> ac_source c = SrcStored \<and> ac_contractId c \<notin> confirmedAbsent)"

text \<open>The body of the load, once the curated list and the events of the account are there.\<close>

definition holdingsOf :: "(asset_holding + string) list \<Rightarrow> asset_holding list" where
  "holdingsOf results = List.map_filter (\<lambda>r. case r of Inl h \<Rightarrow> Some h | Inr _ \<Rightarrow> None) results"

definition absentOf :: "(asset_holding + string) list \<Rightarrow> string list" where
  "absentOf results = List.map_filter (\<lambda>r. case r of Inr i \<Rightarrow> Some i | Inl _ \<Rightarrow> None) results"

definition assetCandidates ::
  "string \<Rightarrow> asset_candidate list \<Rightarrow> asset_candidate list \<Rightarrow> string \<Rightarrow> local_storage \<Rightarrow> asset_candidate list" where
  "assetCandidates native curated discovered address s =
     mergeCandidates [[nativeCandidate native], curated, loadKnownAssets address s, discovered]"

definition loadFrom ::
  "assets_env \<Rightarrow> asset_candidate list \<Rightarrow> asset_candidate list \<Rightarrow> string \<Rightarrow> local_storage \<Rightarrow>
   (asset_holding list \<times> local_storage) result" where
  "loadFrom env curated discovered address s =
     bindR (assetResults env (assetCandidates (as_native env) curated discovered address s) address s) (\<lambda>(results, s').
       Inr (sortHoldings (as_native env) (as_collation env) (holdingsOf results),
         replaceKnownAssets address
           (filter (keepStored (as_native env) (ac_contractId ` set curated) (ah_contractId ` set (holdingsOf results)) (set (absentOf results)))
             (mergeCandidates [loadKnownAssets address s, discovered])) s'))"

definition loadAssets ::
  "assets_env \<Rightarrow> url_parser \<Rightarrow> list_fetch \<Rightarrow> to_native \<Rightarrow> raw_event list result \<Rightarrow> string \<Rightarrow> local_storage \<Rightarrow>
   (asset_holding list \<times> local_storage) result" where
  "loadAssets env url fetch conv events address s =
     (case fetchCuratedAssets url fetch s of
        (curated, s') \<Rightarrow> loadFrom env curated (discoverFromEvents (as_native env) conv events address) address s')"

section \<open>Merging\<close>

lemma source_addCandidate:
  "map_of (map (\<lambda>c. (ac_contractId c, ac_source c)) (addCandidate cs c)) =
     map_of (map (\<lambda>c. (ac_contractId c, ac_source c)) (cs @ [c]))"
  by (induction cs) (auto simp: mergeInto_def fun_eq_iff map_add_def split: option.splits)

lemma ids_addCandidate:
  "map ac_contractId (addCandidate cs c) =
     (if ac_contractId c \<in> ac_contractId ` set cs then map ac_contractId cs else map ac_contractId cs @ [ac_contractId c])"
  by (induction cs) (auto simp: mergeInto_def)

lemma source_merge_fold:
  "map_of (map (\<lambda>c. (ac_contractId c, ac_source c)) (foldl addCandidate acc cs)) =
     map_of (map (\<lambda>c. (ac_contractId c, ac_source c)) (acc @ cs))"
  by (induction cs arbitrary: acc) (simp_all add: source_addCandidate)

lemma ids_merge_fold:
  "distinct (map ac_contractId acc) \<Longrightarrow>
     distinct (map ac_contractId (foldl addCandidate acc cs)) \<and>
     ac_contractId ` set (foldl addCandidate acc cs) = ac_contractId ` set (acc @ cs)"
proof (induction cs arbitrary: acc)
  case (Cons c cs)
  have "ac_contractId ` set (addCandidate acc c) = ac_contractId ` set (acc @ [c])"
    using arg_cong [OF ids_addCandidate [of acc c], of set] by auto
  then show ?case using Cons.IH [of "addCandidate acc c"] Cons.prems by (auto simp: ids_addCandidate)
qed simp

lemma merge_distinct [simp]: "distinct (map ac_contractId (mergeCandidates gs))"
  using ids_merge_fold [of "[]"] by (simp add: mergeCandidates_def)

lemma merge_ids: "ac_contractId ` set (mergeCandidates gs) = ac_contractId ` set (concat gs)"
  using ids_merge_fold [of "[]"] by (simp add: mergeCandidates_def)

lemma merge_source:
  assumes "c \<in> set (mergeCandidates gs)"
  shows "map_of (map (\<lambda>c. (ac_contractId c, ac_source c)) (concat gs)) (ac_contractId c) = Some (ac_source c)"
proof -
  let ?p = "\<lambda>c. (ac_contractId c, ac_source c)"
  have "map_of (map ?p (mergeCandidates gs)) (ac_contractId c) = Some (ac_source c)"
    using assms by (intro map_of_is_SomeI) (auto simp: comp_def)
  then show ?thesis using source_merge_fold [of "[]" "concat gs"] by (simp add: mergeCandidates_def)
qed

lemma source_of_group:
  "(\<And>c. c \<in> set cs \<Longrightarrow> ac_source c = k) \<Longrightarrow>
     map_of (map (\<lambda>c. (ac_contractId c, ac_source c)) cs) i = (if i \<in> ac_contractId ` set cs then Some k else None)"
  by (induction cs) auto

lemma merge_prefix: "\<exists>r. map ac_contractId (foldl addCandidate acc cs) = map ac_contractId acc @ r"
proof (induction cs arbitrary: acc)
  case (Cons c cs)
  obtain r where "map ac_contractId (foldl addCandidate (addCandidate acc c) cs) = map ac_contractId (addCandidate acc c) @ r"
    using Cons.IH by blast
  then show ?case by (simp add: ids_addCandidate)
qed simp

lemma merge_length: "length (foldl addCandidate acc cs) \<le> length acc + length cs"
proof (induction cs arbitrary: acc)
  case (Cons c cs)
  have "length (addCandidate acc c) \<le> Suc (length acc)" by (induction acc) auto
  then show ?case using Cons.IH [of "addCandidate acc c"] by simp
qed simp

lemma curated_source: "c \<in> set (fst (fetchCuratedAssets url fetch s)) \<Longrightarrow> ac_source c = SrcCurated"
proof -
  have entry: "curatedEntry url e = Some c \<Longrightarrow> ac_source c = SrcCurated" for e c
    by (auto simp: curatedEntry_def split: option.splits json.splits if_splits)
  have entries: "curatedEntries url es = Inr cs \<Longrightarrow> c \<in> set cs \<Longrightarrow> ac_source c = SrcCurated" for es cs c
    by (induction es arbitrary: cs) (auto simp: bindR_Inr_iff split: if_splits option.splits dest: entry)
  have list: "parseAssetList url j = Inr cs \<Longrightarrow> c \<in> set cs \<Longrightarrow> ac_source c = SrcCurated" for j cs c
    by (auto simp: parseAssetList_def split: option.splits json.splits dest: entries)
  have one: "c \<in> set (fst (fetchList url fetch l s)) \<Longrightarrow> ac_source c = SrcCurated" for l s c
    by (auto simp: fetchList_def cachedList_def bindR_Inr_iff bindR_Inr_iff [THEN eq_commute [THEN trans]] split: sum.splits option.splits list.splits dest: list)
  assume "c \<in> set (fst (fetchCuratedAssets url fetch s))"
  then show ?thesis
    by (auto simp: fetchCuratedAssets_def LISTS_def split: prod.splits) (metis one fst_conv)+
qed

lemma discovered_source: "c \<in> set (discoverFromEvents native conv events address) \<Longrightarrow> ac_source c = SrcEvents"
proof -
  have step: "\<forall>c \<in> set (addTokenCandidate native conv address out e). ac_source c = SrcEvents"
    if "\<forall>c \<in> set out. ac_source c = SrcEvents" for out e
    using that by (auto simp: addTokenCandidate_def eventCandidate_def Let_def split: option.splits list.splits)
  have "\<forall>c \<in> set (foldl (addTokenCandidate native conv address) out raw). ac_source c = SrcEvents"
    if "\<forall>c \<in> set out. ac_source c = SrcEvents" for out raw
    using that
  proof (induction raw arbitrary: out)
    case (Cons e raw)
    show ?case using Cons.IH [OF step [OF Cons.prems]] by simp
  qed simp
  from this [of "[]"] show "c \<in> set (discoverFromEvents native conv events address) \<Longrightarrow> ac_source c = SrcEvents"
    by (auto simp: discoverFromEvents_def extractTokenCandidates_def split: sum.splits dest: in_set_takeD)
qed

lemma stored_source: "c \<in> set (loadKnownAssets address s) \<Longrightarrow> ac_source c = SrcStored"
  by (auto simp: loadKnownAssets_def candidateOfJson_def List.map_filter_def split: option.splits list.splits sum.splits json.splits)

section \<open>What a load reports and keeps\<close>

lemma probe_read:
  assumes "probeSep41Token rpc i address s = Inr (p, s')"
  shows "case p of
       Some tp \<Rightarrow> simulateRead rpc i ''balance'' [ArgAddress address] = Inr (VBigint (tp_balance tp))
     | None \<Rightarrow> (\<exists>v. simulateRead rpc i ''balance'' [ArgAddress address] = Inr v \<and> (\<forall>n. v \<noteq> VBigint n)) \<or>
               (\<exists>v. simulateRead rpc i ''decimals'' [] = Inr v \<and> sanitizeDecimals (numberOf v) = None)"
proof -
  obtain v where balance: "simulateRead rpc i ''balance'' [ArgAddress address] = Inr v"
    using assms by (auto simp: probeSep41Token_def bindR_Inr_iff)
  show ?thesis
  proof (cases "\<exists>n. v = VBigint n")
    case True
    then show ?thesis
      using assms balance
      by (auto simp: probeSep41Token_def bindR_Inr_iff Let_def split: if_splits option.splits)
  next
    case False
    then have "p = None" using assms balance by (cases v) (simp_all add: probeSep41Token_def)
    with False balance show ?thesis by simp
  qed
qed

lemma probed: "map fst (fst (probeAll rpc address cs s)) = cs"
  by (induction cs arbitrary: s) (auto simp: split_beta split: sum.splits)

lemma probe_done:
  "(c, ProbeDone p) \<in> set (fst (probeAll rpc address cs s)) \<Longrightarrow> \<exists>s0 s1. probeSep41Token rpc (ac_contractId c) address s0 = Inr (p, s1)"
  by (induction cs arbitrary: s) (auto simp: split_beta split: sum.splits, blast+)

text \<open>The balance the chain answered for a token, and whether it answered that the token is not held.\<close>

definition readBalance :: "assets_env \<Rightarrow> asset_candidate list \<Rightarrow> string \<Rightarrow> string \<Rightarrow> int option result" where
  "readBalance env candidates address i =
     (if i \<in> ac_contractId ` set (filter ac_sac candidates)
      then bindR (fetchSacBalances (as_balances env) (map ac_contractId (filter ac_sac candidates)) address)
             (\<lambda>b. Inr (Some (orElse (b i) 0)))
      else bindR (simulateRead (as_read env) i ''balance'' [ArgAddress address])
             (\<lambda>v. Inr (case v of VBigint n \<Rightarrow> Some n | _ \<Rightarrow> None)))"

definition shownAbsent :: "assets_env \<Rightarrow> asset_candidate list \<Rightarrow> string \<Rightarrow> string \<Rightarrow> bool" where
  "shownAbsent env candidates address i \<longleftrightarrow>
     (case readBalance env candidates address i of
        Inl _ \<Rightarrow> False | Inr None \<Rightarrow> True | Inr (Some n) \<Rightarrow> n \<le> 0) \<or>
     i \<notin> ac_contractId ` set (filter ac_sac candidates) \<and>
     (case simulateRead (as_read env) i ''decimals'' [] of
        Inl _ \<Rightarrow> False | Inr v \<Rightarrow> sanitizeDecimals (numberOf v) = None)"

definition resultId :: "asset_holding + string \<Rightarrow> string" where
  "resultId r = (case r of Inl h \<Rightarrow> ah_contractId h | Inr i \<Rightarrow> i)"

text \<open>The result of one candidate is what the chain answered about it.\<close>

definition result_ok :: "assets_env \<Rightarrow> asset_candidate list \<Rightarrow> string \<Rightarrow> asset_candidate \<Rightarrow> asset_holding + string \<Rightarrow> bool" where
  "result_ok env candidates address c r \<longleftrightarrow>
     resultId r = ac_contractId c \<and>
     (case r of
        Inl h \<Rightarrow> readBalance env candidates address (ac_contractId c) = Inr (Some (ah_raw h)) \<and>
          (ah_contractId h \<noteq> as_native env \<longrightarrow> 0 < ah_raw h) \<and>
          (ah_verified h \<longleftrightarrow> ac_source c \<in> {SrcNative, SrcCurated}) \<and> (ah_icon h \<noteq> None \<longrightarrow> ah_verified h)
      | Inr i \<Rightarrow> i \<noteq> as_native env \<and> shownAbsent env candidates address i)"

lemma toHolding_sel [simp]:
  "ah_contractId (toHolding c n d) = ac_contractId c" "ah_raw (toHolding c n d) = n"
  "ah_verified (toHolding c n d) \<longleftrightarrow> ac_source c \<in> {SrcNative, SrcCurated}"
  "ah_icon (toHolding c n d) = (if ac_source c \<in> {SrcNative, SrcCurated} then ac_icon c else None)"
  by (simp_all add: toHolding_def Let_def)

lemma sac_ok:
  assumes "fetchSacBalances (as_balances env) (map ac_contractId (filter ac_sac candidates)) address = Inr b"
    and "c \<in> set candidates" "ac_sac c"
  shows "result_ok env candidates address c (sacHolding (as_native env) b c)"
  using assms by (auto simp: result_ok_def sacHolding_def resultId_def readBalance_def shownAbsent_def Let_def image_iff)

lemma probe_ok:
  assumes "(c, p) \<in> set (fst (probeAll (as_read env) address cs s))" "probeHolding (c, p) = Some r"
    and "ac_contractId c \<notin> ac_contractId ` set (filter ac_sac candidates)" "ac_contractId c \<noteq> as_native env"
  shows "result_ok env candidates address c r"
proof -
  obtain tp s0 s1 where "p = ProbeDone tp" and probe: "probeSep41Token (as_read env) (ac_contractId c) address s0 = Inr (tp, s1)"
    using assms(1,2) by (cases p) (auto simp: probeHolding_def dest: probe_done)
  with probe_read [OF probe] assms(2-) show ?thesis
    by (auto simp: result_ok_def probeHolding_def resultId_def readBalance_def shownAbsent_def bindR_Inr_iff
        split: option.splits if_splits js_val.splits)
qed

lemma map_filter_ids:
  "(\<And>x y. f x = Some y \<Longrightarrow> g y = k x) \<Longrightarrow> distinct (map k xs) \<Longrightarrow>
     distinct (map g (List.map_filter f xs)) \<and> g ` set (List.map_filter f xs) \<subseteq> k ` set xs"
proof (induction xs)
  case (Cons x xs)
  then show ?case by (cases "f x") (auto simp: List.map_filter_def)
qed (simp add: List.map_filter_def)

lemma set_holdingsOf [simp]: "h \<in> set (holdingsOf rs) \<longleftrightarrow> Inl h \<in> set rs"
  by (force simp: holdingsOf_def List.map_filter_def split: sum.splits)

lemma set_absentOf [simp]: "i \<in> set (absentOf rs) \<longleftrightarrow> Inr i \<in> set rs"
  by (force simp: absentOf_def List.map_filter_def split: sum.splits)

lemma probe_id: "probeHolding r = Some x \<Longrightarrow> resultId x = ac_contractId (fst r)"
  by (cases r) (auto simp: probeHolding_def resultId_def split: probe_result.splits option.splits if_splits)

lemma distinct_ids: "distinct (map ac_contractId cs) \<Longrightarrow> c \<in> set cs \<Longrightarrow> d \<in> set cs \<Longrightarrow> ac_contractId c = ac_contractId d \<Longrightarrow> c = d"
  by (auto simp: distinct_map dest: inj_onD)

lemma results_ok:
  assumes res: "assetResults env cs address s = Inr (results, s')" and ids: "distinct (map ac_contractId cs)"
    and native: "\<And>c. c \<in> set cs \<Longrightarrow> ac_contractId c = as_native env \<Longrightarrow> ac_sac c"
  shows "distinct (map resultId results) \<and> (\<forall>r \<in> set results. \<exists>c \<in> set cs. result_ok env cs address c r) \<and>
     ac_contractId ` set (filter ac_sac cs) \<subseteq> resultId ` set results"
proof -
  let ?others = "take MAX_PROBES (filter (\<lambda>c. \<not> ac_sac c) cs)"
  define ps where "ps = fst (probeAll (as_read env) address ?others s)"
  obtain b where b: "fetchSacBalances (as_balances env) (map ac_contractId (filter ac_sac cs)) address = Inr b"
    and results: "results = map (sacHolding (as_native env) b) (filter ac_sac cs) @ List.map_filter probeHolding ps"
    using res by (auto simp: assetResults_def bindR_Inr_iff ps_def case_prod_beta)
  have others: "map fst ps = ?others" by (simp add: ps_def probed)
  have sac_ids: "map (resultId \<circ> sacHolding (as_native env) b) (filter ac_sac cs) = map ac_contractId (filter ac_sac cs)"
    by (simp add: sacHolding_def resultId_def Let_def)
  have apart: "ac_contractId c \<notin> ac_contractId ` set (filter ac_sac cs)" if "c \<in> set ?others" for c
    using that ids by (auto dest!: in_set_takeD dest: distinct_ids)
  have probes: "distinct (map resultId (List.map_filter probeHolding ps))"
    "resultId ` set (List.map_filter probeHolding ps) \<subseteq> (\<lambda>r. ac_contractId (fst r)) ` set ps"
  proof -
    have "map (\<lambda>r. ac_contractId (fst r)) ps = map ac_contractId ?others"
      using arg_cong [OF others, of "map ac_contractId"] by (simp add: comp_def)
    then have "distinct (map (\<lambda>r. ac_contractId (fst r)) ps)" using ids by (simp add: distinct_map_filter take_map [symmetric])
    then show "distinct (map resultId (List.map_filter probeHolding ps))"
      "resultId ` set (List.map_filter probeHolding ps) \<subseteq> (\<lambda>r. ac_contractId (fst r)) ` set ps"
      using map_filter_ids [of probeHolding resultId "\<lambda>r. ac_contractId (fst r)" ps] by (simp_all add: probe_id)
  qed
  have fst_ps: "fst r \<in> set ?others" if "r \<in> set ps" for r
  proof -
    have "fst r \<in> set (map fst ps)" using that by (simp only: set_map imageI)
    then show ?thesis by (simp only: others)
  qed
  have "r \<notin> ac_contractId ` set (filter ac_sac cs)" if "r \<in> resultId ` set (List.map_filter probeHolding ps)" for r
  proof -
    have "r \<in> (\<lambda>r. ac_contractId (fst r)) ` set ps" by (rule subsetD [OF probes(2) that])
    then obtain x where "x \<in> set ps" "r = ac_contractId (fst x)" by (rule imageE)
    then show ?thesis using apart [OF fst_ps] by simp
  qed
  then have "distinct (map resultId (map (sacHolding (as_native env) b) (filter ac_sac cs)) @ map resultId (List.map_filter probeHolding ps))"
    unfolding map_map sac_ids using probes(1) ids by (auto simp: distinct_map_filter simp del: set_filter)
  then have "distinct (map resultId results)" by (simp add: results)
  moreover have "\<exists>c \<in> set cs. result_ok env cs address c r" if "r \<in> set results" for r
  proof (cases "r \<in> set (List.map_filter probeHolding ps)")
    case True
    then obtain c p where cp: "(c, p) \<in> set ps" "probeHolding (c, p) = Some r" by (auto simp: List.map_filter_def)
    have c: "c \<in> set ?others" using fst_ps [OF cp(1)] by simp
    then have "c \<in> set cs" "\<not> ac_sac c" by (auto dest: in_set_takeD)
    moreover have "result_ok env cs address c r"
    proof (rule probe_ok [OF _ cp(2) apart [OF c]])
      show "(c, p) \<in> set (fst (probeAll (as_read env) address ?others s))" using cp(1) by (simp add: ps_def)
      show "ac_contractId c \<noteq> as_native env" using native calculation by blast
    qed
    ultimately show ?thesis by blast
  next
    case False
    then show ?thesis using that sac_ok [OF b] by (auto simp: results)
  qed
  moreover have "ac_contractId ` set (filter ac_sac cs) \<subseteq> resultId ` set results"
    using arg_cong [OF sac_ids, of set] by (auto simp: results image_image comp_def)
  ultimately show ?thesis by blast
qed

text \<open>The tokens kept, read back.\<close>

lemma candidate_read_back: "candidateOfJson (candidateJson c) = Some (c\<lparr>ac_source := SrcStored\<rparr>)"
  by (cases "ac_code c"; cases "ac_issuer c"; cases "ac_domain c"; cases "ac_decimals c"; cases "ac_icon c")
    (simp_all add: candidateOfJson_def candidateJson_def truthy_def asset_candidate.equality)

lemma wf_candidateJson: "wf_json (candidateJson c)"
  by (cases "ac_code c"; cases "ac_issuer c"; cases "ac_domain c"; cases "ac_decimals c"; cases "ac_icon c")
    (simp_all add: candidateJson_def)

lemma distinct_byId:
  "distinct (map fst m @ map ac_contractId cs) \<Longrightarrow>
     map snd (foldl (\<lambda>m a. putMember m (ac_contractId a) a) m cs) = map snd m @ cs"
proof (induction cs arbitrary: m)
  case (Cons c cs)
  have "ac_contractId c \<notin> fst ` set m" using Cons.prems by (simp flip: set_map)
  moreover have "distinct (map fst (m @ [(ac_contractId c, c)]) @ map ac_contractId cs)" using Cons.prems by simp
  ultimately show ?case using Cons.IH [of "m @ [(ac_contractId c, c)]"] by (simp add: putMember_new)
qed simp

lemma known_read_back:
  assumes "distinct (map ac_contractId cs)"
  shows "loadKnownAssets address (replaceKnownAssets address cs s) = map (\<lambda>c. c\<lparr>ac_source := SrcStored\<rparr>) (take MAX_STORED cs)"
proof -
  let ?j = "JArr (map candidateJson (take MAX_STORED cs))"
  have stored: "replaceKnownAssets address cs s = setItem (knownKey address) (stringify ?j) s"
    using distinct_byId [of "[]" cs] assms by (simp add: replaceKnownAssets_def Let_def)
  have "wf_json ?j" by (simp add: list_all_iff wf_candidateJson)
  then have parsed: "parse_json (stringify ?j) = Inr ?j" by (rule json_round_trip)
  have "List.map_filter candidateOfJson (map candidateJson xs) = map (\<lambda>c. c\<lparr>ac_source := SrcStored\<rparr>) xs" for xs
    by (induction xs) (simp_all add: List.map_filter_def candidate_read_back)
  with parsed show ?thesis
    unfolding stored loadKnownAssets_def by (cases "stringify ?j") (auto simp: setItem_def simp del: stringify.simps)
qed

lemma kept_prefix:
  assumes stored: "\<And>c. c \<in> set xs \<Longrightarrow> ac_source c = SrcStored" and len: "length xs \<le> n"
    and i: "i \<in> ac_contractId ` set xs" and P: "\<And>c :: asset_candidate. ac_contractId c = i \<Longrightarrow> ac_source c = SrcStored \<Longrightarrow> P c"
  shows "i \<in> ac_contractId ` set (take n (filter P (mergeCandidates [xs, ys])))"
proof -
  let ?m = "mergeCandidates [xs, ys]" and ?k = "length (foldl addCandidate [] xs)"
  obtain r where r: "map ac_contractId ?m = map ac_contractId (foldl addCandidate [] xs) @ r"
    using merge_prefix [of "foldl addCandidate [] xs" ys] by (auto simp: mergeCandidates_def)
  then have "map ac_contractId (take ?k ?m) = map ac_contractId (foldl addCandidate [] xs)"
    by (metis append_eq_conv_conj length_map take_map)
  with i have "i \<in> ac_contractId ` set (take ?k ?m)"
    using ids_merge_fold [of "[]" xs] by (metis append_Nil distinct.simps(1) list.simps(8) set_map)
  then obtain c where c: "c \<in> set (take ?k ?m)" "i = ac_contractId c" by (rule imageE)
  have "map_of (map (\<lambda>c. (ac_contractId c, ac_source c)) xs) i = Some SrcStored"
    using source_of_group [of xs SrcStored i] stored i by simp
  with merge_source [OF in_set_takeD [OF c(1)]] have "ac_source c = SrcStored" by (simp add: c(2) map_add_Some_iff)
  with c P have "c \<in> set (filter P (take ?k ?m))" by simp
  moreover have "filter P (take ?k ?m) = take (length (filter P (take ?k ?m))) (filter P ?m)"
    by (metis append_eq_conv_conj append_take_drop_id filter_append)
  moreover have "length (filter P (take ?k ?m)) \<le> n"
    using merge_length [of "[]" xs] len length_filter_le [of P "take ?k ?m"] by simp
  ultimately have "c \<in> set (take n (filter P ?m))"
    by (metis set_take_subset_set_take subsetD)
  with c(2) show ?thesis by blast
qed

section \<open>Holdings and the store\<close>

lemma fetchList_key: "knownKey a \<noteq> al_cacheKey l \<Longrightarrow> snd (fetchList url fetch l s) (knownKey a) = s (knownKey a)"
  by (simp add: fetchList_def setItem_def split: sum.split prod.split)

lemma fetchCurated_key: "loadKnownAssets a (snd (fetchCuratedAssets url fetch s)) = loadKnownAssets a s"
proof -
  have keys: "knownKey a \<noteq> ''nido:assets:curated''" "knownKey a \<noteq> ''nido:assets:curated:soroswap''"
    by (simp_all add: knownKey_def)
  have "snd (fetchCuratedAssets url fetch s) (knownKey a) = s (knownKey a)"
    using keys by (simp add: fetchCuratedAssets_def LISTS_def case_prod_beta fetchList_key)
  then show ?thesis by (simp add: loadKnownAssets_def)
qed

text \<open>The candidates of a load, by the source each is known from.\<close>

lemma candidate_sources:
  assumes c: "c \<in> set (assetCandidates native curated discovered address s)"
    and curated: "\<And>c. c \<in> set curated \<Longrightarrow> ac_source c = SrcCurated"
    and discovered: "\<And>c. c \<in> set discovered \<Longrightarrow> ac_source c = SrcEvents"
  shows "ac_source c \<in> {SrcNative, SrcCurated} \<longleftrightarrow> ac_contractId c \<in> insert native (ac_contractId ` set curated)"
proof -
  note src = merge_source [OF c [unfolded assetCandidates_def]]
  have "ac_contractId c \<notin> insert native (ac_contractId ` set curated) \<Longrightarrow> ac_source c \<in> {SrcStored, SrcEvents}"
    using src source_of_group [of curated SrcCurated "ac_contractId c"] curated
      source_of_group [of discovered SrcEvents "ac_contractId c"] discovered
      source_of_group [of "loadKnownAssets address s" SrcStored "ac_contractId c"] stored_source
    by (auto simp: nativeCandidate_def map_add_Some_iff map_add_def split: if_splits option.splits)
  moreover have "ac_contractId c \<in> insert native (ac_contractId ` set curated) \<Longrightarrow> ac_source c \<in> {SrcNative, SrcCurated}"
    using src source_of_group [of curated SrcCurated "ac_contractId c"] curated
    by (auto simp: nativeCandidate_def map_add_def split: if_splits option.splits)
  ultimately show ?thesis by (metis asset_source.distinct insertE singletonD)
qed

lemma native_candidate: "c \<in> set (assetCandidates native curated discovered address s) \<Longrightarrow> ac_contractId c = native \<Longrightarrow> ac_sac c"
  and native_there: "native \<in> ac_contractId ` set (filter ac_sac (assetCandidates native curated discovered address s))"
proof -
  have hd: "\<exists>d ds. foldl addCandidate (c # cs) xs = d # ds \<and> ac_contractId d = ac_contractId c \<and> (ac_sac c \<longrightarrow> ac_sac d)" for c cs xs
  proof (induction xs arbitrary: c cs)
    case (Cons x xs)
    show ?case
    proof (cases "ac_contractId c = ac_contractId x")
      case True
      show ?thesis using Cons.IH [of "mergeInto c x" cs] True by (simp add: mergeInto_def) blast
    next
      case False
      show ?thesis using Cons.IH [of c "addCandidate cs x"] False by simp
    qed
  qed simp
  obtain d ds where d: "assetCandidates native curated discovered address s = d # ds" "ac_contractId d = native" "ac_sac d"
    using hd [of "nativeCandidate native" "[]" "curated @ loadKnownAssets address s @ discovered"]
    by (auto simp: assetCandidates_def mergeCandidates_def nativeCandidate_def)
  then show "native \<in> ac_contractId ` set (filter ac_sac (assetCandidates native curated discovered address s))" by auto
  assume "c \<in> set (assetCandidates native curated discovered address s)" "ac_contractId c = native"
  moreover have "distinct (map ac_contractId (assetCandidates native curated discovered address s))"
    by (simp add: assetCandidates_def)
  ultimately show "ac_sac c" using d by (metis distinct_ids list.set_intros(1))
qed

text \<open>The candidates of a whole load.\<close>

definition candidatesOf ::
  "assets_env \<Rightarrow> url_parser \<Rightarrow> list_fetch \<Rightarrow> to_native \<Rightarrow> raw_event list result \<Rightarrow> string \<Rightarrow> local_storage \<Rightarrow> asset_candidate list" where
  "candidatesOf env url fetch conv events address s =
     assetCandidates (as_native env) (fst (fetchCuratedAssets url fetch s)) (discoverFromEvents (as_native env) conv events address) address s"

lemma load_parts:
  assumes "loadAssets env url fetch conv events address s = Inr (hs, s')"
  obtains results s1 where
    "hs = sortHoldings (as_native env) (as_collation env) (holdingsOf results)"
    "s' = replaceKnownAssets address
        (filter (keepStored (as_native env) (ac_contractId ` set (fst (fetchCuratedAssets url fetch s)))
             (ah_contractId ` set (holdingsOf results)) (set (absentOf results)))
          (mergeCandidates [loadKnownAssets address s, discoverFromEvents (as_native env) conv events address])) s1"
    "distinct (map resultId results)"
    "\<forall>r \<in> set results. \<exists>c \<in> set (candidatesOf env url fetch conv events address s).
       result_ok env (candidatesOf env url fetch conv events address s) address c r"
    "ac_contractId ` set (filter ac_sac (candidatesOf env url fetch conv events address s)) \<subseteq> resultId ` set results"
proof -
  let ?cs = "candidatesOf env url fetch conv events address s"
  obtain results s1 where res: "assetResults env ?cs address (snd (fetchCuratedAssets url fetch s)) = Inr (results, s1)"
    and hs: "hs = sortHoldings (as_native env) (as_collation env) (holdingsOf results)"
    and s': "s' = replaceKnownAssets address
        (filter (keepStored (as_native env) (ac_contractId ` set (fst (fetchCuratedAssets url fetch s)))
             (ah_contractId ` set (holdingsOf results)) (set (absentOf results)))
          (mergeCandidates [loadKnownAssets address s, discoverFromEvents (as_native env) conv events address])) s1"
    using assms by (auto simp: loadAssets_def loadFrom_def case_prod_beta bindR_Inr_iff candidatesOf_def assetCandidates_def fetchCurated_key)
  have "distinct (map ac_contractId ?cs)" by (simp add: candidatesOf_def assetCandidates_def)
  moreover have "ac_sac c" if "c \<in> set ?cs" "ac_contractId c = as_native env" for c
    using that unfolding candidatesOf_def by (rule native_candidate)
  ultimately have "distinct (map resultId results) \<and> (\<forall>r \<in> set results. \<exists>c \<in> set ?cs. result_ok env ?cs address c r) \<and>
     ac_contractId ` set (filter ac_sac ?cs) \<subseteq> resultId ` set results"
    using res by (rule results_ok [rotated]) 
  then show ?thesis using that hs s' by blast
qed

lemma set_sortHoldings [simp]: "set (sortHoldings native collation hs) = set hs"
  by (auto simp: sortHoldings_def)

lemma ids_sortHoldings: "distinct (map ah_contractId hs) \<Longrightarrow> distinct (map ah_contractId (sortHoldings native collation hs))"
  unfolding sortHoldings_def map_append distinct_append
  by (auto simp: distinct_map intro: inj_on_subset)

text \<open>
  The list of assets says what the chain answered: each token once and XLM always, every amount
  the balance that was read and, XLM apart, positive; a token with a balance entry and a positive
  balance is never left out; only XLM and curated tokens are shown as verified, and only those
  carry an icon.
\<close>

theorem holdings_are_read:
  assumes load: "loadAssets env url fetch conv events address s = Inr (hs, s')"
  shows "distinct (map ah_contractId hs) \<and> as_native env \<in> ah_contractId ` set hs \<and>
    (\<forall>h \<in> set hs.
       readBalance env (candidatesOf env url fetch conv events address s) address (ah_contractId h) = Inr (Some (ah_raw h)) \<and>
       (ah_contractId h \<noteq> as_native env \<longrightarrow> 0 < ah_raw h) \<and>
       (ah_verified h \<longleftrightarrow> ah_contractId h \<in> insert (as_native env) (ac_contractId ` set (fst (fetchCuratedAssets url fetch s)))) \<and>
       (ah_icon h \<noteq> None \<longrightarrow> ah_verified h)) \<and>
    (\<forall>c \<in> set (candidatesOf env url fetch conv events address s). \<forall>n.
       ac_sac c \<and> readBalance env (candidatesOf env url fetch conv events address s) address (ac_contractId c) = Inr (Some n) \<and> 0 < n \<longrightarrow>
       ac_contractId c \<in> ah_contractId ` set hs)"
proof -
  let ?cs = "candidatesOf env url fetch conv events address s"
  have sources: "ac_source c \<in> {SrcNative, SrcCurated} \<longleftrightarrow>
      ac_contractId c \<in> insert (as_native env) (ac_contractId ` set (fst (fetchCuratedAssets url fetch s)))" if "c \<in> set ?cs" for c
    using that unfolding candidatesOf_def by (rule candidate_sources) (simp_all add: curated_source discovered_source)
  obtain results where hs: "hs = sortHoldings (as_native env) (as_collation env) (holdingsOf results)"
    and ids: "distinct (map resultId results)"
    and ok: "\<forall>r \<in> set results. \<exists>c \<in> set ?cs. result_ok env ?cs address c r"
    and sacs: "ac_contractId ` set (filter ac_sac ?cs) \<subseteq> resultId ` set results"
    using load_parts [OF load] by metis
  have listed: "ac_contractId c \<in> ah_contractId ` set hs"
    if c: "c \<in> set ?cs" "ac_sac c"
      and held: "ac_contractId c = as_native env \<or> (\<exists>n. readBalance env ?cs address (ac_contractId c) = Inr (Some n) \<and> 0 < n)" for c
  proof -
    have "ac_contractId c \<in> ac_contractId ` set (filter ac_sac ?cs)" using c by simp
    then obtain r where r: "r \<in> set results" "resultId r = ac_contractId c" using sacs by (metis imageE subsetD)
    with ok obtain d where "result_ok env ?cs address d r" by blast
    then have "\<exists>h. r = Inl h"
      using r(2) held c by (cases r) (auto simp: result_ok_def resultId_def shownAbsent_def)
    with r show ?thesis by (force simp: hs resultId_def)
  qed
  have "distinct (map ah_contractId (holdingsOf results))"
    using ids unfolding holdingsOf_def
    by (rule map_filter_ids [THEN conjunct1, rotated]) (auto simp: resultId_def split: sum.splits)
  then have "distinct (map ah_contractId hs)" by (simp add: hs ids_sortHoldings)
  moreover have "as_native env \<in> ah_contractId ` set hs"
  proof -
    have "as_native env \<in> ac_contractId ` set (filter ac_sac ?cs)" unfolding candidatesOf_def by (rule native_there)
    then obtain c where "c \<in> set ?cs" "ac_sac c" "ac_contractId c = as_native env" by auto
    with listed show ?thesis by metis
  qed
  moreover have "readBalance env ?cs address (ah_contractId h) = Inr (Some (ah_raw h)) \<and>
       (ah_contractId h \<noteq> as_native env \<longrightarrow> 0 < ah_raw h) \<and>
       (ah_verified h \<longleftrightarrow> ah_contractId h \<in> insert (as_native env) (ac_contractId ` set (fst (fetchCuratedAssets url fetch s)))) \<and>
       (ah_icon h \<noteq> None \<longrightarrow> ah_verified h)" if "h \<in> set hs" for h
  proof -
    have "Inl h \<in> set results" using that by (simp add: hs)
    then obtain c where c: "c \<in> set ?cs" "result_ok env ?cs address c (Inl h)" using ok by blast
    then show ?thesis using sources [OF c(1)] by (auto simp: result_ok_def resultId_def)
  qed
  ultimately show ?thesis using listed by blast
qed

text \<open>
  C13. The store of a browser's tokens loses nothing it should not. If it held at most a hundred,
  it does so after a load, each token once and none that is curated; what is new in it is held by
  the account; and a token leaves it only when it is curated now or the chain answered that it is
  not held: never because a request failed, the probes ran out, or events were sprayed.
\<close>

theorem store_keeps_holdings:
  assumes load: "loadAssets env url fetch conv events address s = Inr (hs, s')"
    and cap: "length (loadKnownAssets address s) \<le> MAX_STORED"
  shows "length (loadKnownAssets address s') \<le> MAX_STORED \<and> distinct (map ac_contractId (loadKnownAssets address s')) \<and>
    ac_contractId ` set (loadKnownAssets address s') \<inter> insert (as_native env) (ac_contractId ` set (fst (fetchCuratedAssets url fetch s))) = {} \<and>
    ac_contractId ` set (loadKnownAssets address s') \<subseteq> ac_contractId ` set (loadKnownAssets address s) \<union> ah_contractId ` set hs \<and>
    (\<forall>i \<in> ac_contractId ` set (loadKnownAssets address s) - ac_contractId ` set (loadKnownAssets address s').
       i \<in> insert (as_native env) (ac_contractId ` set (fst (fetchCuratedAssets url fetch s))) \<or>
       shownAbsent env (candidatesOf env url fetch conv events address s) address i)"
proof -
  let ?cs = "candidatesOf env url fetch conv events address s" and ?cur = "ac_contractId ` set (fst (fetchCuratedAssets url fetch s))"
  let ?known = "loadKnownAssets address s" and ?disc = "discoverFromEvents (as_native env) conv events address"
  obtain results s1 where hs: "hs = sortHoldings (as_native env) (as_collation env) (holdingsOf results)"
    and s': "s' = replaceKnownAssets address (filter (keepStored (as_native env) ?cur (ah_contractId ` set (holdingsOf results)) (set (absentOf results)))
          (mergeCandidates [?known, ?disc])) s1"
    and ok: "\<forall>r \<in> set results. \<exists>c \<in> set ?cs. result_ok env ?cs address c r"
    using load_parts [OF load] by metis
  let ?keep = "keepStored (as_native env) ?cur (ah_contractId ` set (holdingsOf results)) (set (absentOf results))"
  let ?kept = "take MAX_STORED (filter ?keep (mergeCandidates [?known, ?disc]))"
  have distinct: "distinct (map ac_contractId (filter ?keep (mergeCandidates [?known, ?disc])))" by (simp add: distinct_map_filter)
  then have after: "loadKnownAssets address s' = map (\<lambda>c. c\<lparr>ac_source := SrcStored\<rparr>) ?kept" by (simp add: s' known_read_back)
  have "map ac_contractId (loadKnownAssets address s') = map ac_contractId ?kept" by (simp add: after)
  then have ids: "ac_contractId ` set (loadKnownAssets address s') = ac_contractId ` set ?kept" by (metis set_map)
  have "distinct (map ac_contractId ?kept)" using distinct by (simp add: distinct_take flip: take_map)
  then have d: "distinct (map ac_contractId (loadKnownAssets address s'))" by (simp add: after comp_def)
  have kept: "?keep c" if "c \<in> set ?kept" for c using in_set_takeD [OF that] by simp
  have new: "i \<in> ac_contractId ` set ?known \<union> ah_contractId ` set hs" if i: "i \<in> ac_contractId ` set ?kept" for i
  proof -
    obtain c where c: "i = ac_contractId c" "c \<in> set ?kept" using i by (rule imageE)
    have m: "c \<in> set (mergeCandidates [?known, ?disc])" using in_set_takeD [OF c(2)] by simp
    show ?thesis
    proof (cases "ac_source c = SrcStored")
      case True
      then show ?thesis
        using merge_source [OF m] source_of_group [of ?disc SrcEvents] discovered_source c(1)
        by (auto simp: map_add_Some_iff split: if_splits dest!: map_of_SomeD)
    next
      case False
      then show ?thesis using kept [OF c(2)] c(1) by (auto simp: keepStored_def hs)
    qed
  qed
  have stay: "i \<in> ac_contractId ` set ?kept"
    if i: "i \<in> ac_contractId ` set ?known" "i \<notin> insert (as_native env) ?cur" "\<not> shownAbsent env ?cs address i" for i
  proof (rule kept_prefix [OF stored_source cap i(1)])
    fix c :: asset_candidate assume "ac_contractId c = i" "ac_source c = SrcStored"
    moreover have "i \<notin> set (absentOf results)"
    proof
      assume "i \<in> set (absentOf results)"
      then have "Inr i \<in> set results" by simp
      with ok obtain d where "result_ok env ?cs address d (Inr i)" by blast
      with i(3) show False by (simp add: result_ok_def)
    qed
    ultimately show "?keep c" using i(2) by (auto simp: keepStored_def)
  qed
  have "i \<notin> insert (as_native env) ?cur" if i: "i \<in> ac_contractId ` set ?kept" for i
  proof -
    obtain c where c: "i = ac_contractId c" "c \<in> set ?kept" using i by (rule imageE)
    with kept [OF c(2)] show ?thesis by (simp add: keepStored_def)
  qed
  then have apart: "ac_contractId ` set ?kept \<inter> insert (as_native env) ?cur = {}" by (rule disjoint_iff [THEN iffD2, rule_format])
  have len: "length (loadKnownAssets address s') \<le> MAX_STORED" by (simp add: after)
  show ?thesis
    unfolding ids
  proof (intro conjI ballI)
    fix i assume "i \<in> ac_contractId ` set ?known - ac_contractId ` set ?kept"
    then show "i \<in> insert (as_native env) ?cur \<or> shownAbsent env ?cs address i" using stay by (metis DiffD1 DiffD2)
  qed (rule len d apart subsetI new, (assumption)?)+
qed

text \<open>
  Witness: the reads of a token fail while the ledger answers that the account holds five stroops.
\<close>

definition sample_token :: asset_candidate where
  "sample_token = \<lparr>ac_contractId = ''T'', ac_code = Some ''TOK'', ac_issuer = None, ac_domain = None, ac_decimals = None,
     ac_icon = None, ac_sac = False, ac_source = SrcStored\<rparr>"

definition sample_assets_env :: assets_env where
  "sample_assets_env = \<lparr>as_native = ''N'', as_balances = \<lparr>br_key = (\<lambda>t h. t), br_entries = (\<lambda>ks. Inr (map (\<lambda>k. (k, Inr (VBigint 5))) ks))\<rparr>,
     as_read = (\<lambda>_ _ _. Inl (TypeError ''fetch failed'')), as_collation = id\<rparr>"

definition sample_known :: local_storage where
  "sample_known = replaceKnownAssets ''A'' [sample_token] Map.empty"

lemma known_loaded: "loadKnownAssets ''A'' sample_known = [sample_token]"
  using known_read_back [of "[sample_token]" "''A''" Map.empty] by (simp add: sample_known_def MAX_STORED_def sample_token_def)

lemma sample_curated: "fetchCuratedAssets (\<lambda>_. None) (\<lambda>_. Inl (TypeError ''fetch failed'')) sample_known = ([], sample_known)"
  by (simp add: fetchCuratedAssets_def LISTS_def fetchList_def cachedList_def sample_known_def replaceKnownAssets_def setItem_def knownKey_def Let_def)

lemma sample_candidates:
  "candidatesOf sample_assets_env (\<lambda>_. None) (\<lambda>_. Inl (TypeError ''fetch failed'')) conv (Inr []) ''A'' sample_known =
     [nativeCandidate ''N'', sample_token]"
  by (simp add: candidatesOf_def assetCandidates_def sample_curated known_loaded mergeCandidates_def discoverFromEvents_def
      extractTokenCandidates_def sample_assets_env_def nativeCandidate_def sample_token_def)

lemma sample_balance:
  "readBalance sample_assets_env [nativeCandidate ''N'', sample_token] ''A'' ''N'' = Inr (Some 5)"
  "\<not> shownAbsent sample_assets_env [nativeCandidate ''N'', sample_token] ''A'' ''T''"
  by (simp_all add: readBalance_def shownAbsent_def simulateRead_def fetchSacBalances_def balanceBatches.simps sample_assets_env_def
      nativeCandidate_def sample_token_def applyEntry_def tokenOfKey_def balanceEntryAmount_def orElse_def)

lemma sample_load:
  obtains hs s' where
    "loadAssets sample_assets_env (\<lambda>_. None) (\<lambda>_. Inl (TypeError ''fetch failed'')) conv (Inr []) ''A'' sample_known = Inr (hs, s')"
proof -
  have "\<exists>results s1. assetResults sample_assets_env [nativeCandidate ''N'', sample_token] ''A'' sample_known = Inr (results, s1)"
    by (simp add: assetResults_def fetchSacBalances_def balanceBatches.simps sample_assets_env_def nativeCandidate_def sample_token_def
        bindR_Inr_iff case_prod_beta)
  then show thesis
    using that sample_candidates [of conv]
    by (auto simp: loadAssets_def loadFrom_def sample_curated candidatesOf_def)
qed

theorem holdings_are_read_witness:
  "\<exists>hs s'. loadAssets sample_assets_env (\<lambda>_. None) (\<lambda>_. Inl (TypeError ''fetch failed'')) (\<lambda>_. Inr VNull) (Inr []) ''A'' sample_known = Inr (hs, s') \<and>
     ''N'' \<in> ah_contractId ` set hs"
proof -
  obtain hs s' where load: "loadAssets sample_assets_env (\<lambda>_. None) (\<lambda>_. Inl (TypeError ''fetch failed'')) (\<lambda>_. Inr VNull) (Inr []) ''A'' sample_known = Inr (hs, s')"
    by (rule sample_load)
  have "as_native sample_assets_env = ''N''" by (simp add: sample_assets_env_def)
  with holdings_are_read [OF load] load show ?thesis by metis
qed

theorem store_keeps_holdings_witness:
  "\<exists>hs s'. loadAssets sample_assets_env (\<lambda>_. None) (\<lambda>_. Inl (TypeError ''fetch failed'')) (\<lambda>_. Inr VNull) (Inr []) ''A'' sample_known = Inr (hs, s') \<and>
     ''T'' \<in> ac_contractId ` set (loadKnownAssets ''A'' s')"
proof -
  obtain hs s' where load: "loadAssets sample_assets_env (\<lambda>_. None) (\<lambda>_. Inl (TypeError ''fetch failed'')) (\<lambda>_. Inr VNull) (Inr []) ''A'' sample_known = Inr (hs, s')"
    by (rule sample_load)
  have "length (loadKnownAssets ''A'' sample_known) \<le> MAX_STORED" by (simp add: known_loaded MAX_STORED_def)
  from store_keeps_holdings [OF load this]
  have "\<forall>i \<in> ac_contractId ` set (loadKnownAssets ''A'' sample_known) - ac_contractId ` set (loadKnownAssets ''A'' s').
      i \<in> insert (as_native sample_assets_env) (ac_contractId ` set []) \<or>
      shownAbsent sample_assets_env [nativeCandidate ''N'', sample_token] ''A'' i"
    unfolding sample_candidates sample_curated by simp
  moreover have "ac_contractId ` set (loadKnownAssets ''A'' sample_known) = {''T''}" "as_native sample_assets_env = ''N''"
    by (simp_all add: known_loaded sample_token_def sample_assets_env_def)
  ultimately have "''T'' \<in> ac_contractId ` set (loadKnownAssets ''A'' s')" using sample_balance(2) by auto
  with load show ?thesis by blast
qed

end
