(* ===== verification/Icons.thy ===== *)
theory Icons
  imports Assets
begin

text \<open>
  The pictures of assets (\<open>frontend/src/lib/assets/icons.ts\<close>) and the row of a holding
  (\<open>rowHtml.ts\<close>): the reader of a \<open>stellar.toml\<close>, the lookup of an icon with its cache, and the
  escaped markup. \<open>fetch\<close>, the account lookup and the URL parser are parameters.
\<close>

section \<open>The currencies of a stellar.toml\<close>

record toml_currency =
  tc_code :: "string option"
  tc_issuer :: "string option"
  tc_image :: "string option"

definition MAX_TOML_BYTES :: nat where "MAX_TOML_BYTES = 102400"

text \<open>The rest of a line after \<open>key\<close>, spaces, an equals sign, spaces and a quote, up to the next quote.\<close>

definition quotedValue :: "string \<Rightarrow> string \<Rightarrow> string option" where
  "quotedValue key l =
     (if \<not> startsWith l key then None
      else (case dropWhile is_space (drop (length key) l) of
              e # r \<Rightarrow>
                if e \<noteq> CHR ''='' then None
                else (case dropWhile is_space r of
                        d # v \<Rightarrow>
                          if d = CHR 0x22 \<and> CHR 0x22 \<in> set v then Some (takeWhile (\<lambda>c. c \<noteq> CHR 0x22) v) else None
                      | [] \<Rightarrow> None)
            | [] \<Rightarrow> None))"

definition setCurrency :: "string \<Rightarrow> toml_currency \<Rightarrow> toml_currency" where
  "setCurrency l c =
     (case quotedValue ''code'' l of
        Some v \<Rightarrow> c\<lparr>tc_code := Some v\<rparr>
      | None \<Rightarrow> (case quotedValue ''issuer'' l of
                  Some v \<Rightarrow> c\<lparr>tc_issuer := Some v\<rparr>
                | None \<Rightarrow> (case quotedValue ''image'' l of Some v \<Rightarrow> c\<lparr>tc_image := Some v\<rparr> | None \<Rightarrow> c)))"

text \<open>\<open>current\<close> is the last entry of \<open>out\<close> while its table is open.\<close>

definition tomlLine :: "toml_currency list \<times> bool \<Rightarrow> string \<Rightarrow> toml_currency list \<times> bool" where
  "tomlLine st rawLine =
     (case st of
        (out, current) \<Rightarrow>
          let l = trim rawLine
          in if l = ''[[CURRENCIES]]'' then (out @ [\<lparr>tc_code = None, tc_issuer = None, tc_image = None\<rparr>], True)
             else if startsWith l ''['' then (out, False)
             else if \<not> current then (out, False)
             else (butlast out @ [setCurrency l (List.last out)], True))"

definition parseTomlCurrencies :: "string \<Rightarrow> toml_currency list" where
  "parseTomlCurrencies toml = fst (foldl tomlLine ([], False) (split_on (CHR 0x0A) toml))"

section \<open>Looking up an icon\<close>

definition iconKey :: "string \<Rightarrow> string" where
  "iconKey contractId = ''nido:assets:icon:'' @ contractId"

definition hostShape :: "string \<Rightarrow> bool" where
  "hostShape d =
     (case d of
        c # cs \<Rightarrow> (is_lower c \<or> is_upper c \<or> is_digit c) \<and>
          list_all (\<lambda>x. is_lower x \<or> is_upper x \<or> is_digit x \<or> x = CHR ''.'' \<or> x = CHR ''-'') cs
      | [] \<Rightarrow> False)"

text \<open>The domain an issuer declares on the chain, if any, and the text an address serves with status 2xx.\<close>

type_synonym domain_lookup = "string \<Rightarrow> string option result"

type_synonym text_fetch = "string \<Rightarrow> string option result"

definition negativeCache :: "string \<Rightarrow> local_storage \<Rightarrow> local_storage" where
  "negativeCache contractId s = setItem (iconKey contractId) [] s"

datatype icon_domain = NoDomain | DomainUnknown | Domain "string option"

definition iconDomain :: "domain_lookup \<Rightarrow> asset_holding \<Rightarrow> icon_domain" where
  "iconDomain lookup h =
     (case (orText (ah_domain h) None, orText (ah_issuer h) None) of
        (None, Some issuer) \<Rightarrow>
          (case lookup issuer of
             Inl _ \<Rightarrow> DomainUnknown
           | Inr d \<Rightarrow> (case orText d None of Some d' \<Rightarrow> Domain (Some d') | None \<Rightarrow> NoDomain))
      | (d, _) \<Rightarrow> Domain d)"

definition matchCurrency :: "asset_holding \<Rightarrow> toml_currency list \<Rightarrow> toml_currency option" where
  "matchCurrency h currencies =
     (case find (\<lambda>c. tc_code c = Some (ah_code h) \<and> tc_issuer c = ah_issuer h) currencies of
        Some c \<Rightarrow> Some c
      | None \<Rightarrow> find (\<lambda>c. tc_code c = Some (ah_code h)) currencies)"

definition keepIcon :: "url_parser \<Rightarrow> asset_holding \<Rightarrow> string \<Rightarrow> local_storage \<Rightarrow> string option \<times> local_storage" where
  "keepIcon url h t s =
     (case sanitizeIconUrl url (Option.bind (matchCurrency h (parseTomlCurrencies t)) (\<lambda>c. map_option JStr (tc_image c))) of
        None \<Rightarrow> (None, negativeCache (ah_contractId h) s)
      | Some icon \<Rightarrow> (Some icon, setItem (iconKey (ah_contractId h)) icon s))"

definition tomlIcon ::
  "url_parser \<Rightarrow> text_fetch \<Rightarrow> asset_holding \<Rightarrow> string \<Rightarrow> local_storage \<Rightarrow> string option \<times> local_storage" where
  "tomlIcon url fetch h domain s =
     (case fetch (''https://'' @ domain @ ''/.well-known/stellar.toml'') of
        Inl _ \<Rightarrow> (None, s)
      | Inr None \<Rightarrow> (None, s)
      | Inr (Some t) \<Rightarrow> if length t > MAX_TOML_BYTES then (None, s) else keepIcon url h t s)"

definition resolveTomlIcon ::
  "url_parser \<Rightarrow> text_fetch \<Rightarrow> domain_lookup \<Rightarrow> asset_holding \<Rightarrow> local_storage \<Rightarrow> string option \<times> local_storage" where
  "resolveTomlIcon url fetch lookup h s =
     (if \<not> ah_verified h \<or> ah_code h = [] then (None, s)
      else (case s (iconKey (ah_contractId h)) of
              Some cached \<Rightarrow> (sanitizeIconUrl url (Some (JStr cached)), s)
            | None \<Rightarrow>
                (case iconDomain lookup h of
                   DomainUnknown \<Rightarrow> (None, s)
                 | NoDomain \<Rightarrow> (None, negativeCache (ah_contractId h) s)
                 | Domain None \<Rightarrow> (None, s)
                 | Domain (Some d) \<Rightarrow> if \<not> hostShape d then (None, s) else tomlIcon url fetch h d s)))"

section \<open>The row of a holding\<close>

definition assetSub :: "asset_holding \<Rightarrow> string" where
  "assetSub a =
     (if ah_verified a then
        (case ah_domain a of
           Some d \<Rightarrow> d
         | None \<Rightarrow> (case orText (ah_issuer a) None of Some i \<Rightarrow> shortAddr i 4 4 | None \<Rightarrow> shortAddr (ah_contractId a) 4 4))
      else shortAddr (ah_contractId a) 4 4 @ '' '' @ MIDDLE_DOT @ '' unverified'')"

definition assetIcon :: "asset_holding \<Rightarrow> string" where
  \<open>assetIcon a =
     (case (ah_verified a, orText (ah_icon a) None) of
        (True, Some i) \<Rightarrow> ''<img class="asset-icon" src="'' @ esc i @ ''" alt="" loading="lazy" referrerpolicy="no-referrer">''
      | _ \<Rightarrow> [])\<close>

definition assetRowHtml :: "asset_holding \<Rightarrow> string" where
  \<open>assetRowHtml a =
     (let initial = toUpperCase (case ah_code a of c # _ \<Rightarrow> [c] | [] \<Rightarrow> ''?'')
      in ''<a class="row" data-contract="'' @ esc (ah_contractId a) @ ''" href="'' @ esc (ah_explorerUrl a) @
      ''" target="_blank" rel="noopener noreferrer" title="'' @ esc (ah_contractId a) @ ''">
      <span class="ricon asset-initial">'' @ esc initial @ assetIcon a @ ''</span>
      <span class="rmain"><span class="rtitle">'' @ esc (ah_code a) @ ''</span><span class="rsub">'' @ esc (assetSub a) @ ''</span></span>
      <span class="ramt">'' @ esc (ah_formatted a) @ ''</span></a>'')\<close>

text \<open>The markup of a row depends on nothing but whether an icon is shown.\<close>

definition blank_holding :: "asset_holding \<Rightarrow> asset_holding" where
  "blank_holding a = a\<lparr>ah_contractId := [], ah_code := [], ah_issuer := None, ah_domain := None, ah_formatted := [],
     ah_explorerUrl := [], ah_icon := map_option (\<lambda>_. ''i'') (orText (ah_icon a) None)\<rparr>"

lemma blank_icon:
  "ah_verified (blank_holding a) = ah_verified a"
  "orText (ah_icon (blank_holding a)) None = map_option (\<lambda>_. ''i'') (orText (ah_icon a) None)"
  by (simp_all add: blank_holding_def orText_def split: option.split list.split)

lemma icon_inert: "markup (assetIcon a) = markup (assetIcon (blank_holding a))"
proof (cases "orText (ah_icon a) None")
  case (Some i)
  then show ?thesis
    by (cases "ah_verified a") (simp_all only: assetIcon_def blank_icon option.map option.case prod.case bool.case card_simps)
next
  case None
  then show ?thesis
    by (cases "ah_verified a") (simp_all only: assetIcon_def blank_icon option.map option.case prod.case bool.case)
qed

lemma asset_row_inert: "markup (assetRowHtml a) = markup (assetRowHtml (blank_holding a))"
  by (simp only: assetRowHtml_def Let_def card_simps icon_inert [of a])

section \<open>What is resolved\<close>

lemma sanitized: "sanitizeIconUrl url v = Some i \<Longrightarrow> \<exists>t. v = Some (JStr t) \<and> url t = Some (''https:'', i)"
  by (auto simp: sanitizeIconUrl_def nonempty_text_def split: option.splits json.splits list.splits if_splits)

lemma sanitized_again:
  assumes "sanitizeIconUrl url v = Some i" "url i = Some (''https:'', i)" "i \<noteq> []"
  shows "sanitizeIconUrl url (Some (JStr i)) = Some i"
  using assms(2,3) by (cases i) (simp_all add: sanitizeIconUrl_def nonempty_text_def)

text \<open>The icons the cache may hold: a normal https address, or the empty text of a definite miss.\<close>

definition icon_cache_ok :: "url_parser \<Rightarrow> local_storage \<Rightarrow> bool" where
  "icon_cache_ok url s \<longleftrightarrow> (\<forall>i t. s (iconKey i) = Some t \<longrightarrow> t = [] \<or> url t = Some (''https:'', t))"

lemma tomlIcon_cases:
  assumes "tomlIcon url fetch h d s = (r, s')"
  obtains "r = None" "s' = s" | "r = None" "s' = negativeCache (ah_contractId h) s"
    | v i where "sanitizeIconUrl url v = Some i" "r = Some i" "s' = setItem (iconKey (ah_contractId h)) i s"
proof -
  consider "r = None" "s' = s" | t where "keepIcon url h t s = (r, s')"
  proof (cases "fetch (''https://'' @ d @ ''/.well-known/stellar.toml'')")
    case (Inr answer)
    note step = assms [unfolded tomlIcon_def Inr sum.case]
    show thesis
    proof (cases answer)
      case None
      with step that(1) show thesis by simp
    next
      case (Some t)
      show thesis
      proof (cases "length t > MAX_TOML_BYTES")
        case True
        with step that(1) show thesis by (simp add: Some)
      next
        case False
        with step have "keepIcon url h t s = (r, s')" by (simp add: Some)
        then show thesis by (rule that(2))
      qed
    qed
  next
    case (Inl e)
    from assms [unfolded tomlIcon_def Inl sum.case] that(1) show thesis by simp
  qed
  then show thesis
  proof cases
    case 1
    then show thesis by (rule that(1))
  next
    case (2 t)
    show thesis
    proof (cases "sanitizeIconUrl url (Option.bind (matchCurrency h (parseTomlCurrencies t)) (\<lambda>c. map_option JStr (tc_image c)))")
      case None
      with 2 that(2) show thesis by (simp add: keepIcon_def)
    next
      case (Some i)
      with 2 that(3) [OF Some] show thesis by (simp add: keepIcon_def)
    qed
  qed
qed

text \<open>
  An icon is looked up at most once. What is returned is an https address for a verified
  asset; the cache holds nothing but such addresses and misses, and only the asset's own entry
  changes; and once an answer was stored, the same lookup gives it again without a request, so a
  failed request (which stores nothing) is the only reason to ask twice.
\<close>

theorem icon_resolved_once:
  assumes normal: "\<And>t i. url t = Some (''https:'', i) \<Longrightarrow> url i = Some (''https:'', i) \<and> i \<noteq> []"
    and ok: "icon_cache_ok url s" and run: "resolveTomlIcon url fetch lookup h s = (r, s')"
  shows "(\<forall>i. r = Some i \<longrightarrow> ah_verified h \<and> url i = Some (''https:'', i)) \<and> icon_cache_ok url s' \<and>
    (\<forall>k. k \<noteq> iconKey (ah_contractId h) \<longrightarrow> s' k = s k) \<and>
    (s' \<noteq> s \<longrightarrow> (\<forall>fetch' lookup'. resolveTomlIcon url fetch' lookup' h s' = (r, s')))"
proof (cases "ah_verified h \<and> ah_code h \<noteq> [] \<and> s (iconKey (ah_contractId h)) = None")
  case False
  then show ?thesis
    using run ok normal by (auto simp: resolveTomlIcon_def split: if_splits option.splits dest!: sanitized)
next
  case fresh: True
  let ?k = "iconKey (ah_contractId h)"
  consider "r = None" "s' = s" | "r = None" "s' = setItem ?k [] s"
    | v i where "sanitizeIconUrl url v = Some i" "r = Some i" "s' = setItem ?k i s"
  proof (cases "\<exists>d. iconDomain lookup h = Domain (Some d) \<and> hostShape d")
    case True
    then obtain d where "tomlIcon url fetch h d s = (r, s')" using run fresh by (auto simp: resolveTomlIcon_def)
    then show thesis using that by (rule tomlIcon_cases) (simp_all add: negativeCache_def)
  next
    case False
    then show thesis
      using run fresh that(1,2)
      by (auto simp: resolveTomlIcon_def negativeCache_def split: icon_domain.splits option.splits if_splits)
  qed
  then show ?thesis
  proof cases
    case 1
    then show ?thesis using ok by simp
  next
    case 2
    then show ?thesis
      using ok fresh by (auto simp: icon_cache_ok_def setItem_def resolveTomlIcon_def sanitizeIconUrl_def nonempty_text_def)
  next
    case 3
    obtain t where "url t = Some (''https:'', i)" using sanitized [OF 3(1)] by blast
    then have i: "url i = Some (''https:'', i)" "i \<noteq> []" using normal by simp_all
    then show ?thesis
      using ok fresh 3 sanitized_again [OF 3(1) i]
      by (auto simp: icon_cache_ok_def setItem_def resolveTomlIcon_def)
  qed
qed

definition sample_toml :: string where
  "sample_toml = ''VERSION=1'' @ [CHR 0x0D, CHR 0x0A] @ '' [[CURRENCIES]]'' @ [CHR 0x0A] @ ''code = '' @ [CHR 0x22] @ ''EURC'' @ [CHR 0x22, CHR 0x0A] @
     ''image='' @ [CHR 0x22] @ ''https://x/e.png'' @ [CHR 0x22, CHR 0x0A]"

definition sample_holding :: asset_holding where
  "sample_holding = \<lparr>ah_contractId = ''C'', ah_code = ''EURC'', ah_issuer = Some ''G'', ah_domain = Some ''x.com'', ah_decimals = 7, ah_raw = 1,
     ah_formatted = ''0.0000001'', ah_verified = True, ah_icon = None, ah_explorerUrl = ''e''\<rparr>"

definition sample_url :: url_parser where
  "sample_url t = (if startsWith t ''https://'' then Some (''https:'', t) else None)"

lemma toml_parsed: "parseTomlCurrencies sample_toml = [\<lparr>tc_code = Some ''EURC'', tc_issuer = None, tc_image = Some ''https://x/e.png''\<rparr>]"
  by code_simp

lemma sample_length: "\<not> MAX_TOML_BYTES < length sample_toml"
  by (simp add: MAX_TOML_BYTES_def sample_toml_def)

theorem icon_resolved_once_witness:
  "let r = resolveTomlIcon sample_url (\<lambda>_. Inr (Some sample_toml)) (\<lambda>_. Inr None) sample_holding Map.empty
   in fst r = Some ''https://x/e.png'' \<and>
      resolveTomlIcon sample_url (\<lambda>_. Inl (TypeError ''offline'')) (\<lambda>_. Inr None) sample_holding (snd r) = r"
proof -
  have run: "resolveTomlIcon sample_url (\<lambda>_. Inr (Some sample_toml)) (\<lambda>_. Inr None) sample_holding Map.empty =
      (Some ''https://x/e.png'', setItem (iconKey ''C'') ''https://x/e.png'' Map.empty)"
    by (simp add: resolveTomlIcon_def tomlIcon_def keepIcon_def toml_parsed sample_length sample_holding_def iconDomain_def orText_def
        hostShape_def is_lower_def is_digit_def code_def matchCurrency_def sanitizeIconUrl_def nonempty_text_def sample_url_def startsWith_def)
  have normal: "sample_url i = Some (''https:'', i) \<and> i \<noteq> []" if "sample_url t = Some (''https:'', i)" for t i
    using that by (auto simp: sample_url_def startsWith_def split: if_splits)
  have "icon_cache_ok sample_url Map.empty" by (simp add: icon_cache_ok_def)
  with normal have "setItem (iconKey ''C'') ''https://x/e.png'' Map.empty \<noteq> Map.empty \<longrightarrow>
      resolveTomlIcon sample_url (\<lambda>_. Inl (TypeError ''offline'')) (\<lambda>_. Inr None) sample_holding (setItem (iconKey ''C'') ''https://x/e.png'' Map.empty) =
        (Some ''https://x/e.png'', setItem (iconKey ''C'') ''https://x/e.png'' Map.empty)"
    using icon_resolved_once [of sample_url Map.empty, OF _ _ run] by blast
  moreover have "setItem (iconKey ''C'') ''https://x/e.png'' Map.empty \<noteq> Map.empty" by (metis fun_upd_same option.distinct(1) setItem_def)
  ultimately show ?thesis unfolding run Let_def snd_conv fst_conv by blast
qed

end
