(* ===== verification/Connect.thy ===== *)
theory Connect
  imports SharedStorage Sessions WalletKit
begin

text \<open>
  Connecting a wallet: the helper of the wallet's own pages (\<open>frontend/src/lib/walletConnect.ts\<close>)
  and the provider of the example dApp (\<open>util/storage.ts\<close>, \<open>util/wallet.ts\<close>,
  \<open>providers/WalletProvider.tsx\<close>, \<open>lib/balance.ts\<close>). The kit with its picker and its modules, and
  the RPC, are parameters.
\<close>

section \<open>The session of the wallet's pages\<close>

definition NIDO_ID :: string where "NIDO_ID = ''nido''"

definition LEGACY_NIDO_ID :: string where "LEGACY_NIDO_ID = ''g2c''"

definition SESSION_KEY :: string where "SESSION_KEY = ''nido:walletSession''"

record wallet_session =
  ss_walletId :: string
  ss_walletAddress :: string

definition normalizeWalletId :: "string \<Rightarrow> string" where
  "normalizeWalletId walletId = (if walletId = LEGACY_NIDO_ID then NIDO_ID else walletId)"

definition readSession :: "local_storage \<Rightarrow> wallet_session option" where
  "readSession store =
     (case store SESSION_KEY of
        Some (c # cs) \<Rightarrow>
          (case parse_json (c # cs) of
             Inr j \<Rightarrow>
               (case (field ''walletId'' j, field ''walletAddress'' j) of
                  (Some (JStr i), Some (JStr a)) \<Rightarrow> Some \<lparr>ss_walletId = normalizeWalletId i, ss_walletAddress = a\<rparr>
                | _ \<Rightarrow> None)
           | Inl _ \<Rightarrow> None)
      | _ \<Rightarrow> None)"

definition writeSession :: "wallet_session \<Rightarrow> local_storage \<Rightarrow> local_storage" where
  "writeSession w store =
     setItem SESSION_KEY (stringify (object [(''walletId'', Some (JStr (ss_walletId w))), (''walletAddress'', Some (JStr (ss_walletAddress w)))])) store"

definition clearSession :: "local_storage \<Rightarrow> local_storage" where
  "clearSession store = removeItem SESSION_KEY store"

datatype wallet_kind = StandardWallet | PopupAlways

record wallet_behavior =
  wb_kind :: wallet_kind
  wb_supportsGetNetwork :: bool
  wb_warning :: "string option"

definition DEFAULT_BEHAVIOR :: wallet_behavior where
  "DEFAULT_BEHAVIOR = \<lparr>wb_kind = StandardWallet, wb_supportsGetNetwork = False, wb_warning = None\<rparr>"

definition WALLET_BEHAVIOR :: "(string \<times> wallet_behavior) list" where
  "WALLET_BEHAVIOR =
     [(NIDO_ID, \<lparr>wb_kind = PopupAlways, wb_supportsGetNetwork = True, wb_warning = Some
         ''Nido opens a popup to your account subdomain for every connect and signature (passkey ceremony). Allow popups for this site.''\<rparr>),
      (''freighter'', \<lparr>wb_kind = StandardWallet, wb_supportsGetNetwork = True, wb_warning = None\<rparr>),
      (''xbull'', \<lparr>wb_kind = StandardWallet, wb_supportsGetNetwork = True, wb_warning = None\<rparr>),
      (''albedo'', \<lparr>wb_kind = PopupAlways, wb_supportsGetNetwork = True, wb_warning = Some
         ''Albedo signs in a popup window. Allow popups for this site.''\<rparr>),
      (''lobstr'', \<lparr>wb_kind = StandardWallet, wb_supportsGetNetwork = True, wb_warning = Some
         ''LOBSTR only supports a single account; make sure the right one is active.''\<rparr>),
      (''rabet'', \<lparr>wb_kind = StandardWallet, wb_supportsGetNetwork = True, wb_warning = None\<rparr>),
      (''hana'', \<lparr>wb_kind = StandardWallet, wb_supportsGetNetwork = True, wb_warning = None\<rparr>)]"

text \<open>A member that every object inherits is found too; it is no record (\<open>None\<close>).\<close>

definition warningsFor :: "string option \<Rightarrow> wallet_behavior option" where
  "warningsFor walletId =
     (case walletId of
        Some (c # cs) \<Rightarrow>
          let k = normalizeWalletId (toLowerCase (c # cs))
          in (case map_of WALLET_BEHAVIOR k of
                Some b \<Rightarrow> Some b
              | None \<Rightarrow> if k \<in> set object_members then None else Some DEFAULT_BEHAVIOR)
      | _ \<Rightarrow> Some DEFAULT_BEHAVIOR)"

definition isNidoWallet :: "string option \<Rightarrow> bool" where
  "isNidoWallet walletId \<longleftrightarrow> walletId = Some NIDO_ID \<or> walletId = Some LEGACY_NIDO_ID"

text \<open>\<open>authModal\<close> is the outcome of the picker, \<open>selected\<close> the module that is active after it.\<close>

definition connectWith :: "string result \<Rightarrow> string \<Rightarrow> local_storage \<Rightarrow> (wallet_session \<times> local_storage) result" where
  "connectWith authModal selected store =
     bindR authModal (\<lambda>address.
       let w = \<lparr>ss_walletId = selected, ss_walletAddress = address\<rparr> in Inr (w, writeSession w store))"

definition restoreWith :: "(string \<Rightarrow> unit result) \<Rightarrow> local_storage \<Rightarrow> wallet_session option \<times> local_storage" where
  "restoreWith setWallet store =
     (case readSession store of
        None \<Rightarrow> (None, store)
      | Some w \<Rightarrow> (case setWallet (ss_walletId w) of Inl _ \<Rightarrow> (None, clearSession store) | Inr _ \<Rightarrow> (Some w, store)))"

definition deriveBase :: "string \<Rightarrow> string \<Rightarrow> string \<Rightarrow> string" where
  "deriveBase protocol host port =
     protocol @ ''//'' @ apexHostForHost host @ (if port \<noteq> [] then '':'' @ port else [])"

text \<open>The modules the kit is initialised with, if it is not yet.\<close>

definition initWalletKit ::
  "bool \<Rightarrow> (string \<Rightarrow> string \<Rightarrow> 'm result) \<Rightarrow> string option \<Rightarrow> string option \<Rightarrow> string \<Rightarrow> 'm list result \<Rightarrow> 'm list \<Rightarrow> (bool \<times> 'm list option) result" where
  "initWalletKit inited nidoModule base networkPassphrase derived standard extra =
     (if inited then Inr (inited, None)
      else bindR standard (\<lambda>ms. bindR (nidoModule (orElse base derived) (orElse networkPassphrase TESTNET)) (\<lambda>nido.
             Inr (True, Some (nido # ms @ extra)))))"

section \<open>The store of the example dApp\<close>

datatype retrieval_mode = FailMode | RawMode | SafeMode

text \<open>A stored text; a value of another type, which is never written, is read as absent.\<close>

definition typedGetItem :: "local_storage \<Rightarrow> string \<Rightarrow> retrieval_mode \<Rightarrow> string option result" where
  "typedGetItem s key mode =
     (case s key of
        None \<Rightarrow> Inr None
      | Some item \<Rightarrow>
          (case parse_json item of
             Inr j \<Rightarrow> Inr (as_string (Some j))
           | Inl e \<Rightarrow> (case mode of SafeMode \<Rightarrow> Inr None | RawMode \<Rightarrow> Inr (Some item) | FailMode \<Rightarrow> Inl e)))"

definition typedSetItem :: "string \<Rightarrow> string \<Rightarrow> local_storage \<Rightarrow> local_storage" where
  "typedSetItem key v s = setItem key (stringify (JStr v)) s"

lemma typed_get_set: "typedGetItem (typedSetItem k v s) k' m = (if k' = k then Inr (Some v) else typedGetItem s k' m)"
proof -
  have "parse_json (stringify (JStr v)) = Inr (JStr v)" by (rule json_round_trip) simp
  then show ?thesis by (simp add: typedGetItem_def typedSetItem_def setItem_def del: stringify.simps)
qed

section \<open>The wallet of the example dApp\<close>

definition connectWallet :: "string result \<Rightarrow> string \<Rightarrow> local_storage \<Rightarrow> local_storage" where
  "connectWallet authModal selectedId s =
     (case authModal of
        Inl _ \<Rightarrow> s
      | Inr address \<Rightarrow>
          if address \<noteq> [] then
            let s' = typedSetItem ''walletAddress'' address (typedSetItem ''walletId'' selectedId s)
            in if selectedId = NIDO_ID then markAutoStartDelegation address s' else s'
          else typedSetItem ''walletAddress'' [] (typedSetItem ''walletId'' [] s))"

definition disconnectWallet :: "local_storage \<Rightarrow> local_storage" where
  "disconnectWallet s =
     removeItem ''networkPassphrase'' (removeItem ''walletNetwork'' (removeItem ''walletAddress'' (removeItem ''walletId'' s)))"

text \<open>The error of the popup's button \<open>Use a different account\<close>, and the others.\<close>

datatype sign_error = AccountSwitchRequested | OtherSignError js_error

definition walletSignTransaction :: "sign_error + 'r \<Rightarrow> local_storage \<Rightarrow> 'r result \<times> local_storage" where
  "walletSignTransaction answer s =
     (case answer of
        Inr r \<Rightarrow> (Inr r, s)
      | Inl AccountSwitchRequested \<Rightarrow>
          (Inl (Error ''You chose to use a different account. Connect again, pick the account you want, then retry.''), disconnectWallet s)
      | Inl (OtherSignError e) \<Rightarrow> (Inl e, s))"

definition withNidoFirst :: "'m \<Rightarrow> 'm list \<Rightarrow> 'm list" where
  "withNidoFirst nido standard = nido # standard"

definition getHorizonHost :: "string \<Rightarrow> string result" where
  "getHorizonHost mode =
     (if mode = ''LOCAL'' then Inr ''http://localhost:8000''
      else if mode = ''FUTURENET'' then Inr ''https://horizon-futurenet.stellar.org''
      else if mode = ''TESTNET'' then Inr ''https://horizon-testnet.stellar.org''
      else if mode = ''PUBLIC'' then Inr ''https://horizon.stellar.org''
      else Inl (Error (''Unknown Stellar network: '' @ mode)))"

section \<open>The provider\<close>

record provider_behavior =
  pb_popupAlways :: bool
  pb_supportsGetNetwork :: bool
  pb_helpUrl :: "string option"

definition DEFAULT_WALLET_BEHAVIOR :: provider_behavior where
  "DEFAULT_WALLET_BEHAVIOR = \<lparr>pb_popupAlways = True, pb_supportsGetNetwork = False, pb_helpUrl = None\<rparr>"

definition WALLET_BEHAVIORS :: "(string \<times> provider_behavior) list" where
  "WALLET_BEHAVIORS =
     [(NIDO_ID, \<lparr>pb_popupAlways = True, pb_supportsGetNetwork = False, pb_helpUrl = None\<rparr>),
      (''freighter'', \<lparr>pb_popupAlways = False, pb_supportsGetNetwork = True, pb_helpUrl = None\<rparr>),
      (''hot-wallet'', \<lparr>pb_popupAlways = True, pb_supportsGetNetwork = True, pb_helpUrl = Some ''https://github.com/hot-dao/hot-sdk-js/issues/6''\<rparr>),
      (''hana'', \<lparr>pb_popupAlways = False, pb_supportsGetNetwork = False, pb_helpUrl = None\<rparr>),
      (''lobstr'', \<lparr>pb_popupAlways = True, pb_supportsGetNetwork = False, pb_helpUrl = Some ''https://github.com/Lobstrco/lobstr-browser-extension/issues/2''\<rparr>),
      (''albedo'', \<lparr>pb_popupAlways = True, pb_supportsGetNetwork = False, pb_helpUrl = Some ''https://github.com/stellar-expert/albedo/issues/104''\<rparr>),
      (''xbull'', \<lparr>pb_popupAlways = False, pb_supportsGetNetwork = False, pb_helpUrl = Some ''https://github.com/Creit-Tech/xBull-Wallet-Connect/issues/4''\<rparr>),
      (''rabet'', \<lparr>pb_popupAlways = False, pb_supportsGetNetwork = False, pb_helpUrl = Some ''https://github.com/rabetofficial/rabet-extension/issues/14''\<rparr>),
      (''klever'', \<lparr>pb_popupAlways = True, pb_supportsGetNetwork = True, pb_helpUrl = None\<rparr>)]"

text \<open>Of an inherited member both properties are undefined, so neither wallet method is avoided nor used.\<close>

definition getWalletBehavior :: "string \<Rightarrow> provider_behavior" where
  "getWalletBehavior walletId =
     (case map_of WALLET_BEHAVIORS (normalizeWalletId walletId) of
        Some b \<Rightarrow> b
      | None \<Rightarrow>
          if normalizeWalletId walletId \<in> set object_members
          then \<lparr>pb_popupAlways = False, pb_supportsGetNetwork = False, pb_helpUrl = None\<rparr>
          else DEFAULT_WALLET_BEHAVIOR)"

record wallet_warnings =
  ww_hasWarnings :: bool
  ww_popupAlways :: bool
  ww_noGetNetworkSupport :: bool
  ww_messages :: "string list"
  ww_helpUrl :: "string option"

definition getWalletWarnings :: "string option \<Rightarrow> wallet_warnings" where
  "getWalletWarnings walletId =
     (case walletId of
        Some (c # cs) \<Rightarrow>
          let behavior = getWalletBehavior (c # cs); popupAlways = pb_popupAlways behavior; noNet = \<not> pb_supportsGetNetwork behavior
          in \<lparr>ww_hasWarnings = (popupAlways \<or> noNet), ww_popupAlways = popupAlways, ww_noGetNetworkSupport = noNet,
              ww_messages = (if popupAlways then [''This wallet triggers a popup on every interaction. ''] else []) @
                (if noNet then [''This wallet doesn'' @ [CHR 0x27] @ ''t support network detection. ''] else []),
              ww_helpUrl = pb_helpUrl behavior\<rparr>
      | _ \<Rightarrow> \<lparr>ww_hasWarnings = False, ww_popupAlways = False, ww_noGetNetworkSupport = False, ww_messages = [], ww_helpUrl = None\<rparr>)"

text \<open>The state of the React component, what the kit answers, and what a poll read before it asked.\<close>

record provider_state =
  pv_address :: "string option"
  pv_network :: "string option"
  pv_passphrase :: "string option"
  pv_walletId :: "string option"

record provider_kit =
  pk_address :: "string result"
  pk_network :: "(string \<times> string) result"

record wallet_ask =
  wa_walletId :: string
  wa_address :: "string option"
  wa_network :: "string option"
  wa_passphrase :: "string option"

definition nullify :: "provider_state \<Rightarrow> local_storage \<Rightarrow> provider_state \<times> local_storage" where
  "nullify st s =
     (\<lparr>pv_address = None, pv_network = None, pv_passphrase = None, pv_walletId = None\<rparr>,
      typedSetItem ''networkPassphrase'' [] (typedSetItem ''walletNetwork'' [] (typedSetItem ''walletAddress'' [] (typedSetItem ''walletId'' [] s))))"

definition providerAddress :: "provider_kit \<Rightarrow> string \<Rightarrow> string option \<Rightarrow> string result" where
  "providerAddress kit walletId cachedAddress =
     (case (pb_popupAlways (getWalletBehavior walletId), cachedAddress) of
        (True, Some (c # cs)) \<Rightarrow> Inr (c # cs)
      | _ \<Rightarrow> pk_address kit)"

definition providerNetwork :: "provider_kit \<Rightarrow> string \<Rightarrow> string option \<Rightarrow> string option \<Rightarrow> (string \<times> string) result" where
  "providerNetwork kit walletId cachedNetwork cachedPassphrase =
     (if \<not> pb_supportsGetNetwork (getWalletBehavior walletId)
      then Inr (orElse cachedNetwork ''testnet'', orElse cachedPassphrase TESTNET)
      else pk_network kit)"

text \<open>
  A poll reads the store, then asks the wallet, and writes when the wallet has answered; other code
  may write in between. The effect that polls closes over the first rendering, where the address and
  the network are undefined, so every comparison with them differs. \<open>popupLock\<close> is set while a poll
  waits. A read that throws ends the poll.
\<close>

definition restoreShown :: "string option \<Rightarrow> string option \<Rightarrow> string option \<Rightarrow> provider_state \<Rightarrow> provider_state" where
  "restoreShown walletAddr walletNetwork passphrase st =
     (if walletAddr \<noteq> None \<and> walletNetwork \<noteq> None \<and> passphrase \<noteq> None
      then st\<lparr>pv_address := walletAddr, pv_network := walletNetwork, pv_passphrase := passphrase\<rparr> else st)"

definition pollBegins ::
  "(string \<Rightarrow> unit result) \<Rightarrow> bool \<Rightarrow> provider_state \<Rightarrow> local_storage \<Rightarrow> provider_state \<times> local_storage \<times> wallet_ask option" where
  "pollBegins setWallet popupLock st s =
     (case typedGetItem s ''walletId'' FailMode of
        Inl _ \<Rightarrow> (st, s, None)
      | Inr raw \<Rightarrow>
          let wid = (case raw of Some (c # cs) \<Rightarrow> Some (normalizeWalletId (c # cs)) | _ \<Rightarrow> None);
              s1 = (case wid of Some i \<Rightarrow> if wid \<noteq> raw then typedSetItem ''walletId'' i s else s | None \<Rightarrow> s)
          in (case bindR (typedGetItem s1 ''walletNetwork'' FailMode) (\<lambda>walletNetwork.
                   bindR (typedGetItem s1 ''walletAddress'' FailMode) (\<lambda>walletAddr.
                   bindR (typedGetItem s1 ''networkPassphrase'' FailMode) (\<lambda>passphrase. Inr (walletNetwork, walletAddr, passphrase)))) of
                Inl _ \<Rightarrow> (st, s1, None)
              | Inr (walletNetwork, walletAddr, passphrase) \<Rightarrow>
                  let st1 = restoreShown walletAddr walletNetwork passphrase (st\<lparr>pv_walletId := wid\<rparr>);
                      out = (case nullify st1 s1 of (st2, s2) \<Rightarrow> (st2, s2, None))
                  in (case wid of
                        None \<Rightarrow> out
                      | Some i \<Rightarrow>
                          if popupLock then (st1, s1, None)
                          else (case setWallet i of
                                  Inl _ \<Rightarrow> out
                                | Inr _ \<Rightarrow> (st1, s1, Some \<lparr>wa_walletId = i, wa_address = walletAddr, wa_network = walletNetwork,
                                    wa_passphrase = passphrase\<rparr>)))))"

definition walletAnswers ::
  "provider_kit \<Rightarrow> wallet_ask \<Rightarrow> provider_state \<Rightarrow> local_storage \<Rightarrow> provider_state \<times> local_storage" where
  "walletAnswers kit ask st s =
     (case bindR (providerAddress kit (wa_walletId ask) (wa_address ask)) (\<lambda>a.
            bindR (providerNetwork kit (wa_walletId ask) (wa_network ask) (wa_passphrase ask)) (\<lambda>n. Inr (a, n))) of
        Inl _ \<Rightarrow> nullify st s
      | Inr (a, net, pass) \<Rightarrow>
          if a = [] then (st, typedSetItem ''walletId'' [] s)
          else (st\<lparr>pv_address := Some a, pv_network := Some net, pv_passphrase := Some pass\<rparr>,
            typedSetItem ''networkPassphrase'' pass (typedSetItem ''walletNetwork'' net (typedSetItem ''walletAddress'' a s))))"

text \<open>What happens to the page and its store: polls, the wallet's answers, connecting and disconnecting.\<close>

record provider_run =
  pr_page :: provider_state
  pr_store :: local_storage
  pr_asked :: "wallet_ask option"

datatype provider_event =
    PollBegins "string \<Rightarrow> unit result"
  | WalletAnswers provider_kit
  | Connected "string result" string
  | Disconnected

fun providerStep :: "provider_run \<Rightarrow> provider_event \<Rightarrow> provider_run" where
  "providerStep r (PollBegins setWallet) =
     (case pollBegins setWallet (pr_asked r \<noteq> None) (pr_page r) (pr_store r) of
        (st, s, asked) \<Rightarrow> \<lparr>pr_page = st, pr_store = s, pr_asked = (if pr_asked r = None then asked else pr_asked r)\<rparr>)"
| "providerStep r (WalletAnswers kit) =
     (case pr_asked r of
        None \<Rightarrow> r
      | Some ask \<Rightarrow> (case walletAnswers kit ask (pr_page r) (pr_store r) of
                       (st, s) \<Rightarrow> \<lparr>pr_page = st, pr_store = s, pr_asked = None\<rparr>))"
| "providerStep r (Connected authModal selectedId) = r\<lparr>pr_store := connectWallet authModal selectedId (pr_store r)\<rparr>"
| "providerStep r Disconnected = r\<lparr>pr_store := disconnectWallet (pr_store r)\<rparr>"

definition runProvider :: "local_storage \<Rightarrow> provider_event list \<Rightarrow> provider_run" where
  "runProvider s evs = foldl providerStep
     \<lparr>pr_page = \<lparr>pv_address = None, pv_network = None, pv_passphrase = None, pv_walletId = None\<rparr>, pr_store = s, pr_asked = None\<rparr> evs"

section \<open>What is restored\<close>

lemma wf_session: "wf_json (object [(''walletId'', Some (JStr i)), (''walletAddress'', Some (JStr a))])"
  by simp

lemma session_read_back: "readSession (writeSession w s) = Some (w\<lparr>ss_walletId := normalizeWalletId (ss_walletId w)\<rparr>)"
proof -
  have "parse_json (stringify (object [(''walletId'', Some (JStr (ss_walletId w))), (''walletAddress'', Some (JStr (ss_walletAddress w)))])) =
      Inr (object [(''walletId'', Some (JStr (ss_walletId w))), (''walletAddress'', Some (JStr (ss_walletAddress w)))])"
    by (rule json_round_trip [OF wf_session])
  then show ?thesis
    by (cases "stringify (object [(''walletId'', Some (JStr (ss_walletId w))), (''walletAddress'', Some (JStr (ss_walletAddress w)))])")
      (auto simp: readSession_def writeSession_def setItem_def simp del: stringify.simps)
qed

lemma normalize_twice [simp]: "normalizeWalletId (normalizeWalletId i) = normalizeWalletId i"
  by (simp add: normalizeWalletId_def NIDO_ID_def LEGACY_NIDO_ID_def)

text \<open>
  A session that was connected is restored on the next load as the same account of the same wallet,
  and is gone for good once its wallet is no longer offered.
\<close>

theorem session_restored:
  assumes "connectWith authModal selected s = Inr (w, s1)"
  shows "authModal = Inr (ss_walletAddress w) \<and>
    (setWallet (normalizeWalletId selected) = Inr () \<longrightarrow>
       restoreWith setWallet s1 = (Some \<lparr>ss_walletId = normalizeWalletId selected, ss_walletAddress = ss_walletAddress w\<rparr>, s1)) \<and>
    (\<forall>e. setWallet (normalizeWalletId selected) = Inl e \<longrightarrow>
       restoreWith setWallet s1 = (None, clearSession s1) \<and> (\<forall>set'. restoreWith set' (clearSession s1) = (None, clearSession s1)))"
proof -
  obtain a where a: "authModal = Inr a" "w = \<lparr>ss_walletId = selected, ss_walletAddress = a\<rparr>" "s1 = writeSession w s"
    using assms by (auto simp: connectWith_def bindR_Inr_iff Let_def)
  have read: "readSession s1 = Some \<lparr>ss_walletId = normalizeWalletId selected, ss_walletAddress = a\<rparr>"
    using session_read_back [of w s] by (simp add: a)
  have "readSession (clearSession s1) = None" by (simp add: readSession_def clearSession_def removeItem_def)
  with read show ?thesis by (simp add: restoreWith_def a)
qed

lemma provider_keys:
  "''walletId'' \<noteq> ''walletNetwork''" "''walletId'' \<noteq> ''walletAddress''" "''walletId'' \<noteq> ''networkPassphrase''"
  "''walletAddress'' \<noteq> ''walletNetwork''" "''walletAddress'' \<noteq> ''networkPassphrase''" "''walletNetwork'' \<noteq> ''networkPassphrase''"
  by simp_all

definition signed_out :: "provider_state \<Rightarrow> local_storage \<Rightarrow> bool" where
  "signed_out st s \<longleftrightarrow>
     pv_address st = None \<and> pv_network st = None \<and> pv_passphrase st = None \<and> pv_walletId st = None \<and>
     (\<forall>k \<in> {''walletId'', ''walletAddress'', ''walletNetwork'', ''networkPassphrase''}. typedGetItem s k FailMode = Inr (Some []))"

definition signed_in :: "string \<Rightarrow> string \<Rightarrow> provider_state \<Rightarrow> local_storage \<Rightarrow> bool" where
  "signed_in i a st s \<longleftrightarrow>
     pv_walletId st = Some i \<and> pv_address st = Some a \<and> typedGetItem s ''walletId'' FailMode = Inr (Some i) \<and>
     typedGetItem s ''walletAddress'' FailMode = Inr (Some a) \<and>
     (\<exists>n p. pv_network st = Some n \<and> pv_passphrase st = Some p \<and> typedGetItem s ''walletNetwork'' FailMode = Inr (Some n) \<and>
        typedGetItem s ''networkPassphrase'' FailMode = Inr (Some p))"

lemma nullify_signed_out: "nullify st s = (st', s') \<Longrightarrow> signed_out st' s'"
  by (auto simp: nullify_def signed_out_def typed_get_set)

text \<open>The items of the store that are read are JSON, and stay so.\<close>

definition readable :: "local_storage \<Rightarrow> bool" where
  "readable s \<longleftrightarrow> (\<forall>k \<in> {''walletId'', ''walletAddress'', ''walletNetwork'', ''networkPassphrase''}. \<not> isl (typedGetItem s k FailMode))"

lemma get_other: "k \<noteq> AUTOSTART_KEY \<Longrightarrow> typedGetItem (markAutoStartDelegation a s) k m = typedGetItem s k m"
  by (simp add: markAutoStartDelegation_def typedGetItem_def setItem_def)

lemma autostart_keys:
  "''walletId'' \<noteq> AUTOSTART_KEY" "''walletAddress'' \<noteq> AUTOSTART_KEY" "''walletNetwork'' \<noteq> AUTOSTART_KEY" "''networkPassphrase'' \<noteq> AUTOSTART_KEY"
  by (simp_all add: AUTOSTART_KEY_def)

lemma get_removed: "typedGetItem (removeItem k s) k' m = (if k' = k then Inr None else typedGetItem s k' m)"
  by (simp add: typedGetItem_def removeItem_def)

lemmas store_reads = get_other autostart_keys get_removed typed_get_set

lemma readable_set: "readable s \<Longrightarrow> readable (typedSetItem k v s)"
  by (simp add: readable_def typed_get_set)

lemma readable_null: "nullify st s = (st', s') \<Longrightarrow> readable s \<Longrightarrow> readable s'"
  by (auto simp: nullify_def readable_set)

lemma readable_connect: "readable s \<Longrightarrow> readable (connectWallet authModal i s)"
  by (auto simp: connectWallet_def readable_def store_reads Let_def split: sum.split)

lemma readable_disconnect: "readable s \<Longrightarrow> readable (disconnectWallet s)"
  by (simp add: disconnectWallet_def readable_def store_reads)

lemma readable_begin: "readable s \<Longrightarrow> pollBegins sw lock st s = (st', s', asked) \<Longrightarrow> readable s'"
  by (auto simp: pollBegins_def Let_def intro: readable_null readable_set split: sum.splits option.splits list.splits prod.splits if_splits)

lemma readable_answer: "readable s \<Longrightarrow> walletAnswers kit ask st s = (st', s') \<Longrightarrow> readable s'"
  by (auto simp: walletAnswers_def readable_set intro: readable_null split: sum.splits if_splits)

lemma readable_step: "readable (pr_store r) \<Longrightarrow> readable (pr_store (providerStep r ev))"
  by (cases ev) (auto simp: readable_connect readable_disconnect split: option.splits prod.splits dest: readable_begin readable_answer)

lemma readable_run: "readable s \<Longrightarrow> readable (pr_store (runProvider s evs))"
  by (induction evs rule: rev_induct) (simp_all add: runProvider_def readable_step)

text \<open>
  While a poll waits and nothing else is written, page and store have the wallet it asks and the
  store the account it read.
\<close>

definition awaits :: "provider_run \<Rightarrow> wallet_ask \<Rightarrow> bool" where
  "awaits r ask \<longleftrightarrow> pr_asked r = Some ask \<and> readable (pr_store r) \<and> wa_walletId ask \<noteq> [] \<and>
     normalizeWalletId (wa_walletId ask) = wa_walletId ask \<and> pv_walletId (pr_page r) = Some (wa_walletId ask) \<and>
     typedGetItem (pr_store r) ''walletId'' FailMode = Inr (Some (wa_walletId ask)) \<and>
     typedGetItem (pr_store r) ''walletAddress'' FailMode = Inr (wa_address ask)"

lemma shown_walletId: "pv_walletId (restoreShown a n p st) = pv_walletId st"
  by (simp add: restoreShown_def)

lemma begin_known:
  assumes "readable s" "typedGetItem s ''walletId'' FailMode = Inr (Some i)" "i \<noteq> []"
  defines "j \<equiv> normalizeWalletId i"
  defines "s1 \<equiv> (if j \<noteq> i then typedSetItem ''walletId'' j s else s)"
  shows "\<exists>net addr pass. typedGetItem s ''walletAddress'' FailMode = Inr addr \<and>
    typedGetItem s1 ''walletId'' FailMode = Inr (Some j) \<and> typedGetItem s1 ''walletAddress'' FailMode = Inr addr \<and> readable s1 \<and>
    pollBegins sw lock st s =
      (let st1 = restoreShown addr net pass (st\<lparr>pv_walletId := Some j\<rparr>)
       in if lock then (st1, s1, None)
          else (case sw j of Inl _ \<Rightarrow> (case nullify st1 s1 of (st2, s2) \<Rightarrow> (st2, s2, None))
                | Inr _ \<Rightarrow> (st1, s1, Some \<lparr>wa_walletId = j, wa_address = addr, wa_network = net, wa_passphrase = pass\<rparr>)))"
proof -
  have r1: "readable s1" using assms(1) by (simp add: s1_def readable_set)
  then obtain net addr pass where get: "typedGetItem s1 ''walletNetwork'' FailMode = Inr net" "typedGetItem s1 ''walletAddress'' FailMode = Inr addr"
    "typedGetItem s1 ''networkPassphrase'' FailMode = Inr pass" by (auto simp: readable_def isl_def) (metis sum.exhaust)
  have id1: "typedGetItem s1 ''walletId'' FailMode = Inr (Some j)" using assms(2) by (simp add: s1_def typed_get_set)
  have addr: "typedGetItem s ''walletAddress'' FailMode = Inr addr" using get(2) by (simp add: s1_def typed_get_set split: if_splits)
  obtain c cs where i: "i = c # cs" using assms(3) by (cases i) auto
  have "pollBegins sw lock st s =
      (let st1 = restoreShown addr net pass (st\<lparr>pv_walletId := Some j\<rparr>)
       in if lock then (st1, s1, None)
          else (case sw j of Inl _ \<Rightarrow> (case nullify st1 s1 of (st2, s2) \<Rightarrow> (st2, s2, None))
                | Inr _ \<Rightarrow> (st1, s1, Some \<lparr>wa_walletId = j, wa_address = addr, wa_network = net, wa_passphrase = pass\<rparr>)))"
    using assms(2) get unfolding pollBegins_def Let_def s1_def j_def i
    by (cases "normalizeWalletId (c # cs) = c # cs") (simp_all split: sum.split)
  with id1 addr get(2) r1 show ?thesis by blast
qed

lemma normalized: "normalizeWalletId i \<noteq> LEGACY_NIDO_ID" "i \<noteq> [] \<Longrightarrow> normalizeWalletId i \<noteq> []"
  by (simp_all add: normalizeWalletId_def NIDO_ID_def LEGACY_NIDO_ID_def)

lemma begin_locked: "awaits r ask \<Longrightarrow> awaits (providerStep r (PollBegins sw)) ask"
proof -
  assume r: "awaits r ask"
  then have id: "typedGetItem (pr_store r) ''walletId'' FailMode = Inr (Some (wa_walletId ask))"
    and ok: "readable (pr_store r)" "wa_walletId ask \<noteq> []" "normalizeWalletId (wa_walletId ask) = wa_walletId ask" "pr_asked r = Some ask"
    by (simp_all add: awaits_def)
  from begin_known [OF ok(1) id ok(2), of sw True "pr_page r"] ok(3) obtain net addr pass where
    "pollBegins sw True (pr_page r) (pr_store r) =
       (restoreShown addr net pass ((pr_page r)\<lparr>pv_walletId := Some (wa_walletId ask)\<rparr>), pr_store r, None)"
    by (auto simp: Let_def)
  with r show ?thesis by (simp add: awaits_def shown_walletId)
qed

lemma begin_out:
  assumes "readable s" "typedGetItem s ''walletId'' FailMode = Inr None \<or> typedGetItem s ''walletId'' FailMode = Inr (Some [])"
  shows "\<exists>st2 s2. pollBegins sw lock st s = (st2, s2, None) \<and> signed_out st2 s2"
proof -
  obtain net addr pass where "typedGetItem s ''walletNetwork'' FailMode = Inr net" "typedGetItem s ''walletAddress'' FailMode = Inr addr"
    "typedGetItem s ''networkPassphrase'' FailMode = Inr pass" using assms(1) by (auto simp: readable_def isl_def) (metis sum.exhaust)
  then have "pollBegins sw lock st s =
      (case nullify (restoreShown addr net pass (st\<lparr>pv_walletId := None\<rparr>)) s of (st2, s2) \<Rightarrow> (st2, s2, None))"
    using assms(2) by (auto simp: pollBegins_def Let_def)
  then show ?thesis using nullify_signed_out by (auto split: prod.splits)
qed

text \<open>What a poll finds when no other waits: nothing, or a wallet to ask.\<close>

lemma begin_outcome:
  fixes sw :: "string \<Rightarrow> unit result"
  assumes ok: "readable (pr_store r)" and free: "pr_asked r = None"
  defines "r1 \<equiv> providerStep r (PollBegins sw)"
  shows "pr_asked r1 = None \<and> signed_out (pr_page r1) (pr_store r1) \<or>
    (\<exists>ask raw. awaits r1 ask \<and> typedGetItem (pr_store r) ''walletId'' FailMode = Inr (Some raw) \<and>
       wa_walletId ask = normalizeWalletId raw \<and> typedGetItem (pr_store r) ''walletAddress'' FailMode = Inr (wa_address ask))"
proof -
  obtain raw where raw: "typedGetItem (pr_store r) ''walletId'' FailMode = Inr raw"
    using ok by (auto simp: readable_def isl_def) (metis sum.exhaust)
  show ?thesis
  proof (cases "raw = None \<or> raw = Some []")
    case True
    with begin_out [OF ok, of sw False "pr_page r"] raw free show ?thesis by (auto simp: r1_def)
  next
    case False
    then obtain i where i: "raw = Some i" "i \<noteq> []" by auto
    define s1 where "s1 = (if normalizeWalletId i \<noteq> i then typedSetItem ''walletId'' (normalizeWalletId i) (pr_store r) else pr_store r)"
    from begin_known [OF ok raw [unfolded i(1)] i(2), of sw False "pr_page r", folded s1_def, unfolded if_False] obtain net addr pass where
      addr: "typedGetItem (pr_store r) ''walletAddress'' FailMode = Inr addr"
      and s1: "typedGetItem s1 ''walletId'' FailMode = Inr (Some (normalizeWalletId i))" "typedGetItem s1 ''walletAddress'' FailMode = Inr addr" "readable s1"
      and run: "pollBegins sw False (pr_page r) (pr_store r) =
        (let st1 = restoreShown addr net pass ((pr_page r)\<lparr>pv_walletId := Some (normalizeWalletId i)\<rparr>)
         in case sw (normalizeWalletId i) of Inl _ \<Rightarrow> (case nullify st1 s1 of (st2, s2) \<Rightarrow> (st2, s2, None))
            | Inr _ \<Rightarrow> (st1, s1, Some \<lparr>wa_walletId = normalizeWalletId i, wa_address = addr, wa_network = net, wa_passphrase = pass\<rparr>))"
      by blast
    show ?thesis
    proof (cases "sw (normalizeWalletId i)")
      case (Inl e)
      obtain st2 s2 where n: "nullify (restoreShown addr net pass ((pr_page r)\<lparr>pv_walletId := Some (normalizeWalletId i)\<rparr>)) s1 = (st2, s2)" by fastforce
      with Inl run free nullify_signed_out [OF n] show ?thesis by (simp add: r1_def Let_def)
    next
      case (Inr u)
      have "awaits r1 \<lparr>wa_walletId = normalizeWalletId i, wa_address = addr, wa_network = net, wa_passphrase = pass\<rparr>"
        using run Inr free s1 normalized(2) [OF i(2)] by (simp add: r1_def Let_def awaits_def shown_walletId)
      with raw i(1) addr show ?thesis by auto
    qed
  qed
qed

lemma answer_settles:
  fixes kit :: provider_kit
  assumes "awaits r ask"
  defines "r1 \<equiv> providerStep r (WalletAnswers kit)"
  shows "pr_asked r1 = None \<and>
    (signed_out (pr_page r1) (pr_store r1) \<or>
     pk_address kit = Inr [] \<and> typedGetItem (pr_store r1) ''walletId'' FailMode = Inr (Some []) \<or>
     (\<exists>a. a \<noteq> [] \<and> (wa_address ask = Some a \<or> pk_address kit = Inr a) \<and> signed_in (wa_walletId ask) a (pr_page r1) (pr_store r1)))"
proof -
  obtain st s where out: "walletAnswers kit ask (pr_page r) (pr_store r) = (st, s)" by fastforce
  have r1: "r1 = \<lparr>pr_page = st, pr_store = s, pr_asked = None\<rparr>" using assms out by (simp add: awaits_def)
  let ?got = "bindR (providerAddress kit (wa_walletId ask) (wa_address ask)) (\<lambda>a.
      bindR (providerNetwork kit (wa_walletId ask) (wa_network ask) (wa_passphrase ask)) (\<lambda>n. Inr (a, n)))"
  show ?thesis
  proof (cases ?got)
    case (Inl e)
    then have "nullify (pr_page r) (pr_store r) = (st, s)" using out by (simp add: walletAnswers_def)
    from nullify_signed_out [OF this] show ?thesis by (simp add: r1)
  next
    case (Inr got)
    obtain a n p where got: "got = (a, n, p)" by (cases got) auto
    have src: "providerAddress kit (wa_walletId ask) (wa_address ask) = Inr a" using Inr by (auto simp: bindR_Inr_iff got)
    show ?thesis
    proof (cases "a = []")
      case True
      then show ?thesis using out Inr src
        by (auto simp: r1 walletAnswers_def got typed_get_set providerAddress_def split: bool.splits option.splits list.splits)
    next
      case False
      then have "wa_address ask = Some a \<or> pk_address kit = Inr a"
        using src by (auto simp: providerAddress_def split: bool.splits option.splits list.splits)
      moreover have "signed_in (wa_walletId ask) a st s"
        using out Inr False assms(1) by (auto simp: walletAnswers_def got signed_in_def typed_get_set awaits_def)
      ultimately show ?thesis using False by (auto simp: r1)
    qed
  qed
qed

lemma polls_hold:
  "awaits r ask \<Longrightarrow> awaits (foldl providerStep r (map PollBegins sws)) ask"
  by (induction sws arbitrary: r) (simp_all add: begin_locked del: providerStep.simps)

lemma polls_out:
  "signed_out (pr_page r) (pr_store r) \<Longrightarrow> readable (pr_store r) \<Longrightarrow> pr_asked r = None \<Longrightarrow>
     signed_out (pr_page (foldl providerStep r (map PollBegins sws))) (pr_store (foldl providerStep r (map PollBegins sws))) \<and>
     pr_asked (foldl providerStep r (map PollBegins sws)) = None"
proof (induction sws arbitrary: r)
  case (Cons sw sws)
  have "typedGetItem (pr_store r) ''walletId'' FailMode = Inr (Some [])" using Cons.prems(1) by (simp add: signed_out_def)
  with begin_out [OF Cons.prems(2), of sw False "pr_page r"] Cons.prems(3)
  have "signed_out (pr_page (providerStep r (PollBegins sw))) (pr_store (providerStep r (PollBegins sw)))"
    "pr_asked (providerStep r (PollBegins sw)) = None" by auto
  with Cons.IH readable_step [OF Cons.prems(2)] show ?case by (simp del: providerStep.simps)
qed simp

text \<open>
  C18. Page and store agree after every poll that nothing disturbs, whatever happened before it: polls,
  answers that came late, connecting and disconnecting in any order. If no poll waits for the wallet
  and the items of the store were JSON to begin with, a poll either signs both out at once, or asks
  the stored wallet; when that answers, and only polls that found the lock came in between, both are
  signed out, or the wallet gave no address and the stored wallet is dropped, or the page shows the
  wallet, the account and the network that are stored, where the account is the one stored when the
  poll began or the one the wallet just gave.
\<close>

theorem provider_settles:
  assumes "readable s0" "r = runProvider s0 evs" "pr_asked r = None"
    and r1: "r1 = foldl providerStep r (map PollBegins (setWallet # others))"
  shows "(case pr_asked r1 of
     None \<Rightarrow> signed_out (pr_page r1) (pr_store r1)
   | Some ask \<Rightarrow> (\<exists>raw. typedGetItem (pr_store r) ''walletId'' FailMode = Inr (Some raw) \<and> wa_walletId ask = normalizeWalletId raw \<and>
       wa_walletId ask \<noteq> LEGACY_NIDO_ID \<and>
       (let r2 = providerStep r1 (WalletAnswers kit) in pr_asked r2 = None \<and>
         (signed_out (pr_page r2) (pr_store r2) \<or>
          pk_address kit = Inr [] \<and> typedGetItem (pr_store r2) ''walletId'' FailMode = Inr (Some []) \<or>
          (\<exists>a. a \<noteq> [] \<and> (typedGetItem (pr_store r) ''walletAddress'' FailMode = Inr (Some a) \<or> pk_address kit = Inr a) \<and>
             signed_in (wa_walletId ask) a (pr_page r2) (pr_store r2))))))"
proof -
  have ok: "readable (pr_store r)" using readable_run [OF assms(1)] assms(2) by simp
  let ?b = "providerStep r (PollBegins setWallet)"
  have r1': "r1 = foldl providerStep ?b (map PollBegins others)" by (simp add: r1)
  from begin_outcome [OF ok assms(3), of setWallet] show ?thesis
  proof (elim disjE exE conjE)
    assume "pr_asked ?b = None" "signed_out (pr_page ?b) (pr_store ?b)"
    with polls_out [of ?b others] readable_step [OF ok] show ?thesis by (simp add: r1' del: providerStep.simps)
  next
    fix ask raw
    assume "awaits ?b ask" and from': "typedGetItem (pr_store r) ''walletId'' FailMode = Inr (Some raw)" "wa_walletId ask = normalizeWalletId raw"
      "typedGetItem (pr_store r) ''walletAddress'' FailMode = Inr (wa_address ask)"
    from polls_hold [OF this(1), of others] have wait: "awaits r1 ask" by (simp only: r1')
    then have "pr_asked r1 = Some ask" by (simp add: awaits_def)
    with answer_settles [OF wait, of kit] from' normalized(1) [of raw] show ?thesis
      by (simp add: Let_def del: providerStep.simps)
  qed
qed

text \<open>A wallet that opens a popup for its address is not asked again while an account is stored.\<close>

lemma no_popup_again:
  assumes "pb_popupAlways (getWalletBehavior (wa_walletId ask))" "wa_address ask = Some (c # cs)"
  shows "walletAnswers (kit\<lparr>pk_address := x\<rparr>) ask st s = walletAnswers kit ask st s"
  using assms by (simp add: walletAnswers_def providerAddress_def providerNetwork_def nullify_def)

text \<open>The steps of a page whose user connects Nido.\<close>

definition nido_kit :: provider_kit where
  "nido_kit = \<lparr>pk_address = Inr ''C'', pk_network = Inr (''testnet'', TESTNET)\<rparr>"

definition begins :: provider_event where
  "begins = PollBegins (\<lambda>_. Inr ())"

lemma nido_behavior:
  "NIDO_ID = ''nido''" "normalizeWalletId ''nido'' = ''nido''"
  "getWalletBehavior ''nido'' = \<lparr>pb_popupAlways = True, pb_supportsGetNetwork = False, pb_helpUrl = None\<rparr>"
  by (simp_all add: normalizeWalletId_def getWalletBehavior_def WALLET_BEHAVIORS_def NIDO_ID_def LEGACY_NIDO_ID_def)

lemma get_empty: "typedGetItem Map.empty k m = Inr None"
  by (simp add: typedGetItem_def)

lemmas page_simps = runProvider_def begins_def pollBegins_def walletAnswers_def nullify_def restoreShown_def connectWallet_def
  disconnectWallet_def providerAddress_def providerNetwork_def nido_kit_def orElse_def Let_def get_empty store_reads nido_behavior

text \<open>
  Signing out writes empty texts, which the defaults of a wallet without network detection do not
  replace: after the first load without a wallet, connecting Nido yields an empty network.
\<close>

lemma network_left_blank:
  "let p = pr_page (runProvider Map.empty [begins, Connected (Inr ''C'') NIDO_ID, begins, WalletAnswers nido_kit])
   in pv_address p = Some ''C'' \<and> pv_network p = Some [] \<and> pv_passphrase p = Some []"
  by (simp add: page_simps)

text \<open>
  An answer that comes after a disconnect is written all the same: the page shows the account of a
  wallet that is no longer stored, until the next poll signs both out.
\<close>

lemma answer_after_disconnect:
  "let r = runProvider Map.empty [Connected (Inr ''C'') NIDO_ID, begins, Disconnected, WalletAnswers nido_kit]
   in pv_address (pr_page r) = Some ''C'' \<and> typedGetItem (pr_store r) ''walletId'' FailMode = Inr None \<and>
      typedGetItem (pr_store r) ''walletAddress'' FailMode = Inr (Some ''C'')"
  by (simp add: page_simps)

text \<open>Witnesses: a session of the picker, and a poll of a connected wallet.\<close>

theorem session_restored_witness:
  "restoreWith (\<lambda>_. Inr ()) (writeSession \<lparr>ss_walletId = ''g2c'', ss_walletAddress = ''C''\<rparr> Map.empty) =
     (Some \<lparr>ss_walletId = ''nido'', ss_walletAddress = ''C''\<rparr>, writeSession \<lparr>ss_walletId = ''g2c'', ss_walletAddress = ''C''\<rparr> Map.empty)"
  using session_restored [of "Inr ''C''" "''g2c''" Map.empty "\<lparr>ss_walletId = ''g2c'', ss_walletAddress = ''C''\<rparr>"
    "writeSession \<lparr>ss_walletId = ''g2c'', ss_walletAddress = ''C''\<rparr> Map.empty" "\<lambda>_. Inr ()"]
  by (simp add: connectWith_def normalizeWalletId_def NIDO_ID_def LEGACY_NIDO_ID_def Let_def)

lemma empty_readable: "readable Map.empty"
  by (simp add: readable_def get_empty)

theorem provider_settles_witness:
  "signed_out (pr_page (runProvider Map.empty [Connected (Inr ''C'') NIDO_ID, begins, Disconnected, WalletAnswers nido_kit, begins]))
     (pr_store (runProvider Map.empty [Connected (Inr ''C'') NIDO_ID, begins, Disconnected, WalletAnswers nido_kit, begins])) \<and>
   (\<exists>a. signed_in ''nido'' a (pr_page (runProvider Map.empty [Connected (Inr ''C'') NIDO_ID, begins, WalletAnswers nido_kit]))
     (pr_store (runProvider Map.empty [Connected (Inr ''C'') NIDO_ID, begins, WalletAnswers nido_kit])))"
proof
  let ?evs = "[Connected (Inr ''C'') NIDO_ID, begins, Disconnected, WalletAnswers nido_kit]"
  let ?r = "runProvider Map.empty ?evs" and ?r1 = "runProvider Map.empty (?evs @ [begins])"
  have "pr_asked ?r = None" "pr_asked ?r1 = None"
    by (simp_all add: page_simps)
  moreover have "?r1 = foldl providerStep ?r (map PollBegins [\<lambda>_. Inr ()])"
    by (simp add: runProvider_def begins_def)
  ultimately show "signed_out (pr_page (runProvider Map.empty [Connected (Inr ''C'') NIDO_ID, begins, Disconnected, WalletAnswers nido_kit, begins]))
     (pr_store (runProvider Map.empty [Connected (Inr ''C'') NIDO_ID, begins, Disconnected, WalletAnswers nido_kit, begins]))"
    using provider_settles [OF empty_readable refl, of ?evs ?r1 "\<lambda>_. Inr ()" "[]"] by simp
next
  let ?r = "runProvider Map.empty [Connected (Inr ''C'') NIDO_ID]" and ?r1 = "runProvider Map.empty [Connected (Inr ''C'') NIDO_ID, begins]"
  let ?r2 = "runProvider Map.empty [Connected (Inr ''C'') NIDO_ID, begins, WalletAnswers nido_kit]"
  have free: "pr_asked ?r = None" and shown: "pv_address (pr_page ?r2) = Some ''C''"
    and asked: "map_option wa_walletId (pr_asked ?r1) = Some ''nido''" by (simp_all add: page_simps)
  have r1: "?r1 = foldl providerStep ?r (map PollBegins [\<lambda>_. Inr ()])" and r2: "?r2 = providerStep ?r1 (WalletAnswers nido_kit)"
    by (simp_all add: runProvider_def begins_def)
  from asked obtain ask where "pr_asked ?r1 = Some ask" "wa_walletId ask = ''nido''" by auto
  with provider_settles [OF empty_readable refl free, of ?r1 "\<lambda>_. Inr ()" "[]" nido_kit] r1 r2 shown
  show "\<exists>a. signed_in ''nido'' a (pr_page ?r2) (pr_store ?r2)"
    by (auto simp: Let_def signed_out_def nido_kit_def simp del: providerStep.simps)
qed

end
