(* ===== verification/Deploy.thy ===== *)
theory Deploy
  imports Storage
begin

text \<open>
  Deploying an account (\<open>passkey-sdk/src/deploy.ts\<close>): its deterministic address, the lookup of an
  existing account, and the submission through the factory. The hash, the XDR codec and the RPC are
  parameters.
\<close>

section \<open>Addresses\<close>

text \<open>\<open>dl_preimage\<close> encodes the preimage of a contract's address: network, deployer and salt.\<close>

record 'a deploy_lib =
  dl_sha256 :: "bytes \<Rightarrow> bytes"
  dl_address :: "string \<Rightarrow> 'a result"
  dl_preimage :: "bytes \<Rightarrow> 'a \<Rightarrow> bytes \<Rightarrow> bytes"
  dl_encode :: "bytes \<Rightarrow> string"

definition getContractSalt :: "'a deploy_lib \<Rightarrow> bytes \<Rightarrow> bytes" where
  "getContractSalt lib credentialId = dl_sha256 lib credentialId"

definition computeAccountAddress :: "'a deploy_lib \<Rightarrow> string \<Rightarrow> bytes \<Rightarrow> string \<Rightarrow> string result" where
  "computeAccountAddress lib factoryContractId salt networkPassphrase =
     bindR (dl_address lib factoryContractId) (\<lambda>factory.
       Inr (dl_encode lib (dl_sha256 lib (dl_preimage lib (dl_sha256 lib (utf8 networkPassphrase)) factory salt))))"

record network_config =
  nc_factory :: string
  nc_passphrase :: string

definition lookupExistingAccount :: "'a deploy_lib \<Rightarrow> (string \<Rightarrow> unit result) \<Rightarrow> network_config \<Rightarrow> bytes \<Rightarrow> string option result" where
  "lookupExistingAccount lib getContractData config salt =
     bindR (computeAccountAddress lib (nc_factory config) salt (nc_passphrase config)) (\<lambda>address.
       Inr (case getContractData address of Inr _ \<Rightarrow> Some address | Inl _ \<Rightarrow> None))"

section \<open>Deployment\<close>

text \<open>The loop that waits for the transaction has no bound: it may not return (\<open>None\<close>).\<close>

datatype tx_status = TxNotFound | TxSuccess | TxFailed

partial_function (option) awaitTransaction :: "(nat \<Rightarrow> tx_status result) \<Rightarrow> nat \<Rightarrow> tx_status result option" where
  "awaitTransaction getTransaction n =
     (case getTransaction n of
        Inl e \<Rightarrow> Some (Inl e)
      | Inr status \<Rightarrow> if status = TxNotFound then awaitTransaction getTransaction (Suc n) else Some (Inr status))"

text \<open>The answers of the RPC to the deployment, in order; the simulation may fail or ask for a restore.\<close>

datatype 'x deploy_sim = SimFails js_error | SimRestores | SimOk 'x

record ('x, 's) deploy_rpc =
  dr_getAccount :: "unit result"
  dr_simulate :: "string \<Rightarrow> bytes \<Rightarrow> bytes \<Rightarrow> 'x deploy_sim result"
  dr_assembleAndSign :: "'x \<Rightarrow> 's result"
  dr_send :: "'s \<Rightarrow> bool result"
  dr_getTransaction :: "'s \<Rightarrow> nat \<Rightarrow> tx_status result"

definition submitDeploy :: "('x, 's) deploy_rpc \<Rightarrow> network_config \<Rightarrow> bytes \<Rightarrow> bytes \<Rightarrow> 's result" where
  "submitDeploy rpc config salt publicKey =
     bindR (dr_getAccount rpc) (\<lambda>_.
     bindR (dr_simulate rpc (nc_factory config) salt publicKey) (\<lambda>sim.
       (case sim of
          SimFails e \<Rightarrow> Inl e
        | SimRestores \<Rightarrow> Inl (Error ''restore required'')
        | SimOk x \<Rightarrow>
            bindR (dr_assembleAndSign rpc x) (\<lambda>tx.
            bindR (dr_send rpc tx) (\<lambda>accepted.
              if \<not> accepted then Inl (Error ''Transaction submission failed: ERROR'') else Inr tx)))))"

definition deploySmartAccount ::
  "'a deploy_lib \<Rightarrow> ('x, 's) deploy_rpc \<Rightarrow> network_config \<Rightarrow> bytes \<Rightarrow> bytes \<Rightarrow> string result option" where
  "deploySmartAccount lib rpc config salt publicKey =
     (case bindR (computeAccountAddress lib (nc_factory config) salt (nc_passphrase config)) (\<lambda>expected.
             bindR (submitDeploy rpc config salt publicKey) (\<lambda>tx. Inr (expected, tx))) of
        Inl e \<Rightarrow> Some (Inl e)
      | Inr (expected, tx) \<Rightarrow>
          map_option (\<lambda>r. bindR r (\<lambda>status. if status = TxSuccess then Inr expected else Inl (Error ''Transaction failed: FAILED'')))
            (awaitTransaction (dr_getTransaction rpc tx) 0))"

lemma await_steps:
  assumes "\<And>m. m < k \<Longrightarrow> getT (n + m) = Inr TxNotFound"
  shows "awaitTransaction getT n = awaitTransaction getT (n + k)"
  using assms
proof (induction k arbitrary: n)
  case (Suc k)
  have "getT n = Inr TxNotFound" using Suc.prems [of 0] by simp
  then have "awaitTransaction getT n = awaitTransaction getT (Suc n)" by (subst awaitTransaction.simps) simp
  also have "\<dots> = awaitTransaction getT (Suc n + k)"
    by (rule Suc.IH) (use Suc.prems [of "Suc m" for m] in simp)
  finally show ?case by simp
qed simp

lemma await_answers:
  assumes "getT k \<noteq> Inr TxNotFound" "\<And>m. m < k \<Longrightarrow> getT m = Inr TxNotFound"
  shows "awaitTransaction getT 0 = Some (getT k)"
proof -
  have "awaitTransaction getT 0 = awaitTransaction getT k" using await_steps [of k getT 0] assms(2) by simp
  also have "\<dots> = Some (getT k)" using assms(1) by (subst awaitTransaction.simps) (simp split: sum.split)
  finally show ?thesis .
qed

lemma await_raw:
  assumes "awaitTransaction getT n = Some r"
  shows "\<exists>k \<ge> n. getT k = r \<and> r \<noteq> Inr TxNotFound"
proof (rule awaitTransaction.raw_induct [where P = "\<lambda>g n r. \<exists>k \<ge> n. g k = r \<and> r \<noteq> Inr TxNotFound", OF _ assms])
  fix f :: "(nat \<Rightarrow> tx_status result) \<Rightarrow> nat \<Rightarrow> tx_status result option" and g n r
  assume IH: "\<And>g n r. f g n = Some r \<Longrightarrow> \<exists>k \<ge> n. g k = r \<and> r \<noteq> Inr TxNotFound"
    and step: "(case g n of Inl e \<Rightarrow> Some (Inl e) | Inr status \<Rightarrow> if status = TxNotFound then f g (Suc n) else Some (Inr status)) = Some r"
  show "\<exists>k \<ge> n. g k = r \<and> r \<noteq> Inr TxNotFound"
  proof (cases "g n = Inr TxNotFound")
    case True
    with step have "f g (Suc n) = Some r" by simp
    from IH [OF this] show ?thesis by (auto intro: Suc_leD)
  next
    case False
    with step have "g n = r" by (auto split: sum.splits if_splits)
    with False show ?thesis by blast
  qed
qed

text \<open>
  C20. A deployment returns exactly if the RPC at some time answers with another status than
  \<open>NOT_FOUND\<close>; if it returns an address, the transaction succeeded and the address is the one a
  later lookup computes; a transaction the network drops is waited for without end.
\<close>

theorem deployment_returns:
  assumes addr: "computeAccountAddress lib (nc_factory config) salt (nc_passphrase config) = Inr a"
    and sent: "submitDeploy rpc config salt publicKey = Inr tx"
  shows "(deploySmartAccount lib rpc config salt publicKey = None \<longleftrightarrow> (\<forall>n. dr_getTransaction rpc tx n = Inr TxNotFound)) \<and>
    (\<forall>b. deploySmartAccount lib rpc config salt publicKey = Some (Inr b) \<longrightarrow>
       b = a \<and> (\<exists>n. dr_getTransaction rpc tx n = Inr TxSuccess) \<and>
       (\<forall>get. get a = Inr () \<longrightarrow> lookupExistingAccount lib get config salt = Inr (Some b)))"
proof -
  let ?get = "dr_getTransaction rpc tx"
  have run: "deploySmartAccount lib rpc config salt publicKey =
      map_option (\<lambda>r. bindR r (\<lambda>status. if status = TxSuccess then Inr a else Inl (Error ''Transaction failed: FAILED''))) (awaitTransaction ?get 0)"
    by (simp add: deploySmartAccount_def addr sent)
  have none: "awaitTransaction ?get 0 = None \<longleftrightarrow> (\<forall>n. ?get n = Inr TxNotFound)"
  proof
    assume no: "awaitTransaction ?get 0 = None"
    show "\<forall>n. ?get n = Inr TxNotFound"
    proof (rule ccontr)
      assume "\<not> (\<forall>n. ?get n = Inr TxNotFound)"
      then obtain k where "?get k \<noteq> Inr TxNotFound" "\<And>m. m < k \<Longrightarrow> ?get m = Inr TxNotFound"
        using exists_least_iff [of "\<lambda>k. ?get k \<noteq> Inr TxNotFound"] by blast
      with no show False using await_answers by fastforce
    qed
  next
    assume never: "\<forall>n. ?get n = Inr TxNotFound"
    show "awaitTransaction ?get 0 = None"
    proof (cases "awaitTransaction ?get 0")
      case (Some r)
      then show ?thesis using await_raw [OF Some] never by auto
    qed
  qed
  have "b = a \<and> (\<exists>n. ?get n = Inr TxSuccess)" if ret: "deploySmartAccount lib rpc config salt publicKey = Some (Inr b)" for b
  proof -
    obtain r where r: "awaitTransaction ?get 0 = Some r" "bindR r (\<lambda>status. if status = TxSuccess then Inr a else Inl (Error ''Transaction failed: FAILED'')) = Inr b"
      using ret unfolding run by auto
    then have "r = Inr TxSuccess" "b = a" by (auto simp: bindR_Inr_iff split: if_splits)
    with await_raw [OF r(1)] show ?thesis by auto
  qed
  with none show ?thesis by (auto simp: run lookupExistingAccount_def addr)
qed

text \<open>Witness: a deployment whose transaction is confirmed at the third query.\<close>

definition sample_lib :: "unit deploy_lib" where
  "sample_lib = \<lparr>dl_sha256 = id, dl_address = (\<lambda>_. Inr ()), dl_preimage = (\<lambda>n _ s. n @ s), dl_encode = (\<lambda>b. showNat (length b))\<rparr>"

definition sample_rpc :: "(unit, unit) deploy_rpc" where
  "sample_rpc = \<lparr>dr_getAccount = Inr (), dr_simulate = (\<lambda>_ _ _. Inr (SimOk ())), dr_assembleAndSign = Inr, dr_send = (\<lambda>_. Inr True),
     dr_getTransaction = (\<lambda>_ n. Inr (if n < 3 then TxNotFound else TxSuccess))\<rparr>"

theorem deployment_returns_witness:
  "\<exists>a. deploySmartAccount sample_lib sample_rpc \<lparr>nc_factory = ''F'', nc_passphrase = ''net''\<rparr> [1, 2] [4] = Some (Inr a)"
proof -
  let ?c = "\<lparr>nc_factory = ''F'', nc_passphrase = ''net''\<rparr>"
  obtain a where a: "computeAccountAddress sample_lib (nc_factory ?c) [1, 2] (nc_passphrase ?c) = Inr a"
    by (simp add: computeAccountAddress_def sample_lib_def)
  have sent: "submitDeploy sample_rpc ?c [1, 2] [4] = Inr ()" by (simp add: submitDeploy_def sample_rpc_def)
  have get: "dr_getTransaction sample_rpc () n = Inr (if n < 3 then TxNotFound else TxSuccess)" for n by (simp add: sample_rpc_def)
  have "dr_getTransaction sample_rpc () 3 \<noteq> Inr TxNotFound" by (simp add: get)
  then have "deploySmartAccount sample_lib sample_rpc ?c [1, 2] [4] \<noteq> None"
    using deployment_returns [OF a sent] by blast
  moreover have "awaitTransaction (dr_getTransaction sample_rpc ()) 0 = Some (Inr TxSuccess)"
    using await_answers [of "dr_getTransaction sample_rpc ()" 3] by (simp add: get)
  ultimately show ?thesis using a sent by (simp add: deploySmartAccount_def)
qed

end
