(* ===== verification/Subscription.thy ===== *)
theory Subscription
  imports Prelude
begin

text \<open>
  The subscription of the example dApp to the events of a contract
  (\<open>examples/status-message-dapp/src/hooks/useSubscription.ts\<close>): a poller that keeps a ledger to
  start from, or a cursor, between its requests. The RPC is a parameter.
\<close>

section \<open>The poller\<close>

record paging =
  pg_lastLedgerStart :: "int option"
  pg_pagingToken :: "string option"

datatype events_query = ByCursor string | ByLedgers int int

text \<open>The answer to \<open>getEvents\<close>: the latest ledger (0 if missing), the events and the cursor.\<close>

record 'e events_page =
  ep_latestLedger :: int
  ep_events :: "'e list"
  ep_cursor :: "string option"

definition EVENTS_PER_POLL :: nat where "EVENTS_PER_POLL = 10"

definition startPage :: paging where
  "startPage = \<lparr>pg_lastLedgerStart = None, pg_pagingToken = None\<rparr>"

text \<open>A start of 0 and an empty token are as good as none.\<close>

definition nextQuery :: "paging \<Rightarrow> int \<Rightarrow> events_query" where
  "nextQuery pg lastLedger =
     (case pg_pagingToken pg of
        Some (c # cs) \<Rightarrow> ByCursor (c # cs)
      | _ \<Rightarrow> ByLedgers lastLedger (lastLedger + 100))"

definition pageAfter :: "paging \<Rightarrow> 'e events_page \<Rightarrow> paging" where
  "pageAfter pg r =
     \<lparr>pg_lastLedgerStart = (if ep_latestLedger r \<noteq> 0 then Some (ep_latestLedger r) else pg_lastLedgerStart pg),
      pg_pagingToken = (if ep_events r \<noteq> [] then (case ep_cursor r of Some (c # cs) \<Rightarrow> Some (c # cs) | _ \<Rightarrow> None) else None)\<rparr>"

text \<open>One poll: the new page, and the events that are handed to the callback.\<close>

definition pollEvents :: "int result \<Rightarrow> (events_query \<Rightarrow> 'e events_page result) \<Rightarrow> paging \<Rightarrow> paging \<times> 'e list" where
  "pollEvents getLatestLedger getEvents pg =
     (case (case pg_lastLedgerStart pg of
              Some l \<Rightarrow> if l \<noteq> 0 then Inr (l, pg)
                else bindR getLatestLedger (\<lambda>l. Inr (l, pg\<lparr>pg_lastLedgerStart := Some l\<rparr>))
            | None \<Rightarrow> bindR getLatestLedger (\<lambda>l. Inr (l, pg\<lparr>pg_lastLedgerStart := Some l\<rparr>))) of
        Inl _ \<Rightarrow> (pg, [])
      | Inr (lastLedger, pg1) \<Rightarrow>
          (case getEvents (nextQuery pg1 lastLedger) of
             Inl _ \<Rightarrow> (pg1, [])
           | Inr r \<Rightarrow> (pageAfter pg1 r, ep_events r)))"

section \<open>The chain\<close>

text \<open>
  The matching events of the chain are numbered in order; \<open>ledgers ! i\<close> is the ledger of event \<open>i\<close>,
  and \<open>pos c\<close> the number of the first event after the cursor \<open>c\<close>. A query wants the events of its
  span that are in closed ledgers; the RPC's documentation ends a span before its \<open>endLedger\<close>.
\<close>

definition wanted :: "int list \<Rightarrow> (string \<Rightarrow> nat) \<Rightarrow> int \<Rightarrow> events_query \<Rightarrow> nat \<Rightarrow> bool" where
  "wanted ledgers pos latest query i \<longleftrightarrow> ledgers ! i \<le> latest \<and>
     (case query of
        ByLedgers startLedger endLedger \<Rightarrow> startLedger \<le> ledgers ! i \<and> ledgers ! i < endLedger
      | ByCursor c \<Rightarrow> pos c \<le> i)"

text \<open>
  What the RPC promises for an answer at the time of the ledger \<open>latest\<close>: an empty page means that
  nothing was wanted, and the cursor of any other page stands within the closed ledgers with every
  wanted event before it on the page, be it that of the last event or the end of the span.
\<close>

definition serves_at :: "int list \<Rightarrow> (string \<Rightarrow> nat) \<Rightarrow> int \<Rightarrow> (events_query \<Rightarrow> nat events_page) \<Rightarrow> bool" where
  "serves_at ledgers pos latest getEvents \<longleftrightarrow>
     (\<forall>query. ep_latestLedger (getEvents query) = latest \<and>
        (if ep_events (getEvents query) = [] then \<forall>i < length ledgers. \<not> wanted ledgers pos latest query i
         else \<exists>c. ep_cursor (getEvents query) = Some c \<and> c \<noteq> [] \<and> pos c \<le> length ledgers \<and>
           (\<forall>i < pos c. ledgers ! i \<le> latest \<and> (wanted ledgers pos latest query i \<longrightarrow> i \<in> set (ep_events (getEvents query))))))"

text \<open>Polls, each with the latest ledger at its time and the RPC's answer; \<open>None\<close> is a failed request.\<close>

type_synonym poll = "int \<times> (events_query \<Rightarrow> nat events_page) option"

definition pollAt :: "paging \<times> nat list \<Rightarrow> poll \<Rightarrow> paging \<times> nat list" where
  "pollAt st p =
     (case pollEvents (Inr (fst p)) (\<lambda>query. case snd p of None \<Rightarrow> Inl (Error ''fetch failed'') | Some f \<Rightarrow> Inr (f query)) (fst st) of
        (pg, evs) \<Rightarrow> (pg, snd st @ evs))"

definition subscribe :: "poll list \<Rightarrow> paging \<times> nat list" where
  "subscribe polls = foldl pollAt (startPage, []) polls"

text \<open>
  Polls that are answered often enough: each comes less than a hundred ledgers after the last one
  that was answered, or after the first.
\<close>

fun frequent :: "int \<Rightarrow> poll list \<Rightarrow> bool" where
  "frequent l [] \<longleftrightarrow> True"
| "frequent l ((latest, answer) # polls) \<longleftrightarrow>
     l \<le> latest \<and> latest < l + 100 \<and> frequent (if answer = None then l else latest) polls"

definition served :: "int list \<Rightarrow> (string \<Rightarrow> nat) \<Rightarrow> poll list \<Rightarrow> bool" where
  "served ledgers pos polls \<longleftrightarrow> (\<forall>(latest, answer) \<in> set polls. \<forall>f. answer = Some f \<longrightarrow> serves_at ledgers pos latest f)"

text \<open>
  What is handed on when the page stands at its frontier: with a cursor all events before it,
  otherwise all events before the ledger it starts from.
\<close>

definition handed_on :: "int list \<Rightarrow> (string \<Rightarrow> nat) \<Rightarrow> int \<Rightarrow> int \<Rightarrow> paging \<times> nat list \<Rightarrow> bool" where
  "handed_on ledgers pos first l st \<longleftrightarrow>
     pg_lastLedgerStart (fst st) = Some l \<and>
     (case pg_pagingToken (fst st) of
        Some c \<Rightarrow> c \<noteq> [] \<and> pos c \<le> length ledgers \<and> (\<forall>i < pos c. first \<le> ledgers ! i \<longrightarrow> i \<in> set (snd st))
      | None \<Rightarrow> \<forall>i < length ledgers. first \<le> ledgers ! i \<and> ledgers ! i < l \<longrightarrow> i \<in> set (snd st))"

section \<open>Nothing is lost between frequent polls\<close>

lemma poll_answered:
  assumes "pg_lastLedgerStart pg = Some l" "l \<noteq> 0"
  shows "pollAt (pg, out) (latest, Some f) = (pageAfter pg (f (nextQuery pg l)), out @ ep_events (f (nextQuery pg l)))"
  using assms by (simp add: pollAt_def pollEvents_def)

lemma poll_failed: "pg_lastLedgerStart pg = Some l \<Longrightarrow> l \<noteq> 0 \<Longrightarrow> pollAt (pg, out) (latest, None) = (pg, out)"
  by (simp add: pollAt_def pollEvents_def)

text \<open>An event that was not handed on before is wanted by the next query.\<close>

lemma missing_wanted:
  assumes "handed_on ledgers pos first l (pg, out)" "latest < l + 100"
    and "i < length ledgers" "first \<le> ledgers ! i" "ledgers ! i \<le> latest" "i \<notin> set out"
  shows "wanted ledgers pos latest (nextQuery pg l) i"
proof (cases "pg_pagingToken pg")
  case None
  then have "l \<le> ledgers ! i" using assms by (force simp: handed_on_def)
  with None assms(2,5) show ?thesis by (simp add: wanted_def nextQuery_def)
next
  case (Some c)
  with assms have "c \<noteq> []" "pos c \<le> i" by (auto simp: handed_on_def not_le [symmetric])
  with Some assms(5) show ?thesis by (auto simp: wanted_def nextQuery_def split: list.splits)
qed

lemma handed_on_poll:
  assumes st: "handed_on ledgers pos first l st" and ok: "serves_at ledgers pos latest f" and near: "0 < l" "l \<le> latest" "latest < l + 100"
  shows "handed_on ledgers pos first latest (pollAt st (latest, Some f))"
    and "snd (pollAt st (latest, Some f)) = snd st \<Longrightarrow> i < length ledgers \<Longrightarrow> first \<le> ledgers ! i \<Longrightarrow> ledgers ! i \<le> latest \<Longrightarrow> i \<in> set (snd st)"
proof -
  obtain pg out where s: "st = (pg, out)" by fastforce
  let ?q = "nextQuery pg l" let ?r = "f (nextQuery pg l)"
  have start: "pg_lastLedgerStart pg = Some l" using st by (simp add: handed_on_def s)
  have poll: "pollAt st (latest, Some f) = (pageAfter pg ?r, out @ ep_events ?r)"
    using poll_answered [OF start, of out latest f] near by (simp add: s)
  have l: "ep_latestLedger ?r = latest" using ok by (simp add: serves_at_def)
  have want: "wanted ledgers pos latest ?q i" if "i < length ledgers" "first \<le> ledgers ! i" "ledgers ! i \<le> latest" "i \<notin> set out" for i
    using missing_wanted [OF st [unfolded s] near(3) that] .
  show "snd (pollAt st (latest, Some f)) = snd st \<Longrightarrow> i < length ledgers \<Longrightarrow> first \<le> ledgers ! i \<Longrightarrow> ledgers ! i \<le> latest \<Longrightarrow> i \<in> set (snd st)"
    using want [of i] ok poll by (auto simp: s serves_at_def split: if_splits)
  show "handed_on ledgers pos first latest (pollAt st (latest, Some f))"
  proof (cases "ep_events ?r = []")
    case True
    then have "\<forall>i < length ledgers. \<not> wanted ledgers pos latest ?q i" using ok by (simp add: serves_at_def)
    with want have "i \<in> set out" if "i < length ledgers" "first \<le> ledgers ! i" "ledgers ! i < latest" for i
      using that by (meson less_imp_le)
    with True l near show ?thesis by (simp add: poll handed_on_def pageAfter_def)
  next
    case False
    with ok obtain c where c: "ep_cursor ?r = Some c" "c \<noteq> []" "pos c \<le> length ledgers"
      "\<forall>i < pos c. ledgers ! i \<le> latest \<and> (wanted ledgers pos latest ?q i \<longrightarrow> i \<in> set (ep_events ?r))"
      unfolding serves_at_def by meson
    have "i \<in> set (out @ ep_events ?r)" if "i < pos c" "first \<le> ledgers ! i" for i
      using want [of i] c(3,4) that by (cases "i \<in> set out") auto
    with False l near c show ?thesis by (auto simp: poll handed_on_def pageAfter_def split: list.splits)
  qed
qed

text \<open>The frontier after some polls: the ledger of the last answered one.\<close>

fun frontier :: "int \<Rightarrow> poll list \<Rightarrow> int" where
  "frontier l [] = l"
| "frontier l ((latest, answer) # polls) = frontier (if answer = None then l else latest) polls"

lemma frequent_append: "frequent l (ps @ qs) \<longleftrightarrow> frequent l ps \<and> frequent (frontier l ps) qs"
  by (induction l ps rule: frequent.induct) auto

lemma frontier_append: "frontier l (ps @ qs) = frontier (frontier l ps) qs"
  by (induction l ps rule: frontier.induct) auto

lemma frontier_mono: "frequent l ps \<Longrightarrow> l \<le> frontier l ps"
  by (induction l ps rule: frequent.induct) (auto split: if_splits intro: order_trans)

text \<open>The first poll only fixes where the page starts; it then behaves as if it had started there.\<close>

definition started :: "int \<Rightarrow> paging \<times> nat list" where
  "started l = (\<lparr>pg_lastLedgerStart = Some l, pg_pagingToken = None\<rparr>, [])"

lemma subscribe_started:
  assumes "0 < l" "polls \<noteq> []" "fst (hd polls) = l"
  shows "subscribe polls = foldl pollAt (started l) polls"
proof -
  obtain answer ps where p: "polls = (l, answer) # ps" using assms(2,3) by (cases polls) auto
  have "pollAt (startPage, []) (l, answer) = pollAt (started l) (l, answer)"
    using assms(1) by (simp add: pollAt_def pollEvents_def startPage_def started_def)
  then show ?thesis by (simp add: subscribe_def p)
qed

lemma subscribed:
  assumes "0 < l"
  shows "frequent l polls \<Longrightarrow> served ledgers pos polls \<Longrightarrow> handed_on ledgers pos l (frontier l polls) (foldl pollAt (started l) polls)"
proof (induction polls rule: rev_induct)
  case Nil
  show ?case by (simp add: handed_on_def started_def)
next
  case (snoc p polls)
  obtain latest answer where p: "p = (latest, answer)" by fastforce
  have f: "frequent l polls" "frontier l polls \<le> latest" "latest < frontier l polls + 100"
    using snoc.prems(1) by (simp_all add: frequent_append p)
  have pos: "0 < frontier l polls" using frontier_mono [OF f(1)] assms by simp
  have on: "handed_on ledgers pos l (frontier l polls) (foldl pollAt (started l) polls)"
    using snoc.IH f(1) snoc.prems(2) by (simp add: served_def)
  show ?case
  proof (cases answer)
    case None
    obtain pg out where s: "foldl pollAt (started l) polls = (pg, out)" by fastforce
    then have "pg_lastLedgerStart pg = Some (frontier l polls)" using on by (simp add: handed_on_def)
    from poll_failed [OF this] pos s on None show ?thesis by (simp add: p frontier_append)
  next
    case (Some g)
    have "serves_at ledgers pos latest g" using snoc.prems(2) by (simp add: served_def p Some)
    from handed_on_poll(1) [OF on this pos f(2,3)] show ?thesis by (simp add: p Some frontier_append)
  qed
qed


section \<open>An RPC that keeps the promise\<close>

text \<open>The first ten wanted events, with the cursor of the last one; a cursor is as long as its position.\<close>

definition chainEvents :: "int list \<Rightarrow> int \<Rightarrow> events_query \<Rightarrow> nat list" where
  "chainEvents ledgers latest query = take EVENTS_PER_POLL (filter (wanted ledgers length latest query) [0..<length ledgers])"

definition chainAnswer :: "int list \<Rightarrow> int \<Rightarrow> events_query \<Rightarrow> nat events_page" where
  "chainAnswer ledgers latest query =
     (let evs = chainEvents ledgers latest query
      in \<lparr>ep_latestLedger = latest, ep_events = evs,
          ep_cursor = Some (if evs = [] then [] else replicate (Suc (List.last evs)) CHR ''x'')\<rparr>)"

lemma in_prefix:
  assumes "sorted_wrt (<) (xs :: nat list)" "i \<in> set xs" "take n xs \<noteq> []" "i \<le> List.last (take n xs)"
  shows "i \<in> set (take n xs)"
proof (rule ccontr)
  assume "i \<notin> set (take n xs)"
  then have "i \<in> set (drop n xs)" using assms(2) append_take_drop_id [of n xs] by (metis Un_iff set_append)
  moreover have "sorted_wrt (<) (take n xs @ drop n xs)" using assms(1) by simp
  ultimately have "List.last (take n xs) < i" using assms(3) unfolding sorted_wrt_append by auto
  with assms(4) show False by simp
qed

lemma chain_serves:
  assumes "sorted ledgers"
  shows "serves_at ledgers length latest (chainAnswer ledgers latest)"
proof -
  have "\<not> wanted ledgers length latest query i" if "chainEvents ledgers latest query = []" "i < length ledgers" for query i
    using that by (auto simp: chainEvents_def EVENTS_PER_POLL_def filter_empty_conv)
  moreover have "Suc k \<le> length ledgers \<and> (\<forall>i < Suc k. ledgers ! i \<le> latest \<and>
      (wanted ledgers length latest query i \<longrightarrow> i \<in> set (chainEvents ledgers latest query)))"
    if some: "chainEvents ledgers latest query \<noteq> []" and k: "k = List.last (chainEvents ledgers latest query)" for query k
  proof -
    have "k \<in> set (chainEvents ledgers latest query)" using some k by simp
    then have last': "k < length ledgers" "ledgers ! k \<le> latest" by (auto simp: chainEvents_def wanted_def dest: in_set_takeD)
    have "ledgers ! i \<le> latest" if "i \<le> k" for i
      using sorted_nth_mono [OF assms that] last' by linarith
    moreover have "i \<in> set (chainEvents ledgers latest query)" if "i \<le> k" "wanted ledgers length latest query i" for i
      unfolding chainEvents_def
      by (rule in_prefix) (use that last' some k in \<open>auto simp: chainEvents_def intro: sorted_wrt_filter\<close>)
    ultimately show ?thesis using last' by auto
  qed
  ultimately show ?thesis by (auto simp: serves_at_def chainAnswer_def Let_def)
qed

definition pollsOf :: "int list \<Rightarrow> int list \<Rightarrow> poll list" where
  "pollsOf ledgers ts = map (\<lambda>t. (t, Some (chainAnswer ledgers t))) ts"

lemma chain_served: "sorted ledgers \<Longrightarrow> served ledgers length (pollsOf ledgers ts)"
  by (auto simp: served_def pollsOf_def chain_serves)

lemmas poll_simps = subscribe_def pollAt_def pollEvents_def pollsOf_def startPage_def chainAnswer_def chainEvents_def wanted_def
  Let_def nextQuery_def pageAfter_def EVENTS_PER_POLL_def

text \<open>
  Polls further apart skip a span: at a hundred ledgers an idle poll says nothing of its last ledger,
  beyond that an event is lost. Two idle polls at the same ledger hand its events on twice.
\<close>

lemma last_ledger_unseen: "snd (subscribe (pollsOf [200] [100, 200])) = []" "snd (subscribe (pollsOf [200] [100, 200, 201])) = [0]"
  by (simp_all add: poll_simps)

lemma span_skipped: "snd (subscribe (pollsOf [200] [100, 201, 202])) = []"
  by (simp add: poll_simps)

lemma handed_on_twice: "snd (subscribe (pollsOf [100] [100, 100, 100])) = [0, 0]"
  by (simp add: poll_simps)


end
