(* ===== verification/Home.thy ===== *)
theory Home
  imports Storage Policies Url
begin

text \<open>
  What the home page shows about an account and the device: the security summary
  (\<open>securitySummary.ts\<close>), the prompt to set up a recovery (\<open>recoveryBackupPrompt.ts\<close>), the accounts
  used last (\<open>lastUsed.ts\<close>), the support for passkeys (\<open>passkeySupport.ts\<close>, \<open>passkeyLabel.ts\<close>), and the
  balance of the example dApp (\<open>examples/status-message-dapp/src/lib/balance.ts\<close>). The chain and
  the clock are parameters.
\<close>

section \<open>The security summary\<close>

record security_summary =
  sy_hasPasskey :: bool
  sy_recovery :: "(nat \<times> nat) option"
  sy_delegations :: nat

definition summarizeBlock :: "(nat \<times> nat) option \<times> nat \<Rightarrow> policy_block \<Rightarrow> (nat \<times> nat) option \<times> nat" where
  "summarizeBlock acc block =
     (case block of
        MultisigRecovery b \<Rightarrow>
          ((case fst acc of Some r \<Rightarrow> Some r | None \<Rightarrow> Some (mb_threshold b, length (mb_friends b))), snd acc)
      | ScopedSessionKey _ \<Rightarrow> (fst acc, snd acc + 1))"

definition summarizePolicyBlocks :: "policy_block list \<Rightarrow> (nat \<times> nat) option \<times> nat" where
  "summarizePolicyBlocks blocks = foldl summarizeBlock (None, 0) blocks"

text \<open>The session keys of an account, found by walking over the keys of the storage.\<close>

definition materialOf :: "session_material \<Rightarrow> key_material" where
  "materialOf m = \<lparr>km_credentialId = orElse (as_string (sm_credentialId m)) [], km_label = as_string (sm_label m)\<rparr>"

fun collectSessionKeyMaterial :: "string \<Rightarrow> local_storage \<Rightarrow> string list \<Rightarrow> (string \<rightharpoonup> key_material) \<Rightarrow> (string \<rightharpoonup> key_material) result" where
  "collectSessionKeyMaterial account s [] out = Inr out"
| "collectSessionKeyMaterial account s (key # keys) out =
     (let prefix = sessionKey account []
      in if \<not> startsWith key prefix then collectSessionKeyMaterial account s keys out
         else let target = drop (length prefix) key
              in bindR (loadSessionKeyMaterial s account target) (\<lambda>m.
                   collectSessionKeyMaterial account s keys
                     (case m of Some m' \<Rightarrow> out(target \<mapsto> materialOf m') | None \<Rightarrow> out)))"

definition summaryOverlay :: "string \<Rightarrow> local_storage \<Rightarrow> string list \<Rightarrow> local_overlay result" where
  "summaryOverlay account s keys =
     bindR (loadFriendNicknames s account) (\<lambda>nicknames.
     bindR (loadBlockLabels s account) (\<lambda>labels.
     bindR (collectSessionKeyMaterial account s keys Map.empty) (\<lambda>material.
       Inr \<lparr>friendNicknames = (\<lambda>a. as_string (map_of nicknames a)), sessionKeyMaterial = material,
            blockLabels = (\<lambda>n. as_string (map_of labels (showNat n)))\<rparr>)))"

definition fetchSecuritySummary ::
  "(string \<Rightarrow> chain_rule list result) \<Rightarrow> (string \<Rightarrow> chain_rule \<Rightarrow> policy_state result) \<Rightarrow> string \<Rightarrow> local_storage \<Rightarrow> string list \<Rightarrow>
   security_summary result" where
  "fetchSecuritySummary fetchRules fetchState account s keys =
     bindR (loadCredential s account) (\<lambda>credential.
     bindR (summaryOverlay account s keys) (\<lambda>overlay.
     bindR (fetchRules account) (\<lambda>rules.
     bindR (loadPolicyBlocks policy_modules (fetchState account) overlay rules) (\<lambda>blocks.
       Inr (case summarizePolicyBlocks blocks of
              (recovery, delegations) \<Rightarrow>
                \<lparr>sy_hasPasskey = (credential \<noteq> None), sy_recovery = recovery, sy_delegations = delegations\<rparr>)))))"

section \<open>The prompt to back up\<close>

definition BACKUP_KEY :: "string \<Rightarrow> string" where
  "BACKUP_KEY account = ''nido:zkrecovery:backup:'' @ account"

definition SNOOZE_KEY :: "string \<Rightarrow> string" where
  "SNOOZE_KEY account = ''nido:zkrecovery:backup-snooze:'' @ account"

definition SNOOZE_MS :: int where "SNOOZE_MS = 7 * 24 * 60 * 60 * 1000"

text \<open>\<open>Number(text)\<close> of a text of digits; other texts, which are never written here, are \<open>NaN\<close>.\<close>

definition numberText :: "string \<Rightarrow> int option" where
  "numberText t = (if t \<noteq> [] \<and> all_digits t then Some (int (readNat t)) else None)"

definition markBackupSetUp :: "string \<Rightarrow> local_storage \<Rightarrow> local_storage" where
  "markBackupSetUp account s = setItem (BACKUP_KEY account) ''1'' s"

definition hasBackupLocally :: "string \<Rightarrow> local_storage \<Rightarrow> bool" where
  "hasBackupLocally account s \<longleftrightarrow> s (BACKUP_KEY account) = Some ''1''"

definition snoozeBackupPrompt :: "string \<Rightarrow> int \<Rightarrow> local_storage \<Rightarrow> local_storage" where
  "snoozeBackupPrompt account nowMs s = setItem (SNOOZE_KEY account) (showInt (nowMs + SNOOZE_MS)) s"

definition shouldShowBackupBanner :: "string \<Rightarrow> int \<Rightarrow> local_storage \<Rightarrow> bool" where
  "shouldShowBackupBanner account nowMs s \<longleftrightarrow>
     \<not> hasBackupLocally account s \<and>
     (case s (SNOOZE_KEY account) of
        None \<Rightarrow> \<not> 0 > nowMs
      | Some t \<Rightarrow> (case numberText t of Some until \<Rightarrow> \<not> until > nowMs | None \<Rightarrow> True))"

section \<open>Accounts used last\<close>

definition USED_PREFIX :: string where "USED_PREFIX = ''nido:lastUsed:''"

definition markUsed :: "string \<Rightarrow> int \<Rightarrow> local_storage \<Rightarrow> local_storage" where
  "markUsed contractId now s = setItem (USED_PREFIX @ contractId) (showInt now) s"

definition addLastUsed :: "local_storage \<Rightarrow> (string \<rightharpoonup> int) \<Rightarrow> string \<Rightarrow> (string \<rightharpoonup> int)" where
  "addLastUsed s out key =
     (if \<not> startsWith key USED_PREFIX then out
      else (case s key of
              Some (c # cs) \<Rightarrow>
                (case numberText (c # cs) of Some ts \<Rightarrow> out(drop (length USED_PREFIX) key \<mapsto> ts) | None \<Rightarrow> out)
            | _ \<Rightarrow> out))"

definition readLastUsed :: "local_storage \<Rightarrow> string list \<Rightarrow> (string \<rightharpoonup> int)" where
  "readLastUsed s keys = foldl (addLastUsed s) Map.empty keys"

section \<open>Support for passkeys\<close>

record passkey_env =
  pe_isSecureContext :: bool
  pe_hasPublicKeyCredential :: bool
  pe_hasCredentials :: bool

datatype passkey_support = PasskeyOk | InsecureContext | PasskeyUnsupported

definition supportMessage :: "passkey_support \<Rightarrow> string option" where
  "supportMessage p =
     (case p of
        PasskeyOk \<Rightarrow> None
      | InsecureContext \<Rightarrow> Some ''Passkeys need a secure connection. Open Nido at its https:// address (or on localhost) and try again.''
      | PasskeyUnsupported \<Rightarrow> Some (''This browser can'' @ [CHR 0x27] @ ''t use passkeys here. Try opening Nido in Safari or Chrome.''))"

definition checkPasskeySupport :: "passkey_env \<Rightarrow> passkey_support" where
  "checkPasskeySupport env =
     (if pe_hasPublicKeyCredential env \<and> pe_hasCredentials env then PasskeyOk
      else if \<not> pe_isSecureContext env then InsecureContext
      else PasskeyUnsupported)"

datatype passkey_method = FaceId | TouchId | Fingerprint | WindowsHello | GenericPasskey

record passkey_label =
  pl_method :: passkey_method
  pl_label :: string
  pl_icon :: string

fun hasText :: "string \<Rightarrow> string \<Rightarrow> bool" where
  "hasText [] w \<longleftrightarrow> startsWith [] w"
| "hasText (c # cs) w \<longleftrightarrow> startsWith (c # cs) w \<or> hasText cs w"

definition GENERIC :: passkey_label where
  "GENERIC = \<lparr>pl_method = GenericPasskey, pl_label = ''your passkey'', pl_icon = ''key''\<rparr>"

definition detectPasskeyLabel :: "string \<Rightarrow> passkey_label" where
  "detectPasskeyLabel ua =
     (if hasText ua ''iPhone'' \<or> hasText ua ''iPad'' \<or> hasText ua ''iPod''
      then \<lparr>pl_method = FaceId, pl_label = ''Face ID'', pl_icon = ''faceid''\<rparr>
      else if (hasText ua ''Macintosh'' \<or> hasText ua ''Mac OS X'') \<and> \<not> hasText ua ''Mobile''
      then \<lparr>pl_method = TouchId, pl_label = ''Touch ID'', pl_icon = ''fingerprint''\<rparr>
      else if hasText ua ''Android''
      then \<lparr>pl_method = Fingerprint, pl_label = ''your fingerprint'', pl_icon = ''fingerprint''\<rparr>
      else if hasText ua ''Windows''
      then \<lparr>pl_method = WindowsHello, pl_label = ''Windows Hello'', pl_icon = ''eye''\<rparr>
      else GENERIC)"

text \<open>\<open>available\<close> is the answer of the browser, if it can be asked; a failure is caught.\<close>

definition detectPasskeyLabelAsync :: "string \<Rightarrow> bool result option \<Rightarrow> passkey_label" where
  "detectPasskeyLabelAsync ua available =
     (case available of Some (Inr False) \<Rightarrow> GENERIC | _ \<Rightarrow> detectPasskeyLabel ua)"

section \<open>The balance of the example dApp\<close>

definition formatStroops :: "int \<Rightarrow> string" where
  "formatStroops stroops =
     (let neg = stroops < 0;
          a = (if neg then - stroops else stroops);
          whole = a div STROOPS_PER_XLM;
          frac = a mod STROOPS_PER_XLM;
          out = (if frac = 0 then showNat (nat whole)
                 else showNat (nat whole) @ ''.'' @ stripTrailing CHR ''0'' (padStart 7 CHR ''0'' (showNat (nat frac))))
      in if neg then ''-'' @ out else out)"

lemma formatStroops_agrees: "formatStroops n = stroopsToXlm n"
  by (simp add: formatStroops_def stroopsToXlm_def rawToDecimal_def Let_def STROOPS_PER_XLM_def)

section \<open>Facts\<close>

lemma summary_counts:
  "summarizePolicyBlocks blocks =
     ((case filter (\<lambda>b. \<exists>m. b = MultisigRecovery m) blocks of
         MultisigRecovery m # _ \<Rightarrow> Some (mb_threshold m, length (mb_friends m)) | _ \<Rightarrow> None),
      length (filter (\<lambda>b. \<exists>k. b = ScopedSessionKey k) blocks))"
proof -
  have "foldl summarizeBlock (r, n) blocks =
     ((case r of Some x \<Rightarrow> Some x | None \<Rightarrow>
         (case filter (\<lambda>b. \<exists>m. b = MultisigRecovery m) blocks of
            MultisigRecovery m # _ \<Rightarrow> Some (mb_threshold m, length (mb_friends m)) | _ \<Rightarrow> None)),
      n + length (filter (\<lambda>b. \<exists>k. b = ScopedSessionKey k) blocks))" for r n
  proof (induction blocks arbitrary: r n)
    case (Cons b blocks)
    then show ?case by (cases b) (auto simp: summarizeBlock_def split: option.split)
  qed (simp split: option.split)
  then show ?thesis by (simp add: summarizePolicyBlocks_def)
qed

text \<open>A backup hides the prompt for good, a snooze hides it for exactly a week.\<close>

lemma backup_hides: "\<not> shouldShowBackupBanner account t (snoozeBackupPrompt account t' (markBackupSetUp account s))"
  by (simp add: shouldShowBackupBanner_def hasBackupLocally_def markBackupSetUp_def snoozeBackupPrompt_def setItem_def BACKUP_KEY_def SNOOZE_KEY_def)

lemma number_shown: "0 \<le> n \<Longrightarrow> numberText (showInt n) = Some n"
  by (simp add: numberText_def showInt_def)

lemma snooze_hides:
  assumes "0 \<le> t" "\<not> hasBackupLocally account s"
  shows "shouldShowBackupBanner account t' (snoozeBackupPrompt account t s) \<longleftrightarrow> t + SNOOZE_MS \<le> t'"
proof -
  have "0 \<le> t + SNOOZE_MS" using assms(1) by (simp add: SNOOZE_MS_def)
  from number_shown [OF this] show ?thesis
    using assms(2) by (auto simp: shouldShowBackupBanner_def hasBackupLocally_def snoozeBackupPrompt_def setItem_def BACKUP_KEY_def SNOOZE_KEY_def)
qed

text \<open>A summary counts what the Security page lists, and needs no session of the device.\<close>

lemma used_read_back: "0 \<le> now \<Longrightarrow> readLastUsed (markUsed c now s) [USED_PREFIX @ c] c = Some now"
  using number_shown [of now]
  by (cases "showInt now") (auto simp: readLastUsed_def addLastUsed_def markUsed_def setItem_def startsWith_def numberText_def split: if_splits)

end
