(* ===== verification/Menu.thy ===== *)
theory Menu
  imports SharedStorage Review
begin

text \<open>
  The menu of the accounts on a device: \<open>lib/myNidoModel.ts\<close>, \<open>resolveMyNidoNames.ts\<close>,
  \<open>avatarStyle.ts\<close> and \<open>nidoSwitcher.ts\<close>. The registry, the RPC and the bridge are parameters.
  The background work of the menu, which is a handful of module variables and the callbacks of
  promises, is a step relation; a callback of \<open>then\<close> and one of \<open>finally\<close> are two steps, because
  other callbacks may run between them.
\<close>

section \<open>The rows of the menu\<close>

record pending_account =
  pa_contractId :: string
  pa_secretKey :: "string option"
  pa_setupKey :: "string option"

datatype menu_state = MenuEmpty | MenuSingle | MenuMulti

record menu_model =
  mm_state :: menu_state
  mm_rows :: "nido_row list"

definition activeRow :: "(string \<Rightarrow> string option) \<Rightarrow> string \<Rightarrow> nido_row" where
  "activeRow nameOf i = \<lparr>row_contractId = i, row_name = nameOf i, row_status = Active, row_resumeKey = None\<rparr>"

definition pendingRow :: "(string \<Rightarrow> string option) \<Rightarrow> pending_account \<Rightarrow> nido_row" where
  "pendingRow nameOf p =
     \<lparr>row_contractId = pa_contractId p, row_name = nameOf (pa_contractId p), row_status = Pending,
      row_resumeKey = (case pa_setupKey p of None \<Rightarrow> pa_secretKey p | k \<Rightarrow> k)\<rparr>"

definition buildMyNidoModel ::
  "string list \<Rightarrow> pending_account list \<Rightarrow> (string \<Rightarrow> string option) \<Rightarrow> menu_model" where
  "buildMyNidoModel accounts pending nameOf =
     (let pendingRows = map (pendingRow nameOf) (filter (\<lambda>p. pa_contractId p \<notin> set accounts) pending)
      in \<lparr>mm_state = (if accounts = [] then MenuEmpty
            else if length accounts = 1 \<and> pendingRows = [] then MenuSingle else MenuMulti),
          mm_rows = map (activeRow nameOf) accounts @ pendingRows\<rparr>)"

section \<open>Names from the registry\<close>

definition nameCandidates :: "nido_row list \<Rightarrow> nido_row list" where
  "nameCandidates = filter (\<lambda>r. row_status r = Active \<and> orElse (row_name r) [] = [])"

text \<open>One answer of the registry: the name is kept if it is one that the contract can issue.\<close>

definition settleName ::
  "(string \<Rightarrow> string option result) \<Rightarrow> nido_row \<Rightarrow> local_storage \<times> (string \<rightharpoonup> string) \<Rightarrow>
   local_storage \<times> (string \<rightharpoonup> string)" where
  "settleName lookup r st =
     (case lookup (row_contractId r) of
        Inr (Some n) \<Rightarrow>
          if n \<noteq> [] \<and> VALID_NAME_RE n
          then (saveAccountName (row_contractId r) n (fst st), (snd st)(row_contractId r \<mapsto> n)) else st
      | _ \<Rightarrow> st)"

text \<open>The lookups run side by side; \<open>arrived\<close> is the order in which their answers arrive.\<close>

definition resolveMissingNames ::
  "(string \<Rightarrow> string option result) \<Rightarrow> nido_row list \<Rightarrow> local_storage \<Rightarrow> local_storage \<times> (string \<rightharpoonup> string)" where
  "resolveMissingNames lookup arrived s = fold (settleName lookup) arrived (s, Map.empty)"

text \<open>The new link of a row, patched into the open menu.\<close>

definition patchedHref :: "string \<Rightarrow> (string \<rightharpoonup> string) \<Rightarrow> nido_row \<Rightarrow> string" where
  "patchedHref host resolved r =
     (case resolved (row_contractId r) of
        Some n \<Rightarrow> accountShareUrl host n | None \<Rightarrow> nidoRowHref host r)"

section \<open>The picture of an account\<close>

text \<open>The FNV-1a hash; \<open>Math.imul\<close> is the product modulo \<open>2 ^ 32\<close>.\<close>

definition hashStr :: "string \<Rightarrow> 32 word" where
  "hashStr s = foldl (\<lambda>h c. Bit_Operations.xor h (word_of_nat (code c)) * 16777619) 2166136261 s"

definition ANCHORS :: "int list" where
  "ANCHORS = [14, 28, 40, 186, 250, 332]"

definition avatarShift :: "32 word \<Rightarrow> int" where
  "avatarShift h = jsrem (uint (drop_bit 11 h)) 16 - 8"

definition avatarHues :: "string \<Rightarrow> int \<times> int" where
  "avatarHues seed =
     (let h = hashStr seed; j = avatarShift h
      in (jsrem (ANCHORS ! nat (jsrem (uint h) 6) + j + 360) 360,
          jsrem (ANCHORS ! nat (jsrem (uint (drop_bit 5 h)) 6) - j + 360) 360))"

definition avatarBackground :: "string \<Rightarrow> string" where
  "avatarBackground seed =
     (case avatarHues seed of (hue1, hue2) \<Rightarrow>
        ''radial-gradient(circle at 32% 28%, hsl('' @ showInt hue1 @ '' 58% 60%), hsl('' @ showInt hue2 @ '' 60% 42%))'')"

section \<open>The markup of a row\<close>

definition menuEscChar :: "char \<Rightarrow> string" where
  "menuEscChar c =
     (if c = CHR ''&'' then ''&amp;'' else if c = CHR ''<'' then ''&lt;'' else if c = CHR ''>'' then ''&gt;''
      else if c = CHR 0x22 then ''&quot;'' else [c])"

definition menuEsc :: "string \<Rightarrow> string" where
  "menuEsc s = concat (map menuEscChar s)"

definition CHEVRON :: string where
  "CHEVRON = [CHR 0xE2, CHR 0x80, CHR 0xBA]"

definition menuRowHtml :: "string \<Rightarrow> nido_row \<Rightarrow> string" where
  \<open>menuRowHtml host r =
     (let av = ''<span class="mn-av" style="background:'' @ avatarBackground (row_contractId r) @ ''"><span class="st"></span></span>'';
          title = menuEsc (orElse (row_name r) ''Your Nido'');
          href = menuEsc (nidoRowHref host r)
      in if row_status r = Pending
         then ''<a class="mn-row mn-pending" role="menuitem" href="'' @ href @ ''">'' @ av @ ''
      <span class="mn-main"><span class="mn-name">'' @ title @ ''</span><span class="mn-meta">Finishing setup'' @ ELLIPSIS @ ''</span></span>
      <span class="mn-chev">'' @ CHEVRON @ ''</span></a>''
         else ''<a class="mn-row" role="menuitem" href="'' @ href @ ''" data-balance-for="'' @ row_contractId r @ ''">'' @ av @ ''
    <span class="mn-main"><span class="mn-name">'' @ title @ ''</span><span class="mn-meta">'' @ menuEsc (shortAddr (row_contractId r) 6 6) @ ''</span></span>
    <span class="mn-bal"><span class="skeleton">&nbsp;</span></span>
    <span class="mn-chev">'' @ CHEVRON @ ''</span></a>'')\<close>

section \<open>Open panels and the keyboard\<close>

text \<open>The panels of a page in the order they were mounted, each open or not.\<close>

datatype panel_event = Toggle nat | ClickInside "nat option" | EscapeKey | OpenPanel nat

definition openPanel :: "nat \<Rightarrow> bool list \<Rightarrow> bool list" where
  "openPanel i ps = map (\<lambda>k. k = i) [0..<length ps]"

text \<open>A click keeps open only the panel it falls into.\<close>

fun panelStep :: "bool list \<Rightarrow> panel_event \<Rightarrow> bool list" where
  "panelStep ps (Toggle i) =
     (if i < length ps then (if ps ! i then ps[i := False] else openPanel i ps) else ps)"
| "panelStep ps (ClickInside target) = map (\<lambda>k. ps ! k \<and> target = Some k) [0..<length ps]"
| "panelStep ps EscapeKey = map (\<lambda>_. False) ps"
| "panelStep ps (OpenPanel i) = (if i < length ps then openPanel i ps else ps)"

datatype menu_key = ArrowDown | ArrowUp | HomeKey | EndKey

text \<open>
  The item that gets the focus, of \<open>n\<close> items, when \<open>idx\<close> has it; \<open>idx\<close> is \<open>-1\<close> if no item has.
  An index outside the list focuses nothing.
\<close>

definition menuFocus :: "menu_key \<Rightarrow> nat \<Rightarrow> int \<Rightarrow> nat option" where
  "menuFocus key n idx =
     (let i = (case key of
          ArrowDown \<Rightarrow> jsrem (idx + 1) (int n) | ArrowUp \<Rightarrow> jsrem (idx - 1 + int n) (int n)
        | HomeKey \<Rightarrow> 0 | EndKey \<Rightarrow> int n - 1)
      in if n \<noteq> 0 \<and> 0 \<le> i \<and> i < int n then Some (nat i) else None)"

section \<open>Accounts that have been deployed since\<close>

text \<open>\<open>deployed\<close> is the RPC's answer whether the instance of a contract exists.\<close>

definition promote :: "(string \<Rightarrow> bool) \<Rightarrow> json list \<Rightarrow> json \<Rightarrow> local_storage \<times> bool \<Rightarrow> local_storage \<times> bool" where
  "promote deployed active p st =
     (case pending_id p of
        None \<Rightarrow> st
      | Some i \<Rightarrow>
          if JStr i \<in> set active \<or> \<not> deployed i then st
          else (case activateAccount i (fst st) of Inl _ \<Rightarrow> st | Inr s' \<Rightarrow> (s', True)))"

definition verifyPendingAccounts ::
  "(string \<Rightarrow> bool) \<Rightarrow> local_storage \<Rightarrow> (local_storage \<times> bool) result" where
  "verifyPendingAccounts deployed s =
     bindR (loadPendingAccounts s) (\<lambda>pending.
       if pending = [] then Inr (s, False)
       else bindR (loadAccounts s) (\<lambda>active. Inr (fold (promote deployed active) pending (s, False))))"

section \<open>The background work\<close>

record menu_work =
  mw_checking :: bool
  mw_rerun :: bool
  mw_verified :: bool
  mw_syncing :: bool
  mw_synced :: bool

datatype menu_effect = StartCheck | StartSync | RefreshPanels

definition idle_work :: menu_work where
  "idle_work = \<lparr>mw_checking = False, mw_rerun = False, mw_verified = False, mw_syncing = False, mw_synced = False\<rparr>"

definition queuePendingVerification :: "bool \<Rightarrow> menu_work \<Rightarrow> menu_work \<times> menu_effect list" where
  "queuePendingVerification force w =
     (if mw_checking w then (if force then w\<lparr>mw_rerun := True\<rparr> else w, [])
      else if mw_verified w \<and> \<not> force then (w, [])
      else (w\<lparr>mw_verified := True, mw_checking := True\<rparr>, [StartCheck]))"

definition queueSharedStorageSync :: "menu_work \<Rightarrow> menu_work \<times> menu_effect list" where
  "queueSharedStorageSync w =
     (if mw_synced w \<or> mw_syncing w then (w, []) else (w\<lparr>mw_syncing := True\<rparr>, [StartSync]))"

text \<open>The callbacks: a check or a synchronisation that ended, with what it found, and their \<open>finally\<close>.\<close>

definition checkThen :: "bool \<Rightarrow> menu_work \<Rightarrow> menu_work \<times> menu_effect list" where
  "checkThen changed w = (w, if changed then [RefreshPanels, StartSync] else [])"

definition checkFinally :: "menu_work \<Rightarrow> menu_work \<times> menu_effect list" where
  "checkFinally w =
     (if mw_rerun w then queuePendingVerification True (w\<lparr>mw_checking := False, mw_rerun := False\<rparr>)
      else (w\<lparr>mw_checking := False\<rparr>, []))"

definition syncThen :: "bool \<Rightarrow> menu_work \<Rightarrow> menu_work \<times> menu_effect list" where
  "syncThen changed w =
     (if changed
      then (case queuePendingVerification True (w\<lparr>mw_synced := True\<rparr>) of (w', es) \<Rightarrow> (w', RefreshPanels # es))
      else (w\<lparr>mw_synced := True\<rparr>, []))"

definition syncFinally :: "menu_work \<Rightarrow> menu_work \<times> menu_effect list" where
  "syncFinally w = (w\<lparr>mw_syncing := False\<rparr>, [])"

text \<open>
  A run of the page. \<open>asked\<close> counts the forced requests that no check has started for yet,
  \<open>running\<close> the checks under way. A menu may be mounted at any time, a callback runs only while
  its promise is pending.
\<close>

definition checks :: "menu_effect list \<Rightarrow> nat" where
  "checks es = length (filter (\<lambda>e. e = StartCheck) es)"

inductive work_run :: "menu_work \<Rightarrow> bool \<Rightarrow> nat \<Rightarrow> bool" where
  Start: "work_run idle_work False 0"
| MountSync: "work_run w asked n \<Longrightarrow> queueSharedStorageSync w = (w', es) \<Longrightarrow> work_run w' asked (n + checks es)"
| MountCheck: "work_run w asked n \<Longrightarrow> queuePendingVerification False w = (w', es) \<Longrightarrow>
    work_run w' (asked \<and> checks es = 0) (n + checks es)"
| CheckThen: "work_run w asked n \<Longrightarrow> mw_checking w \<Longrightarrow> checkThen changed w = (w', es) \<Longrightarrow> work_run w' asked (n + checks es)"
| CheckFinally: "work_run w asked n \<Longrightarrow> mw_checking w \<Longrightarrow> checkFinally w = (w', es) \<Longrightarrow>
    work_run w' (asked \<and> checks es = 0) (n - 1 + checks es)"
| SyncThen: "work_run w asked n \<Longrightarrow> mw_syncing w \<Longrightarrow> syncThen changed w = (w', es) \<Longrightarrow>
    work_run w' ((asked \<or> changed) \<and> checks es = 0) (n + checks es)"
| SyncFinally: "work_run w asked n \<Longrightarrow> mw_syncing w \<Longrightarrow> syncFinally w = (w', es) \<Longrightarrow> work_run w' asked (n + checks es)"

lemmas work_defs = queuePendingVerification_def queueSharedStorageSync_def checkThen_def checkFinally_def
  syncThen_def syncFinally_def checks_def

section \<open>Facts\<close>

lemma settled:
  "snd (fold (settleName lookup) arrived (s, m)) i =
     (if i \<in> row_contractId ` set arrived
      then (case lookup i of Inr (Some n) \<Rightarrow> if VALID_NAME_RE n then Some n else m i | _ \<Rightarrow> m i) else m i)"
  by (induction arrived arbitrary: s m)
     (auto simp: settleName_def VALID_NAME_RE_def split: sum.split option.split list.split)

lemma settled_stored:
  assumes "\<And>i n. m i = Some n \<Longrightarrow> s (nameKey i) = Some n"
  shows "fst (fold (settleName lookup) arrived (s, m)) (nameKey i) =
    (case snd (fold (settleName lookup) arrived (s, m)) i of Some n \<Rightarrow> Some n | None \<Rightarrow> s (nameKey i))"
  using assms
proof (induction arrived arbitrary: s m)
  case Nil
  then show ?case by (auto split: option.split)
next
  case (Cons r arrived)
  obtain s1 m1 where step: "settleName lookup r (s, m) = (s1, m1)" by fastforce
  then have kept: "m1 j = Some n \<Longrightarrow> s1 (nameKey j) = Some n" for j n
    using Cons.prems by (auto simp: settleName_def saveAccountName_def setItem_def nameKey_def
        split: sum.splits option.splits if_splits)
  have "s1 (nameKey i) = s (nameKey i) \<or> m1 i = s1 (nameKey i) \<and> m1 i \<noteq> None"
    using step by (auto simp: settleName_def saveAccountName_def setItem_def nameKey_def
        split: sum.splits option.splits if_splits)
  moreover have "m1 i \<noteq> None \<Longrightarrow> snd (fold (settleName lookup) arrived (s1, m1)) i \<noteq> None"
    unfolding settled by (auto split: sum.split option.split)
  ultimately show ?case using Cons.IH [of m1 s1] kept step by (auto split: option.splits)
qed

lemma avatar_hues:
  "0 \<le> fst (avatarHues seed) \<and> fst (avatarHues seed) < 360 \<and> 0 \<le> snd (avatarHues seed) \<and> snd (avatarHues seed) < 360"
proof -
  have anchor: "ANCHORS ! nat (jsrem (uint h) 6) \<in> set ANCHORS" for h :: "32 word"
    by (rule nth_mem) (simp add: ANCHORS_def jsrem_nonneg nat_less_iff)
  have shift: "- 8 \<le> avatarShift h \<and> avatarShift h < 8" for h
    by (simp add: avatarShift_def jsrem_nonneg)
  have pos: "14 \<le> ANCHORS ! nat (jsrem (uint h) 6)" for h :: "32 word"
    using anchor [of h] by (auto simp: ANCHORS_def)
  have "0 \<le> jsrem (ANCHORS ! nat (jsrem (uint a) 6) + j + 360) 360 \<and> jsrem (ANCHORS ! nat (jsrem (uint a) 6) + j + 360) 360 < 360"
    if "- 8 \<le> j" for j and a :: "32 word"
    using that pos [of a] by (simp add: jsrem_nonneg)
  from this [of "avatarShift (hashStr seed)" "hashStr seed"]
    this [of "- avatarShift (hashStr seed)" "drop_bit 5 (hashStr seed)"] shift [of "hashStr seed"]
  show ?thesis by (simp add: avatarHues_def Let_def)
qed

text \<open>At most one panel is open.\<close>

definition one_open :: "bool list \<Rightarrow> bool" where
  "one_open ps \<longleftrightarrow> (\<forall>i j. i < length ps \<longrightarrow> j < length ps \<longrightarrow> ps ! i \<longrightarrow> ps ! j \<longrightarrow> i = j)"

interpretation panels: preserved panelStep one_open
proof
  show "one_open (panelStep ps e)" if "one_open ps" for ps e
    using that by (cases "(ps, e)" rule: panelStep.cases) (auto simp: one_open_def openPanel_def nth_list_update)
qed

lemma one_panel_open: "one_open (foldl panelStep (replicate n False) es)"
  by (rule panels.run_inv) (simp add: one_open_def)

text \<open>The arrows go round; but up from the button below the rows skips the last row.\<close>

lemma arrows_wrap:
  assumes "i < n"
  shows "menuFocus ArrowDown n (int i) = Some (Suc i mod n)" "menuFocus ArrowUp n (int i) = Some ((i + n - 1) mod n)"
proof -
  have "(1 + int i) mod int n = int (Suc i mod n)" by (simp add: zmod_int)
  moreover have "(int i - 1 + int n) mod int n = int ((i + n - 1) mod n)"
    using assms by (simp only: zmod_int) (simp add: of_nat_diff algebra_simps)
  ultimately show "menuFocus ArrowDown n (int i) = Some (Suc i mod n)"
    "menuFocus ArrowUp n (int i) = Some ((i + n - 1) mod n)"
    using assms by (simp_all add: menuFocus_def jsrem_nonneg add.commute nat_less_iff)
qed

lemma arrow_up_from_button: "menuFocus ArrowUp 3 (- 1) = Some 1"
  by (simp add: menuFocus_def jsrem_def)

text \<open>The characters that end a text or an attribute of the menu, whose attributes are in double quotes.\<close>

definition tags :: "string \<Rightarrow> string" where
  "tags s = filter (\<lambda>c. c = CHR ''<'' \<or> c = CHR ''>'' \<or> c = CHR 0x22) s"

lemma tags_simps [simp]:
  "tags [] = []"
  "tags (c # s) = (if c = CHR ''<'' \<or> c = CHR ''>'' \<or> c = CHR 0x22 then c # tags s else tags s)"
  "tags (s @ t) = tags s @ tags t"
  by (simp_all add: tags_def)

lemma tags_signs [simp]: "tags ELLIPSIS = []" "tags CHEVRON = []"
  by (simp_all add: ELLIPSIS_def CHEVRON_def)

lemma tags_menuEsc [simp]: "tags (menuEsc s) = []"
  by (induction s) (auto simp: tags_def menuEsc_def menuEscChar_def)

lemma tags_alnum: "list_all is_alnum s \<Longrightarrow> tags s = []"
  by (auto simp: tags_def list_all_iff filter_empty_conv is_alnum_def is_alpha_def is_digit_def is_lower_def is_upper_def)

lemma tags_showInt [simp]: "tags (showInt n) = []"
proof -
  have "tags (showNat m) = []" for m
    using showNat_digits [of m] by (intro tags_alnum) (auto simp: list_all_iff is_alnum_def)
  then show ?thesis by (simp add: showInt_def)
qed

lemma tags_avatar [simp]: "tags (avatarBackground seed) = []"
  by (simp add: avatarBackground_def split: prod.split)

text \<open>The row of an address is free of injected markup, whatever names the account and its links have.\<close>

lemma menu_row_inert:
  assumes "list_all is_alnum (row_contractId r)"
  shows "tags (menuRowHtml host r) = tags (menuRowHtml [] \<lparr>row_contractId = [], row_name = None,
    row_status = row_status r, row_resumeKey = None\<rparr>)"
  using tags_alnum [OF assms] by (simp add: menuRowHtml_def Let_def)

text \<open>But the list accepts identifiers with markup: only the length and the first letter are checked.\<close>

definition markup_id :: string where
  "markup_id = ''C'' @ [CHR 0x22] @ ''><SCRIPT SRC=//X.XX></SCRIPT>'' @ replicate 25 CHR ''A''"

lemma markup_id_accepted: "normalizeContractId (JStr markup_id) = Some markup_id"
  by code_simp

lemma menu_row_not_inert:
  "tags (menuRowHtml [] (activeRow (\<lambda>_. None) markup_id)) \<noteq> tags (menuRowHtml [] (activeRow (\<lambda>_. None) sample_id))"
proof -
  have "length (tags markup_id) \<noteq> length (tags sample_id)" by code_simp
  then show ?thesis
    by (auto simp: menuRowHtml_def Let_def activeRow_def dest!: arg_cong [where f = length])
qed

lemma loaded_pending:
  assumes "list_all pending_entry ps" "readList s PENDING = Inr ps"
  shows "\<exists>ps'. loadPendingAccounts s = Inr ps' \<and> map pending_id ps' = map pending_id ps"
proof -
  have "pending_id (with_member ''setupKey'' v p) = pending_id p" if "pending_entry p" for v p
    using that by (auto simp: pending_entry_def pending_id_def with_member_def map_of_putMember)
  with assms show ?thesis by (auto simp: loadPendingAccounts_def list_all_iff)
qed

text \<open>The accounts that one check moves to the list.\<close>

definition promoted :: "(string \<Rightarrow> bool) \<Rightarrow> string list \<Rightarrow> json list \<Rightarrow> string set" where
  "promoted deployed ids ps = {i. Some i \<in> set (map pending_id ps) \<and> i \<notin> set ids \<and> deployed i}"

lemma promote_run:
  assumes "readList s ACCOUNTS = Inr (map JStr ids)" "distinct ids"
    and "readList s PENDING = Inr ps" "list_all pending_entry ps"
  shows "\<exists>s' ids'. fold (promote deployed (map JStr ids0)) qs (s, b) = (s', b \<or> promoted deployed ids0 qs \<noteq> {}) \<and>
    readList s' ACCOUNTS = Inr (map JStr ids') \<and> distinct ids' \<and> set ids' = set ids \<union> promoted deployed ids0 qs \<and>
    readList s' PENDING = Inr (filter (\<lambda>p. pending_id p \<notin> Some ` promoted deployed ids0 qs) ps)"
  using assms
proof (induction qs arbitrary: s ids ps b)
  case Nil
  then show ?case by (auto simp: promoted_def)
next
  case (Cons p qs)
  show ?case
  proof (cases "\<exists>i. pending_id p = Some i \<and> i \<notin> set ids0 \<and> deployed i")
    case False
    then have "promoted deployed ids0 (p # qs) = promoted deployed ids0 qs"
      unfolding promoted_def by (simp add: set_eq_iff) metis
    moreover have "promote deployed (map JStr ids0) p st = st" for st
      using False by (auto simp: promote_def split: option.split)
    ultimately show ?thesis using Cons.IH [OF Cons.prems] by simp
  next
    case True
    then obtain i where i: "pending_id p = Some i" "i \<notin> set ids0" "deployed i" by blast
    then have split: "promoted deployed ids0 (p # qs) = insert i (promoted deployed ids0 qs)" by (auto simp: promoted_def)
    from pending_removed [OF Cons.prems(3,4), of i] Cons.prems(1) obtain s1 where s1:
      "removePendingAccount i s = Inr s1" "readList s1 ACCOUNTS = Inr (map JStr ids)"
      "readList s1 PENDING = Inr (filter (\<lambda>p. pending_id p \<noteq> Some i) ps)" by auto
    from accounts_saved [OF s1(2) Cons.prems(2), of i] s1 obtain s2 ids2 where s2:
      "activateAccount i s = Inr s2" "readList s2 ACCOUNTS = Inr (map JStr ids2)" "distinct ids2"
      "set ids2 = insert i (set ids)" "readList s2 PENDING = Inr (filter (\<lambda>p. pending_id p \<noteq> Some i) ps)"
      by (auto simp: activateAccount_def)
    have "list_all pending_entry (filter (\<lambda>p. pending_id p \<noteq> Some i) ps)"
      using Cons.prems(4) by (auto simp: list_all_iff)
    from Cons.IH [OF s2(2,3,5) this, of True] obtain s' ids' where s':
      "fold (promote deployed (map JStr ids0)) qs (s2, True) = (s', True)"
      "readList s' ACCOUNTS = Inr (map JStr ids')" "distinct ids'"
      "set ids' = insert i (set ids) \<union> promoted deployed ids0 qs"
      "readList s' PENDING = Inr (filter (\<lambda>p. pending_id p \<notin> Some ` promoted deployed ids0 qs)
         (filter (\<lambda>p. pending_id p \<noteq> Some i) ps))" using s2(4) by auto
    have "promote deployed (map JStr ids0) p (s, b) = (s2, True)"
      using i s2(1) by (auto simp: promote_def)
    moreover have "filter (\<lambda>p. pending_id p \<notin> Some ` promoted deployed ids0 qs) (filter (\<lambda>p. pending_id p \<noteq> Some i) ps) =
        filter (\<lambda>p. pending_id p \<notin> Some ` promoted deployed ids0 (p' # qs)) ps" if "p' = p" for p'
      unfolding filter_filter that split by (rule filter_cong) auto
    ultimately show ?thesis using s' split by (intro exI [of _ s'] exI [of _ ids']) auto
  qed
qed

section \<open>Properties\<close>

text \<open>
  C23. Whatever the registry or the RPC answers, in whatever order: the names that are kept are names
  the contract can issue, one for each row asked about; the stored names are those; and the link
  of a row that got one leads to the page of that name on the deployment of the open page.
\<close>

theorem registry_names_confined:
  assumes "wf_site s" "\<And>l. r = Some l \<Longrightarrow> good_label l"
    and "set arrived = set (nameCandidates rows)"
    and "resolveMissingNames lookup arrived st = (st', resolved)"
  shows "(\<forall>i. resolved i = (if i \<in> row_contractId ` set (nameCandidates rows)
        then (case lookup i of Inr (Some n) \<Rightarrow> if VALID_NAME_RE n then Some n else None | _ \<Rightarrow> None) else None)) \<and>
    (\<forall>i. loadAccountName st' i = (case resolved i of Some n \<Rightarrow> Some n | None \<Rightarrow> loadAccountName st i)) \<and>
    (\<forall>x n. resolved (row_contractId x) = Some n \<longrightarrow>
      patchedHref (page s r) resolved x = ''//'' @ page s (Some n) @ ''/'')"
proof -
  have res: "resolved = snd (fold (settleName lookup) arrived (st, Map.empty))"
    "st' = fst (fold (settleName lookup) arrived (st, Map.empty))"
    using assms(4) by (simp_all add: resolveMissingNames_def)
  have kept: "resolved i = (if i \<in> row_contractId ` set (nameCandidates rows)
      then (case lookup i of Inr (Some n) \<Rightarrow> if VALID_NAME_RE n then Some n else None | _ \<Rightarrow> None) else None)" for i
    unfolding res(1) settled assms(3) by (auto split: sum.split option.split)
  moreover have "loadAccountName st' i = (case resolved i of Some n \<Rightarrow> Some n | None \<Rightarrow> loadAccountName st i)" for i
    unfolding res loadAccountName_def by (rule settled_stored) simp
  moreover have "patchedHref (page s r) resolved x = ''//'' @ page s (Some n) @ ''/''"
    if n: "resolved (row_contractId x) = Some n" for x n
  proof -
    have "VALID_NAME_RE n" using n kept [of "row_contractId x"] by (auto split: if_splits sum.splits option.splits)
    with valid_name(2) page_siteHost [OF assms(1), of r n] assms(2) n show ?thesis
      by (simp add: patchedHref_def accountShareUrl_def accountUrl_def)
  qed
  ultimately show ?thesis by blast
qed

theorem registry_names_confined_witness:
  "\<exists>st' resolved. resolveMissingNames (\<lambda>i. if i = sample_id then Inr (Some ''alice'') else Inr (Some ''evil.com/''))
      [activeRow (\<lambda>_. None) ''CB'', activeRow (\<lambda>_. None) sample_id] Map.empty = (st', resolved) \<and>
    loadAccountName st' sample_id = Some ''alice'' \<and> resolved ''CB'' = None \<and>
    patchedHref ''24.nido.fyi'' resolved (activeRow (\<lambda>_. None) sample_id) = ''//alice--24.nido.fyi/''"
proof -
  let ?rows = "[activeRow (\<lambda>_. None) sample_id, activeRow (\<lambda>_. None) ''CB'']"
  let ?lookup = "\<lambda>i. if i = sample_id then Inr (Some ''alice'') else Inr (Some ''evil.com/'')"
  obtain st' resolved where run: "resolveMissingNames ?lookup (rev ?rows) Map.empty = (st', resolved)" by fastforce
  have pages: "page sample_site None = ''24.nido.fyi''" "page sample_site (Some ''alice'') = ''alice--24.nido.fyi''"
    "VALID_NAME_RE ''alice''" "\<not> VALID_NAME_RE ''evil.com/''" "''CB'' \<noteq> sample_id" by code_simp+
  have cands: "nameCandidates ?rows = ?rows" by (simp add: nameCandidates_def activeRow_def)
  have "set (rev ?rows) = set (nameCandidates ?rows)" unfolding cands by (simp add: insert_commute)
  from registry_names_confined [OF sample_site(1) _ this run, of None]
  have all: "resolved i = (if i \<in> row_contractId ` set ?rows
        then (case ?lookup i of Inr (Some n) \<Rightarrow> if VALID_NAME_RE n then Some n else None | _ \<Rightarrow> None) else None)"
    "loadAccountName st' i = (case resolved i of Some n \<Rightarrow> Some n | None \<Rightarrow> loadAccountName Map.empty i)"
    "resolved (row_contractId x) = Some n \<longrightarrow>
      patchedHref (page sample_site None) resolved x = ''//'' @ page sample_site (Some n) @ ''/''" for i x n
    unfolding cands by simp_all
  have "resolved sample_id = Some ''alice''" "resolved ''CB'' = None"
    using pages all(1) [of sample_id] all(1) [of "''CB''"] by (simp_all add: activeRow_def)
  with all(2) [of sample_id] all(3) [of "activeRow (\<lambda>_. None) sample_id" "''alice''"] pages run
  show ?thesis by (auto simp: activeRow_def)
qed

text \<open>
  C25. A check moves exactly the pending accounts that have been deployed and are not listed: they are
  listed, their pending entries are gone, every other entry and account is kept, and the answer
  says whether there was any. The lists stay consistent.
\<close>

theorem check_promotes_deployed:
  assumes "lists_ok s"
  shows "\<exists>ids ps s' ids' changed. readList s ACCOUNTS = Inr (map JStr ids) \<and> readList s PENDING = Inr ps \<and>
    verifyPendingAccounts deployed s = Inr (s', changed) \<and> (changed \<longleftrightarrow> promoted deployed ids ps \<noteq> {}) \<and>
    readList s' ACCOUNTS = Inr (map JStr ids') \<and> set ids' = set ids \<union> promoted deployed ids ps \<and>
    readList s' PENDING = Inr (filter (\<lambda>p. pending_id p \<notin> Some ` promoted deployed ids ps) ps) \<and> lists_ok s'"
proof -
  obtain ids ps where a: "readList s ACCOUNTS = Inr (map JStr ids)" "distinct ids"
    and p: "readList s PENDING = Inr ps" "list_all pending_entry ps" "distinct (map pending_id ps)"
    using assms by (auto simp: lists_ok_def)
  obtain qs where qs: "loadPendingAccounts s = Inr qs" "map pending_id qs = map pending_id ps"
    using loaded_pending [OF p(2,1)] by blast
  then have same: "promoted deployed ids qs = promoted deployed ids ps" by (simp add: promoted_def)
  from promote_run [OF a p(1,2), of deployed ids qs False] obtain s' ids' where run:
    "fold (promote deployed (map JStr ids)) qs (s, False) = (s', promoted deployed ids ps \<noteq> {})"
    "readList s' ACCOUNTS = Inr (map JStr ids')" "distinct ids'" "set ids' = set ids \<union> promoted deployed ids ps"
    "readList s' PENDING = Inr (filter (\<lambda>p. pending_id p \<notin> Some ` promoted deployed ids ps) ps)"
    unfolding same by auto
  have "verifyPendingAccounts deployed s = Inr (s', promoted deployed ids ps \<noteq> {})"
    using run(1) qs(1) a(1) by (auto simp: verifyPendingAccounts_def loadAccounts_def)
  moreover have "lists_ok s'"
    using run p by (auto simp: lists_ok_def list_all_iff intro!: distinct_map_filter)
  ultimately show ?thesis using a p run by blast
qed

definition waiting_device :: local_storage where
  "waiting_device = foldl account_step Map.empty [SavePending ''CA'' ''k1'', SavePending ''CB'' ''k2'']"

lemma waiting_lists:
  "readList waiting_device ACCOUNTS = Inr []"
  "bindR (readList waiting_device PENDING) (\<lambda>ps. Inr (map pending_id ps)) = Inr [Some ''CA'', Some ''CB'']"
  by code_simp+

theorem check_promotes_deployed_witness:
  "lists_ok waiting_device \<and> (\<exists>s' ps. verifyPendingAccounts (\<lambda>i. i = ''CA'') waiting_device = Inr (s', True) \<and>
     readList s' ACCOUNTS = Inr [JStr ''CA''] \<and> readList s' PENDING = Inr ps \<and> map pending_id ps = [Some ''CB''])"
proof -
  have ok: "lists_ok waiting_device"
    unfolding waiting_device_def by (rule accounts.run_inv) (rule empty_lists)
  from check_promotes_deployed [OF ok, of "\<lambda>i. i = ''CA''"] obtain ids ps s' ids' changed where res:
    "readList waiting_device ACCOUNTS = Inr (map JStr ids)" "readList waiting_device PENDING = Inr ps"
    "verifyPendingAccounts (\<lambda>i. i = ''CA'') waiting_device = Inr (s', changed)"
    "changed \<longleftrightarrow> promoted (\<lambda>i. i = ''CA'') ids ps \<noteq> {}" "readList s' ACCOUNTS = Inr (map JStr ids')"
    "set ids' = set ids \<union> promoted (\<lambda>i. i = ''CA'') ids ps"
    "readList s' PENDING = Inr (filter (\<lambda>p. pending_id p \<notin> Some ` promoted (\<lambda>i. i = ''CA'') ids ps) ps)" "lists_ok s'"
    by blast
  with waiting_lists have lists: "ids = []" "map pending_id ps = [Some ''CA'', Some ''CB'']" by simp_all
  then have moved: "promoted (\<lambda>i. i = ''CA'') ids ps = {''CA''}" by (auto simp: promoted_def)
  have "distinct ids'" using res(5,8) by (auto simp: lists_ok_def inj_map_eq_map inj_def)
  moreover have "set ids' = {''CA''}" using res(6) lists(1) moved by simp
  ultimately have "ids' = [''CA'']" by (cases ids') (auto simp: subset_singleton_iff)
  moreover have "map pending_id (filter (\<lambda>p. pending_id p \<notin> Some ` {''CA''}) ps) =
      filter (\<lambda>k. k \<notin> Some ` {''CA''}) (map pending_id ps)" by (simp add: filter_map comp_def)
  ultimately have "map pending_id (filter (\<lambda>p. pending_id p \<notin> Some ` {''CA''}) ps) = [Some ''CB'']" "ids' = [''CA'']" "changed"
    using lists(2) moved res(4) by simp_all
  then show ?thesis using ok res(3,5,7) moved by (intro conjI exI) simp_all
qed

text \<open>
  C24. At most one check runs at a time, and a request that the list be checked again is not lost: it
  is noted while a check runs, and the end of that check starts the next one. When no check runs,
  nothing is outstanding.
\<close>

theorem forced_check_runs:
  "work_run w asked n \<Longrightarrow>
   n = of_bool (mw_checking w) \<and> (mw_rerun w \<longrightarrow> mw_checking w) \<and>
   (asked \<longrightarrow> mw_checking w \<and> mw_rerun w \<and> snd (checkFinally w) = [StartCheck])"
proof (induction rule: work_run.induct)
  case Start
  then show ?case by (simp add: idle_work_def)
qed (auto simp: work_defs split: if_splits)

theorem forced_check_runs_witness:
  "\<exists>w. work_run w True 1 \<and> mw_checking w \<and> snd (checkFinally w) = [StartCheck]"
proof -
  obtain w1 es1 where 1: "queueSharedStorageSync idle_work = (w1, es1)" by fastforce
  obtain w2 es2 where 2: "queuePendingVerification False w1 = (w2, es2)" by fastforce
  obtain w3 es3 where 3: "syncThen True w2 = (w3, es3)" by fastforce
  note steps = 1 2 3
  have "work_run w3 ((False \<or> True) \<and> checks es3 = 0) (0 + checks es1 + checks es2 + checks es3)"
  proof (rule work_run.SyncThen [OF _ _ 3])
    have "work_run w2 (False \<and> checks es2 = 0) (0 + checks es1 + checks es2)"
      by (rule work_run.MountCheck [OF work_run.MountSync [OF work_run.Start 1] 2])
    then show "work_run w2 False (0 + checks es1 + checks es2)" by simp
    show "mw_syncing w2" using steps by (auto simp: work_defs idle_work_def)
  qed
  moreover have "checks es1 = 0" "checks es2 = 1" "checks es3 = 0"
    using steps by (auto simp: work_defs idle_work_def)
  ultimately have "work_run w3 True 1" by simp
  with forced_check_runs [OF this] show ?thesis by blast
qed

end
