(* ===== verification/Gateway.thy ===== *)
theory Gateway
  imports Resolver Chain Json
begin

text \<open>
  How a request reaches a page, and how the example dApp reads names and rules: the proxy in front
  of the subdomains (\<open>frontend/worker-proxy-nido\<close>), the dApp's client of the name resolver
  (\<open>lib/nidoResolver.ts\<close>) and its own reader of an account's rules
  (\<open>lib/policyChainFetch.ts\<close>). The upstream and \<open>fetch\<close> are parameters; the text of a member that
  an object literal inherits is a parameter as well.
\<close>

section \<open>The proxy\<close>

definition PAGES :: string where
  "PAGES = ''nido-1am.pages.dev''"

definition previewRoot :: "string \<Rightarrow> string option" where
  "previewRoot sub = (if all_digits sub then Some sub else legacyRoot sub)"

definition proxyPath :: "(string \<Rightarrow> string) \<Rightarrow> string \<Rightarrow> string \<Rightarrow> string" where
  "proxyPath inherited sub path =
     (case RESERVED_DAPP_SUBDOMAINS (toLowerCase (fst (previewSubdomain sub))) of
        None \<Rightarrow> path
      | Some d \<Rightarrow> if path \<noteq> ''/'' then path
          else (case d of DappPath p \<Rightarrow> p | Inherited k \<Rightarrow> inherited k))"

definition proxyHost :: "string \<Rightarrow> string" where
  "proxyHost sub =
     (case snd (previewSubdomain sub) of
        Some pr \<Rightarrow> (''pr-'' @ pr) @ ''.'' @ PAGES
      | None \<Rightarrow> (case previewRoot sub of
          Some pr \<Rightarrow> ''pr-'' @ pr @ ''.'' @ PAGES | None \<Rightarrow> PAGES))"

definition proxyRoute :: "(string \<Rightarrow> string) \<Rightarrow> string \<Rightarrow> string \<Rightarrow> string \<times> string" where
  "proxyRoute inherited host path =
     (let sub = hd (labels host) in (proxyHost sub, proxyPath inherited sub path))"

section \<open>The dApp's client of the name resolver\<close>

text \<open>The parts of \<open>new URL(base)\<close>; a \<open>host\<close> may carry a port.\<close>

record base_url =
  bu_protocol :: string
  bu_host :: string

text \<open>\<open>^(?:pr-)?(\d+)\.(.+)$\<close>\<close>

definition previewHost :: "string \<Rightarrow> (string \<times> string) option" where
  "previewHost host =
     (case labels host of
        d # p # ps \<Rightarrow> (case bareRoot d of
            Some n \<Rightarrow> if dots (p # ps) \<noteq> [] then Some (n, dots (p # ps)) else None
          | None \<Rightarrow> None)
      | _ \<Rightarrow> None)"

definition buildWellKnownUrl :: "base_url \<Rightarrow> string \<Rightarrow> string" where
  "buildWellKnownUrl u label =
     (let sub = toLowerCase label;
          host = (case previewHost (bu_host u) of
              Some (n, apex) \<Rightarrow> sub @ ''--'' @ n @ ''.'' @ apex | None \<Rightarrow> sub @ ''.'' @ bu_host u)
      in bu_protocol u @ ''//'' @ host @ ''/.well-known/nido.json'')"

text \<open>An answer: whether its status is good, and its body if that is JSON.\<close>

type_synonym record_fetch = "string \<Rightarrow> (bool \<times> json option) result"

definition fetchRecord :: "record_fetch \<Rightarrow> string \<Rightarrow> json option" where
  "fetchRecord fetch url =
     (case fetch url of
        Inl _ \<Rightarrow> None
      | Inr (ok, body) \<Rightarrow> if ok then body else None)"

definition resolveNidoName :: "record_fetch \<Rightarrow> string \<Rightarrow> base_url \<Rightarrow> json option" where
  "resolveNidoName fetch n base =
     coalesce (ofield ''address'' (fetchRecord fetch (buildWellKnownUrl base n))) None"

definition lookupNidoName :: "record_fetch \<Rightarrow> string \<Rightarrow> base_url \<Rightarrow> json option" where
  "lookupNidoName fetch address base =
     coalesce (ofield ''name'' (fetchRecord fetch (buildWellKnownUrl base address))) None"

section \<open>The dApp's reader of rules\<close>

fun dappSigner :: "string \<Rightarrow> native list \<Rightarrow> bool" where
  "dappSigner lowerHex [] = False"
| "dappSigner lowerHex (s # ss) =
     (case s of
        NArr vs \<Rightarrow>
          if arr vs 0 = Some (NStr ''External'') \<and> candidateHex (arr vs 2) \<noteq> [] \<and> candidateHex (arr vs 2) = lowerHex
          then True else dappSigner lowerHex ss
      | _ \<Rightarrow> dappSigner lowerHex ss)"

fun dappScan :: "(nat \<Rightarrow> native result) \<Rightarrow> string \<Rightarrow> nat \<Rightarrow> nat \<Rightarrow> nat \<Rightarrow> nat \<Rightarrow> nat option result" where
  "dappScan get lowerHex count 0 i found = (if found < count then Inl scan_exhausted else Inr None)"
| "dappScan get lowerHex count (Suc n) i found =
     (if found < count
      then (case get i of
              Inl e \<Rightarrow> if isRuleNotFound e then dappScan get lowerHex count n (Suc i) found else Inl e
            | Inr v \<Rightarrow>
                if dappSigner lowerHex (list_of (nfield ''signers'' v))
                then Inr (Some (case nfield ''id'' v of Some (NNum k) \<Rightarrow> nat k | _ \<Rightarrow> i))
                else dappScan get lowerHex count n (Suc i) (Suc found))
      else Inr None)"

definition dappFindRule :: "chain_rpc \<Rightarrow> string \<Rightarrow> string \<Rightarrow> nat option result" where
  "dappFindRule rpc account pubkeyHex =
     bindR (simulateView rpc account ''get_context_rules_count'' []) (\<lambda>countRv.
       dappScan (\<lambda>i. simulateView rpc account ''get_context_rule'' [ArgU32 i])
         (toLowerCase pubkeyHex) (as_num (Some countRv)) (as_num (Some countRv) + 100) 0 0)"

fun dappVerifier :: "native list \<Rightarrow> string option" where
  "dappVerifier [] = None"
| "dappVerifier (s # ss) =
     (case s of
        NArr vs \<Rightarrow> (case (arr vs 0, arr vs 1) of
            (Some (NStr t), Some (NStr v)) \<Rightarrow> if t = ''External'' then Some v else dappVerifier ss
          | _ \<Rightarrow> dappVerifier ss)
      | _ \<Rightarrow> dappVerifier ss)"

definition dappFetchVerifier :: "chain_rpc \<Rightarrow> (string \<Rightarrow> string result) \<Rightarrow> string \<Rightarrow> string result" where
  "dappFetchVerifier rpc registryAddress account =
     (case (case simulateView rpc account ''get_context_rule'' [ArgU32 0] of
              Inl _ \<Rightarrow> None | Inr native \<Rightarrow> dappVerifier (list_of (nfield ''signers'' native))) of
        Some v \<Rightarrow> Inr v | None \<Rightarrow> registryAddress ''verifier'')"

section \<open>The dApp's reader is the wallet's\<close>

lemma dappSigner_iff: "dappSigner hex ss \<longleftrightarrow> signerHit hex ss \<noteq> None"
  by (induction ss) (auto split: native.split)

lemma dappScan_eq:
  "dappScan get hex count n i found = bindR (signerScan get hex count n i found) (\<lambda>r. Inr (map_option fst r))"
  by (induction n arbitrary: i found)
     (auto simp: ruleHit_def dappSigner_iff split: sum.split option.split native.split)

lemma dappVerifier_eq: "dappVerifier ss = firstVerifier ss"
proof (induction ss)
  case (Cons s ss)
  have "arr vs 0 = (case vs of v # _ \<Rightarrow> Some v | _ \<Rightarrow> None)"
    "arr vs 1 = (case vs of _ # v # _ \<Rightarrow> Some v | _ \<Rightarrow> None)" for vs :: "native list"
    by (cases vs rule: list.exhaust [case_product list.exhaust]; auto simp: arr_def split: list.split)+
  with Cons show ?case by (simp split: native.split list.split)
qed simp

text \<open>
  The dApp has its own copy of the search for the rule of a key and of the verifier an account
  trusts. It answers as the wallet's does, failures included.
\<close>

theorem dapp_reads_as_wallet:
  "dappFindRule rpc account pubkeyHex = findRuleForPubkey rpc account pubkeyHex \<and>
   dappFetchVerifier rpc registryAddress account = fetchVerifierAddress rpc registryAddress account"
proof -
  have "(\<lambda>i. simulateView rpc account ''get_context_rule'' [ArgU32 i]) = getRule rpc account"
    by (simp add: fun_eq_iff getRule_def)
  then show ?thesis
    by (auto simp: dappFindRule_def findRuleForPubkey_def resolveSignerRule_def ruleCount_def bindR_assoc dappScan_eq
        dappFetchVerifier_def fetchVerifierAddress_def getRule_def dappVerifier_eq split: sum.split option.split)
qed

section \<open>Pages behind the proxy\<close>

lemma previewRoot_eq: "previewRoot sub = bareRoot sub"
  by (simp add: previewRoot_def bareRoot_def)

lemma root_label:
  assumes "wf_site s"
  shows "proxyHost (hd (labels (page s None))) = (case site_preview s of None \<Rightarrow> PAGES | Some n \<Rightarrow> ''pr-'' @ n @ ''.'' @ PAGES)"
proof -
  obtain a b where ab: "labels (site_apex s) = [a, b]" "good_label a"
    using assms by (rule site_labels)
  with page_labels(2) [OF assms ab(2)] assms show ?thesis
    by (cases "site_preview s")
       (auto simp: proxyHost_def previewRoot_eq good_label_def wf_site_def previewSubdomain_digits bareRoot_def)
qed

text \<open>
  Every page of a deployment, the root and each account, is served by the upstream of that
  deployment, and the path is kept; only the root path of a built-in dApp becomes the dApp's.
\<close>

theorem proxy_serves_deployment:
  assumes "wf_site s" "\<And>l. r = Some l \<Longrightarrow> good_label l"
  shows "fst (proxyRoute inherited (page s r) path) =
      (case site_preview s of None \<Rightarrow> PAGES | Some n \<Rightarrow> ''pr-'' @ n @ ''.'' @ PAGES) \<and>
    (\<forall>l. r = Some l \<longrightarrow> snd (proxyRoute inherited (page s r) path) =
      (if path = ''/'' \<and> toLowerCase l = ''status-message'' then ''/status-message/''
       else if path = ''/'' \<and> toLowerCase l \<in> set object_members then inherited (toLowerCase l) else path))"
proof (cases r)
  case None
  with root_label [OF assms(1)] show ?thesis by (simp add: proxyRoute_def Let_def)
next
  case (Some l)
  with assms have l: "good_label l" by simp
  from page_first [OF assms(1) l] Some show ?thesis
    by (auto simp: proxyRoute_def Let_def proxyHost_def proxyPath_def previewRoot_eq RESERVED_DAPP_SUBDOMAINS_def
        split: option.split)
qed

theorem proxy_serves_deployment_witness:
  "proxyRoute id ''status-message--24.nido.fyi'' ''/'' = (''pr-24.nido-1am.pages.dev'', ''/status-message/'')"
proof -
  have "page sample_site (Some ''status-message'') = ''status-message--24.nido.fyi''" "good_label ''status-message''"
    "PAGES = ''nido-1am.pages.dev''" "toLowerCase ''status-message'' = ''status-message''"
    "site_preview sample_site = Some ''24''" by code_simp+
  with proxy_serves_deployment [OF sample_site(1), of "Some ''status-message''" id "''/''"] show ?thesis
    by (simp add: prod_eq_iff)
qed

section \<open>The client against the service\<close>

text \<open>The resolver service as the dApp's browser reaches it: by the host and the path of the URL.\<close>

definition urlHost :: "string \<Rightarrow> string" where
  "urlHost url = takeWhile (\<lambda>c. c \<noteq> CHR ''/'') (drop 2 (dropWhile (\<lambda>c. c \<noteq> CHR ''/'') url))"

definition urlPath :: "string \<Rightarrow> string" where
  "urlPath url = dropWhile (\<lambda>c. c \<noteq> CHR ''/'') (drop 2 (dropWhile (\<lambda>c. c \<noteq> CHR ''/'') url))"

definition resolve_json :: "resolve_body \<Rightarrow> json option" where
  "resolve_json body =
     (case body of
        ResolveEmpty \<Rightarrow> None
      | ResolveError m \<Rightarrow> Some (JObj [(''error'', JStr m)])
      | NameNotFound n net \<Rightarrow> Some (JObj [(''error'', JStr ''name not found''), (''name'', JStr n), (''network'', JStr net)])
      | Resolved n a net \<Rightarrow> Some (JObj [(''name'', case n of None \<Rightarrow> JNull | Some m \<Rightarrow> JStr m), (''address'', JStr a),
          (''network'', JStr net)]))"

definition serviceFetch :: "resolver_registry \<Rightarrow> string \<Rightarrow> record_fetch" where
  "serviceFetch registry network url =
     (case handleResolve registry network \<lparr>http_method = ''GET'', hostname = urlHost url, pathname = urlPath url,
        query = [], request_body = []\<rparr> of
        (status, body, _) \<Rightarrow> Inr (200 \<le> status \<and> status < 300, resolve_json body))"

lemma url_parts:
  assumes "CHR ''/'' \<notin> set host"
  shows "urlHost (''https:'' @ ''//'' @ host @ CHR ''/'' # path) = host"
    "urlPath (''https:'' @ ''//'' @ host @ CHR ''/'' # path) = CHR ''/'' # path"
  using assms by (auto simp: urlHost_def urlPath_def takeWhile_append dropWhile_append)

lemma page_label_no_slash: "wf_site s \<Longrightarrow> CHR ''/'' \<notin> set l \<Longrightarrow> CHR ''/'' \<notin> set (page s (Some l))"
  using page_no_slash [of s] by (auto simp: page_def split: option.splits)

lemma previewHost_root:
  assumes "wf_site s"
  shows "previewHost (page s None) = map_option (\<lambda>n. (n, site_apex s)) (site_preview s)"
proof -
  obtain a b where ab: "site_apex s = a @ ''.'' @ b" "labels (site_apex s) = [a, b]" "good_label a"
    using assms by (rule site_labels)
  with page_labels(2) [OF assms ab(3)] assms show ?thesis
    by (cases "site_preview s") (auto simp: previewHost_def good_label_def wf_site_def bareRoot_def)
qed

lemma well_known_url:
  assumes "wf_site s"
  shows "buildWellKnownUrl \<lparr>bu_protocol = ''https:'', bu_host = page s None\<rparr> label =
    ''https:'' @ ''//'' @ page s (Some (toLowerCase label)) @ CHR ''/'' # ''.well-known/nido.json''"
  using previewHost_root [OF assms] by (simp add: buildWellKnownUrl_def page_def split: option.split)

text \<open>What the service is asked, on any label without a slash that makes a page.\<close>

lemma served_record:
  assumes "wf_site s" "good_label (toLowerCase label)" "CHR ''/'' \<notin> set (toLowerCase label)"
  shows "fetchRecord (serviceFetch registry network)
      (buildWellKnownUrl \<lparr>bu_protocol = ''https:'', bu_host = page s None\<rparr> label) =
    (case (if CONTRACT_ID_RE (toUpperCase label) then reverseLookup registry network (toUpperCase label)
           else if NAME_RE (toLowerCase label) \<and> \<not> reserved_label (toLowerCase label)
           then forwardResolve registry network (toLowerCase label)
           else (404, ResolveError ''not a Nido account'', MISS_CACHE)) of
       (status, body, _) \<Rightarrow> if 200 \<le> status \<and> status < 300 then resolve_json body else None)"
proof -
  let ?page = "page s (Some (toLowerCase label))"
  have "handleResolve registry network \<lparr>http_method = ''GET'', hostname = ?page,
      pathname = CHR ''/'' # ''.well-known/nido.json'', query = [], request_body = []\<rparr> =
    (if CONTRACT_ID_RE (toUpperCase label) then reverseLookup registry network (toUpperCase label)
     else if NAME_RE (toLowerCase label) \<and> \<not> reserved_label (toLowerCase label)
     then forwardResolve registry network (toLowerCase label)
     else (404, ResolveError ''not a Nido account'', MISS_CACHE))"
    using page_first [OF assms(1,2)] by (simp add: handleResolve_def Let_def stripPreview_raw bareRoot_None)
  with url_parts [OF page_label_no_slash [OF assms(1,3)], of "''.well-known/nido.json''"] show ?thesis
    by (simp add: fetchRecord_def serviceFetch_def well_known_url [OF assms(1)] split: prod.split)
qed

lemma no_slash:
  "VALID_NAME_RE n \<Longrightarrow> CHR ''/'' \<notin> set n" "CONTRACT_ID_RE i \<Longrightarrow> list_all is_alnum i \<and> isContractId i"
  by (cases n; auto simp: VALID_NAME_RE_def list_all_iff is_lower_def is_digit_def)
     (cases i; auto simp: CONTRACT_ID_RE_def isContractId_def list_all_iff is_base32_def is_alnum_def is_alpha_def
        is_digit_def is_lower_def is_upper_def)

text \<open>
  C22. The dApp and the service agree: on any deployment, a valid name resolves to the address the
  registry gives, and an address to its name; a failure, a missing entry and the name
  \<open>constructor\<close>, which the service takes for a reserved label, all come back as not found.
\<close>

theorem dapp_reads_registry:
  assumes "wf_site s" "u = \<lparr>bu_protocol = ''https:'', bu_host = page s None\<rparr>"
  shows "(VALID_NAME_RE n \<longrightarrow> resolveNidoName (serviceFetch registry network) n u =
      (if n = ''constructor'' then None else case reg_resolve registry n of
         Inr (Some (c # cs)) \<Rightarrow> Some (JStr (c # cs)) | _ \<Rightarrow> None)) \<and>
    (CONTRACT_ID_RE i \<longrightarrow> lookupNidoName (serviceFetch registry network) i u =
      (case reg_lookup registry i of Inr (Some m) \<Rightarrow> Some (JStr m) | _ \<Rightarrow> None))"
proof (intro conjI impI)
  assume n: "VALID_NAME_RE n"
  note v = valid_name [OF n]
  have "\<not> CONTRACT_ID_RE (toUpperCase n)" using v(4) by (auto simp: CONTRACT_ID_RE_def)
  moreover have "reserved_label n \<longleftrightarrow> n = ''constructor''" using reserved_valid [OF n] by (simp add: reserved_label_iff)
  ultimately have "fetchRecord (serviceFetch registry network) (buildWellKnownUrl u n) =
    (case (if n = ''constructor'' then (404, ResolveError ''not a Nido account'', MISS_CACHE)
           else forwardResolve registry network n) of
       (status, body, _) \<Rightarrow> if 200 \<le> status \<and> status < 300 then resolve_json body else None)"
    using served_record [OF assms(1), of n registry network] v no_slash(1) [OF n] n
    unfolding assms(2) by (simp add: NAME_RE_VALID)
  then show "resolveNidoName (serviceFetch registry network) n u =
      (if n = ''constructor'' then None else case reg_resolve registry n of
         Inr (Some (c # cs)) \<Rightarrow> Some (JStr (c # cs)) | _ \<Rightarrow> None)"
    by (auto simp: resolveNidoName_def forwardResolve_def resolve_json_def ofield_def coalesce_def nullish_def nonempty_def
        split: sum.split option.split list.split)
next
  assume i: "CONTRACT_ID_RE i"
  note alnum = no_slash(2) [OF i]
  have up: "toUpperCase i = i"
    using i by (cases i) (auto simp: CONTRACT_ID_RE_def toUpperCase_def list_all_iff is_base32_def is_lower_def
        is_digit_def is_upper_def intro!: map_idI upper_fixed)
  have "CHR ''/'' \<notin> set (toLowerCase i)"
  proof
    assume "CHR ''/'' \<in> set (toLowerCase i)"
    then obtain c where "c \<in> set i" "lower c = CHR ''/''" by (auto simp: toLowerCase_def)
    moreover have "is_alnum (lower c)" using calculation(1) alnum by (simp add: list_all_iff)
    ultimately show False by (simp add: is_alnum_def is_alpha_def is_digit_def is_lower_def is_upper_def)
  qed
  with served_record [OF assms(1), of i registry network] contract_label(1) [of i] alnum i up
  have "fetchRecord (serviceFetch registry network) (buildWellKnownUrl u i) =
    (case reverseLookup registry network i of
       (status, body, _) \<Rightarrow> if 200 \<le> status \<and> status < 300 then resolve_json body else None)"
    unfolding assms(2) by simp
  then show "lookupNidoName (serviceFetch registry network) i u =
      (case reg_lookup registry i of Inr (Some m) \<Rightarrow> Some (JStr m) | _ \<Rightarrow> None)"
    by (auto simp: lookupNidoName_def reverseLookup_def resolve_json_def ofield_def coalesce_def nullish_def
        split: sum.split option.split)
qed

text \<open>The client does not check the name it is given: one with a slash is asked of another host.\<close>

lemma label_not_checked:
  "urlHost (buildWellKnownUrl \<lparr>bu_protocol = ''https:'', bu_host = ''nido.fyi''\<rparr> ''evil.com/x'') = ''evil.com''"
  by code_simp

definition sample_registry :: resolver_registry where
  "sample_registry = \<lparr>reg_resolve = \<lambda>n. Inr (if n = ''alice'' then Some sample_id else None), reg_lookup = \<lambda>_. Inr (Some ''alice'')\<rparr>"

theorem dapp_reads_registry_witness:
  "resolveNidoName (serviceFetch sample_registry ''testnet'') ''alice''
      \<lparr>bu_protocol = ''https:'', bu_host = ''24.nido.fyi''\<rparr> = Some (JStr sample_id)"
proof -
  have "page sample_site None = ''24.nido.fyi''" "VALID_NAME_RE ''alice''" by code_simp+
  with dapp_reads_registry [OF sample_site(1) refl, of "''alice''" sample_registry "''testnet''" sample_id]
  show ?thesis by (simp add: sample_registry_def sample_id_def)
qed

end
