(* ===== verification/StatusPage.thy ===== *)
theory StatusPage
  imports Sessions
begin

text \<open>
  The page of the example dApp (\<open>components/StatusMessage.tsx\<close>): reading the status of an author,
  tipping that author with a session key, and saving one's own status. A handler runs on the
  state of the last rendering; a request it sends is answered by a later event, in any order. The
  contract's client, the resolver and the signing of \<open>Sessions\<close> answer through these events.
  What is drawn is left out, except for the conditions under which a button can be pressed.
\<close>

section \<open>Errors shown\<close>

definition explorerTxUrl :: "string \<Rightarrow> string \<Rightarrow> string" where
  "explorerTxUrl stellarNetwork hash =
     ''https://stellar.expert/explorer/'' @ (if stellarNetwork = ''PUBLIC'' then ''public'' else ''testnet'') @ ''/tx/'' @ hash"

text \<open>The details of an error; lengths are those of the text's bytes.\<close>

definition compactDetails :: "json option \<Rightarrow> string option" where
  "compactDetails details =
     (let s = (case details of
          Some (JStr t) \<Rightarrow> t
        | None \<Rightarrow> []
        | Some JNull \<Rightarrow> []
        | Some j \<Rightarrow> stringify j)
      in if s = [] \<or> s = ''{}'' \<or> s = ''[]'' then None
         else Some (if length s > 200 then take 200 s @ ELLIPSIS else s))"

text \<open>The code of a relayer error is a string when the relayer sends one.\<close>

definition codeText :: "json \<Rightarrow> string" where
  "codeText j = (case j of JStr s \<Rightarrow> s | JNum n \<Rightarrow> showInt n | JObj _ \<Rightarrow> ''[object Object]'' | _ \<Rightarrow> stringify j)"

definition relayerMessage :: "relayer_error \<Rightarrow> string" where
  "relayerMessage e = (case e of RelayerError m _ _ \<Rightarrow> m | NetworkError e' \<Rightarrow> error_message e')"

definition describeTipError :: "relayer_error \<Rightarrow> string" where
  "describeTipError e =
     (case e of
        NetworkError _ \<Rightarrow> relayerMessage e
      | RelayerError m c details \<Rightarrow>
          m @ (if truthy c then '' ['' @ codeText (the c) @ '']'' else []) @
          (case compactDetails details of Some d \<Rightarrow> '' '' @ EM_DASH @ '' '' @ d | None \<Rightarrow> []))"

definition isRevokedSessionKeyError :: "string \<Rightarrow> bool" where
  "isRevokedSessionKeyError message \<longleftrightarrow>
     str_includes (toLowerCase message) ''session passkey is not installed'' \<or>
     str_includes (toLowerCase message) ''delegation never committed'' \<or>
     str_includes (toLowerCase message) ''was revoked''"

section \<open>State\<close>

datatype ui_state = UiIdle | UiLoading | UiSuccess | UiFailure | UiPending

datatype key_ui = KeyMissing | KeyChecking | KeyLive

text \<open>
  The page's state, then its stores, then the requests under way and, for the record, the answers
  it has had and the tips it has sent. \<open>su_result\<close> is \<open>undefined\<close>, \<open>null\<close> or a text.
\<close>

record status_ui =
  su_address :: "string option"
  su_account :: "string option"
  su_lookupAddr :: string
  su_result :: "string option option"
  su_busy :: bool
  su_author :: "string option"
  su_lookupError :: "string option"
  su_tip :: ui_state
  su_tipError :: "string option"
  su_tipProgress :: "string option"
  su_tipHash :: "string option"
  su_tipKey :: key_ui
  su_save :: ui_state
  su_saveError :: "string option"
  su_device :: local_storage
  su_session :: local_storage
  su_checking :: "string option"
  su_enabling :: bool
  su_saving :: "string option"
  su_reads :: "string list"
  su_resolves :: "string list"
  su_tips :: "(string \<times> string) list"
  su_answers :: "(string \<times> string option) list"
  su_sent :: "(string \<times> string) list"

definition TIP_CONTEXT_KEY :: string where
  "TIP_CONTEXT_KEY = ''nido:tipContext''"

text \<open>A stored key that is not readable makes the rendering throw; it counts as none here.\<close>

definition hasLocalTipSession :: "string \<Rightarrow> status_ui \<Rightarrow> bool" where
  "hasLocalTipSession sac u =
     (case su_account u of None \<Rightarrow> False | Some a \<Rightarrow> hasSessionKey (su_device u) a sac = Inr True)"

definition tipSessionUi :: "string \<Rightarrow> status_ui \<Rightarrow> key_ui" where
  "tipSessionUi sac u =
     (if hasLocalTipSession sac u \<and> su_tipKey u = KeyMissing then KeyChecking else su_tipKey u)"

definition canTip :: "string \<Rightarrow> status_ui \<Rightarrow> bool" where
  "canTip sac u \<longleftrightarrow> tipSessionUi sac u = KeyLive"

definition tipRow :: "status_ui \<Rightarrow> bool" where
  "tipRow u \<longleftrightarrow> su_account u \<noteq> None \<and> su_author u \<noteq> None \<and> su_result u \<noteq> None \<and> su_author u \<noteq> su_account u"

text \<open>The conditions under which the three buttons of the lower card can be pressed.\<close>

definition tipEnabled :: "string \<Rightarrow> status_ui \<Rightarrow> bool" where
  "tipEnabled sac u \<longleftrightarrow> tipRow u \<and> canTip sac u \<and> su_tip u \<noteq> UiLoading \<and> su_tip u \<noteq> UiPending"

definition enableEnabled :: "string \<Rightarrow> status_ui \<Rightarrow> bool" where
  "enableEnabled sac u \<longleftrightarrow> tipRow u \<and> tipSessionUi sac u = KeyMissing \<and> su_tip u \<noteq> UiLoading"

definition readEnabled :: "status_ui \<Rightarrow> bool" where
  "readEnabled u \<longleftrightarrow> \<not> su_busy u \<and> (trim (su_lookupAddr u) \<noteq> [] \<or> orElse (su_address u) [] \<noteq> [])"

section \<open>Reading\<close>

definition readStatus :: "string \<Rightarrow> status_ui \<Rightarrow> status_ui" where
  "readStatus author u =
     u\<lparr>su_busy := True, su_tip := UiIdle, su_tipError := None, su_tipHash := None, su_reads := author # su_reads u\<rparr>"

text \<open>The client answered, with the status if there is one, or threw.\<close>

definition readSettled :: "string \<Rightarrow> string option result \<Rightarrow> status_ui \<Rightarrow> status_ui" where
  "readSettled author answer u =
     (let u' = u\<lparr>su_busy := False, su_reads := remove1 author (su_reads u)\<rparr> in
      case answer of
        Inr r \<Rightarrow> u'\<lparr>su_result := Some r, su_author := Some author, su_answers := (author, r) # su_answers u\<rparr>
      | Inl _ \<Rightarrow> u'\<lparr>su_result := Some None, su_author := None\<rparr>)"

definition strkeyInput :: "string \<Rightarrow> bool" where
  "strkeyInput s \<longleftrightarrow> (case s of [] \<Rightarrow> False
     | c # cs \<Rightarrow> (c = CHR ''G'' \<or> c = CHR ''C'') \<and> length cs = 55 \<and> list_all is_base32 cs)"

definition lookupInput :: "status_ui \<Rightarrow> string" where
  "lookupInput u =
     trim (if trim (su_lookupAddr u) \<noteq> [] then trim (su_lookupAddr u) else orElse (su_address u) [])"

definition lookupStatus :: "status_ui \<Rightarrow> status_ui" where
  "lookupStatus u =
     (let raw = lookupInput u in
      if raw = [] then u
      else if strkeyInput raw then readStatus raw (u\<lparr>su_lookupError := None\<rparr>)
      else u\<lparr>su_lookupError := None, su_busy := True, su_resolves := raw # su_resolves u\<rparr>)"

definition nameSettled :: "string \<Rightarrow> string option \<Rightarrow> status_ui \<Rightarrow> status_ui" where
  "nameSettled raw answer u =
     (let u' = u\<lparr>su_busy := False, su_resolves := remove1 raw (su_resolves u)\<rparr> in
      case orElse answer [] of
        [] \<Rightarrow> u'\<lparr>su_result := None, su_author := None, su_lookupError := Some (''No Nido account named '' @
            [CHR 0xE2, CHR 0x80, CHR 0x9C] @ raw @ [CHR 0xE2, CHR 0x80, CHR 0x9D] @ ''.'')\<rparr>
      | a # as \<Rightarrow> readStatus (a # as) (u'\<lparr>su_lookupAddr := a # as\<rparr>))"

section \<open>Connecting and the tipping key\<close>

text \<open>\<open>isNido\<close> says whether the connected wallet is Nido's.\<close>

definition nidoAccount :: "bool \<Rightarrow> string option \<Rightarrow> string option" where
  "nidoAccount isNido address =
     (case address of Some a \<Rightarrow> if isNido \<and> isContractId a then Some a else None | None \<Rightarrow> None)"

text \<open>The effect of the hook runs when the account changes, and cancels the check of the one before.\<close>

definition sessionKeyEffect :: "string \<Rightarrow> status_ui \<Rightarrow> status_ui" where
  "sessionKeyEffect sac u =
     (if hasLocalTipSession sac u then u\<lparr>su_tipKey := KeyChecking, su_checking := su_account u\<rparr>
      else u\<lparr>su_tipKey := KeyMissing, su_checking := None\<rparr>)"

definition keyChecked :: "key_status result \<Rightarrow> status_ui \<Rightarrow> status_ui" where
  "keyChecked status u =
     u\<lparr>su_checking := None, su_tipKey := (case status of
         Inr StatusLive \<Rightarrow> KeyLive | Inr _ \<Rightarrow> KeyMissing | Inl _ \<Rightarrow> KeyLive)\<rparr>"

definition connected :: "string \<Rightarrow> bool \<Rightarrow> string option \<Rightarrow> status_ui \<Rightarrow> status_ui" where
  "connected sac isNido address u =
     (let fill = (if address \<noteq> su_address u \<and> orElse address [] \<noteq> [] \<and> su_lookupAddr u = []
            then orElse address [] else su_lookupAddr u);
          u' = u\<lparr>su_address := address, su_account := nidoAccount isNido address, su_lookupAddr := fill\<rparr>
      in if su_account u' = su_account u then u' else sessionKeyEffect sac u')"

text \<open>
  The delegation of the key leaves the page: \<open>Inr\<close> of \<open>startDelegation\<close> is the redirect, after
  which this page is gone, and the author's name waits in the session's store.
\<close>

definition enableTipping :: "status_ui \<Rightarrow> status_ui" where
  "enableTipping u =
     (case su_account u of
        None \<Rightarrow> u
      | Some _ \<Rightarrow> u\<lparr>su_tipError := None, su_tip := UiLoading, su_enabling := True, su_session := (case orElse (su_author u) [] of
            [] \<Rightarrow> su_session u
          | a # as \<Rightarrow> setItem TIP_CONTEXT_KEY (stringify (JObj [(''author'', JStr (a # as))])) (su_session u))\<rparr>)"

definition enableFailed :: "js_error \<Rightarrow> status_ui \<Rightarrow> status_ui" where
  "enableFailed e u =
     u\<lparr>su_enabling := False, su_session := removeItem TIP_CONTEXT_KEY (su_session u), su_tip := UiFailure, su_tipError := Some (error_message e)\<rparr>"

text \<open>The new page after the round trip: the stored author is read again if a key was installed.\<close>

definition contextAuthor :: "local_storage \<Rightarrow> string option" where
  "contextAuthor s =
     (case s TIP_CONTEXT_KEY of
        Some (c # cs) \<Rightarrow> (case parse_json (c # cs) of
            Inl _ \<Rightarrow> None | Inr j \<Rightarrow> Option.bind (as_string (field ''author'' j)) nonempty)
      | _ \<Rightarrow> None)"

definition delegationReturned :: "string option \<Rightarrow> status_ui \<Rightarrow> status_ui" where
  "delegationReturned status u =
     (case status of
        None \<Rightarrow> u
      | Some st \<Rightarrow>
          let u' = u\<lparr>su_session := removeItem TIP_CONTEXT_KEY (su_session u)\<rparr> in
          (case if st = ''ok'' then contextAuthor (su_session u) else None of
             None \<Rightarrow> u'
           | Some author \<Rightarrow> readStatus author (u'\<lparr>su_lookupAddr := author\<rparr>)))"

section \<open>Tipping\<close>

definition tipPressed :: "status_ui \<Rightarrow> status_ui" where
  "tipPressed u =
     (case (su_account u, su_author u) of
        (Some account, Some author) \<Rightarrow>
          u\<lparr>su_tip := UiLoading, su_tipError := None, su_tipHash := None,
            su_tips := (account, author) # su_tips u, su_sent := (account, author) # su_sent u\<rparr>
      | _ \<Rightarrow> u)"

definition waitTimeout :: "relayer_error \<Rightarrow> bool" where
  "waitTimeout e \<longleftrightarrow> (case e of RelayerError _ c _ \<Rightarrow> c = Some (JStr ''WAIT_TIMEOUT'') | NetworkError _ \<Rightarrow> False)"

definition errorHash :: "relayer_error \<Rightarrow> string option" where
  "errorHash e =
     (case e of RelayerError _ _ details \<Rightarrow> Option.bind (as_string (ofield ''hash'' details)) nonempty | NetworkError _ \<Rightarrow> None)"

definition tipSettled :: "string \<times> string \<Rightarrow> relayer_error + string \<Rightarrow> status_ui \<Rightarrow> status_ui" where
  "tipSettled t answer u =
     (let u' = u\<lparr>su_tipProgress := None, su_tips := remove1 t (su_tips u)\<rparr> in
      case answer of
        Inr hash \<Rightarrow> u'\<lparr>su_tipHash := Some hash, su_tip := UiSuccess\<rparr>
      | Inl e \<Rightarrow>
          if waitTimeout e
          then u'\<lparr>su_tipHash := (case errorHash e of Some h \<Rightarrow> Some h | None \<Rightarrow> su_tipHash u),
                  su_tipError := None, su_tip := UiPending\<rparr>
          else u'\<lparr>su_tipKey := (if isRevokedSessionKeyError (describeTipError e) then KeyMissing else su_tipKey u),
                  su_tip := UiFailure, su_tipError := Some (''Tip rejected: '' @ describeTipError e)\<rparr>)"

section \<open>Saving\<close>

text \<open>A classic wallet signs and broadcasts, or reports that the transaction was submitted already, or throws.\<close>

datatype broadcast = Broadcast | SubmittedByWallet | BroadcastThrew js_error

definition classicSave :: "broadcast \<Rightarrow> relayer_error + unit" where
  "classicSave b =
     (case b of BroadcastThrew e \<Rightarrow> Inl (NetworkError e) | _ \<Rightarrow> Inr ())"

definition savePressed :: "status_ui \<Rightarrow> status_ui" where
  "savePressed u =
     (if orElse (su_address u) [] = []
      then u\<lparr>su_save := UiFailure, su_saveError := Some ''Connect a wallet first.''\<rparr>
      else u\<lparr>su_save := UiLoading, su_saveError := None, su_saving := su_address u\<rparr>)"

text \<open>\<open>address\<close> is the one the save was pressed for.\<close>

definition saveSettled :: "string \<Rightarrow> relayer_error + unit \<Rightarrow> status_ui \<Rightarrow> status_ui" where
  "saveSettled address answer u =
     (case answer of
        Inr _ \<Rightarrow> readStatus address (u\<lparr>su_saving := None, su_save := UiSuccess, su_lookupAddr := address\<rparr>)
      | Inl e \<Rightarrow> u\<lparr>su_saving := None, su_save := UiFailure, su_saveError := Some (relayerMessage e)\<rparr>)"

section \<open>Events\<close>

datatype status_event =
    Connected bool "string option"
  | KeyChecked local_storage "key_status result"
  | Typed string
  | ReadPressed
  | NameSettled string "string option"
  | ReadSettled string "string option result"
  | TipPressed
  | TipProgress string
  | TipSettled "string \<times> string" local_storage "relayer_error + string"
  | EnablePressed
  | EnableFailed js_error
  | SavePressed
  | SaveSettled string "relayer_error + unit"

text \<open>A button that cannot be pressed and an answer to no request are no events.\<close>

fun statusStep :: "string \<Rightarrow> status_ui \<Rightarrow> status_event \<Rightarrow> status_ui" where
  "statusStep sac u (Connected isNido address) = connected sac isNido address u"
| "statusStep sac u (KeyChecked device status) =
     (if su_checking u \<noteq> None then keyChecked status (u\<lparr>su_device := device\<rparr>) else u)"
| "statusStep sac u (Typed t) = u\<lparr>su_lookupAddr := t, su_lookupError := None\<rparr>"
| "statusStep sac u ReadPressed = (if readEnabled u then lookupStatus u else u)"
| "statusStep sac u (NameSettled raw answer) =
     (if raw \<in> set (su_resolves u) then nameSettled raw answer u else u)"
| "statusStep sac u (ReadSettled author answer) =
     (if author \<in> set (su_reads u) then readSettled author answer u else u)"
| "statusStep sac u TipPressed = (if tipEnabled sac u then tipPressed u else u)"
| "statusStep sac u (TipProgress t) = (if su_tips u = [] then u else u\<lparr>su_tipProgress := Some t\<rparr>)"
| "statusStep sac u (TipSettled t device answer) =
     (if t \<in> set (su_tips u) then tipSettled t answer (u\<lparr>su_device := device\<rparr>) else u)"
| "statusStep sac u EnablePressed = (if enableEnabled sac u then enableTipping u else u)"
| "statusStep sac u (EnableFailed e) = (if su_enabling u then enableFailed e u else u)"
| "statusStep sac u SavePressed = (if orElse (su_address u) [] \<noteq> [] \<and> su_save u \<noteq> UiLoading then savePressed u else u)"
| "statusStep sac u (SaveSettled address answer) = (if su_saving u = Some address then saveSettled address answer u else u)"

definition freshPage :: "local_storage \<Rightarrow> local_storage \<Rightarrow> status_ui" where
  "freshPage device session =
     \<lparr>su_address = None, su_account = None, su_lookupAddr = [], su_result = None, su_busy = False, su_author = None,
      su_lookupError = None, su_tip = UiIdle, su_tipError = None, su_tipProgress = None, su_tipHash = None,
      su_tipKey = KeyMissing, su_save = UiIdle, su_saveError = None, su_device = device, su_session = session,
      su_checking = None, su_enabling = False, su_saving = None, su_reads = [], su_resolves = [], su_tips = [], su_answers = [], su_sent = []\<rparr>"

abbreviation statusRun :: "string \<Rightarrow> status_ui \<Rightarrow> status_event list \<Rightarrow> status_ui" where
  "statusRun sac \<equiv> foldl (statusStep sac)"

section \<open>What is shown and who is tipped\<close>

lemmas status_defs = readStatus_def readSettled_def lookupStatus_def nameSettled_def sessionKeyEffect_def keyChecked_def
  connected_def enableTipping_def enableFailed_def tipPressed_def tipSettled_def savePressed_def saveSettled_def

text \<open>
  The author shown has been answered for with the result shown, the account is a contract, and
  every tip went from a contract to another address that was shown.
\<close>

definition status_ok :: "status_ui \<Rightarrow> bool" where
  "status_ok u \<longleftrightarrow>
     (\<forall>a. su_author u = Some a \<longrightarrow> (\<exists>r. su_result u = Some r \<and> (a, r) \<in> set (su_answers u))) \<and>
     (\<forall>a. su_account u = Some a \<longrightarrow> isContractId a) \<and>
     (\<forall>(account, author) \<in> set (su_sent u). isContractId account \<and> author \<noteq> account \<and>
        (\<exists>r. (author, r) \<in> set (su_answers u)))"

lemma nidoAccount_contract: "nidoAccount isNido address = Some a \<Longrightarrow> isContractId a"
  by (auto simp: nidoAccount_def split: option.splits if_splits)

text \<open>Most handlers leave these parts of the state alone.\<close>

lemma readStatus_keeps [simp]:
  "su_author (readStatus a u) = su_author u" "su_result (readStatus a u) = su_result u"
  "su_answers (readStatus a u) = su_answers u" "su_account (readStatus a u) = su_account u"
  "su_sent (readStatus a u) = su_sent u" "su_tips (readStatus a u) = su_tips u"
  "su_reads (readStatus a u) = a # su_reads u" "su_tip (readStatus a u) = UiIdle"
  by (simp_all add: readStatus_def)

lemma status_ok_same:
  assumes "status_ok u" "su_author u' = su_author u" "su_result u' = su_result u" "su_answers u' = su_answers u"
    "su_account u' = su_account u" "su_sent u' = su_sent u"
  shows "status_ok u'"
  using assms by (simp add: status_ok_def)

lemma status_ok_step:
  assumes "status_ok u"
  shows "status_ok (statusStep sac u e)"
proof (cases e)
  case (Connected isNido address)
  then show ?thesis
    using assms nidoAccount_contract by (auto simp: status_ok_def connected_def sessionKeyEffect_def Let_def)
next
  case ReadPressed
  then show ?thesis using assms by (auto simp: lookupStatus_def Let_def intro: status_ok_same)
next
  case (NameSettled raw answer)
  then show ?thesis
    using assms by (auto simp: status_ok_def nameSettled_def Let_def split: list.split)
next
  case (ReadSettled author answer)
  then show ?thesis
    using assms by (fastforce simp: status_ok_def readSettled_def Let_def split: sum.split)
next
  case TipPressed
  then show ?thesis
    using assms by (auto simp: status_ok_def tipPressed_def tipEnabled_def tipRow_def split: option.split)
next
  case (TipSettled t device answer)
  then show ?thesis
    using assms by (auto simp: tipSettled_def Let_def split: sum.split intro: status_ok_same)
next
  case (SaveSettled address answer)
  then show ?thesis
    using assms by (auto simp: saveSettled_def split: sum.split intro: status_ok_same)
qed (use assms in \<open>auto simp: status_defs split: option.split intro: status_ok_same\<close>)

interpretation status: preserved "statusStep sac" status_ok for sac
  by unfold_locales (rule status_ok_step)

text \<open>What undoes the mark of a running tip: a read that starts, or a failed delegation.\<close>

definition disturbs :: "string \<Rightarrow> status_ui \<Rightarrow> status_event \<Rightarrow> bool" where
  "disturbs sac u e \<longleftrightarrow> (\<exists>err. e = EnableFailed err) \<or> length (su_reads (statusStep sac u e)) > length (su_reads u)"

fun calm :: "string \<Rightarrow> status_ui \<Rightarrow> status_event list \<Rightarrow> bool" where
  "calm sac u [] = True"
| "calm sac u (e # es) = ((su_tips u = [] \<or> \<not> disturbs sac u e) \<and> calm sac (statusStep sac u e) es)"

definition one_tip :: "status_ui \<Rightarrow> bool" where
  "one_tip u \<longleftrightarrow> length (su_tips u) \<le> 1 \<and> (su_tips u \<noteq> [] \<longrightarrow> su_tip u = UiLoading)"

lemma one_tip_step:
  assumes "one_tip u" "su_tips u = [] \<or> \<not> disturbs sac u e"
  shows "one_tip (statusStep sac u e)"
proof (cases e)
  case (Connected isNido address)
  then show ?thesis using assms(1) by (auto simp: one_tip_def connected_def sessionKeyEffect_def Let_def)
next
  case ReadPressed
  then show ?thesis
    using assms by (auto simp: one_tip_def disturbs_def lookupStatus_def Let_def split: if_splits)
next
  case (NameSettled raw answer)
  then show ?thesis
    using assms by (cases "orElse answer []") (auto simp: one_tip_def disturbs_def nameSettled_def Let_def split: if_splits)
next
  case (ReadSettled author answer)
  then show ?thesis
    using assms(1) by (auto simp: one_tip_def readSettled_def Let_def split: sum.split)
next
  case TipPressed
  then show ?thesis
    using assms(1) by (auto simp: one_tip_def tipPressed_def tipEnabled_def split: option.split)
next
  case (TipSettled t device answer)
  then show ?thesis
    using assms(1) by (cases "su_tips u" rule: list.exhaust)
      (auto simp: one_tip_def tipSettled_def Let_def split: sum.split)
next
  case EnablePressed
  then show ?thesis
    using assms(1) by (auto simp: one_tip_def enableTipping_def enableEnabled_def split: option.split)
next
  case (EnableFailed err)
  then show ?thesis using assms by (auto simp: one_tip_def disturbs_def enableFailed_def)
next
  case (SaveSettled address answer)
  then show ?thesis
    using assms by (cases answer) (auto simp: one_tip_def disturbs_def saveSettled_def split: if_splits)
qed (use assms(1) in \<open>auto simp: one_tip_def status_defs\<close>)

lemma one_tip_run: "one_tip u \<Longrightarrow> calm sac u es \<Longrightarrow> one_tip (statusRun sac u es)"
  by (induction es arbitrary: u) (auto simp: one_tip_step)

text \<open>The name kept over the round trip is the author's, and it is used once.\<close>

lemma tip_context_restored:
  assumes "enableEnabled sac u" "su_author u = Some (c # cs)"
  shows "delegationReturned (Some ''ok'') (freshPage device (su_session (enableTipping u))) =
      readStatus (c # cs) (freshPage device (removeItem TIP_CONTEXT_KEY (su_session (enableTipping u)))\<lparr>su_lookupAddr := c # cs\<rparr>)"
    and "status \<noteq> ''ok'' \<Longrightarrow> delegationReturned (Some status) (freshPage device (su_session (enableTipping u))) =
      freshPage device (removeItem TIP_CONTEXT_KEY (su_session (enableTipping u)))"
proof -
  obtain a where "su_account u = Some a" using assms(1) by (auto simp: enableEnabled_def tipRow_def)
  moreover have "parse_json (stringify (JObj [(''author'', JStr (c # cs))])) = Inr (JObj [(''author'', JStr (c # cs))])"
    by (rule json_round_trip) simp
  ultimately have "contextAuthor (su_session (enableTipping u)) = Some (c # cs)"
    using assms(2) by (cases "stringify (JObj [(''author'', JStr (c # cs))])")
      (auto simp: contextAuthor_def enableTipping_def setItem_def nonempty_def)
  then show "delegationReturned (Some ''ok'') (freshPage device (su_session (enableTipping u))) =
      readStatus (c # cs) (freshPage device (removeItem TIP_CONTEXT_KEY (su_session (enableTipping u)))\<lparr>su_lookupAddr := c # cs\<rparr>)"
    by (simp add: delegationReturned_def freshPage_def)
  show "status \<noteq> ''ok'' \<Longrightarrow> delegationReturned (Some status) (freshPage device (su_session (enableTipping u))) =
      freshPage device (removeItem TIP_CONTEXT_KEY (su_session (enableTipping u)))"
    by (simp add: delegationReturned_def freshPage_def)
qed

text \<open>
  A tip refused because its rule is gone offers the delegation again; one refused because the key
  itself is gone does not, although its message asks for that.
\<close>

lemma refused_tip:
  "isRevokedSessionKeyError (describeTipError (NetworkError (Error (se_ruleMissing tip_errors))))"
  "\<not> isRevokedSessionKeyError (describeTipError (NetworkError (Error (se_noMaterial tip_errors))))"
  by code_simp+

text \<open>A sample page: an account with its key, a friend whose status is read and tipped.\<close>

definition tip_device :: local_storage where
  "tip_device = saveSessionKeyMaterial sample_id ''CX''
     \<lparr>sm_credentialId = None, sm_publicKey = None, sm_label = None, sm_privateKey = None\<rparr> Map.empty"

definition friend_id :: string where
  "friend_id = CHR ''G'' # replicate 55 CHR ''B''"

definition tip_events :: "status_event list" where
  "tip_events = [Connected True (Some sample_id), KeyChecked tip_device (Inr StatusLive), Typed friend_id,
     ReadPressed, ReadSettled friend_id (Inr (Some ''gm'')), TipPressed]"

definition tip_page :: status_ui where
  "tip_page = statusRun ''CX'' (freshPage tip_device Map.empty) tip_events"

lemma device_has_key: "hasSessionKey tip_device sample_id ''CX'' = Inr True"
  by code_simp

lemma friend_input:
  "strkeyInput friend_id" "trim friend_id = friend_id" "friend_id \<noteq> sample_id" "friend_id \<noteq> []" "sample_id \<noteq> []"
  by code_simp+

lemmas tip_run = tip_events_def freshPage_def status_defs device_has_key friend_input sample_id(1) hasLocalTipSession_def
  nidoAccount_def readEnabled_def lookupInput_def tipEnabled_def tipRow_def canTip_def tipSessionUi_def Let_def

lemma tip_page_sent: "su_tips tip_page = [(sample_id, friend_id)]" "su_sent tip_page = [(sample_id, friend_id)]"
  "calm ''CX'' (freshPage tip_device Map.empty) tip_events" "su_author tip_page = Some friend_id"
  by (simp_all add: tip_page_def tip_run)

text \<open>Reading again while a tip is under way lets a second one be sent, and so does it after a timeout.\<close>

lemma two_tips_in_flight:
  "su_tips (statusRun ''CX'' tip_page [ReadPressed, ReadSettled friend_id (Inr (Some ''gm'')), TipPressed]) =
     [(sample_id, friend_id), (sample_id, friend_id)]"
  by (simp add: tip_page_def tip_run)

lemma pending_tip_forgotten:
  "let timeout = TipSettled (sample_id, friend_id) tip_device (Inl (RelayerError [] (Some (JStr ''WAIT_TIMEOUT'')) None));
       u = statusStep ''CX'' tip_page timeout
   in su_tip u = UiPending \<and> \<not> tipEnabled ''CX'' u \<and>
      tipEnabled ''CX'' (statusRun ''CX'' u [ReadPressed, ReadSettled friend_id (Inr (Some ''gm''))])"
  by (simp add: tip_page_def tip_run waitTimeout_def errorHash_def ofield_def)

section \<open>Properties\<close>

text \<open>
  In every run of the page, from a fresh load or from a return of the delegation: the author shown
  is the one whose answer is shown, and every tip was sent from a contract account to another
  address that had been read.
\<close>

theorem tips_reach_shown_author:
  "let u = statusRun sac (delegationReturned status (freshPage device session)) es
   in (\<forall>a. su_author u = Some a \<longrightarrow> (\<exists>r. su_result u = Some r \<and> (a, r) \<in> set (su_answers u))) \<and>
     (\<forall>account author. (account, author) \<in> set (su_sent u) \<longrightarrow> isContractId account \<and> author \<noteq> account \<and>
        (\<exists>r. (author, r) \<in> set (su_answers u)))"
proof -
  have "status_ok (delegationReturned status (freshPage device session))"
    by (auto simp: status_ok_def delegationReturned_def freshPage_def Let_def split: option.split)
  from status.run_inv [OF this, of sac es] show ?thesis
    unfolding Let_def status_ok_def by blast
qed

theorem tips_reach_shown_author_witness:
  "(sample_id, friend_id) \<in> set (su_sent tip_page) \<and> isContractId sample_id \<and> friend_id \<noteq> sample_id \<and>
   (\<exists>r. su_result tip_page = Some r \<and> (friend_id, r) \<in> set (su_answers tip_page))"
proof -
  have "delegationReturned None (freshPage tip_device Map.empty) = freshPage tip_device Map.empty"
    by (simp add: delegationReturned_def)
  with tips_reach_shown_author [of "''CX''" None tip_device Map.empty tip_events] tip_page_sent
  show ?thesis unfolding tip_page_def Let_def by auto
qed

text \<open>
  C21. As long as no read starts and no delegation fails while a tip is under way, at most one tip is
  under way, and while it is neither button of the tip's row can be pressed. The condition is
  needed, as \<open>two_tips_in_flight\<close> shows.
\<close>

theorem one_tip_in_flight:
  assumes "calm sac (freshPage device session) es" "u = statusRun sac (freshPage device session) es"
  shows "length (su_tips u) \<le> 1 \<and> (su_tips u \<noteq> [] \<longrightarrow> su_tip u = UiLoading \<and> \<not> tipEnabled sac u \<and> \<not> enableEnabled sac u)"
proof -
  have "one_tip (freshPage device session)" by (simp add: one_tip_def freshPage_def)
  from one_tip_run [OF this assms(1)] show ?thesis
    by (auto simp: assms(2) one_tip_def tipEnabled_def enableEnabled_def)
qed

theorem one_tip_in_flight_witness:
  "su_tips tip_page = [(sample_id, friend_id)] \<and> \<not> tipEnabled ''CX'' tip_page"
  using one_tip_in_flight [OF tip_page_sent(3) tip_page_def] tip_page_sent(1) by simp

end
