(* ===== verification/InstallParams.thy ===== *)
theory InstallParams
  imports Policies Review
begin

text \<open>
  The parameters with which a policy is installed: \<open>thresholdInstallParam\<close> of
  \<open>policyBlocks/multisigRotation.ts\<close> and \<open>spendingLimitParamsScVal\<close> of
  \<open>lib/spendingLimitParams.ts\<close>. The specification that the generated bindings carry is a
  parameter. For the theorems it is that of a contract whose \<open>install\<close> takes a structure of
  integers, which the library encodes as a map in the order of the specification's fields, each
  in the range of its type.
\<close>

section \<open>Through the specification of the bindings\<close>

text \<open>The inputs of a function of the contract, with their types, and the conversion of an object to a type.\<close>

record ('t, 'v) contract_spec =
  spec_inputs :: "string \<Rightarrow> (string \<times> 't) list result"
  spec_toScVal :: "(string \<times> int) list \<Rightarrow> 't \<Rightarrow> 'v result"

definition installType :: "('t, 'v) contract_spec \<Rightarrow> string \<Rightarrow> 't result" where
  "installType spec missing =
     bindR (spec_inputs spec ''install'') (\<lambda>inputs.
       (case find (\<lambda>i. fst i = ''install_params'') inputs of
          None \<Rightarrow> Inl (Error missing) | Some i \<Rightarrow> Inr (snd i)))"

definition thresholdInstallParam :: "('t, 'v) contract_spec \<Rightarrow> int \<Rightarrow> 'v result" where
  "thresholdInstallParam spec threshold =
     bindR (installType spec ''multisig-policy spec has no install(install_params, ) input'') (\<lambda>t.
       spec_toScVal spec [(''threshold'', threshold)] t)"

definition spendingLimitParamsScVal :: "('t, 'v) contract_spec \<Rightarrow> int \<Rightarrow> int \<Rightarrow> 'v result" where
  "spendingLimitParamsScVal spec stroops periodLedgers =
     bindR (installType spec ''spending-limit-policy spec has no install(install_params, ) input'') (\<lambda>t.
       spec_toScVal spec [(''period_ledgers'', periodLedgers), (''spending_limit'', stroops)] t)"

section \<open>Structures of integers\<close>

datatype int_type = U32 | I128

definition in_type :: "int_type \<Rightarrow> int \<Rightarrow> bool" where
  "in_type t n \<longleftrightarrow> (case t of U32 \<Rightarrow> 0 \<le> n \<and> n < 2 ^ 32 | I128 \<Rightarrow> - (2 ^ 127) \<le> n \<and> n < 2 ^ 127)"

definition encodeField :: "(string \<times> int) list \<Rightarrow> string \<times> int_type \<Rightarrow> (string \<times> int) result" where
  "encodeField obj f =
     (case map_of obj (fst f) of
        None \<Rightarrow> Inl (TypeError ''missing field'')
      | Some n \<Rightarrow> if in_type (snd f) n then Inr (fst f, n) else Inl (TypeError ''out of range''))"

text \<open>A contract whose \<open>install\<close> takes a structure with these fields, among its other inputs.\<close>

definition struct_spec :: "(string \<times> int_type) list \<Rightarrow> ((string \<times> int_type) list, (string \<times> int) list) contract_spec" where
  "struct_spec flds = \<lparr>spec_inputs = \<lambda>fn. if fn = ''install''
       then Inr [(''install_params'', flds), (''context_rule'', []), (''smart_account'', [])]
       else Inl (Error ''no such function''),
     spec_toScVal = \<lambda>obj fs. mapR (encodeField obj) fs\<rparr>"

text \<open>The fields of the two policies' structures, in the order of their names.\<close>

definition threshold_fields :: "(string \<times> int_type) list" where
  "threshold_fields = [(''threshold'', U32)]"

definition limit_fields :: "(string \<times> int_type) list" where
  "limit_fields = [(''period_ledgers'', U32), (''spending_limit'', I128)]"

section \<open>Facts\<close>

lemma limit_encoded:
  "spendingLimitParamsScVal (struct_spec limit_fields) stroops period =
     (if in_type U32 period then if in_type I128 stroops
        then Inr [(''period_ledgers'', period), (''spending_limit'', stroops)]
        else Inl (TypeError ''out of range'') else Inl (TypeError ''out of range''))"
  by (simp add: spendingLimitParamsScVal_def installType_def struct_spec_def limit_fields_def encodeField_def)

text \<open>
  A limit that the form accepts, over any of the offered periods, can be installed, and the
  contract receives that limit and that period.
\<close>

lemma accepted_limit_installs:
  assumes "stroopsFromXlm s = Inr n"
  shows "spendingLimitParamsScVal (struct_spec limit_fields) n (int (PERIOD_LEDGERS p)) =
    Inr [(''period_ledgers'', int (PERIOD_LEDGERS p)), (''spending_limit'', n)]"
proof -
  have "0 < n" "n \<le> MAX_LIMIT_XLM * 10000000"
    using assms by (auto simp: stroopsFromXlm_def split: sum.splits if_splits)
  then have "in_type I128 n" by (simp add: in_type_def MAX_LIMIT_XLM_def)
  moreover have "in_type U32 (int (PERIOD_LEDGERS p))"
    by (cases p) (simp_all add: in_type_def PERIOD_LEDGERS_def)
  ultimately show ?thesis by (simp add: limit_encoded)
qed

text \<open>A planned threshold installs if it fits the field; the field does not keep it below the number of signers.\<close>

lemma threshold_encoded:
  "thresholdInstallParam (struct_spec threshold_fields) t =
     (if 0 \<le> t \<and> t < 2 ^ 32 then Inr [(''threshold'', t)] else Inl (TypeError ''out of range''))"
  by (simp add: thresholdInstallParam_def installType_def struct_spec_def threshold_fields_def encodeField_def in_type_def)

text \<open>Bindings without the input are refused before anything is signed.\<close>

lemma no_install_input:
  "spec_inputs spec ''install'' = Inr [] \<Longrightarrow> (\<exists>e. thresholdInstallParam spec t = Inl e) \<and> (\<exists>e. spendingLimitParamsScVal spec n p = Inl e)"
  by (simp add: thresholdInstallParam_def spendingLimitParamsScVal_def installType_def)

end
