(* ===== verification/Spec2Isabelle.thy ===== *)
theory Spec2Isabelle
  imports AuthHash Encoding Webauthn_Spec PoolIndexer Relay Money Policies Url Resolver Auth Submit Chain WalletKit Storage Rotation Signing ZkRecovery Review SignRequest RecoverySetup SharedStorage Icons Connect Deploy Subscription Home Menu Gateway StatusPage InstallParams
begin

text \<open>
  Nido is a smart-account wallet for the Stellar network: an account is a contract whose signers
  are passkeys, and the wallet is a web page. This development models the TypeScript of the
  wallet: its SDK (\<open>src/packages/passkey-sdk\<close>), the logic behind its pages
  (\<open>src/packages/frontend/src/lib\<close>), the module through which a dApp reaches it
  (\<open>src/packages/stellar-wallets-kit-module\<close>) and the services beside it
  (\<open>src/infra\<close>).

  \<^bold>\<open>The parts and how they interact.\<close> A page names an account by its host name
  (\<open>url.ts\<close>); a name is resolved by the registry or the resolver service. An operation of the
  account is a transaction whose authorization entry the account's contract checks: the wallet
  simulates it, hashes the entry together with the identifiers of the context rules it relies on
  (\<open>auth.ts\<close>), has the passkey sign the digest, rewrites the entry with the signature, and hands
  the transaction to a fee-paying relayer whose plugin accepts a fixed list of calls. The rules
  of an account are read from its contract and classified into policy blocks; changes are
  planned as lists of operations. An account whose passkey is lost is recovered in one of two
  ways. \<^bold>\<open>Friends\<close>: the owner stages rotation transactions in a public store, each friend
  signs its own digest of them, the replies travel by link or mailbox, and the owner puts them
  under the parent entry. \<^bold>\<open>Zero knowledge\<close>: an enrollment puts a Poseidon2 commitment in a
  pool contract; to recover, the client rebuilds the pool's Merkle tree from leaves it does not
  trust, feeds the circuit, and submits the proof; a pending request can be cancelled, burned or
  completed after a delay.

  \<^bold>\<open>Theories.\<close>
  \<^item> \<open>Prelude\<close>, \<open>JsString\<close>, \<open>Json\<close>, \<open>Json_Text\<close>: results and errors, the strings of JavaScript,
    JSON values and their text. Each raise of the source is a value of \<open>js_error\<close>, carrying the
    fixed part of its message.
  \<^item> \<open>Field\<close>, \<open>Merkle\<close>, \<open>Merkle_Spec\<close>, \<open>PoolSync\<close>, \<open>AuthHash\<close>: \<open>passkey-sdk/src/zkRecovery\<close>.
    \<open>Merkle\<close> has the client's tree, which rebuilds its layers, and the indexer's incremental
    one; \<open>Merkle_Spec\<close> states what both compute, and that a path proves membership.
    \<open>PoolSync\<close> merges untrusted leaves and accepts them only under a root of the chain.
  \<^item> \<open>Encoding\<close>, \<open>Webauthn\<close>, \<open>Webauthn_Spec\<close>: \<open>encoding.ts\<close> and \<open>webauthn.ts\<close>; hexadecimal and
    base64url, DER to compact signatures, the CBOR reader and the key of a registration.
  \<^item> \<open>PoolIndexer\<close>, \<open>Relay\<close>, \<open>Resolver\<close>: the services of \<open>src/infra\<close>, as state transformers on
    their stores, and the relayer's allowlist.
  \<^item> \<open>Money\<close>: \<open>money.ts\<close>, the parameters of a spending limit and its reading from the chain.
  \<^item> \<open>Policies\<close>: \<open>passkey-sdk/src/policyBlocks\<close>: classification, planning, and key rotation as a
    state machine on the contract's rules. \<open>Chain\<close>: \<open>policyChainFetch.ts\<close>, reading the rules.
  \<^item> \<open>Url\<close>: \<open>url.ts\<close>, \<open>accountLinks.ts\<close>, \<open>claimFlow.ts\<close> and the name parts of the wallet.
  \<^item> \<open>Auth\<close>, \<open>Submit\<close>, \<open>Signing\<close>: \<open>auth.ts\<close>, \<open>multiSigner.ts\<close>, \<open>relayer.ts\<close>,
    \<open>signing/submit.ts\<close>, \<open>primaryPasskeySigner.ts\<close>, \<open>walletSign.ts\<close>: from an operation to a
    confirmed transaction.
  \<^item> \<open>SignReview\<close>, \<open>Review\<close>, \<open>SignRequest\<close>: \<open>lib/signing\<close>: the summary of a transaction that the
    user confirms, its escaped markup, the requests of other sites with their stash and return
    addresses, and the engine that signs what was shown.
  \<^item> \<open>Sessions\<close>: \<open>sessionKey.ts\<close>, \<open>delegationHandover.ts\<close> and \<open>nidoSign.ts\<close> of the example
    dApp: session keys, their delegation through a redirect, and signing with them.
  \<^item> \<open>SharedStorage\<close>: \<open>nidoSharedStorage.ts\<close> and the bridge page: the account list shared by the
    hosts of the wallet, as a join of snapshots exchanged by messages.
  \<^item> \<open>Activity\<close>, \<open>Assets\<close>, \<open>Icons\<close>: \<open>lib/activity\<close> and \<open>lib/assets\<close>: the walk over the events of
    an account, its classification into rows, and the tokens an account holds.
  \<^item> \<open>RecoverySetup\<close>: \<open>recoveryForm.ts\<close> and the installation of the recovery rule: the form of
    friends and threshold, its answers that arrive late, and the rule that is saved.
  \<^item> \<open>Connect\<close>, \<open>Deploy\<close>, \<open>Subscription\<close>: the example dApp and \<open>deploy.ts\<close>: the wallet state that
    a provider polls and restores, the deployment of an account, and the polling of events.
  \<^item> \<open>Home\<close>: what the pages of an account compute: its security summary, the reminder to back
    up, the label of a passkey, and a balance in figures.
  \<^item> \<open>Menu\<close>: \<open>nidoSwitcher.ts\<close> and the modules under it: the rows of the account menu, names from
    the registry, and the background checks as an inductive relation on callbacks.
  \<^item> \<open>InstallParams\<close>: the parameters with which the policies of a rule are installed.
  \<^item> \<open>Gateway\<close>: the proxy of the subdomains, and the example dApp's readers of names and rules.
    \<open>StatusPage\<close>: the example's page as a machine of events, with its tips.
  \<^item> \<open>WalletKit\<close>: the popup and redirect protocols between a dApp and the wallet, as sequences of
    messages and reloads. \<open>Storage\<close>: \<open>storage.ts\<close>, the browser's store.
  \<^item> \<open>Handoff\<close>, \<open>RecoveryServices\<close>, \<open>Recovery\<close>, \<open>Rotation\<close>: \<open>friendSigning.ts\<close>,
    \<open>refractorClient.ts\<close>, \<open>relayClient.ts\<close> and \<open>recoveryActions.ts\<close>: the three parties of a
    recovery by friends, with the steps of a session as an inductive relation.
  \<^item> \<open>ZkProver\<close>, \<open>ZkOps\<close>, \<open>ZkPool\<close>, \<open>ZkRecovery\<close>: \<open>lib/zk/*\<close>, \<open>zkRecovery/recovery.ts\<close>,
    \<open>overlay.ts\<close>, \<open>walletRecoverySign.ts\<close> and \<open>zkRecoveryActions.ts\<close>; \<open>zk_circuit\<close> restates the
    Noir circuit of \<open>src/circuits\<close>, so that the inputs the client assembles are shown to
    satisfy it.

  \<^bold>\<open>What the lemmas show.\<close> For the cryptographic structure: paths of the Merkle trees verify
  and determine the leaf unless the hash collides; a pool that is accepted is the pool of the
  chain; the inputs of a recovery satisfy the circuit. For signing: the digest the passkey signs
  is the one the contract computes for the entry that is submitted, and what is submitted
  differs from the simulated transaction in nothing else. For recovery by friends: a friend
  signs what the chain demands for the staged transaction, a session keeps one reply per chosen
  friend, an accepted transaction is never submitted twice. For the stores: invariants over all
  sequences of operations. For parsers and printers: round trips and exact domains. For
  planning: with the state of the rule and a threshold policy at hand, no planned rotation ends
  in a rule that needs every one of several signers. Interfaces are
  locales (a hash with its field, a key-value store, a chain's view functions, a provider of
  leaves, and others), each interpreted on the model's own definitions.

  \<^bold>\<open>Parameters.\<close> Code that is not in the repository is an argument of the definitions that use
  it: SHA-256, Poseidon2 and the prover, WebCrypto, the authenticator, the XDR codec of the
  Stellar SDK, the RPC and the relayer, \<open>fetch\<close>, the clock and random numbers. Named hypotheses
  (an XDR encoding is injective, a hash does not collide on the two inputs at hand, the RPC
  answers from the ledger) stand where a property needs them, and its witness instantiates the
  parameter by a concrete function. \<open>noirField\<close> is the prover library's reading of a hexadecimal
  input.

  \<^bold>\<open>Loops and bounds.\<close> Where the source bounds a loop, the bound is the source's: 55 polls of
  the relayer, 30 of a transaction, 1000 pages of events, \<open>count + 100\<close> identifiers in a scan for
  rules. Where it does not, the recursion is structural or has a measure, or takes fuel: the CBOR
  skipper takes the number of bytes (\<open>skip_fuel_adequate\<close>), listing a key-value store takes the
  number of its pages, and the JSON parser takes the length of its text, which each round-trip
  theorem shows to be enough. The wait for a deployed account has no bound in the source: it is a
  \<open>partial_function\<close>, and \<open>deployment_returns\<close> shows when it ends. Numbers of
  JavaScript are integers, with the bounds of the source written out; amounts that the contract reads as \<open>i128\<close> and ledger numbers (\<open>u32\<close>) keep their
  ranges. Waiting is left out: a sleep between two polls has no effect on the state.

  \<^bold>\<open>Not modelled.\<close> Pages and components (Astro and TSX files, apart from the example's wallet
  provider and status page), toasts, the passkey sheet, the wallet button and icons: they build
  and wire elements of a document, and what they compute is in the modules above. \<open>contract-bindings\<close>: clients generated from the contracts; the calls the wallet
  makes through them are the constructors of the invocations modelled here. The contracts and
  circuits themselves are Rust and Noir; what the client relies on of them is restated where a
  theorem needs it. Scripts, spikes, mocks and test support. The text of the technical details
  of a transaction, and the balances of classic accounts from Horizon. The parts of a modelled file that only start the
  clients of a library or format text for display.
\<close>

end
